(* ===== verification/MPD_Prelude.thy ===== *)
theory MPD_Prelude
  imports Main "HOL-Library.Word"
begin

unbundle bit_operations_syntax

text \<open>
  What the component theories share: the names of the C integer types, the constants of
  \<^verbatim>\<open>mpd.h\<close>, the faults a C statement can run into and the result type that carries them,
  bounded loops, the arithmetic of ring indices, the 16-bit sequence numbers with the
  macro \<^verbatim>\<open>DISTANCESN\<close>, and big-endian byte pairs.
\<close>

section \<open>Collections of simplification rules\<close>

named_theorems res_simps "the bind of results"
named_theorems ring_simps "indices of a ring of slots"
named_theorems sn_simps "16-bit sequence numbers"
named_theorems byte_simps "bytes and big-endian fields"

section \<open>Integer types and constants of mpd.h\<close>

type_synonym U8 = "8 word"
type_synonym U16 = "16 word"
type_synonym U32 = "32 word"

abbreviation NUM_SUBFLOW :: nat where "NUM_SUBFLOW \<equiv> 3"
abbreviation MAX_USER_NUM :: nat where "MAX_USER_NUM \<equiv> 100"
abbreviation MAX_SACK_NUM :: nat where "MAX_SACK_NUM \<equiv> 11"
abbreviation MAX_TX_WINDOW_SIZE :: nat where "MAX_TX_WINDOW_SIZE \<equiv> 1024"
abbreviation RxSubWinMaxSize :: nat where "RxSubWinMaxSize \<equiv> 1024"
abbreviation RxDataWinMaxSize :: nat where "RxDataWinMaxSize \<equiv> 4096"
abbreviation DataWaitQueueSize :: nat where "DataWaitQueueSize \<equiv> 512"
abbreviation LEN_MPD_HEADER :: nat where "LEN_MPD_HEADER \<equiv> 12"
abbreviation MPD_PACKTET_FLAG :: U8 where "MPD_PACKTET_FLAG \<equiv> 0x55"
abbreviation MPD_IDLE_TH :: U32 where "MPD_IDLE_TH \<equiv> 6000"
abbreviation SackTimeOut :: U32 where "SackTimeOut \<equiv> 1"
abbreviation RCV_SN_RANGE :: nat where "RCV_SN_RANGE \<equiv> 32767"
abbreviation RETRANS_TO_MC :: U32 where "RETRANS_TO_MC \<equiv> 10"
abbreviation RETRANS_TO_OTHER :: U32 where "RETRANS_TO_OTHER \<equiv> 6"
abbreviation T_PKT :: U32 where "T_PKT \<equiv> 50"
abbreviation T_TC_PERIOD :: U32 where "T_TC_PERIOD \<equiv> 100"

section \<open>Faults and results\<close>

text \<open>
  A fault is a statement whose C semantics is undefined (an access outside an object, through
  a dangling or null pointer, a second free, a division by zero, a shift by more than the width), a failed assertion, or a loop that
  has used up the bound of its model.
\<close>

datatype fault =
    NullDeref
  | OutOfBounds
  | UseAfterFree
  | BadFree
  | DivByZero
  | AssertFail
  | OutOfFuel
  | BadShift

type_synonym 'a res = "fault + 'a"

fun bindR :: "'a res \<Rightarrow> ('a \<Rightarrow> 'b res) \<Rightarrow> 'b res" where
  "bindR (Inl e) f = Inl e"
| "bindR (Inr x) f = f x"

lemma bindR_Inr_iff [res_simps]: "bindR m f = Inr y \<longleftrightarrow> (\<exists>x. m = Inr x \<and> f x = Inr y)"
  by (cases m) auto

lemma bindR_assoc: "bindR (bindR m f) g = bindR m (\<lambda>x. bindR (f x) g)"
  by (cases m) auto

lemma bindR_Inr_right [simp]: "bindR m Inr = m"
  by (cases m) auto

text \<open>A \<^verbatim>\<open>for\<close> loop over a list of indices, stopping at the first fault.\<close>

fun forR :: "('i \<Rightarrow> 's \<Rightarrow> 's res) \<Rightarrow> 'i list \<Rightarrow> 's \<Rightarrow> 's res" where
  "forR f [] s = Inr s"
| "forR f (i # is) s = bindR (f i s) (forR f is)"

lemma forR_append: "forR f (xs @ ys) s = bindR (forR f xs s) (forR f ys)"
proof (induction xs arbitrary: s)
  case (Cons x xs)
  then have "forR f (xs @ ys) = (\<lambda>s. bindR (forR f xs s) (forR f ys))"
    by auto
  then show ?case by (simp add: bindR_assoc)
qed simp

lemma forR_inv:
  assumes "\<And>i s s'. i \<in> set is \<Longrightarrow> P s \<Longrightarrow> f i s = Inr s' \<Longrightarrow> P s'"
    and "P s" and "forR f is s = Inr s'"
  shows "P s'"
  using assms
proof (induction "is" arbitrary: s)
  case Nil
  then show ?case by simp
next
  case (Cons i "is")
  from Cons.prems(3) obtain t where t: "f i s = Inr t" "forR f is t = Inr s'"
    by (auto simp: res_simps)
  have "P t"
    using Cons.prems(1)[of i s t] Cons.prems(2) t(1) by simp
  with t(2) show ?case
    using Cons.IH Cons.prems(1) by (meson list.set_intros(2))
qed

lemma forR_total:
  assumes "\<And>i s. i \<in> set is \<Longrightarrow> P s \<Longrightarrow> \<exists>s'. f i s = Inr s' \<and> P s'" and "P s"
  shows "\<exists>s'. forR f is s = Inr s' \<and> P s'"
  using assms
proof (induction "is" arbitrary: s)
  case Nil
  then show ?case by simp
next
  case (Cons i "is")
  then obtain t where "f i s = Inr t" "P t" by (meson list.set_intros(1))
  with Cons show ?case by simp
qed

text \<open>Loops over \<open>0 .. n - 1\<close> with an invariant that knows the index.\<close>

lemma forR_upt:
  assumes "\<And>i s. i < n \<Longrightarrow> P i s \<Longrightarrow> \<exists>s'. f i s = Inr s' \<and> P (Suc i) s'" and "P 0 s"
  shows "\<exists>s'. forR f [0..<n] s = Inr s' \<and> P n s'"
  using assms
proof (induction n)
  case (Suc n)
  then obtain t where "forR f [0..<n] s = Inr t" "P n t"
    by (meson less_Suc_eq)
  with Suc.prems(1)[of n t] show ?case by (auto simp: forR_append)
qed simp

lemma fold_upt:
  assumes "\<And>i s. i < n \<Longrightarrow> P i s \<Longrightarrow> P (Suc i) (f i s)" and "P 0 s"
  shows "P n (fold f [0..<n] s)"
  using assms by (induction n) auto

section \<open>Rings of slots\<close>

text \<open>
  \<^term>\<open>rsucc\<close> is the index after \<open>i\<close> in a ring of \<open>N\<close> slots (the code's \<^verbatim>\<open>(n+1)%Size\<close>,
  or the pointer increment with its wrap at the last slot) and \<^term>\<open>rdist\<close> the number of
  steps from \<open>i\<close> to \<open>j\<close>.
\<close>

definition rsucc :: "nat \<Rightarrow> nat \<Rightarrow> nat" where
  "rsucc N i = (i + 1) mod N"

definition rdist :: "nat \<Rightarrow> nat \<Rightarrow> nat \<Rightarrow> nat" where
  "rdist N i j = (j + N - i) mod N"

lemma rsucc_less [ring_simps]: "0 < N \<Longrightarrow> rsucc N i < N"
  by (simp add: rsucc_def)

lemma rdist_less [ring_simps]: "0 < N \<Longrightarrow> rdist N i j < N"
  by (simp add: rdist_def)

lemma rdist_alt: "i < N \<Longrightarrow> j < N \<Longrightarrow> rdist N i j = (if i \<le> j then j - i else j + N - i)"
  by (auto simp: rdist_def mod_if)

lemma rsucc_alt: "i < N \<Longrightarrow> rsucc N i = (if i = N - 1 then 0 else i + 1)"
  by (auto simp: rsucc_def mod_if)

lemma rdist_0 [ring_simps]: "i < N \<Longrightarrow> j < N \<Longrightarrow> rdist N i j = 0 \<longleftrightarrow> i = j"
  by (auto simp: rdist_alt split: if_splits)

lemma rdist_self [simp]: "rdist N i i = 0"
  by (cases "N = 0") (auto simp: rdist_def)

lemma rdist_rsucc_left: "i < N \<Longrightarrow> j < N \<Longrightarrow> i \<noteq> j \<Longrightarrow> rdist N (rsucc N i) j = rdist N i j - 1"
  by (auto simp: rdist_alt rsucc_alt split: if_splits)

lemma rdist_rsucc_right:
  "i < N \<Longrightarrow> j < N \<Longrightarrow> rsucc N j \<noteq> i \<Longrightarrow> rdist N i (rsucc N j) = rdist N i j + 1"
  by (auto simp: rdist_alt rsucc_alt split: if_splits)

lemma rdist_full: "i < N \<Longrightarrow> j < N \<Longrightarrow> rsucc N j = i \<Longrightarrow> rdist N i j = N - 1"
  by (auto simp: rdist_alt rsucc_alt split: if_splits)

lemma rdist_full_iff:
  "i < N \<Longrightarrow> j < N \<Longrightarrow> rdist N i j = N - 1 \<longleftrightarrow> rsucc N j = i"
  by (auto simp: rdist_alt rsucc_alt split: if_splits)

lemma rdist_add: "i < N \<Longrightarrow> k < N \<Longrightarrow> rdist N i ((i + k) mod N) = k"
  by (auto simp: rdist_alt mod_if)

lemma add_rdist: "i < N \<Longrightarrow> j < N \<Longrightarrow> (i + rdist N i j) mod N = j"
  by (auto simp: rdist_alt mod_if)

lemma rsucc_add: "(rsucc N i + k) mod N = (i + Suc k) mod N"
  by (simp add: rsucc_def mod_simps)

lemma add_mod_inj: "i < N \<Longrightarrow> k < N \<Longrightarrow> l < N \<Longrightarrow> (i + k) mod N = (i + l) mod N \<longleftrightarrow> k = (l::nat)"
  by (auto simp: mod_if split: if_splits)

section \<open>Sequence numbers\<close>

text \<open>
  Sequence numbers are unsigned 16-bit. The macro of \<^verbatim>\<open>mpd.h\<close> computes in \<^verbatim>\<open>int\<close>, where
  nothing wraps: \<^verbatim>\<open>(((b)+MAX_SN-(a)) & (MAX_SN-1))\<close> with \<^verbatim>\<open>MAX_SN\<close> 65536.
\<close>

definition DISTANCESN :: "U16 \<Rightarrow> U16 \<Rightarrow> nat" where
  "DISTANCESN a b = ((unat b + 65536 - unat a) AND 65535)"

definition SsnPlus :: "U16 \<Rightarrow> U16" where
  "SsnPlus n = word_of_nat ((unat n + 1) mod 65536)"

lemma unat_U16_less [sn_simps]: "unat (x::U16) < 65536"
  by (rule order_less_le_trans [OF unsigned_less]) simp

lemma and_65535_nat: "(n::nat) AND 65535 = n mod 65536"
proof -
  have "(n::nat) AND mask 16 = n mod 2 ^ 16"
    by (simp only: take_bit_eq_mask[symmetric] take_bit_eq_mod)
  then show ?thesis by (simp add: mask_eq_exp_minus_1)
qed

lemma unat_sub_U16: "unat (b - a :: U16) = (if unat a \<le> unat b then unat b - unat a else unat b + 65536 - unat a)"
  by (simp add: unat_sub_if_size word_size)

lemma diff_mod_wrap: "a < N \<Longrightarrow> b < N \<Longrightarrow> (b + N - a) mod N = (if a \<le> b then b - a else b + N - (a::nat))"
proof (cases "a \<le> b")
  case True
  assume "a < N" "b < N"
  from True have "b + N - a = (b - a) + N" by simp
  then have "(b + N - a) mod N = (b - a) mod N" by (simp only: mod_add_self2)
  with True \<open>b < N\<close> show ?thesis by simp
qed simp

lemma DISTANCESN_unat: "DISTANCESN a b = unat (b - a)"
  unfolding DISTANCESN_def and_65535_nat unat_sub_U16
  by (rule diff_mod_wrap) (rule unat_U16_less)+

lemma SsnPlus_eq [sn_simps]: "SsnPlus n = n + 1"
  by (simp add: SsnPlus_def word_unat_eq_iff unat_word_ariths unat_of_nat)

lemma DISTANCESN_0 [sn_simps]: "DISTANCESN a b = 0 \<longleftrightarrow> a = b"
  by (auto simp: DISTANCESN_unat unat_eq_0)

lemma DISTANCESN_self [simp]: "DISTANCESN a a = 0"
  by (simp add: DISTANCESN_unat)

lemma DISTANCESN_less [sn_simps]: "DISTANCESN a b < 65536"
  by (simp add: DISTANCESN_unat unat_U16_less)

lemma DISTANCESN_add [sn_simps]: "k < 65536 \<Longrightarrow> DISTANCESN a (a + of_nat k) = k"
  by (simp add: DISTANCESN_unat unat_of_nat)

lemma DISTANCESN_sub [sn_simps]: "k < 65536 \<Longrightarrow> DISTANCESN (a - of_nat k) a = k"
  by (simp add: DISTANCESN_unat unat_of_nat)

lemma of_nat_DISTANCESN [sn_simps]: "a + of_nat (DISTANCESN a b) = b"
  by (simp add: DISTANCESN_unat)

lemma DISTANCESN_swap:
  assumes "a \<noteq> b"
  shows "DISTANCESN a b + DISTANCESN b a = 65536"
proof -
  have "unat a < 65536" "unat b < 65536" by (rule unat_U16_less)+
  moreover have "unat a \<noteq> unat b" using assms by (simp add: word_unat_eq_iff)
  ultimately show ?thesis
    unfolding DISTANCESN_unat unat_sub_U16 by auto
qed

section \<open>Big-endian byte pairs\<close>

definition hi8 :: "U16 \<Rightarrow> U8" where "hi8 x = ucast (drop_bit 8 x)"
definition lo8 :: "U16 \<Rightarrow> U8" where "lo8 x = ucast x"
definition be16 :: "U8 \<Rightarrow> U8 \<Rightarrow> U16" where "be16 h l = push_bit 8 (ucast h) + ucast l"

definition be32_bytes :: "U32 \<Rightarrow> U8 list" where
  "be32_bytes x = [ucast (drop_bit 24 x), ucast (drop_bit 16 x), ucast (drop_bit 8 x), ucast x]"

lemma be16_hi8_lo8 [byte_simps]: "be16 (hi8 x) (lo8 x) = x"
proof -
  have "push_bit 8 (ucast (ucast (drop_bit 8 x) :: U8)) + (ucast (ucast x :: U8) :: U16)
      = push_bit 8 (ucast (ucast (drop_bit 8 x) :: U8)) OR (ucast (ucast x :: U8) :: U16)"
    by (rule disjunctive_add) (auto simp: bit_simps)
  also have "\<dots> = x"
    by (rule bit_word_eqI) (auto simp: bit_simps)
  finally show ?thesis by (simp add: be16_def hi8_def lo8_def)
qed

lemma length_be32_bytes [simp]: "length (be32_bytes x) = 4"
  by (simp add: be32_bytes_def)

end
