(* ===== verification/MPD_Types.thy ===== *)
theory MPD_Types
  imports MPD_Prelude
begin

text \<open>
  The data model of the multi-path driver (\<^verbatim>\<open>mpd.h\<close>, \<^verbatim>\<open>mpd_rx.h\<close>, \<^verbatim>\<open>mpd_tx.h\<close>,
  \<^verbatim>\<open>mpd_schd.h\<close>) in the configuration that \<^verbatim>\<open>Android.mk\<close> builds: \<^verbatim>\<open>MAG\<close> undefined, 32-bit, and the
  switches at the top of \<^verbatim>\<open>mpd.h\<close>. A C array is a function from its indices; a pointer into
  an array (\<^verbatim>\<open>pTxBegin\<close>, \<^verbatim>\<open>pTxNext\<close>, \<^verbatim>\<open>pTxLast\<close>) is the index it points at; a pointer to a
  message buffer is an address in the store of byte blocks at the end of this theory, with 0
  for \<^verbatim>\<open>NULL\<close>. Fields that several structs share carry a short prefix.
\<close>

section \<open>Enumerations\<close>

datatype eTransState = DATA_INIT | WAITING_SEND | WAITING_ACK | SACKED
datatype eNodeStatus = UnReceived | Received | ReceiveComplete
datatype eAckFlag = UnChecked | Checked | Sended

text \<open>Values of \<^verbatim>\<open>eSubFlowStateInd\<close> and \<^verbatim>\<open>eFrag\<close> that the code compares integers with.\<close>

abbreviation MP_DISABLE :: U32 where "MP_DISABLE \<equiv> 2"
abbreviation MP_ENABLE :: U32 where "MP_ENABLE \<equiv> 3"
abbreviation NoFrag :: U8 where "NoFrag \<equiv> 0"
abbreviation FirstFrag :: U8 where "FirstFrag \<equiv> 1"
abbreviation SecondFrag :: U8 where "SecondFrag \<equiv> 2"
abbreviation AllFrag :: U8 where "AllFrag \<equiv> 3"

abbreviation SEND_FAIL :: int where "SEND_FAIL \<equiv> -1"
abbreviation SEND_SUCCESS :: int where "SEND_SUCCESS \<equiv> 0"

section \<open>Transmit window\<close>

type_synonym addr = nat

record stDataNode =
  dn_DSN :: U16
  dn_SSN :: U16
  magic1 :: U32
  pData1 :: addr
  pData :: addr
  magic2 :: U32
  transState :: eTransState
  T1 :: U32
  TO_dataAck :: U32
  TO_retrans :: U32
  reTxCnt :: U16
  payloadLen :: U16

definition dn_zero :: stDataNode where
  "dn_zero = \<lparr>dn_DSN = 0, dn_SSN = 0, magic1 = 0, pData1 = 0, pData = 0, magic2 = 0,
     transState = DATA_INIT, T1 = 0, TO_dataAck = 0, TO_retrans = 0, reTxCnt = 0, payloadLen = 0\<rparr>"

record stTxWin =
  pTxBegin :: nat
  pTxNext :: nat
  dataNode :: "nat \<Rightarrow> stDataNode"
  subflowSn :: U16
  ackTimeOutcnt :: U16
  retransCnt :: U16
  histA :: U32
  lastTxTime :: U32
  lastSendAckTime :: U32
  lastSendPktTime :: U32
  pTxLast :: "nat option"
  timeOutRetCnt :: U16
  lastTxBeginSsn :: U16

definition txwin_zero :: stTxWin where
  "txwin_zero = \<lparr>pTxBegin = 0, pTxNext = 0, dataNode = (\<lambda>_. dn_zero), subflowSn = 0,
     ackTimeOutcnt = 0, retransCnt = 0, histA = 0, lastTxTime = 0, lastSendAckTime = 0,
     lastSendPktTime = 0, pTxLast = None, timeOutRetCnt = 0, lastTxBeginSsn = 0\<rparr>"

section \<open>Receive windows\<close>

record stRxSubWinNode =
  sn_status :: eNodeStatus
  sn_SSN :: U16

record stRxSubWin =
  sw_Win :: "nat \<Rightarrow> stRxSubWinNode"
  sw_RxBegin :: nat
  sw_RxNext :: nat
  SentAck :: U16
  dataWinSSN :: U16
  lastRxBegin :: nat

definition subwin_zero :: stRxSubWin where
  "subwin_zero = \<lparr>sw_Win = (\<lambda>_. \<lparr>sn_status = UnReceived, sn_SSN = 0\<rparr>), sw_RxBegin = 0,
     sw_RxNext = 0, SentAck = 0, dataWinSSN = 0, lastRxBegin = 0\<rparr>"

record stRxDataWinNode =
  ack_flag :: eAckFlag
  dw_status :: eNodeStatus
  timeOut :: bool
  fragment :: U8
  mpdHeadLen :: U8
  stream :: nat
  dw_SSN :: U16
  dw_DSN :: U16
  msgLen :: "nat \<Rightarrow> U16"
  Time :: U32
  msgPtr :: "nat \<Rightarrow> addr"

definition dwn_zero :: stRxDataWinNode where
  "dwn_zero = \<lparr>ack_flag = UnChecked, dw_status = UnReceived, timeOut = False, fragment = 0,
     mpdHeadLen = 0, stream = 0, dw_SSN = 0, dw_DSN = 0, msgLen = (\<lambda>_. 0), Time = 0,
     msgPtr = (\<lambda>_. 0)\<rparr>"

record stRxDataWin =
  dw_Win :: "nat \<Rightarrow> stRxDataWinNode"
  dw_RxBegin :: nat
  dw_RxNext :: nat
  NewData :: bool

definition datawin_zero :: stRxDataWin where
  "datawin_zero = \<lparr>dw_Win = (\<lambda>_. dwn_zero), dw_RxBegin = 0, dw_RxNext = 0, NewData = False\<rparr>"

text \<open>\<^verbatim>\<open>stMPDNodeInfo\<close>: what the parser hands to the receive windows.\<close>

record stMPDNodeInfo =
  ni_stream :: nat
  ni_fragment :: U8
  ni_DSN :: U16
  ni_SSN :: U16
  ni_msgLen :: U16
  ni_mpdHeadLen :: U8
  ni_msgPtr :: addr

section \<open>Scheduling and traffic control\<close>

record stWaitSendNode =
  PData :: addr
  wq_len :: int

definition wq_zero :: stWaitSendNode where
  "wq_zero = \<lparr>PData = 0, wq_len = 0\<rparr>"

record stTrafficControl =
  pktRate :: U32
  pktRatePre :: U32
  pktCntTx :: U32
  scaleFactor :: U32
  lossThrsh :: U32
  pktRateAvg :: U32
  throuputLimit :: U32
  acceleratedPkt :: U32
  pktLossCnt :: U32
  ssnBegin :: U16
  ssnEnd :: U16
  sackNum :: U32
  acceleratedCnt :: U32
  quitTrafficCtlCnt :: U32
  isTrafficCtl :: bool
  isPktTxStop :: bool

record stSchdStreamPara =
  isValid :: U8
  RTTNew :: U32
  RTTFlow :: U32
  Nweight :: U32
  wCnt :: U32
  InhertDelay :: U32
  PktAvg :: U32
  PktCnt :: U32
  pktRetCnt :: U32
  PktChooseCnt :: U32
  ModifyFactor :: U32
  txWinEmptyCnt :: U32
  ThCnt :: U8
  isSendPkt :: bool
  isRttUpdate :: bool
  isPeriodRttUpdate :: bool

record stSchdCfg =
  scaleRTTFlow :: U8
  scalePktV :: U8
  weightUpdatePeriod :: U16
  NN :: U32
  wCntOverflowTh :: U32

record stSACKBlock =
  leftEdgeSSN :: U16
  rightEdgeSSN :: U16

section \<open>A user session\<close>

text \<open>
  \<^verbatim>\<open>RTTFlowMax\<close> is kept as the 32-bit pattern of its \<^verbatim>\<open>S32\<close>. The two edges of a SACK block, two
  big-endian byte pairs in the C struct, are kept as the 16-bit numbers they spell.
\<close>

record stUserInfo =
  addressID :: U32
  uid :: U32
  lastPackageTime :: U32
  txWindow :: "nat \<Rightarrow> stTxWin"
  txDataSn :: U16
  rxDsnErr :: U16
  RxSubWin :: "nat \<Rightarrow> stRxSubWin"
  RxDataWin :: stRxDataWin
  SendSackTime :: U32
  schdPara :: "nat \<Rightarrow> stSchdStreamPara"
  RTTFlowMax :: U32
  pDataWaiteHead :: nat
  pDataWaiteTail :: nat
  dataWaitQueue :: "nat \<Rightarrow> stWaitSendNode"
  trafficControl :: "nat \<Rightarrow> stTrafficControl"
  trafficCtlTime :: U32
  throuputTotal :: U32
  isAllFlowTrafficCtl :: bool
  sackBlock :: "nat \<Rightarrow> stSACKBlock"
  tcDelPktCnt :: U32
  txPktCnt :: U32
  txPktFreeCnt :: U32
  isMpStopSched :: bool
  totalToAckNum :: U32
  activeFlowNum :: U32
  exceptionCode :: "nat \<Rightarrow> int"

section \<open>Calls out of the driver, and the globals\<close>

text \<open>
  The driver reaches the rest of the system through the table of callbacks \<^verbatim>\<open>RAT_Env\<close> that
  \<^verbatim>\<open>MPD_Init\<close> receives. Each call is an event of the trace. \<open>EvPost\<close> hands a received buffer
  (contents included) to the transport, \<open>EvSend\<close> a buffer to the send queue of a device with
  its release flag, \<open>EvNotify\<close> reports an exception, \<open>EvFreeResend\<close> asks for the release of a
  buffer that was retransmitted.
\<close>

datatype mpd_event =
    EvPost addr "U8 list" nat nat
  | EvSend int addr "U8 list" nat bool
  | EvNotify int int
  | EvFreeResend addr nat

text \<open>
  The state a call works on: the session that \<^verbatim>\<open>pUser\<close> points at, extended by the globals of
  \<^verbatim>\<open>mpd.c\<close> and \<^verbatim>\<open>mpd_schd.c\<close>, the live message buffers, the number of the next fresh buffer
  and the trace (newest event first).
\<close>

record mpd_st = stUserInfo +
  g_time :: U32
  g_freeNum :: U32
  g_schdCfg :: stSchdCfg
  g_isTrafficCtl :: int
  g_InhertDelay :: int
  g_isMdelayMin :: int
  g_MminusPkt :: int
  mem :: "addr \<Rightarrow> U8 list option"
  brk :: addr
  trace :: "mpd_event list"

text \<open>
  What the environment decides: whether an allocation succeeds and what an uninitialised
  block holds, the result of a send, and the round-trip time the control layer reports. The
  answers may depend on everything that happened before.
\<close>

record rat_env =
  env_alloc :: "addr \<Rightarrow> mpd_event list \<Rightarrow> nat \<Rightarrow> bool"
  env_junk :: "addr \<Rightarrow> nat \<Rightarrow> U8"
  env_send :: "mpd_event list \<Rightarrow> int"
  env_rtt :: "mpd_event list \<Rightarrow> int \<Rightarrow> U32"

section \<open>Message buffers\<close>

text \<open>\<^verbatim>\<open>malloc\<close> (through \<^verbatim>\<open>MPD_MsgMemCreat\<close>): a fresh non-null block, or \<^verbatim>\<open>NULL\<close>.\<close>

definition MPD_MsgMemCreat :: "rat_env \<Rightarrow> nat \<Rightarrow> mpd_st \<Rightarrow> addr \<times> mpd_st" where
  "MPD_MsgMemCreat env n s =
     (if env_alloc env (brk s) (trace s) n
      then (brk s, s\<lparr>mem := (mem s)(brk s \<mapsto> map (env_junk env (brk s)) [0..<n]), brk := brk s + 1\<rparr>)
      else (0, s))"

text \<open>\<^verbatim>\<open>free\<close> (through \<^verbatim>\<open>MPD_MsgMemfree\<close>).\<close>

definition MPD_MsgMemfree :: "addr \<Rightarrow> mpd_st \<Rightarrow> mpd_st res" where
  "MPD_MsgMemfree a s =
     (if a = 0 then Inr s
      else if mem s a = None then Inl BadFree
      else Inr (s\<lparr>mem := (mem s)(a := None)\<rparr>))"

text \<open>Reads and writes of a run of bytes; \<^verbatim>\<open>memcpy\<close> is a read and a write.\<close>

definition mem_block :: "mpd_st \<Rightarrow> addr \<Rightarrow> U8 list res" where
  "mem_block s a =
     (if a = 0 then Inl NullDeref
      else case mem s a of None \<Rightarrow> Inl UseAfterFree | Some bs \<Rightarrow> Inr bs)"

definition mem_read :: "mpd_st \<Rightarrow> addr \<Rightarrow> nat \<Rightarrow> nat \<Rightarrow> U8 list res" where
  "mem_read s a off n =
     bindR (mem_block s a) (\<lambda>bs.
       if off + n \<le> length bs then Inr (take n (drop off bs)) else Inl OutOfBounds)"

definition mem_write :: "addr \<Rightarrow> nat \<Rightarrow> U8 list \<Rightarrow> mpd_st \<Rightarrow> mpd_st res" where
  "mem_write a off xs s =
     bindR (mem_block s a) (\<lambda>bs.
       if off + length xs \<le> length bs
       then Inr (s\<lparr>mem := (mem s)(a \<mapsto> take off bs @ xs @ drop (off + length xs) bs)\<rparr>)
       else Inl OutOfBounds)"

section \<open>The callbacks\<close>

text \<open>The transport takes the buffer over and releases it.\<close>

definition MPD_PostPreMPDataToTransport :: "addr \<Rightarrow> nat \<Rightarrow> nat \<Rightarrow> mpd_st \<Rightarrow> mpd_st res" where
  "MPD_PostPreMPDataToTransport a datalen offsize s =
     bindR (mem_block s a) (\<lambda>bs.
       Inr (s\<lparr>mem := (mem s)(a := None), trace := EvPost a bs datalen offsize # trace s\<rparr>))"

text \<open>With \<open>release\<close> the send queue takes the buffer over; otherwise it stays the driver's.\<close>

definition MPD_OnSendMPDataComplete ::
    "rat_env \<Rightarrow> int \<Rightarrow> addr \<Rightarrow> nat \<Rightarrow> bool \<Rightarrow> mpd_st \<Rightarrow> (int \<times> mpd_st) res" where
  "MPD_OnSendMPDataComplete env fd a datalen release s =
     bindR (mem_block s a) (\<lambda>bs.
       let s' = s\<lparr>mem := (if release then (mem s)(a := None) else mem s),
                  trace := EvSend fd a bs datalen release # trace s\<rparr>
       in Inr (env_send env (trace s'), s'))"

text \<open>
  \<^verbatim>\<open>g_sfId2Dev\<close> and \<^verbatim>\<open>g_dev2SfId\<close>. \<^verbatim>\<open>MPD_OnNotifyException\<close> indexes the table with its
  \<^verbatim>\<open>netType\<close> argument, a subflow number.
\<close>

definition g_sfId2Dev :: "int list" where "g_sfId2Dev = [1, 2, 4]"
definition g_dev2SfId :: "int list" where "g_dev2SfId = [-1, 0, 1, -1, 2]"

definition MPD_OnNotifyException :: "nat \<Rightarrow> int \<Rightarrow> mpd_st \<Rightarrow> mpd_st res" where
  "MPD_OnNotifyException netType code s =
     (if netType < NUM_SUBFLOW
      then Inr (s\<lparr>trace := EvNotify (g_sfId2Dev ! netType) code # trace s\<rparr>)
      else Inl OutOfBounds)"

definition MPD_RetransMsgMemfree :: "addr \<Rightarrow> nat \<Rightarrow> mpd_st \<Rightarrow> mpd_st res" where
  "MPD_RetransMsgMemfree a flowId s =
     bindR (mem_block s a) (\<lambda>_.
       Inr (s\<lparr>mem := (mem s)(a := None), trace := EvFreeResend a flowId # trace s,
              g_freeNum := g_freeNum s + 1\<rparr>))"

definition MPD_GetDeviceId :: "nat \<Rightarrow> int" where
  "MPD_GetDeviceId flowId = (if NUM_SUBFLOW \<le> flowId then -1 else g_sfId2Dev ! flowId)"

definition MPD_GetSubFlowId :: "U32 \<Rightarrow> int" where
  "MPD_GetSubFlowId deviceId = (if 4 < deviceId then -1 else g_dev2SfId ! unat deviceId)"

section \<open>Access to the parts of a session\<close>

definition upd_tx :: "nat \<Rightarrow> (stTxWin \<Rightarrow> stTxWin) \<Rightarrow> mpd_st \<Rightarrow> mpd_st" where
  "upd_tx i f s = s\<lparr>txWindow := (txWindow s)(i := f (txWindow s i))\<rparr>"

definition upd_sub :: "nat \<Rightarrow> (stRxSubWin \<Rightarrow> stRxSubWin) \<Rightarrow> mpd_st \<Rightarrow> mpd_st" where
  "upd_sub i f s = s\<lparr>RxSubWin := (RxSubWin s)(i := f (RxSubWin s i))\<rparr>"

definition upd_dw :: "(stRxDataWin \<Rightarrow> stRxDataWin) \<Rightarrow> mpd_st \<Rightarrow> mpd_st" where
  "upd_dw f s = s\<lparr>RxDataWin := f (RxDataWin s)\<rparr>"

definition upd_para :: "nat \<Rightarrow> (stSchdStreamPara \<Rightarrow> stSchdStreamPara) \<Rightarrow> mpd_st \<Rightarrow> mpd_st" where
  "upd_para i f s = s\<lparr>schdPara := (schdPara s)(i := f (schdPara s i))\<rparr>"

definition upd_tc :: "nat \<Rightarrow> (stTrafficControl \<Rightarrow> stTrafficControl) \<Rightarrow> mpd_st \<Rightarrow> mpd_st" where
  "upd_tc i f s = s\<lparr>trafficControl := (trafficControl s)(i := f (trafficControl s i))\<rparr>"

definition upd_node :: "nat \<Rightarrow> (stDataNode \<Rightarrow> stDataNode) \<Rightarrow> stTxWin \<Rightarrow> stTxWin" where
  "upd_node i f w = w\<lparr>dataNode := (dataNode w)(i := f (dataNode w i))\<rparr>"

definition upd_dwn :: "nat \<Rightarrow> (stRxDataWinNode \<Rightarrow> stRxDataWinNode) \<Rightarrow> stRxDataWin \<Rightarrow> stRxDataWin" where
  "upd_dwn i f w = w\<lparr>dw_Win := (dw_Win w)(i := f (dw_Win w i))\<rparr>"

section \<open>Zeroed memory\<close>

definition tc_zero :: stTrafficControl where
  "tc_zero = \<lparr>pktRate = 0, pktRatePre = 0, pktCntTx = 0, scaleFactor = 0, lossThrsh = 0, pktRateAvg = 0,
     throuputLimit = 0, acceleratedPkt = 0, pktLossCnt = 0, ssnBegin = 0, ssnEnd = 0, sackNum = 0,
     acceleratedCnt = 0, quitTrafficCtlCnt = 0, isTrafficCtl = False, isPktTxStop = False\<rparr>"

definition para_zero :: stSchdStreamPara where
  "para_zero = \<lparr>isValid = 0, RTTNew = 0, RTTFlow = 0, Nweight = 0, wCnt = 0, InhertDelay = 0, PktAvg = 0,
     PktCnt = 0, pktRetCnt = 0, PktChooseCnt = 0, ModifyFactor = 0, txWinEmptyCnt = 0, ThCnt = 0,
     isSendPkt = False, isRttUpdate = False, isPeriodRttUpdate = False\<rparr>"

definition user_zero :: stUserInfo where
  "user_zero = \<lparr>addressID = 0, uid = 0, lastPackageTime = 0, txWindow = (\<lambda>_. txwin_zero), txDataSn = 0,
     rxDsnErr = 0, RxSubWin = (\<lambda>_. subwin_zero), RxDataWin = datawin_zero, SendSackTime = 0,
     schdPara = (\<lambda>_. para_zero), RTTFlowMax = 0, pDataWaiteHead = 0, pDataWaiteTail = 0,
     dataWaitQueue = (\<lambda>_. wq_zero), trafficControl = (\<lambda>_. tc_zero), trafficCtlTime = 0, throuputTotal = 0,
     isAllFlowTrafficCtl = False, sackBlock = (\<lambda>_. \<lparr>leftEdgeSSN = 0, rightEdgeSSN = 0\<rparr>), tcDelPktCnt = 0,
     txPktCnt = 0, txPktFreeCnt = 0, isMpStopSched = False, totalToAckNum = 0, activeFlowNum = 0,
     exceptionCode = (\<lambda>_. 0)\<rparr>"

text \<open>The globals at the start of the program, with nothing allocated.\<close>

definition st_zero :: mpd_st where
  "st_zero = stUserInfo.extend user_zero (mpd_st.fields 0 0
     \<lparr>scaleRTTFlow = 0, scalePktV = 0, weightUpdatePeriod = 0, NN = 0, wCntOverflowTh = 0\<rparr> 0 0 0 0
     (\<lambda>_. None) 1 [])"

text \<open>An environment in which allocations and sends succeed.\<close>

definition env_ok :: rat_env where
  "env_ok = \<lparr>env_alloc = (\<lambda>_ _ _. True), env_junk = (\<lambda>_ _. 0), env_send = (\<lambda>_. 0), env_rtt = (\<lambda>_ _. 0)\<rparr>"

end
