(* ===== verification/MPD_TxWin.thy ===== *)
theory MPD_TxWin
  imports MPD_Types
begin

text \<open>
  The transmit window of a subflow (\<^verbatim>\<open>mpd_tx.c\<close>): a ring of 1024 nodes from \<open>pTxBegin\<close> to
  \<open>pTxNext\<close> that holds every packet sent and not yet acknowledged. The theory has the window
  operations of the file (the sending of new data, which needs the scheduler, is in
  \<open>MPD_Send\<close>), the window's invariant, and its reading as a queue of nodes.
\<close>

section \<open>The validity flag of a subflow\<close>

text \<open>
  \<^verbatim>\<open>schdPara\<close> has three elements, and two callers (the packet parser with the two-bit stream
  field, the receive window with the stream number \<^verbatim>\<open>NUM_SUBFLOW\<close> of an orphaned packet) ask for
  the flag of a fourth. In the 32-bit layout of \<^verbatim>\<open>stUserInfo\<close> the byte read then is the low byte of
  the next field, \<^verbatim>\<open>RTTFlowMax\<close>. No caller passes a larger number.
\<close>

definition MPD_SCHD_getFlowValid :: "mpd_st \<Rightarrow> nat \<Rightarrow> U8" where
  "MPD_SCHD_getFlowValid s flowId =
     (if flowId < NUM_SUBFLOW then isValid (schdPara s flowId)
      else if flowId = NUM_SUBFLOW then ucast (RTTFlowMax s)
      else undefined)"

definition MPD_SCHD_setFlowValid :: "nat \<Rightarrow> U32 \<Rightarrow> mpd_st \<Rightarrow> mpd_st" where
  "MPD_SCHD_setFlowValid flowId flag s = upd_para flowId (\<lambda>p. p\<lparr>isValid := ucast flag\<rparr>) s"

section \<open>Window operations\<close>

definition MPD_TxWinInit :: "mpd_st \<Rightarrow> mpd_st" where
  "MPD_TxWinInit s = s\<lparr>txDataSn := 0, txWindow := (\<lambda>_. txwin_zero)\<rparr>"

text \<open>The pointer increment with its wrap at the last node.\<close>

definition tx_inc :: "nat \<Rightarrow> nat" where
  "tx_inc i = (if i = MAX_TX_WINDOW_SIZE - 1 then 0 else i + 1)"

definition MPD_txBeginInc :: "stTxWin \<Rightarrow> stTxWin" where
  "MPD_txBeginInc w =
     (let w = upd_node (pTxBegin w) (\<lambda>_. dn_zero) w
      in w\<lparr>pTxBegin := tx_inc (pTxBegin w)\<rparr>)"

definition MPD_freeTxBeginData :: "nat \<Rightarrow> mpd_st \<Rightarrow> mpd_st res" where
  "MPD_freeTxBeginData flowId s =
     (let w = txWindow s flowId; n = dataNode w (pTxBegin w)
      in if transState n = DATA_INIT then Inr s
         else if pData n = 0 then Inr s
         else bindR (if transState n = SACKED then MPD_RetransMsgMemfree (pData n) flowId s
                     else MPD_MsgMemfree (pData n) s)
                (\<lambda>s. Inr (upd_tx flowId (upd_node (pTxBegin w) (\<lambda>n. n\<lparr>pData := 0, pData1 := 0\<rparr>)) s)))"

definition MPD_txNextInc :: "nat \<Rightarrow> mpd_st \<Rightarrow> mpd_st res" where
  "MPD_txNextInc flowId s =
     (let setSSN = (\<lambda>w. upd_node (pTxNext w) (\<lambda>n. n\<lparr>dn_SSN := subflowSn w\<rparr>) w);
          s = upd_tx flowId (\<lambda>w. setSSN (w\<lparr>pTxNext := tx_inc (pTxNext w)\<rparr>)) s;
          w = txWindow s flowId
      in bindR (if pTxNext w = pTxBegin w
                then bindR (MPD_freeTxBeginData flowId s) (\<lambda>s. Inr (upd_tx flowId MPD_txBeginInc s))
                else Inr s)
           (\<lambda>s. Inr (upd_tx flowId setSSN s)))"

text \<open>\<^verbatim>\<open>pTxNext-1\<close> is outside the array when \<^verbatim>\<open>pTxNext\<close> is its first node.\<close>

definition MPD_isSSNInTxWin :: "stTxWin \<Rightarrow> U16 \<Rightarrow> nat res" where
  "MPD_isSSNInTxWin w ssn =
     (if pTxNext w = 0 then Inl OutOfBounds
      else let begin = dn_SSN (dataNode w (pTxBegin w))
           in Inr (if DISTANCESN begin ssn \<le> DISTANCESN begin (dn_SSN (dataNode w (pTxNext w - 1)))
                   then 1 else 0))"

definition put_node :: "U16 \<Rightarrow> U16 \<Rightarrow> addr \<Rightarrow> U32 \<Rightarrow> int \<Rightarrow> stDataNode \<Rightarrow> stDataNode" where
  "put_node DSN SSN dataAddr now dataLen n =
     n\<lparr>dn_DSN := DSN, dn_SSN := SSN, pData := dataAddr, pData1 := dataAddr,
       transState := WAITING_SEND, T1 := now, reTxCnt := 0, TO_dataAck := now + 500,
       magic1 := 0x5a5a5a5a, magic2 := 0x5a5a5a5a, TO_retrans := now + 100,
       payloadLen := word_of_int dataLen\<rparr>"

definition MPD_putDataToTxWin :: "nat \<Rightarrow> addr \<Rightarrow> int \<Rightarrow> mpd_st \<Rightarrow> (nat \<times> mpd_st) res" where
  "MPD_putDataToTxWin flowId dataAddr dataLen s =
     bindR (mem_read s dataAddr 2 4) (\<lambda>h.
       let DSN = be16 (h ! 0) (h ! 1); SSN = be16 (h ! 2) (h ! 3);
           i = unat SSN mod MAX_TX_WINDOW_SIZE;
           s = upd_tx flowId (\<lambda>w. (upd_node i (put_node DSN SSN dataAddr (g_time s) dataLen) w)
                 \<lparr>pTxLast := Some i, timeOutRetCnt := 0\<rparr>) s
       in bindR (MPD_txNextInc flowId s) (\<lambda>s.
            Inr (i, upd_tx flowId (\<lambda>w. w\<lparr>lastSendPktTime := g_time s,
                      histA := (if lastTxTime w = 0 then 1 else histA w + 1)\<rparr>) s)))"

definition MPD_callMPCToSend :: "rat_env \<Rightarrow> nat \<Rightarrow> nat \<Rightarrow> mpd_st \<Rightarrow> (int \<times> mpd_st) res" where
  "MPD_callMPCToSend env flowId i s =
     (let n = dataNode (txWindow s flowId) i
      in bindR (MPD_OnSendMPDataComplete env (MPD_GetDeviceId flowId) (pData n) (unat (payloadLen n)) False s)
           (\<lambda>(result, s).
             if result = SEND_FAIL then Inr (result, s)
             else Inr (SEND_SUCCESS,
                    upd_tx flowId (\<lambda>w. (upd_node i (\<lambda>n. n\<lparr>transState := WAITING_ACK\<rparr>) w)
                      \<lparr>ackTimeOutcnt := ackTimeOutcnt w + 1\<rparr>) s)))"

definition MPD_callMPCToRetrans :: "rat_env \<Rightarrow> nat \<Rightarrow> nat \<Rightarrow> mpd_st \<Rightarrow> (int \<times> mpd_st) res" where
  "MPD_callMPCToRetrans env flowId i s =
     (let n = dataNode (txWindow s flowId) i
      in bindR (MPD_OnSendMPDataComplete env (MPD_GetDeviceId flowId) (pData n) (unat (payloadLen n)) False s)
           (\<lambda>(result, s). Inr (result, upd_tx flowId (\<lambda>w. w\<lparr>histA := histA w + 1\<rparr>) s)))"

text \<open>The window is emptied node by node; 1024 steps reach \<open>pTxNext\<close> from anywhere in the ring.\<close>

fun clearTxWin_loop :: "nat \<Rightarrow> nat \<Rightarrow> mpd_st \<Rightarrow> mpd_st res" where
  "clearTxWin_loop fuel flowId s =
     (if pTxBegin (txWindow s flowId) = pTxNext (txWindow s flowId) then Inr s
      else if fuel = 0 then Inl OutOfFuel
      else bindR (MPD_freeTxBeginData flowId s) (\<lambda>s.
             clearTxWin_loop (fuel - 1) flowId (upd_tx flowId MPD_txBeginInc s)))"

declare clearTxWin_loop.simps [simp del]

definition MPD_clearTxWin :: "nat \<Rightarrow> mpd_st \<Rightarrow> mpd_st res" where
  "MPD_clearTxWin flowId s =
     bindR (clearTxWin_loop MAX_TX_WINDOW_SIZE flowId s) (\<lambda>s.
       Inr (upd_tx flowId (\<lambda>_. txwin_zero) s))"

section \<open>Counts\<close>

definition MPD_isTxWinEmpty :: "nat \<Rightarrow> mpd_st \<Rightarrow> bool \<times> mpd_st" where
  "MPD_isTxWinEmpty flowId s =
     (if pTxBegin (txWindow s flowId) = pTxNext (txWindow s flowId) \<and> isSendPkt (schdPara s flowId)
      then (True, upd_para flowId (\<lambda>p. p\<lparr>isSendPkt := False\<rparr>) s)
      else (False, s))"

text \<open>The node before \<open>pTxNext\<close>, as the two counting functions find it.\<close>

definition tx_prev :: "stTxWin \<Rightarrow> nat" where
  "tx_prev w = (if pTxNext w = 0 then MAX_TX_WINDOW_SIZE - 1 else pTxNext w - 1)"

text \<open>\<^verbatim>\<open>pPrevNode->SSN - pTxBegin->SSN + 1\<close>: an \<^verbatim>\<open>int\<close> expression stored into a \<^verbatim>\<open>U32\<close>.\<close>

definition tx_ssn_count :: "stTxWin \<Rightarrow> U32" where
  "tx_ssn_count w =
     word_of_int (uint (dn_SSN (dataNode w (tx_prev w))) - uint (dn_SSN (dataNode w (pTxBegin w))) + 1)"

definition MPD_getHistAcnt :: "nat \<Rightarrow> mpd_st \<Rightarrow> U32 \<times> mpd_st" where
  "MPD_getHistAcnt flowId s =
     (let w = txWindow s flowId
      in if pTxNext w = pTxBegin w \<or> histA w = 0
         then (0, upd_tx flowId (\<lambda>w. w\<lparr>lastTxTime := g_time s, histA := 0\<rparr>) s)
         else
           let txCnt = (g_time s - lastTxTime w) * PktAvg (schdPara s flowId) div 100;
               histNew = (if txCnt > 0 then (if histA w > txCnt then histA w - txCnt else 0) else histA w);
               cnt = tx_ssn_count w;
               histNew = (if histNew > cnt then cnt else histNew)
           in (histNew,
               if histNew \<noteq> histA w
               then upd_tx flowId (\<lambda>w. w\<lparr>lastTxTime := g_time s, histA := histNew\<rparr>) s else s))"

text \<open>The index \<^verbatim>\<open>MAX_TX_WINDOW_SIZE\<close> this helper gives for the first node is outside the array.\<close>

definition MPD_getTxWinPrevNode :: "nat \<Rightarrow> nat" where
  "MPD_getTxWinPrevNode i = (if i = 0 then MAX_TX_WINDOW_SIZE else i - 1)"

definition MPD_getTxWinUnackCnt :: "mpd_st \<Rightarrow> nat \<Rightarrow> U32" where
  "MPD_getTxWinUnackCnt s flowId =
     (let w = txWindow s flowId in if pTxNext w \<noteq> pTxBegin w then tx_ssn_count w else 0)"

definition MPD_getTxWinRetransCnt :: "mpd_st \<Rightarrow> nat \<Rightarrow> U32" where
  "MPD_getTxWinRetransCnt s flowId = ucast (retransCnt (txWindow s flowId))"

section \<open>Periodic checks\<close>

definition timeoutTxWinSuspend_flow :: "nat \<Rightarrow> mpd_st \<Rightarrow> mpd_st res" where
  "timeoutTxWinSuspend_flow flowId s =
     (let w = txWindow s flowId; n = dataNode w (pTxBegin w)
      in if MPD_SCHD_getFlowValid s flowId = 0 then Inr s
         else if transState n \<noteq> DATA_INIT \<and> TO_dataAck n = g_time s
         then MPD_OnNotifyException flowId (-2) s
         else Inr s)"

definition MPD_timeoutTxWinSuspend :: "mpd_st \<Rightarrow> mpd_st res" where
  "MPD_timeoutTxWinSuspend s = forR timeoutTxWinSuspend_flow [0..<NUM_SUBFLOW] s"

definition retrans_timeout :: "nat \<Rightarrow> U32" where
  "retrans_timeout flowId = (if flowId = 0 then RETRANS_TO_MC else RETRANS_TO_OTHER)"

definition TxWinRetransCheck_flow :: "rat_env \<Rightarrow> nat \<Rightarrow> mpd_st \<Rightarrow> mpd_st res" where
  "TxWinRetransCheck_flow env flowId s =
     (let w = txWindow s flowId
      in if MPD_SCHD_getFlowValid s flowId = 0 then Inr s
         else if timeOutRetCnt w = 0
         then Inr (upd_tx flowId (\<lambda>w. w\<lparr>timeOutRetCnt := timeOutRetCnt w + 1\<rparr>) s)
         else case pTxLast w of
           None \<Rightarrow> Inr s
         | Some i \<Rightarrow>
             if transState (dataNode w i) \<noteq> DATA_INIT \<and> timeOutRetCnt w < 4
             then let tm = drop_bit 2 (ucast (timeOutRetCnt w) * InhertDelay (schdPara s flowId))
                           + T1 (dataNode w i)
                  in if g_time s > tm
                     then bindR (MPD_callMPCToRetrans env flowId i s) (\<lambda>(_, s).
                            Inr (upd_tx flowId (\<lambda>w. (upd_node i (\<lambda>n. n\<lparr>transState := SACKED,
                                   TO_retrans := g_time s + retrans_timeout flowId\<rparr>) w)
                                 \<lparr>timeOutRetCnt := timeOutRetCnt w + 1\<rparr>) s))
                     else Inr s
             else Inr s)"

definition MPD_TxWinRetransCheck :: "rat_env \<Rightarrow> mpd_st \<Rightarrow> mpd_st res" where
  "MPD_TxWinRetransCheck env s =
     (if g_time s mod 30 = uid s mod 30
      then forR (TxWinRetransCheck_flow env) [0..<NUM_SUBFLOW] s else Inr s)"

section \<open>The window as a queue\<close>

text \<open>
  \<open>tx_queue\<close> lists the nodes from the oldest to the newest. \<open>wf_sn sn\<close> is the invariant at
  the moment the next packet gets the number \<open>sn\<close>: the indices are in range, \<open>pTxNext\<close> is
  the slot of \<open>sn\<close>, and the nodes up to and including the slot after the newest carry
  consecutive numbers that end in \<open>sn\<close>. Between calls \<open>sn\<close> is \<open>subflowSn\<close>.
\<close>

definition tx_len :: "stTxWin \<Rightarrow> nat" where
  "tx_len w = rdist MAX_TX_WINDOW_SIZE (pTxBegin w) (pTxNext w)"

definition tx_idx :: "stTxWin \<Rightarrow> nat \<Rightarrow> nat" where
  "tx_idx w k = (pTxBegin w + k) mod MAX_TX_WINDOW_SIZE"

definition tx_queue :: "stTxWin \<Rightarrow> stDataNode list" where
  "tx_queue w = map (\<lambda>k. dataNode w (tx_idx w k)) [0..<tx_len w]"

definition wf_sn :: "U16 \<Rightarrow> stTxWin \<Rightarrow> bool" where
  "wf_sn sn w \<longleftrightarrow> pTxBegin w < MAX_TX_WINDOW_SIZE \<and> pTxNext w = unat sn mod MAX_TX_WINDOW_SIZE \<and>
     (\<forall>k \<le> tx_len w. dn_SSN (dataNode w (tx_idx w k)) = sn - of_nat (tx_len w - k))"

definition wf_tx :: "stTxWin \<Rightarrow> bool" where
  "wf_tx w \<longleftrightarrow> wf_sn (subflowSn w) w"

text \<open>The buffer a node holds, and those of the whole window.\<close>

definition node_bufs :: "stDataNode \<Rightarrow> addr list" where
  "node_bufs n = (if transState n = DATA_INIT \<or> pData n = 0 then [] else [pData n])"

definition tx_bufs :: "stTxWin \<Rightarrow> addr list" where
  "tx_bufs w = concat (map node_bufs (tx_queue w))"

lemma upd_node_simps [simp]:
  "pTxBegin (upd_node i f w) = pTxBegin w" "pTxNext (upd_node i f w) = pTxNext w"
  "subflowSn (upd_node i f w) = subflowSn w" "histA (upd_node i f w) = histA w"
  "dataNode (upd_node i f w) = (dataNode w)(i := f (dataNode w i))"
  "timeOutRetCnt (upd_node i f w) = timeOutRetCnt w" "ackTimeOutcnt (upd_node i f w) = ackTimeOutcnt w"
  "lastTxTime (upd_node i f w) = lastTxTime w" "pTxLast (upd_node i f w) = pTxLast w"
  by (simp_all add: upd_node_def)

lemma upd_tx_simps [simp]:
  "txWindow (upd_tx i f s) = (txWindow s)(i := f (txWindow s i))" "mem (upd_tx i f s) = mem s"
  "brk (upd_tx i f s) = brk s" "g_time (upd_tx i f s) = g_time s" "uid (upd_tx i f s) = uid s"
  "trace (upd_tx i f s) = trace s" "schdPara (upd_tx i f s) = schdPara s"
  "RxSubWin (upd_tx i f s) = RxSubWin s" "RxDataWin (upd_tx i f s) = RxDataWin s"
  "txDataSn (upd_tx i f s) = txDataSn s" "RTTFlowMax (upd_tx i f s) = RTTFlowMax s"
  "trafficControl (upd_tx i f s) = trafficControl s"
  by (simp_all add: upd_tx_def)

lemma upd_tx_twice: "upd_tx i f (upd_tx i g s) = upd_tx i (\<lambda>w. f (g w)) s"
  by (simp add: upd_tx_def)

lemma tx_inc_rsucc [ring_simps]: "i < MAX_TX_WINDOW_SIZE \<Longrightarrow> tx_inc i = rsucc MAX_TX_WINDOW_SIZE i"
  by (simp add: tx_inc_def rsucc_alt)

lemma tx_len_less: "tx_len w < MAX_TX_WINDOW_SIZE"
  by (simp add: tx_len_def rdist_less)

lemma length_tx_queue [simp]: "length (tx_queue w) = tx_len w"
  by (simp add: tx_queue_def)

lemma tx_queue_nth: "k < tx_len w \<Longrightarrow> tx_queue w ! k = dataNode w (tx_idx w k)"
  by (simp add: tx_queue_def)

lemma wf_snD:
  assumes "wf_sn sn w"
  shows "pTxBegin w < MAX_TX_WINDOW_SIZE" "pTxNext w < MAX_TX_WINDOW_SIZE"
    "pTxNext w = unat sn mod MAX_TX_WINDOW_SIZE"
    "k \<le> tx_len w \<Longrightarrow> dn_SSN (dataNode w (tx_idx w k)) = sn - of_nat (tx_len w - k)"
  using assms by (auto simp: wf_sn_def)

lemma tx_idx_0: "pTxBegin w < MAX_TX_WINDOW_SIZE \<Longrightarrow> tx_idx w 0 = pTxBegin w"
  by (simp add: tx_idx_def)

lemma tx_idx_len: "wf_sn sn w \<Longrightarrow> tx_idx w (tx_len w) = pTxNext w"
  by (simp add: tx_idx_def tx_len_def add_rdist wf_snD)

lemma tx_empty_iff: "wf_sn sn w \<Longrightarrow> pTxBegin w = pTxNext w \<longleftrightarrow> tx_len w = 0"
  using wf_snD(1,2)[of sn w] by (simp add: tx_len_def rdist_0)

lemma wf_begin_SSN: "wf_sn sn w \<Longrightarrow> dn_SSN (dataNode w (pTxBegin w)) = sn - of_nat (tx_len w)"
  using wf_snD(4)[of sn w 0] wf_snD(1)[of sn w] by (simp add: tx_idx_0)

lemma wf_next_SSN: "wf_sn sn w \<Longrightarrow> dn_SSN (dataNode w (pTxNext w)) = sn"
  using wf_snD(4)[of sn w "tx_len w"] by (simp add: tx_idx_len)

lemma tx_idx_inj:
  "pTxBegin w < MAX_TX_WINDOW_SIZE \<Longrightarrow> k < MAX_TX_WINDOW_SIZE \<Longrightarrow> l < MAX_TX_WINDOW_SIZE \<Longrightarrow>
   tx_idx w k = tx_idx w l \<longleftrightarrow> k = l"
  unfolding tx_idx_def by (rule add_mod_inj)

subsection \<open>Dropping the oldest node\<close>

lemma txBeginInc_fields [simp]:
  "pTxNext (MPD_txBeginInc w) = pTxNext w" "subflowSn (MPD_txBeginInc w) = subflowSn w"
  "pTxBegin (MPD_txBeginInc w) = tx_inc (pTxBegin w)"
  "dataNode (MPD_txBeginInc w) = (dataNode w)(pTxBegin w := dn_zero)"
  by (simp_all add: MPD_txBeginInc_def Let_def)

lemma txBeginInc_upd_node [simp]: "MPD_txBeginInc (upd_node (pTxBegin w) f w) = MPD_txBeginInc w"
  by (simp add: MPD_txBeginInc_def upd_node_def Let_def)

lemma tx_len_inc:
  "wf_sn sn w \<Longrightarrow> tx_len w \<noteq> 0 \<Longrightarrow> tx_len (MPD_txBeginInc w) = tx_len w - 1"
  using rdist_rsucc_left[of "pTxBegin w" MAX_TX_WINDOW_SIZE "pTxNext w"] tx_empty_iff[of sn w]
  by (simp add: tx_len_def wf_snD tx_inc_rsucc)

lemma tx_idx_inc:
  "wf_sn sn w \<Longrightarrow> tx_idx (MPD_txBeginInc w) k = tx_idx w (Suc k)"
  using rsucc_add[of MAX_TX_WINDOW_SIZE "pTxBegin w" k] by (simp add: tx_idx_def wf_snD tx_inc_rsucc)

lemma tx_idx_ne_begin:
  "wf_sn sn w \<Longrightarrow> Suc k < MAX_TX_WINDOW_SIZE \<Longrightarrow> tx_idx w (Suc k) \<noteq> pTxBegin w"
  using tx_idx_inj[of w "Suc k" 0] wf_snD(1)[of sn w] by (simp add: tx_idx_0)

lemma wf_sn_txBeginInc:
  assumes wf: "wf_sn sn w" and ne: "tx_len w \<noteq> 0"
  shows "wf_sn sn (MPD_txBeginInc w)"
  unfolding wf_sn_def
proof (intro conjI allI impI)
  show "pTxBegin (MPD_txBeginInc w) < MAX_TX_WINDOW_SIZE"
    using wf by (simp add: wf_snD tx_inc_rsucc rsucc_less)
  show "pTxNext (MPD_txBeginInc w) = unat sn mod MAX_TX_WINDOW_SIZE"
    using wf by (simp add: wf_snD)
next
  fix k assume "k \<le> tx_len (MPD_txBeginInc w)"
  then have k: "Suc k \<le> tx_len w" using wf ne by (simp add: tx_len_inc)
  then have "Suc k < MAX_TX_WINDOW_SIZE" using tx_len_less[of w] by simp
  then show "dn_SSN (dataNode (MPD_txBeginInc w) (tx_idx (MPD_txBeginInc w) k))
      = sn - of_nat (tx_len (MPD_txBeginInc w) - k)"
    using wf ne k wf_snD(4)[OF wf k]
    by (simp add: tx_idx_inc tx_idx_ne_begin tx_len_inc)
qed

lemma tx_queue_txBeginInc:
  assumes wf: "wf_sn sn w" and ne: "tx_len w \<noteq> 0"
  shows "tx_queue (MPD_txBeginInc w) = tl (tx_queue w)"
proof (rule nth_equalityI)
  show "length (tx_queue (MPD_txBeginInc w)) = length (tl (tx_queue w))"
    using assms by (simp add: tx_len_inc)
next
  fix k assume "k < length (tx_queue (MPD_txBeginInc w))"
  then have k: "Suc k < tx_len w" using assms by (simp add: tx_len_inc)
  then have "Suc k < MAX_TX_WINDOW_SIZE" using tx_len_less[of w] by simp
  then show "tx_queue (MPD_txBeginInc w) ! k = tl (tx_queue w) ! k"
    using assms k
    by (simp add: tx_queue_nth tx_len_inc nth_tl tx_idx_inc tx_idx_ne_begin)
qed

lemma tx_queue_Cons:
  assumes "wf_sn sn w" and "tx_len w \<noteq> 0"
  shows "tx_queue w = dataNode w (pTxBegin w) # tl (tx_queue w)"
proof -
  have "tx_queue w \<noteq> []" using assms by (simp add: tx_queue_def)
  moreover have "hd (tx_queue w) = dataNode w (pTxBegin w)"
    using assms tx_queue_nth[of 0 w] \<open>tx_queue w \<noteq> []\<close>
    by (simp add: hd_conv_nth tx_idx_0 wf_snD)
  ultimately show ?thesis by (metis list.collapse)
qed

subsection \<open>Releasing the oldest buffer\<close>

text \<open>
  What a release changes: the store loses the buffer, the trace and the counter of returned
  buffers may grow, nothing else moves.
\<close>

definition tx_frame :: "mpd_st \<Rightarrow> (nat \<Rightarrow> stTxWin) \<Rightarrow> addr list \<Rightarrow> mpd_st \<Rightarrow> bool" where
  "tx_frame s W bufs s' \<longleftrightarrow>
     (\<exists>tr fr. s' = s\<lparr>txWindow := W, mem := mem s |` (- set bufs), trace := tr, g_freeNum := fr\<rparr>)"

lemma tx_frameD:
  assumes "tx_frame s W bufs s'"
  shows "txWindow s' = W" "mem s' = mem s |` (- set bufs)" "schdPara s' = schdPara s"
    "trafficControl s' = trafficControl s" "g_time s' = g_time s" "txDataSn s' = txDataSn s"
    "RxSubWin s' = RxSubWin s" "RxDataWin s' = RxDataWin s" "uid s' = uid s" "brk s' = brk s"
    "RTTFlowMax s' = RTTFlowMax s"
  using assms by (auto simp: tx_frame_def)

lemma tx_frame_trans:
  assumes "tx_frame s W bufs s'" and "tx_frame s' W' bufs' s''"
  shows "tx_frame s W' (bufs @ bufs') s''"
proof -
  obtain tr fr where s': "s' = s\<lparr>txWindow := W, mem := mem s |` (- set bufs), trace := tr, g_freeNum := fr\<rparr>"
    using assms(1) by (auto simp: tx_frame_def)
  obtain tr' fr' where "s'' = s'\<lparr>txWindow := W', mem := mem s' |` (- set bufs'), trace := tr', g_freeNum := fr'\<rparr>"
    using assms(2) by (auto simp: tx_frame_def)
  then have "s'' = s\<lparr>txWindow := W', mem := mem s |` (- set (bufs @ bufs')), trace := tr', g_freeNum := fr'\<rparr>"
    by (simp add: s' Int_commute)
  then show ?thesis unfolding tx_frame_def by blast
qed

lemma restrict_map_upd_None: "m(a := None) = m |` (- {a})"
  by (auto simp: restrict_map_def fun_eq_iff)

lemma restrict_map_UNIV [simp]: "m |` UNIV = m"
  by (simp add: restrict_map_def)

lemma mem_block_live: "mem s a = Some bs \<Longrightarrow> a \<noteq> 0 \<Longrightarrow> mem_block s a = Inr bs"
  by (simp add: mem_block_def)

lemma freeTxBeginData_ok:
  fixes s :: mpd_st and f :: nat
  defines "w \<equiv> txWindow s f"
  defines "n \<equiv> dataNode w (pTxBegin w)"
  assumes "set (node_bufs n) \<subseteq> dom (mem s)"
  shows "\<exists>g s'. MPD_freeTxBeginData f s = Inr s' \<and>
           tx_frame s ((txWindow s)(f := upd_node (pTxBegin w) g w)) (node_bufs n) s'"
proof (cases "transState n = DATA_INIT \<or> pData n = 0")
  case True
  then have "MPD_freeTxBeginData f s = Inr s"
    by (auto simp: MPD_freeTxBeginData_def Let_def w_def[symmetric] n_def[symmetric])
  moreover have "tx_frame s ((txWindow s)(f := upd_node (pTxBegin w) id w)) (node_bufs n) s"
    unfolding tx_frame_def using True
    by (intro exI[of _ "trace s"] exI[of _ "g_freeNum s"] mpd_st.equality)
      (auto simp: node_bufs_def upd_node_def w_def)
  ultimately show ?thesis by blast
next
  case False
  let ?g = "\<lambda>n. n\<lparr>pData := 0, pData1 := 0\<rparr>"
  from False have bufs: "node_bufs n = [pData n]" by (simp add: node_bufs_def)
  from False obtain bs where bs: "mem s (pData n) = Some bs"
    using assms(3) by (auto simp: node_bufs_def)
  show ?thesis
  proof (cases "transState n = SACKED")
    case True
    with False bs have "MPD_freeTxBeginData f s = Inr (upd_tx f (upd_node (pTxBegin w) ?g)
        (s\<lparr>mem := (mem s)(pData n := None), trace := EvFreeResend (pData n) f # trace s,
           g_freeNum := g_freeNum s + 1\<rparr>))"
      by (simp add: MPD_freeTxBeginData_def Let_def w_def[symmetric] n_def[symmetric]
        MPD_RetransMsgMemfree_def mem_block_live)
    moreover have "tx_frame s ((txWindow s)(f := upd_node (pTxBegin w) ?g w)) (node_bufs n)
        (upd_tx f (upd_node (pTxBegin w) ?g)
          (s\<lparr>mem := (mem s)(pData n := None), trace := EvFreeResend (pData n) f # trace s,
             g_freeNum := g_freeNum s + 1\<rparr>))"
      unfolding tx_frame_def bufs
      by (intro exI mpd_st.equality) (simp_all add: upd_tx_def w_def restrict_map_upd_None)
    ultimately show ?thesis by blast
  next
    case False2: False
    with False bs have "MPD_freeTxBeginData f s = Inr (upd_tx f (upd_node (pTxBegin w) ?g)
        (s\<lparr>mem := (mem s)(pData n := None)\<rparr>))"
      by (simp add: MPD_freeTxBeginData_def Let_def w_def[symmetric] n_def[symmetric]
        MPD_MsgMemfree_def)
    moreover have "tx_frame s ((txWindow s)(f := upd_node (pTxBegin w) ?g w)) (node_bufs n)
        (upd_tx f (upd_node (pTxBegin w) ?g) (s\<lparr>mem := (mem s)(pData n := None)\<rparr>))"
      unfolding tx_frame_def bufs
      by (intro exI mpd_st.equality) (simp_all add: upd_tx_def w_def restrict_map_upd_None)
    ultimately show ?thesis by blast
  qed
qed

lemma tx_pop_ok:
  fixes s :: mpd_st and f :: nat
  defines "w \<equiv> txWindow s f"
  assumes "set (node_bufs (dataNode w (pTxBegin w))) \<subseteq> dom (mem s)"
  shows "\<exists>s'. bindR (MPD_freeTxBeginData f s) (\<lambda>s. Inr (upd_tx f MPD_txBeginInc s)) = Inr s' \<and>
           tx_frame s ((txWindow s)(f := MPD_txBeginInc w)) (node_bufs (dataNode w (pTxBegin w))) s'"
proof -
  obtain g t where t: "MPD_freeTxBeginData f s = Inr t"
    "tx_frame s ((txWindow s)(f := upd_node (pTxBegin w) g w)) (node_bufs (dataNode w (pTxBegin w))) t"
    using freeTxBeginData_ok[of s f] assms(2) unfolding w_def by blast
  have "tx_frame s ((txWindow s)(f := MPD_txBeginInc w)) (node_bufs (dataNode w (pTxBegin w))) (upd_tx f MPD_txBeginInc t)"
    using t(2) unfolding tx_frame_def
    by (elim exE, intro exI mpd_st.equality) (auto simp: upd_tx_def)
  with t(1) show ?thesis by simp
qed

lemma tx_bufs_txBeginInc:
  assumes "wf_sn sn w" and "tx_len w \<noteq> 0"
  shows "tx_bufs w = node_bufs (dataNode w (pTxBegin w)) @ tx_bufs (MPD_txBeginInc w)"
  unfolding tx_bufs_def tx_queue_txBeginInc[OF assms]
  by (subst tx_queue_Cons[OF assms]) simp

subsection \<open>Emptying the window\<close>

lemma clearTxWin_loop_ok:
  assumes "wf_sn sn (txWindow s f)" and "distinct (tx_bufs (txWindow s f))"
    and "set (tx_bufs (txWindow s f)) \<subseteq> dom (mem s)" and "tx_len (txWindow s f) \<le> fuel"
  shows "\<exists>s' W. clearTxWin_loop fuel f s = Inr s' \<and>
           tx_frame s ((txWindow s)(f := W)) (tx_bufs (txWindow s f)) s'"
  using assms
proof (induction fuel arbitrary: s)
  case 0
  then have "tx_bufs (txWindow s f) = []" "pTxBegin (txWindow s f) = pTxNext (txWindow s f)"
    using tx_empty_iff[OF "0"(1)] by (simp_all add: tx_bufs_def tx_queue_def)
  then show ?case
    by (intro exI[of _ s] exI[of _ "txWindow s f"])
      (auto simp: clearTxWin_loop.simps tx_frame_def intro!: exI mpd_st.equality)
next
  case (Suc fuel)
  let ?w = "txWindow s f"
  show ?case
  proof (cases "tx_len ?w = 0")
    case True
    then have "tx_bufs ?w = []" "pTxBegin ?w = pTxNext ?w"
      using tx_empty_iff[OF Suc.prems(1)] by (simp_all add: tx_bufs_def tx_queue_def)
    then show ?thesis
      by (intro exI[of _ s] exI[of _ ?w])
        (auto simp: clearTxWin_loop.simps tx_frame_def intro!: exI mpd_st.equality)
  next
    case False
    note split = tx_bufs_txBeginInc[OF Suc.prems(1) False]
    let ?h = "node_bufs (dataNode ?w (pTxBegin ?w))"
    have "set ?h \<subseteq> dom (mem s)" using Suc.prems(3) split by auto
    then obtain t where t: "bindR (MPD_freeTxBeginData f s) (\<lambda>s. Inr (upd_tx f MPD_txBeginInc s)) = Inr t"
      "tx_frame s ((txWindow s)(f := MPD_txBeginInc ?w)) ?h t"
      using tx_pop_ok[of s f] by blast
    have w: "txWindow t f = MPD_txBeginInc ?w" and m: "mem t = mem s |` (- set ?h)"
      using tx_frameD(1,2)[OF t(2)] by simp_all
    have "wf_sn sn (txWindow t f)" "distinct (tx_bufs (txWindow t f))"
      "set (tx_bufs (txWindow t f)) \<subseteq> dom (mem t)" "tx_len (txWindow t f) \<le> fuel"
      using Suc.prems False wf_sn_txBeginInc[OF Suc.prems(1) False] tx_len_inc[OF Suc.prems(1) False]
      unfolding w m split by auto
    from Suc.IH[OF this] obtain u W where u: "clearTxWin_loop fuel f t = Inr u"
      "tx_frame t ((txWindow t)(f := W)) (tx_bufs (MPD_txBeginInc ?w)) u"
      unfolding w by blast
    have "clearTxWin_loop (Suc fuel) f s = Inr u"
    proof -
      have "clearTxWin_loop (Suc fuel) f s
          = bindR (bindR (MPD_freeTxBeginData f s) (\<lambda>s. Inr (upd_tx f MPD_txBeginInc s))) (clearTxWin_loop fuel f)"
        using False tx_empty_iff[OF Suc.prems(1)]
        by (subst clearTxWin_loop.simps) (simp add: bindR_assoc)
      then show ?thesis by (simp add: t(1) u(1))
    qed
    moreover have "tx_frame s ((txWindow s)(f := W)) (tx_bufs ?w) u"
      using tx_frame_trans[OF t(2) u(2)] tx_frameD(1)[OF t(2)] by (simp add: split)
    ultimately show ?thesis by blast
  qed
qed

lemma clearTxWin_ok:
  assumes "wf_tx (txWindow s f)" and "distinct (tx_bufs (txWindow s f))"
    and "set (tx_bufs (txWindow s f)) \<subseteq> dom (mem s)"
  shows "\<exists>s'. MPD_clearTxWin f s = Inr s' \<and>
           tx_frame s ((txWindow s)(f := txwin_zero)) (tx_bufs (txWindow s f)) s'"
proof -
  have "wf_sn (subflowSn (txWindow s f)) (txWindow s f)" using assms(1) by (simp add: wf_tx_def)
  from clearTxWin_loop_ok[OF this assms(2,3), of MAX_TX_WINDOW_SIZE] obtain t W where
    t: "clearTxWin_loop MAX_TX_WINDOW_SIZE f s = Inr t"
    "tx_frame s ((txWindow s)(f := W)) (tx_bufs (txWindow s f)) t"
    using tx_len_less[of "txWindow s f"] by auto
  have "tx_frame s ((txWindow s)(f := txwin_zero)) (tx_bufs (txWindow s f)) (upd_tx f (\<lambda>_. txwin_zero) t)"
    using t(2) unfolding tx_frame_def
    by (elim exE, intro exI mpd_st.equality) (auto simp: upd_tx_def)
  with t(1) show ?thesis by (simp add: MPD_clearTxWin_def)
qed

lemma wf_tx_zero: "wf_tx txwin_zero"
  by (simp add: wf_tx_def wf_sn_def txwin_zero_def tx_len_def dn_zero_def)

lemma tx_queue_zero: "tx_queue txwin_zero = []"
  by (simp add: tx_queue_def txwin_zero_def tx_len_def)

subsection \<open>Appending a packet\<close>

text \<open>
  What \<open>MPD_putDataToTxWin\<close> does to the ring: the slot at \<open>pTxNext\<close> is filled, \<open>pTxNext\<close>
  advances and the slot it reaches gets the next number; if it has caught up with \<open>pTxBegin\<close>
  the oldest node is dropped first.
\<close>

definition tx_push :: "(stDataNode \<Rightarrow> stDataNode) \<Rightarrow> U16 \<Rightarrow> stTxWin \<Rightarrow> stTxWin" where
  "tx_push g sn w =
     (let w1 = (upd_node (pTxNext w) g w)\<lparr>pTxNext := tx_inc (pTxNext w)\<rparr>;
          w2 = (if pTxNext w1 = pTxBegin w1 then MPD_txBeginInc w1 else w1)
      in upd_node (pTxNext w2) (\<lambda>n. n\<lparr>dn_SSN := sn\<rparr>) w2)"

definition tx_full :: "stTxWin \<Rightarrow> bool" where
  "tx_full w \<longleftrightarrow> tx_len w = MAX_TX_WINDOW_SIZE - 1"

lemma tx_full_iff: "wf_sn sn w \<Longrightarrow> tx_full w \<longleftrightarrow> tx_inc (pTxNext w) = pTxBegin w"
  unfolding tx_full_def tx_len_def
  by (subst rdist_full_iff) (simp_all add: wf_snD(1,2) tx_inc_rsucc)

lemma unat_Suc_mod_1024: "unat (sn + 1 :: U16) mod 1024 = (unat sn mod 1024 + 1) mod 1024"
proof -
  have "unat (sn + 1) mod 1024 = (unat sn + 1) mod 65536 mod 1024"
    by (simp add: unat_word_ariths)
  also have "\<dots> = (unat sn + 1) mod 1024"
    by (rule mod_mod_cancel) simp
  finally show ?thesis by (simp add: mod_simps)
qed

lemma tx_push_not_full:
  assumes wf: "wf_sn sn w" and nf: "\<not> tx_full w" and g: "dn_SSN (g (dataNode w (pTxNext w))) = sn"
  shows "wf_sn (sn + 1) (tx_push g (sn + 1) w)"
    and "tx_queue (tx_push g (sn + 1) w) = tx_queue w @ [g (dataNode w (pTxNext w))]"
proof -
  let ?v = "tx_push g (sn + 1) w"
  note b = wf_snD(1,2)[OF wf]
  have nx: "tx_inc (pTxNext w) \<noteq> pTxBegin w" using nf tx_full_iff[OF wf] by simp
  have lt: "Suc (tx_len w) < MAX_TX_WINDOW_SIZE" using nf tx_len_less[of w] by (simp add: tx_full_def)
  have v: "pTxBegin ?v = pTxBegin w" "pTxNext ?v = tx_inc (pTxNext w)"
    "dataNode ?v = (dataNode w)(pTxNext w := g (dataNode w (pTxNext w)),
       tx_inc (pTxNext w) := (((dataNode w)(pTxNext w := g (dataNode w (pTxNext w)))) (tx_inc (pTxNext w)))\<lparr>dn_SSN := sn + 1\<rparr>)"
    using nx by (simp_all add: tx_push_def Let_def)
  have len: "tx_len ?v = Suc (tx_len w)"
    using rdist_rsucc_right[OF b] nx b by (simp add: tx_len_def v tx_inc_rsucc)
  have idx: "tx_idx ?v k = tx_idx w k" for k by (simp add: tx_idx_def v)
  have at: "tx_idx w (tx_len w) = pTxNext w" by (rule tx_idx_len[OF wf])
  have at1: "tx_idx w (Suc (tx_len w)) = tx_inc (pTxNext w)"
  proof -
    have "(pTxBegin w + Suc (tx_len w)) mod 1024 = ((pTxBegin w + tx_len w) mod 1024 + 1) mod 1024"
      by (simp add: mod_simps)
    then show ?thesis using at b by (simp add: tx_idx_def tx_inc_rsucc rsucc_def)
  qed
  have node: "dataNode ?v (tx_idx w k) = dataNode w (tx_idx w k)" if "k < tx_len w" for k
    using that lt tx_idx_inj[OF b(1), of k "tx_len w"] tx_idx_inj[OF b(1), of k "Suc (tx_len w)"]
    by (simp add: v at at1)
  have new: "dataNode ?v (tx_idx w (tx_len w)) = g (dataNode w (pTxNext w))"
    using lt tx_idx_inj[OF b(1), of "tx_len w" "Suc (tx_len w)"] by (simp add: v at at1)
  have top: "dn_SSN (dataNode ?v (tx_idx w (Suc (tx_len w)))) = sn + 1"
    by (simp add: v at1)
  show "tx_queue ?v = tx_queue w @ [g (dataNode w (pTxNext w))]"
    unfolding tx_queue_def len idx by (simp add: node new)
  show "wf_sn (sn + 1) ?v"
    unfolding wf_sn_def len idx
  proof (intro conjI allI impI)
    show "pTxBegin ?v < MAX_TX_WINDOW_SIZE" using b by (simp add: v)
    show "pTxNext ?v = unat (sn + 1) mod MAX_TX_WINDOW_SIZE"
      using wf_snD(3)[OF wf] b by (simp add: v tx_inc_rsucc rsucc_def unat_Suc_mod_1024)
  next
    fix k assume "k \<le> Suc (tx_len w)"
    then consider "k < tx_len w" | "k = tx_len w" | "k = Suc (tx_len w)" by linarith
    then show "dn_SSN (dataNode ?v (tx_idx w k)) = sn + 1 - of_nat (Suc (tx_len w) - k)"
    proof cases
      case 1
      then have "Suc (tx_len w) - k = Suc (tx_len w - k)" by simp
      with 1 show ?thesis using wf_snD(4)[OF wf, of k] by (simp add: node)
    qed (simp_all add: new top g)
  qed
qed

lemma tx_push_full_eq:
  assumes wf: "wf_sn sn w" and full: "tx_full w"
  shows "tx_push g sn' w = tx_push g sn' (MPD_txBeginInc w)"
proof -
  note b = wf_snD(1,2)[OF wf]
  have nx: "tx_inc (pTxNext w) = pTxBegin w" using full tx_full_iff[OF wf] by simp
  have ne: "tx_len w \<noteq> 0" using full by (simp add: tx_full_def)
  then have bn: "pTxNext w \<noteq> pTxBegin w" using tx_empty_iff[OF wf] by simp
  have "tx_inc (pTxBegin w) \<noteq> pTxBegin w" using b by (simp add: tx_inc_def)
  with nx bn show ?thesis
    by (auto simp: tx_push_def Let_def MPD_txBeginInc_def upd_node_def fun_upd_twist)
qed

lemma tx_push_full:
  assumes wf: "wf_sn sn w" and full: "tx_full w" and g: "dn_SSN (g (dataNode w (pTxNext w))) = sn"
  shows "wf_sn (sn + 1) (tx_push g (sn + 1) w)"
    and "tx_queue (tx_push g (sn + 1) w) = tl (tx_queue w) @ [g (dataNode w (pTxNext w))]"
proof -
  let ?u = "MPD_txBeginInc w"
  have ne: "tx_len w \<noteq> 0" using full by (simp add: tx_full_def)
  then have bn: "pTxNext w \<noteq> pTxBegin w" using tx_empty_iff[OF wf] by simp
  have u: "wf_sn sn ?u" "\<not> tx_full ?u" "dataNode ?u (pTxNext ?u) = dataNode w (pTxNext w)"
    using wf_sn_txBeginInc[OF wf ne] tx_len_inc[OF wf ne] full bn by (simp_all add: tx_full_def)
  show "wf_sn (sn + 1) (tx_push g (sn + 1) w)"
    using tx_push_not_full(1)[OF u(1,2)] g u(3) tx_push_full_eq[OF wf full] by simp
  show "tx_queue (tx_push g (sn + 1) w) = tl (tx_queue w) @ [g (dataNode w (pTxNext w))]"
    using tx_push_not_full(2)[OF u(1,2)] g u(3) tx_push_full_eq[OF wf full]
      tx_queue_txBeginInc[OF wf ne] by simp
qed

lemma node_bufs_SSN [simp]: "node_bufs (n\<lparr>dn_SSN := x\<rparr>) = node_bufs n"
  by (simp add: node_bufs_def)

lemma txNextInc_ok:
  fixes s :: mpd_st and f :: nat
  defines "w \<equiv> txWindow s f"
  assumes b: "pTxBegin w < MAX_TX_WINDOW_SIZE" "pTxNext w < MAX_TX_WINDOW_SIZE"
    and live: "tx_inc (pTxNext w) = pTxBegin w \<Longrightarrow> set (node_bufs (dataNode w (pTxBegin w))) \<subseteq> dom (mem s)"
  shows "\<exists>s'. MPD_txNextInc f s = Inr s' \<and>
           tx_frame s ((txWindow s)(f := tx_push id (subflowSn w) w))
             (if tx_inc (pTxNext w) = pTxBegin w then node_bufs (dataNode w (pTxBegin w)) else []) s'"
proof -
  let ?set = "\<lambda>w. upd_node (pTxNext w) (\<lambda>n. n\<lparr>dn_SSN := subflowSn w\<rparr>) w"
  let ?w1 = "?set (w\<lparr>pTxNext := tx_inc (pTxNext w)\<rparr>)"
  let ?s1 = "upd_tx f (\<lambda>w. ?set (w\<lparr>pTxNext := tx_inc (pTxNext w)\<rparr>)) s"
  have w1: "txWindow ?s1 f = ?w1" by (simp add: w_def)
  show ?thesis
  proof (cases "tx_inc (pTxNext w) = pTxBegin w")
    case False
    then have "MPD_txNextInc f s = Inr (upd_tx f ?set ?s1)"
      using w1 by (simp add: MPD_txNextInc_def Let_def w_def)
    moreover have "tx_frame s ((txWindow s)(f := tx_push id (subflowSn w) w)) [] (upd_tx f ?set ?s1)"
      unfolding tx_frame_def
      using False by (intro exI mpd_st.equality)
        (simp_all add: upd_tx_def w_def tx_push_def Let_def upd_node_def)
    ultimately show ?thesis using False by simp
  next
    case True
    let ?h = "node_bufs (dataNode w (pTxBegin w))"
    have h: "node_bufs (dataNode ?w1 (pTxBegin ?w1)) = ?h"
      using True by simp
    have "set (node_bufs (dataNode (txWindow ?s1 f) (pTxBegin (txWindow ?s1 f)))) \<subseteq> dom (mem ?s1)"
      unfolding w1 h using live[OF True] by simp
    from tx_pop_ok[OF this] obtain t where
      t: "bindR (MPD_freeTxBeginData f ?s1) (\<lambda>s. Inr (upd_tx f MPD_txBeginInc s)) = Inr t"
        "tx_frame ?s1 ((txWindow ?s1)(f := MPD_txBeginInc ?w1)) ?h t"
      unfolding w1 h by blast
    have "MPD_txNextInc f s
        = bindR (bindR (MPD_freeTxBeginData f ?s1) (\<lambda>s. Inr (upd_tx f MPD_txBeginInc s)))
            (\<lambda>s. Inr (upd_tx f ?set s))"
      using True by (simp add: MPD_txNextInc_def Let_def w_def)
    then have "MPD_txNextInc f s = Inr (upd_tx f ?set t)" by (simp only: t(1) bindR.simps)
    moreover have "tx_frame s ((txWindow s)(f := tx_push id (subflowSn w) w)) ?h (upd_tx f ?set t)"
    proof -
      have eq: "?set (MPD_txBeginInc ?w1) = tx_push id (subflowSn w) w"
        using True by (simp add: tx_push_def Let_def MPD_txBeginInc_def upd_node_def)
      obtain tr fr where "t = ?s1\<lparr>txWindow := (txWindow ?s1)(f := MPD_txBeginInc ?w1),
          mem := mem ?s1 |` (- set ?h), trace := tr, g_freeNum := fr\<rparr>"
        using t(2) unfolding tx_frame_def by blast
      then have "upd_tx f ?set t = s\<lparr>txWindow := (txWindow s)(f := ?set (MPD_txBeginInc ?w1)),
          mem := mem s |` (- set ?h), trace := tr, g_freeNum := fr\<rparr>"
        by (simp add: upd_tx_def)
      then show ?thesis unfolding tx_frame_def eq by blast
    qed
    ultimately show ?thesis using True by simp
  qed
qed

lemma mem_read_live:
  "mem s a = Some bs \<Longrightarrow> a \<noteq> 0 \<Longrightarrow> off + n \<le> length bs \<Longrightarrow> mem_read s a off n = Inr (take n (drop off bs))"
  by (simp add: mem_read_def mem_block_live)

text \<open>The bookkeeping fields that do not touch the ring.\<close>

definition same_ring :: "stTxWin \<Rightarrow> stTxWin \<Rightarrow> bool" where
  "same_ring w v \<longleftrightarrow> pTxBegin w = pTxBegin v \<and> pTxNext w = pTxNext v \<and> dataNode w = dataNode v
     \<and> subflowSn w = subflowSn v"

lemma same_ring_cong:
  assumes "same_ring w v"
  shows "tx_len w = tx_len v" "tx_queue w = tx_queue v" "tx_bufs w = tx_bufs v"
    "wf_sn sn w = wf_sn sn v" "wf_tx w = wf_tx v" "tx_full w = tx_full v" "subflowSn w = subflowSn v"
  using assms
  by (simp_all add: same_ring_def tx_len_def tx_queue_def tx_idx_def tx_bufs_def wf_sn_def wf_tx_def tx_full_def)

lemma putDataToTxWin_ok:
  fixes s :: mpd_st and f :: nat
  defines "w \<equiv> txWindow s f"
  assumes bs: "mem s a = Some bs" "a \<noteq> 0" "6 \<le> length bs" "be16 (bs ! 4) (bs ! 5) = sn"
    and wf: "wf_sn sn w" and sn: "subflowSn w = sn + 1"
    and live: "tx_full w \<Longrightarrow> set (node_bufs (dataNode w (pTxBegin w))) \<subseteq> dom (mem s)"
  shows "\<exists>s' W. MPD_putDataToTxWin f a len s = Inr (pTxNext w, s') \<and>
           tx_frame s ((txWindow s)(f := W))
             (if tx_full w then node_bufs (dataNode w (pTxBegin w)) else []) s' \<and>
           same_ring W (tx_push (put_node (be16 (bs ! 2) (bs ! 3)) sn a (g_time s) len) (sn + 1) w)"
proof -
  let ?g = "put_node (be16 (bs ! 2) (bs ! 3)) sn a (g_time s) len"
  let ?i = "pTxNext w"
  note b = wf_snD(1,2)[OF wf]
  have h: "mem_read s a 2 4 = Inr (take 4 (drop 2 bs))" using bs by (intro mem_read_live) auto
  have hs: "take 4 (drop 2 bs) ! 0 = bs ! 2" "take 4 (drop 2 bs) ! 1 = bs ! 3"
    "take 4 (drop 2 bs) ! 2 = bs ! 4" "take 4 (drop 2 bs) ! 3 = bs ! 5"
    using bs(3) by simp_all
  let ?u = "\<lambda>w. (upd_node ?i ?g w)\<lparr>pTxLast := Some ?i, timeOutRetCnt := 0\<rparr>"
  let ?s1 = "upd_tx f ?u s"
  have w1: "txWindow ?s1 f = ?u w" by (simp add: w_def)
  have ib: "tx_inc ?i = pTxBegin w \<longleftrightarrow> tx_full w" using tx_full_iff[OF wf] by simp
  have oldest: "dataNode (?u w) (pTxBegin w) = dataNode w (pTxBegin w)" if "tx_full w"
    using that tx_empty_iff[OF wf] by (auto simp: tx_full_def)
  have "\<exists>t. MPD_txNextInc f ?s1 = Inr t \<and>
      tx_frame ?s1 ((txWindow ?s1)(f := tx_push id (subflowSn (?u w)) (?u w)))
        (if tx_inc (pTxNext (?u w)) = pTxBegin (?u w) then node_bufs (dataNode (?u w) (pTxBegin (?u w))) else []) t"
    using txNextInc_ok[of ?s1 f] unfolding w1 using b live oldest ib by auto
  then obtain t where t: "MPD_txNextInc f ?s1 = Inr t"
    "tx_frame ?s1 ((txWindow ?s1)(f := tx_push id (subflowSn (?u w)) (?u w)))
        (if tx_full w then node_bufs (dataNode w (pTxBegin w)) else []) t"
    using oldest ib by (auto split: if_splits)
  let ?last = "\<lambda>w. w\<lparr>lastSendPktTime := g_time t, histA := (if lastTxTime w = 0 then 1 else histA w + 1)\<rparr>"
  let ?W = "?last (tx_push id (subflowSn (?u w)) (?u w))"
  have "MPD_putDataToTxWin f a len s = Inr (?i, upd_tx f ?last t)"
    unfolding MPD_putDataToTxWin_def h using hs bs(4) wf_snD(3)[OF wf] t(1)
    by (simp add: Let_def)
  moreover have "tx_frame s ((txWindow s)(f := ?W))
      (if tx_full w then node_bufs (dataNode w (pTxBegin w)) else []) (upd_tx f ?last t)"
    using t(2) unfolding tx_frame_def
    by (elim exE, intro exI mpd_st.equality) (simp_all add: upd_tx_def)
  moreover have "same_ring ?W (tx_push ?g (sn + 1) w)"
    by (simp add: same_ring_def tx_push_def Let_def MPD_txBeginInc_def upd_node_def sn)
  ultimately show ?thesis by blast
qed

end
