(* ===== verification/MPD_RxSub.thy ===== *)
theory MPD_RxSub
  imports MPD_TxWin
begin

text \<open>
  The receive window of a subflow (\<^verbatim>\<open>mpd_rx.c\<close>): a ring of 1024 slots that records which packets
  of the subflow have arrived, from \<open>sw_RxBegin\<close> (the first missing one, whose number is the
  cumulative acknowledgement) to \<open>sw_RxNext\<close>. Then the acknowledgement packet: its header,
  the SACK blocks and the scan of the window that produces them.

  A loop that has gone once round the ring without changing what its condition reads never
  ends; the fuel of such a loop is the size of the ring. The loop of \<open>MPD_SubWinAddNode\<close>
  advances a 16-bit number by one and has 65536 steps.
\<close>

section \<open>Window operations\<close>

definition SubWinPlus :: "nat \<Rightarrow> nat" where
  "SubWinPlus n = (n + 1) mod RxSubWinMaxSize"

definition upd_slot :: "nat \<Rightarrow> (stRxSubWinNode \<Rightarrow> stRxSubWinNode) \<Rightarrow> stRxSubWin \<Rightarrow> stRxSubWin" where
  "upd_slot i f w = w\<lparr>sw_Win := (sw_Win w)(i := f (sw_Win w i))\<rparr>"

fun subBegin_loop :: "nat \<Rightarrow> stRxSubWin \<Rightarrow> stRxSubWin res" where
  "subBegin_loop fuel w =
     (if sn_status (sw_Win w (sw_RxBegin w)) = Received \<and> sw_RxBegin w \<noteq> sw_RxNext w
      then (if fuel = 0 then Inl OutOfFuel
            else subBegin_loop (fuel - 1) (w\<lparr>sw_RxBegin := SubWinPlus (sw_RxBegin w)\<rparr>))
      else Inr w)"

declare subBegin_loop.simps [simp del]

definition MPD_SubWinRxBeginMove :: "bool \<Rightarrow> stRxSubWin \<Rightarrow> stRxSubWin res" where
  "MPD_SubWinRxBeginMove forceMove w =
     subBegin_loop RxSubWinMaxSize (if forceMove then w\<lparr>sw_RxBegin := SubWinPlus (sw_RxBegin w)\<rparr> else w)"

definition MPD_SubWinRxNextMove :: "stRxSubWin \<Rightarrow> stRxSubWin res" where
  "MPD_SubWinRxNextMove w =
     (let ssn = sn_SSN (sw_Win w (sw_RxNext w));
          w = w\<lparr>sw_RxNext := SubWinPlus (sw_RxNext w)\<rparr>
      in bindR (if sw_RxNext w = sw_RxBegin w then MPD_SubWinRxBeginMove True w else Inr w)
           (\<lambda>w. Inr (upd_slot (sw_RxNext w) (\<lambda>n. n\<lparr>sn_status := UnReceived, sn_SSN := SsnPlus ssn\<rparr>) w)))"

fun subAdd_loop :: "nat \<Rightarrow> U16 \<Rightarrow> stRxSubWin \<Rightarrow> stRxSubWin res" where
  "subAdd_loop fuel ssn w =
     (if ssn = sn_SSN (sw_Win w (sw_RxNext w)) then Inr w
      else if fuel = 0 then Inl OutOfFuel
      else bindR (MPD_SubWinRxNextMove w) (\<lambda>w.
             subAdd_loop (fuel - 1) ssn (upd_slot (sw_RxNext w) (\<lambda>n. n\<lparr>sn_status := UnReceived\<rparr>) w)))"

declare subAdd_loop.simps [simp del]

text \<open>The first packet after a reset puts the window at its number (\<^verbatim>\<open>SSN_OPTIMIZE\<close>).\<close>

definition sub_start :: "U16 \<Rightarrow> stRxSubWin \<Rightarrow> stRxSubWin" where
  "sub_start ssn w =
     (if sw_RxBegin w = 0 \<and> sw_RxNext w = 0 \<and> sn_SSN (sw_Win w 0) = 0
      then let i = unat ssn mod RxSubWinMaxSize
           in upd_slot i (\<lambda>n. n\<lparr>sn_status := UnReceived, sn_SSN := ssn\<rparr>) (w\<lparr>sw_RxBegin := i, sw_RxNext := i\<rparr>)
      else w)"

definition MPD_SubWinAddNode :: "U16 \<Rightarrow> stRxSubWin \<Rightarrow> stRxSubWin res" where
  "MPD_SubWinAddNode nodeSSN w =
     (let w = sub_start nodeSSN w;
          beginSSN = sn_SSN (sw_Win w (sw_RxBegin w));
          nextSSN = sn_SSN (sw_Win w (sw_RxNext w))
      in bindR
          (if DISTANCESN nodeSSN beginSSN < DISTANCESN beginSSN nodeSSN then Inr w
           else if DISTANCESN nodeSSN nextSSN \<ge> DISTANCESN nextSSN nodeSSN
           then bindR (subAdd_loop 65536 nodeSSN w) (\<lambda>w.
                  MPD_SubWinRxNextMove (upd_slot (sw_RxNext w) (\<lambda>n. n\<lparr>sn_status := Received\<rparr>) w))
           else Inr (upd_slot (unat nodeSSN mod RxSubWinMaxSize) (\<lambda>n. n\<lparr>sn_status := Received\<rparr>) w))
          (MPD_SubWinRxBeginMove False))"

definition MPD_ClearSubWin :: "nat \<Rightarrow> mpd_st \<Rightarrow> mpd_st" where
  "MPD_ClearSubWin i s = upd_sub i (\<lambda>_. subwin_zero) s"

definition MPD_GetSubFlowAck :: "nat \<Rightarrow> mpd_st \<Rightarrow> U16 \<times> mpd_st" where
  "MPD_GetSubFlowAck i s =
     (let w = RxSubWin s i; ack = sn_SSN (sw_Win w (sw_RxBegin w))
      in (ack, upd_sub i (\<lambda>w. w\<lparr>SentAck := ack\<rparr>) s))"

text \<open>An operation on one window, in the session.\<close>

definition on_sub :: "nat \<Rightarrow> (stRxSubWin \<Rightarrow> stRxSubWin res) \<Rightarrow> mpd_st \<Rightarrow> mpd_st res" where
  "on_sub i f s = bindR (f (RxSubWin s i)) (\<lambda>w. Inr (upd_sub i (\<lambda>_. w) s))"

text \<open>
  \<^verbatim>\<open>MPD_UpdateSubwinBegin\<close> compares the slot index with a sequence number; it has no caller.
\<close>

fun updateSubwinBegin_loop :: "nat \<Rightarrow> stRxSubWin \<Rightarrow> stRxSubWin res" where
  "updateSubwinBegin_loop fuel w =
     (if sw_RxBegin w \<le> unat (dataWinSSN w) \<and> sw_RxBegin w \<noteq> sw_RxNext w
      then (if fuel = 0 then Inl OutOfFuel
            else bindR (MPD_SubWinRxBeginMove True w) (updateSubwinBegin_loop (fuel - 1)))
      else Inr w)"

declare updateSubwinBegin_loop.simps [simp del]

definition MPD_UpdateSubwinBegin :: "mpd_st \<Rightarrow> mpd_st res" where
  "MPD_UpdateSubwinBegin s =
     forR (\<lambda>i. on_sub i (updateSubwinBegin_loop RxSubWinMaxSize)) [0..<NUM_SUBFLOW] s"

section \<open>The packet header\<close>

text \<open>
  \<^verbatim>\<open>stMPDHeader\<close>, twelve bytes: the flag, a byte of bit-fields (\<^verbatim>\<open>fragment\<close> in bits 0 and 1,
  \<^verbatim>\<open>stream\<close> in bits 2 and 3, \<^verbatim>\<open>length\<close> in words of four bytes in bits 4 to 7), and the big-endian
  fields.
\<close>

definition hdr_bits :: "U8 \<Rightarrow> U8 \<Rightarrow> U8 \<Rightarrow> U8" where
  "hdr_bits frag strm len = (frag AND 3) OR push_bit 2 (strm AND 3) OR push_bit 4 len"

definition hdr_fragment :: "U8 \<Rightarrow> U8" where "hdr_fragment b = b AND 3"
definition hdr_stream :: "U8 \<Rightarrow> U8" where "hdr_stream b = drop_bit 2 b AND 3"
definition hdr_length :: "U8 \<Rightarrow> U8" where "hdr_length b = drop_bit 4 b"

definition mpd_header :: "U8 \<Rightarrow> U8 \<Rightarrow> U8 \<Rightarrow> U16 \<Rightarrow> U16 \<Rightarrow> U16 \<Rightarrow> U32 \<Rightarrow> U8 list" where
  "mpd_header frag strm len DSN SSN ack u =
     [MPD_PACKTET_FLAG, hdr_bits frag strm len, hi8 DSN, lo8 DSN, hi8 SSN, lo8 SSN, hi8 ack, lo8 ack]
     @ be32_bytes u"

section \<open>Acknowledgement packets\<close>

text \<open>
  \<^verbatim>\<open>stSackV\<close> on the wire, and \<^verbatim>\<open>stSack\<close> (tag 1, length, two reserved bytes of which the first
  tells the first packet of a scan). A block is the pair of its edges.
\<close>

definition sack_bytes :: "(U16 \<times> U16) list \<Rightarrow> U8 list" where
  "sack_bytes bs = concat (map (\<lambda>(l, r). [hi8 l, lo8 l, hi8 r, lo8 r]) bs)"

definition MPD_SubWinSendSackPacketMsg ::
    "rat_env \<Rightarrow> U16 \<Rightarrow> (U16 \<times> U16) list \<Rightarrow> nat \<Rightarrow> bool \<Rightarrow> mpd_st \<Rightarrow> mpd_st res" where
  "MPD_SubWinSendSackPacketMsg env ack sack index firstSack s =
     (let num = length sack;
          sackLen = (if num \<noteq> 0 then 8 + (num - 1) * 4 else 0);
          msgLen' = (LEN_MPD_HEADER + sackLen + 3) div 4 * 4
      in case MPD_MsgMemCreat env msgLen' s of (msg, s) \<Rightarrow>
           if msg = 0 then Inr s
           else bindR (mem_write msg 0 (mpd_header 0 (of_nat index) (of_nat (msgLen' div 4)) 0 0 ack (uid s)) s)
             (\<lambda>s. bindR (if num \<noteq> 0
                         then bindR (mem_write msg LEN_MPD_HEADER [0x01, of_nat sackLen, of_bool firstSack] s)
                                (mem_write msg (LEN_MPD_HEADER + 4) (sack_bytes sack))
                         else Inr s)
             (\<lambda>s. bindR (MPD_OnSendMPDataComplete env (MPD_GetDeviceId index) msg msgLen' True s)
             (\<lambda>(_, s). Inr (upd_tx index (\<lambda>w. w\<lparr>lastSendAckTime := g_time s\<rparr>) s)))))"

text \<open>
  The scan: (slot, blocks collected, acknowledgement, first packet still to come). A block opens
  at the first received slot after a gap and closes at the last one; the stack array \<^verbatim>\<open>sack\<close> is
  the list of closed blocks and the left edge of the open one, whose value before it is written is
  whatever the stack held. The eleventh block sends a packet. As \<^verbatim>\<open>rxNext\<close> does not move, the scan
  ends in 1024 steps or never.
\<close>

fun sack_scan :: "nat \<Rightarrow> rat_env \<Rightarrow> nat \<Rightarrow> nat \<Rightarrow> U16 \<Rightarrow> (U16 \<times> U16) list \<Rightarrow> U16 \<Rightarrow> bool \<Rightarrow> mpd_st
    \<Rightarrow> ((U16 \<times> U16) list \<times> U16 \<times> bool \<times> mpd_st) res" where
  "sack_scan fuel env index rxbegin left sack ack firstSack s =
     (let w = RxSubWin s index
      in if rxbegin = sw_RxNext w then Inr (sack, ack, firstSack, s)
         else if fuel = 0 then Inl OutOfFuel
         else
           let temp = SubWinPlus rxbegin; status = sn_status (sw_Win w temp)
           in if sn_status (sw_Win w rxbegin) = status
              then sack_scan (fuel - 1) env index temp left sack ack firstSack s
              else if status = Received
              then sack_scan (fuel - 1) env index temp (sn_SSN (sw_Win w temp)) sack ack firstSack s
              else
                let sack = sack @ [(left, sn_SSN (sw_Win w rxbegin))]
                in if length sack \<ge> MAX_SACK_NUM
                   then bindR (MPD_SubWinSendSackPacketMsg env ack sack index firstSack s) (\<lambda>s.
                          let ack = sn_SSN (sw_Win w temp)
                          in sack_scan (fuel - 1) env index temp left [] ack False
                               (upd_sub index (\<lambda>w. w\<lparr>SentAck := ack\<rparr>) s))
                   else sack_scan (fuel - 1) env index temp left sack ack firstSack s)"

declare sack_scan.simps [simp del]

text \<open>Whether an acknowledgement is due, with the counters the test updates.\<close>

definition sack_due :: "nat \<Rightarrow> mpd_st \<Rightarrow> bool \<times> mpd_st" where
  "sack_due index s =
     (let w = RxSubWin s index; tx = txWindow s index
      in if sw_RxBegin w = sw_RxNext w \<and> sn_SSN (sw_Win w (sw_RxBegin w)) = SentAck w
         then (if g_time s < lastSendPktTime tx + 100 then (False, s\<lparr>totalToAckNum := 0\<rparr>)
               else if g_time s < lastSendAckTime tx + 100 then (False, s)
               else let s = s\<lparr>totalToAckNum := totalToAckNum s + 1\<rparr>
                    in (\<not> totalToAckNum s > activeFlowNum s * 2, s))
         else (True, s\<lparr>totalToAckNum := 0\<rparr>))"

definition MPD_SubWinCreateSack :: "rat_env \<Rightarrow> nat \<Rightarrow> mpd_st \<Rightarrow> mpd_st res" where
  "MPD_SubWinCreateSack env index s =
     (case sack_due index s of (due, s) \<Rightarrow>
        if \<not> due then Inr s
        else
          let w = RxSubWin s index
          in bindR (sack_scan RxSubWinMaxSize env index (sw_RxBegin w) (be16 (env_junk env 0 0) (env_junk env 0 1))
                      [] (sn_SSN (sw_Win w (sw_RxBegin w))) True s)
               (\<lambda>(sack, ack, firstSack, s).
                 bindR (if sack \<noteq> [] \<or> firstSack
                        then MPD_SubWinSendSackPacketMsg env ack sack index firstSack s else Inr s)
                   (\<lambda>s. Inr (upd_sub index (\<lambda>w. w\<lparr>SentAck := sn_SSN (sw_Win w (sw_RxBegin w))\<rparr>) s))))"

definition MPD_SackPeriodSend :: "rat_env \<Rightarrow> mpd_st \<Rightarrow> mpd_st res" where
  "MPD_SackPeriodSend env s =
     (if g_time s = SendSackTime s
      then bindR (forR (\<lambda>i s. if MPD_SCHD_getFlowValid s i \<noteq> 0 then MPD_SubWinCreateSack env i s else Inr s)
                   [0..<NUM_SUBFLOW] s)
             (\<lambda>s. Inr (s\<lparr>SendSackTime := g_time s + SackTimeOut\<rparr>))
      else Inr s)"

section \<open>The window as a set of numbers\<close>

text \<open>
  \<open>rs_is w b len\<close>: the window starts at the number \<open>b\<close> and spans \<open>len\<close> numbers, each in the slot
  of its residue; the slot after them carries the next number. In \<open>rs_ok\<close> that slot is unreceived,
  as it is between calls.
\<close>

definition slot :: "U16 \<Rightarrow> nat" where
  "slot ssn = unat ssn mod RxSubWinMaxSize"

definition rs_is :: "stRxSubWin \<Rightarrow> U16 \<Rightarrow> nat \<Rightarrow> bool" where
  "rs_is w b len \<longleftrightarrow> len < RxSubWinMaxSize \<and> sw_RxBegin w = slot b \<and> sw_RxNext w = slot (b + of_nat len) \<and>
     (\<forall>k\<le>len. sn_SSN (sw_Win w (slot (b + of_nat k))) = b + of_nat k)"

definition rs_begin :: "stRxSubWin \<Rightarrow> U16" where
  "rs_begin w = sn_SSN (sw_Win w (sw_RxBegin w))"

definition rs_next :: "stRxSubWin \<Rightarrow> U16" where
  "rs_next w = sn_SSN (sw_Win w (sw_RxNext w))"

definition rs_ok :: "stRxSubWin \<Rightarrow> bool" where
  "rs_ok w \<longleftrightarrow> rs_is w (rs_begin w) (DISTANCESN (rs_begin w) (rs_next w)) \<and>
     sn_status (sw_Win w (sw_RxNext w)) \<noteq> Received"

definition rs_recv :: "stRxSubWin \<Rightarrow> U16 set" where
  "rs_recv w = {s. DISTANCESN (rs_begin w) s < DISTANCESN (rs_begin w) (rs_next w) \<and>
                   sn_status (sw_Win w (slot s)) = Received}"

lemma slot_less [simp]: "slot s < RxSubWinMaxSize"
  by (simp add: slot_def)

lemma slot_add: "slot (b + of_nat k) = (slot b + k) mod RxSubWinMaxSize"
proof -
  have "unat (b + of_nat k) mod 1024 = (unat b + k) mod 65536 mod 1024"
    by (simp add: unat_word_ariths unat_of_nat mod_simps)
  also have "\<dots> = (unat b + k) mod 1024" by (rule mod_mod_cancel) simp
  finally show ?thesis by (simp add: slot_def mod_simps)
qed

lemma slot_add_inj:
  "i < RxSubWinMaxSize \<Longrightarrow> j < RxSubWinMaxSize \<Longrightarrow> slot (b + of_nat i) = slot (b + of_nat j) \<longleftrightarrow> i = j"
  unfolding slot_add by (rule add_mod_inj) simp_all

lemma slot_1024: "slot (b + of_nat 1024) = slot b"
  unfolding slot_add by simp

lemma SubWinPlus_slot: "SubWinPlus (slot b) = slot (b + 1)"
  using slot_add[of b 1] by (simp add: SubWinPlus_def)

lemma slot_eq_self:
  "m < RxSubWinMaxSize \<Longrightarrow> slot b = slot (b + of_nat m) \<longleftrightarrow> m = 0"
  using slot_add_inj[of 0 m b] by auto

lemma rs_isD:
  assumes "rs_is w b len"
  shows "rs_begin w = b" "rs_next w = b + of_nat len" "DISTANCESN b (rs_next w) = len" "len < RxSubWinMaxSize"
    "sw_RxBegin w = slot b" "sw_RxNext w = slot (b + of_nat len)"
proof -
  show n: "rs_next w = b + of_nat len" and "rs_begin w = b"
    using assms by (auto simp: rs_is_def rs_begin_def rs_next_def dest: spec[of _ "0::nat"])
  show "len < RxSubWinMaxSize" "sw_RxBegin w = slot b" "sw_RxNext w = slot (b + of_nat len)"
    using assms by (simp_all add: rs_is_def)
  then show "DISTANCESN b (rs_next w) = len" by (simp add: n DISTANCESN_add)
qed

lemma rs_okI: "rs_is w b len \<Longrightarrow> sn_status (sw_Win w (sw_RxNext w)) \<noteq> Received \<Longrightarrow> rs_ok w"
  using rs_isD(1,3)[of w b len] by (simp add: rs_ok_def)

lemma rs_okE:
  assumes "rs_ok w"
  obtains b len where "rs_is w b len" "sn_status (sw_Win w (slot (b + of_nat len))) \<noteq> Received"
  using assms rs_isD(6)[of w] by (auto simp: rs_ok_def)

lemma DISTANCESN_less_iff:
  "len < 65536 \<Longrightarrow> DISTANCESN b s < len \<longleftrightarrow> (\<exists>k<len. s = b + of_nat k)"
  using of_nat_DISTANCESN[of b s] by (auto simp: DISTANCESN_add)

lemma rs_recv_iff:
  "rs_is w b len \<Longrightarrow> s \<in> rs_recv w \<longleftrightarrow> (\<exists>k<len. s = b + of_nat k \<and> sn_status (sw_Win w (slot (b + of_nat k))) = Received)"
  using rs_isD(1,3,4)[of w b len] by (auto simp: rs_recv_def DISTANCESN_less_iff)

lemma rs_recv_alt:
  "rs_is w b len \<Longrightarrow> rs_recv w = {s. DISTANCESN b s < len \<and> sn_status (sw_Win w (slot s)) = Received}"
  using rs_isD(1,3)[of w b len] by (simp add: rs_recv_def)

lemma rs_recv_offset:
  "rs_is w b len \<Longrightarrow> k < RxSubWinMaxSize \<Longrightarrow>
   b + of_nat k \<in> rs_recv w \<longleftrightarrow> k < len \<and> sn_status (sw_Win w (slot (b + of_nat k))) = Received"
  using DISTANCESN_add[of k b] by (simp add: rs_recv_alt)

lemma slot_inj:
  assumes "DISTANCESN b s < RxSubWinMaxSize" and "DISTANCESN b t < RxSubWinMaxSize"
  shows "slot s = slot t \<longleftrightarrow> s = t"
  using slot_add_inj[OF assms, of b] of_nat_DISTANCESN[of b s] of_nat_DISTANCESN[of b t] by metis

lemma rs_ok_zero: "rs_ok subwin_zero"
  by (rule rs_okI[of _ 0 0]) (simp_all add: rs_is_def subwin_zero_def slot_def)

subsection \<open>Moving the start\<close>

lemma subBegin_loop_ok:
  assumes "sw_RxBegin w = slot c" and "sw_RxNext w = slot (c + of_nat m)" and "m < RxSubWinMaxSize" and "m \<le> fuel"
  shows "\<exists>j\<le>m. subBegin_loop fuel w = Inr (w\<lparr>sw_RxBegin := slot (c + of_nat j)\<rparr>) \<and>
     (\<forall>i<j. sn_status (sw_Win w (slot (c + of_nat i))) = Received) \<and>
     (j = m \<or> sn_status (sw_Win w (slot (c + of_nat j))) \<noteq> Received)"
  using assms
proof (induction fuel arbitrary: w c m)
  case 0
  then show ?case by (subst subBegin_loop.simps) simp
next
  case (Suc fuel)
  show ?case
  proof (cases "sn_status (sw_Win w (slot c)) = Received \<and> m \<noteq> 0")
    case False
    then have "subBegin_loop (Suc fuel) w = Inr w"
      using Suc.prems slot_eq_self[of m c] by (subst subBegin_loop.simps) auto
    then show ?thesis using False Suc.prems(1) by (intro exI[of _ 0]) auto
  next
    case True
    let ?w = "w\<lparr>sw_RxBegin := slot (c + 1)\<rparr>"
    have step: "subBegin_loop (Suc fuel) w = subBegin_loop fuel ?w"
      using True Suc.prems slot_eq_self[of m c] by (subst subBegin_loop.simps) (simp add: SubWinPlus_slot)
    have m: "c + 1 + of_nat (m - 1) = c + of_nat m" using True by (cases m) (simp_all add: ac_simps)
    have "\<exists>j\<le>m - 1. subBegin_loop fuel ?w = Inr (?w\<lparr>sw_RxBegin := slot (c + 1 + of_nat j)\<rparr>) \<and>
       (\<forall>i<j. sn_status (sw_Win ?w (slot (c + 1 + of_nat i))) = Received) \<and>
       (j = m - 1 \<or> sn_status (sw_Win ?w (slot (c + 1 + of_nat j))) \<noteq> Received)"
      using Suc.prems True by (intro Suc.IH) (simp_all add: m)
    then obtain j where j: "j \<le> m - 1" "subBegin_loop fuel ?w = Inr (?w\<lparr>sw_RxBegin := slot (c + 1 + of_nat j)\<rparr>)"
       "\<forall>i<j. sn_status (sw_Win w (slot (c + 1 + of_nat i))) = Received"
       "j = m - 1 \<or> sn_status (sw_Win w (slot (c + 1 + of_nat j))) \<noteq> Received" by auto
    have *: "c + 1 + of_nat i = c + of_nat (Suc i)" for i by (simp add: ac_simps)
    show ?thesis
    proof (intro exI[of _ "Suc j"] conjI allI impI)
      show "Suc j \<le> m" using j(1) True by (cases m) simp_all
      show "subBegin_loop (Suc fuel) w = Inr (w\<lparr>sw_RxBegin := slot (c + of_nat (Suc j))\<rparr>)"
        using step j(2) unfolding * by simp
      fix i assume "i < Suc j"
      then show "sn_status (sw_Win w (slot (c + of_nat i))) = Received"
        using True j(3) unfolding * by (cases i) auto
    next
      show "Suc j = m \<or> sn_status (sw_Win w (slot (c + of_nat (Suc j)))) \<noteq> Received"
        using j(4) True unfolding * by auto
    qed
  qed
qed

lemma rs_is_SSN: "rs_is w b len \<Longrightarrow> k \<le> len \<Longrightarrow> sn_SSN (sw_Win w (slot (b + of_nat k))) = b + of_nat k"
  by (simp add: rs_is_def)

lemma rs_is_drop:
  assumes "rs_is w b len" and "j \<le> len"
  shows "rs_is (w\<lparr>sw_RxBegin := slot (b + of_nat j)\<rparr>) (b + of_nat j) (len - j)"
proof -
  have e: "b + of_nat j + of_nat k = b + of_nat (j + k)" for k by (simp add: ac_simps)
  show ?thesis
    unfolding rs_is_def e
  proof (intro conjI allI impI)
    fix k assume "k \<le> len - j"
    then have "j + k \<le> len" using assms(2) by simp
    then show "sn_SSN (sw_Win (w\<lparr>sw_RxBegin := slot (b + of_nat j)\<rparr>) (slot (b + of_nat (j + k)))) = b + of_nat (j + k)"
      using rs_is_SSN[OF assms(1)] by (simp del: of_nat_add)
  qed (use assms in \<open>auto simp: rs_is_def\<close>)
qed

lemma BeginMove_ok:
  assumes "rs_is w b len"
  shows "\<exists>j\<le>len. MPD_SubWinRxBeginMove False w = Inr (w\<lparr>sw_RxBegin := slot (b + of_nat j)\<rparr>) \<and>
     (\<forall>i<j. sn_status (sw_Win w (slot (b + of_nat i))) = Received) \<and>
     (j = len \<or> sn_status (sw_Win w (slot (b + of_nat j))) \<noteq> Received)"
  using subBegin_loop_ok[of w b len RxSubWinMaxSize] assms by (simp add: rs_is_def MPD_SubWinRxBeginMove_def)

subsection \<open>Moving the end\<close>

lemma upd_slot_simps [simp]:
  "sw_Win (upd_slot i f w) = (sw_Win w)(i := f (sw_Win w i))" "sw_RxBegin (upd_slot i f w) = sw_RxBegin w"
  "sw_RxNext (upd_slot i f w) = sw_RxNext w" "SentAck (upd_slot i f w) = SentAck w"
  "dataWinSSN (upd_slot i f w) = dataWinSSN w"
  by (simp_all add: upd_slot_def)

text \<open>Below the limit the window grows by one unreceived number and nothing else changes.\<close>

lemma NextMove_room:
  assumes w: "rs_is w b len" and room: "Suc len < RxSubWinMaxSize"
  shows "\<exists>w'. MPD_SubWinRxNextMove w = Inr w' \<and> rs_is w' b (Suc len) \<and>
     sn_status (sw_Win w' (slot (b + of_nat (Suc len)))) = UnReceived \<and>
     (\<forall>i\<le>len. sn_status (sw_Win w' (slot (b + of_nat i))) = sn_status (sw_Win w (slot (b + of_nat i))))"
proof -
  note d = rs_isD[OF w]
  let ?n = "slot (b + of_nat (Suc len))"
  have n: "SubWinPlus (sw_RxNext w) = ?n" using SubWinPlus_slot[of "b + of_nat len"] d by (simp add: ac_simps)
  have nb: "?n \<noteq> slot b" using slot_eq_self[OF room, of b] by auto
  have inj: "slot (b + of_nat i) \<noteq> ?n" if "i \<le> len" for i
    using slot_add_inj[of i "Suc len" b] that room by simp
  have ssn: "sn_SSN (sw_Win w (sw_RxNext w)) = b + of_nat len" using d(2) by (simp add: rs_next_def)
  let ?w = "upd_slot ?n (\<lambda>n. n\<lparr>sn_status := UnReceived, sn_SSN := SsnPlus (b + of_nat len)\<rparr>) (w\<lparr>sw_RxNext := ?n\<rparr>)"
  have "MPD_SubWinRxNextMove w = Inr ?w"
    using nb d(5) ssn by (simp add: MPD_SubWinRxNextMove_def Let_def n)
  moreover have "rs_is ?w b (Suc len)"
    unfolding rs_is_def
  proof (intro conjI allI impI)
    fix k assume "k \<le> Suc len"
    then show "sn_SSN (sw_Win ?w (slot (b + of_nat k))) = b + of_nat k"
      using w inj[of k] by (cases "k = Suc len") (auto simp: rs_is_def SsnPlus_eq ac_simps)
  qed (use w room in \<open>simp_all add: rs_is_def\<close>)
  ultimately show ?thesis using inj by (intro exI[of _ ?w]) simp
qed

text \<open>At the limit the oldest numbers are given up: one at least, and the received ones after it.\<close>

lemma NextMove_full:
  assumes w: "rs_is w b 1023"
  shows "\<exists>w' j. MPD_SubWinRxNextMove w = Inr w' \<and> 1 \<le> j \<and> j \<le> 1024 \<and>
     rs_is w' (b + of_nat j) (1024 - j) \<and> sn_status (sw_Win w' (slot (b + of_nat 1024))) = UnReceived"
proof -
  note d = rs_isD[OF w]
  have n: "SubWinPlus (sw_RxNext w) = slot b"
    using SubWinPlus_slot[of "b + of_nat 1023"] slot_1024[of b] d by (simp add: ac_simps)
  have ssn: "sn_SSN (sw_Win w (sw_RxNext w)) = b + of_nat 1023" using d(2) by (simp add: rs_next_def)
  let ?v = "w\<lparr>sw_RxNext := slot b, sw_RxBegin := slot (b + 1)\<rparr>"
  have "\<exists>j\<le>1023. subBegin_loop RxSubWinMaxSize ?v = Inr (?v\<lparr>sw_RxBegin := slot (b + 1 + of_nat j)\<rparr>)"
  proof -
    have "slot b = slot (b + 1 + of_nat 1023)" using slot_1024[of b] by (simp add: ac_simps)
    then have "sw_RxNext ?v = slot (b + 1 + of_nat 1023)" by simp
    from subBegin_loop_ok[OF _ this, of RxSubWinMaxSize] show ?thesis by auto
  qed
  then obtain j where j: "j \<le> 1023" "subBegin_loop RxSubWinMaxSize ?v = Inr (?v\<lparr>sw_RxBegin := slot (b + of_nat (Suc j))\<rparr>)"
    by (auto simp: ac_simps)
  let ?w = "upd_slot (slot b) (\<lambda>n. n\<lparr>sn_status := UnReceived, sn_SSN := SsnPlus (b + of_nat 1023)\<rparr>)
      (?v\<lparr>sw_RxBegin := slot (b + of_nat (Suc j))\<rparr>)"
  have "MPD_SubWinRxNextMove w = Inr ?w"
    using d(5) ssn j(2) by (simp add: MPD_SubWinRxNextMove_def MPD_SubWinRxBeginMove_def Let_def n SubWinPlus_slot)
  moreover have "rs_is ?w (b + of_nat (Suc j)) (1024 - Suc j)"
    unfolding rs_is_def
  proof (intro conjI allI impI)
    have e: "b + of_nat (Suc j) + of_nat k = b + of_nat (Suc j + k)" for k by (simp add: ac_simps)
    have "Suc j + (1024 - Suc j) = 1024" using j(1) by simp
    then show "sw_RxNext ?w = slot (b + of_nat (Suc j) + of_nat (1024 - Suc j))"
      unfolding e using slot_1024[of b] by simp
    fix k assume k: "k \<le> 1024 - Suc j"
    show "sn_SSN (sw_Win ?w (slot (b + of_nat (Suc j) + of_nat k))) = b + of_nat (Suc j) + of_nat k"
    proof (cases "Suc j + k = 1024")
      case True
      then show ?thesis unfolding e using slot_1024[of b] by (simp add: SsnPlus_eq)
    next
      case False
      then have "Suc j + k < 1024" using k j(1) by simp
      then show ?thesis
        unfolding e using rs_is_SSN[OF w, of "Suc j + k"] slot_eq_self[of "Suc j + k" b]
        by (simp del: of_nat_add of_nat_Suc)
    qed
  qed (use j(1) in simp_all)
  ultimately show ?thesis
    using j(1) slot_1024[of b] by (intro exI[of _ ?w] exI[of _ "Suc j"]) auto
qed

lemma NextMove_total:
  assumes w: "rs_is w b len"
  shows "\<exists>w' b' len'. MPD_SubWinRxNextMove w = Inr w' \<and> rs_is w' b' len' \<and>
     b' + of_nat len' = b + of_nat len + 1 \<and> sn_status (sw_Win w' (slot (b' + of_nat len'))) = UnReceived"
proof (cases "Suc len < RxSubWinMaxSize")
  case True
  from NextMove_room[OF w this] obtain w' where "MPD_SubWinRxNextMove w = Inr w'" "rs_is w' b (Suc len)"
     "sn_status (sw_Win w' (slot (b + of_nat (Suc len)))) = UnReceived" by blast
  then show ?thesis by (intro exI[of _ w'] exI[of _ b] exI[of _ "Suc len"]) (simp add: ac_simps)
next
  case False
  then have len: "len = 1023" using rs_isD(4)[OF w] by simp
  from NextMove_full[OF w[unfolded len]] obtain w' j where w': "MPD_SubWinRxNextMove w = Inr w'" "j \<le> 1024"
    "rs_is w' (b + of_nat j) (1024 - j)" "sn_status (sw_Win w' (slot (b + of_nat 1024))) = UnReceived" by blast
  have "b + of_nat j + of_nat (1024 - j) = b + of_nat (j + (1024 - j))" by (simp only: of_nat_add ac_simps)
  also have "\<dots> = b + of_nat 1024" using w'(2) by (simp only: le_add_diff_inverse)
  finally show ?thesis using w' len
    by (intro exI[of _ w'] exI[of _ "b + of_nat j"] exI[of _ "1024 - j"]) (simp del: of_nat_add)
qed

lemma rs_is_status:
  "rs_is w b len \<Longrightarrow> rs_is (upd_slot i (\<lambda>n. n\<lparr>sn_status := x\<rparr>) w) b len"
  by (auto simp: rs_is_def)

lemma subAdd_room:
  assumes "rs_is w b len" and "sn_status (sw_Win w (slot (b + of_nat len))) \<noteq> Received"
    and "n = b + of_nat (len + d)" and "len + d < RxSubWinMaxSize" and "d \<le> fuel"
  shows "\<exists>w'. subAdd_loop fuel n w = Inr w' \<and> rs_is w' b (len + d) \<and>
     (\<forall>i<len. sn_status (sw_Win w' (slot (b + of_nat i))) = sn_status (sw_Win w (slot (b + of_nat i)))) \<and>
     (\<forall>i. len \<le> i \<and> i \<le> len + d \<longrightarrow> sn_status (sw_Win w' (slot (b + of_nat i))) \<noteq> Received)"
  using assms
proof (induction d arbitrary: fuel w len)
  case 0
  then have "n = sn_SSN (sw_Win w (sw_RxNext w))" using rs_isD(2)[OF "0"(1)] by (simp add: rs_next_def)
  then show ?case using "0" by (intro exI[of _ w]) (subst subAdd_loop.simps, auto simp: le_antisym)
next
  case (Suc d)
  obtain f where f: "fuel = Suc f" using Suc.prems(5) by (cases fuel) auto
  have ne: "n \<noteq> sn_SSN (sw_Win w (sw_RxNext w))"
  proof
    assume "n = sn_SSN (sw_Win w (sw_RxNext w))"
    then have "b + of_nat (len + Suc d) = b + of_nat len"
      using rs_isD(2)[OF Suc.prems(1)] Suc.prems(3) unfolding rs_next_def by metis
    then have "DISTANCESN b (b + of_nat (len + Suc d)) = DISTANCESN b (b + of_nat len)" by (rule arg_cong)
    then show False using Suc.prems(4) by (simp del: of_nat_add of_nat_Suc add: DISTANCESN_add)
  qed
  obtain v where v: "MPD_SubWinRxNextMove w = Inr v" "rs_is v b (Suc len)"
    "sn_status (sw_Win v (slot (b + of_nat (Suc len)))) = UnReceived"
    "\<forall>i\<le>len. sn_status (sw_Win v (slot (b + of_nat i))) = sn_status (sw_Win w (slot (b + of_nat i)))"
    using NextMove_room[OF Suc.prems(1)] Suc.prems(4) by auto
  let ?v = "upd_slot (sw_RxNext v) (\<lambda>n. n\<lparr>sn_status := UnReceived\<rparr>) v"
  have next_v: "sw_RxNext v = slot (b + of_nat (Suc len))" by (rule rs_isD(6)[OF v(2)])
  have step: "subAdd_loop fuel n w = subAdd_loop f n ?v"
    using ne v(1) by (subst subAdd_loop.simps) (simp add: f)
  have old: "sn_status (sw_Win ?v (slot (b + of_nat i))) = sn_status (sw_Win w (slot (b + of_nat i)))" if "i \<le> len" for i
    using v(4) that slot_add_inj[of i "Suc len" b] Suc.prems(4) unfolding next_v by (simp del: of_nat_Suc)
  have "\<exists>w'. subAdd_loop f n ?v = Inr w' \<and> rs_is w' b (Suc len + d) \<and>
     (\<forall>i<Suc len. sn_status (sw_Win w' (slot (b + of_nat i))) = sn_status (sw_Win ?v (slot (b + of_nat i)))) \<and>
     (\<forall>i. Suc len \<le> i \<and> i \<le> Suc len + d \<longrightarrow> sn_status (sw_Win w' (slot (b + of_nat i))) \<noteq> Received)"
  proof (rule Suc.IH)
    show "rs_is ?v b (Suc len)" by (rule rs_is_status[OF v(2)])
    show "sn_status (sw_Win ?v (slot (b + of_nat (Suc len)))) \<noteq> Received" using next_v by (simp del: of_nat_Suc)
  qed (use Suc.prems f in simp_all)
  then obtain w' where w': "subAdd_loop f n ?v = Inr w'" "rs_is w' b (Suc len + d)"
     "\<forall>i<Suc len. sn_status (sw_Win w' (slot (b + of_nat i))) = sn_status (sw_Win ?v (slot (b + of_nat i)))"
     "\<forall>i. Suc len \<le> i \<and> i \<le> Suc len + d \<longrightarrow> sn_status (sw_Win w' (slot (b + of_nat i))) \<noteq> Received"
    by blast
  have keep: "sn_status (sw_Win w' (slot (b + of_nat i))) = sn_status (sw_Win w (slot (b + of_nat i)))" if "i \<le> len" for i
    using w'(3) old that less_Suc_eq_le by metis
  show ?case
  proof (intro exI[of _ w'] conjI allI impI)
    show "subAdd_loop fuel n w = Inr w'" using step w'(1) by simp
    show "rs_is w' b (len + Suc d)" using w'(2) by simp
    show "sn_status (sw_Win w' (slot (b + of_nat i))) = sn_status (sw_Win w (slot (b + of_nat i)))" if "i < len" for i
      using keep that by simp
    show "sn_status (sw_Win w' (slot (b + of_nat i))) \<noteq> Received" if "len \<le> i \<and> i \<le> len + Suc d" for i
      using w'(4) keep[of len] Suc.prems(2) that by (cases "i = len") simp_all
  qed
qed

lemma subAdd_total:
  assumes "rs_is w b len" and "sn_status (sw_Win w (slot (b + of_nat len))) \<noteq> Received"
    and "n = b + of_nat len + of_nat d" and "d < 65536" and "d \<le> fuel"
  shows "\<exists>w' b' len'. subAdd_loop fuel n w = Inr w' \<and> rs_is w' b' len' \<and> b' + of_nat len' = n \<and>
     sn_status (sw_Win w' (slot n)) \<noteq> Received"
  using assms
proof (induction d arbitrary: fuel w b len)
  case 0
  then have "n = sn_SSN (sw_Win w (sw_RxNext w))" using rs_isD(2)[OF "0"(1)] by (simp add: rs_next_def)
  then show ?case using "0" by (intro exI[of _ w] exI[of _ b] exI[of _ len]) (subst subAdd_loop.simps, auto)
next
  case (Suc d)
  obtain f where f: "fuel = Suc f" using Suc.prems(5) by (cases fuel) auto
  have ne: "n \<noteq> sn_SSN (sw_Win w (sw_RxNext w))"
  proof
    assume "n = sn_SSN (sw_Win w (sw_RxNext w))"
    then have "b + of_nat len + of_nat (Suc d) = b + of_nat len"
      using rs_isD(2)[OF Suc.prems(1)] Suc.prems(3) unfolding rs_next_def by metis
    then have "DISTANCESN (b + of_nat len) (b + of_nat len + of_nat (Suc d)) = DISTANCESN (b + of_nat len) (b + of_nat len)"
      by (rule arg_cong)
    then show False using Suc.prems(4) by (simp del: of_nat_add of_nat_Suc add: DISTANCESN_add)
  qed
  obtain v b' len' where v: "MPD_SubWinRxNextMove w = Inr v" "rs_is v b' len'"
    "b' + of_nat len' = b + of_nat len + 1"
    using NextMove_total[OF Suc.prems(1)] by blast
  let ?v = "upd_slot (sw_RxNext v) (\<lambda>n. n\<lparr>sn_status := UnReceived\<rparr>) v"
  have step: "subAdd_loop fuel n w = subAdd_loop f n ?v"
    using ne v(1) by (subst subAdd_loop.simps) (simp add: f)
  have "\<exists>w' b' len'. subAdd_loop f n ?v = Inr w' \<and> rs_is w' b' len' \<and> b' + of_nat len' = n \<and>
     sn_status (sw_Win w' (slot n)) \<noteq> Received"
  proof (rule Suc.IH)
    show "rs_is ?v b' len'" by (rule rs_is_status[OF v(2)])
    show "sn_status (sw_Win ?v (slot (b' + of_nat len'))) \<noteq> Received" using rs_isD(6)[OF v(2)] by simp
    show "n = b' + of_nat len' + of_nat d" using Suc.prems(3) v(3) by (simp add: ac_simps)
  qed (use Suc.prems f in simp_all)
  then show ?case unfolding step .
qed

subsection \<open>Adding a packet\<close>

lemma DISTANCESN_offsets:
  assumes "i \<le> j" and "j < 65536"
  shows "DISTANCESN (b + of_nat i) (b + of_nat j) = j - i"
    and "i < j \<Longrightarrow> DISTANCESN (b + of_nat j) (b + of_nat i) = 65536 - (j - i)"
proof -
  have "b + of_nat j = b + of_nat i + of_nat (j - i)" using assms(1) by (simp add: of_nat_diff)
  then show d: "DISTANCESN (b + of_nat i) (b + of_nat j) = j - i"
    using DISTANCESN_add[of "j - i" "b + of_nat i"] assms by (simp only:)
  assume "i < j"
  then have "b + of_nat i \<noteq> b + of_nat j" using d by auto
  from DISTANCESN_swap[OF this] d show "DISTANCESN (b + of_nat j) (b + of_nat i) = 65536 - (j - i)"
    by simp
qed

lemma DISTANCESN_shift:
  assumes "j \<le> len" and "len < RxSubWinMaxSize"
  shows "DISTANCESN (b + of_nat j) s < len - j \<longleftrightarrow> DISTANCESN b s < len \<and> j \<le> DISTANCESN b s"
proof (cases "j \<le> DISTANCESN b s")
  case True
  then show ?thesis
    using DISTANCESN_offsets(1)[OF True DISTANCESN_less, of b] by (auto simp: of_nat_DISTANCESN)
next
  case False
  then show ?thesis
    using DISTANCESN_offsets(2)[of "DISTANCESN b s" j b] assms by (auto simp: of_nat_DISTANCESN)
qed

lemma left_iff: "DISTANCESN n b < DISTANCESN b n \<longleftrightarrow> 32768 < DISTANCESN b n"
  using DISTANCESN_swap[of b n] by (cases "b = n") auto

lemma right_iff:
  assumes "len < 32768" and "\<not> DISTANCESN n b < DISTANCESN b n"
  shows "DISTANCESN n (b + of_nat len) \<ge> DISTANCESN (b + of_nat len) n \<longleftrightarrow> len \<le> DISTANCESN b n"
proof -
  let ?d = "DISTANCESN b n"
  have n: "n = b + of_nat ?d" by (simp add: of_nat_DISTANCESN)
  have d: "?d \<le> 32768" using assms(2) left_iff[of n b] by simp
  consider "len < ?d" | "len = ?d" | "?d < len" by linarith
  then show ?thesis
  proof cases
    case 1
    then have "DISTANCESN (b + of_nat len) n = ?d - len" "DISTANCESN n (b + of_nat len) = 65536 - (?d - len)"
      using DISTANCESN_offsets[of len ?d b] d n by simp_all
    with 1 d show ?thesis by simp
  next
    case 2
    then have "n = b + of_nat len" using n by simp
    then show ?thesis using 2 by simp
  next
    case 3
    then have "DISTANCESN (b + of_nat len) n = 65536 - (len - ?d)" "DISTANCESN n (b + of_nat len) = len - ?d"
      using DISTANCESN_offsets[of ?d len b] assms(1) n by simp_all
    with 3 assms(1) show ?thesis by simp
  qed
qed

lemma sub_start_ok:
  assumes "rs_ok w"
  obtains b len where "rs_is (sub_start n w) b len" "sn_status (sw_Win (sub_start n w) (slot (b + of_nat len))) \<noteq> Received"
    "rs_recv (sub_start n w) = rs_recv w"
proof (cases "sw_RxBegin w = 0 \<and> sw_RxNext w = 0 \<and> sn_SSN (sw_Win w 0) = 0")
  case False
  then have "sub_start n w = w" by (auto simp: sub_start_def)
  with assms that show ?thesis by (elim rs_okE) simp
next
  case True
  have "rs_is (sub_start n w) n 0" "sn_status (sw_Win (sub_start n w) (slot (n + of_nat 0))) \<noteq> Received"
    using True by (simp_all add: sub_start_def rs_is_def slot_def Let_def)
  moreover have "rs_next w = rs_begin w" using True by (simp add: rs_begin_def rs_next_def)
  then have "rs_recv w = {}" by (auto simp: rs_recv_def)
  moreover have "rs_recv (sub_start n w) = {}" using rs_recv_iff[OF calculation(1)] by auto
  ultimately show ?thesis using that by metis
qed

lemma BeginMove_rs_ok:
  assumes w: "rs_is w b len" and nr: "sn_status (sw_Win w (slot (b + of_nat len))) \<noteq> Received"
  shows "\<exists>w'. MPD_SubWinRxBeginMove False w = Inr w' \<and> rs_ok w' \<and> sn_status (sw_Win w' (sw_RxBegin w')) \<noteq> Received"
proof -
  obtain j where j: "j \<le> len" "MPD_SubWinRxBeginMove False w = Inr (w\<lparr>sw_RxBegin := slot (b + of_nat j)\<rparr>)"
     "j = len \<or> sn_status (sw_Win w (slot (b + of_nat j))) \<noteq> Received"
    using BeginMove_ok[OF w] by blast
  have "rs_ok (w\<lparr>sw_RxBegin := slot (b + of_nat j)\<rparr>)"
    using rs_okI[OF rs_is_drop[OF w j(1)]] nr rs_isD(6)[OF w] by simp
  with j nr show ?thesis by auto
qed

lemma SubAddNode_total:
  assumes "rs_ok w"
  shows "\<exists>w'. MPD_SubWinAddNode n w = Inr w' \<and> rs_ok w' \<and> sn_status (sw_Win w' (sw_RxBegin w')) \<noteq> Received"
proof -
  let ?v = "sub_start n w"
  obtain b len where v: "rs_is ?v b len" and nr: "sn_status (sw_Win ?v (slot (b + of_nat len))) \<noteq> Received"
    using sub_start_ok[OF assms] by metis
  note d = rs_isD[OF v]
  have bn: "sn_SSN (sw_Win ?v (sw_RxBegin ?v)) = b" "sn_SSN (sw_Win ?v (sw_RxNext ?v)) = b + of_nat len"
    using d(1,2) by (simp_all add: rs_begin_def rs_next_def)
  note add = MPD_SubWinAddNode_def[of n w, unfolded Let_def bn]
  show ?thesis
  proof (cases "DISTANCESN n b < DISTANCESN b n")
    case True
    then show ?thesis using BeginMove_rs_ok[OF v nr] unfolding add by simp
  next
    case left: False
    show ?thesis
    proof (cases "len \<le> DISTANCESN b n")
      case False
      let ?u = "upd_slot (slot n) (\<lambda>m. m\<lparr>sn_status := Received\<rparr>) ?v"
      have n: "n = b + of_nat (DISTANCESN b n)" by (simp add: of_nat_DISTANCESN)
      have "slot n \<noteq> slot (b + of_nat len)"
        using slot_add_inj[of "DISTANCESN b n" len b] False d(4) n by simp
      then have "sn_status (sw_Win ?u (slot (b + of_nat len))) \<noteq> Received" using nr by simp
      from BeginMove_rs_ok[OF rs_is_status[OF v] this] show ?thesis
        unfolding add using left False right_iff[OF less_trans[OF d(4)] left] by (simp add: slot_def)
    next
      case True
      have "n = b + of_nat len + of_nat (DISTANCESN (b + of_nat len) n)" by (simp add: of_nat_DISTANCESN)
      from subAdd_total[OF v nr this DISTANCESN_less less_imp_le[OF DISTANCESN_less]] obtain u b' len' where
        u: "subAdd_loop 65536 n ?v = Inr u" "rs_is u b' len'" "b' + of_nat len' = n"
        by blast
      let ?u = "upd_slot (sw_RxNext u) (\<lambda>n. n\<lparr>sn_status := Received\<rparr>) u"
      from NextMove_total[OF rs_is_status[OF u(2)]] obtain x b2 len2 where
        x: "MPD_SubWinRxNextMove ?u = Inr x" "rs_is x b2 len2" "sn_status (sw_Win x (slot (b2 + of_nat len2))) = UnReceived"
        by blast
      from x(3) have "sn_status (sw_Win x (slot (b2 + of_nat len2))) \<noteq> Received" by simp
      from BeginMove_rs_ok[OF x(2) this] show ?thesis
        unfolding add using left True right_iff[OF less_trans[OF d(4)] left] u(1) x(1) by simp
    qed
  qed
qed

text \<open>
  C5: the window invariant is kept by every insertion, whatever the number of the packet, and the
  insertion always ends (with its loops of up to 65536 and 1024 steps); afterwards the first
  number of the window is one that has not been received.
\<close>

theorem SubWinAddNode_invariant:
  assumes "rs_ok w"
  shows "\<exists>w'. MPD_SubWinAddNode n w = Inr w' \<and> rs_ok w' \<and> sn_status (sw_Win w' (sw_RxBegin w')) \<noteq> Received"
  using assms by (rule SubAddNode_total)

text \<open>The first number from \<open>b\<close> on that is not in a set.\<close>

definition first_missing :: "U16 \<Rightarrow> U16 set \<Rightarrow> U16 \<Rightarrow> bool" where
  "first_missing b A b' \<longleftrightarrow> b' \<notin> A \<and> (\<forall>s. DISTANCESN b s < DISTANCESN b b' \<longrightarrow> s \<in> A)"

lemma first_missing_offsets:
  assumes "j < 65536" and "\<forall>i<j. b + of_nat i \<in> A" and "b + of_nat j \<notin> A"
  shows "first_missing b A (b + of_nat j)"
  using assms by (auto simp: first_missing_def DISTANCESN_add DISTANCESN_less_iff)

text \<open>The move of the start, in terms of the recorded set.\<close>

lemma BeginMove_recv:
  assumes w: "rs_is w b len" and nr: "sn_status (sw_Win w (slot (b + of_nat len))) \<noteq> Received"
  shows "\<exists>w'. MPD_SubWinRxBeginMove False w = Inr w' \<and> rs_ok w' \<and> first_missing b (rs_recv w) (rs_begin w') \<and>
     rs_recv w' = {s \<in> rs_recv w. DISTANCESN b (rs_begin w') \<le> DISTANCESN b s}"
proof -
  obtain j where j: "j \<le> len" "MPD_SubWinRxBeginMove False w = Inr (w\<lparr>sw_RxBegin := slot (b + of_nat j)\<rparr>)"
     "\<forall>i<j. sn_status (sw_Win w (slot (b + of_nat i))) = Received"
     "j = len \<or> sn_status (sw_Win w (slot (b + of_nat j))) \<noteq> Received"
    using BeginMove_ok[OF w] by blast
  let ?w = "w\<lparr>sw_RxBegin := slot (b + of_nat j)\<rparr>"
  note len = rs_isD(4)[OF w]
  note w' = rs_is_drop[OF w j(1)]
  have ok: "rs_ok ?w" using rs_okI[OF w'] nr rs_isD(6)[OF w] by simp
  have b': "rs_begin ?w = b + of_nat j" by (rule rs_isD(1)[OF w'])
  have inw: "b + of_nat k \<in> rs_recv w \<longleftrightarrow> k < len \<and> sn_status (sw_Win w (slot (b + of_nat k))) = Received"
    if "k \<le> len" for k
    using rs_recv_offset[OF w, of k] that len by simp
  have "first_missing b (rs_recv w) (b + of_nat j)"
    using j len inw by (intro first_missing_offsets) auto
  moreover have "s \<in> rs_recv ?w \<longleftrightarrow> s \<in> rs_recv w \<and> j \<le> DISTANCESN b s" for s
    using DISTANCESN_shift[OF j(1), of b s] len by (auto simp: rs_recv_alt[OF w'] rs_recv_alt[OF w])
  then have "rs_recv ?w = {s \<in> rs_recv w. j \<le> DISTANCESN b s}" by blast
  moreover have "DISTANCESN b (b + of_nat j) = j" using j(1) len by (simp add: DISTANCESN_add)
  ultimately show ?thesis using j(2) ok b' by (intro exI[of _ ?w]) simp
qed

text \<open>
  While the packet lies within 1022 numbers of the first missing one, the window records exactly
  the received numbers: its first number, the cumulative acknowledgement, is the first one from the
  old start that neither the window nor the packet covers, and what remains recorded is the rest.
\<close>

theorem SubWinAddNode_cumulative:
  assumes "rs_ok w" and "b = rs_begin (sub_start n w)" and "DISTANCESN b n \<le> 1022"
  shows "\<exists>w'. MPD_SubWinAddNode n w = Inr w' \<and> rs_ok w' \<and> first_missing b (insert n (rs_recv w)) (rs_begin w') \<and>
     rs_recv w' = {s \<in> insert n (rs_recv w). DISTANCESN b (rs_begin w') \<le> DISTANCESN b s}"
proof -
  let ?v = "sub_start n w" and ?d = "DISTANCESN b n"
  obtain b1 len where v: "rs_is ?v b1 len" and nr: "sn_status (sw_Win ?v (slot (b1 + of_nat len))) \<noteq> Received"
    and rv: "rs_recv ?v = rs_recv w"
    using sub_start_ok[OF assms(1)] by metis
  then have "b1 = b" using rs_isD(1)[OF v] assms(2) by simp
  note v = v[unfolded this] and nr = nr[unfolded this]
  note d = rs_isD[OF v]
  have bn: "sn_SSN (sw_Win ?v (sw_RxBegin ?v)) = b" "sn_SSN (sw_Win ?v (sw_RxNext ?v)) = b + of_nat len"
    using d(1,2) by (simp_all add: rs_begin_def rs_next_def)
  note add = MPD_SubWinAddNode_def[of n w, unfolded Let_def bn]
  have left: "\<not> DISTANCESN n b < ?d" using assms(3) left_iff[of n b] by simp
  have n: "n = b + of_nat ?d" by (simp add: of_nat_DISTANCESN)
  have inj: "slot (b + of_nat k) = slot n \<longleftrightarrow> k = ?d" if "k < RxSubWinMaxSize" for k
    using slot_add_inj[of k ?d b] assms(3) that n by simp
  show ?thesis
  proof (cases "len \<le> ?d")
    case False
    let ?u = "upd_slot (slot n) (\<lambda>m. m\<lparr>sn_status := Received\<rparr>) ?v"
    have u: "rs_is ?u b len" by (rule rs_is_status[OF v])
    have "sn_status (sw_Win ?u (slot (b + of_nat len))) \<noteq> Received" using nr inj[of len] False d(4) by simp
    moreover have "rs_recv ?u = insert n (rs_recv w)"
      unfolding rv[symmetric] rs_recv_alt[OF u] rs_recv_alt[OF v]
      using False d(4) slot_inj[of b _ n] by auto
    ultimately show ?thesis
      using BeginMove_recv[OF u] unfolding add using left False right_iff[OF less_trans[OF d(4)] left] by (simp add: slot_def)
  next
    case True
    have "len + (?d - len) < RxSubWinMaxSize" "?d - len \<le> 65536" using True assms(3) by simp_all
    from subAdd_room[OF v nr _ this] True n obtain x where x: "subAdd_loop 65536 n ?v = Inr x" "rs_is x b ?d"
      "\<forall>i<len. sn_status (sw_Win x (slot (b + of_nat i))) = sn_status (sw_Win ?v (slot (b + of_nat i)))"
      "\<forall>i. len \<le> i \<and> i \<le> ?d \<longrightarrow> sn_status (sw_Win x (slot (b + of_nat i))) \<noteq> Received"
      by auto
    let ?u = "upd_slot (sw_RxNext x) (\<lambda>n. n\<lparr>sn_status := Received\<rparr>) x"
    have nx: "sw_RxNext x = slot n" using rs_isD(6)[OF x(2)] n by simp
    have "Suc ?d < RxSubWinMaxSize" using assms(3) by simp
    from NextMove_room[OF rs_is_status[OF x(2)] this, of "sw_RxNext x" Received] obtain y where
      y: "MPD_SubWinRxNextMove ?u = Inr y" "rs_is y b (Suc ?d)"
        "sn_status (sw_Win y (slot (b + of_nat (Suc ?d)))) = UnReceived"
        "\<forall>i\<le>?d. sn_status (sw_Win y (slot (b + of_nat i))) = sn_status (sw_Win ?u (slot (b + of_nat i)))"
      by blast
    have st: "sn_status (sw_Win y (slot (b + of_nat i))) = Received \<longleftrightarrow>
        i = ?d \<or> i < len \<and> sn_status (sw_Win ?v (slot (b + of_nat i))) = Received" if "i < Suc ?d" for i
      using y(4)[rule_format, of i] x(3)[rule_format, of i] x(4)[rule_format, of i] that inj[of i] assms(3)
      by (cases "i < len") (auto simp: nx)
    have "s \<in> rs_recv y \<longleftrightarrow> s \<in> insert n (rs_recv w)" for s
    proof -
      have "s \<in> rs_recv y \<longleftrightarrow> (\<exists>i<Suc ?d. s = b + of_nat i \<and>
          (i = ?d \<or> i < len \<and> sn_status (sw_Win ?v (slot (b + of_nat i))) = Received))"
        unfolding rs_recv_iff[OF y(2)] using st by blast
      also have "\<dots> \<longleftrightarrow> s \<in> insert n (rs_recv w)"
        unfolding rv[symmetric] insert_iff rs_recv_iff[OF v] using n True by (metis less_Suc_eq less_le_trans)
      finally show ?thesis .
    qed
    then have "rs_recv y = insert n (rs_recv w)" by blast
    moreover have "sn_status (sw_Win y (slot (b + of_nat (Suc ?d)))) \<noteq> Received" using y(3) by simp
    ultimately show ?thesis
      using BeginMove_recv[OF y(2)] unfolding add using left True right_iff[OF less_trans[OF d(4)] left] x(1) y(1) by simp
  qed
qed

theorem SubWinAddNode_invariant_witness:
  "\<exists>w'. MPD_SubWinAddNode 3 subwin_zero = Inr w' \<and> rs_ok w'"
  using SubWinAddNode_invariant[OF rs_ok_zero, of 3] by blast

theorem SubWinAddNode_cumulative_witness:
  "\<exists>w'. MPD_SubWinAddNode 3 subwin_zero = Inr w' \<and> first_missing 3 {3} (rs_begin w')"
proof -
  have "3 = rs_begin (sub_start 3 subwin_zero)"
    by (simp add: sub_start_def rs_begin_def subwin_zero_def Let_def)
  moreover have "DISTANCESN 3 3 \<le> 1022" by simp
  moreover have "rs_recv subwin_zero = {}" by (simp add: rs_recv_def subwin_zero_def rs_begin_def rs_next_def)
  ultimately show ?thesis using SubWinAddNode_cumulative[OF rs_ok_zero, of 3 3] by auto
qed

end
