(* ===== verification/MPD_RxData.thy ===== *)
theory MPD_RxData
  imports MPD_RxSub
begin

text \<open>
  The data window (\<^verbatim>\<open>mpd_rx.c\<close>): a ring of 4096 slots that puts the packets of all subflows back
  into the order of their data sequence numbers, reassembles two-part packets and hands them to
  the transport. Loop bounds are as in \<open>MPD_RxSub\<close>.
\<close>

section \<open>Buffers of a slot\<close>

definition DataWinPlus :: "nat \<Rightarrow> nat" where
  "DataWinPlus n = (n + 1) mod RxDataWinMaxSize"

abbreviation DataWinWaitTimeOut :: U32 where "DataWinWaitTimeOut \<equiv> 30"
abbreviation MaxFragNum :: nat where "MaxFragNum \<equiv> 2"

definition MPD_RxWinInit :: "mpd_st \<Rightarrow> mpd_st" where
  "MPD_RxWinInit s = s\<lparr>RxSubWin := (\<lambda>_. subwin_zero), RxDataWin := datawin_zero\<rparr>"

text \<open>The slot itself is left as it is; only the buffers are released.\<close>

definition MPD_DataWinFreeMsgPtr :: "nat \<Rightarrow> mpd_st \<Rightarrow> mpd_st res" where
  "MPD_DataWinFreeMsgPtr index s =
     (let n = dw_Win (RxDataWin s) index
      in if dw_status n = UnReceived then Inr s
         else if fragment n = NoFrag then MPD_MsgMemfree (msgPtr n 0) s
         else forR (\<lambda>i s. if bit (fragment n) i then MPD_MsgMemfree (msgPtr n i) s else Inr s)
                [0..<MaxFragNum] s)"

section \<open>Delivery\<close>

text \<open>
  The number after the packet is what the subflow of the packet has delivered; a packet whose
  subflow is gone carries the stream number \<^verbatim>\<open>NUM_SUBFLOW\<close>.
\<close>

definition note_delivered :: "stRxDataWinNode \<Rightarrow> mpd_st \<Rightarrow> mpd_st" where
  "note_delivered n s =
     (if MPD_SCHD_getFlowValid s (stream n) \<noteq> 0
      then upd_sub (stream n) (\<lambda>w. w\<lparr>dataWinSSN := SsnPlus (dw_SSN n)\<rparr>) s else s)"

text \<open>\<^verbatim>\<open>len\<close> is a \<^verbatim>\<open>U16\<close>; the lengths are converted to \<^verbatim>\<open>int\<close> and \<^verbatim>\<open>size_t\<close> as C does.\<close>

definition frag_total :: "stRxDataWinNode \<Rightarrow> U16" where
  "frag_total n = (let off = ucast (mpdHeadLen n) :: U16
                   in off + (msgLen n 0 - off) + (msgLen n 1 - off))"

text \<open>\<^verbatim>\<open>memcpy\<close> of a length that came out negative is out of bounds of any buffer.\<close>

definition copy_part :: "addr \<Rightarrow> nat \<Rightarrow> addr \<Rightarrow> nat \<Rightarrow> int \<Rightarrow> mpd_st \<Rightarrow> mpd_st res" where
  "copy_part dst doff src soff len s =
     (if len < 0 then Inl OutOfBounds
      else bindR (mem_read s src soff (nat len)) (\<lambda>bs. mem_write dst doff bs s))"

definition DataWin_reassemble :: "rat_env \<Rightarrow> stRxDataWinNode \<Rightarrow> mpd_st \<Rightarrow> mpd_st res" where
  "DataWin_reassemble env n s =
     (let off = unat (mpdHeadLen n);
          len0 = int (unat (msgLen n 0)) - int off;
          mid = off + unat (word_of_int len0 :: U16);
          total = unat (frag_total n)
      in case MPD_MsgMemCreat env total s of (msg, s) \<Rightarrow>
           if msg = 0 then Inr s
           else bindR (copy_part msg 0 (msgPtr n 0) 0 (int off) s)
             (\<lambda>s. bindR (copy_part msg off (msgPtr n 0) off len0 s)
             (\<lambda>s. bindR (copy_part msg mid (msgPtr n 1) off (int (unat (msgLen n 1)) - int off) s)
             (\<lambda>s. MPD_PostPreMPDataToTransport msg total off s))))"

definition DataWin_deliver :: "rat_env \<Rightarrow> nat \<Rightarrow> mpd_st \<Rightarrow> mpd_st res" where
  "DataWin_deliver env index s =
     (let n = dw_Win (RxDataWin s) index
      in if dw_status n = ReceiveComplete
         then (if fragment n = NoFrag
               then bindR (if ack_flag n \<noteq> Sended
                           then MPD_PostPreMPDataToTransport (msgPtr n 0) (unat (msgLen n 0)) (unat (mpdHeadLen n)) s
                           else Inr s)
                      (\<lambda>s. Inr (note_delivered n s))
               else if fragment n = AllFrag
               then bindR (DataWin_reassemble env n s) (\<lambda>s. MPD_DataWinFreeMsgPtr index (note_delivered n s))
               else Inr s)
         else MPD_DataWinFreeMsgPtr index s)"

fun dataBegin_loop :: "nat \<Rightarrow> rat_env \<Rightarrow> mpd_st \<Rightarrow> mpd_st res" where
  "dataBegin_loop fuel env s =
     (let w = RxDataWin s; n = dw_Win w (dw_RxBegin w)
      in if dw_status n = ReceiveComplete \<or> timeOut n
         then (if fuel = 0 then Inl OutOfFuel
               else bindR (DataWin_deliver env (dw_RxBegin w) s) (\<lambda>s.
                      dataBegin_loop (fuel - 1) env
                        (upd_dw (\<lambda>w. w\<lparr>dw_RxBegin := DataWinPlus (dw_RxBegin w)\<rparr>) s)))
         else Inr s)"

declare dataBegin_loop.simps [simp del]

text \<open>
  The subflow windows then follow what has been delivered (\<^verbatim>\<open>RETRANS_OPTIMIZE\<close>).
\<close>

fun subCatchUp_loop :: "nat \<Rightarrow> stRxSubWin \<Rightarrow> stRxSubWin res" where
  "subCatchUp_loop fuel w =
     (let beginSsn = sn_SSN (sw_Win w (sw_RxBegin w))
      in if beginSsn \<noteq> dataWinSSN w \<and> DISTANCESN beginSsn (dataWinSSN w) < RCV_SN_RANGE
         then (if fuel = 0 then Inl OutOfFuel
               else subCatchUp_loop (fuel - 1) (w\<lparr>sw_RxBegin := SubWinPlus (sw_RxBegin w)\<rparr>))
         else Inr w)"

declare subCatchUp_loop.simps [simp del]

definition sub_catch_up :: "stRxSubWin \<Rightarrow> stRxSubWin res" where
  "sub_catch_up w =
     (let b = sn_SSN (sw_Win w (sw_RxBegin w))
      in if DISTANCESN b (dataWinSSN w) > DISTANCESN b (sn_SSN (sw_Win w (sw_RxNext w))) then Inr w
         else bindR (subCatchUp_loop RxSubWinMaxSize w) (MPD_SubWinRxBeginMove False))"

definition DataWin_syncSubWin :: "mpd_st \<Rightarrow> mpd_st res" where
  "DataWin_syncSubWin s =
     forR (\<lambda>i s. if MPD_SCHD_getFlowValid s i = 0 then Inr s else on_sub i sub_catch_up s) [0..<NUM_SUBFLOW] s"

definition DataWin_force :: "mpd_st \<Rightarrow> mpd_st res" where
  "DataWin_force s =
     (let i = dw_RxBegin (RxDataWin s);
          inc = upd_dw (\<lambda>w. w\<lparr>dw_RxBegin := DataWinPlus (dw_RxBegin w)\<rparr>)
      in case dw_status (dw_Win (RxDataWin s) i) of
           UnReceived \<Rightarrow> Inr (inc s)
         | Received \<Rightarrow> bindR (MPD_DataWinFreeMsgPtr i s) (\<lambda>s. Inr (inc s))
         | ReceiveComplete \<Rightarrow> Inr s)"

definition MPD_DataWinRxBeginMove :: "rat_env \<Rightarrow> bool \<Rightarrow> mpd_st \<Rightarrow> mpd_st res" where
  "MPD_DataWinRxBeginMove env forceMove s =
     bindR (if forceMove then DataWin_force s else Inr s) (\<lambda>s.
     bindR (dataBegin_loop RxDataWinMaxSize env s) DataWin_syncSubWin)"

definition MPD_DataWinRxNextMove :: "rat_env \<Rightarrow> mpd_st \<Rightarrow> mpd_st res" where
  "MPD_DataWinRxNextMove env s =
     (let dsn = dw_DSN (dw_Win (RxDataWin s) (dw_RxNext (RxDataWin s)));
          s = upd_dw (\<lambda>w. w\<lparr>dw_RxNext := DataWinPlus (dw_RxNext w)\<rparr>) s
      in bindR (if dw_RxNext (RxDataWin s) = dw_RxBegin (RxDataWin s)
                then MPD_DataWinRxBeginMove env True s else Inr s)
           (\<lambda>s. Inr (upd_dw (\<lambda>w. upd_dwn (dw_RxNext w) (\<lambda>_. dwn_zero\<lparr>dw_DSN := dsn + 1\<rparr>) w) s)))"

section \<open>Insertion\<close>

text \<open>
  \<^verbatim>\<open>1<<(node->fragment-1)\<close> marks the part; a fragment field of 3 marks a third part, and its
  pointer and length are written past the arrays of two.
\<close>

definition MPD_DataWinPutInNode :: "nat \<Rightarrow> stMPDNodeInfo \<Rightarrow> mpd_st \<Rightarrow> mpd_st res" where
  "MPD_DataWinPutInNode index node s =
     (let n = (dw_Win (RxDataWin s) index)\<lparr>ack_flag := UnChecked, dw_status := Received\<rparr>
      in if ni_fragment node = NoFrag
         then Inr (upd_dw (\<lambda>w. (upd_dwn index (\<lambda>_. n\<lparr>fragment := NoFrag, dw_status := ReceiveComplete,
                  dw_DSN := ni_DSN node, mpdHeadLen := ni_mpdHeadLen node, stream := ni_stream node,
                  dw_SSN := ni_SSN node, msgPtr := (msgPtr n)(0 := ni_msgPtr node),
                  msgLen := (msgLen n)(0 := ni_msgLen node)\<rparr>) w)\<lparr>NewData := True\<rparr>) s)
         else if ni_fragment node = AllFrag then Inl OutOfBounds
         else
           let part = unat (ni_fragment node) - 1;
               n = n\<lparr>fragment := fragment n OR push_bit part 1\<rparr>;
               n = (if fragment n = AllFrag then n\<lparr>dw_status := ReceiveComplete\<rparr>
                    else n\<lparr>Time := g_time s + DataWinWaitTimeOut\<rparr>)
           in Inr (upd_dw (upd_dwn index (\<lambda>_. n\<lparr>dw_DSN := ni_DSN node, mpdHeadLen := ni_mpdHeadLen node,
                  stream := ni_stream node, dw_SSN := ni_SSN node,
                  msgPtr := (msgPtr n)(part := ni_msgPtr node),
                  msgLen := (msgLen n)(part := ni_msgLen node)\<rparr>)) s))"

text \<open>The first packet after a reset puts the window at its number.\<close>

definition data_start :: "U16 \<Rightarrow> stRxDataWin \<Rightarrow> stRxDataWin" where
  "data_start dsn w =
     (if dw_RxBegin w = 0 \<and> dw_RxNext w = 0 \<and> dw_DSN (dw_Win w 0) = 0
      then let i = unat dsn mod RxDataWinMaxSize
           in upd_dwn i (\<lambda>n. n\<lparr>dw_DSN := dsn, ack_flag := UnChecked\<rparr>) (w\<lparr>dw_RxBegin := i, dw_RxNext := i\<rparr>)
      else w)"

fun dataAdd_loop :: "nat \<Rightarrow> rat_env \<Rightarrow> U16 \<Rightarrow> mpd_st \<Rightarrow> mpd_st res" where
  "dataAdd_loop fuel env dsn s =
     (let i = dw_RxNext (RxDataWin s)
      in if dsn = dw_DSN (dw_Win (RxDataWin s) i) then Inr s
         else if fuel = 0 then Inl OutOfFuel
         else bindR (MPD_DataWinRxNextMove env
                       (upd_dw (upd_dwn i (\<lambda>n. n\<lparr>Time := g_time s + DataWinWaitTimeOut\<rparr>)) s))
                (dataAdd_loop (fuel - 1) env dsn))"

declare dataAdd_loop.simps [simp del]

text \<open>The three places a packet can lie: before the window, after it, inside it.\<close>

definition DataWin_before :: "U16 \<Rightarrow> stMPDNodeInfo \<Rightarrow> mpd_st \<Rightarrow> (U32 \<times> mpd_st) res" where
  "DataWin_before beginDSN node s =
     (if DISTANCESN (ni_DSN node) beginDSN \<le> 1000
      then bindR (MPD_PostPreMPDataToTransport (ni_msgPtr node) (unat (ni_msgLen node)) (unat (ni_mpdHeadLen node)) s)
             (\<lambda>s. Inr (1, upd_sub (ni_stream node) (\<lambda>w. w\<lparr>dataWinSSN := SsnPlus (ni_SSN node)\<rparr>) s))
      else bindR (MPD_MsgMemfree (ni_msgPtr node) (s\<lparr>rxDsnErr := rxDsnErr s + 1\<rparr>)) (\<lambda>s. Inr (0, s)))"

definition DataWin_after :: "rat_env \<Rightarrow> U16 \<Rightarrow> stMPDNodeInfo \<Rightarrow> mpd_st \<Rightarrow> (U32 \<times> mpd_st) res" where
  "DataWin_after env nextDSN node s =
     (if DISTANCESN nextDSN (ni_DSN node) > 1999
      then bindR (MPD_MsgMemfree (ni_msgPtr node) s) (\<lambda>s. Inr (0, s\<lparr>rxDsnErr := rxDsnErr s + 1\<rparr>))
      else bindR (dataAdd_loop 65536 env (ni_DSN node) s) (\<lambda>s.
           bindR (MPD_DataWinPutInNode (dw_RxNext (RxDataWin s)) node s) (\<lambda>s.
           bindR (MPD_DataWinRxNextMove env s) (\<lambda>s. Inr (1, s\<lparr>rxDsnErr := 0\<rparr>)))))"

definition is_duplicate :: "stMPDNodeInfo \<Rightarrow> stRxDataWinNode \<Rightarrow> bool" where
  "is_duplicate node n \<longleftrightarrow>
     (dw_status n = Received \<and> ni_fragment node AND fragment n \<noteq> 0) \<or> dw_status n = ReceiveComplete"

definition DataWin_inside :: "stMPDNodeInfo \<Rightarrow> mpd_st \<Rightarrow> (U32 \<times> mpd_st) res" where
  "DataWin_inside node s =
     (let index = unat (ni_DSN node) mod RxDataWinMaxSize
      in if is_duplicate node (dw_Win (RxDataWin s) index)
         then bindR (MPD_MsgMemfree (ni_msgPtr node) s) (\<lambda>s. Inr (0, s\<lparr>rxDsnErr := 0\<rparr>))
         else bindR (MPD_DataWinPutInNode index node s) (\<lambda>s. Inr (1, s\<lparr>rxDsnErr := 0\<rparr>)))"

definition MPD_DataWinAddNode :: "rat_env \<Rightarrow> stMPDNodeInfo \<Rightarrow> mpd_st \<Rightarrow> (U32 \<times> mpd_st) res" where
  "MPD_DataWinAddNode env node s =
     (let s = upd_dw (data_start (ni_DSN node)) s;
          w = RxDataWin s;
          nodeDSN = ni_DSN node;
          beginDSN = dw_DSN (dw_Win w (dw_RxBegin w));
          nextDSN = dw_DSN (dw_Win w (dw_RxNext w))
      in bindR
          (if DISTANCESN nodeDSN beginDSN < DISTANCESN beginDSN nodeDSN then DataWin_before beginDSN node s
           else if DISTANCESN nodeDSN nextDSN \<ge> DISTANCESN nextDSN nodeDSN then DataWin_after env nextDSN node s
           else DataWin_inside node s)
          (\<lambda>(ret, s).
             if rxDsnErr s > 100
             then bindR (MPD_OnNotifyException 0 (-4) s) (\<lambda>s. Inr (ret, s\<lparr>rxDsnErr := 0\<rparr>))
             else Inr (ret, s)))"

section \<open>Periodic work on the data window\<close>

text \<open>(slots left, slot, slots that timed out, state).\<close>

fun timeOut_loop :: "nat \<Rightarrow> nat \<Rightarrow> nat \<Rightarrow> mpd_st \<Rightarrow> nat \<times> mpd_st" where
  "timeOut_loop 0 i toCnt s = (toCnt, s)"
| "timeOut_loop (Suc k) i toCnt s =
     (let n = dw_Win (RxDataWin s) i
      in if dw_status n \<noteq> ReceiveComplete
         then (if g_time s \<ge> Time n
               then timeOut_loop k (DataWinPlus i) (toCnt + 1) (upd_dw (upd_dwn i (\<lambda>n. n\<lparr>timeOut := True\<rparr>)) s)
               else (toCnt, s))
         else timeOut_loop k (DataWinPlus i) toCnt s)"

definition MPD_DataWinTimeOutCheck :: "rat_env \<Rightarrow> mpd_st \<Rightarrow> mpd_st res" where
  "MPD_DataWinTimeOutCheck env s =
     (let w = RxDataWin s;
          nodeCnt = (dw_RxNext w + RxDataWinMaxSize - dw_RxBegin w) mod RxDataWinMaxSize
      in case timeOut_loop nodeCnt (dw_RxBegin w) 0 s of (toCnt, s) \<Rightarrow>
           if toCnt > 0 then MPD_DataWinRxBeginMove env False s else Inr s)"

fun clearDataWin_loop :: "nat \<Rightarrow> rat_env \<Rightarrow> mpd_st \<Rightarrow> mpd_st res" where
  "clearDataWin_loop fuel env s =
     (if dw_RxBegin (RxDataWin s) = dw_RxNext (RxDataWin s) then Inr s
      else if fuel = 0 then Inl OutOfFuel
      else bindR (MPD_DataWinRxBeginMove env True s) (clearDataWin_loop (fuel - 1) env))"

declare clearDataWin_loop.simps [simp del]

definition MPD_ClearDataWin :: "rat_env \<Rightarrow> mpd_st \<Rightarrow> mpd_st res" where
  "MPD_ClearDataWin env s =
     bindR (clearDataWin_loop RxDataWinMaxSize env s) (\<lambda>s. Inr (upd_dw (\<lambda>_. datawin_zero) s))"

text \<open>The packets of a subflow that is shut down are handed to the stream number of no subflow.\<close>

fun changeFlowId_loop :: "nat \<Rightarrow> nat \<Rightarrow> nat \<Rightarrow> stRxDataWin \<Rightarrow> stRxDataWin res" where
  "changeFlowId_loop fuel flowId i w =
     (if i = dw_RxNext w then Inr w
      else if fuel = 0 then Inl OutOfFuel
      else changeFlowId_loop (fuel - 1) flowId (DataWinPlus i)
             (if dw_status (dw_Win w i) \<noteq> UnReceived \<and> stream (dw_Win w i) = flowId
              then upd_dwn i (\<lambda>n. n\<lparr>stream := NUM_SUBFLOW\<rparr>) w else w))"

declare changeFlowId_loop.simps [simp del]

definition MPD_ChangeDataWinFlowId :: "nat \<Rightarrow> mpd_st \<Rightarrow> mpd_st res" where
  "MPD_ChangeDataWinFlowId flowId s =
     bindR (changeFlowId_loop RxDataWinMaxSize flowId (dw_RxBegin (RxDataWin s)) (RxDataWin s))
       (\<lambda>w. Inr (upd_dw (\<lambda>_. w) s))"

text \<open>
  A pure TCP acknowledgement overtakes the packets before it. The IP header is read from the first
  buffer of the slot, whatever its fragmentation: protocol, header length, total length, and the
  length of the TCP header.
\<close>

definition is_pure_ack :: "stRxDataWinNode \<Rightarrow> mpd_st \<Rightarrow> bool res" where
  "is_pure_ack n s =
     (let off = unat (mpdHeadLen n)
      in bindR (mem_read s (msgPtr n 0) (off + 9) 1) (\<lambda>proto.
         if proto ! 0 \<noteq> 6 then Inr False
         else bindR (mem_read s (msgPtr n 0) off 4) (\<lambda>ip.
           let ihl = unat (ip ! 0 AND 15) * 4
           in bindR (mem_read s (msgPtr n 0) (off + ihl + 12) 1) (\<lambda>tcp.
                Inr (int (unat (be16 (ip ! 2) (ip ! 3))) - int ihl - int (unat (drop_bit 4 (tcp ! 0)) * 4) = 0)))))"

definition CheckAck_slot :: "nat \<Rightarrow> mpd_st \<Rightarrow> mpd_st res" where
  "CheckAck_slot i s =
     (let n = dw_Win (RxDataWin s) i
      in if dw_status n \<noteq> ReceiveComplete then Inr s
         else if ack_flag n \<noteq> UnChecked then Inr s
         else
           let s = upd_dw (upd_dwn i (\<lambda>n. n\<lparr>ack_flag := Checked\<rparr>)) s
           in bindR (is_pure_ack n s) (\<lambda>pure_ack.
                if pure_ack
                then MPD_PostPreMPDataToTransport (msgPtr n 0) (unat (msgLen n 0)) (unat (mpdHeadLen n))
                       (upd_dw (upd_dwn i (\<lambda>n. n\<lparr>ack_flag := Sended\<rparr>)) s)
                else Inr s))"

fun checkAck_loop :: "nat \<Rightarrow> nat \<Rightarrow> mpd_st \<Rightarrow> mpd_st res" where
  "checkAck_loop fuel i s =
     (if i = dw_RxNext (RxDataWin s) then Inr s
      else if fuel = 0 then Inl OutOfFuel
      else bindR (CheckAck_slot i s) (checkAck_loop (fuel - 1) (DataWinPlus i)))"

declare checkAck_loop.simps [simp del]

definition MPD_CheckAck :: "mpd_st \<Rightarrow> mpd_st res" where
  "MPD_CheckAck s =
     (if \<not> NewData (RxDataWin s) then Inr s
      else bindR (checkAck_loop RxDataWinMaxSize (dw_RxBegin (RxDataWin s)) s)
             (\<lambda>s. Inr (upd_dw (\<lambda>w. w\<lparr>NewData := False\<rparr>) s)))"

section \<open>Delivery in order\<close>

lemma upd_dw_simps [simp]:
  "RxDataWin (upd_dw f s) = f (RxDataWin s)" "RxSubWin (upd_dw f s) = RxSubWin s" "mem (upd_dw f s) = mem s"
  "trace (upd_dw f s) = trace s" "brk (upd_dw f s) = brk s" "g_time (upd_dw f s) = g_time s"
  "schdPara (upd_dw f s) = schdPara s" "txWindow (upd_dw f s) = txWindow s" "rxDsnErr (upd_dw f s) = rxDsnErr s"
  "RTTFlowMax (upd_dw f s) = RTTFlowMax s"
  by (simp_all add: upd_dw_def)

lemma upd_sub_simps [simp]:
  "RxSubWin (upd_sub i f s) = (RxSubWin s)(i := f (RxSubWin s i))" "RxDataWin (upd_sub i f s) = RxDataWin s"
  "mem (upd_sub i f s) = mem s" "trace (upd_sub i f s) = trace s" "schdPara (upd_sub i f s) = schdPara s"
  "txWindow (upd_sub i f s) = txWindow s" "RTTFlowMax (upd_sub i f s) = RTTFlowMax s" "brk (upd_sub i f s) = brk s"
  "g_time (upd_sub i f s) = g_time s"
  by (simp_all add: upd_sub_def)

lemma upd_dwn_simps [simp]:
  "dw_Win (upd_dwn i f w) = (dw_Win w)(i := f (dw_Win w i))" "dw_RxBegin (upd_dwn i f w) = dw_RxBegin w"
  "dw_RxNext (upd_dwn i f w) = dw_RxNext w" "NewData (upd_dwn i f w) = NewData w"
  by (simp_all add: upd_dwn_def)

text \<open>
  A slot that can be delivered as it is: a whole packet that was received unfragmented, with a live
  buffer unless an acknowledgement check has already delivered it.
\<close>

definition deliverable :: "mpd_st \<Rightarrow> stRxDataWinNode \<Rightarrow> bool" where
  "deliverable s n \<longleftrightarrow> dw_status n = ReceiveComplete \<and> fragment n = NoFrag \<and>
     (ack_flag n \<noteq> Sended \<longrightarrow> msgPtr n 0 \<in> dom (mem s) \<and> msgPtr n 0 \<noteq> 0)"

definition undelivered :: "stRxDataWinNode list \<Rightarrow> stRxDataWinNode list" where
  "undelivered ns = filter (\<lambda>n. ack_flag n \<noteq> Sended) ns"

definition post_event :: "mpd_st \<Rightarrow> stRxDataWinNode \<Rightarrow> mpd_event" where
  "post_event s n = EvPost (msgPtr n 0) (the (mem s (msgPtr n 0))) (unat (msgLen n 0)) (unat (mpdHeadLen n))"

definition ptrs :: "stRxDataWinNode list \<Rightarrow> addr list" where
  "ptrs ns = map (\<lambda>n. msgPtr n 0) (undelivered ns)"

text \<open>The slots from the start of the window on.\<close>

definition dw_slots :: "stRxDataWin \<Rightarrow> nat \<Rightarrow> stRxDataWinNode list" where
  "dw_slots w m = map (\<lambda>k. dw_Win w ((dw_RxBegin w + k) mod RxDataWinMaxSize)) [0..<m]"

text \<open>What the delivery of slots leaves alone.\<close>

definition dw_frame :: "mpd_st \<Rightarrow> mpd_st \<Rightarrow> bool" where
  "dw_frame s s' \<longleftrightarrow> schdPara s' = schdPara s \<and> txWindow s' = txWindow s \<and> RTTFlowMax s' = RTTFlowMax s \<and>
     dw_Win (RxDataWin s') = dw_Win (RxDataWin s) \<and> dw_RxNext (RxDataWin s') = dw_RxNext (RxDataWin s) \<and>
     (\<forall>i. \<exists>d. RxSubWin s' i = (RxSubWin s i)\<lparr>dataWinSSN := d\<rparr>)"

lemma ex_dataWinSSN [simp]: "\<exists>d. w = w\<lparr>dataWinSSN := d\<rparr>"
  by (rule exI[of _ "dataWinSSN w"]) simp

lemma dw_frame_refl [simp]: "dw_frame s s"
  by (simp add: dw_frame_def)

lemma dataWinSSN_trans:
  "\<exists>d. v = w\<lparr>dataWinSSN := d\<rparr> \<Longrightarrow> \<exists>d. u = v\<lparr>dataWinSSN := d\<rparr> \<Longrightarrow> \<exists>d. u = w\<lparr>dataWinSSN := d\<rparr>"
  by auto

lemma dw_frame_trans:
  assumes "dw_frame s t" and "dw_frame t u"
  shows "dw_frame s u"
  using assms unfolding dw_frame_def by (intro conjI allI) (simp_all, blast intro: dataWinSSN_trans)

lemma deliver_whole:
  assumes "dw_Win (RxDataWin s) i = n" and "deliverable s n"
  shows "\<exists>s'. DataWin_deliver env i s = Inr s' \<and> dw_frame s s' \<and> dw_RxBegin (RxDataWin s') = dw_RxBegin (RxDataWin s) \<and>
     mem s' = mem s |` (- set (ptrs [n])) \<and> trace s' = rev (map (post_event s) (undelivered [n])) @ trace s"
proof -
  have note_ok: "dw_frame t (note_delivered n t)" "RxDataWin (note_delivered n t) = RxDataWin t"
    "mem (note_delivered n t) = mem t" "trace (note_delivered n t) = trace t" for t
    by (auto simp: note_delivered_def dw_frame_def)
  show ?thesis
  proof (cases "ack_flag n = Sended")
    case True
    then have "DataWin_deliver env i s = Inr (note_delivered n s)"
      using assms by (simp add: DataWin_deliver_def deliverable_def Let_def)
    then show ?thesis using note_ok True by (auto simp: ptrs_def undelivered_def)
  next
    case False
    then obtain bs where bs: "mem s (msgPtr n 0) = Some bs" "msgPtr n 0 \<noteq> 0"
      using assms(2) by (auto simp: deliverable_def)
    let ?t = "s\<lparr>mem := (mem s)(msgPtr n 0 := None), trace := EvPost (msgPtr n 0) bs (unat (msgLen n 0)) (unat (mpdHeadLen n)) # trace s\<rparr>"
    have "DataWin_deliver env i s = Inr (note_delivered n ?t)"
      using assms False bs by (simp add: DataWin_deliver_def deliverable_def Let_def
        MPD_PostPreMPDataToTransport_def mem_block_live)
    moreover have "dw_frame s ?t" using dw_frame_refl[of s] by (simp add: dw_frame_def)
    ultimately show ?thesis
      using note_ok[of ?t] dw_frame_trans False bs
      by (auto simp: ptrs_def undelivered_def post_event_def restrict_map_upd_None)
  qed
qed

text \<open>The loop delivers the run of whole packets at the start of the window and stops behind it.\<close>

lemma undelivered_Cons: "undelivered (n # ns) = undelivered [n] @ undelivered ns"
  by (simp add: undelivered_def)

lemma ptrs_Cons: "ptrs (n # ns) = ptrs [n] @ ptrs ns"
  by (simp add: ptrs_def undelivered_Cons[of n ns])

lemma dw_slots_Suc:
  assumes "dw_RxBegin w < RxDataWinMaxSize"
  shows "dw_slots w (Suc m) = dw_Win w (dw_RxBegin w) # dw_slots (w\<lparr>dw_RxBegin := DataWinPlus (dw_RxBegin w)\<rparr>) m"
proof -
  have "(DataWinPlus (dw_RxBegin w) + k) mod RxDataWinMaxSize = (dw_RxBegin w + Suc k) mod RxDataWinMaxSize" for k
    by (simp add: DataWinPlus_def mod_simps)
  then show ?thesis using assms
    by (simp add: dw_slots_def upt_conv_Cons map_Suc_upt[symmetric] comp_def del: upt_Suc)
qed

lemma post_event_mem:
  "set ns \<subseteq> {n. msgPtr n 0 \<notin> A} \<Longrightarrow> mem t = mem s |` (- A) \<Longrightarrow> map (post_event t) ns = map (post_event s) ns"
  by (auto simp: post_event_def)

lemma dataBegin_loop_ok:
  assumes "dw_RxBegin (RxDataWin s) < RxDataWinMaxSize" and "m \<le> fuel"
    and "\<forall>n\<in>set (dw_slots (RxDataWin s) m). deliverable s n" and "distinct (ptrs (dw_slots (RxDataWin s) m))"
    and "i = (dw_RxBegin (RxDataWin s) + m) mod RxDataWinMaxSize"
    and "dw_status (dw_Win (RxDataWin s) i) \<noteq> ReceiveComplete" and "\<not> timeOut (dw_Win (RxDataWin s) i)"
  shows "\<exists>s'. dataBegin_loop fuel env s = Inr s' \<and> dw_frame s s' \<and> dw_RxBegin (RxDataWin s') = i \<and>
     mem s' = mem s |` (- set (ptrs (dw_slots (RxDataWin s) m))) \<and>
     trace s' = rev (map (post_event s) (undelivered (dw_slots (RxDataWin s) m))) @ trace s"
  using assms
proof (induction m arbitrary: fuel s)
  case 0
  then have "dataBegin_loop fuel env s = Inr s" by (subst dataBegin_loop.simps) (simp add: Let_def)
  with "0" show ?case by (auto simp: dw_slots_def ptrs_def undelivered_def)
next
  case (Suc m)
  let ?w = "RxDataWin s"
  let ?n = "dw_Win ?w (dw_RxBegin ?w)"
  obtain f where f: "fuel = Suc f" using Suc.prems(2) by (cases fuel) auto
  define rest where "rest = dw_slots (?w\<lparr>dw_RxBegin := DataWinPlus (dw_RxBegin ?w)\<rparr>) m"
  have slots: "dw_slots ?w (Suc m) = ?n # rest" using dw_slots_Suc[OF Suc.prems(1)] by (simp add: rest_def)
  have n: "deliverable s ?n" using Suc.prems(3) slots by simp
  from deliver_whole[OF refl n] obtain t where t: "DataWin_deliver env (dw_RxBegin ?w) s = Inr t" "dw_frame s t"
    "dw_RxBegin (RxDataWin t) = dw_RxBegin ?w" "mem t = mem s |` (- set (ptrs [?n]))"
    "trace t = rev (map (post_event s) (undelivered [?n])) @ trace s"
    by blast
  let ?t = "upd_dw (\<lambda>w. w\<lparr>dw_RxBegin := DataWinPlus (dw_RxBegin w)\<rparr>) t"
  have step: "dataBegin_loop fuel env s = dataBegin_loop f env ?t"
    using n t(1) by (subst dataBegin_loop.simps) (simp add: Let_def f deliverable_def)
  have w: "dw_Win (RxDataWin t) = dw_Win ?w" using t(2) by (simp add: dw_frame_def)
  have rest_t: "dw_slots (RxDataWin ?t) m = rest" using t(3) w by (simp add: rest_def dw_slots_def)
  have dis: "set (ptrs [?n]) \<inter> set (ptrs rest) = {}" "distinct (ptrs rest)"
    using Suc.prems(4) unfolding slots ptrs_Cons[of ?n rest] by auto
  have frame_t: "dw_frame s ?t" using t(2) by (simp add: dw_frame_def)
  have "\<exists>s'. dataBegin_loop f env ?t = Inr s' \<and> dw_frame ?t s' \<and> dw_RxBegin (RxDataWin s') = i \<and>
     mem s' = mem ?t |` (- set (ptrs (dw_slots (RxDataWin ?t) m))) \<and>
     trace s' = rev (map (post_event ?t) (undelivered (dw_slots (RxDataWin ?t) m))) @ trace ?t"
  proof (rule Suc.IH)
    show "dw_RxBegin (RxDataWin ?t) < RxDataWinMaxSize" by (simp add: DataWinPlus_def)
    show "i = (dw_RxBegin (RxDataWin ?t) + m) mod RxDataWinMaxSize"
      using Suc.prems(5) t(3) by (simp add: DataWinPlus_def mod_simps)
    show "\<forall>n\<in>set (dw_slots (RxDataWin ?t) m). deliverable ?t n"
    proof
      fix x assume "x \<in> set (dw_slots (RxDataWin ?t) m)"
      then have x: "x \<in> set rest" unfolding rest_t .
      then have "deliverable s x" using Suc.prems(3) slots by simp
      moreover have "ack_flag x \<noteq> Sended \<Longrightarrow> msgPtr x 0 \<notin> set (ptrs [?n])"
      proof -
        assume "ack_flag x \<noteq> Sended"
        then have "msgPtr x 0 \<in> set (ptrs rest)" using x by (auto simp: ptrs_def undelivered_def)
        with dis(1) show ?thesis by blast
      qed
      ultimately show "deliverable ?t x" using t(4) by (auto simp: deliverable_def)
    qed
    show "distinct (ptrs (dw_slots (RxDataWin ?t) m))" unfolding rest_t by (rule dis(2))
  qed (use Suc.prems f w in simp_all)
  then obtain s' where s': "dataBegin_loop f env ?t = Inr s'" "dw_frame ?t s'" "dw_RxBegin (RxDataWin s') = i"
     "mem s' = mem t |` (- set (ptrs rest))" "trace s' = rev (map (post_event ?t) (undelivered rest)) @ trace t"
    unfolding rest_t by auto
  have "map (post_event ?t) (undelivered rest) = map (post_event s) (undelivered rest)"
    using dis(1) t(4) by (intro post_event_mem[where A = "set (ptrs [?n])"]) (auto simp: ptrs_def)
  with s' step t(4,5) dw_frame_trans[OF frame_t s'(2)] show ?case
    unfolding slots ptrs_Cons[of ?n rest] undelivered_Cons[of ?n rest]
    by (intro exI[of _ s']) (simp add: Int_commute)
qed

subsection \<open>The subflow windows follow\<close>

lemma rs_dataWinSSN [simp]:
  "rs_is (w\<lparr>dataWinSSN := d\<rparr>) b len = rs_is w b len" "rs_ok (w\<lparr>dataWinSSN := d\<rparr>) = rs_ok w"
  by (simp_all add: rs_is_def rs_ok_def rs_begin_def rs_next_def)

lemma subCatchUp_loop_ok:
  assumes "rs_is w b len" and "e \<le> len" and "e = DISTANCESN b (dataWinSSN w)" and "e \<le> fuel"
  shows "subCatchUp_loop fuel w = Inr (w\<lparr>sw_RxBegin := slot (b + of_nat e)\<rparr>)"
  using assms
proof (induction e arbitrary: fuel w b len)
  case 0
  then have "b = dataWinSSN w" by (metis DISTANCESN_0)
  then show ?case
    using rs_isD(1,5)[OF "0.prems"(1)] by (subst subCatchUp_loop.simps) (simp add: rs_begin_def)
next
  case (Suc e)
  obtain f where f: "fuel = Suc f" using Suc.prems(4) by (cases fuel) auto
  let ?w = "w\<lparr>sw_RxBegin := slot (b + of_nat 1)\<rparr>"
  have b: "sn_SSN (sw_Win w (slot b)) = b" "sw_RxBegin w = slot b"
    using rs_isD(1,5)[OF Suc.prems(1)] by (simp_all add: rs_begin_def)
  have "b \<noteq> dataWinSSN w" using Suc.prems(3) by (metis DISTANCESN_self nat.distinct(1))
  moreover have "Suc e < 32767" using Suc.prems(2) rs_isD(4)[OF Suc.prems(1)] by simp
  ultimately have step: "subCatchUp_loop fuel w = subCatchUp_loop f ?w"
    using Suc.prems(3) by (subst subCatchUp_loop.simps) (simp add: b f SubWinPlus_slot Let_def)
  have "dataWinSSN w = b + of_nat (Suc e)" using of_nat_DISTANCESN[of b "dataWinSSN w"] Suc.prems(3) by simp
  then have "DISTANCESN (b + of_nat 1) (dataWinSSN w) = e"
    using DISTANCESN_offsets(1)[of 1 "Suc e" b] \<open>Suc e < 32767\<close> by simp
  then have "subCatchUp_loop f ?w = Inr (?w\<lparr>sw_RxBegin := slot (b + of_nat 1 + of_nat e)\<rparr>)"
    using Suc.prems(2,4) f rs_is_drop[OF Suc.prems(1), of 1] by (intro Suc.IH[where len = "len - 1"]) simp_all
  then show ?case unfolding step by (simp add: ac_simps)
qed

lemma sub_catch_up_ok:
  assumes "rs_ok w"
  shows "\<exists>w'. sub_catch_up w = Inr w' \<and> rs_ok w'"
proof -
  obtain b len where w: "rs_is w b len" and nr: "sn_status (sw_Win w (slot (b + of_nat len))) \<noteq> Received"
    using assms by (rule rs_okE)
  note d = rs_isD[OF w]
  let ?e = "DISTANCESN b (dataWinSSN w)"
  have b: "sn_SSN (sw_Win w (sw_RxBegin w)) = b" "DISTANCESN b (sn_SSN (sw_Win w (sw_RxNext w))) = len"
    using d(1,3) by (simp_all add: rs_begin_def rs_next_def)
  show ?thesis
  proof (cases "len < ?e")
    case True
    then show ?thesis using assms by (simp add: sub_catch_up_def b)
  next
    case False
    let ?w = "w\<lparr>sw_RxBegin := slot (b + of_nat ?e)\<rparr>"
    have "subCatchUp_loop RxSubWinMaxSize w = Inr ?w"
      using False d(4) by (intro subCatchUp_loop_ok[OF w]) simp_all
    moreover have "rs_is ?w (b + of_nat ?e) (len - ?e)" using rs_is_drop[OF w] False by simp
    moreover have "b + of_nat ?e + of_nat (len - ?e) = b + of_nat len"
      using False by (simp add: of_nat_diff)
    ultimately show ?thesis
      using BeginMove_rs_ok[of ?w "b + of_nat ?e" "len - ?e"] nr False by (auto simp: sub_catch_up_def b)
  qed
qed

lemma syncSubWin_ok:
  assumes "\<forall>i<NUM_SUBFLOW. rs_ok (RxSubWin s i)"
  shows "\<exists>s'. DataWin_syncSubWin s = Inr s' \<and> (\<exists>R. s' = s\<lparr>RxSubWin := R\<rparr>) \<and> (\<forall>i<NUM_SUBFLOW. rs_ok (RxSubWin s' i))"
proof -
  let ?P = "\<lambda>(k::nat) (t::mpd_st). (\<exists>R. t = s\<lparr>RxSubWin := R\<rparr>) \<and> (\<forall>i<NUM_SUBFLOW. rs_ok (RxSubWin t i))"
  have "\<exists>s'. DataWin_syncSubWin s = Inr s' \<and> ?P NUM_SUBFLOW s'"
    unfolding DataWin_syncSubWin_def
  proof (rule forR_upt[where P = ?P])
    have "s = s\<lparr>RxSubWin := RxSubWin s\<rparr>" by simp
    with assms show "?P 0 s" by blast
  next
    fix i t assume i: "i < NUM_SUBFLOW" and t: "?P i t"
    then obtain w' where w': "sub_catch_up (RxSubWin t i) = Inr w'" "rs_ok w'" using sub_catch_up_ok by blast
    have "on_sub i sub_catch_up t = Inr (upd_sub i (\<lambda>_. w') t)" using w'(1) by (simp add: on_sub_def)
    moreover have "?P (Suc i) (upd_sub i (\<lambda>_. w') t)" using t w'(2) by (auto simp: upd_sub_def)
    ultimately show "\<exists>t'. (if MPD_SCHD_getFlowValid t i = 0 then Inr t else on_sub i sub_catch_up t) = Inr t' \<and> ?P (Suc i) t'"
      using t by (cases "MPD_SCHD_getFlowValid t i = 0") auto
  qed
  then show ?thesis by blast
qed

lemma RxBeginMove_ok:
  assumes "dw_RxBegin (RxDataWin s) < RxDataWinMaxSize" and "m \<le> RxDataWinMaxSize"
    and "\<forall>n\<in>set (dw_slots (RxDataWin s) m). deliverable s n" and "distinct (ptrs (dw_slots (RxDataWin s) m))"
    and "i = (dw_RxBegin (RxDataWin s) + m) mod RxDataWinMaxSize"
    and "dw_status (dw_Win (RxDataWin s) i) \<noteq> ReceiveComplete" and "\<not> timeOut (dw_Win (RxDataWin s) i)"
    and "\<forall>i<NUM_SUBFLOW. rs_ok (RxSubWin s i)"
  shows "\<exists>s'. MPD_DataWinRxBeginMove env False s = Inr s' \<and> dw_RxBegin (RxDataWin s') = i \<and>
     dw_Win (RxDataWin s') = dw_Win (RxDataWin s) \<and>
     mem s' = mem s |` (- set (ptrs (dw_slots (RxDataWin s) m))) \<and>
     trace s' = rev (map (post_event s) (undelivered (dw_slots (RxDataWin s) m))) @ trace s \<and>
     (\<forall>i<NUM_SUBFLOW. rs_ok (RxSubWin s' i))"
proof -
  obtain t where t: "dataBegin_loop RxDataWinMaxSize env s = Inr t" "dw_frame s t" "dw_RxBegin (RxDataWin t) = i"
     "mem t = mem s |` (- set (ptrs (dw_slots (RxDataWin s) m)))"
     "trace t = rev (map (post_event s) (undelivered (dw_slots (RxDataWin s) m))) @ trace s"
    using dataBegin_loop_ok[OF assms(1-7)] by blast
  have "rs_ok (RxSubWin t j)" if "j < NUM_SUBFLOW" for j
  proof -
    obtain d where "RxSubWin t j = (RxSubWin s j)\<lparr>dataWinSSN := d\<rparr>" using t(2) unfolding dw_frame_def by blast
    then show ?thesis using assms(8) that by simp
  qed
  then obtain s' R where s': "DataWin_syncSubWin t = Inr s'" "s' = t\<lparr>RxSubWin := R\<rparr>"
    "\<forall>i<NUM_SUBFLOW. rs_ok (RxSubWin s' i)"
    using syncSubWin_ok by blast
  have "MPD_DataWinRxBeginMove env False s = Inr s'" using t(1) s'(1) by (simp add: MPD_DataWinRxBeginMove_def)
  then show ?thesis using t s'(2,3) by (intro exI[of _ s'] conjI) (simp_all add: dw_frame_def)
qed

text \<open>
  C6: when the data window moves, it hands the run of whole packets at its start to the transport,
  each once, in the order of the slots and with its contents; exactly their buffers change hands, the
  window then starts at the first slot that is not complete, and the subflow windows stay in order.
\<close>

theorem RxBeginMove_delivers:
  assumes "dw_RxBegin (RxDataWin s) < RxDataWinMaxSize" and "m \<le> RxDataWinMaxSize"
    and "\<forall>n\<in>set (dw_slots (RxDataWin s) m). deliverable s n" and "distinct (ptrs (dw_slots (RxDataWin s) m))"
    and "i = (dw_RxBegin (RxDataWin s) + m) mod RxDataWinMaxSize"
    and "dw_status (dw_Win (RxDataWin s) i) \<noteq> ReceiveComplete" and "\<not> timeOut (dw_Win (RxDataWin s) i)"
    and "\<forall>i<NUM_SUBFLOW. rs_ok (RxSubWin s i)"
  shows "\<exists>s'. MPD_DataWinRxBeginMove env False s = Inr s' \<and> dw_RxBegin (RxDataWin s') = i \<and>
     dw_Win (RxDataWin s') = dw_Win (RxDataWin s) \<and>
     mem s' = mem s |` (- set (ptrs (dw_slots (RxDataWin s) m))) \<and>
     trace s' = rev (map (post_event s) (undelivered (dw_slots (RxDataWin s) m))) @ trace s \<and>
     (\<forall>i<NUM_SUBFLOW. rs_ok (RxSubWin s' i))"
  using assms by (rule RxBeginMove_ok)

section \<open>Insertion into the data window\<close>

text \<open>
  \<open>dw_is w b len\<close>: the window starts at the data sequence number \<open>b\<close> and spans \<open>len\<close> numbers. In
  \<open>dw_ok\<close> the slot after them is a cleared one, as it is between calls.
\<close>

definition dslot :: "U16 \<Rightarrow> nat" where
  "dslot dsn = unat dsn mod RxDataWinMaxSize"

definition dw_is :: "stRxDataWin \<Rightarrow> U16 \<Rightarrow> nat \<Rightarrow> bool" where
  "dw_is w b len \<longleftrightarrow> len < RxDataWinMaxSize \<and> dw_RxBegin w = dslot b \<and> dw_RxNext w = dslot (b + of_nat len) \<and>
     (\<forall>k\<le>len. dw_DSN (dw_Win w (dslot (b + of_nat k))) = b + of_nat k)"

definition dw_ok :: "stRxDataWin \<Rightarrow> U16 \<Rightarrow> nat \<Rightarrow> bool" where
  "dw_ok w b len \<longleftrightarrow> dw_is w b len \<and> dw_Win w (dslot (b + of_nat len)) = dwn_zero\<lparr>dw_DSN := b + of_nat len\<rparr>"

lemma dslot_add: "dslot (b + of_nat k) = (dslot b + k) mod RxDataWinMaxSize"
proof -
  have "unat (b + of_nat k) mod 4096 = (unat b + k) mod 65536 mod 4096"
    by (simp add: unat_word_ariths unat_of_nat mod_simps)
  also have "\<dots> = (unat b + k) mod 4096" by (rule mod_mod_cancel) simp
  finally show ?thesis by (simp add: dslot_def mod_simps)
qed

lemma dslot_add_inj:
  "i < RxDataWinMaxSize \<Longrightarrow> j < RxDataWinMaxSize \<Longrightarrow> dslot (b + of_nat i) = dslot (b + of_nat j) \<longleftrightarrow> i = j"
  unfolding dslot_add by (rule add_mod_inj) (simp_all add: dslot_def)

lemma DataWinPlus_dslot: "DataWinPlus (dslot b) = dslot (b + 1)"
  using dslot_add[of b 1] by (simp add: DataWinPlus_def)

lemma dw_isD:
  assumes "dw_is w b len"
  shows "dw_DSN (dw_Win w (dw_RxBegin w)) = b" "dw_DSN (dw_Win w (dw_RxNext w)) = b + of_nat len"
    "len < RxDataWinMaxSize" "dw_RxBegin w = dslot b" "dw_RxNext w = dslot (b + of_nat len)"
  using assms by (auto simp: dw_is_def dest: spec[of _ "0::nat"])

lemma dw_is_DSN: "dw_is w b len \<Longrightarrow> k \<le> len \<Longrightarrow> dw_DSN (dw_Win w (dslot (b + of_nat k))) = b + of_nat k"
  by (simp add: dw_is_def)

text \<open>A slot of the window may get other contents for the same number.\<close>

lemma dw_is_upd:
  assumes "dw_is w b len" and "k \<le> len" and "dw_DSN (f (dw_Win w (dslot (b + of_nat k)))) = b + of_nat k"
  shows "dw_is (upd_dwn (dslot (b + of_nat k)) f w) b len"
  unfolding dw_is_def
proof (intro conjI allI impI)
  fix l assume l: "l \<le> len"
  show "dw_DSN (dw_Win (upd_dwn (dslot (b + of_nat k)) f w) (dslot (b + of_nat l))) = b + of_nat l"
    using assms(2,3) l dw_is_DSN[OF assms(1) l] dslot_add_inj[of l k b] dw_isD(3)[OF assms(1)] by simp
qed (use assms(1) in \<open>simp_all add: dw_is_def\<close>)

subsection \<open>Growing the window\<close>

lemma dataNext_room:
  assumes w: "dw_is (RxDataWin s) b len" and room: "Suc len < RxDataWinMaxSize"
  shows "\<exists>W. MPD_DataWinRxNextMove env s = Inr (upd_dw (\<lambda>_. W) s) \<and> dw_ok W b (Suc len) \<and>
     NewData W = NewData (RxDataWin s) \<and>
     (\<forall>k\<le>len. dw_Win W (dslot (b + of_nat k)) = dw_Win (RxDataWin s) (dslot (b + of_nat k)))"
proof -
  note d = dw_isD[OF w]
  let ?n = "dslot (b + of_nat (Suc len))"
  have n: "DataWinPlus (dw_RxNext (RxDataWin s)) = ?n"
    using DataWinPlus_dslot[of "b + of_nat len"] d(5) by (simp add: ac_simps)
  have inj: "dslot (b + of_nat i) \<noteq> ?n" if "i \<le> len" for i
    using dslot_add_inj[of i "Suc len" b] that room by simp
  let ?W = "upd_dwn ?n (\<lambda>_. dwn_zero\<lparr>dw_DSN := b + of_nat len + 1\<rparr>) ((RxDataWin s)\<lparr>dw_RxNext := ?n\<rparr>)"
  have nb: "?n \<noteq> dw_RxBegin (RxDataWin s)" using inj[of 0] d(4) by simp
  have "MPD_DataWinRxNextMove env s = Inr (upd_dw (\<lambda>_. ?W) s)"
    using nb d(2) by (simp add: MPD_DataWinRxNextMove_def Let_def n upd_dw_def upd_dwn_def)
  moreover have "dw_is ?W b (Suc len)"
    unfolding dw_is_def
  proof (intro conjI allI impI)
    fix k assume "k \<le> Suc len"
    then show "dw_DSN (dw_Win ?W (dslot (b + of_nat k))) = b + of_nat k"
      using dw_is_DSN[OF w, of k] inj[of k] by (cases "k = Suc len") (auto simp: ac_simps)
  qed (use room d in simp_all)
  ultimately show ?thesis using inj by (intro exI[of _ ?W]) (simp add: dw_ok_def ac_simps)
qed

lemma upd_dw_upd_dw: "upd_dw f (upd_dw g s) = upd_dw (\<lambda>w. f (g w)) s"
  by (simp add: upd_dw_def)

text \<open>Skipping ahead leaves a gap of empty slots that time out 300 milliseconds later.\<close>

lemma dataAdd_room:
  assumes "dw_ok (RxDataWin s) b len" and "n = b + of_nat (len + d)" and "len + d < RxDataWinMaxSize" and "d \<le> fuel"
  shows "\<exists>W. dataAdd_loop fuel env n s = Inr (upd_dw (\<lambda>_. W) s) \<and> dw_ok W b (len + d) \<and>
     NewData W = NewData (RxDataWin s) \<and>
     (\<forall>k<len. dw_Win W (dslot (b + of_nat k)) = dw_Win (RxDataWin s) (dslot (b + of_nat k))) \<and>
     (\<forall>k. len \<le> k \<and> k < len + d \<longrightarrow> dw_Win W (dslot (b + of_nat k)) =
        dwn_zero\<lparr>dw_DSN := b + of_nat k, Time := g_time s + DataWinWaitTimeOut\<rparr>)"
  using assms
proof (induction d arbitrary: fuel s len)
  case 0
  then have w: "dw_is (RxDataWin s) b len" by (simp add: dw_ok_def)
  have "dataAdd_loop fuel env n s = Inr s"
    using "0.prems"(2) dw_isD(2)[OF w] by (subst dataAdd_loop.simps) (simp add: Let_def)
  moreover have "s = upd_dw (\<lambda>_. RxDataWin s) s" by (simp add: upd_dw_def)
  ultimately show ?case using "0.prems"(1) by (intro exI[of _ "RxDataWin s"]) auto
next
  case (Suc d)
  obtain f where f: "fuel = Suc f" using Suc.prems(4) by (cases fuel) auto
  have w: "dw_is (RxDataWin s) b len" using Suc.prems(1) by (simp add: dw_ok_def)
  let ?i = "dslot (b + of_nat len)"
  let ?v = "upd_dwn ?i (\<lambda>n. n\<lparr>Time := g_time s + DataWinWaitTimeOut\<rparr>) (RxDataWin s)"
  have v: "dw_is (RxDataWin (upd_dw (\<lambda>_. ?v) s)) b len"
    using dw_is_upd[OF w, of len] dw_is_DSN[OF w, of len] by simp
  from dataNext_room[OF v, of env] Suc.prems(3) obtain W where
    W: "MPD_DataWinRxNextMove env (upd_dw (\<lambda>_. ?v) s) = Inr (upd_dw (\<lambda>_. W) (upd_dw (\<lambda>_. ?v) s))"
      "dw_ok W b (Suc len)" "NewData W = NewData (RxDataWin s)"
      "\<forall>k\<le>len. dw_Win W (dslot (b + of_nat k)) = dw_Win ?v (dslot (b + of_nat k))"
    by auto
  let ?t = "upd_dw (\<lambda>_. W) s"
  have ne: "n \<noteq> dw_DSN (dw_Win (RxDataWin s) (dw_RxNext (RxDataWin s)))"
  proof
    assume "n = dw_DSN (dw_Win (RxDataWin s) (dw_RxNext (RxDataWin s)))"
    then have "DISTANCESN b (b + of_nat (len + Suc d)) = DISTANCESN b (b + of_nat len)"
      using dw_isD(2)[OF w] Suc.prems(2) by metis
    then show False using Suc.prems(3) by (simp del: of_nat_add of_nat_Suc add: DISTANCESN_add)
  qed
  have step: "dataAdd_loop fuel env n s = dataAdd_loop f env n ?t"
  proof -
    have e: "upd_dw (upd_dwn ?i (\<lambda>n. n\<lparr>Time := g_time s + DataWinWaitTimeOut\<rparr>)) s = upd_dw (\<lambda>_. ?v) s"
      by (simp add: upd_dw_def)
    have e2: "upd_dw (\<lambda>_. W) (upd_dw (\<lambda>_. ?v) s) = ?t" by (simp add: upd_dw_def)
    show ?thesis
      using ne W(1) by (subst dataAdd_loop.simps) (simp add: Let_def dw_isD(5)[OF w] e e2 f)
  qed
  have old: "dw_Win W (dslot (b + of_nat k)) = dw_Win (RxDataWin s) (dslot (b + of_nat k))" if "k < len" for k
    using W(4) that dslot_add_inj[of k len b] Suc.prems(3) by simp
  have gap: "dw_Win W ?i = dwn_zero\<lparr>dw_DSN := b + of_nat len, Time := g_time s + DataWinWaitTimeOut\<rparr>"
    using W(4) Suc.prems(1) by (simp add: dw_ok_def)
  have "\<exists>W'. dataAdd_loop f env n ?t = Inr (upd_dw (\<lambda>_. W') ?t) \<and> dw_ok W' b (Suc len + d) \<and>
     NewData W' = NewData (RxDataWin ?t) \<and>
     (\<forall>k<Suc len. dw_Win W' (dslot (b + of_nat k)) = dw_Win (RxDataWin ?t) (dslot (b + of_nat k))) \<and>
     (\<forall>k. Suc len \<le> k \<and> k < Suc len + d \<longrightarrow> dw_Win W' (dslot (b + of_nat k)) =
        dwn_zero\<lparr>dw_DSN := b + of_nat k, Time := g_time ?t + DataWinWaitTimeOut\<rparr>)"
    using Suc.prems W(2) f by (intro Suc.IH) simp_all
  then obtain W' where W': "dataAdd_loop f env n ?t = Inr (upd_dw (\<lambda>_. W') ?t)" "dw_ok W' b (Suc len + d)"
     "NewData W' = NewData W" "\<forall>k<Suc len. dw_Win W' (dslot (b + of_nat k)) = dw_Win W (dslot (b + of_nat k))"
     "\<forall>k. Suc len \<le> k \<and> k < Suc len + d \<longrightarrow> dw_Win W' (dslot (b + of_nat k)) =
        dwn_zero\<lparr>dw_DSN := b + of_nat k, Time := g_time s + DataWinWaitTimeOut\<rparr>"
    by auto
  show ?case
  proof (intro exI[of _ W'] conjI allI impI)
    show "dataAdd_loop fuel env n s = Inr (upd_dw (\<lambda>_. W') s)" using step W'(1) by (simp add: upd_dw_def)
    show "dw_ok W' b (len + Suc d)" using W'(2) by simp
    show "NewData W' = NewData (RxDataWin s)" using W'(3) W(3) by simp
    show "dw_Win W' (dslot (b + of_nat k)) = dw_Win (RxDataWin s) (dslot (b + of_nat k))" if "k < len" for k
      using W'(4) old[OF that] that by simp
    show "dw_Win W' (dslot (b + of_nat k)) = dwn_zero\<lparr>dw_DSN := b + of_nat k, Time := g_time s + DataWinWaitTimeOut\<rparr>"
      if "len \<le> k \<and> k < len + Suc d" for k
      using W'(4,5) gap that by (cases "k = len") simp_all
  qed
qed

subsection \<open>A packet inside the reach of the window\<close>

text \<open>The slot of a whole packet.\<close>

definition holds_packet :: "stMPDNodeInfo \<Rightarrow> stRxDataWinNode \<Rightarrow> bool" where
  "holds_packet node n \<longleftrightarrow> dw_status n = ReceiveComplete \<and> fragment n = NoFrag \<and> ack_flag n = UnChecked \<and>
     dw_DSN n = ni_DSN node \<and> dw_SSN n = ni_SSN node \<and> stream n = ni_stream node \<and>
     mpdHeadLen n = ni_mpdHeadLen node \<and> msgPtr n 0 = ni_msgPtr node \<and> msgLen n 0 = ni_msgLen node"

lemma PutInNode_whole:
  assumes w: "dw_is (RxDataWin s) b len" and k: "k \<le> len" and nf: "ni_fragment node = NoFrag"
    and dsn: "ni_DSN node = b + of_nat k"
  shows "\<exists>W. MPD_DataWinPutInNode (dslot (b + of_nat k)) node s = Inr (upd_dw (\<lambda>_. W) s) \<and> dw_is W b len \<and>
     holds_packet node (dw_Win W (dslot (b + of_nat k))) \<and>
     (\<forall>i. i \<noteq> dslot (b + of_nat k) \<longrightarrow> dw_Win W i = dw_Win (RxDataWin s) i)"
proof -
  let ?i = "dslot (b + of_nat k)"
  define x where "x = (dw_Win (RxDataWin s) ?i)\<lparr>ack_flag := UnChecked, fragment := NoFrag,
      dw_status := ReceiveComplete, dw_DSN := ni_DSN node, mpdHeadLen := ni_mpdHeadLen node, stream := ni_stream node,
      dw_SSN := ni_SSN node, msgPtr := (msgPtr (dw_Win (RxDataWin s) ?i))(0 := ni_msgPtr node),
      msgLen := (msgLen (dw_Win (RxDataWin s) ?i))(0 := ni_msgLen node)\<rparr>"
  let ?W = "(upd_dwn ?i (\<lambda>_. x) (RxDataWin s))\<lparr>NewData := True\<rparr>"
  have "MPD_DataWinPutInNode ?i node s = Inr (upd_dw (\<lambda>_. ?W) s)"
    using nf by (simp add: MPD_DataWinPutInNode_def Let_def upd_dw_def upd_dwn_def x_def)
  moreover have "dw_is (upd_dwn ?i (\<lambda>_. x) (RxDataWin s)) b len"
    using dsn by (intro dw_is_upd[OF w k]) (simp add: x_def)
  then have "dw_is ?W b len" by (simp add: dw_is_def)
  ultimately show ?thesis by (intro exI[of _ ?W]) (simp add: holds_packet_def x_def)
qed

lemma notify_quiet: "rxDsnErr s = 0 \<Longrightarrow>
  (if rxDsnErr s > 100 then bindR (MPD_OnNotifyException 0 (-4) s) (\<lambda>s. Inr (ret, s\<lparr>rxDsnErr := 0\<rparr>)) else Inr (ret, s))
  = Inr (ret, s)"
  by simp

lemma AddNode_whole:
  assumes "dw_ok (data_start (ni_DSN node) (RxDataWin s)) b len" and "ni_fragment node = NoFrag"
    and "DISTANCESN b (ni_DSN node) = d" and "d \<le> 4094" and "d \<le> len + 1999"
    and "d < len \<Longrightarrow> dw_status (dw_Win (data_start (ni_DSN node) (RxDataWin s)) (dslot (ni_DSN node))) \<noteq> ReceiveComplete"
  shows "\<exists>W. MPD_DataWinAddNode env node s = Inr (1, s\<lparr>RxDataWin := W, rxDsnErr := 0\<rparr>) \<and>
     dw_ok W b (max len (Suc d)) \<and> holds_packet node (dw_Win W (dslot (ni_DSN node))) \<and>
     (\<forall>k<len. k \<noteq> d \<longrightarrow> dw_Win W (dslot (b + of_nat k)) =
        dw_Win (data_start (ni_DSN node) (RxDataWin s)) (dslot (b + of_nat k))) \<and>
     (\<forall>k. len \<le> k \<and> k < d \<longrightarrow> dw_Win W (dslot (b + of_nat k)) =
        dwn_zero\<lparr>dw_DSN := b + of_nat k, Time := g_time s + DataWinWaitTimeOut\<rparr>)"
proof -
  let ?n = "ni_DSN node" and ?s = "upd_dw (data_start (ni_DSN node)) s"
  let ?W0 = "data_start (ni_DSN node) (RxDataWin s)"
  have w: "dw_is (RxDataWin ?s) b len" using assms(1) by (simp add: dw_ok_def)
  have n: "?n = b + of_nat d" using assms(3) by (metis of_nat_DISTANCESN)
  have bn: "dw_DSN (dw_Win ?W0 (dw_RxBegin ?W0)) = b" "dw_DSN (dw_Win ?W0 (dw_RxNext ?W0)) = b + of_nat len"
    using dw_isD(1,2)[OF w] by simp_all
  have left: "\<not> DISTANCESN ?n b < DISTANCESN b ?n" using assms(3,4) left_iff[of ?n b] by simp
  have len: "len < 32768" "len < RxDataWinMaxSize" using dw_isD(3)[OF w] by simp_all
  note right = right_iff[OF len(1) left, unfolded assms(3)]
  show ?thesis
  proof (cases "len \<le> d")
    case True
    then have dist: "\<not> DISTANCESN (b + of_nat len) ?n > 1999"
      using DISTANCESN_offsets(1)[of len d b] assms(4,5) by (simp add: n)
    have "dw_ok (RxDataWin ?s) b len" "?n = b + of_nat (len + (d - len))" "len + (d - len) < RxDataWinMaxSize"
      "d - len \<le> 65536" using assms(1,4) True n by simp_all
    from dataAdd_room[OF this, of env] True obtain V where V: "dataAdd_loop 65536 env ?n ?s = Inr (upd_dw (\<lambda>_. V) ?s)"
      "dw_ok V b d" "\<forall>k<len. dw_Win V (dslot (b + of_nat k)) = dw_Win ?W0 (dslot (b + of_nat k))"
      "\<forall>k. len \<le> k \<and> k < d \<longrightarrow> dw_Win V (dslot (b + of_nat k)) =
        dwn_zero\<lparr>dw_DSN := b + of_nat k, Time := g_time s + DataWinWaitTimeOut\<rparr>"
      by auto
    have Vi: "dw_is (RxDataWin (upd_dw (\<lambda>_. V) ?s)) b d" using V(2) by (simp add: dw_ok_def)
    from PutInNode_whole[OF Vi order_refl assms(2) n] obtain U where
      U: "MPD_DataWinPutInNode (dslot (b + of_nat d)) node (upd_dw (\<lambda>_. V) ?s) = Inr (upd_dw (\<lambda>_. U) (upd_dw (\<lambda>_. V) ?s))"
        "dw_is U b d" "holds_packet node (dw_Win U (dslot (b + of_nat d)))"
        "\<forall>i. i \<noteq> dslot (b + of_nat d) \<longrightarrow> dw_Win U i = dw_Win V i"
      by auto
    have "dw_is (RxDataWin (upd_dw (\<lambda>_. U) s)) b d" "Suc d < RxDataWinMaxSize" using U(2) assms(4) by simp_all
    from dataNext_room[OF this, of env] obtain W where
      W: "MPD_DataWinRxNextMove env (upd_dw (\<lambda>_. U) s) = Inr (upd_dw (\<lambda>_. W) (upd_dw (\<lambda>_. U) s))" "dw_ok W b (Suc d)"
        "\<forall>k\<le>d. dw_Win W (dslot (b + of_nat k)) = dw_Win U (dslot (b + of_nat k))"
      by auto
    have e: "upd_dw (\<lambda>_. x) (upd_dw f t) = upd_dw (\<lambda>_. x) t" for x f t by (simp add: upd_dw_def)
    have nx: "dw_RxNext V = dslot (b + of_nat d)" using dw_isD(5)[OF Vi] by simp
    note steps = V(1)[unfolded e] U(1)[unfolded e] W(1)[unfolded e]
    have "DataWin_after env (b + of_nat len) node ?s = Inr (1, (upd_dw (\<lambda>_. W) s)\<lparr>rxDsnErr := 0\<rparr>)"
      unfolding DataWin_after_def if_not_P[OF dist] steps(1) bindR.simps by (simp add: nx steps(2,3))
    then have "MPD_DataWinAddNode env node s = Inr (1, (upd_dw (\<lambda>_. W) s)\<lparr>rxDsnErr := 0\<rparr>)"
      using left right True by (simp add: MPD_DataWinAddNode_def Let_def bn)
    moreover have "dw_Win U (dslot (b + of_nat k)) = dw_Win V (dslot (b + of_nat k))" if "k < d" for k
      using U(4) that dslot_add_inj[of k d b] assms(4) by simp
    ultimately show ?thesis
      using W U(3) V(3,4) True n by (intro exI[of _ W]) (simp add: upd_dw_def max_def)
  next
    case False
    have idx: "unat ?n mod RxDataWinMaxSize = dslot (b + of_nat d)" by (simp add: dslot_def n)
    have nd: "\<not> is_duplicate node (dw_Win (RxDataWin ?s) (dslot (b + of_nat d)))"
      using assms(2,6) False n by (simp add: is_duplicate_def)
    from PutInNode_whole[OF w _ assms(2) n] False obtain W where
      W: "MPD_DataWinPutInNode (dslot (b + of_nat d)) node ?s = Inr (upd_dw (\<lambda>_. W) ?s)"
        "dw_is W b len" "holds_packet node (dw_Win W (dslot (b + of_nat d)))"
        "\<forall>i. i \<noteq> dslot (b + of_nat d) \<longrightarrow> dw_Win W i = dw_Win ?W0 i"
      by auto
    have e: "upd_dw (\<lambda>_. W) ?s = upd_dw (\<lambda>_. W) s" by (simp add: upd_dw_def)
    have "DataWin_inside node ?s = Inr (1, (upd_dw (\<lambda>_. W) s)\<lparr>rxDsnErr := 0\<rparr>)"
      unfolding DataWin_inside_def Let_def idx if_not_P[OF nd] W(1) e by simp
    then have "MPD_DataWinAddNode env node s = Inr (1, (upd_dw (\<lambda>_. W) s)\<lparr>rxDsnErr := 0\<rparr>)"
      using left right False by (simp add: MPD_DataWinAddNode_def Let_def bn)
    moreover have oth: "dw_Win W (dslot (b + of_nat k)) = dw_Win ?W0 (dslot (b + of_nat k))" if "k \<le> len" "k \<noteq> d" for k
      using W(4) that dslot_add_inj[of k d b] False len(2) by simp
    moreover have "dw_ok W b (max len (Suc d))"
      using W(2) oth[of len] False assms(1) by (simp add: dw_ok_def max_absorb1)
    ultimately show ?thesis
      using W(3) False n by (intro exI[of _ W]) (auto simp: upd_dw_def)
  qed
qed

text \<open>
  C7: a whole packet at most 4094 numbers past the start of the data window and 1999 past its end,
  whose slot does not already hold a complete packet, is put into its slot; the numbers it skips
  become empty slots with a deadline, the other slots keep their contents, and nothing is
  delivered, released or lost.
\<close>

theorem DataWinAddNode_stores:
  assumes "dw_ok (data_start (ni_DSN node) (RxDataWin s)) b len" and "ni_fragment node = NoFrag"
    and "DISTANCESN b (ni_DSN node) = d" and "d \<le> 4094" and "d \<le> len + 1999"
    and "d < len \<Longrightarrow> dw_status (dw_Win (data_start (ni_DSN node) (RxDataWin s)) (dslot (ni_DSN node))) \<noteq> ReceiveComplete"
  shows "\<exists>W. MPD_DataWinAddNode env node s = Inr (1, s\<lparr>RxDataWin := W, rxDsnErr := 0\<rparr>) \<and>
     dw_ok W b (max len (Suc d)) \<and> holds_packet node (dw_Win W (dslot (ni_DSN node))) \<and>
     (\<forall>k<len. k \<noteq> d \<longrightarrow> dw_Win W (dslot (b + of_nat k)) =
        dw_Win (data_start (ni_DSN node) (RxDataWin s)) (dslot (b + of_nat k))) \<and>
     (\<forall>k. len \<le> k \<and> k < d \<longrightarrow> dw_Win W (dslot (b + of_nat k)) =
        dwn_zero\<lparr>dw_DSN := b + of_nat k, Time := g_time s + DataWinWaitTimeOut\<rparr>)"
  using assms by (rule AddNode_whole)

text \<open>
  A second copy of a whole packet that the window still holds is released and changes nothing
  else; the caller learns from the result 0 that it was not taken.
\<close>

theorem DataWinAddNode_duplicate:
  assumes "dw_ok (RxDataWin s) b len" and "data_start (ni_DSN node) (RxDataWin s) = RxDataWin s"
    and "DISTANCESN b (ni_DSN node) < len" and "dw_status (dw_Win (RxDataWin s) (dslot (ni_DSN node))) = ReceiveComplete"
    and "mem s (ni_msgPtr node) \<noteq> None" and "ni_msgPtr node \<noteq> 0"
  shows "MPD_DataWinAddNode env node s = Inr (0, s\<lparr>mem := (mem s)(ni_msgPtr node := None), rxDsnErr := 0\<rparr>)"
proof -
  let ?n = "ni_DSN node"
  have w: "dw_is (RxDataWin s) b len" using assms(1) by (simp add: dw_ok_def)
  have s: "upd_dw (data_start ?n) s = s" using assms(2) by (simp add: upd_dw_def)
  have len: "len < 32768" using dw_isD(3)[OF w] by simp
  have left: "\<not> DISTANCESN ?n b < DISTANCESN b ?n" using assms(3) len left_iff[of ?n b] by simp
  have "DataWin_inside node s = Inr (0, s\<lparr>mem := (mem s)(ni_msgPtr node := None), rxDsnErr := 0\<rparr>)"
    using assms(4-6) by (simp add: DataWin_inside_def is_duplicate_def dslot_def MPD_MsgMemfree_def Let_def)
  then show ?thesis
    using left right_iff[OF len left] assms(3) dw_isD(1,2)[OF w] by (simp add: MPD_DataWinAddNode_def Let_def s)
qed

section \<open>Instances\<close>

text \<open>A data window that holds one whole packet, in the buffer 1, and waits for the next.\<close>

definition rx_node :: stMPDNodeInfo where
  "rx_node = \<lparr>ni_stream = 0, ni_fragment = NoFrag, ni_DSN = 0, ni_SSN = 0, ni_msgLen = 20, ni_mpdHeadLen = 12, ni_msgPtr = 2\<rparr>"

definition rx_slot :: stRxDataWinNode where
  "rx_slot = dwn_zero\<lparr>dw_status := ReceiveComplete, msgPtr := (\<lambda>_. 0)(0 := 1), msgLen := (\<lambda>_. 0)(0 := 20), mpdHeadLen := 12\<rparr>"

definition rx_window :: stRxDataWin where
  "rx_window = datawin_zero\<lparr>dw_RxNext := 1, dw_Win := (\<lambda>_. dwn_zero)(0 := rx_slot, 1 := dwn_zero\<lparr>dw_DSN := 1\<rparr>)\<rparr>"

definition rx_demo :: mpd_st where
  "rx_demo = st_zero\<lparr>RxDataWin := rx_window, mem := [1 \<mapsto> replicate 20 7, 2 \<mapsto> replicate 20 8]\<rparr>"

lemma rx_demo_simps:
  "RxDataWin rx_demo = rx_window" "mem rx_demo = [1 \<mapsto> replicate 20 7, 2 \<mapsto> replicate 20 8]"
  "trace rx_demo = []" "RxSubWin rx_demo = (\<lambda>_. subwin_zero)"
  "RxDataWin st_zero = datawin_zero" "g_time st_zero = 0"
  by (simp_all add: rx_demo_def st_zero_def user_zero_def stUserInfo.defs mpd_st.defs)

lemma rx_slots: "dw_slots rx_window (Suc 0) = [rx_slot]"
  by (simp add: dw_slots_def rx_window_def datawin_zero_def)

theorem RxBeginMove_delivers_witness:
  "\<exists>s'. MPD_DataWinRxBeginMove env_ok False rx_demo = Inr s' \<and> trace s' = [EvPost 1 (replicate 20 7) 20 12] \<and>
     mem s' = [2 \<mapsto> replicate 20 8]"
proof -
  have p: "ptrs [rx_slot] = [1]" "undelivered [rx_slot] = [rx_slot]"
    by (simp_all add: ptrs_def undelivered_def rx_slot_def dwn_zero_def)
  have e: "post_event rx_demo rx_slot = EvPost 1 (replicate 20 7) 20 12"
    by (simp add: post_event_def rx_slot_def rx_demo_simps)
  have "deliverable rx_demo rx_slot" by (simp add: deliverable_def rx_slot_def dwn_zero_def rx_demo_simps)
  moreover have "dw_RxBegin rx_window = 0" "dw_Win rx_window 1 = dwn_zero\<lparr>dw_DSN := 1\<rparr>"
    by (simp_all add: rx_window_def datawin_zero_def)
  ultimately obtain s' where "MPD_DataWinRxBeginMove env_ok False rx_demo = Inr s'"
    "mem s' = mem rx_demo |` (- set (ptrs [rx_slot]))"
    "trace s' = rev (map (post_event rx_demo) (undelivered [rx_slot])) @ trace rx_demo"
    using RxBeginMove_delivers[of rx_demo 1 1 env_ok]
    by (auto simp: rx_demo_simps rx_slots p rs_ok_zero dwn_zero_def)
  then show ?thesis by (auto simp: p e rx_demo_simps restrict_map_def fun_eq_iff)
qed

theorem DataWinAddNode_stores_witness:
  "\<exists>W. MPD_DataWinAddNode env_ok (rx_node\<lparr>ni_DSN := 5\<rparr>) st_zero = Inr (1, st_zero\<lparr>RxDataWin := W, rxDsnErr := 0\<rparr>) \<and>
     msgPtr (dw_Win W 5) 0 = 2"
proof -
  let ?W = "data_start 5 datawin_zero"
  have W: "?W = upd_dwn 5 (\<lambda>_. dwn_zero\<lparr>dw_DSN := 5\<rparr>) (datawin_zero\<lparr>dw_RxBegin := 5, dw_RxNext := 5\<rparr>)"
    by (simp add: data_start_def datawin_zero_def dwn_zero_def upd_dwn_def)
  have "dw_ok ?W 5 0" unfolding W by (simp add: dw_ok_def dw_is_def dslot_def)
  then have "\<exists>W. MPD_DataWinAddNode env_ok (rx_node\<lparr>ni_DSN := 5\<rparr>) st_zero = Inr (1, st_zero\<lparr>RxDataWin := W, rxDsnErr := 0\<rparr>) \<and>
     holds_packet (rx_node\<lparr>ni_DSN := 5\<rparr>) (dw_Win W (dslot 5))"
    using DataWinAddNode_stores[of "rx_node\<lparr>ni_DSN := 5\<rparr>" st_zero 5 0 0 env_ok]
    by (auto simp: rx_demo_simps rx_node_def)
  then show ?thesis by (auto simp: holds_packet_def dslot_def rx_node_def)
qed

theorem DataWinAddNode_duplicate_witness:
  "\<exists>s'. MPD_DataWinAddNode env_ok rx_node rx_demo = Inr (0, s') \<and> mem s' = [1 \<mapsto> replicate 20 7]"
proof -
  have "dw_is rx_window 0 1"
    unfolding dw_is_def
  proof (intro conjI allI impI)
    fix k :: nat assume "k \<le> 1"
    then have "k = 0 \<or> k = 1" by auto
    then show "dw_DSN (dw_Win rx_window (dslot (0 + of_nat k))) = 0 + of_nat k"
      by (auto simp: rx_window_def rx_slot_def dwn_zero_def dslot_def)
  qed (simp_all add: rx_window_def datawin_zero_def dslot_def)
  then have "dw_ok rx_window 0 1" by (simp add: dw_ok_def dslot_def rx_window_def)
  moreover have "data_start 0 rx_window = rx_window" by (simp add: data_start_def rx_window_def)
  moreover have "dw_status (dw_Win rx_window 0) = ReceiveComplete" by (simp add: rx_window_def rx_slot_def)
  ultimately have "MPD_DataWinAddNode env_ok rx_node rx_demo = Inr (0, rx_demo\<lparr>mem := (mem rx_demo)(2 := None), rxDsnErr := 0\<rparr>)"
    using DataWinAddNode_duplicate[of rx_demo 0 1 rx_node env_ok]
    by (simp add: rx_demo_simps rx_node_def dslot_def)
  then show ?thesis by (auto simp: rx_demo_simps)
qed

end
