(* ===== verification/MPD_Schd.thy ===== *)
theory MPD_Schd
  imports MPD_TxWin
begin

text \<open>
  The scheduler (\<^verbatim>\<open>mpd_schd.c\<close>): per-subflow delay and rate estimates, traffic control, and the
  choice of the subflow that carries the next packet. A division whose divisor is computed or
  configured is guarded, and gives the fault \<open>DivByZero\<close> where C has no value.
\<close>

section \<open>Configuration and initial values\<close>

definition SCHD_Init_para :: "stSchdCfg \<Rightarrow> stSchdStreamPara \<Rightarrow> stSchdStreamPara" where
  "SCHD_Init_para cfg p = p\<lparr>isValid := 0, RTTNew := 0, RTTFlow := 0, Nweight := drop_bit 1 (NN cfg),
     wCnt := NN cfg, InhertDelay := 5, isRttUpdate := False, isPeriodRttUpdate := True,
     ModifyFactor := 100, PktAvg := 128, PktCnt := 0, pktRetCnt := 0, PktChooseCnt := 0\<rparr>"

definition MPD_SCHD_Init :: "mpd_st \<Rightarrow> mpd_st" where
  "MPD_SCHD_Init s = s\<lparr>RTTFlowMax := 0,
     schdPara := (\<lambda>i. if i < NUM_SUBFLOW then SCHD_Init_para (g_schdCfg s) (schdPara s i) else schdPara s i)\<rparr>"

definition MPD_SCHD_CfgInit :: "mpd_st \<Rightarrow> mpd_st" where
  "MPD_SCHD_CfgInit s = s\<lparr>g_schdCfg := \<lparr>scaleRTTFlow = 32, scalePktV = 5, weightUpdatePeriod = 200,
     NN = 2048, wCntOverflowTh = 65535\<rparr>\<rparr>"

definition MPD_SCHD_setAlgVar :: "U8 \<Rightarrow> U16 \<Rightarrow> U32 \<Rightarrow> U32 \<Rightarrow> mpd_st \<Rightarrow> mpd_st" where
  "MPD_SCHD_setAlgVar alpha period step cntTh s =
     s\<lparr>g_schdCfg := (g_schdCfg s)\<lparr>scaleRTTFlow := alpha, weightUpdatePeriod := period, NN := step,
         wCntOverflowTh := cntTh\<rparr>\<rparr>"

section \<open>Round-trip time and delay\<close>

text \<open>With \<^verbatim>\<open>SCHD_BALANCE\<close> the function returns after its first block.\<close>

definition MPD_SCHD_RTTFlowUpdate :: "nat \<Rightarrow> stDataNode \<Rightarrow> mpd_st \<Rightarrow> mpd_st" where
  "MPD_SCHD_RTTFlowUpdate flowId n s =
     (if transState n = WAITING_ACK
      then upd_para flowId (\<lambda>p. p\<lparr>RTTNew := g_time s - T1 n, isRttUpdate := True\<rparr>) s
      else s)"

definition DelayUpdate_para :: "stSchdStreamPara \<Rightarrow> stSchdStreamPara" where
  "DelayUpdate_para p =
     (if isValid p = 0 then p
      else if \<not> isRttUpdate p then p
      else
        let p = p\<lparr>isRttUpdate := False, isPeriodRttUpdate := True\<rparr>;
            rtt = RTTNew p * 10
        in if InhertDelay p = 0 then p\<lparr>InhertDelay := rtt\<rparr>
           else
             let p = (if InhertDelay p \<le> rtt
                      then p\<lparr>InhertDelay := (InhertDelay p * 9 + rtt) div 10\<rparr>
                      else p\<lparr>InhertDelay := (InhertDelay p + rtt) div 2\<rparr>)
             in if InhertDelay p < 5 then p\<lparr>InhertDelay := 5\<rparr> else p)"

definition MPD_SCHD_DelayUpdate :: "mpd_st \<Rightarrow> mpd_st" where
  "MPD_SCHD_DelayUpdate s =
     (if g_time s mod T_PKT = uid s mod T_PKT
      then fold (\<lambda>i. upd_para i DelayUpdate_para) [0..<NUM_SUBFLOW] s
      else s)"

definition RttUpdate_flow :: "rat_env \<Rightarrow> nat \<Rightarrow> mpd_st \<Rightarrow> mpd_st" where
  "RttUpdate_flow env i s =
     (let p = schdPara s i
      in if isValid p = 0 then s
         else if isPeriodRttUpdate p then upd_para i (\<lambda>p. p\<lparr>isPeriodRttUpdate := False\<rparr>) s
         else let rtt = env_rtt env (trace s) (MPD_GetDeviceId i)
              in if rtt > 0 then upd_para i (\<lambda>p. p\<lparr>InhertDelay := rtt\<rparr>) s else s)"

definition MPD_SCHD_RttUpdate :: "rat_env \<Rightarrow> mpd_st \<Rightarrow> mpd_st" where
  "MPD_SCHD_RttUpdate env s =
     (if g_time s mod 150 = uid s mod 150
      then fold (RttUpdate_flow env) [0..<NUM_SUBFLOW] s else s)"

section \<open>Packet rate\<close>

text \<open>
  The rate estimate mixes in twice the packets counted in the period; a subflow whose window
  ran empty keeps its estimate when the mix is lower; a low estimate grows by half, to 38 at least.
\<close>

definition PktAvg_mix :: "U32 \<Rightarrow> stSchdStreamPara \<Rightarrow> U32" where
  "PktAvg_mix sc p = (PktAvg p * (sc - 2) + 2 * (PktCnt p * 100 div T_PKT)) div sc"

definition PktAvg_next :: "U32 \<Rightarrow> stSchdStreamPara \<Rightarrow> U32" where
  "PktAvg_next sc p =
     (if txWinEmptyCnt p > 0
      then (if PktAvg p < PktAvg_mix sc p then PktAvg_mix sc p else PktAvg p)
      else PktAvg_mix sc p)"

definition PktAvg_floor :: "U32 \<Rightarrow> U32" where
  "PktAvg_floor a = (if a < 38 then (if a * 3 div 2 > 38 then a * 3 div 2 else 38) else a)"

definition pktAvgTmp :: "U32 \<Rightarrow> stSchdStreamPara \<Rightarrow> U32 \<Rightarrow> U32" where
  "pktAvgTmp sc p a = (if txWinEmptyCnt p > 0 then a * (sc + 1) div sc else a)"

definition PktAvgUpdate_para :: "U8 \<Rightarrow> stSchdStreamPara \<Rightarrow> stSchdStreamPara res" where
  "PktAvgUpdate_para scale p =
     (if isValid p = 0 then Inr p
      else if scale = 0 then Inl DivByZero
      else
        let sc = ucast scale :: U32;
            avg = PktAvg_floor (PktAvg_next sc p)
        in bindR (if avg \<noteq> 0
                  then (if pktAvgTmp sc p avg = 0 then Inl DivByZero
                        else Inr (10000 div pktAvgTmp sc p avg))
                  else Inr (ModifyFactor p))
             (\<lambda>m. Inr (p\<lparr>PktAvg := avg, ModifyFactor := m, PktCnt := 0, pktRetCnt := 0,
                         PktChooseCnt := 0, txWinEmptyCnt := 0\<rparr>)))"

definition PktAvgUpdate_flow :: "nat \<Rightarrow> mpd_st \<Rightarrow> mpd_st res" where
  "PktAvgUpdate_flow i s =
     bindR (PktAvgUpdate_para (scalePktV (g_schdCfg s)) (schdPara s i)) (\<lambda>p.
       Inr (upd_para i (\<lambda>_. p) s))"

definition MPD_SCHD_PktAvgUpdate :: "mpd_st \<Rightarrow> mpd_st res" where
  "MPD_SCHD_PktAvgUpdate s =
     (if g_time s mod T_PKT = uid s mod T_PKT
      then forR PktAvgUpdate_flow [0..<NUM_SUBFLOW] s else Inr s)"

definition WeightUpdate_flow :: "nat \<Rightarrow> mpd_st \<Rightarrow> mpd_st" where
  "WeightUpdate_flow i s =
     (if RTTFlowMax s = 0 \<or> RTTFlow (schdPara s i) = 0 then s
      else upd_para i (\<lambda>p. p\<lparr>Nweight := NN (g_schdCfg s) * RTTFlow p div RTTFlowMax s\<rparr>) s)"

definition MPD_SCHD_WeightUpdate :: "mpd_st \<Rightarrow> mpd_st res" where
  "MPD_SCHD_WeightUpdate s =
     (let period = ucast (weightUpdatePeriod (g_schdCfg s)) :: U32
      in if period = 0 then Inl DivByZero
         else Inr (if g_time s mod period = uid s mod period
                   then fold WeightUpdate_flow [0..<NUM_SUBFLOW] s else s))"

definition CHECK_Txwin_Empty_flow :: "nat \<Rightarrow> mpd_st \<Rightarrow> mpd_st" where
  "CHECK_Txwin_Empty_flow i s =
     (if isValid (schdPara s i) = 0 then s
      else case MPD_isTxWinEmpty i s of
        (True, s) \<Rightarrow> upd_para i (\<lambda>p. p\<lparr>txWinEmptyCnt := txWinEmptyCnt p + 1\<rparr>) s
      | (False, s) \<Rightarrow> s)"

definition MPD_CHECK_Txwin_Empty :: "mpd_st \<Rightarrow> mpd_st" where
  "MPD_CHECK_Txwin_Empty s =
     (if g_time s mod 10 = uid s mod 10
      then fold CHECK_Txwin_Empty_flow [0..<NUM_SUBFLOW] s else s)"

section \<open>Traffic control\<close>

definition TrafficCtlInit_tc :: "stTrafficControl \<Rightarrow> stTrafficControl" where
  "TrafficCtlInit_tc c = c\<lparr>pktRate := 128, pktRatePre := 0, pktCntTx := 0, scaleFactor := 120,
     lossThrsh := 5, pktRateAvg := 128, throuputLimit := 100, pktLossCnt := 0, ssnBegin := 0,
     ssnEnd := 0, isTrafficCtl := False, sackNum := 0, acceleratedCnt := 0, acceleratedPkt := 0,
     isPktTxStop := False, quitTrafficCtlCnt := 0\<rparr>"

definition MPD_TrafficCtlInit :: "mpd_st \<Rightarrow> mpd_st" where
  "MPD_TrafficCtlInit s =
     s\<lparr>trafficControl := (\<lambda>i. if i < NUM_SUBFLOW then TrafficCtlInit_tc (trafficControl s i)
                            else trafficControl s i),
       dataWaitQueue := (\<lambda>_. wq_zero), pDataWaiteHead := 0, pDataWaiteTail := 0,
       throuputTotal := 500, isAllFlowTrafficCtl := False, isMpStopSched := False,
       tcDelPktCnt := 0\<rparr>"

text \<open>The growth factor in percent: lowered on loss, raised otherwise, kept within 90 and 110.\<close>

definition tc_scale :: "U32 \<Rightarrow> U32 \<Rightarrow> stTrafficControl \<Rightarrow> stTrafficControl" where
  "tc_scale lossPktCnt sendPktCnt c =
     (let c = (if sackNum c \<noteq> 0
               then (if lossPktCnt * 100 > sendPktCnt * 19
                     then c\<lparr>scaleFactor := scaleFactor c * 60 div 100\<rparr>
                     else c\<lparr>scaleFactor := scaleFactor c * 95 div 100\<rparr>)
               else let tmp = scaleFactor c * 105 div 100
                    in if tmp > scaleFactor c + 5 then c\<lparr>scaleFactor := tmp\<rparr>
                       else c\<lparr>scaleFactor := scaleFactor c + 5\<rparr>)
      in if scaleFactor c < 90 then c\<lparr>scaleFactor := 90\<rparr>
         else if scaleFactor c > 110 then c\<lparr>scaleFactor := 110\<rparr>
         else c)"

text \<open>Whether the rate has stopped growing: it stays within five percent of the previous one.\<close>

definition tc_accel :: "stTrafficControl \<Rightarrow> stTrafficControl" where
  "tc_accel c =
     (if quitTrafficCtlCnt c = 0
      then
        let pktIncre = (pktRatePre c * 105 + 99) div 100;
            pktIncre1 = (pktRatePre c * 95 + 99) div 100;
            c = c\<lparr>pktRatePre := pktRate c\<rparr>
        in if pktRate c < pktIncre \<and> pktRate c > pktIncre1
           then c\<lparr>acceleratedCnt := acceleratedCnt c + 1\<rparr>
           else c\<lparr>acceleratedCnt := 0\<rparr>
      else c)"

text \<open>
  The decision for one subflow: (its control block, whether the control time is set to now,
  whether the all-flows flag is cleared).
\<close>

definition tc_decide :: "U32 \<Rightarrow> U32 \<Rightarrow> U32 \<Rightarrow> U32 \<Rightarrow> stTrafficControl \<Rightarrow> stTrafficControl \<times> bool \<times> bool" where
  "tc_decide lossPktCnt sendPktCnt emptyCnt rateAvg c =
     (if (lossPktCnt * 100 > sendPktCnt * lossThrsh c \<and> lossPktCnt > 3) \<or>
         (acceleratedCnt c > 2 \<and> emptyCnt = 0)
      then let limit = rateAvg * scaleFactor c div 100
           in (c\<lparr>acceleratedCnt := 0, isTrafficCtl := True, quitTrafficCtlCnt := 1,
                 throuputLimit := (if limit < 10 then 10 else limit)\<rparr>, True, False)
      else if quitTrafficCtlCnt c > 0
      then (if quitTrafficCtlCnt c < 10
            then let tmp = rateAvg * scaleFactor c div 100
                 in (c\<lparr>isTrafficCtl := True,
                       throuputLimit := (if throuputLimit c < tmp then tmp else throuputLimit c),
                       quitTrafficCtlCnt := quitTrafficCtlCnt c + 1\<rparr>, True, False)
            else (c\<lparr>quitTrafficCtlCnt := 0\<rparr>, False, True))
      else (c, False, True))"

definition TrafficControl_flow :: "nat \<Rightarrow> mpd_st \<Rightarrow> mpd_st res" where
  "TrafficControl_flow i s =
     (if isValid (schdPara s i) = 0 then Inr s
      else if scalePktV (g_schdCfg s) = 0 then Inl DivByZero
      else
        let sc = ucast (scalePktV (g_schdCfg s)) :: U32;
            c = (trafficControl s i)\<lparr>isTrafficCtl := False, isPktTxStop := False\<rparr>;
            lossPktCnt = pktLossCnt c;
            sendPktCnt = of_nat (DISTANCESN (ssnBegin c) (ssnEnd c)) :: U32;
            c = c\<lparr>ssnBegin := ssnEnd c\<rparr>;
            c = tc_accel (tc_scale lossPktCnt sendPktCnt c);
            rateAvg = (pktRateAvg c * (sc - 2) + 2 * pktRate c) div sc;
            c = c\<lparr>pktRateAvg := rateAvg\<rparr>;
            rateAvg = (if rateAvg < pktRate c then pktRate c else rateAvg)
        in case tc_decide lossPktCnt sendPktCnt (txWinEmptyCnt (schdPara s i)) rateAvg c of
             (c, setTime, notAll) \<Rightarrow>
               Inr (upd_tc i (\<lambda>_. c\<lparr>pktLossCnt := 0, pktCntTx := 0, pktRate := 0, sackNum := 0\<rparr>)
                 (s\<lparr>trafficCtlTime := (if setTime then g_time s else trafficCtlTime s),
                    isAllFlowTrafficCtl := (if notAll then False else isAllFlowTrafficCtl s),
                    throuputTotal := throuputTotal s + throuputLimit c\<rparr>)))"

definition MPD_TrafficControl :: "mpd_st \<Rightarrow> mpd_st res" where
  "MPD_TrafficControl s =
     (if g_isTrafficCtl s = 0
      then Inr (fold (\<lambda>i. upd_tc i (\<lambda>c. c\<lparr>isTrafficCtl := False, isPktTxStop := False\<rparr>)) [0..<NUM_SUBFLOW]
             (s\<lparr>isAllFlowTrafficCtl := False, throuputTotal := 0, isMpStopSched := False\<rparr>))
      else if g_time s mod T_TC_PERIOD = uid s mod T_TC_PERIOD
      then forR TrafficControl_flow [0..<NUM_SUBFLOW]
             (s\<lparr>isAllFlowTrafficCtl := True, throuputTotal := 0, isMpStopSched := False\<rparr>)
      else Inr s)"

section \<open>Choosing a subflow\<close>

abbreviation INVALID_STREAM :: nat where "INVALID_STREAM \<equiv> 255"

text \<open>
  The expected delay of a subflow in milliseconds, from its delay estimate and the number of
  packets waiting on it. The comparison and the assignment of the \<^verbatim>\<open>int\<close> \<^verbatim>\<open>g_InhertDelay\<close> convert it
  to unsigned.
\<close>

definition flow_cost :: "nat \<Rightarrow> U32 \<Rightarrow> mpd_st \<Rightarrow> U32" where
  "flow_cost flowId histNum s =
     (let p = schdPara s flowId;
          w = (if flowId = 0 \<and> g_isMdelayMin s \<noteq> 0 \<and> InhertDelay p > word_of_int (g_InhertDelay s)
               then word_of_int (g_InhertDelay s) else InhertDelay p)
      in if PktAvg p > 0
         then let w = w + histNum * 1000 div PktAvg p
              in if flowId = 0 \<and> g_MminusPkt s \<noteq> 0
                 then let tmp = word_of_int (g_MminusPkt s * 1000) div PktAvg p
                      in if w > tmp then w - tmp else 0
                 else w
         else w)"

text \<open>The body of the loop, over (least cost so far, its subflow, the state).\<close>

definition ChooseStream_flow :: "nat \<Rightarrow> U32 \<times> nat \<times> mpd_st \<Rightarrow> U32 \<times> nat \<times> mpd_st" where
  "ChooseStream_flow flowId acc =
     (case acc of (minWCnt, result, s) \<Rightarrow>
        let c = trafficControl s flowId
        in if isValid (schdPara s flowId) = 0 then (minWCnt, result, s)
           else if isTrafficCtl c \<and> isPktTxStop c then (minWCnt, result, s)
           else
             let s = (if isTrafficCtl c
                      then (if pktCntTx c \<ge> throuputLimit c
                            then upd_tc flowId (\<lambda>c. c\<lparr>isPktTxStop := True\<rparr>) s
                            else s\<lparr>isMpStopSched := False\<rparr>)
                      else s\<lparr>isMpStopSched := False\<rparr>)
             in case MPD_getHistAcnt flowId s of (histNum, s) \<Rightarrow>
                  let wCntFlow = flow_cost flowId histNum s
                  in if wCntFlow < minWCnt then (wCntFlow, flowId, s) else (minWCnt, result, s))"

text \<open>
  After the loop the chosen subflow's flags are written with no test of \<^verbatim>\<open>INVALID_STREAM\<close>; 255 is
  outside the arrays of three.
\<close>

definition MPD_SCHD_ChooseStream :: "mpd_st \<Rightarrow> (nat \<times> mpd_st) res" where
  "MPD_SCHD_ChooseStream s =
     (case fold ChooseStream_flow [0..<NUM_SUBFLOW]
             (0xFFFFFFFF, INVALID_STREAM, s\<lparr>isMpStopSched := True\<rparr>) of
        (_, result, s) \<Rightarrow>
          if NUM_SUBFLOW \<le> result then Inl OutOfBounds
          else Inr (result,
                 upd_tc result (\<lambda>c. c\<lparr>pktCntTx := pktCntTx c + 1\<rparr>)
                   (upd_para result (\<lambda>p. p\<lparr>isSendPkt := True, PktChooseCnt := PktChooseCnt p + 1\<rparr>) s)))"

section \<open>Properties\<close>

lemma upd_para_simps [simp]:
  "schdPara (upd_para i f s) = (schdPara s)(i := f (schdPara s i))" "txWindow (upd_para i f s) = txWindow s"
  "trafficControl (upd_para i f s) = trafficControl s" "mem (upd_para i f s) = mem s"
  "g_time (upd_para i f s) = g_time s" "uid (upd_para i f s) = uid s" "g_schdCfg (upd_para i f s) = g_schdCfg s"
  "RxSubWin (upd_para i f s) = RxSubWin s" "RxDataWin (upd_para i f s) = RxDataWin s"
  "trace (upd_para i f s) = trace s" "txDataSn (upd_para i f s) = txDataSn s" "brk (upd_para i f s) = brk s"
  "RTTFlowMax (upd_para i f s) = RTTFlowMax s"
  by (simp_all add: upd_para_def)

lemma upd_tc_simps [simp]:
  "trafficControl (upd_tc i f s) = (trafficControl s)(i := f (trafficControl s i))"
  "txWindow (upd_tc i f s) = txWindow s" "schdPara (upd_tc i f s) = schdPara s" "mem (upd_tc i f s) = mem s"
  "g_time (upd_tc i f s) = g_time s" "uid (upd_tc i f s) = uid s" "g_schdCfg (upd_tc i f s) = g_schdCfg s"
  "RxSubWin (upd_tc i f s) = RxSubWin s" "RxDataWin (upd_tc i f s) = RxDataWin s"
  "isAllFlowTrafficCtl (upd_tc i f s) = isAllFlowTrafficCtl s" "throuputTotal (upd_tc i f s) = throuputTotal s"
  "g_InhertDelay (upd_tc i f s) = g_InhertDelay s" "g_isMdelayMin (upd_tc i f s) = g_isMdelayMin s"
  "g_MminusPkt (upd_tc i f s) = g_MminusPkt s" "isMpStopSched (upd_tc i f s) = isMpStopSched s"
  "trace (upd_tc i f s) = trace s" "brk (upd_tc i f s) = brk s" "txDataSn (upd_tc i f s) = txDataSn s"
  by (simp_all add: upd_tc_def)

lemma upt_3: "[0..<NUM_SUBFLOW] = [0, 1, 2]"
  by (simp add: upt_conv_Cons)

lemma less_3: "i < NUM_SUBFLOW \<longleftrightarrow> i = 0 \<or> i = 1 \<or> i = (2::nat)"
  by auto

subsection \<open>Word arithmetic without wrap-around\<close>

lemma unat_mult_less: "unat (a :: U32) * unat b < 4294967296 \<Longrightarrow> unat (a * b) = unat a * unat b"
  by (simp add: unat_word_ariths)

lemma unat_add_less: "unat (a :: U32) + unat b < 4294967296 \<Longrightarrow> unat (a + b) = unat a + unat b"
  by (simp add: unat_word_ariths)

lemma unat_numerals:
  "unat (2 :: U32) = 2" "unat (3 :: U32) = 3" "unat (5 :: U32) = 5" "unat (6 :: U32) = 6"
  "unat (38 :: U32) = 38" "unat (50 :: U32) = 50" "unat (100 :: U32) = 100" "unat (10000 :: U32) = 10000"
  by simp_all

lemma word_gt_0_unat: "(0 :: U32) < x \<longleftrightarrow> 0 < unat x"
  by (simp add: word_less_nat_alt)

text \<open>
  The rate estimate of a valid subflow stays within a floor of 38 packets a second and any
  ceiling \<open>M\<close> that its inputs respect, and no division in the update can fail.
\<close>

lemma PktAvg_mix_le:
  assumes M: "M \<le> 10000000" and avg: "unat (PktAvg p) \<le> M" and cnt: "2 * unat (PktCnt p) \<le> M"
  shows "unat (PktAvg_mix 5 p) \<le> M"
proof -
  have t: "unat (PktCnt p * 100 div 50) = 2 * unat (PktCnt p)"
    using cnt M unat_mult_less[of "PktCnt p" 100] by (simp only: unat_div unat_numerals; simp)
  have m1: "unat (PktAvg p * 3) = 3 * unat (PktAvg p)"
    using avg M unat_mult_less[of "PktAvg p" 3] by (simp only: unat_numerals)
  have m2: "unat (2 * (PktCnt p * 100 div 50)) = 4 * unat (PktCnt p)"
    using cnt M unat_mult_less[of 2 "PktCnt p * 100 div 50"] by (simp only: t unat_numerals)
  have "PktAvg_mix 5 p = (PktAvg p * 3 + 2 * (PktCnt p * 100 div 50)) div 5"
    by (simp add: PktAvg_mix_def)
  then have "unat (PktAvg_mix 5 p) = (3 * unat (PktAvg p) + 4 * unat (PktCnt p)) div 5"
    using avg cnt M unat_add_less[of "PktAvg p * 3" "2 * (PktCnt p * 100 div 50)"]
    by (simp only: unat_div unat_numerals m1 m2; simp)
  then show ?thesis using avg cnt by simp
qed

lemma PktAvg_next_le:
  "M \<le> 10000000 \<Longrightarrow> unat (PktAvg p) \<le> M \<Longrightarrow> 2 * unat (PktCnt p) \<le> M \<Longrightarrow> unat (PktAvg_next 5 p) \<le> M"
  by (simp add: PktAvg_next_def PktAvg_mix_le)

lemma PktAvg_floor_bounds:
  assumes "57 \<le> M" and "unat a \<le> M"
  shows "38 \<le> unat (PktAvg_floor a)" "unat (PktAvg_floor a) \<le> M"
proof -
  have q3: "unat (a * 3 div 2) = unat a * 3 div 2" if "unat a < 38"
    using that unat_mult_less[of a 3] by (simp only: unat_div unat_numerals; simp)
  show "38 \<le> unat (PktAvg_floor a)" "unat (PktAvg_floor a) \<le> M"
    using assms q3 unfolding PktAvg_floor_def word_less_nat_alt unat_numerals by (auto split: if_splits)
qed

lemma pktAvgTmp_ge:
  assumes "38 \<le> unat a" and "unat a \<le> 10000000"
  shows "38 \<le> unat (pktAvgTmp 5 p a)"
proof -
  have m: "unat (a * 6 div 5) = unat a * 6 div 5"
    using assms unat_mult_less[of a 6] by (simp only: unat_div unat_numerals; simp)
  have "pktAvgTmp 5 p a = (if txWinEmptyCnt p > 0 then a * 6 div 5 else a)"
    by (simp add: pktAvgTmp_def)
  then have "unat (pktAvgTmp 5 p a) = unat a * 6 div 5 \<or> unat (pktAvgTmp 5 p a) = unat a"
    using m by presburger
  then show ?thesis using assms(1) by linarith
qed

lemma PktAvgUpdate_para_ok:
  assumes v: "isValid p \<noteq> 0" and M: "57 \<le> M" "M \<le> 10000000"
    and avg: "unat (PktAvg p) \<le> M" and cnt: "2 * unat (PktCnt p) \<le> M"
  shows "\<exists>m. PktAvgUpdate_para 5 p = Inr (p\<lparr>PktAvg := PktAvg_floor (PktAvg_next 5 p), ModifyFactor := m,
           PktCnt := 0, pktRetCnt := 0, PktChooseCnt := 0, txWinEmptyCnt := 0\<rparr>) \<and> unat m \<le> 263"
proof -
  define r where "r = PktAvg_floor (PktAvg_next 5 p)"
  have r: "38 \<le> unat r" "unat r \<le> 10000000"
    using PktAvg_floor_bounds[OF M(1) PktAvg_next_le[OF M(2) avg cnt]] M(2) by (simp_all add: r_def)
  define d where "d = pktAvgTmp 5 p r"
  have d: "38 \<le> unat d" using pktAvgTmp_ge[OF r] by (simp add: d_def)
  have nz: "d \<noteq> 0" "r \<noteq> 0" using d r(1) by (metis unat_0 not_numeral_le_zero)+
  have mf: "unat (10000 div d) \<le> 263"
    using div_le_mono2[of 38 "unat d" 10000] d by (simp only: unat_div unat_numerals; simp)
  have c5: "(ucast (5 :: U8) :: U32) = 5" by simp
  have "PktAvgUpdate_para 5 p = Inr (p\<lparr>PktAvg := r, ModifyFactor := 10000 div d, PktCnt := 0,
      pktRetCnt := 0, PktChooseCnt := 0, txWinEmptyCnt := 0\<rparr>)"
    unfolding PktAvgUpdate_para_def Let_def c5 r_def[symmetric] d_def[symmetric]
    using v nz by simp
  with mf show ?thesis unfolding r_def by blast
qed

text \<open>The update of all subflows, at the moments of its period.\<close>

definition pkt_rates_ok :: "nat \<Rightarrow> mpd_st \<Rightarrow> bool" where
  "pkt_rates_ok M s \<longleftrightarrow> scalePktV (g_schdCfg s) = 5 \<and>
     (\<forall>i<NUM_SUBFLOW. isValid (schdPara s i) \<noteq> 0 \<longrightarrow>
        unat (PktAvg (schdPara s i)) \<le> M \<and> 2 * unat (PktCnt (schdPara s i)) \<le> M)"

lemma PktAvgUpdate_flow_ok:
  assumes M: "57 \<le> M" "M \<le> 10000000" and s: "scalePktV (g_schdCfg s) = 5"
    and i: "isValid (schdPara s i) \<noteq> 0 \<longrightarrow> unat (PktAvg (schdPara s i)) \<le> M \<and> 2 * unat (PktCnt (schdPara s i)) \<le> M"
  shows "\<exists>p. PktAvgUpdate_flow i s = Inr (upd_para i (\<lambda>_. p) s) \<and> isValid p = isValid (schdPara s i) \<and>
     (isValid p \<noteq> 0 \<longrightarrow> 38 \<le> unat (PktAvg p) \<and> unat (PktAvg p) \<le> M \<and> PktCnt p = 0 \<and> unat (ModifyFactor p) \<le> 263)"
proof (cases "isValid (schdPara s i) = 0")
  case True
  then show ?thesis by (intro exI[of _ "schdPara s i"]) (simp add: PktAvgUpdate_flow_def PktAvgUpdate_para_def)
next
  case False
  note lim = mp[OF i False]
  obtain m where m: "PktAvgUpdate_para 5 (schdPara s i) = Inr ((schdPara s i)\<lparr>PktAvg :=
      PktAvg_floor (PktAvg_next 5 (schdPara s i)), ModifyFactor := m, PktCnt := 0, pktRetCnt := 0,
      PktChooseCnt := 0, txWinEmptyCnt := 0\<rparr>)" "unat m \<le> 263"
    using PktAvgUpdate_para_ok[OF False M] lim by blast
  have "PktAvgUpdate_flow i s = Inr (upd_para i (\<lambda>_. (schdPara s i)\<lparr>PktAvg :=
      PktAvg_floor (PktAvg_next 5 (schdPara s i)), ModifyFactor := m, PktCnt := 0, pktRetCnt := 0,
      PktChooseCnt := 0, txWinEmptyCnt := 0\<rparr>) s)"
    unfolding PktAvgUpdate_flow_def s m(1) by simp
  then show ?thesis
    using m(2) PktAvg_floor_bounds[OF M(1) PktAvg_next_le[OF M(2)], of "schdPara s i"] lim
    by (intro exI conjI) (assumption, simp_all)
qed

text \<open>
  C36: the rate update of a scheduling period keeps the rate estimate of every valid subflow
  between the floor of 38 packets a second and any ceiling that the old estimates and twice the
  packet counts respect; it resets the counts, keeps the set of valid subflows, and none of its
  divisions can fail.
\<close>

theorem PktAvgUpdate_bounds:
  assumes "57 \<le> M" and "M \<le> 10000000" and "pkt_rates_ok M s"
    and "g_time s mod T_PKT = uid s mod T_PKT"
  shows "\<exists>s'. MPD_SCHD_PktAvgUpdate s = Inr s' \<and> pkt_rates_ok M s' \<and>
     (\<forall>i<NUM_SUBFLOW. isValid (schdPara s' i) = isValid (schdPara s i) \<and>
        (isValid (schdPara s i) \<noteq> 0 \<longrightarrow> 38 \<le> unat (PktAvg (schdPara s' i)) \<and> PktCnt (schdPara s' i) = 0))"
proof -
  let ?P = "\<lambda>k (t :: mpd_st). scalePktV (g_schdCfg t) = 5 \<and> (\<forall>j. isValid (schdPara t j) = isValid (schdPara s j)) \<and>
     (\<forall>j\<ge>k. schdPara t j = schdPara s j) \<and>
     (\<forall>j<k. isValid (schdPara s j) \<noteq> 0 \<longrightarrow> 38 \<le> unat (PktAvg (schdPara t j)) \<and>
        unat (PktAvg (schdPara t j)) \<le> M \<and> PktCnt (schdPara t j) = 0)"
  have "\<exists>s'. forR PktAvgUpdate_flow [0..<NUM_SUBFLOW] s = Inr s' \<and> ?P NUM_SUBFLOW s'"
  proof (rule forR_upt)
    show "?P 0 s" using assms(3) by (simp add: pkt_rates_ok_def)
  next
    fix i t assume i: "i < NUM_SUBFLOW" and t: "?P i t"
    then have lim: "isValid (schdPara t i) \<noteq> 0 \<longrightarrow>
        unat (PktAvg (schdPara t i)) \<le> M \<and> 2 * unat (PktCnt (schdPara t i)) \<le> M"
      using assms(3) by (simp add: pkt_rates_ok_def)
    from PktAvgUpdate_flow_ok[OF assms(1,2) conjunct1[OF t] lim] obtain p where
      p: "PktAvgUpdate_flow i t = Inr (upd_para i (\<lambda>_. p) t)" "isValid p = isValid (schdPara t i)"
        "isValid p \<noteq> 0 \<longrightarrow> 38 \<le> unat (PktAvg p) \<and> unat (PktAvg p) \<le> M \<and> PktCnt p = 0"
      by blast
    show "\<exists>t'. PktAvgUpdate_flow i t = Inr t' \<and> ?P (Suc i) t'"
      by (rule exI[of _ "upd_para i (\<lambda>_. p) t"]) (use p t in \<open>simp add: less_Suc_eq\<close>)
  qed
  then obtain s' where s': "forR PktAvgUpdate_flow [0..<NUM_SUBFLOW] s = Inr s'" "?P NUM_SUBFLOW s'" by blast
  then have "MPD_SCHD_PktAvgUpdate s = Inr s'" using assms(4) by (simp only: MPD_SCHD_PktAvgUpdate_def refl if_True)
  moreover have "pkt_rates_ok M s'" using s'(2) by (simp add: pkt_rates_ok_def)
  ultimately show ?thesis using s'(2) by (intro exI conjI) auto
qed

subsection \<open>Traffic control\<close>

lemma tc_scale_bounds: "90 \<le> scaleFactor (tc_scale loss sent c)" "scaleFactor (tc_scale loss sent c) \<le> 110"
  by (simp_all add: tc_scale_def Let_def not_less)

lemma tc_scale_keeps [simp]:
  "throuputLimit (tc_scale loss sent c) = throuputLimit c" "isTrafficCtl (tc_scale loss sent c) = isTrafficCtl c"
  "isPktTxStop (tc_scale loss sent c) = isPktTxStop c"
  by (simp_all add: tc_scale_def Let_def)

lemma tc_accel_keeps [simp]:
  "throuputLimit (tc_accel c) = throuputLimit c" "isTrafficCtl (tc_accel c) = isTrafficCtl c"
  "isPktTxStop (tc_accel c) = isPktTxStop c" "scaleFactor (tc_accel c) = scaleFactor c"
  by (simp_all add: tc_accel_def Let_def)

lemma tc_decide_ok:
  assumes "tc_decide loss sent ecnt avg c = (c', setTime, notAll)" and "\<not> isTrafficCtl c"
  shows "isTrafficCtl c' \<longleftrightarrow> \<not> notAll" "scaleFactor c' = scaleFactor c" "isPktTxStop c' = isPktTxStop c"
    "10 \<le> throuputLimit c \<Longrightarrow> 10 \<le> throuputLimit c'"
  using assms by (auto simp: tc_decide_def Let_def not_less split: if_splits)

text \<open>What the control step does to the block of a valid subflow.\<close>

lemma TrafficControl_flow_valid:
  assumes v: "isValid (schdPara s i) \<noteq> 0" and sc: "scalePktV (g_schdCfg s) \<noteq> 0"
  shows "\<exists>c tm. TrafficControl_flow i s = Inr (upd_tc i (\<lambda>_. c)
       (s\<lparr>trafficCtlTime := tm, isAllFlowTrafficCtl := isAllFlowTrafficCtl s \<and> isTrafficCtl c,
          throuputTotal := throuputTotal s + throuputLimit c\<rparr>)) \<and>
     90 \<le> scaleFactor c \<and> scaleFactor c \<le> 110 \<and> \<not> isPktTxStop c \<and> pktCntTx c = 0 \<and>
     (10 \<le> throuputLimit (trafficControl s i) \<longrightarrow> 10 \<le> throuputLimit c)"
proof -
  let ?sc = "ucast (scalePktV (g_schdCfg s)) :: U32"
  define c0 where "c0 = (trafficControl s i)\<lparr>isTrafficCtl := False, isPktTxStop := False\<rparr>"
  define sent where "sent = (of_nat (DISTANCESN (ssnBegin c0) (ssnEnd c0)) :: U32)"
  define c1 where "c1 = tc_accel (tc_scale (pktLossCnt c0) sent (c0\<lparr>ssnBegin := ssnEnd c0\<rparr>))"
  define avg where "avg = (pktRateAvg c1 * (?sc - 2) + 2 * pktRate c1) div ?sc"
  define c2 where "c2 = c1\<lparr>pktRateAvg := avg\<rparr>"
  define avg' where "avg' = (if avg < pktRate c2 then pktRate c2 else avg)"
  obtain c3 setTime notAll where d:
    "tc_decide (pktLossCnt c0) sent (txWinEmptyCnt (schdPara s i)) avg' c2 = (c3, setTime, notAll)"
    by (cases "tc_decide (pktLossCnt c0) sent (txWinEmptyCnt (schdPara s i)) avg' c2") auto
  let ?c = "c3\<lparr>pktLossCnt := 0, pktCntTx := 0, pktRate := 0, sackNum := 0\<rparr>"
  have c2: "\<not> isTrafficCtl c2" "\<not> isPktTxStop c2" "throuputLimit c2 = throuputLimit (trafficControl s i)"
    "90 \<le> scaleFactor c2" "scaleFactor c2 \<le> 110"
    by (simp_all add: c2_def c1_def c0_def tc_scale_bounds)
  note k = tc_decide_ok[OF d c2(1)]
  have "TrafficControl_flow i s = Inr (upd_tc i (\<lambda>_. ?c)
      (s\<lparr>trafficCtlTime := (if setTime then g_time s else trafficCtlTime s),
         isAllFlowTrafficCtl := (if notAll then False else isAllFlowTrafficCtl s),
         throuputTotal := throuputTotal s + throuputLimit c3\<rparr>))"
    unfolding TrafficControl_flow_def Let_def c0_def[symmetric] sent_def[symmetric] c1_def[symmetric]
      avg_def[symmetric] c2_def[symmetric] avg'_def[symmetric]
    using v sc d by simp
  moreover have "(if notAll then False else isAllFlowTrafficCtl s) = (isAllFlowTrafficCtl s \<and> isTrafficCtl ?c)"
    using k(1) by simp
  moreover have "90 \<le> scaleFactor ?c" "scaleFactor ?c \<le> 110" "\<not> isPktTxStop ?c"
    "10 \<le> throuputLimit (trafficControl s i) \<longrightarrow> 10 \<le> throuputLimit ?c"
    using k c2 by simp_all
  ultimately show ?thesis
    by (intro exI[of _ ?c] exI[of _ "if setTime then g_time s else trafficCtlTime s"] conjI) simp_all
qed

definition valid_limit :: "mpd_st \<Rightarrow> nat \<Rightarrow> U32" where
  "valid_limit s i = (if isValid (schdPara s i) = 0 then 0 else throuputLimit (trafficControl s i))"

text \<open>
  C35: a traffic-control period succeeds; afterwards the session counts as limited on all subflows
  exactly when every valid subflow is limited, the total throughput is the sum of the limits of the
  valid subflows, every growth factor is between 90 and 110 percent, no subflow is stopped, and a
  limit of at least ten packets stays one.
\<close>

theorem TrafficControl_summary:
  assumes "g_isTrafficCtl s \<noteq> 0" and "scalePktV (g_schdCfg s) \<noteq> 0"
    and "g_time s mod T_TC_PERIOD = uid s mod T_TC_PERIOD"
  shows "\<exists>s'. MPD_TrafficControl s = Inr s' \<and> schdPara s' = schdPara s \<and> \<not> isMpStopSched s' \<and>
     (isAllFlowTrafficCtl s' \<longleftrightarrow>
        (\<forall>i<NUM_SUBFLOW. isValid (schdPara s i) \<noteq> 0 \<longrightarrow> isTrafficCtl (trafficControl s' i))) \<and>
     throuputTotal s' = (\<Sum>i<NUM_SUBFLOW. valid_limit s' i) \<and>
     (\<forall>i<NUM_SUBFLOW. isValid (schdPara s i) \<noteq> 0 \<longrightarrow>
        90 \<le> scaleFactor (trafficControl s' i) \<and> scaleFactor (trafficControl s' i) \<le> 110 \<and>
        \<not> isPktTxStop (trafficControl s' i) \<and> pktCntTx (trafficControl s' i) = 0 \<and>
        (10 \<le> throuputLimit (trafficControl s i) \<longrightarrow> 10 \<le> throuputLimit (trafficControl s' i)))"
proof -
  let ?ok = "\<lambda>c c'. 90 \<le> scaleFactor c' \<and> scaleFactor c' \<le> 110 \<and> \<not> isPktTxStop c' \<and> pktCntTx c' = 0 \<and>
        (10 \<le> throuputLimit c \<longrightarrow> 10 \<le> throuputLimit c')"
  let ?P = "\<lambda>k (t :: mpd_st). schdPara t = schdPara s \<and> g_schdCfg t = g_schdCfg s \<and> \<not> isMpStopSched t \<and>
     (\<forall>j\<ge>k. trafficControl t j = trafficControl s j) \<and>
     (isAllFlowTrafficCtl t \<longleftrightarrow> (\<forall>i<k. isValid (schdPara s i) \<noteq> 0 \<longrightarrow> isTrafficCtl (trafficControl t i))) \<and>
     throuputTotal t = (\<Sum>i<k. valid_limit t i) \<and>
     (\<forall>i<k. isValid (schdPara s i) \<noteq> 0 \<longrightarrow> ?ok (trafficControl s i) (trafficControl t i))"
  let ?s0 = "s\<lparr>isAllFlowTrafficCtl := True, throuputTotal := 0, isMpStopSched := False\<rparr>"
  have "\<exists>s'. forR TrafficControl_flow [0..<NUM_SUBFLOW] ?s0 = Inr s' \<and> ?P NUM_SUBFLOW s'"
  proof (rule forR_upt)
    show "?P 0 ?s0" by simp
  next
    fix i t assume i: "i < NUM_SUBFLOW" and t: "?P i t"
    show "\<exists>t'. TrafficControl_flow i t = Inr t' \<and> ?P (Suc i) t'"
    proof (cases "isValid (schdPara s i) = 0")
      case True
      then show ?thesis
        using t by (intro exI[of _ t]) (auto simp: TrafficControl_flow_def less_Suc_eq valid_limit_def)
    next
      case False
      then obtain c tm where c: "TrafficControl_flow i t = Inr (upd_tc i (\<lambda>_. c)
         (t\<lparr>trafficCtlTime := tm, isAllFlowTrafficCtl := isAllFlowTrafficCtl t \<and> isTrafficCtl c,
          throuputTotal := throuputTotal t + throuputLimit c\<rparr>))" "?ok (trafficControl s i) c"
        using TrafficControl_flow_valid[of t i] t assms(2) by auto
      define u where "u = upd_tc i (\<lambda>_. c) (t\<lparr>trafficCtlTime := tm,
          isAllFlowTrafficCtl := isAllFlowTrafficCtl t \<and> isTrafficCtl c,
          throuputTotal := throuputTotal t + throuputLimit c\<rparr>)"
      have u: "schdPara u = schdPara t" "g_schdCfg u = g_schdCfg t" "isMpStopSched u = isMpStopSched t"
        "trafficControl u = (trafficControl t)(i := c)" "throuputTotal u = throuputTotal t + throuputLimit c"
        "isAllFlowTrafficCtl u \<longleftrightarrow> isAllFlowTrafficCtl t \<and> isTrafficCtl c"
        by (simp_all add: u_def)
      have sum: "(\<Sum>j<i. valid_limit u j) = (\<Sum>j<i. valid_limit t j)"
        by (rule sum.cong) (simp_all add: valid_limit_def u)
      have "valid_limit u i = throuputLimit c" using t False by (simp add: valid_limit_def u)
      then have "throuputTotal u = (\<Sum>j<Suc i. valid_limit u j)" using t by (simp add: sum u(5))
      moreover have "isAllFlowTrafficCtl u \<longleftrightarrow>
          (\<forall>j<Suc i. isValid (schdPara s j) \<noteq> 0 \<longrightarrow> isTrafficCtl (trafficControl u j))"
        using t False by (auto simp: u less_Suc_eq)
      ultimately have "?P (Suc i) u"
        using t c(2) by (intro conjI) (assumption | simp add: u less_Suc_eq)+
      with c(1) show ?thesis unfolding u_def by blast
    qed
  qed
  then obtain s' where s': "forR TrafficControl_flow [0..<NUM_SUBFLOW] ?s0 = Inr s'" "?P NUM_SUBFLOW s'" by blast
  then have "MPD_TrafficControl s = Inr s'"
    using assms by (simp only: MPD_TrafficControl_def refl if_True if_False)
  with s'(2) show ?thesis by (intro exI[of _ s'] conjI) simp_all
qed

subsection \<open>The choice\<close>

text \<open>
  A subflow is a candidate when it is valid and not stopped by traffic control; its cost is what
  the loop computes for it from the state at the call. \<open>pick k\<close> is the choice among the first \<open>k\<close>.
\<close>

definition candidate :: "mpd_st \<Rightarrow> nat \<Rightarrow> bool" where
  "candidate s i \<longleftrightarrow> isValid (schdPara s i) \<noteq> 0 \<and>
     \<not> (isTrafficCtl (trafficControl s i) \<and> isPktTxStop (trafficControl s i))"

definition cost :: "mpd_st \<Rightarrow> nat \<Rightarrow> U32" where
  "cost s i = flow_cost i (fst (MPD_getHistAcnt i s)) s"

definition below_limit :: "mpd_st \<Rightarrow> nat \<Rightarrow> bool" where
  "below_limit s i \<longleftrightarrow> candidate s i \<and>
     (isTrafficCtl (trafficControl s i) \<longrightarrow> pktCntTx (trafficControl s i) < throuputLimit (trafficControl s i))"

fun pick :: "mpd_st \<Rightarrow> nat \<Rightarrow> U32 \<times> nat" where
  "pick s 0 = (0xFFFFFFFF, INVALID_STREAM)"
| "pick s (Suc k) = (if candidate s k \<and> cost s k < fst (pick s k) then (cost s k, k) else pick s k)"

lemma pick_cases:
  "(pick s k = (0xFFFFFFFF, INVALID_STREAM) \<and> (\<forall>i<k. candidate s i \<longrightarrow> cost s i = 0xFFFFFFFF)) \<or>
   (\<exists>r<k. pick s k = (cost s r, r) \<and> cost s r < 0xFFFFFFFF \<and> candidate s r \<and>
      (\<forall>i<k. candidate s i \<longrightarrow> cost s r \<le> cost s i) \<and> (\<forall>i<r. candidate s i \<longrightarrow> cost s r < cost s i))"
proof (induction k)
  case (Suc k)
  have top: "x < 0xFFFFFFFF \<longleftrightarrow> x \<noteq> 0xFFFFFFFF" for x :: U32
  proof -
    have "(0xFFFFFFFF :: U32) = - 1" by simp
    then show ?thesis using word_order.not_eq_extremum[of x] by metis
  qed
  have le: "x \<le> 0xFFFFFFFF" for x :: U32
    using top[of x] by (cases "x = 0xFFFFFFFF") auto
  from Suc.IH show ?case
  proof (elim disjE exE conjE)
    assume "pick s k = (0xFFFFFFFF, INVALID_STREAM)" "\<forall>i<k. candidate s i \<longrightarrow> cost s i = 0xFFFFFFFF"
    then show ?thesis by (cases "candidate s k \<and> cost s k \<noteq> 0xFFFFFFFF") (auto simp: top le less_Suc_eq)
  next
    fix r assume r: "r < k" "pick s k = (cost s r, r)" "cost s r < 0xFFFFFFFF" "candidate s r"
      "\<forall>i<k. candidate s i \<longrightarrow> cost s r \<le> cost s i" "\<forall>i<r. candidate s i \<longrightarrow> cost s r < cost s i"
    show ?thesis
    proof (cases "candidate s k \<and> cost s k < cost s r")
      case True
      with r show ?thesis
        by (intro disjI2 exI[of _ k]) (auto simp: less_Suc_eq intro: less_trans less_imp_le order.strict_trans2)
    next
      case False
      with r show ?thesis by (intro disjI2 exI[of _ r]) (auto simp: less_Suc_eq not_less)
    qed
  qed
qed simp

text \<open>Steps of the loop do not disturb the later subflows.\<close>

definition agree_from :: "nat \<Rightarrow> mpd_st \<Rightarrow> mpd_st \<Rightarrow> bool" where
  "agree_from k s t \<longleftrightarrow> schdPara t = schdPara s \<and> g_time t = g_time s \<and>
     g_InhertDelay t = g_InhertDelay s \<and> g_isMdelayMin t = g_isMdelayMin s \<and> g_MminusPkt t = g_MminusPkt s \<and>
     (\<forall>j\<ge>k. txWindow t j = txWindow s j \<and> trafficControl t j = trafficControl s j)"

lemma getHistAcnt_dep:
  "txWindow t k = txWindow s k \<Longrightarrow> g_time t = g_time s \<Longrightarrow> schdPara t = schdPara s \<Longrightarrow>
   fst (MPD_getHistAcnt k t) = fst (MPD_getHistAcnt k s)"
  by (simp add: MPD_getHistAcnt_def Let_def)

lemma getHistAcnt_frame: "\<exists>W. snd (MPD_getHistAcnt k t) = t\<lparr>txWindow := (txWindow t)(k := W)\<rparr>"
proof -
  have "snd (MPD_getHistAcnt k t) = t \<or> (\<exists>f. snd (MPD_getHistAcnt k t) = upd_tx k f t)"
    by (auto simp: MPD_getHistAcnt_def Let_def)
  moreover have "t = t\<lparr>txWindow := (txWindow t)(k := txWindow t k)\<rparr>" by simp
  ultimately show ?thesis unfolding upd_tx_def by metis
qed

lemma flow_cost_agree:
  "agree_from k s t \<Longrightarrow> flow_cost j h t = flow_cost j h s"
  unfolding agree_from_def flow_cost_def Let_def by (elim conjE) (simp only:)

lemma agree_from_mono: "agree_from k s t \<Longrightarrow> agree_from (Suc k) s t"
  by (simp add: agree_from_def)

text \<open>What one iteration does, seen from the state at the call.\<close>

lemma ChooseStream_flow_ok:
  assumes t: "agree_from k s t"
  shows "\<exists>t'. ChooseStream_flow k (fst (pick s k), snd (pick s k), t) =
              (fst (pick s (Suc k)), snd (pick s (Suc k)), t') \<and> agree_from (Suc k) s t' \<and>
              (isMpStopSched t' \<longleftrightarrow> isMpStopSched t \<and> \<not> below_limit s k) \<and>
              (\<forall>i. pktCntTx (trafficControl t' i) = pktCntTx (trafficControl t i))"
proof (cases "candidate s k")
  case False
  then have "ChooseStream_flow k (fst (pick s k), snd (pick s k), t) = (fst (pick s k), snd (pick s k), t)"
    using t by (auto simp: ChooseStream_flow_def candidate_def agree_from_def Let_def)
  with False t show ?thesis
    by (intro exI[of _ t]) (simp add: agree_from_mono below_limit_def)
next
  case True
  let ?c = "trafficControl t k"
  have c: "trafficControl t k = trafficControl s k" "schdPara t k = schdPara s k"
    using t by (simp_all add: agree_from_def)
  define t1 where "t1 = (if isTrafficCtl ?c then (if pktCntTx ?c \<ge> throuputLimit ?c
       then upd_tc k (\<lambda>c. c\<lparr>isPktTxStop := True\<rparr>) t else t\<lparr>isMpStopSched := False\<rparr>)
       else t\<lparr>isMpStopSched := False\<rparr>)"
  let ?t2 = "snd (MPD_getHistAcnt k t1)"
  have cnt: "pktCntTx (trafficControl t1 i) = pktCntTx (trafficControl t i)" for i
    by (simp add: t1_def)
  have stop: "isMpStopSched t1 \<longleftrightarrow> isMpStopSched t \<and> \<not> below_limit s k"
    using True c by (auto simp: t1_def below_limit_def not_le)
  have t1: "txWindow t1 = txWindow t" "g_time t1 = g_time t" "schdPara t1 = schdPara t"
    "g_InhertDelay t1 = g_InhertDelay t" "g_isMdelayMin t1 = g_isMdelayMin t" "g_MminusPkt t1 = g_MminusPkt t"
    "j \<noteq> k \<Longrightarrow> trafficControl t1 j = trafficControl t j" for j
    by (simp_all add: t1_def)
  obtain W where W: "?t2 = t1\<lparr>txWindow := (txWindow t1)(k := W)\<rparr>" using getHistAcnt_frame by blast
  have hist: "fst (MPD_getHistAcnt k t1) = fst (MPD_getHistAcnt k s)"
    using t by (intro getHistAcnt_dep) (simp_all add: t1 agree_from_def)
  have t2: "agree_from (Suc k) s ?t2" "isMpStopSched ?t2 = isMpStopSched t1"
    "trafficControl ?t2 = trafficControl t1"
    using t unfolding W by (simp_all add: agree_from_def t1)
  have cst: "flow_cost k (fst (MPD_getHistAcnt k t1)) ?t2 = cost s k"
    using flow_cost_agree[OF t2(1)] by (simp add: cost_def hist)
  have "ChooseStream_flow k (fst (pick s k), snd (pick s k), t) =
     (if cost s k < fst (pick s k) then (cost s k, k, ?t2) else (fst (pick s k), snd (pick s k), ?t2))"
    using True unfolding ChooseStream_flow_def prod.case Let_def t1_def[symmetric] cst[symmetric]
    by (auto simp: candidate_def c case_prod_beta)
  with True t2 stop cnt show ?thesis
    by (intro exI[of _ ?t2]) simp
qed

lemma ChooseStream_fold:
  "\<exists>t. fold ChooseStream_flow [0..<NUM_SUBFLOW] (0xFFFFFFFF, INVALID_STREAM, s\<lparr>isMpStopSched := True\<rparr>)
         = (fst (pick s NUM_SUBFLOW), snd (pick s NUM_SUBFLOW), t) \<and> agree_from NUM_SUBFLOW s t \<and>
       (isMpStopSched t \<longleftrightarrow> (\<forall>i<NUM_SUBFLOW. \<not> below_limit s i)) \<and>
       (\<forall>i. pktCntTx (trafficControl t i) = pktCntTx (trafficControl s i))"
proof -
  let ?P = "\<lambda>k acc. \<exists>t. acc = (fst (pick s k), snd (pick s k), t) \<and> agree_from k s t \<and>
       (isMpStopSched t \<longleftrightarrow> (\<forall>i<k. \<not> below_limit s i)) \<and>
       (\<forall>i. pktCntTx (trafficControl t i) = pktCntTx (trafficControl s i))"
  have "?P NUM_SUBFLOW (fold ChooseStream_flow [0..<NUM_SUBFLOW] (0xFFFFFFFF, INVALID_STREAM, s\<lparr>isMpStopSched := True\<rparr>))"
  proof (rule fold_upt)
    show "?P 0 (0xFFFFFFFF, INVALID_STREAM, s\<lparr>isMpStopSched := True\<rparr>)"
      by (simp add: agree_from_def)
  next
    fix k acc assume "?P k acc"
    then obtain t where t: "acc = (fst (pick s k), snd (pick s k), t)" "agree_from k s t"
      "isMpStopSched t \<longleftrightarrow> (\<forall>i<k. \<not> below_limit s i)"
      "\<forall>i. pktCntTx (trafficControl t i) = pktCntTx (trafficControl s i)" by blast
    with ChooseStream_flow_ok[OF t(2)] show "?P (Suc k) (ChooseStream_flow k acc)"
      by (metis less_Suc_eq)
  qed
  then show ?thesis by blast
qed

text \<open>
  C2: when some candidate has a cost below the initial bound, the scheduler returns a candidate of
  least cost, the first of them on ties, counts the packet on it, marks it as sending, and raises
  the stop flag exactly when no candidate is below its limit.
\<close>

theorem ChooseStream_least_cost:
  assumes "i < NUM_SUBFLOW" and "candidate s i" and "cost s i \<noteq> 0xFFFFFFFF"
  shows "\<exists>r s'. MPD_SCHD_ChooseStream s = Inr (r, s') \<and> r < NUM_SUBFLOW \<and> candidate s r \<and>
     (\<forall>j<NUM_SUBFLOW. candidate s j \<longrightarrow> cost s r \<le> cost s j) \<and>
     (\<forall>j<r. candidate s j \<longrightarrow> cost s r < cost s j) \<and>
     isSendPkt (schdPara s' r) \<and>
     (\<forall>j. pktCntTx (trafficControl s' j) = pktCntTx (trafficControl s j) + (if j = r then 1 else 0)) \<and>
     (isMpStopSched s' \<longleftrightarrow> (\<forall>j<NUM_SUBFLOW. \<not> below_limit s j))"
proof -
  obtain r where r: "r < NUM_SUBFLOW" "pick s NUM_SUBFLOW = (cost s r, r)" "candidate s r"
    "\<forall>j<NUM_SUBFLOW. candidate s j \<longrightarrow> cost s r \<le> cost s j" "\<forall>j<r. candidate s j \<longrightarrow> cost s r < cost s j"
    using pick_cases[of s NUM_SUBFLOW] assms by blast
  obtain t where t: "fold ChooseStream_flow [0..<NUM_SUBFLOW] (0xFFFFFFFF, INVALID_STREAM, s\<lparr>isMpStopSched := True\<rparr>)
         = (cost s r, r, t)" "isMpStopSched t \<longleftrightarrow> (\<forall>i<NUM_SUBFLOW. \<not> below_limit s i)"
    "\<forall>i. pktCntTx (trafficControl t i) = pktCntTx (trafficControl s i)"
    using ChooseStream_fold[of s] r(2) by auto
  let ?s' = "upd_tc r (\<lambda>c. c\<lparr>pktCntTx := pktCntTx c + 1\<rparr>)
      (upd_para r (\<lambda>p. p\<lparr>isSendPkt := True, PktChooseCnt := PktChooseCnt p + 1\<rparr>) t)"
  have "MPD_SCHD_ChooseStream s = Inr (r, ?s')"
    using r(1) unfolding MPD_SCHD_ChooseStream_def t(1) by simp
  with r t(2,3) show ?thesis by (intro exI[of _ r] exI[of _ ?s']) (simp add: upd_para_def)
qed

text \<open>
  With no candidate of smaller cost than the bound (in particular with every subflow invalid or
  stopped) the code indexes its tables with the number 255 of no subflow.
\<close>

theorem ChooseStream_no_candidate:
  assumes "\<forall>i<NUM_SUBFLOW. candidate s i \<longrightarrow> cost s i = 0xFFFFFFFF"
  shows "MPD_SCHD_ChooseStream s = Inl OutOfBounds"
proof -
  have "snd (pick s NUM_SUBFLOW) = INVALID_STREAM"
    using pick_cases[of s NUM_SUBFLOW] assms by auto
  then obtain m t where "fold ChooseStream_flow [0..<NUM_SUBFLOW]
      (0xFFFFFFFF, INVALID_STREAM, s\<lparr>isMpStopSched := True\<rparr>) = (m, INVALID_STREAM, t)"
    using ChooseStream_fold[of s] by auto
  then show ?thesis unfolding MPD_SCHD_ChooseStream_def by simp
qed

lemma DelayUpdate_para_ge:
  "isValid p \<noteq> 0 \<Longrightarrow> isRttUpdate p \<Longrightarrow> InhertDelay p \<noteq> 0 \<Longrightarrow> 5 \<le> InhertDelay (DelayUpdate_para p)"
  by (simp add: DelayUpdate_para_def Let_def not_less)

section \<open>Instances\<close>

text \<open>A configured session whose first two subflows are valid, at a time of every period.\<close>

definition schd_demo :: mpd_st where
  "schd_demo = (MPD_SCHD_CfgInit st_zero)\<lparr>g_isTrafficCtl := 1,
     schdPara := (\<lambda>i. para_zero\<lparr>isValid := (if i < 2 then 1 else 0), PktAvg := 128, PktCnt := 10,
        InhertDelay := (if i = 0 then 20 else 7)\<rparr>)\<rparr>"

lemma schd_demo_simps:
  "scalePktV (g_schdCfg schd_demo) = 5" "g_time schd_demo = 0" "uid schd_demo = 0" "g_isTrafficCtl schd_demo = 1"
  "schdPara schd_demo i = para_zero\<lparr>isValid := (if i < 2 then 1 else 0), PktAvg := 128, PktCnt := 10,
        InhertDelay := (if i = 0 then 20 else 7)\<rparr>"
  "txWindow schd_demo = (\<lambda>_. txwin_zero)" "trafficControl schd_demo = (\<lambda>_. tc_zero)"
  "g_isMdelayMin schd_demo = 0" "g_MminusPkt schd_demo = 0"
  by (simp_all add: schd_demo_def MPD_SCHD_CfgInit_def st_zero_def user_zero_def stUserInfo.defs mpd_st.defs)

theorem PktAvgUpdate_bounds_witness:
  "\<exists>s'. MPD_SCHD_PktAvgUpdate schd_demo = Inr s' \<and> 38 \<le> unat (PktAvg (schdPara s' 1)) \<and> pkt_rates_ok 1000 s'"
proof -
  have "pkt_rates_ok 1000 schd_demo" "g_time schd_demo mod T_PKT = uid schd_demo mod T_PKT"
    by (simp_all add: pkt_rates_ok_def schd_demo_simps)
  from PktAvgUpdate_bounds[OF _ _ this] obtain s' where s': "MPD_SCHD_PktAvgUpdate schd_demo = Inr s'"
    "pkt_rates_ok 1000 s'"
    "\<forall>i<NUM_SUBFLOW. isValid (schdPara s' i) = isValid (schdPara schd_demo i) \<and>
        (isValid (schdPara schd_demo i) \<noteq> 0 \<longrightarrow> 38 \<le> unat (PktAvg (schdPara s' i)) \<and> PktCnt (schdPara s' i) = 0)"
    by auto
  have "38 \<le> unat (PktAvg (schdPara s' 1))" using s'(3) by (auto simp: schd_demo_simps)
  with s'(1,2) show ?thesis by blast
qed

theorem TrafficControl_summary_witness:
  "\<exists>s'. MPD_TrafficControl schd_demo = Inr s' \<and>
     (isAllFlowTrafficCtl s' \<longleftrightarrow> isTrafficCtl (trafficControl s' 0) \<and> isTrafficCtl (trafficControl s' 1))"
proof -
  have "g_isTrafficCtl schd_demo \<noteq> 0" "scalePktV (g_schdCfg schd_demo) \<noteq> 0"
    "g_time schd_demo mod T_TC_PERIOD = uid schd_demo mod T_TC_PERIOD"
    by (simp_all add: schd_demo_simps)
  from TrafficControl_summary[OF this] obtain s' where s': "MPD_TrafficControl schd_demo = Inr s'"
    "isAllFlowTrafficCtl s' \<longleftrightarrow>
        (\<forall>i<NUM_SUBFLOW. isValid (schdPara schd_demo i) \<noteq> 0 \<longrightarrow> isTrafficCtl (trafficControl s' i))"
    by blast
  then have "isAllFlowTrafficCtl s' \<longleftrightarrow> isTrafficCtl (trafficControl s' 0) \<and> isTrafficCtl (trafficControl s' 1)"
    by (auto simp: schd_demo_simps less_3)
  with s'(1) show ?thesis by blast
qed

theorem ChooseStream_least_cost_witness:
  "\<exists>s'. MPD_SCHD_ChooseStream schd_demo = Inr (1, s')"
proof -
  have hist: "fst (MPD_getHistAcnt i schd_demo) = 0" for i
    by (simp add: MPD_getHistAcnt_def schd_demo_simps txwin_zero_def)
  have c: "candidate schd_demo 0" "candidate schd_demo 1" "\<not> candidate schd_demo 2"
    by (simp_all add: candidate_def schd_demo_simps tc_zero_def)
  have cost: "cost schd_demo 0 = 20" "cost schd_demo 1 = 7"
    by (simp_all add: cost_def hist flow_cost_def schd_demo_simps Let_def)
  from ChooseStream_least_cost[of 1 schd_demo] c cost obtain r s' where r:
    "MPD_SCHD_ChooseStream schd_demo = Inr (r, s')" "r < NUM_SUBFLOW" "candidate schd_demo r"
    "\<forall>j<NUM_SUBFLOW. candidate schd_demo j \<longrightarrow> cost schd_demo r \<le> cost schd_demo j"
    by auto
  have "r \<noteq> 2" using r(3) c(3) by auto
  moreover have "cost schd_demo r \<le> 7" using r(4)[rule_format, of 1] c(2) cost by simp
  then have "r \<noteq> 0" using cost(1) by (cases "r = 0") auto
  ultimately have "r = 1" using r(2) by auto
  with r(1) show ?thesis by blast
qed

theorem ChooseStream_no_candidate_witness: "MPD_SCHD_ChooseStream st_zero = Inl OutOfBounds"
  by (rule ChooseStream_no_candidate)
    (simp add: candidate_def st_zero_def user_zero_def stUserInfo.defs mpd_st.defs para_zero_def)

end
