(* ===== verification/MPD_Send.thy ===== *)
theory MPD_Send
  imports MPD_Schd MPD_RxSub
begin

text \<open>
  Sending (\<^verbatim>\<open>mpd_tx.c\<close>): the split of a long packet in two, the header, the queue in which
  packets wait while traffic control holds them back, and the two senders: the one the
  application calls and the periodic one that empties the queue.
\<close>

section \<open>Splitting a packet\<close>

abbreviation LEN_DATA_TH :: int where "LEN_DATA_TH \<equiv> 1480"
abbreviation LEN_FIRST_DATA_FRAG :: nat where "LEN_FIRST_DATA_FRAG \<equiv> 1000"

record stDataFragmentRec =
  pFirstBlockAddr :: addr
  firstBlockLength :: int
  pLastBlockAddr :: addr
  lastBlockLength :: int

text \<open>The result is \<open>None\<close> when the function leaves the record unwritten or half written.\<close>

definition MPD_SplitDataMem ::
    "rat_env \<Rightarrow> addr \<Rightarrow> int \<Rightarrow> mpd_st \<Rightarrow> (int \<times> stDataFragmentRec option \<times> mpd_st) res" where
  "MPD_SplitDataMem env dataAddr len s =
     (if len < int LEN_FIRST_DATA_FRAG then Inr (-1, None, s)
      else case MPD_MsgMemCreat env (LEN_FIRST_DATA_FRAG + LEN_MPD_HEADER) s of (a1, s) \<Rightarrow>
        if a1 = 0 then Inr (-2, None, s)
        else bindR (mem_read s dataAddr 0 (LEN_FIRST_DATA_FRAG + LEN_MPD_HEADER)) (\<lambda>bs.
             bindR (mem_write a1 0 bs s) (\<lambda>s.
               let lastLen = nat len - LEN_FIRST_DATA_FRAG
               in case MPD_MsgMemCreat env lastLen s of (a2, s) \<Rightarrow>
                    if a2 = 0
                    then bindR (MPD_MsgMemfree a1 s) (\<lambda>s. Inr (-3, None, s))
                    else if lastLen < LEN_MPD_HEADER then Inl OutOfBounds
                    else bindR (mem_read s dataAddr (LEN_FIRST_DATA_FRAG + LEN_MPD_HEADER) (lastLen - LEN_MPD_HEADER)) (\<lambda>bs.
                         bindR (mem_write a2 LEN_MPD_HEADER bs s) (\<lambda>s.
                         bindR (MPD_MsgMemfree dataAddr s) (\<lambda>s.
                           Inr (0, Some \<lparr>pFirstBlockAddr = a1,
                                  firstBlockLength = int (LEN_FIRST_DATA_FRAG + LEN_MPD_HEADER),
                                  pLastBlockAddr = a2, lastBlockLength = int lastLen\<rparr>, s)))))))"

section \<open>Header and transmission\<close>

definition MPD_fillMPDHeader :: "nat \<Rightarrow> addr \<Rightarrow> U8 \<Rightarrow> mpd_st \<Rightarrow> mpd_st res" where
  "MPD_fillMPDHeader flowId dataAddr frag s =
     (case MPD_GetSubFlowAck flowId s of (ack, s) \<Rightarrow>
        bindR (mem_write dataAddr 0 (mpd_header frag (of_nat flowId) (of_nat (LEN_MPD_HEADER div 4))
                 (txDataSn s) (subflowSn (txWindow s flowId)) ack (uid s)) s)
          (\<lambda>s. Inr (upd_tx flowId (\<lambda>w. w\<lparr>subflowSn := subflowSn w + 1\<rparr>) (s\<lparr>txDataSn := txDataSn s + 1\<rparr>))))"

text \<open>The three calls that both senders make for one buffer.\<close>

definition send_block :: "rat_env \<Rightarrow> nat \<Rightarrow> addr \<Rightarrow> int \<Rightarrow> U8 \<Rightarrow> mpd_st \<Rightarrow> (int \<times> mpd_st) res" where
  "send_block env flowId a len frag s =
     bindR (MPD_fillMPDHeader flowId a frag s) (\<lambda>s.
     bindR (MPD_putDataToTxWin flowId a len s) (\<lambda>(i, s).
       MPD_callMPCToSend env flowId i s))"

text \<open>The two parts of a split packet share one data sequence number.\<close>

definition send_packet ::
    "rat_env \<Rightarrow> nat \<Rightarrow> stDataFragmentRec option \<Rightarrow> addr \<Rightarrow> int \<Rightarrow> mpd_st \<Rightarrow> (int \<times> mpd_st) res" where
  "send_packet env flowId frag a len s =
     (case frag of
        None \<Rightarrow> send_block env flowId a len 0 s
      | Some r \<Rightarrow>
          bindR (send_block env flowId (pFirstBlockAddr r) (firstBlockLength r) 1 s) (\<lambda>(_, s).
            send_block env flowId (pLastBlockAddr r) (lastBlockLength r) 2 (s\<lparr>txDataSn := txDataSn s - 1\<rparr>)))"

section \<open>The wait queue\<close>

definition wait_next :: "nat \<Rightarrow> nat" where
  "wait_next n = (n + 1) mod DataWaitQueueSize"

definition wait_put :: "addr \<Rightarrow> int \<Rightarrow> mpd_st \<Rightarrow> mpd_st res" where
  "wait_put dataAddr len s =
     (let s = s\<lparr>dataWaitQueue := (dataWaitQueue s)(pDataWaiteHead s := \<lparr>PData = dataAddr, wq_len = len\<rparr>),
               pDataWaiteHead := wait_next (pDataWaiteHead s)\<rparr>;
          tail = pDataWaiteTail s
      in if pDataWaiteHead s = tail
         then bindR (MPD_MsgMemfree (PData (dataWaitQueue s tail)) (s\<lparr>tcDelPktCnt := tcDelPktCnt s + 1\<rparr>)) (\<lambda>s.
                Inr (s\<lparr>dataWaitQueue := (dataWaitQueue s)(tail := (dataWaitQueue s tail)\<lparr>PData := 0\<rparr>),
                       pDataWaiteTail := wait_next tail\<rparr>))
         else Inr s)"

fun clearWaitQueue_loop :: "nat \<Rightarrow> mpd_st \<Rightarrow> mpd_st res" where
  "clearWaitQueue_loop fuel s =
     (let tail = pDataWaiteTail s
      in if pDataWaiteHead s = tail then Inr s
         else if fuel = 0 then Inl OutOfFuel
         else bindR (MPD_MsgMemfree (PData (dataWaitQueue s tail)) s) (\<lambda>s.
                clearWaitQueue_loop (fuel - 1)
                  (s\<lparr>dataWaitQueue := (dataWaitQueue s)(tail := (dataWaitQueue s tail)\<lparr>PData := 0\<rparr>),
                     pDataWaiteTail := wait_next tail\<rparr>)))"

declare clearWaitQueue_loop.simps [simp del]

definition MPD_clearWaitQueue :: "mpd_st \<Rightarrow> mpd_st res" where
  "MPD_clearWaitQueue s =
     bindR (clearWaitQueue_loop DataWaitQueueSize s) (\<lambda>s.
       Inr (s\<lparr>dataWaitQueue := (\<lambda>_. wq_zero), pDataWaiteHead := 0, pDataWaiteTail := 0\<rparr>))"

section \<open>The two senders\<close>

text \<open>
  A packet is queued when traffic control is on and the queue is not empty or scheduling is
  stopped. \<^verbatim>\<open>MPD_SCHD_ChooseStream\<close> never returns \<^verbatim>\<open>INVALID_STREAM\<close> (it faults before), so the test of
  its result has no branch here.
\<close>

definition MPD_DoSendNewTransData :: "rat_env \<Rightarrow> addr \<Rightarrow> int \<Rightarrow> mpd_st \<Rightarrow> (int \<times> mpd_st) res" where
  "MPD_DoSendNewTransData env dataAddr len s =
     (let s = s\<lparr>txPktCnt := txPktCnt s + 1\<rparr>
      in if len < int LEN_MPD_HEADER
         then bindR (MPD_MsgMemfree dataAddr s) (\<lambda>s. Inr (SEND_FAIL, s))
         else if g_isTrafficCtl s \<noteq> 0 \<and> (pDataWaiteHead s \<noteq> pDataWaiteTail s \<or> isMpStopSched s)
         then bindR (wait_put dataAddr len s) (\<lambda>s. Inr (1, s))
         else bindR (MPD_SCHD_ChooseStream s) (\<lambda>(flowId, s).
           let s = s\<lparr>lastPackageTime := g_time s + MPD_IDLE_TH\<rparr>
           in bindR (if len \<ge> LEN_DATA_TH then MPD_SplitDataMem env dataAddr len s else Inr (-1, None, s))
                (\<lambda>(_, frag, s).
           bindR (send_packet env flowId frag dataAddr len s) (\<lambda>(result, s).
             Inr (if result = SEND_FAIL then -3 else SEND_SUCCESS, s)))))"

text \<open>
  The loop over the queue carries the fragment record of an earlier packet: \<^verbatim>\<open>isFragment\<close> is set
  once and not reset. A packet counts one or two.
\<close>

fun waitSend_loop :: "nat \<Rightarrow> rat_env \<Rightarrow> U32 \<Rightarrow> U32 \<Rightarrow> stDataFragmentRec option \<Rightarrow> mpd_st \<Rightarrow> mpd_st res" where
  "waitSend_loop fuel env pktCnt pktCntSend frag s =
     (let tail = pDataWaiteTail s; n = dataWaitQueue s tail
      in if pDataWaiteHead s = tail then Inr s
         else if fuel = 0 then Inl OutOfFuel
         else if PData n = 0 then Inr (s\<lparr>pDataWaiteTail := wait_next tail\<rparr>)
         else bindR (MPD_SCHD_ChooseStream s) (\<lambda>(flowId, s).
           let s = s\<lparr>lastPackageTime := g_time s + MPD_IDLE_TH\<rparr>
           in bindR (if wq_len n \<ge> LEN_DATA_TH then MPD_SplitDataMem env (PData n) (wq_len n) s else Inr (-1, None, s))
                (\<lambda>(rst, new, s).
           let frag = (if rst = 0 then new else frag)
           in bindR (send_packet env flowId frag (PData n) (wq_len n) s) (\<lambda>(result, s).
             let pktCntSend = pktCntSend + (if frag = None then 1 else 2);
                 s = s\<lparr>dataWaitQueue := (dataWaitQueue s)(tail := (dataWaitQueue s tail)\<lparr>PData := 0\<rparr>),
                       pDataWaiteTail := wait_next tail\<rparr>
             in if isMpStopSched s \<or> pktCntSend \<ge> pktCnt \<or> result = SEND_FAIL then Inr s
                else waitSend_loop (fuel - 1) env pktCnt pktCntSend frag s))))"

declare waitSend_loop.simps [simp del]

definition MPD_DoSendWaitQueueData :: "rat_env \<Rightarrow> mpd_st \<Rightarrow> mpd_st res" where
  "MPD_DoSendWaitQueueData env s =
     (if isMpStopSched s then Inr s
      else if pDataWaiteHead s = pDataWaiteTail s then Inr s
      else let pktCnt = (if isAllFlowTrafficCtl s then (throuputTotal s + 99) div 100 else 9)
           in waitSend_loop DataWaitQueueSize env pktCnt 0 None s)"

end
