(* ===== verification/MPD_Sack.thy ===== *)
theory MPD_Sack
  imports MPD_Schd
begin

text \<open>
  Acknowledgements at the sender (\<^verbatim>\<open>mpd_sack.c\<close>): the cumulative acknowledgement releases the
  oldest packets, a SACK message releases received packets behind a gap and resends the gap.
  The loops walk the ring of 1024 nodes under conditions that read only sequence numbers, which
  they do not change.
\<close>

section \<open>Cumulative acknowledgement\<close>

definition MPD_SACKInit :: "mpd_st \<Rightarrow> mpd_st" where
  "MPD_SACKInit s = s\<lparr>sackBlock := (\<lambda>_. \<lparr>leftEdgeSSN = 0xFFFF, rightEdgeSSN = 0xFFFF\<rparr>)\<rparr>"

definition count_acked :: "nat \<Rightarrow> mpd_st \<Rightarrow> mpd_st" where
  "count_acked sfId s = upd_para sfId (\<lambda>p. p\<lparr>PktCnt := PktCnt p + 1\<rparr>)
     (upd_tc sfId (\<lambda>c. c\<lparr>pktRate := pktRate c + 1\<rparr>) s)"

fun processACK_loop :: "nat \<Rightarrow> nat \<Rightarrow> U16 \<Rightarrow> mpd_st \<Rightarrow> mpd_st res" where
  "processACK_loop fuel sfId ackSSN s =
     (let w = txWindow s sfId; n = dataNode w (pTxBegin w)
      in if pTxBegin w = pTxNext w then Inr s
         else if fuel = 0 then Inl OutOfFuel
         else
           let s = MPD_SCHD_RTTFlowUpdate sfId n s;
               s = (if pData n \<noteq> 0 then count_acked sfId s else s)
           in bindR (MPD_freeTxBeginData sfId s) (\<lambda>s.
                let s = upd_tx sfId MPD_txBeginInc s; w = txWindow s sfId
                in if DISTANCESN (dn_SSN (dataNode w (pTxBegin w))) ackSSN = 0 then Inr s
                   else processACK_loop (fuel - 1) sfId ackSSN s))"

declare processACK_loop.simps [simp del]

text \<open>The part of the window the next traffic-control period counts from.\<close>

definition move_ssnEnd :: "nat \<Rightarrow> nat \<Rightarrow> mpd_st \<Rightarrow> mpd_st" where
  "move_ssnEnd sfId i s =
     (let w = txWindow s sfId;
          nextSSN = dn_SSN (dataNode w (pTxNext w));
          beginSSN = dn_SSN (dataNode w i)
      in if DISTANCESN (ssnEnd (trafficControl s sfId)) nextSSN > DISTANCESN beginSSN nextSSN
         then upd_tc sfId (\<lambda>c. c\<lparr>ssnEnd := beginSSN\<rparr>) s else s)"

text \<open>The guard compares with \<open>>\<close>, so that the number after the last subflow indexes \<^verbatim>\<open>txWindow\<close>.\<close>

definition MPD_processACK :: "nat \<Rightarrow> U16 \<Rightarrow> U8 \<Rightarrow> mpd_st \<Rightarrow> mpd_st res" where
  "MPD_processACK sfId ackSSN firstSack s =
     (if sfId > NUM_SUBFLOW then Inr s
      else if firstSack = 0 then Inr s
      else if sfId = NUM_SUBFLOW then Inl OutOfBounds
      else
        let s = upd_tx sfId (\<lambda>w. w\<lparr>ackTimeOutcnt := 0\<rparr>) s;
            w = txWindow s sfId;
            beginSSN = dn_SSN (dataNode w (pTxBegin w));
            nextSSN = dn_SSN (dataNode w (pTxNext w))
        in if DISTANCESN beginSSN ackSSN > DISTANCESN beginSSN nextSSN \<or> DISTANCESN beginSSN ackSSN = 0
           then Inr s
           else bindR (processACK_loop MAX_TX_WINDOW_SIZE sfId ackSSN s) (\<lambda>s.
                  Inr (move_ssnEnd sfId (pTxBegin (txWindow s sfId)) s)))"

section \<open>Selective acknowledgement\<close>

text \<open>A node in the gap before a block is resent, unless it was resent a moment ago.\<close>

definition retrans_node :: "rat_env \<Rightarrow> nat \<Rightarrow> nat \<Rightarrow> mpd_st \<Rightarrow> mpd_st res" where
  "retrans_node env sfId i s =
     (let n = dataNode (txWindow s sfId) i;
          s = (if transState n = WAITING_ACK
               then upd_tc sfId (\<lambda>c. c\<lparr>pktLossCnt := pktLossCnt c + 1\<rparr>) s else s)
      in if transState n = WAITING_ACK \<or> (transState n = SACKED \<and> g_time s \<ge> TO_retrans n)
         then bindR (MPD_callMPCToRetrans env sfId i s) (\<lambda>(_, s).
                Inr (upd_para sfId (\<lambda>p. p\<lparr>pktRetCnt := pktRetCnt p + 1\<rparr>)
                  (upd_tx sfId (\<lambda>w. (upd_node i (\<lambda>n. n\<lparr>transState := SACKED,
                       TO_retrans := g_time s + retrans_timeout sfId\<rparr>) w)\<lparr>retransCnt := retransCnt w + 1\<rparr>) s)))
         else Inr s)"

fun gap_loop :: "nat \<Rightarrow> rat_env \<Rightarrow> nat \<Rightarrow> U16 \<Rightarrow> nat \<Rightarrow> mpd_st \<Rightarrow> (nat \<times> mpd_st) res" where
  "gap_loop fuel env sfId leftEdge i s =
     (if DISTANCESN (dn_SSN (dataNode (txWindow s sfId) i)) leftEdge = 0 then Inr (i, s)
      else if fuel = 0 then Inl OutOfFuel
      else bindR (retrans_node env sfId i s) (gap_loop (fuel - 1) env sfId leftEdge (tx_inc i)))"

declare gap_loop.simps [simp del]

text \<open>A node of the block is released; it stays in the window as a node without data.\<close>

definition sacked_node :: "nat \<Rightarrow> nat \<Rightarrow> mpd_st \<Rightarrow> mpd_st res" where
  "sacked_node sfId i s =
     (let n = dataNode (txWindow s sfId) i
      in if transState n \<noteq> DATA_INIT \<and> pData n \<noteq> 0
         then let s = MPD_SCHD_RTTFlowUpdate sfId n s
              in bindR (if transState n = SACKED then MPD_RetransMsgMemfree (pData n) sfId s
                        else MPD_MsgMemfree (pData n) s)
                   (\<lambda>s. Inr (count_acked sfId
                      (upd_tx sfId (upd_node i (\<lambda>n. n\<lparr>pData := 0, pData1 := 0, transState := DATA_INIT\<rparr>)) s)))
         else Inr s)"

fun block_loop :: "nat \<Rightarrow> nat \<Rightarrow> U16 \<Rightarrow> nat \<Rightarrow> mpd_st \<Rightarrow> (nat \<times> mpd_st) res" where
  "block_loop fuel sfId rightEdge i s =
     (if DISTANCESN (dn_SSN (dataNode (txWindow s sfId) i)) rightEdge \<ge> RCV_SN_RANGE then Inr (i, s)
      else if fuel = 0 then Inl OutOfFuel
      else bindR (sacked_node sfId i s) (block_loop (fuel - 1) sfId rightEdge (tx_inc i)))"

declare block_loop.simps [simp del]

text \<open>Whether a number lies between the node \<open>i\<close> and \<open>pTxNext\<close>.\<close>

definition edge_in_window :: "nat \<Rightarrow> nat \<Rightarrow> U16 \<Rightarrow> mpd_st \<Rightarrow> bool" where
  "edge_in_window sfId i edge s \<longleftrightarrow>
     (let w = txWindow s sfId; b = dn_SSN (dataNode w i)
      in DISTANCESN b edge < DISTANCESN b (dn_SSN (dataNode w (pTxNext w))))"

definition sack_block_step :: "rat_env \<Rightarrow> nat \<Rightarrow> nat \<Rightarrow> nat \<times> mpd_st \<Rightarrow> (nat \<times> mpd_st) res" where
  "sack_block_step env sfId sackIdx = (\<lambda>(i, s).
     let b = sackBlock s sackIdx
     in if edge_in_window sfId i (leftEdgeSSN b) s
        then bindR (gap_loop MAX_TX_WINDOW_SIZE env sfId (leftEdgeSSN b) i s) (\<lambda>(i, s).
               if edge_in_window sfId i (rightEdgeSSN b) s
               then block_loop MAX_TX_WINDOW_SIZE sfId (rightEdgeSSN b) i s
               else Inr (i, s))
        else Inr (i, s))"

text \<open>The blocks are copied out of the message before they are used.\<close>

definition read_sack_block :: "addr \<Rightarrow> nat \<Rightarrow> nat \<Rightarrow> mpd_st \<Rightarrow> mpd_st res" where
  "read_sack_block a off k s =
     bindR (mem_read s a (off + 4 + 4 * k) 4) (\<lambda>b.
       Inr (s\<lparr>sackBlock := (sackBlock s)(k := \<lparr>leftEdgeSSN = be16 (b ! 0) (b ! 1),
                                            rightEdgeSSN = be16 (b ! 2) (b ! 3)\<rparr>)\<rparr>))"

text \<open>\<^verbatim>\<open>(length - SACK_TLV_BASE)>>2\<close> is computed in \<^verbatim>\<open>int\<close> and stored in a byte.\<close>

definition num_sack :: "U8 \<Rightarrow> U8" where
  "num_sack len = word_of_int ((int (unat len) - 4) div 4)"

definition sack_start :: "nat \<Rightarrow> U8 \<Rightarrow> U16 \<Rightarrow> mpd_st \<Rightarrow> nat option" where
  "sack_start sfId firstSack ack s =
     (let w = txWindow s sfId; i = unat ack mod MAX_TX_WINDOW_SIZE
      in if firstSack = 0 then (if dn_SSN (dataNode w i) = ack then Some i else None)
         else Some (pTxBegin w))"

definition MPD_parserSACK :: "rat_env \<Rightarrow> nat \<Rightarrow> addr \<Rightarrow> nat \<Rightarrow> U16 \<Rightarrow> mpd_st \<Rightarrow> mpd_st res" where
  "MPD_parserSACK env sfId a off ack s =
     (if sfId \<ge> NUM_SUBFLOW then Inr s
      else
        let s = upd_tc sfId (\<lambda>c. c\<lparr>sackNum := sackNum c + 1\<rparr>) s
        in bindR (mem_read s a off 3) (\<lambda>h.
             let numSack = num_sack (h ! 1)
             in if h ! 0 \<noteq> 0x01 then Inr s
                else if unat numSack > MAX_SACK_NUM then Inr s
                else if numSack = 0 then Inr s
                else
                  let s = MPD_SACKInit (upd_tx sfId (\<lambda>w. w\<lparr>retransCnt := 0\<rparr>) s)
                  in bindR (forR (read_sack_block a off) [0..<unat numSack] s) (\<lambda>s.
                       case sack_start sfId (h ! 2) ack s of
                         None \<Rightarrow> Inr s
                       | Some i \<Rightarrow>
                           bindR (forR (sack_block_step env sfId) [0..<unat numSack] (i, s)) (\<lambda>(i, s).
                             Inr (move_ssnEnd sfId i s)))))"

section \<open>Properties\<close>

lemma RTTFlowUpdate_simps [simp]:
  "txWindow (MPD_SCHD_RTTFlowUpdate f n s) = txWindow s" "mem (MPD_SCHD_RTTFlowUpdate f n s) = mem s"
  "RxSubWin (MPD_SCHD_RTTFlowUpdate f n s) = RxSubWin s" "RxDataWin (MPD_SCHD_RTTFlowUpdate f n s) = RxDataWin s"
  "trafficControl (MPD_SCHD_RTTFlowUpdate f n s) = trafficControl s"
  by (simp_all add: MPD_SCHD_RTTFlowUpdate_def)

lemma count_acked_simps [simp]:
  "txWindow (count_acked f s) = txWindow s" "mem (count_acked f s) = mem s"
  "RxSubWin (count_acked f s) = RxSubWin s" "RxDataWin (count_acked f s) = RxDataWin s"
  by (simp_all add: count_acked_def)

lemma move_ssnEnd_simps [simp]:
  "txWindow (move_ssnEnd f i s) = txWindow s" "mem (move_ssnEnd f i s) = mem s"
  "RxSubWin (move_ssnEnd f i s) = RxSubWin s" "RxDataWin (move_ssnEnd f i s) = RxDataWin s"
  by (simp_all add: move_ssnEnd_def Let_def)

lemma of_nat_U16_inj: "k < 65536 \<Longrightarrow> l < 65536 \<Longrightarrow> (of_nat k :: U16) = of_nat l \<longleftrightarrow> k = l"
  using DISTANCESN_add[of k 0] DISTANCESN_add[of l 0] by (metis add_0)

lemma wf_begin_DIST:
  assumes "wf_sn sn w"
  shows "DISTANCESN (dn_SSN (dataNode w (pTxBegin w))) sn = tx_len w"
  using tx_len_less[of w] by (simp add: wf_begin_SSN[OF assms] DISTANCESN_sub)

text \<open>One turn of the loop releases the oldest node.\<close>

lemma processACK_step:
  fixes s :: mpd_st and f :: nat
  defines "w \<equiv> txWindow s f"
  assumes wf: "wf_sn sn w" and ne: "tx_len w \<noteq> 0" and live: "set (node_bufs (dataNode w (pTxBegin w))) \<subseteq> dom (mem s)"
  shows "\<exists>t. processACK_loop (Suc fuel) f ack s =
       (if dn_SSN (dataNode w (pTxBegin w)) + 1 = ack then Inr t else processACK_loop fuel f ack t) \<and>
     txWindow t = (txWindow s)(f := MPD_txBeginInc w) \<and>
     mem t = mem s |` (- set (node_bufs (dataNode w (pTxBegin w)))) \<and> RxSubWin t = RxSubWin s \<and> RxDataWin t = RxDataWin s"
proof -
  let ?n = "dataNode w (pTxBegin w)"
  define s1 where "s1 = (if pData ?n \<noteq> 0 then count_acked f (MPD_SCHD_RTTFlowUpdate f ?n s) else MPD_SCHD_RTTFlowUpdate f ?n s)"
  have s1: "txWindow s1 = txWindow s" "mem s1 = mem s" "RxSubWin s1 = RxSubWin s" "RxDataWin s1 = RxDataWin s"
    by (simp_all add: s1_def)
  obtain t where t: "bindR (MPD_freeTxBeginData f s1) (\<lambda>s. Inr (upd_tx f MPD_txBeginInc s)) = Inr t"
    "tx_frame s1 ((txWindow s1)(f := MPD_txBeginInc w)) (node_bufs ?n) t"
    using tx_pop_ok[of s1 f] live by (auto simp: s1 w_def)
  note fr = tx_frameD[OF t(2)]
  have b: "pTxBegin w \<noteq> pTxNext w" using ne tx_empty_iff[OF wf] by simp
  have "dn_SSN (dataNode (MPD_txBeginInc w) (pTxBegin (MPD_txBeginInc w))) = sn - of_nat (tx_len w - 1)"
    using wf_begin_SSN[OF wf_sn_txBeginInc[OF wf ne]] by (simp only: tx_len_inc[OF wf ne])
  also have "\<dots> = dn_SSN ?n + 1"
    using ne by (simp add: wf_begin_SSN[OF wf] of_nat_diff)
  finally have hd: "dn_SSN (dataNode (MPD_txBeginInc w) (pTxBegin (MPD_txBeginInc w))) = dn_SSN ?n + 1" .
  have wt: "txWindow t f = MPD_txBeginInc w" using fr(1) by simp
  define k where "k = (\<lambda>s. if DISTANCESN (dn_SSN (dataNode (txWindow s f) (pTxBegin (txWindow s f)))) ack = 0
      then Inr s else processACK_loop fuel f ack s)"
  have "processACK_loop (Suc fuel) f ack s = bindR (MPD_freeTxBeginData f s1) (\<lambda>s. k (upd_tx f MPD_txBeginInc s))"
    using b unfolding k_def
    by (subst processACK_loop.simps)
      (simp only: Let_def w_def[symmetric] s1_def[symmetric] if_False nat.distinct diff_Suc_1)
  also have "\<dots> = bindR (bindR (MPD_freeTxBeginData f s1) (\<lambda>s. Inr (upd_tx f MPD_txBeginInc s))) k"
    by (simp only: bindR_assoc bindR.simps)
  finally have "processACK_loop (Suc fuel) f ack s = k t" by (simp only: t(1) bindR.simps)
  then have "processACK_loop (Suc fuel) f ack s =
      (if dn_SSN ?n + 1 = ack then Inr t else processACK_loop fuel f ack t)"
    by (simp only: k_def wt hd DISTANCESN_0)
  then show ?thesis using fr(1,2,7,8) s1 by auto
qed

lemma processACK_loop_ok:
  assumes "wf_sn sn (txWindow s f)" and "distinct (tx_bufs (txWindow s f))"
    and "set (tx_bufs (txWindow s f)) \<subseteq> dom (mem s)" and "Suc d \<le> tx_len (txWindow s f)" and "Suc d \<le> fuel"
    and "ack = dn_SSN (dataNode (txWindow s f) (pTxBegin (txWindow s f))) + of_nat (Suc d)"
  shows "\<exists>s' W. processACK_loop fuel f ack s = Inr s' \<and> txWindow s' = (txWindow s)(f := W) \<and> wf_sn sn W \<and> subflowSn W = subflowSn (txWindow s f) \<and>
     tx_queue W = drop (Suc d) (tx_queue (txWindow s f)) \<and>
     mem s' = mem s |` (- set (concat (map node_bufs (take (Suc d) (tx_queue (txWindow s f)))))) \<and>
     RxSubWin s' = RxSubWin s \<and> RxDataWin s' = RxDataWin s"
  using assms
proof (induction d arbitrary: fuel s)
  case 0
  let ?w = "txWindow s f"
  obtain k where k: "fuel = Suc k" using "0.prems"(5) by (cases fuel) auto
  have ne: "tx_len ?w \<noteq> 0" using "0.prems"(4) by simp
  note wf = "0.prems"(1) and Cons = tx_queue_Cons[OF "0.prems"(1) ne]
  have "set (node_bufs (dataNode ?w (pTxBegin ?w))) \<subseteq> dom (mem s)"
    using "0.prems"(3) tx_bufs_txBeginInc[OF wf ne] by auto
  from processACK_step[OF wf ne this, of k ack] "0.prems"(6) k obtain t where
    "processACK_loop fuel f ack s = Inr t" "txWindow t = (txWindow s)(f := MPD_txBeginInc ?w)"
    "mem t = mem s |` (- set (node_bufs (dataNode ?w (pTxBegin ?w))))" "RxSubWin t = RxSubWin s" "RxDataWin t = RxDataWin s"
    by auto
  moreover have "tx_queue (MPD_txBeginInc ?w) = drop (Suc 0) (tx_queue ?w)"
    using tx_queue_txBeginInc[OF wf ne] by (simp add: drop_Suc)
  moreover have "concat (map node_bufs (take (Suc 0) (tx_queue ?w))) = node_bufs (dataNode ?w (pTxBegin ?w))"
    by (subst Cons) simp
  ultimately show ?case using wf_sn_txBeginInc[OF wf ne] by (intro exI[of _ t] exI[of _ "MPD_txBeginInc ?w"]) simp
next
  case (Suc d)
  let ?w = "txWindow s f"
  obtain k where k: "fuel = Suc k" using Suc.prems(5) by (cases fuel) auto
  have ne: "tx_len ?w \<noteq> 0" using Suc.prems(4) by simp
  note wf = Suc.prems(1) and Cons = tx_queue_Cons[OF Suc.prems(1) ne] and split = tx_bufs_txBeginInc[OF Suc.prems(1) ne]
  let ?h = "node_bufs (dataNode ?w (pTxBegin ?w))" and ?b = "dn_SSN (dataNode ?w (pTxBegin ?w))"
  have live: "set ?h \<subseteq> dom (mem s)" using Suc.prems(3) split by auto
  have "?b + 1 \<noteq> ack"
    using Suc.prems(4,6) tx_len_less[of ?w] of_nat_U16_inj[of 1 "Suc (Suc d)"] by simp
  with processACK_step[OF wf ne live, of k ack] k obtain t where
    t: "processACK_loop fuel f ack s = processACK_loop k f ack t" "txWindow t = (txWindow s)(f := MPD_txBeginInc ?w)"
    "mem t = mem s |` (- set ?h)" "RxSubWin t = RxSubWin s" "RxDataWin t = RxDataWin s"
    by auto
  have hd: "dn_SSN (dataNode (MPD_txBeginInc ?w) (pTxBegin (MPD_txBeginInc ?w))) = ?b + 1"
    using wf_begin_SSN[OF wf_sn_txBeginInc[OF wf ne]] ne
    by (simp only: tx_len_inc[OF wf ne] wf_begin_SSN[OF wf]) (simp add: of_nat_diff)
  have wt: "txWindow t f = MPD_txBeginInc ?w" using t(2) by simp
  have "\<exists>s' W. processACK_loop k f ack t = Inr s' \<and> txWindow s' = (txWindow t)(f := W) \<and> wf_sn sn W \<and> subflowSn W = subflowSn (txWindow t f) \<and>
     tx_queue W = drop (Suc d) (tx_queue (txWindow t f)) \<and>
     mem s' = mem t |` (- set (concat (map node_bufs (take (Suc d) (tx_queue (txWindow t f)))))) \<and>
     RxSubWin s' = RxSubWin t \<and> RxDataWin s' = RxDataWin t"
  proof (rule Suc.IH)
    show "ack = dn_SSN (dataNode (txWindow t f) (pTxBegin (txWindow t f))) + of_nat (Suc d)"
      unfolding wt hd using Suc.prems(6) by simp
  qed (use Suc.prems wf_sn_txBeginInc[OF wf ne] tx_len_inc[OF wf ne] k t(3) in \<open>auto simp: wt split\<close>)
  then obtain s' W where s': "processACK_loop k f ack t = Inr s'" "txWindow s' = (txWindow t)(f := W)" "wf_sn sn W"
    "subflowSn W = subflowSn (txWindow t f)" "tx_queue W = drop (Suc d) (tl (tx_queue ?w))"
    "mem s' = mem t |` (- set (concat (map node_bufs (take (Suc d) (tl (tx_queue ?w))))))"
    "RxSubWin s' = RxSubWin t" "RxDataWin s' = RxDataWin t"
    unfolding wt tx_queue_txBeginInc[OF wf ne] by blast
  have "concat (map node_bufs (take (Suc (Suc d)) (tx_queue ?w))) = ?h @ concat (map node_bufs (take (Suc d) (tl (tx_queue ?w))))"
    by (subst Cons) simp
  moreover have "drop (Suc (Suc d)) (tx_queue ?w) = drop (Suc d) (tl (tx_queue ?w))" by (simp add: drop_Suc)
  ultimately show ?case
    using s' t wt by (intro exI[of _ s'] exI[of _ W]) (simp add: restrict_map_def fun_eq_iff)
qed

text \<open>
  A transmit window in order: the ring invariant holds, and every buffer of the window is live and
  belongs to one node.
\<close>

definition tx_owned :: "nat \<Rightarrow> mpd_st \<Rightarrow> bool" where
  "tx_owned f s \<longleftrightarrow> wf_tx (txWindow s f) \<and> distinct (tx_bufs (txWindow s f)) \<and>
     set (tx_bufs (txWindow s f)) \<subseteq> dom (mem s)"

definition ack_distance :: "nat \<Rightarrow> U16 \<Rightarrow> mpd_st \<Rightarrow> nat" where
  "ack_distance f ack s = DISTANCESN (dn_SSN (dataNode (txWindow s f) (pTxBegin (txWindow s f)))) ack"

definition queue_bufs :: "stDataNode list \<Rightarrow> addr set" where
  "queue_bufs ns = set (concat (map node_bufs ns))"

lemma same_ring_ackTimeOut: "same_ring (w\<lparr>ackTimeOutcnt := x\<rparr>) w"
  by (simp add: same_ring_def)

text \<open>
  C4: an acknowledgement that lies \<open>d\<close> numbers into the window takes exactly the oldest \<open>d\<close>
  packets out of it and releases exactly their buffers; the other subflows and the receive side
  do not change, and the window stays in order.
\<close>

theorem processACK_cumulative:
  assumes "f < NUM_SUBFLOW" and "firstSack \<noteq> 0" and "tx_owned f s"
    and "ack_distance f ack s = Suc d" and "Suc d \<le> tx_len (txWindow s f)"
  shows "\<exists>s'. MPD_processACK f ack firstSack s = Inr s' \<and> tx_owned f s' \<and>
     tx_queue (txWindow s' f) = drop (Suc d) (tx_queue (txWindow s f)) \<and>
     mem s' = mem s |` (- queue_bufs (take (Suc d) (tx_queue (txWindow s f)))) \<and>
     (\<forall>j. j \<noteq> f \<longrightarrow> txWindow s' j = txWindow s j) \<and> RxSubWin s' = RxSubWin s \<and> RxDataWin s' = RxDataWin s"
proof -
  let ?w = "txWindow s f" and ?sn = "subflowSn (txWindow s f)"
  let ?s1 = "upd_tx f (\<lambda>w. w\<lparr>ackTimeOutcnt := 0\<rparr>) s"
  note same = same_ring_cong[OF same_ring_ackTimeOut[where w = ?w and x = 0]]
  have wf: "wf_sn ?sn ?w" using assms(3) by (simp add: tx_owned_def wf_tx_def)
  have w1: "txWindow ?s1 f = ?w\<lparr>ackTimeOutcnt := 0\<rparr>" by simp
  have ack: "ack = dn_SSN (dataNode ?w (pTxBegin ?w)) + of_nat (Suc d)"
    using assms(4) of_nat_DISTANCESN by (metis ack_distance_def)
  have "\<exists>s' W. processACK_loop MAX_TX_WINDOW_SIZE f ack ?s1 = Inr s' \<and> txWindow s' = (txWindow ?s1)(f := W) \<and>
     wf_sn ?sn W \<and> subflowSn W = subflowSn (txWindow ?s1 f) \<and>
     tx_queue W = drop (Suc d) (tx_queue (txWindow ?s1 f)) \<and>
     mem s' = mem ?s1 |` (- set (concat (map node_bufs (take (Suc d) (tx_queue (txWindow ?s1 f)))))) \<and>
     RxSubWin s' = RxSubWin ?s1 \<and> RxDataWin s' = RxDataWin ?s1"
  proof (rule processACK_loop_ok)
    show "Suc d \<le> MAX_TX_WINDOW_SIZE" using assms(5) tx_len_less[of ?w] by simp
  qed (use wf assms(3,5) same ack in \<open>simp_all add: w1 tx_owned_def del: upd_tx_simps(1) of_nat_Suc\<close>)
  then obtain s' W where s': "processACK_loop MAX_TX_WINDOW_SIZE f ack ?s1 = Inr s'" "txWindow s' = (txWindow ?s1)(f := W)"
     "wf_sn ?sn W" "subflowSn W = ?sn" "tx_queue W = drop (Suc d) (tx_queue ?w)"
     "mem s' = mem s |` (- queue_bufs (take (Suc d) (tx_queue ?w)))" "RxSubWin s' = RxSubWin s" "RxDataWin s' = RxDataWin s"
    unfolding w1 same queue_bufs_def by auto
  have in_win: "\<not> ack_distance f ack s > DISTANCESN (dn_SSN (dataNode ?w (pTxBegin ?w))) (dn_SSN (dataNode ?w (pTxNext ?w)))"
    using assms(4,5) wf_begin_DIST[OF wf] by (simp add: wf_next_SSN[OF wf])
  have "MPD_processACK f ack firstSack s = Inr (move_ssnEnd f (pTxBegin W) s')"
    using in_win assms(1,2,4) s'(1,2) by (simp add: MPD_processACK_def Let_def ack_distance_def)
  moreover have "tx_owned f (move_ssnEnd f (pTxBegin W) s')"
  proof -
    have q: "tx_bufs ?w = concat (map node_bufs (take (Suc d) (tx_queue ?w))) @ tx_bufs W"
      unfolding tx_bufs_def s'(5) by (metis append_take_drop_id concat_append map_append)
    have "distinct (tx_bufs W)" "set (tx_bufs W) \<subseteq> dom (mem s')"
      using assms(3) unfolding tx_owned_def q s'(6) queue_bufs_def by auto
    then show ?thesis using s'(2-4) by (simp add: tx_owned_def wf_tx_def)
  qed
  ultimately show ?thesis using s' by (intro exI[of _ "move_ssnEnd f (pTxBegin W) s'"]) simp
qed

lemma ack_outside:
  assumes "f < NUM_SUBFLOW" and "wf_tx (txWindow s f)"
    and "firstSack = 0 \<or> ack_distance f ack s = 0 \<or> tx_len (txWindow s f) < ack_distance f ack s"
  shows "MPD_processACK f ack firstSack s =
     Inr (if firstSack = 0 then s else upd_tx f (\<lambda>w. w\<lparr>ackTimeOutcnt := 0\<rparr>) s)"
proof -
  let ?w = "txWindow s f"
  have wf: "wf_sn (subflowSn ?w) ?w" using assms(2) by (simp add: wf_tx_def)
  have "DISTANCESN (dn_SSN (dataNode ?w (pTxBegin ?w))) (dn_SSN (dataNode ?w (pTxNext ?w))) = tx_len ?w"
    using wf_begin_DIST[OF wf] by (simp add: wf_next_SSN[OF wf])
  with assms(1,3) show ?thesis by (auto simp: MPD_processACK_def Let_def ack_distance_def)
qed

text \<open>
  An acknowledgement outside the window (not beyond its start, or beyond its end), or in a
  later packet of one scan, releases nothing: at most the counter of the timeout changes.
\<close>

theorem processACK_outside:
  assumes "f < NUM_SUBFLOW" and "wf_tx (txWindow s f)"
    and "firstSack = 0 \<or> ack_distance f ack s = 0 \<or> tx_len (txWindow s f) < ack_distance f ack s"
  shows "MPD_processACK f ack firstSack s =
     Inr (if firstSack = 0 then s else upd_tx f (\<lambda>w. w\<lparr>ackTimeOutcnt := 0\<rparr>) s)"
  using assms by (rule ack_outside)

text \<open>
  A SACK message with another tag, a length that does not hold one to eleven blocks, or for no
  subflow, changes nothing but the count of SACK messages.
\<close>

theorem parserSACK_rejects:
  assumes "mem_read s a off 3 = Inr h" and "sfId < NUM_SUBFLOW"
    and "h ! 0 \<noteq> 0x01 \<or> unat (h ! 1) < 8 \<or> 52 \<le> unat (h ! 1)"
  shows "MPD_parserSACK env sfId a off ack s = Inr (upd_tc sfId (\<lambda>c. c\<lparr>sackNum := sackNum c + 1\<rparr>) s)"
proof -
  let ?s = "upd_tc sfId (\<lambda>c. c\<lparr>sackNum := sackNum c + 1\<rparr>) s"
  have m: "mem_read ?s a off 3 = Inr h" by (simp add: assms(1)[symmetric] mem_read_def mem_block_def)
  obtain k where k: "k = unat (h ! 1)" by simp
  have u: "k < 256" using unsigned_less[of "h ! 1"] by (simp add: k)
  have n: "unat (num_sack (h ! 1)) = nat (((int k - 4) div 4) mod 256)"
    unfolding num_sack_def unat_eq_nat_uint uint_word_of_int k by simp
  have "h ! 0 \<noteq> 0x01 \<or> unat (num_sack (h ! 1)) > MAX_SACK_NUM \<or> unat (num_sack (h ! 1)) = 0"
  proof (cases "k < 4")
    case True
    then have "(int k - 4) div 4 = -1" by presburger
    then show ?thesis unfolding n by simp
  next
    case False
    then have "((int k - 4) div 4) mod 256 = (int k - 4) div 4" using u by simp
    then show ?thesis unfolding n using assms(3)[folded k] False by auto
  qed
  then have "h ! 0 \<noteq> 0x01 \<or> unat (num_sack (h ! 1)) > MAX_SACK_NUM \<or> num_sack (h ! 1) = 0"
    by (simp add: unat_eq_0)
  then show ?thesis using assms(2) m by (auto simp: MPD_parserSACK_def Let_def)
qed

end
