(* ===== verification/MPD_Core.thy ===== *)
theory MPD_Core
  imports MPD_RxData MPD_Send MPD_Sack
begin

text \<open>
  The packet parser (\<^verbatim>\<open>MPD_DoParseMPData\<close> of \<^verbatim>\<open>mpd_rx.c\<close>) and the session layer (\<^verbatim>\<open>mpd.c\<close>): the
  table of sessions, their creation and release, the changes of a subflow's state, the ten
  millisecond tick and the functions that \<^verbatim>\<open>MPD_Init\<close> exports.
\<close>

section \<open>The packet parser\<close>

abbreviation "MPD_ERR \<equiv> - 1 :: int"

text \<open>The fields the parser takes from a header.\<close>

definition parse_node :: "addr \<Rightarrow> U32 \<Rightarrow> U8 list \<Rightarrow> stMPDNodeInfo" where
  "parse_node buffer datalen h =
     \<lparr>ni_stream = unat (hdr_stream (h ! 1)), ni_fragment = hdr_fragment (h ! 1),
      ni_DSN = be16 (h ! 2) (h ! 3), ni_SSN = be16 (h ! 4) (h ! 5), ni_msgLen = ucast datalen,
      ni_mpdHeadLen = hdr_length (h ! 1) * 4, ni_msgPtr = buffer\<rparr>"

text \<open>
  A packet without data. \<^verbatim>\<open>mpdHeadLen - sizeof(stMPDHeader)\<close> is unsigned: a header length below 12
  gives a huge number, and the packet is taken for a SACK message.
\<close>

definition parse_ack_packet :: "rat_env \<Rightarrow> addr \<Rightarrow> stMPDNodeInfo \<Rightarrow> U16 \<Rightarrow> mpd_st \<Rightarrow> mpd_st res" where
  "parse_ack_packet env buffer node ack s =
     bindR (if (ucast (ni_mpdHeadLen node) - 12 :: U32) \<ge> 8
            then bindR (mem_read s buffer (LEN_MPD_HEADER + 2) 1) (\<lambda>b.
                 bindR (MPD_processACK (ni_stream node) ack (b ! 0) s)
                   (MPD_parserSACK env (ni_stream node) buffer LEN_MPD_HEADER ack))
            else MPD_processACK (ni_stream node) ack 1 s)
       (MPD_MsgMemfree buffer)"

text \<open>A cleared receive window takes only one of the first packets of a subflow.\<close>

definition late_start :: "stMPDNodeInfo \<Rightarrow> mpd_st \<Rightarrow> bool" where
  "late_start node s \<longleftrightarrow>
     (let w = RxSubWin s (ni_stream node)
      in sw_RxBegin w = 0 \<and> sw_RxNext w = 0 \<and> sn_SSN (sw_Win w 0) = 0 \<and> ni_SSN node > 5)"

definition MPD_DoParseMPData :: "rat_env \<Rightarrow> addr \<Rightarrow> U32 \<Rightarrow> mpd_st \<Rightarrow> (int \<times> mpd_st) res" where
  "MPD_DoParseMPData env buffer datalen s =
     bindR (mem_read s buffer 0 2) (\<lambda>h2.
       if h2 ! 0 \<noteq> MPD_PACKTET_FLAG \<or> MPD_SCHD_getFlowValid s (unat (hdr_stream (h2 ! 1))) = 0
       then bindR (MPD_MsgMemfree buffer s) (\<lambda>s. Inr (MPD_ERR, s))
       else bindR (mem_read s buffer 0 8) (\<lambda>h.
         let s = s\<lparr>lastPackageTime := g_time s + MPD_IDLE_TH\<rparr>;
             node = parse_node buffer datalen h; ack = be16 (h ! 6) (h ! 7)
         in if ucast (ni_mpdHeadLen node) = datalen
            then bindR (parse_ack_packet env buffer node ack s) (\<lambda>s. Inr (0, s))
            else bindR (MPD_processACK (ni_stream node) ack 1 s) (\<lambda>s.
              if late_start node s then bindR (MPD_MsgMemfree buffer s) (\<lambda>s. Inr (0, s))
              else bindR (MPD_DataWinAddNode env node s) (\<lambda>(dataWinRet, s).
                if dataWinRet > 0
                then bindR (on_sub (ni_stream node) (MPD_SubWinAddNode (ni_SSN node)) s) (\<lambda>s.
                     bindR (MPD_DataWinRxBeginMove env False s) (\<lambda>s. Inr (0, s)))
                else Inr (0, s)))))"

section \<open>A session\<close>

definition MPD_UserInfoInit :: "U32 \<Rightarrow> U32 \<Rightarrow> mpd_st \<Rightarrow> mpd_st" where
  "MPD_UserInfoInit addressId u s =
     (let s = MPD_RxWinInit (MPD_SACKInit (MPD_TxWinInit (MPD_SCHD_Init s)));
          s = s\<lparr>addressID := addressId, uid := u, SendSackTime := g_time s + SackTimeOut,
                lastPackageTime := g_time s + MPD_IDLE_TH, totalToAckNum := 0, rxDsnErr := 0,
                exceptionCode := (\<lambda>i. if i < 3 then 0 else exceptionCode s i)\<rparr>;
          s = MPD_TrafficCtlInit s
      in s\<lparr>txPktCnt := 0, txPktFreeCnt := 0, activeFlowNum := 0\<rparr>)"

definition clear_valid_tx :: "nat \<Rightarrow> mpd_st \<Rightarrow> mpd_st res" where
  "clear_valid_tx i s = (if MPD_SCHD_getFlowValid s i \<noteq> 0 then MPD_clearTxWin i s else Inr s)"

text \<open>What the release of a session does before its memory goes.\<close>

definition release_user :: "rat_env \<Rightarrow> mpd_st \<Rightarrow> mpd_st res" where
  "release_user env s = bindR (MPD_ClearDataWin env s) (forR clear_valid_tx [0..<NUM_SUBFLOW])"

section \<open>Changes of a subflow's state\<close>

definition active_count :: "mpd_st \<Rightarrow> U32" where
  "active_count s = fold (\<lambda>i n. if MPD_SCHD_getFlowValid s i \<noteq> 0 then n + 1 else n) [0..<NUM_SUBFLOW] 0"

definition any_valid :: "mpd_st \<Rightarrow> U8" where
  "any_valid s = fold (\<lambda>i f. f OR MPD_SCHD_getFlowValid s i) [0..<NUM_SUBFLOW] 0"

text \<open>Device 0 stands for the whole multi-path switch: everything is cleared.\<close>

definition switch_off :: "rat_env \<Rightarrow> mpd_st \<Rightarrow> mpd_st res" where
  "switch_off env s =
     bindR (forR (\<lambda>i s. if MPD_SCHD_getFlowValid s i \<noteq> 0
                        then bindR (MPD_clearTxWin i s) (\<lambda>s. Inr (MPD_ClearSubWin i s)) else Inr s)
              [0..<NUM_SUBFLOW] s)
       (\<lambda>s. bindR (MPD_ClearDataWin env s)
       (\<lambda>s. bindR (MPD_clearWaitQueue (s\<lparr>txDataSn := 0, rxDsnErr := 0\<rparr>))
       (\<lambda>s. Inr ((MPD_TrafficCtlInit s)\<lparr>activeFlowNum := 0\<rparr>))))"

definition shut_down :: "rat_env \<Rightarrow> nat \<Rightarrow> bool \<Rightarrow> U8 \<Rightarrow> mpd_st \<Rightarrow> mpd_st res" where
  "shut_down env flowId isChange flagOld s =
     bindR (MPD_clearTxWin flowId s) (\<lambda>s.
     bindR (MPD_ChangeDataWinFlowId flowId (MPD_ClearSubWin flowId s)) (\<lambda>s.
       if \<not> isChange then Inr s
       else bindR (if any_valid s = 0
                   then bindR (MPD_ClearDataWin env s) (\<lambda>s. Inr (s\<lparr>txDataSn := 0, rxDsnErr := 0\<rparr>))
                   else Inr s)
              (\<lambda>s. Inr (if flagOld = 0
                        then s\<lparr>lastPackageTime := g_time s + MPD_IDLE_TH, totalToAckNum := 0\<rparr> else s))))"

definition MPD_DoSubFlowStateInd :: "rat_env \<Rightarrow> U32 \<Rightarrow> U32 \<Rightarrow> mpd_st \<Rightarrow> mpd_st res" where
  "MPD_DoSubFlowStateInd env deviceId state s =
     (if deviceId = 0 then switch_off env s
      else if MPD_GetSubFlowId deviceId = -1 then Inr s
      else
        let flowId = nat (MPD_GetSubFlowId deviceId);
            flowState = (if state = MP_ENABLE then 1 else 0 :: U8);
            isChange = (MPD_SCHD_getFlowValid s flowId \<noteq> flowState);
            s = (if isChange \<and> flowState \<noteq> 0
                 then fold (\<lambda>i. upd_para i (\<lambda>p. p\<lparr>wCnt := NN (g_schdCfg s), RTTFlow := 1\<rparr>)) [0..<NUM_SUBFLOW] s
                 else s);
            flagOld = any_valid s;
            s = MPD_SCHD_setFlowValid flowId (ucast flowState) s
        in bindR (if flowState = 0 then shut_down env flowId isChange flagOld s else Inr s) (\<lambda>s.
             Inr (s\<lparr>activeFlowNum := active_count s\<rparr>)))"

section \<open>Traffic supervision\<close>

text \<open>The loop body, over (no traffic seen so far, state).\<close>

definition noTraffic_flow :: "nat \<Rightarrow> bool \<times> mpd_st \<Rightarrow> bool \<times> mpd_st" where
  "noTraffic_flow i = (\<lambda>(isNoTraffic, s).
     let w = txWindow s i; r = RxSubWin s i;
         beginSSN = dn_SSN (dataNode w (pTxBegin w));
         note_tx = upd_tx i (\<lambda>w. w\<lparr>lastTxBeginSsn := beginSSN\<rparr>);
         note_rx = upd_sub i (\<lambda>r. r\<lparr>lastRxBegin := sw_RxBegin r\<rparr>)
     in if isValid (schdPara s i) = 0 then (isNoTraffic, s)
        else if \<not> isNoTraffic then (isNoTraffic, note_rx (note_tx s))
        else if pTxBegin w \<noteq> pTxNext w \<or> beginSSN \<noteq> lastTxBeginSsn w then (False, note_rx (note_tx s))
        else if sw_RxBegin r \<noteq> sw_RxNext r \<or> sw_RxBegin r \<noteq> lastRxBegin r then (False, note_rx s)
        else (True, s))"

definition MPD_CheckNoTraffic :: "mpd_st \<Rightarrow> mpd_st res" where
  "MPD_CheckNoTraffic s =
     (if g_time s mod 200 = 0
      then case fold noTraffic_flow [0..<NUM_SUBFLOW] (True, s) of (isNoTraffic, s) \<Rightarrow>
             if isNoTraffic \<and> dw_RxBegin (RxDataWin s) = dw_RxNext (RxDataWin s)
             then MPD_OnNotifyException 0 (-6) s else Inr s
      else Inr s)"

section \<open>The tick of one session\<close>

definition periodCheck_user :: "rat_env \<Rightarrow> mpd_st \<Rightarrow> mpd_st res" where
  "periodCheck_user env s =
     bindR (MPD_TrafficControl (MPD_CHECK_Txwin_Empty s)) (\<lambda>s.
     bindR (MPD_SCHD_PktAvgUpdate s) (\<lambda>s.
     bindR (MPD_DoSendWaitQueueData env (MPD_SCHD_DelayUpdate s)) (\<lambda>s.
     bindR (MPD_timeoutTxWinSuspend s) (\<lambda>s.
     bindR (MPD_DataWinTimeOutCheck env s) (\<lambda>s.
     bindR (MPD_SackPeriodSend env s) (\<lambda>s.
     bindR (MPD_CheckAck s) (\<lambda>s.
     bindR (MPD_TxWinRetransCheck env s) (\<lambda>s.
     bindR (MPD_CheckNoTraffic s) (\<lambda>s.
       Inr (MPD_SCHD_RttUpdate env s))))))))))"

section \<open>The table of sessions\<close>

text \<open>
  \<open>g_pUserInfo\<close> holds the sessions; \<open>globals\<close> is the rest of the driver's state. \<open>MPD_memAlloc\<close>
  returns \<open>None\<close> or a block with arbitrary contents.
\<close>

record mpd_sys =
  g_pUserInfo :: "nat \<Rightarrow> stUserInfo option"
  g_totalUserNum :: U32
  utAddressID :: U32
  globals :: "unit mpd_st_ext"

definition user_st :: "stUserInfo \<Rightarrow> mpd_sys \<Rightarrow> mpd_st" where
  "user_st u w = stUserInfo.extend u (globals w)"

definition put_user :: "nat \<Rightarrow> mpd_st \<Rightarrow> mpd_sys \<Rightarrow> mpd_sys" where
  "put_user idx s w = w\<lparr>g_pUserInfo := (g_pUserInfo w)(idx \<mapsto> stUserInfo.truncate s), globals := stUserInfo.more s\<rparr>"

text \<open>
  The search for a free entry. Index 0 is also the answer when the allocation fails.
\<close>

fun creatUser_loop :: "nat \<Rightarrow> nat \<Rightarrow> (nat \<Rightarrow> stUserInfo option) \<Rightarrow> U32 \<Rightarrow> mpd_sys \<Rightarrow> U32 \<times> mpd_sys" where
  "creatUser_loop 0 idx memAlloc u w = (-1, w)"
| "creatUser_loop (Suc k) idx memAlloc u w =
     (if g_pUserInfo w idx \<noteq> None then creatUser_loop k (idx + 1) memAlloc u w
      else case memAlloc idx of
        None \<Rightarrow> (0, w)
      | Some blk \<Rightarrow>
          let w = w\<lparr>g_totalUserNum := g_totalUserNum w + 1\<rparr>
          in (of_nat idx, put_user idx (MPD_UserInfoInit (of_nat idx) u (user_st blk w)) w))"

definition MPD_CreatUserSession :: "(nat \<Rightarrow> stUserInfo option) \<Rightarrow> U32 \<Rightarrow> mpd_sys \<Rightarrow> U32 \<times> mpd_sys" where
  "MPD_CreatUserSession memAlloc u w = creatUser_loop MAX_USER_NUM 0 memAlloc u w"

text \<open>The entry is read before the index is tested, and the test lets 100 through.\<close>

definition MPD_DeleteUserSession :: "rat_env \<Rightarrow> nat \<Rightarrow> mpd_sys \<Rightarrow> mpd_sys res" where
  "MPD_DeleteUserSession env adr w =
     (if adr \<ge> MAX_USER_NUM then Inl OutOfBounds
      else if g_totalUserNum w = 0 then Inr w
      else case g_pUserInfo w adr of
        None \<Rightarrow> Inr w
      | Some u \<Rightarrow> bindR (release_user env (user_st u w)) (\<lambda>s.
          Inr (w\<lparr>globals := stUserInfo.more s, g_totalUserNum := g_totalUserNum w - 1,
                 g_pUserInfo := (g_pUserInfo w)(adr := None)\<rparr>)))"

text \<open>The loop of the tick: (entries left, index, sessions seen).\<close>

fun periodCheck_loop :: "nat \<Rightarrow> nat \<Rightarrow> U32 \<Rightarrow> rat_env \<Rightarrow> mpd_sys \<Rightarrow> mpd_sys res" where
  "periodCheck_loop 0 idx userNum env w = Inr w"
| "periodCheck_loop (Suc k) idx userNum env w =
     (case g_pUserInfo w idx of
        None \<Rightarrow> periodCheck_loop k (idx + 1) userNum env w
      | Some u \<Rightarrow>
          if userNum \<ge> g_totalUserNum w then Inr w
          else bindR (periodCheck_user env (user_st u w)) (\<lambda>s.
                 periodCheck_loop k (idx + 1) (userNum + 1) env (put_user idx s w)))"

definition tick :: "mpd_sys \<Rightarrow> mpd_sys" where
  "tick w = (let s = user_st user_zero w
             in w\<lparr>globals := stUserInfo.more (s\<lparr>g_time := g_time s + 1\<rparr>)\<rparr>)"

definition MPD_periodCheck :: "rat_env \<Rightarrow> mpd_sys \<Rightarrow> mpd_sys res" where
  "MPD_periodCheck env w = periodCheck_loop MAX_USER_NUM 0 0 env (tick w)"

section \<open>The exported functions\<close>

text \<open>The table of exported functions addresses the session \<open>utAddressID\<close>; an address outside the
  table cannot be indexed.\<close>

definition ut_user :: "mpd_sys \<Rightarrow> stUserInfo option res" where
  "ut_user w = (if unat (utAddressID w) < MAX_USER_NUM then Inr (g_pUserInfo w (unat (utAddressID w)))
                else Inl OutOfBounds)"

definition on_globals :: "(mpd_st \<Rightarrow> mpd_st res) \<Rightarrow> mpd_sys \<Rightarrow> mpd_sys res" where
  "on_globals f w = bindR (f (user_st user_zero w)) (\<lambda>s. Inr (w\<lparr>globals := stUserInfo.more s\<rparr>))"

definition MPD_ParseMPData :: "rat_env \<Rightarrow> addr \<Rightarrow> U32 \<Rightarrow> mpd_sys \<Rightarrow> (int \<times> mpd_sys) res" where
  "MPD_ParseMPData env buffer datalen w =
     bindR (ut_user w) (\<lambda>u. case u of
         Some u \<Rightarrow> bindR (MPD_DoParseMPData env buffer datalen (user_st u w)) (\<lambda>(r, s).
                     Inr (r, put_user (unat (utAddressID w)) s w))
       | None \<Rightarrow> bindR (on_globals (MPD_MsgMemfree buffer) w) (\<lambda>w. Inr (-1, w)))"

definition MPD_SendNewTransData :: "rat_env \<Rightarrow> addr \<Rightarrow> int \<Rightarrow> mpd_sys \<Rightarrow> (int \<times> mpd_sys) res" where
  "MPD_SendNewTransData env dataAddr len w =
     bindR (ut_user w) (\<lambda>u. case u of
         Some u \<Rightarrow> bindR (MPD_DoSendNewTransData env dataAddr len (user_st u w)) (\<lambda>(r, s).
                     Inr (r, put_user (unat (utAddressID w)) s w))
       | None \<Rightarrow> bindR (on_globals (MPD_MsgMemfree dataAddr) w) (\<lambda>w. Inr (0, w)))"

definition MPD_SubFlowStateInd :: "rat_env \<Rightarrow> U32 \<Rightarrow> U32 \<Rightarrow> mpd_sys \<Rightarrow> mpd_sys res" where
  "MPD_SubFlowStateInd env deviceId state w =
     bindR (ut_user w) (\<lambda>u. case u of
         Some u \<Rightarrow> bindR (MPD_DoSubFlowStateInd env deviceId state (user_st u w)) (\<lambda>s.
                     Inr (put_user (unat (utAddressID w)) s w))
       | None \<Rightarrow> Inr w)"

text \<open>With no subflow for the device the index of \<^verbatim>\<open>schdPara\<close> is -1.\<close>

definition MPD_GetRTT :: "U32 \<Rightarrow> mpd_sys \<Rightarrow> U32 res" where
  "MPD_GetRTT netType w =
     bindR (ut_user w) (\<lambda>u. case u of
         Some u \<Rightarrow> (if MPD_GetSubFlowId netType = -1 then Inl OutOfBounds
                    else Inr (InhertDelay (schdPara u (nat (MPD_GetSubFlowId netType)))))
       | None \<Rightarrow> Inr 5)"

definition MPD_Init :: "(nat \<Rightarrow> stUserInfo option) \<Rightarrow> U32 \<Rightarrow> mpd_sys \<Rightarrow> mpd_sys" where
  "MPD_Init memAlloc u w =
     (let s = MPD_SCHD_CfgInit ((user_st user_zero w)\<lparr>g_time := 0\<rparr>);
          w = w\<lparr>g_pUserInfo := (\<lambda>i. if i < MAX_USER_NUM then None else g_pUserInfo w i), globals := stUserInfo.more s\<rparr>
      in case MPD_CreatUserSession memAlloc u w of (idx, w) \<Rightarrow> w\<lparr>utAddressID := idx\<rparr>)"

end
