(* ===== verification/MPD_Wire.thy ===== *)
theory MPD_Wire
  imports MPD_Core
begin

text \<open>
  What one side writes and the other reads: the packet header, the SACK message, and a packet
  that is split by the sender and put together by the receiver.
\<close>

section \<open>Buffers\<close>

lemma mem_write_live:
  "mem s a = Some bs \<Longrightarrow> a \<noteq> 0 \<Longrightarrow> off + length xs \<le> length bs \<Longrightarrow>
   mem_write a off xs s = Inr (s\<lparr>mem := (mem s)(a \<mapsto> take off bs @ xs @ drop (off + length xs) bs)\<rparr>)"
  by (simp add: mem_write_def mem_block_live)

lemma MsgMemCreat_ok:
  "env_alloc env (brk s) (trace s) n \<Longrightarrow> MPD_MsgMemCreat env n s =
     (brk s, s\<lparr>mem := (mem s)(brk s \<mapsto> map (env_junk env (brk s)) [0..<n]), brk := brk s + 1\<rparr>)"
  by (simp add: MPD_MsgMemCreat_def)

section \<open>The header\<close>

lemma hdr_bits_fields [byte_simps]:
  "hdr_fragment (hdr_bits f st l) = f AND 3" "hdr_stream (hdr_bits f st l) = st AND 3"
  "hdr_length (hdr_bits f st l) = l AND 15"
proof -
  have m: "(3 :: U8) = mask 2" "(15 :: U8) = mask 4" by (simp_all add: mask_eq_exp_minus_1)
  show "hdr_fragment (hdr_bits f st l) = f AND 3" "hdr_stream (hdr_bits f st l) = st AND 3"
    "hdr_length (hdr_bits f st l) = l AND 15"
    unfolding hdr_fragment_def hdr_stream_def hdr_length_def hdr_bits_def m
    by (rule bit_word_eqI; auto simp: bit_simps)+
qed

lemma stream_bits: "f < NUM_SUBFLOW \<Longrightarrow> unat (of_nat f AND 3 :: U8) = f"
proof -
  assume "f < NUM_SUBFLOW"
  then have "f = 0 \<or> f = 1 \<or> f = 2" by auto
  then show ?thesis by auto
qed

lemma and_15_small: "n \<le> 15 \<Longrightarrow> (of_nat n AND 15 :: U8) = of_nat n"
proof -
  assume "n \<le> 15"
  then have "n \<in> set (upt 0 16)" by simp
  moreover have "\<forall>n\<in>set (upt 0 16). (of_nat n AND 15 :: U8) = of_nat n" by (simp add: upt_rec)
  ultimately show ?thesis by blast
qed

lemma length_mpd_header [simp]: "length (mpd_header f st l d sn a u) = 12"
  by (simp add: mpd_header_def)

lemma mpd_header_nth [byte_simps]:
  "mpd_header f st l d sn a u ! 0 = MPD_PACKTET_FLAG" "mpd_header f st l d sn a u ! 1 = hdr_bits f st l"
  "mpd_header f st l d sn a u ! Suc 0 = hdr_bits f st l"
  "be16 (mpd_header f st l d sn a u ! 2) (mpd_header f st l d sn a u ! 3) = d"
  "be16 (mpd_header f st l d sn a u ! 4) (mpd_header f st l d sn a u ! 5) = sn"
  "be16 (mpd_header f st l d sn a u ! 6) (mpd_header f st l d sn a u ! 7) = a"
  by (simp_all add: mpd_header_def be16_hi8_lo8)

text \<open>
  C9: what the sender writes in front of a packet is what the receiver's parser reads: the flag, the
  subflow, the fragment number, both sequence numbers, the header length of twelve bytes and the
  acknowledgement; the payload is not touched, and both sequence counters move by one.
\<close>

theorem header_roundtrip:
  assumes "mem s a = Some bs" and "a \<noteq> 0" and "12 \<le> length bs" and "f < NUM_SUBFLOW" and "frag < 4"
  shows "\<exists>s' h. MPD_fillMPDHeader f a frag s = Inr s' \<and> mem s' a = Some h \<and> h ! 0 = MPD_PACKTET_FLAG \<and>
     parse_node a n h = \<lparr>ni_stream = f, ni_fragment = frag, ni_DSN = txDataSn s,
        ni_SSN = subflowSn (txWindow s f), ni_msgLen = ucast n, ni_mpdHeadLen = 12, ni_msgPtr = a\<rparr> \<and>
     be16 (h ! 6) (h ! 7) = rs_begin (RxSubWin s f) \<and> drop 12 h = drop 12 bs \<and>
     txDataSn s' = txDataSn s + 1 \<and> subflowSn (txWindow s' f) = subflowSn (txWindow s f) + 1"
proof -
  let ?h = "mpd_header frag (of_nat f) 3 (txDataSn s) (subflowSn (txWindow s f)) (rs_begin (RxSubWin s f)) (uid s)"
  let ?s1 = "upd_sub f (\<lambda>w. w\<lparr>SentAck := rs_begin (RxSubWin s f)\<rparr>) s"
  have m: "mem ?s1 a = Some bs" using assms(1) by (simp add: upd_sub_def)
  have w: "mem_write a 0 ?h ?s1 = Inr (?s1\<lparr>mem := (mem ?s1)(a \<mapsto> ?h @ drop 12 bs)\<rparr>)"
    using mem_write_live[OF m assms(2), of 0 ?h] assms(3) by simp
  let ?s' = "upd_tx f (\<lambda>w. w\<lparr>subflowSn := subflowSn w + 1\<rparr>)
      (?s1\<lparr>mem := (mem ?s1)(a \<mapsto> ?h @ drop 12 bs), txDataSn := txDataSn s + 1\<rparr>)"
  have fill: "MPD_fillMPDHeader f a frag s = Inr ?s'"
    using w by (simp add: MPD_fillMPDHeader_def MPD_GetSubFlowAck_def Let_def rs_begin_def[symmetric] upd_sub_def)
  have nth: "(?h @ drop 12 bs) ! k = ?h ! k" if "k < 12" for k using that by (simp add: nth_append)
  have strm: "unat (of_nat f AND 3 :: U8) = f" by (rule stream_bits[OF assms(4)])
  have fr: "frag AND 3 = frag"
  proof -
    have "unat frag < 4" using assms(5) by (simp add: word_less_nat_alt)
    then have "unat frag \<in> {0, 1, 2, 3}" by auto
    then have "frag \<in> {0, 1, 2, 3}" by (auto simp: word_unat_eq_iff)
    then show ?thesis by auto
  qed
  have "parse_node a n (?h @ drop 12 bs) = \<lparr>ni_stream = f, ni_fragment = frag, ni_DSN = txDataSn s,
        ni_SSN = subflowSn (txWindow s f), ni_msgLen = ucast n, ni_mpdHeadLen = 12, ni_msgPtr = a\<rparr>"
    unfolding parse_node_def by (simp add: nth byte_simps strm fr)
  moreover have "be16 ((?h @ drop 12 bs) ! 6) ((?h @ drop 12 bs) ! 7) = rs_begin (RxSubWin s f)"
    by (simp add: nth byte_simps)
  moreover have "(?h @ drop 12 bs) ! 0 = MPD_PACKTET_FLAG" by (simp add: nth byte_simps)
  ultimately show ?thesis
    by (intro exI[of _ ?s'] exI[of _ "?h @ drop 12 bs"]) (simp add: fill upd_sub_def)
qed

section \<open>The SACK message\<close>

lemma sack_bytes_Cons: "sack_bytes ((l, r) # bs) = [hi8 l, lo8 l, hi8 r, lo8 r] @ sack_bytes bs"
  by (simp add: sack_bytes_def)

lemma length_sack_bytes [simp]: "length (sack_bytes bs) = 4 * length bs"
  by (induction bs) (auto simp: sack_bytes_def)

lemma drop_sack_bytes:
  "k < length bs \<Longrightarrow> \<exists>ys. drop (4 * k) (sack_bytes bs @ xs) =
     [hi8 (fst (bs ! k)), lo8 (fst (bs ! k)), hi8 (snd (bs ! k)), lo8 (snd (bs ! k))] @ ys"
proof (induction bs arbitrary: k)
  case (Cons b bs)
  obtain l r where b: "b = (l, r)" by (cases b)
  show ?case
  proof (cases k)
    case 0
    then show ?thesis by (auto simp: b sack_bytes_Cons)
  next
    case (Suc n)
    have "drop (4 * Suc n) ([hi8 l, lo8 l, hi8 r, lo8 r] @ sack_bytes bs @ xs) = drop (4 * n) (sack_bytes bs @ xs)"
      by (simp only: drop_append) simp
    with Cons Suc show ?thesis by (simp add: b sack_bytes_Cons)
  qed
qed simp

text \<open>The bytes of a message with at least one block; the one byte nobody writes is \<open>j\<close>.\<close>

definition sack_message :: "U16 \<Rightarrow> (U16 \<times> U16) list \<Rightarrow> nat \<Rightarrow> bool \<Rightarrow> U32 \<Rightarrow> U8 \<Rightarrow> U8 list" where
  "sack_message ack bs i first u j =
     mpd_header 0 (of_nat i) (of_nat ((16 + 4 * length bs) div 4)) 0 0 ack u
     @ [0x01, of_nat (4 + 4 * length bs), of_bool first, j] @ sack_bytes bs"

lemma length_sack_message [simp]: "length (sack_message ack bs i first u j) = 16 + 4 * length bs"
  by (simp add: sack_message_def)

lemma SendSack_bytes:
  assumes "bs \<noteq> []" and "env_alloc env (brk s) (trace s) (16 + 4 * length bs)" and "brk s \<noteq> 0"
  shows "\<exists>s' j. MPD_SubWinSendSackPacketMsg env ack bs i first s = Inr s' \<and>
     trace s' = EvSend (MPD_GetDeviceId i) (brk s) (sack_message ack bs i first (uid s) j) (16 + 4 * length bs) True # trace s"
proof -
  let ?L = "16 + 4 * length bs"
  have num: "length bs \<noteq> 0" using assms(1) by simp
  have len: "8 + (length bs - 1) * 4 = 4 + 4 * length bs" using assms(1) by (cases bs) simp_all
  have msgLen: "(LEN_MPD_HEADER + (4 + 4 * length bs) + 3) div 4 * 4 = ?L" by simp
  define h where "h = mpd_header 0 (of_nat i) (of_nat (?L div 4)) 0 0 ack (uid s)"
  define t :: "U8 list" where "t = [0x01, of_nat (4 + 4 * length bs), of_bool first]"
  have lh: "length h = 12" and lt: "length t = 3" by (simp_all add: h_def t_def)
  define junk where "junk = map (env_junk env (brk s)) [0..<?L]"
  have junk: "length junk = ?L" by (simp add: junk_def)
  define s1 where "s1 = s\<lparr>mem := (mem s)(brk s \<mapsto> junk), brk := brk s + 1\<rparr>"
  let ?m = "h @ t @ [junk ! 15] @ sack_bytes bs"
  have a: "MPD_MsgMemCreat env ?L s = (brk s, s1)" using assms(2) by (simp add: MPD_MsgMemCreat_def junk_def s1_def)
  have w1: "mem_write (brk s) 0 h s1 = Inr (s1\<lparr>mem := (mem s1)(brk s \<mapsto> h @ drop 12 junk)\<rparr>)"
    using mem_write_live[of s1 "brk s" junk 0 h] assms(3) junk lh by (simp add: s1_def)
  have w2: "mem_write (brk s) 12 t (s1\<lparr>mem := (mem s1)(brk s \<mapsto> h @ drop 12 junk)\<rparr>)
      = Inr (s1\<lparr>mem := (mem s1)(brk s \<mapsto> h @ t @ drop 15 junk)\<rparr>)"
    using mem_write_live[of "s1\<lparr>mem := (mem s1)(brk s \<mapsto> h @ drop 12 junk)\<rparr>" "brk s" "h @ drop 12 junk" 12 t]
      assms(3) junk lh lt by simp
  have "take (Suc 0) (drop 15 junk) = [junk ! 15]" using junk by (simp add: take_Suc_conv_app_nth)
  then have w3: "mem_write (brk s) 16 (sack_bytes bs) (s1\<lparr>mem := (mem s1)(brk s \<mapsto> h @ t @ drop 15 junk)\<rparr>)
      = Inr (s1\<lparr>mem := (mem s1)(brk s \<mapsto> ?m)\<rparr>)"
    using mem_write_live[of "s1\<lparr>mem := (mem s1)(brk s \<mapsto> h @ t @ drop 15 junk)\<rparr>" "brk s" "h @ t @ drop 15 junk"
        16 "sack_bytes bs"] assms(3) junk lh lt by simp
  have u: "uid s1 = uid s" "trace s1 = trace s" by (simp_all add: s1_def)
  have tr: "trace (upd_tx i f x) = trace x" for f and x :: mpd_st by (simp add: upd_tx_def)
  have msg: "?m = sack_message ack bs i first (uid s) (junk ! 15)"
    by (simp only: sack_message_def h_def t_def append.simps append_assoc)
  have b: "LEN_MPD_HEADER + 4 = (16 :: nat)" by simp
  have "\<exists>s'. MPD_SubWinSendSackPacketMsg env ack bs i first s = Inr s' \<and>
     trace s' = EvSend (MPD_GetDeviceId i) (brk s) ?m ?L True # trace s"
    unfolding MPD_SubWinSendSackPacketMsg_def Let_def if_P[OF num] len msgLen a prod.case if_not_P[OF assms(3)] b
      u h_def[symmetric] t_def[symmetric]
    using assms(3) by (simp add: u tr w1 w2 w3 MPD_OnSendMPDataComplete_def Let_def mem_block_def)
  then show ?thesis unfolding msg by blast
qed

lemma sack_message_nth:
  "sack_message ack bs i first u j ! 12 = 0x01"
  "sack_message ack bs i first u j ! 13 = of_nat (4 + 4 * length bs)"
  "sack_message ack bs i first u j ! 14 = of_bool first"
  "hdr_stream (sack_message ack bs i first u j ! 1) = of_nat i AND 3"
  "hdr_length (sack_message ack bs i first u j ! 1) = of_nat ((16 + 4 * length bs) div 4) AND 15"
  "be16 (sack_message ack bs i first u j ! 6) (sack_message ack bs i first u j ! 7) = ack"
  by (simp_all add: sack_message_def nth_append byte_simps)

lemma num_sack_blocks: "n \<le> MAX_SACK_NUM \<Longrightarrow> num_sack (of_nat (4 + 4 * n)) = of_nat n"
proof -
  assume n: "n \<le> MAX_SACK_NUM"
  then have "unat (of_nat (4 + 4 * n) :: U8) = 4 + 4 * n"
    by (subst unat_of_nat) simp
  then show ?thesis
    by (simp add: num_sack_def del: of_nat_add of_nat_mult) (simp flip: of_nat_div)
qed

lemma read_sack_block_message:
  assumes "mem t a = Some (sack_message ack bs i first u j)" and "a \<noteq> 0" and "k < length bs"
  shows "read_sack_block a 12 k t = Inr (t\<lparr>sackBlock := (sackBlock t)(k :=
      \<lparr>leftEdgeSSN = fst (bs ! k), rightEdgeSSN = snd (bs ! k)\<rparr>)\<rparr>)"
proof -
  let ?p = "mpd_header 0 (of_nat i) (of_nat ((16 + 4 * length bs) div 4)) 0 0 ack u
     @ [0x01, of_nat (4 + 4 * length bs), of_bool first, j]"
  have "drop (12 + 4 + 4 * k) (?p @ sack_bytes bs) = drop (4 * k) (sack_bytes bs @ [])"
    by (simp only: drop_append length_append length_mpd_header) simp
  then obtain ys where "drop (12 + 4 + 4 * k) (sack_message ack bs i first u j) =
     [hi8 (fst (bs ! k)), lo8 (fst (bs ! k)), hi8 (snd (bs ! k)), lo8 (snd (bs ! k))] @ ys"
    using drop_sack_bytes[OF assms(3), of "[]"] by (auto simp: sack_message_def)
  then have "mem_read t a (12 + 4 + 4 * k) 4 =
     Inr [hi8 (fst (bs ! k)), lo8 (fst (bs ! k)), hi8 (snd (bs ! k)), lo8 (snd (bs ! k))]"
    using assms by (simp add: mem_read_def mem_block_def)
  then show ?thesis by (simp add: read_sack_block_def byte_simps)
qed

lemma read_sack_blocks:
  assumes "mem t a = Some (sack_message ack bs i first u j)" and "a \<noteq> 0"
  shows "\<exists>t'. forR (read_sack_block a 12) [0..<length bs] t = Inr t' \<and>
     (\<forall>k < length bs. sackBlock t' k = \<lparr>leftEdgeSSN = fst (bs ! k), rightEdgeSSN = snd (bs ! k)\<rparr>)"
proof -
  let ?P = "\<lambda>n (t' :: mpd_st). mem t' a = Some (sack_message ack bs i first u j) \<and>
     (\<forall>k < n. k < length bs \<longrightarrow> sackBlock t' k = \<lparr>leftEdgeSSN = fst (bs ! k), rightEdgeSSN = snd (bs ! k)\<rparr>)"
  have "\<exists>t'. forR (read_sack_block a 12) [0..<length bs] t = Inr t' \<and> ?P (length bs) t'"
  proof (rule forR_upt[where P = ?P])
    fix k and t' :: mpd_st assume "k < length bs" "?P k t'"
    then show "\<exists>t''. read_sack_block a 12 k t' = Inr t'' \<and> ?P (Suc k) t''"
      using read_sack_block_message[of t' a ack bs i first u j k] assms(2) by (auto simp: less_Suc_eq)
  qed (use assms in simp)
  then show ?thesis by blast
qed

text \<open>
  C8: a SACK message with one to eleven blocks, as the receiver builds it, is what the peer's parser
  reads back from the bytes that were sent: the acknowledgement, the subflow, a header length that
  covers the whole message, the number of blocks, the first-message flag and every block's two edges.
\<close>

theorem sack_roundtrip:
  assumes "bs \<noteq> []" and "length bs \<le> MAX_SACK_NUM" and "i < NUM_SUBFLOW" and "brk s \<noteq> 0"
    and "env_alloc env (brk s) (trace s) (16 + 4 * length bs)"
  shows "\<exists>s' m. MPD_SubWinSendSackPacketMsg env ack bs i first s = Inr s' \<and>
     trace s' = EvSend (MPD_GetDeviceId i) (brk s) m (length m) True # trace s \<and>
     be16 (m ! 6) (m ! 7) = ack \<and> unat (hdr_stream (m ! 1)) = i \<and> 4 * unat (hdr_length (m ! 1)) = length m \<and>
     m ! 12 = 0x01 \<and> unat (num_sack (m ! 13)) = length bs \<and> m ! 14 = of_bool first \<and>
     (\<forall>t a. a \<noteq> 0 \<and> mem t a = Some m \<longrightarrow> (\<exists>t'. forR (read_sack_block a 12) [0..<length bs] t = Inr t' \<and>
        (\<forall>k < length bs. sackBlock t' k = \<lparr>leftEdgeSSN = fst (bs ! k), rightEdgeSSN = snd (bs ! k)\<rparr>)))"
proof -
  obtain s' j where s': "MPD_SubWinSendSackPacketMsg env ack bs i first s = Inr s'"
      "trace s' = EvSend (MPD_GetDeviceId i) (brk s) (sack_message ack bs i first (uid s) j) (16 + 4 * length bs) True # trace s"
    using SendSack_bytes[OF assms(1,5,4)] by blast
  let ?m = "sack_message ack bs i first (uid s) j"
  have n: "unat (num_sack (?m ! 13)) = length bs"
    unfolding sack_message_nth num_sack_blocks[OF assms(2)] using assms(2) by (simp add: unat_of_nat)
  have st: "unat (hdr_stream (?m ! 1)) = i"
    unfolding sack_message_nth by (rule stream_bits[OF assms(3)])
  have "(16 + 4 * length bs) div 4 \<le> 15" using assms(2) by simp
  then have "(of_nat ((16 + 4 * length bs) div 4) AND 15 :: U8) = of_nat ((16 + 4 * length bs) div 4)"
    by (rule and_15_small)
  moreover have "4 * unat (of_nat ((16 + 4 * length bs) div 4) :: U8) = 16 + 4 * length bs"
    using assms(2) by (subst unat_of_nat) simp
  ultimately have l: "4 * unat (hdr_length (?m ! 1)) = length ?m" unfolding sack_message_nth by simp
  show ?thesis
    using s' n st l read_sack_blocks[of _ _ ack bs i first "uid s" j] sack_message_nth[of ack bs i first "uid s" j]
    by (intro exI[of _ s'] exI[of _ ?m]) simp
qed

section \<open>A split packet\<close>

lemma split_parts:
  assumes "mem s a = Some bs" and "a \<noteq> 0" and "a < brk s" and "int (length bs) = len" and "LEN_DATA_TH \<le> len"
    and "env_alloc env (brk s) (trace s) 1012" and "env_alloc env (Suc (brk s)) (trace s) (nat len - 1000)"
  shows "\<exists>s' j. MPD_SplitDataMem env a len s =
     Inr (0, Some \<lparr>pFirstBlockAddr = brk s, firstBlockLength = 1012, pLastBlockAddr = brk s + 1,
                   lastBlockLength = len - 1000\<rparr>, s') \<and>
     mem s' = (mem s)(brk s \<mapsto> take 1012 bs, brk s + 1 \<mapsto> j @ drop 1012 bs, a := None) \<and> length j = 12"
proof -
  have len: "1480 \<le> length bs" "nat len = length bs" using assms(4,5) by auto
  define j1 where "j1 = map (env_junk env (brk s)) [0..<1012]"
  define j2 where "j2 = map (env_junk env (brk s + 1)) [0..<length bs - 1000]"
  have j: "length j1 = 1012" "length j2 = length bs - 1000" by (simp_all add: j1_def j2_def)
  define s1 where "s1 = s\<lparr>mem := (mem s)(brk s \<mapsto> j1), brk := brk s + 1\<rparr>"
  define s2 where "s2 = s1\<lparr>mem := (mem s1)(brk s \<mapsto> take 1012 bs)\<rparr>"
  define s3 where "s3 = s2\<lparr>mem := (mem s2)(brk s + 1 \<mapsto> j2), brk := brk s + 2\<rparr>"
  define s4 where "s4 = s3\<lparr>mem := (mem s3)(brk s + 1 \<mapsto> take 12 j2 @ drop 1012 bs)\<rparr>"
  have a1: "MPD_MsgMemCreat env (LEN_FIRST_DATA_FRAG + LEN_MPD_HEADER) s = (brk s, s1)"
    using assms(6) by (simp add: MPD_MsgMemCreat_def s1_def j1_def)
  have m1: "mem s1 a = Some bs" using assms(1,3) by (simp add: s1_def)
  have r1: "mem_read s1 a 0 (LEN_FIRST_DATA_FRAG + LEN_MPD_HEADER) = Inr (take 1012 bs)"
    using mem_read_live[OF m1 assms(2), of 0 1012] len by simp
  have w1: "mem_write (brk s) 0 (take 1012 bs) s1 = Inr s2"
    using mem_write_live[of s1 "brk s" j1 0 "take 1012 bs"] assms(3) j len by (simp add: s1_def s2_def)
  have a2: "MPD_MsgMemCreat env (nat len - LEN_FIRST_DATA_FRAG) s2 = (brk s + 1, s3)"
    using assms(7) len by (simp add: MPD_MsgMemCreat_def s3_def s2_def s1_def j2_def)
  have m3: "mem s3 a = Some bs" using m1 assms(3) by (simp add: s3_def s2_def)
  have r2: "mem_read s3 a (LEN_FIRST_DATA_FRAG + LEN_MPD_HEADER) (nat len - LEN_FIRST_DATA_FRAG - LEN_MPD_HEADER) = Inr (drop 1012 bs)"
    using mem_read_live[OF m3 assms(2), of 1012 "length bs - 1012"] len by simp
  have w2: "mem_write (brk s + 1) LEN_MPD_HEADER (drop 1012 bs) s3 = Inr s4"
    using mem_write_live[of s3 "brk s + 1" j2 12 "drop 1012 bs"] j len by (simp add: s3_def s4_def)
  have m4: "mem s4 a = Some bs" using m3 assms(3) by (simp add: s4_def)
  have f: "MPD_MsgMemfree a s4 = Inr (s4\<lparr>mem := (mem s4)(a := None)\<rparr>)"
    using m4 assms(2) by (simp add: MPD_MsgMemfree_def)
  have c: "\<not> len < int LEN_FIRST_DATA_FRAG" "\<not> nat len - LEN_FIRST_DATA_FRAG < LEN_MPD_HEADER" "brk s \<noteq> 0" "brk s + 1 \<noteq> 0"
    using assms(3,5) len by auto
  have l: "int (nat len - LEN_FIRST_DATA_FRAG) = len - 1000" using len by simp
  have e: "MPD_SplitDataMem env a len s =
     Inr (0, Some \<lparr>pFirstBlockAddr = brk s, firstBlockLength = 1012, pLastBlockAddr = brk s + 1,
                   lastBlockLength = len - 1000\<rparr>, s4\<lparr>mem := (mem s4)(a := None)\<rparr>)"
    unfolding MPD_SplitDataMem_def Let_def if_not_P[OF c(1)] a1 prod.case if_not_P[OF c(3)] r1 bindR.simps w1 a2
      if_not_P[OF c(4)] if_not_P[OF c(2)] r2 w2 f l by simp
  have "mem (s4\<lparr>mem := (mem s4)(a := None)\<rparr>) = (mem s)(brk s \<mapsto> take 1012 bs, brk s + 1 \<mapsto> take 12 j2 @ drop 1012 bs, a := None)"
    using assms(3) by (simp add: s4_def s3_def s2_def s1_def)
  moreover have "length (take 12 j2) = 12" using j len by simp
  ultimately show ?thesis using e by blast
qed

lemma reassemble_parts:
  assumes "mem t p = Some (h @ d)" and "mem t q = Some (h' @ d')" and "p \<noteq> 0" and "q \<noteq> 0" and "p < brk t" and "q < brk t"
    and "length h = 12" and "length h' = 12" and "msgPtr n 0 = p" and "msgPtr n 1 = q" and "mpdHeadLen n = 12"
    and "unat (msgLen n 0) = 12 + length d" and "unat (msgLen n 1) = 12 + length d'" and "12 + length d + length d' < 65536"
    and "env_alloc env (brk t) (trace t) (12 + length d + length d')"
  shows "\<exists>t'. DataWin_reassemble env n t = Inr t' \<and>
     trace t' = EvPost (brk t) (h @ d @ d') (12 + length d + length d') 12 # trace t \<and> mem t' = (mem t)(brk t := None)"
proof -
  let ?N = "12 + length d + length d'"
  have m0: "msgLen n 0 = of_nat (12 + length d)" "msgLen n 1 = of_nat (12 + length d')"
    unfolding assms(12,13)[symmetric] by simp_all
  have tot: "unat (frag_total n) = ?N"
  proof -
    have "frag_total n = of_nat ?N" unfolding frag_total_def m0 assms(11) by simp
    then show ?thesis using assms(14) by (simp add: unat_of_nat del: of_nat_add)
  qed
  have mid: "unat (word_of_int (int (12 + length d) - int 12) :: U16) = length d"
    using assms(14) by (simp add: unat_of_nat)
  define junk where "junk = map (env_junk env (brk t)) [0..<?N]"
  have junk: "length junk = ?N" by (simp add: junk_def)
  define t1 where "t1 = t\<lparr>mem := (mem t)(brk t \<mapsto> junk), brk := brk t + 1\<rparr>"
  define t2 where "t2 = t1\<lparr>mem := (mem t1)(brk t \<mapsto> h @ drop 12 junk)\<rparr>"
  define t3 where "t3 = t2\<lparr>mem := (mem t2)(brk t \<mapsto> h @ d @ drop (12 + length d) junk)\<rparr>"
  define t4 where "t4 = t3\<lparr>mem := (mem t3)(brk t \<mapsto> h @ d @ d')\<rparr>"
  note td = t4_def t3_def t2_def t1_def
  have b: "brk t \<noteq> 0" using assms(5) by simp
  have a: "MPD_MsgMemCreat env ?N t = (brk t, t1)" using assms(15) by (simp add: MPD_MsgMemCreat_def t1_def junk_def)
  have p: "mem t1 p = Some (h @ d)" "mem t2 p = Some (h @ d)" "mem t3 q = Some (h' @ d')"
    using assms(1,2,5,6) by (simp_all add: td)
  have c1: "copy_part (brk t) 0 p 0 (int 12) t1 = Inr t2"
    using mem_read_live[OF p(1) assms(3), of 0 12] mem_write_live[of t1 "brk t" junk 0 h] assms(7) b junk
    by (simp add: copy_part_def t2_def t1_def)
  have c2: "copy_part (brk t) 12 p 12 (int (12 + length d) - int 12) t2 = Inr t3"
    using mem_read_live[OF p(2) assms(3), of 12 "length d"]
      mem_write_live[of t2 "brk t" "h @ drop 12 junk" 12 d] assms(7) b junk
    by (simp add: copy_part_def t3_def t2_def add.commute)
  have c3: "copy_part (brk t) (12 + length d) q 12 (int (12 + length d') - int 12) t3 = Inr t4"
    using mem_read_live[OF p(3) assms(4), of 12 "length d'"]
      mem_write_live[of t3 "brk t" "h @ d @ drop (12 + length d) junk" "12 + length d" d'] assms(7,8) b junk
    by (simp add: copy_part_def t4_def t3_def add.commute)
  have h: "unat (mpdHeadLen n) = 12" using assms(11) by simp
  have "DataWin_reassemble env n t = MPD_PostPreMPDataToTransport (brk t) ?N 12 t4"
    unfolding DataWin_reassemble_def Let_def tot a prod.case if_not_P[OF b] h assms(9,10,12,13) mid c1 c2 c3 bindR.simps ..
  moreover have "mem t4 (brk t) = Some (h @ d @ d')" "trace t4 = trace t" by (simp_all add: td)
  ultimately show ?thesis
    using b by (simp add: MPD_PostPreMPDataToTransport_def mem_block_def) (simp add: td)
qed

text \<open>
  C20: a packet of at least 1480 bytes that is cut in two arrives whole: the two parts carry all of its
  payload behind room for a header of their own, the original is released, and a receiver whose slot
  holds the two parts, whatever headers were written in front of them, hands the transport one buffer
  with the first header and the whole payload, its length the length of the original.
\<close>

theorem split_reassemble:
  assumes "mem s a = Some bs" and "a \<noteq> 0" and "a < brk s" and "int (length bs) = len" and "LEN_DATA_TH \<le> len" and "len < 65536"
    and "env_alloc env (brk s) (trace s) 1012" and "env_alloc env (Suc (brk s)) (trace s) (nat len - 1000)"
  shows "\<exists>s' r f g. MPD_SplitDataMem env a len s = Inr (0, Some r, s') \<and> mem s' a = None \<and>
     mem s' (pFirstBlockAddr r) = Some f \<and> int (length f) = firstBlockLength r \<and>
     mem s' (pLastBlockAddr r) = Some g \<and> int (length g) = lastBlockLength r \<and>
     (\<forall>env' t n p q h h'. p \<noteq> 0 \<and> q \<noteq> 0 \<and> p < brk t \<and> q < brk t \<and> length h = 12 \<and> length h' = 12 \<and>
        mem t p = Some (h @ drop 12 f) \<and> mem t q = Some (h' @ drop 12 g) \<and> msgPtr n 0 = p \<and> msgPtr n 1 = q \<and>
        mpdHeadLen n = 12 \<and> unat (msgLen n 0) = length f \<and> unat (msgLen n 1) = length g \<and>
        env_alloc env' (brk t) (trace t) (length bs) \<longrightarrow>
        (\<exists>t'. DataWin_reassemble env' n t = Inr t' \<and>
           trace t' = EvPost (brk t) (h @ drop 12 bs) (length bs) 12 # trace t))"
proof -
  obtain s' j where s': "MPD_SplitDataMem env a len s =
       Inr (0, Some \<lparr>pFirstBlockAddr = brk s, firstBlockLength = 1012, pLastBlockAddr = brk s + 1,
                     lastBlockLength = len - 1000\<rparr>, s')"
     "mem s' = (mem s)(brk s \<mapsto> take 1012 bs, brk s + 1 \<mapsto> j @ drop 1012 bs, a := None)" "length j = 12"
    using split_parts[OF assms(1-5,7,8)] by blast
  have len: "1480 \<le> length bs" "length bs < 65536" using assms(4-6) by auto
  have parts: "drop 12 (take 1012 bs) @ drop 1012 bs = drop 12 bs"
  proof -
    have "drop 12 (take 1012 bs) = take 1000 (drop 12 bs)" "drop 1012 bs = drop 1000 (drop 12 bs)"
      by (simp_all add: drop_take)
    then show ?thesis by (simp only: append_take_drop_id)
  qed
  have f: "12 + length (drop 12 (take 1012 bs)) = 1012" using len by simp
  have sum: "12 + length (drop 12 (take 1012 bs)) + length (drop 1012 bs) = length bs" using len by simp
  have post: "\<exists>t'. DataWin_reassemble env' n t = Inr t' \<and>
      trace t' = EvPost (brk t) (h @ drop 12 bs) (length bs) 12 # trace t"
    if "p \<noteq> 0 \<and> q \<noteq> 0 \<and> p < brk t \<and> q < brk t \<and> length h = 12 \<and> length h' = 12 \<and>
        mem t p = Some (h @ drop 12 (take 1012 bs)) \<and> mem t q = Some (h' @ drop 1012 bs) \<and> msgPtr n 0 = p \<and> msgPtr n 1 = q \<and>
        mpdHeadLen n = 12 \<and> unat (msgLen n 0) = 1012 \<and> unat (msgLen n 1) = length bs - 1000 \<and>
        env_alloc env' (brk t) (trace t) (length bs)" for env' t n p q h h'
  proof -
    have "12 + length (drop 1012 bs) = length bs - 1000" using len by simp
    with that show ?thesis
      using reassemble_parts[of t p h "drop 12 (take 1012 bs)" q h' "drop 1012 bs" n env'] len
      unfolding sum f parts by auto
  qed
  let ?r = "\<lparr>pFirstBlockAddr = brk s, firstBlockLength = 1012, pLastBlockAddr = brk s + 1, lastBlockLength = len - 1000\<rparr>"
  let ?g = "j @ drop 1012 bs"
  have l: "length (take 1012 bs) = 1012" "length ?g = length bs - 1000" "drop 12 ?g = drop 1012 bs"
    using len s'(3) by simp_all
  have m: "mem s' a = None" "mem s' (brk s) = Some (take 1012 bs)" "mem s' (brk s + 1) = Some ?g"
    using s'(2) assms(3) by simp_all
  have g: "int (length bs - 1000) = len - 1000" using assms(4,5) by simp
  show ?thesis
    by (intro exI[of _ s'] exI[of _ ?r] exI[of _ "take 1012 bs"] exI[of _ ?g])
      (simp only: s'(1) m l g stDataFragmentRec.simps of_nat_numeral, blast intro: post)
qed

section \<open>Instances\<close>

text \<open>One buffer of 1500 bytes, on the session with everything zero.\<close>

definition demo_packet :: "U8 list" where
  "demo_packet = replicate 1500 0"

lemma length_demo_packet [simp]: "length demo_packet = 1500"
  unfolding demo_packet_def by (rule length_replicate)

definition wire_demo :: mpd_st where
  "wire_demo = st_zero\<lparr>mem := [1 \<mapsto> demo_packet], brk := 2\<rparr>"

lemma wire_demo_simps [simp]:
  "mem wire_demo = [1 \<mapsto> demo_packet]" "brk wire_demo = 2" "txDataSn wire_demo = 0"
  "txWindow wire_demo f = txwin_zero" "RxSubWin wire_demo f = subwin_zero"
  by (simp_all add: wire_demo_def st_zero_def user_zero_def stUserInfo.defs mpd_st.defs)

theorem header_roundtrip_witness:
  "\<exists>s' h. MPD_fillMPDHeader 1 1 2 wire_demo = Inr s' \<and> mem s' 1 = Some h \<and> h ! 0 = MPD_PACKTET_FLAG \<and>
     parse_node 1 1500 h = \<lparr>ni_stream = 1, ni_fragment = 2, ni_DSN = txDataSn wire_demo,
        ni_SSN = subflowSn (txWindow wire_demo 1), ni_msgLen = ucast (1500 :: U32), ni_mpdHeadLen = 12, ni_msgPtr = 1\<rparr> \<and>
     be16 (h ! 6) (h ! 7) = rs_begin (RxSubWin wire_demo 1) \<and> drop 12 h = drop 12 demo_packet \<and>
     txDataSn s' = txDataSn wire_demo + 1 \<and>
     subflowSn (txWindow s' 1) = subflowSn (txWindow wire_demo 1) + 1"
  by (rule header_roundtrip) simp_all

theorem sack_roundtrip_witness:
  "\<exists>s' m. MPD_SubWinSendSackPacketMsg env_ok 7 [(9, 12), (14, 14)] 1 True wire_demo = Inr s' \<and>
     trace s' = EvSend 2 2 m (length m) True # trace wire_demo \<and> unat (num_sack (m ! 13)) = 2"
proof -
  let ?bs = "[(9, 12), (14, 14)] :: (U16 \<times> U16) list"
  have "?bs \<noteq> []" "length ?bs \<le> MAX_SACK_NUM" "(1 :: nat) < NUM_SUBFLOW" "brk wire_demo \<noteq> 0"
    "env_alloc env_ok (brk wire_demo) (trace wire_demo) (16 + 4 * length ?bs)"
    by (simp_all add: env_ok_def)
  from sack_roundtrip[OF this, of 7 True] obtain s' m where
    "MPD_SubWinSendSackPacketMsg env_ok 7 ?bs 1 True wire_demo = Inr s'"
    "trace s' = EvSend (MPD_GetDeviceId 1) (brk wire_demo) m (length m) True # trace wire_demo"
    "unat (num_sack (m ! 13)) = length ?bs"
    by (elim exE conjE) (rule that; assumption)
  then show ?thesis by (intro exI[of _ s'] exI[of _ m]) (simp add: MPD_GetDeviceId_def g_sfId2Dev_def)
qed

theorem split_reassemble_witness:
  "\<exists>s' r f. MPD_SplitDataMem env_ok 1 1500 wire_demo = Inr (0, Some r, s') \<and> mem s' 1 = None \<and>
     mem s' (pFirstBlockAddr r) = Some f \<and> int (length f) = firstBlockLength r"
proof -
  have "mem wire_demo 1 = Some demo_packet" "(1 :: nat) \<noteq> 0" "1 < brk wire_demo" "int (length demo_packet) = 1500"
    "LEN_DATA_TH \<le> 1500" "(1500 :: int) < 65536" "env_alloc env_ok (brk wire_demo) (trace wire_demo) 1012"
    "env_alloc env_ok (Suc (brk wire_demo)) (trace wire_demo) (nat 1500 - 1000)"
    by (simp_all add: env_ok_def)
  from split_reassemble[OF this] obtain s' r f where
    "MPD_SplitDataMem env_ok 1 1500 wire_demo = Inr (0, Some r, s')" "mem s' 1 = None"
    "mem s' (pFirstBlockAddr r) = Some f" "int (length f) = firstBlockLength r"
    by (elim exE conjE) (rule that; assumption)
  then show ?thesis by blast
qed

end
