(* ===== verification/MPD_Rings.thy ===== *)
theory MPD_Rings
  imports MPD_Wire
begin

text \<open>
  Two rings of the sender lose their oldest entry when they are full: the transmit window of a
  subflow (1023 packets) and the queue of packets that wait for traffic control (511). The locale
  \<open>drop_oldest\<close> states that contract for a fallible operation on a state; its lemma says what any sequence of
  insertions leaves. \<open>release_oldest\<close> adds what becomes of the memory and \<open>log_numbered\<close> a log of the insertions.
  The rings are interpreted with the code's operations: the sending of a packet, and the queueing of one. The theory also has
  the release of everything a ring holds.
\<close>

section \<open>Rings that lose their oldest entry\<close>

definition newest :: "nat \<Rightarrow> 'a list \<Rightarrow> 'a list" where
  "newest n xs = drop (length xs - n) xs"

lemma newest_short: "length xs \<le> n \<Longrightarrow> newest n xs = xs"
  by (simp add: newest_def)

lemma newest_snoc:
  assumes "length v \<le> n" and "0 < n"
  shows "newest n ((if length v = n then tl v else v) @ y # ys) = newest n (v @ y # ys)"
proof (cases "length v = n")
  case True
  then obtain a w where "v = a # w" using assms(2) by (cases v) auto
  with True show ?thesis by (simp add: newest_def Suc_diff_le)
qed simp

locale drop_oldest =
  fixes put :: "'x \<Rightarrow> 's \<Rightarrow> 's res" and ok :: "'s \<Rightarrow> bool" and avail :: "'x \<Rightarrow> 's \<Rightarrow> bool"
    and view :: "'s \<Rightarrow> 'v list" and item :: "'x \<Rightarrow> 'v" and key :: "'x \<Rightarrow> 'k" and cap :: nat
  assumes cap_pos: "0 < cap"
    and bounded: "ok s \<Longrightarrow> length (view s) \<le> cap"
    and put_ok: "ok s \<Longrightarrow> avail x s \<Longrightarrow> \<exists>s'. put x s = Inr s' \<and> ok s' \<and>
        view s' = (if length (view s) = cap then tl (view s) else view s) @ [item x] \<and>
        (\<forall>y. avail y s \<and> key y \<noteq> key x \<longrightarrow> avail y s')"
begin

lemma put_all:
  assumes "ok s" and "distinct (map key xs)" and "\<forall>x\<in>set xs. avail x s"
  shows "\<exists>s'. forR put xs s = Inr s' \<and> ok s' \<and> view s' = newest cap (view s @ map item xs)"
  using assms
proof (induction xs arbitrary: s)
  case Nil
  then show ?case by (simp add: newest_short bounded)
next
  case (Cons x xs)
  have x: "ok s" "avail x s" using Cons.prems by simp_all
  obtain t where t: "put x s = Inr t" "ok t"
    "view t = (if length (view s) = cap then tl (view s) else view s) @ [item x]"
    "\<forall>y. avail y s \<and> key y \<noteq> key x \<longrightarrow> avail y t"
    using put_ok[OF x] by blast
  have "\<forall>y\<in>set xs. avail y t" using Cons.prems(2,3) t(4) by (auto simp: image_iff)
  obtain s' where s': "forR put xs t = Inr s'" "ok s'" "view s' = newest cap (view t @ map item xs)"
    using Cons.IH[OF t(2)] Cons.prems(2) \<open>\<forall>y\<in>set xs. avail y t\<close> by auto
  have "view t @ map item xs = (if length (view s) = cap then tl (view s) else view s) @ (item x # map item xs)"
    by (simp add: t(3))
  then have "view s' = newest cap (view s @ map item (x # xs))"
    unfolding s'(3) by (simp only: newest_snoc[OF bounded[OF x(1)] cap_pos] list.map)
  with t(1) s'(1,2) show ?case by simp
qed

lemma put_all_room:
  assumes "ok s" and "distinct (map key xs)" and "\<forall>x\<in>set xs. avail x s" and "length (view s) + length xs \<le> cap"
  shows "\<exists>s'. forR put xs s = Inr s' \<and> ok s' \<and> view s' = view s @ map item xs"
  using put_all[OF assms(1-3)] assms(4) by (simp add: newest_short)

end

lemma release_chain:
  "S \<subseteq> T \<union> K \<Longrightarrow> T \<subseteq> H \<Longrightarrow> K \<inter> H = {} \<Longrightarrow> (L - (H - T)) - (T \<union> K - S) = L - (H \<union> K - S)"
  by auto

text \<open>
  The entries own blocks of a memory: what an insertion pushes out of the ring is released, and nothing else. \<open>held\<close> are
  the keys of the blocks that the ring holds, \<open>live\<close> those of the allocated blocks.
\<close>

locale release_oldest = drop_oldest put ok avail view item key cap
  for put :: "'x \<Rightarrow> 's \<Rightarrow> 's res" and ok avail and view :: "'s \<Rightarrow> 'v list" and item and key :: "'x \<Rightarrow> 'k" and cap +
  fixes held :: "'s \<Rightarrow> 'k set" and live :: "'s \<Rightarrow> 'k set"
  assumes put_owns: "ok s \<Longrightarrow> avail x s \<Longrightarrow> put x s = Inr s' \<Longrightarrow> key x \<notin> held s \<and> held s' \<subseteq> insert (key x) (held s)"
    and put_releases: "ok s \<Longrightarrow> avail x s \<Longrightarrow> put x s = Inr s' \<Longrightarrow> live s' = live s - (insert (key x) (held s) - held s')"
begin

lemma avail_free: "ok s \<Longrightarrow> avail x s \<Longrightarrow> key x \<notin> held s"
  using put_ok put_owns by blast

lemma put_all_releases:
  assumes "ok s" and "distinct (map key xs)" and "\<forall>x\<in>set xs. avail x s" and "forR put xs s = Inr s'"
  shows "held s' \<subseteq> held s \<union> key ` set xs \<and> live s' = live s - (held s \<union> key ` set xs - held s')"
  using assms
proof (induction xs arbitrary: s)
  case (Cons x xs)
  have x: "ok s" "avail x s" using Cons.prems by simp_all
  obtain t where t: "put x s = Inr t" "ok t" "\<forall>y. avail y s \<and> key y \<noteq> key x \<longrightarrow> avail y t"
    using put_ok[OF x] by blast
  have "\<forall>y\<in>set xs. avail y t" using Cons.prems(2,3) t(3) by (auto simp: image_iff)
  then have IH: "held s' \<subseteq> held t \<union> key ` set xs" "live s' = live t - (held t \<union> key ` set xs - held s')"
    using Cons.IH[OF t(2)] Cons.prems(2,4) t(1) by simp_all
  have "key ` set xs \<inter> insert (key x) (held s) = {}"
    using avail_free[OF x(1)] Cons.prems(2,3) by auto
  moreover have h: "held t \<subseteq> insert (key x) (held s)" and l: "live t = live s - (insert (key x) (held s) - held t)"
    using put_owns[OF x t(1)] put_releases[OF x t(1)] by simp_all
  ultimately have "live s' = live s - (insert (key x) (held s) \<union> key ` set xs - held s')"
    unfolding IH(2) l using IH(1) by (intro release_chain)
  moreover have "held s' \<subseteq> insert (key x) (held s) \<union> key ` set xs" using IH(1) h by blast
  ultimately show ?case by (simp add: Un_commute)
qed simp

end

text \<open>
  Every insertion is also numbered, and recorded in a log under its number.
\<close>

fun numbered :: "(U16 \<Rightarrow> 'x \<Rightarrow> 'e) \<Rightarrow> U16 \<Rightarrow> 'x list \<Rightarrow> 'e list" where
  "numbered e n [] = []"
| "numbered e n (x # xs) = e n x # numbered e (n + 1) xs"

locale log_numbered = drop_oldest put ok avail view item key cap
  for put :: "'x \<Rightarrow> 's \<Rightarrow> 's res" and ok avail and view :: "'s \<Rightarrow> 'v list" and item and key :: "'x \<Rightarrow> 'k" and cap +
  fixes num :: "'s \<Rightarrow> U16" and log :: "'s \<Rightarrow> 'e list" and entry :: "U16 \<Rightarrow> 'x \<Rightarrow> 'e"
  assumes put_logs: "ok s \<Longrightarrow> avail x s \<Longrightarrow> put x s = Inr s' \<Longrightarrow> log s' = log s @ [entry (num s) x] \<and> num s' = num s + 1"
begin

lemma put_all_logs:
  assumes "ok s" and "distinct (map key xs)" and "\<forall>x\<in>set xs. avail x s" and "forR put xs s = Inr s'"
  shows "log s' = log s @ numbered entry (num s) xs"
  using assms
proof (induction xs arbitrary: s)
  case (Cons x xs)
  have x: "ok s" "avail x s" using Cons.prems by simp_all
  obtain t where t: "put x s = Inr t" "ok t" "\<forall>y. avail y s \<and> key y \<noteq> key x \<longrightarrow> avail y t"
    using put_ok[OF x] by blast
  have "\<forall>y\<in>set xs. avail y t" using Cons.prems(2,3) t(3) by (auto simp: image_iff)
  then show ?case using Cons.IH[OF t(2)] Cons.prems(2,4) put_logs[OF x t(1)] t(1) by simp
qed simp

end

section \<open>The transmit window\<close>

text \<open>
  A packet that is not split goes out on a subflow: header, window, and the call that hands it to the device. The senders go on whatever
  the device answers.
\<close>

definition tx_send :: "rat_env \<Rightarrow> nat \<Rightarrow> addr \<times> int \<Rightarrow> mpd_st \<Rightarrow> mpd_st res" where
  "tx_send env f x s = bindR (send_packet env f None (fst x) (snd x) s) (\<lambda>(_, s). Inr s)"

text \<open>What was handed to the devices: device, buffer, the subflow number in the header, and length; oldest first.\<close>

fun sends :: "mpd_event list \<Rightarrow> (int \<times> addr \<times> U16 \<times> nat) list" where
  "sends [] = []"
| "sends (EvSend fd a bs len release # es) = sends es @ [(fd, a, be16 (bs ! 4) (bs ! 5), len)]"
| "sends (e # es) = sends es"

definition tx_avail :: "nat \<Rightarrow> addr \<times> int \<Rightarrow> mpd_st \<Rightarrow> bool" where
  "tx_avail f x s \<longleftrightarrow> fst x \<noteq> 0 \<and> fst x \<notin> set (tx_bufs (txWindow s f)) \<and>
     (\<exists>bs. mem s (fst x) = Some bs \<and> LEN_MPD_HEADER \<le> length bs)"

definition tx_view :: "nat \<Rightarrow> mpd_st \<Rightarrow> addr list" where
  "tx_view f s = map pData (tx_queue (txWindow s f))"

lemma fillMPDHeader_ok:
  assumes "mem s a = Some bs" and "a \<noteq> 0" and "LEN_MPD_HEADER \<le> length bs"
  shows "\<exists>s' h. MPD_fillMPDHeader f a frag s = Inr s' \<and> mem s' = (mem s)(a \<mapsto> h @ drop 12 bs) \<and> length h = 12 \<and>
     be16 (h ! 4) (h ! 5) = subflowSn (txWindow s f) \<and>
     txWindow s' = (txWindow s)(f := (txWindow s f)\<lparr>subflowSn := subflowSn (txWindow s f) + 1\<rparr>)"
proof -
  let ?h = "mpd_header frag (of_nat f) 3 (txDataSn s) (subflowSn (txWindow s f)) (rs_begin (RxSubWin s f)) (uid s)"
  let ?s1 = "upd_sub f (\<lambda>w. w\<lparr>SentAck := rs_begin (RxSubWin s f)\<rparr>) s"
  have "mem_write a 0 ?h ?s1 = Inr (?s1\<lparr>mem := (mem ?s1)(a \<mapsto> ?h @ drop 12 bs)\<rparr>)"
    using mem_write_live[of ?s1 a bs 0 ?h] assms by simp
  then have "MPD_fillMPDHeader f a frag s = Inr (upd_tx f (\<lambda>w. w\<lparr>subflowSn := subflowSn w + 1\<rparr>)
      (?s1\<lparr>mem := (mem ?s1)(a \<mapsto> ?h @ drop 12 bs), txDataSn := txDataSn s + 1\<rparr>))" (is "_ = Inr ?t")
    by (simp add: MPD_fillMPDHeader_def MPD_GetSubFlowAck_def Let_def rs_begin_def[symmetric] upd_sub_def)
  moreover have "mem ?t = (mem s)(a \<mapsto> ?h @ drop 12 bs)" "length ?h = 12" "be16 (?h ! 4) (?h ! 5) = subflowSn (txWindow s f)"
    "txWindow ?t = (txWindow s)(f := (txWindow s f)\<lparr>subflowSn := subflowSn (txWindow s f) + 1\<rparr>)"
    by (simp_all add: byte_simps)
  ultimately show ?thesis by blast
qed

lemma node_bufs_put_node: "a \<noteq> 0 \<Longrightarrow> node_bufs (put_node d sn a t len n) = [a]"
  by (simp add: node_bufs_def put_node_def)

lemma subflowSn_tx_push: "subflowSn (tx_push g sn w) = subflowSn w"
  by (simp add: tx_push_def Let_def)

lemma tx_push_queue:
  assumes "wf_sn sn w" and "dn_SSN (g (dataNode w (pTxNext w))) = sn"
  shows "wf_sn (sn + 1) (tx_push g (sn + 1) w)"
    and "tx_queue (tx_push g (sn + 1) w) = (if tx_full w then tl (tx_queue w) else tx_queue w) @ [g (dataNode w (pTxNext w))]"
  using tx_push_full[of sn w g] tx_push_not_full[of sn w g] assms by (cases "tx_full w"; simp)+

lemma own_after_drop:
  assumes "bs = D @ K" and "distinct bs" and "set bs \<subseteq> dom m" and "a \<notin> set bs" and "m' = (m(a \<mapsto> x)) |` (- set D)"
  shows "distinct (K @ [a])" and "set (K @ [a]) \<subseteq> dom m'"
  using assms by (auto simp: restrict_map_def)

lemma avail_after_drop:
  assumes "bs = D @ K" and "m' = (m(a \<mapsto> x)) |` (- set D)" and "b \<notin> set bs" and "b \<noteq> a"
  shows "m' b = m b" and "b \<notin> set (K @ [a])"
  using assms by auto

lemma dom_after_drop:
  assumes "bs = D @ K" and "distinct bs" and "a \<notin> set bs" and "m a \<noteq> None" and "m' = (m(a \<mapsto> x)) |` (- set D)"
  shows "dom m' = dom m - (insert a (set bs) - set (K @ [a]))" and "set (K @ [a]) \<subseteq> insert a (set bs)"
  using assms by (auto simp: restrict_map_def split: if_splits)

lemma tx_push_at: "dataNode (tx_push g sn w) (pTxNext w) = g (dataNode w (pTxNext w))"
  by (simp add: tx_push_def Let_def MPD_txBeginInc_def upd_node_def tx_inc_def)

lemma put_block_ok:
  assumes "tx_owned f s" and "tx_avail f x s"
  obtains t s' bs where "MPD_fillMPDHeader f (fst x) 0 s = Inr t" "MPD_putDataToTxWin f (fst x) (snd x) t = Inr (pTxNext (txWindow s f), s')"
    "tx_owned f s'" "subflowSn (txWindow s' f) = subflowSn (txWindow s f) + 1"
    "mem s' (fst x) = Some bs" "be16 (bs ! 4) (bs ! 5) = subflowSn (txWindow s f)"
    "pData (dataNode (txWindow s' f) (pTxNext (txWindow s f))) = fst x"
    "transState (dataNode (txWindow s' f) (pTxNext (txWindow s f))) = WAITING_SEND"
    "payloadLen (dataNode (txWindow s' f) (pTxNext (txWindow s f))) = word_of_int (snd x)"
    "dom (mem s') = dom (mem s) - (insert (fst x) (set (tx_bufs (txWindow s f))) - set (tx_bufs (txWindow s' f)))"
    "set (tx_bufs (txWindow s' f)) \<subseteq> insert (fst x) (set (tx_bufs (txWindow s f)))"
    "tx_view f s' = (if length (tx_view f s) = 1023 then tl (tx_view f s) else tx_view f s) @ [fst x]"
    "\<forall>y. tx_avail f y s \<and> fst y \<noteq> fst x \<longrightarrow> tx_avail f y s'"
proof -
  let ?w = "txWindow s f" and ?a = "fst x"
  let ?sn = "subflowSn ?w"
  have own: "wf_sn ?sn ?w" "distinct (tx_bufs ?w)" "set (tx_bufs ?w) \<subseteq> dom (mem s)"
    using assms(1) by (auto simp: tx_owned_def wf_tx_def)
  obtain bs where a: "?a \<noteq> 0" "?a \<notin> set (tx_bufs ?w)" "mem s ?a = Some bs" "LEN_MPD_HEADER \<le> length bs"
    using assms(2) by (auto simp: tx_avail_def)
  obtain t h where t: "MPD_fillMPDHeader f ?a 0 s = Inr t" "mem t = (mem s)(?a \<mapsto> h @ drop 12 bs)" "length h = 12"
    "be16 (h ! 4) (h ! 5) = ?sn" "txWindow t = (txWindow s)(f := ?w\<lparr>subflowSn := ?sn + 1\<rparr>)"
    using fillMPDHeader_ok[OF a(3,1,4)] by blast
  let ?v = "?w\<lparr>subflowSn := ?sn + 1\<rparr>"
  have v: "tx_queue ?v = tx_queue ?w" "tx_full ?v = tx_full ?w" "wf_sn ?sn ?v" "tx_bufs ?v = tx_bufs ?w"
    using own(1) by (simp_all add: tx_queue_def tx_full_def tx_len_def tx_idx_def wf_sn_def tx_bufs_def)
  have ln: "length (tx_view f s) = 1023 \<longleftrightarrow> tx_full ?w" by (simp add: tx_view_def tx_full_def)
  have ne: "tx_full ?w \<Longrightarrow> tx_queue ?w = dataNode ?w (pTxBegin ?w) # tl (tx_queue ?w)"
    using tx_queue_Cons[OF own(1)] by (simp add: tx_full_def)
  let ?hd = "node_bufs (dataNode ?w (pTxBegin ?w))"
  let ?drop = "if tx_full ?w then ?hd else []"
  let ?keep = "if tx_full ?w then tl (tx_queue ?w) else tx_queue ?w"
  have split: "tx_bufs ?w = ?drop @ concat (map node_bufs ?keep)"
    unfolding tx_bufs_def using ne by (cases "tx_full ?w") (simp, metis concat.simps(2) list.map(2), simp)
  let ?bs = "h @ drop 12 bs"
  let ?g = "put_node (be16 (?bs ! 2) (?bs ! 3)) ?sn ?a (g_time t) (snd x)"
  have "\<exists>s' W. MPD_putDataToTxWin f ?a (snd x) t = Inr (pTxNext (txWindow t f), s') \<and>
      tx_frame t ((txWindow t)(f := W)) (if tx_full (txWindow t f) then node_bufs (dataNode (txWindow t f) (pTxBegin (txWindow t f))) else []) s' \<and>
      same_ring W (tx_push ?g (?sn + 1) (txWindow t f))"
  proof (rule putDataToTxWin_ok)
    show "mem t ?a = Some ?bs" "?a \<noteq> 0" "6 \<le> length ?bs" using t(2,3) a(1) by simp_all
    show "be16 (?bs ! 4) (?bs ! 5) = ?sn" using t(3,4) by (simp add: nth_append)
    show "wf_sn ?sn (txWindow t f)" "subflowSn (txWindow t f) = ?sn + 1" using t(5) v(3) by simp_all
    assume "tx_full (txWindow t f)"
    then have "set ?hd \<subseteq> set (tx_bufs ?w)" using t(5) v(2) split by auto
    then show "set (node_bufs (dataNode (txWindow t f) (pTxBegin (txWindow t f)))) \<subseteq> dom (mem t)"
      using own(3) t(2,5) by auto
  qed
  then obtain s' W where s': "MPD_putDataToTxWin f ?a (snd x) t = Inr (pTxNext ?w, s')"
      "tx_frame t ((txWindow t)(f := W)) ?drop s'" "same_ring W (tx_push ?g (?sn + 1) ?v)"
    using t(5) v(2) by auto
  note fr = tx_frameD[OF s'(2)] and push = tx_push_queue[OF v(3), of ?g] and W = same_ring_cong[OF s'(3)]
  have g: "dn_SSN (?g n) = ?sn" "pData (?g n) = ?a" "node_bufs (?g n) = [?a]" for n
    using a(1) by (simp_all add: put_node_def node_bufs_put_node) (simp add: node_bufs_def)
  have q: "tx_queue (txWindow s' f) = ?keep @ [?g (dataNode ?v (pTxNext ?v))]"
    using fr(1) W(2) push(2) g(1) v(1,2) by simp
  have bufs: "tx_bufs (txWindow s' f) = concat (map node_bufs ?keep) @ [?a]"
    unfolding tx_bufs_def q by (simp add: g)
  have sn: "wf_tx (txWindow s' f)"
    unfolding wf_tx_def using fr(1) W(4,7) push(1)[OF g(1)] by (simp add: subflowSn_tx_push)
  have m: "mem s' = ((mem s)(?a \<mapsto> ?bs)) |` (- set ?drop)" using fr(2) t(2) by simp
  have own': "tx_owned f s'"
    unfolding tx_owned_def bufs
    using sn own_after_drop[OF split own(2,3) a(2) m] by simp
  have view: "tx_view f s' = (if length (tx_view f s) = 1023 then tl (tx_view f s) else tx_view f s) @ [?a]"
    unfolding ln by (simp add: tx_view_def q g map_tl)
  have "tx_avail f y s'" if "tx_avail f y s" "fst y \<noteq> ?a" for y
    using that avail_after_drop[OF split m, of "fst y"] unfolding tx_avail_def bufs by auto
  then have avail: "\<forall>y. tx_avail f y s \<and> fst y \<noteq> ?a \<longrightarrow> tx_avail f y s'" by blast
  have node: "dataNode (txWindow s' f) (pTxNext ?w) = ?g (dataNode ?v (pTxNext ?v))"
    using fr(1) s'(3) tx_push_at[of ?g "?sn + 1" ?v] by (simp add: same_ring_def)
  have "mem s ?a \<noteq> None" using a(3) by simp
  note after = dom_after_drop[OF split own(2) a(2) this m]
  have dom: "dom (mem s') = dom (mem s) - (insert ?a (set (tx_bufs ?w)) - set (tx_bufs (txWindow s' f)))"
    unfolding bufs by (rule after(1))
  have "?a \<notin> set ?drop" using a(2) unfolding split by simp
  then have held: "mem s' ?a = Some ?bs" by (simp add: m)
  have "set (tx_bufs (txWindow s' f)) \<subseteq> insert ?a (set (tx_bufs ?w))" unfolding bufs by (rule after(2))
  moreover note held
  moreover have "be16 (?bs ! 4) (?bs ! 5) = ?sn" using t(3,4) by (simp add: nth_append)
  moreover have "subflowSn (txWindow s' f) = ?sn + 1" using fr(1) W(7) by (simp add: subflowSn_tx_push)
  ultimately show ?thesis
    using that[OF t(1) s'(1) own' _ _ _ _ _ _ dom _ view avail] by (simp add: node put_node_def)
qed

text \<open>The call that hands the packet over marks its node, and releases nothing.\<close>

lemma tx_marked:
  fixes w :: stTxWin and k :: U16
  assumes "transState (dataNode w i) \<noteq> DATA_INIT"
  defines "v \<equiv> (upd_node i (\<lambda>n. n\<lparr>transState := WAITING_ACK\<rparr>) w)\<lparr>ackTimeOutcnt := k\<rparr>"
  shows "tx_bufs v = tx_bufs w" "map pData (tx_queue v) = map pData (tx_queue w)" "wf_tx v = wf_tx w" "subflowSn v = subflowSn w"
proof -
  have q: "tx_queue v = map (\<lambda>j. ((dataNode w)(i := (dataNode w i)\<lparr>transState := WAITING_ACK\<rparr>)) (tx_idx w j)) [0..<tx_len w]"
    by (simp add: v_def tx_queue_def tx_idx_def tx_len_def)
  have "node_bufs (((dataNode w)(i := (dataNode w i)\<lparr>transState := WAITING_ACK\<rparr>)) j) = node_bufs (dataNode w j)"
    and "pData (((dataNode w)(i := (dataNode w i)\<lparr>transState := WAITING_ACK\<rparr>)) j) = pData (dataNode w j)"
    and ssn: "dn_SSN (((dataNode w)(i := (dataNode w i)\<lparr>transState := WAITING_ACK\<rparr>)) j) = dn_SSN (dataNode w j)" for j
    using assms(1) by (simp_all add: node_bufs_def)
  then show "tx_bufs v = tx_bufs w" "map pData (tx_queue v) = map pData (tx_queue w)"
    unfolding tx_bufs_def q by (simp_all add: tx_queue_def comp_def)
  show "subflowSn v = subflowSn w" by (simp add: v_def)
  show "wf_tx v = wf_tx w" using ssn by (simp add: v_def wf_tx_def wf_sn_def tx_len_def tx_idx_def)
qed

lemma fill_trace: "MPD_fillMPDHeader f a frag s = Inr t \<Longrightarrow> trace t = trace s"
  by (auto simp: MPD_fillMPDHeader_def MPD_GetSubFlowAck_def mem_write_def mem_block_def bindR_Inr_iff Let_def upd_sub_def
      split: option.splits if_splits)

lemma put_sends: "MPD_putDataToTxWin f a len s = Inr (i, s') \<Longrightarrow> sends (trace s') = sends (trace s)"
  by (auto simp: MPD_putDataToTxWin_def MPD_txNextInc_def MPD_freeTxBeginData_def MPD_MsgMemfree_def MPD_RetransMsgMemfree_def
      mem_block_def bindR_Inr_iff Let_def split: option.splits if_splits)

lemma tx_send_ok:
  assumes "tx_owned f s" and "tx_avail f x s"
  shows "\<exists>s'. tx_send env f x s = Inr s' \<and> tx_owned f s' \<and>
     tx_view f s' = (if length (tx_view f s) = 1023 then tl (tx_view f s) else tx_view f s) @ [fst x] \<and>
     (\<forall>y. tx_avail f y s \<and> fst y \<noteq> fst x \<longrightarrow> tx_avail f y s') \<and>
     dom (mem s') = dom (mem s) - (insert (fst x) (set (tx_bufs (txWindow s f))) - set (tx_bufs (txWindow s' f))) \<and>
     set (tx_bufs (txWindow s' f)) \<subseteq> insert (fst x) (set (tx_bufs (txWindow s f))) \<and>
     subflowSn (txWindow s' f) = subflowSn (txWindow s f) + 1 \<and>
     sends (trace s') = sends (trace s) @
       [(MPD_GetDeviceId f, fst x, subflowSn (txWindow s f), unat (word_of_int (snd x) :: U16))]"
proof -
  let ?i = "pTxNext (txWindow s f)"
  obtain t u bs where u: "MPD_fillMPDHeader f (fst x) 0 s = Inr t" "MPD_putDataToTxWin f (fst x) (snd x) t = Inr (?i, u)"
    "tx_owned f u" "subflowSn (txWindow u f) = subflowSn (txWindow s f) + 1"
    "mem u (fst x) = Some bs" "be16 (bs ! 4) (bs ! 5) = subflowSn (txWindow s f)"
    "pData (dataNode (txWindow u f) ?i) = fst x" "transState (dataNode (txWindow u f) ?i) = WAITING_SEND"
    "payloadLen (dataNode (txWindow u f) ?i) = word_of_int (snd x)"
    "dom (mem u) = dom (mem s) - (insert (fst x) (set (tx_bufs (txWindow s f))) - set (tx_bufs (txWindow u f)))"
    "set (tx_bufs (txWindow u f)) \<subseteq> insert (fst x) (set (tx_bufs (txWindow s f)))"
    "tx_view f u = (if length (tx_view f s) = 1023 then tl (tx_view f s) else tx_view f s) @ [fst x]"
    "\<forall>y. tx_avail f y s \<and> fst y \<noteq> fst x \<longrightarrow> tx_avail f y u"
    by (rule put_block_ok[OF assms])
  have a: "fst x \<noteq> 0" using assms(2) by (simp add: tx_avail_def)
  let ?v = "u\<lparr>trace := EvSend (MPD_GetDeviceId f) (fst x) bs (unat (word_of_int (snd x) :: U16)) False # trace u\<rparr>"
  let ?m = "\<lambda>w. (upd_node ?i (\<lambda>n. n\<lparr>transState := WAITING_ACK\<rparr>) w)\<lparr>ackTimeOutcnt := ackTimeOutcnt w + 1\<rparr>"
  define s' where "s' = (if env_send env (trace ?v) = SEND_FAIL then ?v else upd_tx f ?m ?v)"
  then have s': "tx_send env f x s = Inr s'" "s' = ?v \<or> s' = upd_tx f ?m ?v"
    using u(1,2,5,7,9) a
    by (simp_all add: tx_send_def send_packet_def send_block_def MPD_callMPCToSend_def MPD_OnSendMPDataComplete_def mem_block_def Let_def)
  have tr: "trace s' = trace ?v" and m: "mem s' = mem u" using s'(2) by auto
  have "transState (dataNode (txWindow u f) ?i) \<noteq> DATA_INIT" using u(8) by simp
  note mk = tx_marked[OF this]
  have w: "tx_bufs (txWindow s' f) = tx_bufs (txWindow u f)" "map pData (tx_queue (txWindow s' f)) = map pData (tx_queue (txWindow u f))"
    "wf_tx (txWindow s' f) = wf_tx (txWindow u f)" "subflowSn (txWindow s' f) = subflowSn (txWindow u f)"
    using s'(2) mk by auto
  have "tx_owned f s'" using u(3) by (simp add: tx_owned_def w m)
  moreover have "tx_avail f y s' \<longleftrightarrow> tx_avail f y u" for y by (simp add: tx_avail_def w m)
  moreover have "sends (trace s') = sends (trace s) @ [(MPD_GetDeviceId f, fst x, subflowSn (txWindow s f), unat (word_of_int (snd x) :: U16))]"
    using put_sends[OF u(2)] fill_trace[OF u(1)] u(6) by (simp add: tr)
  ultimately show ?thesis
    using s'(1) u(4,10-13) by (intro exI[of _ s']) (simp add: tx_view_def w m)
qed

interpretation txr: drop_oldest "tx_send env f" "tx_owned f" "tx_avail f" "tx_view f" fst fst 1023 for env f
proof (unfold_locales, goal_cases)
  case (2 s)
  then show ?case using tx_len_less[of "txWindow s f"] by (simp add: tx_view_def)
next
  case (3 s x)
  then show ?case using tx_send_ok[of f s x env] by blast
qed simp

interpretation tx_release: release_oldest "tx_send env f" "tx_owned f" "tx_avail f" "tx_view f" fst fst 1023
  "\<lambda>s. set (tx_bufs (txWindow s f))" "\<lambda>s. dom (mem s)" for env f
proof (unfold_locales, goal_cases)
  case (1 s x s')
  then show ?case using tx_send_ok[of f s x env] by (auto simp: tx_avail_def)
next
  case (2 s x s')
  then show ?case using tx_send_ok[of f s x env] by auto
qed

interpretation tx_log: log_numbered "tx_send env f" "tx_owned f" "tx_avail f" "tx_view f" fst fst 1023
  "\<lambda>s. subflowSn (txWindow s f)" "\<lambda>s. sends (trace s)"
  "\<lambda>n x. (MPD_GetDeviceId f, fst x, n, unat (word_of_int (snd x) :: U16))" for env f
proof (unfold_locales, goal_cases)
  case (1 s x s')
  then show ?case using tx_send_ok[of f s x env] by auto
qed

text \<open>
  C3: whatever packets are sent on a subflow without an acknowledgement, and whatever the device answers, its window keeps
  the newest 1023 of them in the order of sending. Each packet is handed to the device of the subflow once, in order, its header numbered
  on from the packet before. The buffers that the window no longer holds are released, and no other
  buffer is; every buffer of the window stays live and in one place.
\<close>

theorem TxWin_keeps_newest:
  assumes "tx_owned f s" and "distinct (map fst xs)" and "\<forall>x\<in>set xs. tx_avail f x s"
  shows "\<exists>s'. forR (tx_send env f) xs s = Inr s' \<and> tx_owned f s' \<and>
     map pData (tx_queue (txWindow s' f)) = newest 1023 (map pData (tx_queue (txWindow s f)) @ map fst xs) \<and>
     dom (mem s') = dom (mem s) - (set (tx_bufs (txWindow s f)) \<union> fst ` set xs - set (tx_bufs (txWindow s' f))) \<and>
     sends (trace s') = sends (trace s) @
       numbered (\<lambda>n x. (MPD_GetDeviceId f, fst x, n, unat (word_of_int (snd x) :: U16))) (subflowSn (txWindow s f)) xs"
proof -
  obtain s' where s': "forR (tx_send env f) xs s = Inr s'" "tx_owned f s'" "tx_view f s' = newest 1023 (tx_view f s @ map fst xs)"
    using txr.put_all[OF assms] by blast
  then show ?thesis
    using tx_release.put_all_releases[OF assms s'(1)] tx_log.put_all_logs[OF assms s'(1)] by (simp add: tx_view_def)
qed

section \<open>The wait queue\<close>

definition wq_list :: "mpd_st \<Rightarrow> stWaitSendNode list" where
  "wq_list s = map (\<lambda>k. dataWaitQueue s ((pDataWaiteTail s + k) mod DataWaitQueueSize))
     [0..<rdist DataWaitQueueSize (pDataWaiteTail s) (pDataWaiteHead s)]"

definition wq_bufs :: "mpd_st \<Rightarrow> addr list" where
  "wq_bufs s = filter (\<lambda>a. a \<noteq> 0) (map PData (wq_list s))"

definition wq_owned :: "mpd_st \<Rightarrow> bool" where
  "wq_owned s \<longleftrightarrow> pDataWaiteHead s < DataWaitQueueSize \<and> pDataWaiteTail s < DataWaitQueueSize \<and>
     distinct (wq_bufs s) \<and> set (wq_bufs s) \<subseteq> dom (mem s)"

definition wq_avail :: "addr \<times> int \<Rightarrow> mpd_st \<Rightarrow> bool" where
  "wq_avail x s \<longleftrightarrow> fst x \<noteq> 0 \<and> fst x \<in> dom (mem s) \<and> fst x \<notin> set (wq_bufs s)"

definition wq_item :: "addr \<times> int \<Rightarrow> stWaitSendNode" where
  "wq_item x = \<lparr>PData = fst x, wq_len = snd x\<rparr>"

lemma wait_next_rsucc [ring_simps]: "wait_next n = rsucc DataWaitQueueSize n"
  by (simp add: wait_next_def rsucc_def)

lemma wq_list_Cons:
  assumes "pDataWaiteTail s < DataWaitQueueSize" and "pDataWaiteHead s < DataWaitQueueSize" and "pDataWaiteHead s \<noteq> pDataWaiteTail s"
  shows "wq_list s = dataWaitQueue s (pDataWaiteTail s) # map (\<lambda>k. dataWaitQueue s ((wait_next (pDataWaiteTail s) + k) mod DataWaitQueueSize))
     [0..<rdist DataWaitQueueSize (wait_next (pDataWaiteTail s)) (pDataWaiteHead s)]"
proof -
  let ?T = "pDataWaiteTail s" and ?H = "pDataWaiteHead s"
  have d: "rdist DataWaitQueueSize ?T ?H = Suc (rdist DataWaitQueueSize (wait_next ?T) ?H)"
    using assms rdist_rsucc_left[of ?T DataWaitQueueSize ?H] rdist_0[of ?T DataWaitQueueSize ?H] by (simp add: wait_next_rsucc)
  show ?thesis
    unfolding wq_list_def d upt_conv_Cons[OF zero_less_Suc] list.map map_Suc_upt[symmetric] map_map o_def wait_next_rsucc rsucc_add
    using assms(1) by simp
qed

text \<open>The slot at the head takes the new entry.\<close>

lemma wq_list_put:
  assumes "pDataWaiteTail s < DataWaitQueueSize" and "pDataWaiteHead s < DataWaitQueueSize"
  shows "map (\<lambda>k. ((dataWaitQueue s)(pDataWaiteHead s := n)) ((pDataWaiteTail s + k) mod DataWaitQueueSize))
     [0..<Suc (rdist DataWaitQueueSize (pDataWaiteTail s) (pDataWaiteHead s))] = wq_list s @ [n]"
proof -
  let ?T = "pDataWaiteTail s" and ?H = "pDataWaiteHead s" and ?N = "DataWaitQueueSize"
  have "(?T + k) mod ?N \<noteq> ?H" if "k < rdist ?N ?T ?H" for k
  proof -
    have "k < ?N" "rdist ?N ?T ?H < ?N" using that rdist_less[of ?N ?T ?H] by simp_all
    then show ?thesis
      using that add_mod_inj[OF assms(1), of k "rdist ?N ?T ?H"] add_rdist[OF assms] by simp
  qed
  moreover have "(?T + rdist ?N ?T ?H) mod ?N = ?H" by (rule add_rdist[OF assms])
  ultimately show ?thesis by (simp add: wq_list_def)
qed

lemma MsgMemfree_live:
  "a = 0 \<or> a \<in> dom (mem s) \<Longrightarrow> MPD_MsgMemfree a s = Inr (s\<lparr>mem := mem s |` (- set (filter (\<lambda>a. a \<noteq> 0) [a]))\<rparr>)"
  by (auto simp: MPD_MsgMemfree_def restrict_map_upd_None)

lemma tl_map_upt: "tl (map f [0..<Suc n]) = map (\<lambda>k. f (Suc k)) [0..<n]"
  by (simp add: upt_conv_Cons map_Suc_upt[symmetric] del: upt_Suc)

lemma wq_list_drop:
  assumes "T < DataWaitQueueSize" and "H = T"
  shows "map (\<lambda>k. (q(T := x)) ((wait_next T + k) mod DataWaitQueueSize)) [0..<rdist DataWaitQueueSize (wait_next T) H]
     = tl (map (\<lambda>k. q ((T + k) mod DataWaitQueueSize)) [0..<512])"
proof -
  have d: "rdist DataWaitQueueSize (wait_next T) T = 511"
    using assms(1) by (auto simp: wait_next_rsucc rsucc_alt rdist_alt)
  have "(T + Suc k) mod DataWaitQueueSize \<noteq> T" if "k < 511" for k
    using add_mod_inj[OF assms(1), of "Suc k" 0] that assms(1) by simp
  then have "map (\<lambda>k. (q(T := x)) ((wait_next T + k) mod DataWaitQueueSize)) [0..<511]
      = map (\<lambda>k. q ((T + Suc k) mod DataWaitQueueSize)) [0..<511]"
    unfolding wait_next_rsucc rsucc_add by (intro map_cong refl) simp
  also have "\<dots> = tl (map (\<lambda>k. q ((T + k) mod DataWaitQueueSize)) [0..<Suc 511])"
    by (rule tl_map_upt[symmetric])
  finally show ?thesis unfolding assms(2) d by (simp only: Suc_numeral semiring_norm)
qed

lemma wait_put_ok:
  assumes "wq_owned s" and "wq_avail x s"
  shows "\<exists>s'. wait_put (fst x) (snd x) s = Inr s' \<and> wq_owned s' \<and>
     wq_list s' = (if length (wq_list s) = 511 then tl (wq_list s) else wq_list s) @ [wq_item x] \<and>
     (\<forall>y. wq_avail y s \<and> fst y \<noteq> fst x \<longrightarrow> wq_avail y s') \<and>
     set (wq_bufs s') \<subseteq> insert (fst x) (set (wq_bufs s)) \<and>
     dom (mem s') = dom (mem s) - (insert (fst x) (set (wq_bufs s)) - set (wq_bufs s'))"
proof -
  let ?T = "pDataWaiteTail s" and ?H = "pDataWaiteHead s" and ?N = "DataWaitQueueSize" and ?n = "wq_item x"
  have b: "?T < ?N" "?H < ?N" and own: "distinct (wq_bufs s)" "set (wq_bufs s) \<subseteq> dom (mem s)"
    using assms(1) by (simp_all add: wq_owned_def)
  have a: "fst x \<noteq> 0" "fst x \<in> dom (mem s)" "fst x \<notin> set (wq_bufs s)" using assms(2) by (simp_all add: wq_avail_def)
  have nx: "wait_next ?H < ?N" by (simp add: wait_next_def)
  let ?q = "(dataWaitQueue s)(?H := ?n)"
  let ?s1 = "s\<lparr>dataWaitQueue := ?q, pDataWaiteHead := wait_next ?H\<rparr>"
  have len: "length (wq_list s) = rdist ?N ?T ?H" by (simp add: wq_list_def)
  have n0: "filter (\<lambda>a. a \<noteq> 0) (map PData [?n]) = [fst x]" using a(1) by (simp add: wq_item_def)
  show ?thesis
  proof (cases "wait_next ?H = ?T")
    case False
    then have nf: "length (wq_list s) \<noteq> 511" "rdist ?N ?T (wait_next ?H) = Suc (rdist ?N ?T ?H)"
      using len rdist_full_iff[OF b] rdist_rsucc_right[OF b] by (simp_all add: wait_next_rsucc)
    have e: "wait_put (fst x) (snd x) s = Inr ?s1" using False by (simp add: wait_put_def Let_def wq_item_def)
    have l: "wq_list ?s1 = wq_list s @ [?n]"
      using wq_list_put[OF b, of ?n] nf(2) by (simp add: wq_list_def)
    then have "wq_bufs ?s1 = wq_bufs s @ [fst x]" using n0 by (simp add: wq_bufs_def)
    then show ?thesis using e l nf(1) a own b nx by (intro exI[of _ ?s1]) (auto simp: wq_owned_def wq_avail_def)
  next
    case True
    then have full: "length (wq_list s) = 511" using len rdist_full_iff[OF b] by (simp add: wait_next_rsucc)
    have HT: "?H \<noteq> ?T" using full len by auto
    let ?o = "PData (dataWaitQueue s ?T)"
    define D where "D = filter (\<lambda>a. a \<noteq> 0) [?o]"
    define K where "K = filter (\<lambda>a. a \<noteq> 0) (map PData (tl (wq_list s)))"
    have hd: "wq_list s = dataWaitQueue s ?T # tl (wq_list s)" using wq_list_Cons[OF b HT] by (metis list.sel(3))
    have split: "wq_bufs s = D @ K" unfolding wq_bufs_def D_def K_def by (subst hd) simp
    have o: "?o = 0 \<or> ?o \<in> dom (mem (?s1\<lparr>tcDelPktCnt := tcDelPktCnt s + 1\<rparr>))"
      using own(2) split by (cases "?o = 0") (auto simp: D_def)
    let ?s2 = "?s1\<lparr>tcDelPktCnt := tcDelPktCnt s + 1, mem := mem s |` (- set D),
        dataWaitQueue := ?q(?T := (?q ?T)\<lparr>PData := 0\<rparr>), pDataWaiteTail := wait_next ?T\<rparr>"
    have e: "wait_put (fst x) (snd x) s = Inr ?s2"
      using True HT MsgMemfree_live[OF o, folded D_def] by (simp add: wait_put_def Let_def wq_item_def)
    have "rdist ?N ?T ?H = 511" using full len by simp
    then have "wq_list s @ [?n] = map (\<lambda>k. ?q ((?T + k) mod ?N)) [0..<512]"
      using wq_list_put[OF b, of ?n] by (simp del: upt_Suc upt_rec_numeral)
    then have "wq_list ?s2 = tl (wq_list s @ [?n])"
      using wq_list_drop[OF b(1) True, of ?q] by (simp add: wq_list_def)
    then have l: "wq_list ?s2 = tl (wq_list s) @ [?n]" using hd by (metis append_Cons list.sel(3))
    then have bufs: "wq_bufs ?s2 = K @ [fst x]" using n0 by (simp add: wq_bufs_def K_def)
    have m: "mem ?s2 = ((mem s)(fst x \<mapsto> the (mem s (fst x)))) |` (- set D)" using a(2) by (auto simp: fun_eq_iff restrict_map_def)
    have "wait_next ?T < ?N" by (simp add: wait_next_def)
    then have "wq_owned ?s2"
      unfolding wq_owned_def bufs using own_after_drop[OF split own a(3) m] nx True by simp
    moreover have "wq_avail y ?s2" if "wq_avail y s \<and> fst y \<noteq> fst x" for y
      using that avail_after_drop[OF split m, of "fst y"] unfolding wq_avail_def bufs dom_def by simp
    moreover have "mem s (fst x) \<noteq> None" using a(2) by auto
    note after = dom_after_drop[OF split own(1) a(3) this m]
    have "dom (mem ?s2) = dom (mem s) - (insert (fst x) (set (wq_bufs s)) - set (wq_bufs ?s2))"
      "set (wq_bufs ?s2) \<subseteq> insert (fst x) (set (wq_bufs s))" unfolding bufs by (rule after)+
    ultimately show ?thesis using e l full by (intro exI[of _ ?s2]) simp
  qed
qed

interpretation wqr: drop_oldest "\<lambda>x. wait_put (fst x) (snd x)" wq_owned wq_avail wq_list wq_item fst 511
proof (unfold_locales, goal_cases)
  case (2 s)
  then show ?case using rdist_less[of DataWaitQueueSize "pDataWaiteTail s" "pDataWaiteHead s"] by (simp add: wq_list_def)
next
  case (3 s x)
  then show ?case using wait_put_ok[of s x] by blast
qed simp

interpretation wq_release: release_oldest "\<lambda>x. wait_put (fst x) (snd x)" wq_owned wq_avail wq_list wq_item fst 511
  "\<lambda>s. set (wq_bufs s)" "\<lambda>s. dom (mem s)"
proof (unfold_locales, goal_cases)
  case (1 s x s')
  then show ?case using wait_put_ok[of s x] by (auto simp: wq_avail_def)
next
  case (2 s x s')
  then show ?case using wait_put_ok[of s x] by auto
qed

text \<open>
  Whatever packets arrive while traffic control holds the sender back, the wait queue keeps the
  newest 511 of them, first come first served; the packets that are pushed out are released, and no others, and every
  queued buffer stays live and queued once.
\<close>

theorem WaitQueue_keeps_newest:
  assumes "wq_owned s" and "distinct (map fst xs)" and "\<forall>x\<in>set xs. wq_avail x s"
  shows "\<exists>s'. forR (\<lambda>x. wait_put (fst x) (snd x)) xs s = Inr s' \<and> wq_owned s' \<and>
     wq_list s' = newest 511 (wq_list s @ map wq_item xs) \<and>
     dom (mem s') = dom (mem s) - (set (wq_bufs s) \<union> fst ` set xs - set (wq_bufs s'))"
  using wqr.put_all[OF assms] wq_release.put_all_releases[OF assms] by blast

section \<open>Releasing everything\<close>

text \<open>
  C34: clearing the transmit window of a subflow ends, releases exactly the buffers of the window and
  leaves an empty window whose next packet has number 0; the other subflows and the receive side do
  not change.
\<close>

theorem clearTxWin_releases:
  assumes "tx_owned f s"
  shows "\<exists>s'. MPD_clearTxWin f s = Inr s' \<and> txWindow s' = (txWindow s)(f := txwin_zero) \<and>
     mem s' = mem s |` (- set (tx_bufs (txWindow s f))) \<and> tx_owned f s' \<and> tx_queue (txWindow s' f) = [] \<and>
     RxSubWin s' = RxSubWin s \<and> RxDataWin s' = RxDataWin s \<and> schdPara s' = schdPara s"
proof -
  obtain s' where s': "MPD_clearTxWin f s = Inr s'"
    "tx_frame s ((txWindow s)(f := txwin_zero)) (tx_bufs (txWindow s f)) s'"
    using clearTxWin_ok[of s f] assms by (auto simp: tx_owned_def)
  then show ?thesis
    using tx_frameD[OF s'(2)] by (intro exI[of _ s']) (simp add: tx_owned_def wf_tx_zero tx_queue_zero tx_bufs_def)
qed

lemma wq_bufs_step:
  assumes "wq_owned s" and "pDataWaiteHead s \<noteq> pDataWaiteTail s"
  defines "t \<equiv> s\<lparr>mem := mem s |` (- set (filter (\<lambda>a. a \<noteq> 0) [PData (dataWaitQueue s (pDataWaiteTail s))])),
      dataWaitQueue := (dataWaitQueue s)(pDataWaiteTail s := (dataWaitQueue s (pDataWaiteTail s))\<lparr>PData := 0\<rparr>),
      pDataWaiteTail := wait_next (pDataWaiteTail s)\<rparr>"
  shows "bindR (MPD_MsgMemfree (PData (dataWaitQueue s (pDataWaiteTail s))) s) (\<lambda>s'.
        Inr (s'\<lparr>dataWaitQueue := (dataWaitQueue s')(pDataWaiteTail s := (dataWaitQueue s' (pDataWaiteTail s))\<lparr>PData := 0\<rparr>),
                pDataWaiteTail := wait_next (pDataWaiteTail s)\<rparr>)) = Inr t"
    and "wq_owned t" and "length (wq_list t) = length (wq_list s) - 1"
    and "mem t |` (- set (wq_bufs t)) = mem s |` (- set (wq_bufs s))"
proof -
  let ?T = "pDataWaiteTail s" and ?H = "pDataWaiteHead s" and ?N = "DataWaitQueueSize"
  have b: "?T < ?N" "?H < ?N" and own: "distinct (wq_bufs s)" "set (wq_bufs s) \<subseteq> dom (mem s)"
    using assms(1) by (simp_all add: wq_owned_def)
  have nx: "wait_next ?T < ?N" by (simp add: wait_next_def)
  define D where "D = filter (\<lambda>a. a \<noteq> 0) [PData (dataWaitQueue s ?T)]"
  note Cons = wq_list_Cons[OF b assms(2)]
  have "(wait_next ?T + k) mod ?N \<noteq> ?T" if "k < rdist ?N (wait_next ?T) ?H" for k
  proof -
    have "rdist ?N ?T ?H < ?N" "rdist ?N (wait_next ?T) ?H = rdist ?N ?T ?H - 1"
      using rdist_rsucc_left[OF b] assms(2) rdist_less[of ?N ?T ?H] by (simp_all add: wait_next_rsucc)
    then have "Suc k < ?N" using that by simp
    then show ?thesis
      unfolding wait_next_rsucc rsucc_add using add_mod_inj[OF b(1), of "Suc k" 0] b(1) by simp
  qed
  then have l: "wq_list t = tl (wq_list s)" unfolding Cons by (simp add: t_def wq_list_def)
  have hd: "wq_list s = dataWaitQueue s ?T # tl (wq_list s)" using Cons by (metis list.sel(3))
  have split: "wq_bufs s = D @ wq_bufs t"
    unfolding wq_bufs_def l D_def by (subst hd) simp
  have m: "mem t = mem s |` (- set D)" by (simp add: t_def D_def)
  have "PData (dataWaitQueue s ?T) = 0 \<or> PData (dataWaitQueue s ?T) \<in> dom (mem s)"
    using own(2) split by (cases "PData (dataWaitQueue s ?T) = 0") (auto simp: D_def)
  then show "bindR (MPD_MsgMemfree (PData (dataWaitQueue s ?T)) s) (\<lambda>s'.
        Inr (s'\<lparr>dataWaitQueue := (dataWaitQueue s')(?T := (dataWaitQueue s' ?T)\<lparr>PData := 0\<rparr>),
                pDataWaiteTail := wait_next ?T\<rparr>)) = Inr t"
    by (simp add: MsgMemfree_live t_def)
  show "wq_owned t" using own split m b nx by (auto simp: wq_owned_def t_def)
  show "length (wq_list t) = length (wq_list s) - 1" by (simp add: l)
  show "mem t |` (- set (wq_bufs t)) = mem s |` (- set (wq_bufs s))"
    unfolding m split by (simp add: Int_commute Compl_Un)
qed

lemma clearWaitQueue_loop_ok:
  assumes "wq_owned s" and "length (wq_list s) \<le> fuel"
  shows "\<exists>s'. clearWaitQueue_loop fuel s = Inr s' \<and> mem s' = mem s |` (- set (wq_bufs s)) \<and>
     txWindow s' = txWindow s \<and> trace s' = trace s"
  using assms
proof (induction fuel arbitrary: s)
  case 0
  then have "pDataWaiteHead s = pDataWaiteTail s" using wq_list_Cons[of s] by (fastforce simp: wq_owned_def)
  then show ?case by (subst clearWaitQueue_loop.simps) (simp add: wq_bufs_def wq_list_def Let_def)
next
  case (Suc fuel)
  show ?case
  proof (cases "pDataWaiteHead s = pDataWaiteTail s")
    case True
    then show ?thesis by (subst clearWaitQueue_loop.simps) (simp add: wq_bufs_def wq_list_def Let_def)
  next
    case False
    note st = wq_bufs_step[OF Suc.prems(1) False]
    let ?t = "s\<lparr>mem := mem s |` (- set (filter (\<lambda>a. a \<noteq> 0) [PData (dataWaitQueue s (pDataWaiteTail s))])),
      dataWaitQueue := (dataWaitQueue s)(pDataWaiteTail s := (dataWaitQueue s (pDataWaiteTail s))\<lparr>PData := 0\<rparr>),
      pDataWaiteTail := wait_next (pDataWaiteTail s)\<rparr>"
    have "length (wq_list ?t) \<le> fuel" using st(3) Suc.prems(2) by simp
    from Suc.IH[OF st(2) this] obtain s' where s': "clearWaitQueue_loop fuel ?t = Inr s'"
      "mem s' = mem ?t |` (- set (wq_bufs ?t))" "txWindow s' = txWindow ?t" "trace s' = trace ?t" by blast
    have "clearWaitQueue_loop (Suc fuel) s = bindR (bindR (MPD_MsgMemfree (PData (dataWaitQueue s (pDataWaiteTail s))) s) (\<lambda>s'.
        Inr (s'\<lparr>dataWaitQueue := (dataWaitQueue s')(pDataWaiteTail s := (dataWaitQueue s' (pDataWaiteTail s))\<lparr>PData := 0\<rparr>),
                pDataWaiteTail := wait_next (pDataWaiteTail s)\<rparr>))) (clearWaitQueue_loop fuel)"
      using False by (subst clearWaitQueue_loop.simps) (simp add: Let_def bindR_assoc)
    then show ?thesis using s' st(1,4) by (intro exI[of _ s']) simp
  qed
qed

text \<open>
  Clearing the wait queue ends, releases exactly the buffers that wait and leaves the queue empty.
\<close>

theorem clearWaitQueue_releases:
  assumes "wq_owned s"
  shows "\<exists>s'. MPD_clearWaitQueue s = Inr s' \<and> wq_owned s' \<and> wq_list s' = [] \<and>
     mem s' = mem s |` (- set (wq_bufs s)) \<and> txWindow s' = txWindow s \<and> trace s' = trace s"
proof -
  have "length (wq_list s) \<le> DataWaitQueueSize"
    using rdist_less[of DataWaitQueueSize "pDataWaiteTail s" "pDataWaiteHead s"] by (simp add: wq_list_def)
  from clearWaitQueue_loop_ok[OF assms this] obtain t where t: "clearWaitQueue_loop DataWaitQueueSize s = Inr t"
    "mem t = mem s |` (- set (wq_bufs s))" "txWindow t = txWindow s" "trace t = trace s" by blast
  let ?s' = "t\<lparr>dataWaitQueue := (\<lambda>_. wq_zero), pDataWaiteHead := 0, pDataWaiteTail := 0\<rparr>"
  have "wq_list ?s' = []" by (simp add: wq_list_def)
  then have "wq_owned ?s'" by (simp add: wq_owned_def wq_bufs_def)
  with t \<open>wq_list ?s' = []\<close> show ?thesis by (intro exI[of _ ?s']) (simp add: MPD_clearWaitQueue_def)
qed

text \<open>
  The count of unacknowledged packets that the scheduler's cap uses is the length of the window as
  long as its numbers do not pass 65535, and 65536 less, as an unsigned 32-bit number, once the newest
  number has wrapped and the oldest has not.
\<close>

theorem getTxWinUnackCnt_wraps:
  assumes "wf_tx (txWindow s f)" and "w = txWindow s f" and "tx_len w \<noteq> 0"
  shows "MPD_getTxWinUnackCnt s f =
     (if unat (dn_SSN (dataNode w (pTxBegin w))) \<le> unat (subflowSn w - 1)
      then of_nat (tx_len w) else of_nat (tx_len w) - 65536)"
proof -
  let ?sn = "subflowSn w" and ?n = "tx_len w"
  have wf: "wf_sn ?sn w" using assms(1,2) by (simp add: wf_tx_def)
  note b = wf_snD(1,2)[OF wf]
  have ne: "pTxNext w \<noteq> pTxBegin w" using assms(3) tx_empty_iff[OF wf] by simp
  have n: "?n < 1024" by (rule tx_len_less)
  have "tx_prev w = tx_idx w (?n - 1)"
  proof -
    have "tx_inc (tx_prev w) = pTxNext w" "tx_prev w < MAX_TX_WINDOW_SIZE" using b by (auto simp: tx_prev_def tx_inc_def)
    moreover have "tx_inc (tx_idx w (?n - 1)) = pTxNext w" "tx_idx w (?n - 1) < MAX_TX_WINDOW_SIZE"
    proof -
      show i: "tx_idx w (?n - 1) < MAX_TX_WINDOW_SIZE" by (simp add: tx_idx_def)
      have "tx_inc (tx_idx w (?n - 1)) = ((pTxBegin w + (?n - 1)) mod 1024 + 1) mod 1024"
        using i by (simp add: tx_inc_rsucc rsucc_def tx_idx_def)
      also have "\<dots> = (pTxBegin w + ?n) mod 1024" using assms(3) by (simp add: mod_simps)
      finally show "tx_inc (tx_idx w (?n - 1)) = pTxNext w" using tx_idx_len[OF wf] by (simp add: tx_idx_def)
    qed
    ultimately show ?thesis by (auto simp: tx_inc_def split: if_splits)
  qed
  then have last: "dn_SSN (dataNode w (tx_prev w)) = ?sn - 1" using wf_snD(4)[OF wf, of "?n - 1"] assms(3) by simp
  have first: "dn_SSN (dataNode w (pTxBegin w)) = ?sn - of_nat ?n" by (rule wf_begin_SSN[OF wf])
  let ?l = "unat (?sn - 1)" and ?f = "unat (?sn - of_nat ?n)"
  have "?sn - 1 = (?sn - of_nat ?n) + of_nat (?n - 1)" using assms(3) by (simp add: of_nat_diff)
  then have "DISTANCESN (?sn - of_nat ?n) (?sn - 1) = ?n - 1" using n by (simp only: DISTANCESN_add)
  then have d: "(if ?f \<le> ?l then ?l - ?f else ?l + 65536 - ?f) = ?n - 1"
    unfolding DISTANCESN_unat unat_sub_U16 .
  have u: "?l < 65536" "?f < 65536" by (rule unat_U16_less)+
  have e: "uint (?sn - 1) - uint (?sn - of_nat ?n) + 1 = (if ?f \<le> ?l then int ?n else int ?n - 65536)"
  proof -
    have "int l - int m + 1 = (if m \<le> l then int n else int n - 65536)"
      if "(if m \<le> l then l - m else l + 65536 - m) = n - 1" "l < 65536" "m < 65536" "n \<noteq> 0" for l m n :: nat
      using that by (cases "m \<le> l") auto
    from this[OF d u assms(3)] show ?thesis by (simp only: uint_nat)
  qed
  have "MPD_getTxWinUnackCnt s f = tx_ssn_count w"
    using ne assms(2) by (simp add: MPD_getTxWinUnackCnt_def Let_def)
  also have "\<dots> = word_of_int (if ?f \<le> ?l then int ?n else int ?n - 65536)"
    by (simp only: tx_ssn_count_def last first e)
  finally show ?thesis unfolding first by simp
qed

section \<open>Instances\<close>

text \<open>
  The session \<open>wire_demo\<close> has empty windows, an empty wait queue and one buffer. In \<open>sack_demo\<close> the
  subflow 0 has sent two packets, in the buffers 1 and 2.
\<close>

lemma wire_demo_owned: "tx_owned f wire_demo" "wq_owned wire_demo" "wq_list wire_demo = []" "wq_bufs wire_demo = []"
proof -
  have q: "pDataWaiteHead wire_demo = 0" "pDataWaiteTail wire_demo = 0"
    by (simp_all add: wire_demo_def st_zero_def user_zero_def stUserInfo.defs mpd_st.defs)
  show l: "wq_list wire_demo = []" "wq_bufs wire_demo = []" by (simp_all add: wq_bufs_def wq_list_def q)
  show "tx_owned f wire_demo" by (simp add: tx_owned_def wf_tx_zero tx_bufs_def tx_queue_zero)
  show "wq_owned wire_demo" by (simp add: wq_owned_def l q)
qed

text \<open>In \<open>full_demo\<close> there are buffers for one packet more than the window takes.\<close>

definition full_demo :: mpd_st where
  "full_demo = st_zero\<lparr>mem := (\<lambda>a. if a < 1025 then Some demo_packet else None), brk := 1025\<rparr>"

lemma full_demo_simps [simp]: "txWindow full_demo f = txwin_zero" "mem full_demo a = (if a < 1025 then Some demo_packet else None)"
  by (simp_all add: full_demo_def st_zero_def user_zero_def stUserInfo.defs mpd_st.defs)

lemma tx_bufs_pData: "set (tx_bufs w) \<subseteq> set (map pData (tx_queue w))"
  by (auto simp: tx_bufs_def node_bufs_def)

theorem TxWin_keeps_newest_witness:
  "\<exists>s'. forR (tx_send env_ok 1) (map (\<lambda>a. (a, 100)) [1..<1025]) full_demo = Inr s' \<and>
     map pData (tx_queue (txWindow s' 1)) = [2..<1025] \<and> mem s' 1 = None"
proof -
  let ?xs = "map (\<lambda>a. (a, 100 :: int)) [1..<1025]"
  have own: "tx_owned 1 full_demo" by (simp add: tx_owned_def wf_tx_zero tx_bufs_def tx_queue_zero)
  have k: "map fst ?xs = [1..<1025]" by (simp add: comp_def del: upt_rec_numeral)
  have d: "distinct (map fst ?xs)" unfolding k by (rule distinct_upt)
  have av: "\<forall>x\<in>set ?xs. tx_avail 1 x full_demo"
    by (auto simp: tx_avail_def tx_bufs_def tx_queue_zero simp del: upt_rec_numeral)
  have n: "newest 1023 ([] @ [1..<1025]) = [2..<1025]" by (simp add: newest_def numeral_2_eq_2 del: upt_rec_numeral)
  obtain s' where s': "forR (tx_send env_ok 1) ?xs full_demo = Inr s'" "map pData (tx_queue (txWindow s' 1)) = [2..<1025]"
    "dom (mem s') = dom (mem full_demo) - (set (tx_bufs (txWindow full_demo 1)) \<union> fst ` set ?xs - set (tx_bufs (txWindow s' 1)))"
    using TxWin_keeps_newest[OF own d av, of env_ok] unfolding k full_demo_simps tx_queue_zero list.map n by blast
  have "1 \<notin> set [2..<1025]" by (simp del: upt_rec_numeral)
  then have "1 \<notin> set (tx_bufs (txWindow s' 1))" using tx_bufs_pData[of "txWindow s' 1"] unfolding s'(2) by blast
  moreover have "1 \<in> fst ` set ?xs" by (auto simp: image_image simp del: upt_rec_numeral)
  ultimately have "1 \<notin> dom (mem s')" unfolding s'(3) by blast
  then show ?thesis using s'(1,2) by (intro exI[of _ s']) auto
qed

theorem WaitQueue_keeps_newest_witness:
  "\<exists>s'. forR (\<lambda>x. wait_put (fst x) (snd x)) [(1, 1500)] wire_demo = Inr s' \<and> wq_list s' = [\<lparr>PData = 1, wq_len = 1500\<rparr>]"
proof -
  have "\<forall>x\<in>set [(1, 1500)]. wq_avail x wire_demo" by (simp add: wq_avail_def wire_demo_owned(4))
  from WaitQueue_keeps_newest[OF wire_demo_owned(2) _ this] show ?thesis
    by (auto simp: newest_short wq_item_def wire_demo_owned(3))
qed

definition sack_demo_win :: stTxWin where
  "sack_demo_win = txwin_zero\<lparr>pTxNext := 2, subflowSn := 2, dataNode := (\<lambda>_. dn_zero)(
     0 := dn_zero\<lparr>pData := 1, transState := WAITING_ACK\<rparr>,
     1 := dn_zero\<lparr>dn_SSN := 1, pData := 2, transState := WAITING_ACK\<rparr>, 2 := dn_zero\<lparr>dn_SSN := 2\<rparr>)\<rparr>"

definition sack_demo :: mpd_st where
  "sack_demo = st_zero\<lparr>mem := [1 \<mapsto> [0], 2 \<mapsto> [0]], brk := 3, txWindow := (\<lambda>_. sack_demo_win)\<rparr>"

lemma sack_demo_simps [simp]:
  "mem sack_demo = [1 \<mapsto> [0], 2 \<mapsto> [0]]" "txWindow sack_demo f = sack_demo_win" "tx_len sack_demo_win = 2"
  "pTxBegin sack_demo_win = 0" "pTxNext sack_demo_win = 2" "subflowSn sack_demo_win = 2" "tx_idx sack_demo_win k = k mod 1024"
  by (simp_all add: sack_demo_def tx_len_def rdist_def sack_demo_win_def txwin_zero_def tx_idx_def)

lemma sack_demo_queue:
  "tx_queue sack_demo_win = [dn_zero\<lparr>pData := 1, transState := WAITING_ACK\<rparr>, dn_zero\<lparr>dn_SSN := 1, pData := 2, transState := WAITING_ACK\<rparr>]"
  by (simp add: tx_queue_def upt_rec) (simp add: sack_demo_win_def)

lemma sack_demo_wf: "wf_tx sack_demo_win"
proof -
  have "dn_SSN (dataNode sack_demo_win (k mod 1024)) = 2 - of_nat (2 - k)" if "k \<le> 2" for k
  proof -
    from that have "k = 0 \<or> k = 1 \<or> k = 2" by auto
    then show ?thesis by (auto simp: sack_demo_win_def dn_zero_def)
  qed
  then show ?thesis by (simp add: wf_tx_def wf_sn_def)
qed

lemma sack_demo_owned: "tx_owned f sack_demo"
  by (simp add: tx_owned_def sack_demo_wf tx_bufs_def sack_demo_queue node_bufs_def)

theorem clearTxWin_releases_witness:
  "\<exists>s'. MPD_clearTxWin 0 sack_demo = Inr s' \<and> mem s' = Map.empty"
  using clearTxWin_releases[OF sack_demo_owned, of 0]
  by (auto simp: tx_bufs_def sack_demo_queue node_bufs_def)

theorem clearWaitQueue_releases_witness:
  "\<exists>s'. MPD_clearWaitQueue wire_demo = Inr s' \<and> wq_list s' = [] \<and> mem s' = mem wire_demo"
  using clearWaitQueue_releases[OF wire_demo_owned(2)] by (simp add: wire_demo_owned(4)) blast

theorem getTxWinUnackCnt_wraps_witness: "MPD_getTxWinUnackCnt sack_demo 0 = 2"
  using getTxWinUnackCnt_wraps[of sack_demo 0 sack_demo_win] by (simp add: sack_demo_wf) (simp add: sack_demo_win_def dn_zero_def)

theorem processACK_cumulative_witness:
  "\<exists>s'. MPD_processACK 0 1 1 sack_demo = Inr s' \<and> tx_owned 0 s' \<and> mem s' = [2 \<mapsto> [0]]"
proof -
  have "ack_distance 0 1 sack_demo = Suc 0"
    by (simp add: ack_distance_def DISTANCESN_unat) (simp add: sack_demo_win_def dn_zero_def)
  from processACK_cumulative[OF _ _ sack_demo_owned this, of 1] show ?thesis
    by (auto simp: queue_bufs_def sack_demo_queue node_bufs_def)
qed

theorem processACK_outside_witness: "MPD_processACK 0 9 1 sack_demo = Inr (upd_tx 0 (\<lambda>w. w\<lparr>ackTimeOutcnt := 0\<rparr>) sack_demo)"
proof -
  have "ack_distance 0 9 sack_demo = 9"
    by (simp add: ack_distance_def DISTANCESN_unat) (simp add: sack_demo_win_def dn_zero_def)
  with processACK_outside[of 0 sack_demo 1 9] show ?thesis by (simp add: sack_demo_wf)
qed

theorem parserSACK_rejects_witness:
  "MPD_parserSACK env_ok 0 1 12 5 wire_demo = Inr (upd_tc 0 (\<lambda>c. c\<lparr>sackNum := sackNum c + 1\<rparr>) wire_demo)"
proof -
  have r: "mem_read wire_demo 1 12 3 = Inr (take 3 (drop 12 demo_packet))"
    by (rule mem_read_live) simp_all
  have "take 3 (drop 12 demo_packet) ! 0 \<noteq> 0x01"
    unfolding demo_packet_def by (simp only: drop_replicate take_replicate) simp
  with parserSACK_rejects[OF r, of 0] show ?thesis by simp
qed

end
