(* ===== verification/MPD_Receive.thy ===== *)
theory MPD_Receive
  imports MPD_Wire
begin

text \<open>
  The way of a data packet through the receiver: parser, data window, subflow window and delivery
  composed as \<^verbatim>\<open>MPD_DoParseMPData\<close> composes them.
\<close>

text \<open>The bytes of an unfragmented packet on the wire.\<close>

definition data_packet :: "nat \<Rightarrow> U16 \<Rightarrow> U16 \<Rightarrow> U16 \<Rightarrow> U32 \<Rightarrow> U8 list \<Rightarrow> U8 list" where
  "data_packet f dsn ssn ack u payload = mpd_header NoFrag (of_nat f) 3 dsn ssn ack u @ payload"

lemma length_data_packet [simp]: "length (data_packet f dsn ssn ack u payload) = 12 + length payload"
  by (simp add: data_packet_def)

lemma data_packet_nth:
  assumes "f < NUM_SUBFLOW"
  shows "data_packet f dsn ssn ack u payload ! 0 = MPD_PACKTET_FLAG"
    "unat (hdr_stream (data_packet f dsn ssn ack u payload ! 1)) = f"
    "parse_node buffer n (data_packet f dsn ssn ack u payload) = \<lparr>ni_stream = f, ni_fragment = NoFrag, ni_DSN = dsn,
       ni_SSN = ssn, ni_msgLen = ucast n, ni_mpdHeadLen = 12, ni_msgPtr = buffer\<rparr>"
    "be16 (data_packet f dsn ssn ack u payload ! 6) (data_packet f dsn ssn ack u payload ! 7) = ack"
  by (simp_all add: data_packet_def nth_append byte_simps stream_bits[OF assms] parse_node_def)

lemma parse_node_take: "8 \<le> k \<Longrightarrow> parse_node buffer n (take k h) = parse_node buffer n h"
  by (simp add: parse_node_def)

lemma ucast_U16_of_nat: "(ucast (of_nat n :: U32) :: U16) = of_nat n"
  by (simp add: word_unat_eq_iff unat_of_nat unsigned_of_nat take_bit_eq_mod mod_mod_cancel)

text \<open>
  The first steps of the parser on such a packet: the callback is the rest of the work, after an
  acknowledgement without news.
\<close>

lemma Parse_data_packet:
  assumes "mem s buffer = Some (data_packet f dsn ssn ack u payload)" and "buffer \<noteq> 0" and "f < NUM_SUBFLOW"
    and "payload \<noteq> []" and "datalen = of_nat (12 + length payload)" and "12 + length payload < 65536"
    and "MPD_SCHD_getFlowValid s f \<noteq> 0" and "wf_tx (txWindow s f)" and "ack_distance f ack s = 0"
    and node: "node = \<lparr>ni_stream = f, ni_fragment = NoFrag, ni_DSN = dsn, ni_SSN = ssn,
       ni_msgLen = of_nat (12 + length payload), ni_mpdHeadLen = 12, ni_msgPtr = buffer\<rparr>"
    and t: "t = upd_tx f (\<lambda>w. w\<lparr>ackTimeOutcnt := 0\<rparr>) (s\<lparr>lastPackageTime := g_time s + MPD_IDLE_TH\<rparr>)"
    and "\<not> late_start node t"
  shows "MPD_DoParseMPData env buffer datalen s =
     bindR (MPD_DataWinAddNode env node t) (\<lambda>(dataWinRet, s).
       if dataWinRet > 0
       then bindR (on_sub f (MPD_SubWinAddNode ssn) s) (\<lambda>s.
            bindR (MPD_DataWinRxBeginMove env False s) (\<lambda>s. Inr (0, s)))
       else Inr (0, s))"
proof -
  let ?p = "data_packet f dsn ssn ack u payload" and ?s = "s\<lparr>lastPackageTime := g_time s + MPD_IDLE_TH\<rparr>"
  have r: "mem_read s buffer 0 n = Inr (take n ?p)" if "n \<le> 12" for n
    using mem_read_live[OF assms(1,2), of 0 n] that by simp
  have len: "(of_nat (12 + length payload) :: U32) \<noteq> 12"
  proof
    assume "(of_nat (12 + length payload) :: U32) = 12"
    then have "unat (of_nat (12 + length payload) :: U32) = 12" by simp
    moreover have "unat (of_nat (12 + length payload) :: U32) = 12 + length payload"
      using assms(6) by (simp add: unat_of_nat take_bit_nat_eq_self del: of_nat_add)
    ultimately show False using assms(4) by simp
  qed
  have n: "parse_node buffer datalen (take 8 ?p) = node"
    unfolding parse_node_take[OF order_refl] data_packet_nth(3)[OF assms(3)] node assms(5)
    by (simp add: ucast_U16_of_nat del: of_nat_add)
  have nth: "take 2 ?p ! 0 = MPD_PACKTET_FLAG" "unat (hdr_stream (take 2 ?p ! 1)) = f"
    "be16 (take 8 ?p ! 6) (take 8 ?p ! 7) = ack"
    using data_packet_nth[OF assms(3)] by simp_all
  have "wf_tx (txWindow ?s f)" "ack_distance f ack ?s = 0" using assms(8,9) by (simp_all add: ack_distance_def)
  then have ack: "MPD_processACK f ack 1 ?s = Inr t"
    using ack_outside[OF assms(3), of ?s 1 ack] by (simp add: t)
  have ok: "\<not> (take 2 ?p ! 0 \<noteq> MPD_PACKTET_FLAG \<or> MPD_SCHD_getFlowValid s (unat (hdr_stream (take 2 ?p ! 1))) = 0)"
    using nth assms(7) by simp
  have d: "ucast (ni_mpdHeadLen node) \<noteq> datalen" using len unfolding node assms(5) by simp
  have f: "ni_stream node = f" "ni_SSN node = ssn" by (simp_all add: node)
  show ?thesis
    unfolding MPD_DoParseMPData_def r[of 2, simplified] bindR.simps if_not_P[OF ok] r[of 8, simplified] Let_def n nth if_not_P[OF d] f ack
      if_not_P[OF assms(12)] using assms(7) by simp
qed

text \<open>The run of buffered packets that follow the number \<open>b\<close>.\<close>

definition run_behind :: "stRxDataWin \<Rightarrow> U16 \<Rightarrow> nat \<Rightarrow> stRxDataWinNode list" where
  "run_behind w b m = map (\<lambda>k. dw_Win w (dslot (b + of_nat k))) [1..<m]"

lemma dw_slots_run:
  assumes "dw_is w b len" and "0 < m"
  shows "dw_slots w m = dw_Win w (dslot b) # run_behind w b m"
proof -
  have "[0..<m] = 0 # [1..<m]" using assms(2) by (simp add: upt_conv_Cons)
  moreover have "dslot b < RxDataWinMaxSize" by (simp add: dslot_def)
  ultimately show ?thesis
    unfolding dw_slots_def run_behind_def dw_isD(4)[OF assms(1)] by (simp add: dslot_add)
qed

text \<open>
  C1: a packet that carries the number the data window starts with is handed to the transport at
  once, and with it, in order, the packets behind it that had arrived early; exactly their buffers change
  hands and the window then starts behind them. The packet is also recorded in its subflow's window,
  which stays in order.
\<close>

theorem ParseMPData_in_order:
  assumes "mem s buffer = Some (data_packet f dsn ssn ack u payload)" and "buffer \<noteq> 0" and "f < NUM_SUBFLOW"
    and "payload \<noteq> []" and "datalen = of_nat (12 + length payload)" and "12 + length payload < 65536"
    and "MPD_SCHD_getFlowValid s f \<noteq> 0" and "wf_tx (txWindow s f)" and "ack_distance f ack s = 0"
    and "\<forall>i<NUM_SUBFLOW. rs_ok (RxSubWin s i)" and "ssn \<le> 5 \<or> sw_RxNext (RxSubWin s f) \<noteq> 0"
    and "W = data_start dsn (RxDataWin s)" and "dw_ok W dsn len"
    and "0 < len \<Longrightarrow> dw_status (dw_Win W (dslot dsn)) \<noteq> ReceiveComplete"
    and "0 < m" and "m \<le> max len 1" and "\<forall>n\<in>set (run_behind W dsn m). deliverable s n"
    and "distinct (buffer # ptrs (run_behind W dsn m))"
    and "m < len \<Longrightarrow> dw_status (dw_Win W (dslot (dsn + of_nat m))) \<noteq> ReceiveComplete \<and>
                   \<not> timeOut (dw_Win W (dslot (dsn + of_nat m)))"
  shows "\<exists>s'. MPD_DoParseMPData env buffer datalen s = Inr (0, s') \<and>
     trace s' = rev (EvPost buffer (data_packet f dsn ssn ack u payload) (12 + length payload) 12
        # map (post_event s) (undelivered (run_behind W dsn m))) @ trace s \<and>
     mem s' = mem s |` (- set (buffer # ptrs (run_behind W dsn m))) \<and>
     dw_RxBegin (RxDataWin s') = dslot (dsn + of_nat m) \<and> (\<forall>i<NUM_SUBFLOW. rs_ok (RxSubWin s' i))"
proof -
  define node where "node = \<lparr>ni_stream = f, ni_fragment = NoFrag, ni_DSN = dsn, ni_SSN = ssn,
       ni_msgLen = of_nat (12 + length payload), ni_mpdHeadLen = 12, ni_msgPtr = buffer\<rparr>"
  define t where "t = upd_tx f (\<lambda>w. w\<lparr>ackTimeOutcnt := 0\<rparr>) (s\<lparr>lastPackageTime := g_time s + MPD_IDLE_TH\<rparr>)"
  have ts: "RxDataWin t = RxDataWin s" "RxSubWin t = RxSubWin s" "mem t = mem s" "trace t = trace s"
    by (simp_all add: t_def upd_tx_def)
  have "\<not> late_start node t" using assms(11) by (auto simp: late_start_def Let_def ts node_def)
  note parse = Parse_data_packet[OF assms(1-9) node_def t_def this]
  have "\<exists>V. MPD_DataWinAddNode env node t = Inr (1, t\<lparr>RxDataWin := V, rxDsnErr := 0\<rparr>) \<and>
     dw_ok V dsn (max len (Suc 0)) \<and> holds_packet node (dw_Win V (dslot dsn)) \<and>
     (\<forall>k<len. k \<noteq> 0 \<longrightarrow> dw_Win V (dslot (dsn + of_nat k)) = dw_Win W (dslot (dsn + of_nat k)))"
    using AddNode_whole[of node t dsn len 0 env] assms(12-14) by (fastforce simp: ts node_def)
  then obtain V where V: "MPD_DataWinAddNode env node t = Inr (1, t\<lparr>RxDataWin := V, rxDsnErr := 0\<rparr>)"
     "dw_ok V dsn (max len (Suc 0))" "holds_packet node (dw_Win V (dslot dsn))"
     "\<forall>k<len. k \<noteq> 0 \<longrightarrow> dw_Win V (dslot (dsn + of_nat k)) = dw_Win W (dslot (dsn + of_nat k))"
    by blast
  obtain w' where w': "MPD_SubWinAddNode ssn (RxSubWin s f) = Inr w'" "rs_ok w'"
    using SubAddNode_total assms(3,10) by blast
  define x where "x = upd_sub f (\<lambda>_. w') (t\<lparr>RxDataWin := V, rxDsnErr := 0\<rparr>)"
  have xs: "RxDataWin x = V" "mem x = mem s" "trace x = trace s" "\<forall>i<NUM_SUBFLOW. rs_ok (RxSubWin x i)"
    using assms(10) w'(2) by (simp_all add: x_def upd_sub_def ts)
  have sub: "on_sub f (MPD_SubWinAddNode ssn) (t\<lparr>RxDataWin := V, rxDsnErr := 0\<rparr>) = Inr x"
    using w'(1) by (simp add: on_sub_def ts x_def)
  have wi: "dw_is V dsn (max len (Suc 0))" using V(2) by (simp add: dw_ok_def)
  have run: "run_behind V dsn m = run_behind W dsn m"
    unfolding run_behind_def using V(4) assms(16) by (auto intro!: map_cong)
  let ?n = "dw_Win V (dslot dsn)"
  have slots: "dw_slots V m = ?n # run_behind W dsn m" using dw_slots_run[OF wi assms(15)] run by simp
  have n: "deliverable x ?n" "ack_flag ?n \<noteq> Sended" "msgPtr ?n 0 = buffer" "unat (msgLen ?n 0) = 12 + length payload"
    "unat (mpdHeadLen ?n) = 12"
    using V(3) assms(1,2,6) by (auto simp: holds_packet_def deliverable_def node_def xs unat_of_nat take_bit_nat_eq_self simp del: of_nat_add)
  have ps: "ptrs (dw_slots V m) = buffer # ptrs (run_behind W dsn m)"
    and us: "undelivered (dw_slots V m) = ?n # undelivered (run_behind W dsn m)"
    using n(2,3) by (simp_all add: slots ptrs_def undelivered_def)
  have stop: "dw_status (dw_Win V (dslot (dsn + of_nat m))) \<noteq> ReceiveComplete \<and> \<not> timeOut (dw_Win V (dslot (dsn + of_nat m)))"
  proof (cases "m < len")
    case True
    then show ?thesis using assms(15,19) V(4) by simp
  next
    case False
    then have "m = max len (Suc 0)" using assms(15,16) by simp
    then show ?thesis using V(2) by (simp add: dw_ok_def dwn_zero_def)
  qed
  have wb: "(dw_RxBegin V + m) mod RxDataWinMaxSize = dslot (dsn + of_nat m)"
    unfolding dw_isD(4)[OF wi] dslot_add by simp
  have deliv: "\<forall>k\<in>set (run_behind W dsn m). deliverable x k" using assms(17) by (simp add: deliverable_def xs)
  have "\<exists>s'. MPD_DataWinRxBeginMove env False x = Inr s' \<and> dw_RxBegin (RxDataWin s') = dslot (dsn + of_nat m) \<and>
     dw_Win (RxDataWin s') = dw_Win (RxDataWin x) \<and>
     mem s' = mem x |` (- set (ptrs (dw_slots (RxDataWin x) m))) \<and>
     trace s' = rev (map (post_event x) (undelivered (dw_slots (RxDataWin x) m))) @ trace x \<and>
     (\<forall>i<NUM_SUBFLOW. rs_ok (RxSubWin s' i))"
  proof (rule RxBeginMove_ok)
    show "m \<le> RxDataWinMaxSize" using assms(16) dw_isD(3)[OF wi] by simp
    show "dw_RxBegin (RxDataWin x) < RxDataWinMaxSize" unfolding xs dw_isD(4)[OF wi] by (simp add: dslot_def)
  qed (use stop wb deliv n(1) assms(18) in \<open>simp_all add: xs slots[symmetric] ps, auto simp: slots\<close>)
  then obtain s' where s': "MPD_DataWinRxBeginMove env False x = Inr s'"
     "dw_RxBegin (RxDataWin s') = dslot (dsn + of_nat m)" "mem s' = mem s |` (- set (buffer # ptrs (run_behind W dsn m)))"
     "trace s' = rev (map (post_event s) (?n # undelivered (run_behind W dsn m))) @ trace s"
     "\<forall>i<NUM_SUBFLOW. rs_ok (RxSubWin s' i)"
    unfolding xs ps us post_event_def by blast
  have "post_event s ?n = EvPost buffer (data_packet f dsn ssn ack u payload) (12 + length payload) 12"
    using assms(1) n by (simp add: post_event_def)
  moreover have "MPD_DoParseMPData env buffer datalen s = Inr (0, s')"
    unfolding parse V(1) bindR.simps prod.case using sub s'(1) by simp
  ultimately show ?thesis using s' by (intro exI[of _ s']) simp
qed

section \<open>An instance\<close>

text \<open>Subflow 0 is up; packet 1 waits in buffer 1 for packet 0, which arrives in buffer 2.\<close>

definition early_slot :: stRxDataWinNode where
  "early_slot = dwn_zero\<lparr>dw_status := ReceiveComplete, dw_DSN := 1, msgPtr := (\<lambda>_. 0)(0 := 1),
     msgLen := (\<lambda>_. 0)(0 := 20), mpdHeadLen := 12\<rparr>"

definition early_window :: stRxDataWin where
  "early_window = datawin_zero\<lparr>dw_RxNext := 2,
     dw_Win := (\<lambda>_. dwn_zero)(1 := early_slot, 2 := dwn_zero\<lparr>dw_DSN := 2\<rparr>)\<rparr>"

definition early_demo :: mpd_st where
  "early_demo = st_zero\<lparr>RxDataWin := early_window, schdPara := (\<lambda>_. para_zero\<lparr>isValid := 1\<rparr>),
     mem := [1 \<mapsto> replicate 20 7, 2 \<mapsto> data_packet 0 0 0 0 0 [9]]\<rparr>"

lemma early_demo_simps:
  "RxDataWin early_demo = early_window" "schdPara early_demo = (\<lambda>_. para_zero\<lparr>isValid := 1\<rparr>)"
  "mem early_demo = [1 \<mapsto> replicate 20 7, 2 \<mapsto> data_packet 0 0 0 0 0 [9]]" "trace early_demo = []"
  "RxSubWin early_demo = (\<lambda>_. subwin_zero)" "txWindow early_demo = (\<lambda>_. txwin_zero)"
  by (simp_all add: early_demo_def st_zero_def user_zero_def stUserInfo.defs mpd_st.defs)

lemma early_window_slots:
  "dw_RxBegin early_window = 0" "dw_RxNext early_window = 2" "dw_Win early_window 0 = dwn_zero"
  "dw_Win early_window (Suc 0) = early_slot" "dw_Win early_window 2 = dwn_zero\<lparr>dw_DSN := 2\<rparr>"
  by (simp_all add: early_window_def datawin_zero_def)

lemma early_window_ok: "dw_ok early_window 0 2"
proof -
  have "dw_is early_window 0 2"
    unfolding dw_is_def
  proof (intro conjI allI impI)
    fix k :: nat assume "k \<le> 2"
    then have "k = 0 \<or> k = Suc 0 \<or> k = 2" by auto
    then show "dw_DSN (dw_Win early_window (dslot (0 + of_nat k))) = 0 + of_nat k"
      by (elim disjE) (simp_all add: dslot_def early_window_slots early_slot_def dwn_zero_def)
  qed (simp_all add: dslot_def early_window_slots)
  then show ?thesis by (simp add: dw_ok_def dslot_def early_window_slots)
qed

lemma early_run: "run_behind early_window 0 2 = [early_slot]"
  by (simp add: run_behind_def dslot_def early_window_slots upt_rec)

theorem ParseMPData_in_order_witness:
  "\<exists>s'. MPD_DoParseMPData env_ok 2 13 early_demo = Inr (0, s') \<and>
     trace s' = [EvPost 1 (replicate 20 7) 20 12, EvPost 2 (data_packet 0 0 0 0 0 [9]) 13 12]"
proof -
  have p: "ptrs [early_slot] = [1]" "undelivered [early_slot] = [early_slot]"
    by (simp_all add: ptrs_def undelivered_def early_slot_def dwn_zero_def)
  have e: "post_event early_demo early_slot = EvPost 1 (replicate 20 7) 20 12"
    by (simp add: post_event_def early_slot_def early_demo_simps)
  have d: "deliverable early_demo early_slot" by (simp add: deliverable_def early_slot_def dwn_zero_def early_demo_simps)
  have "\<exists>s'. MPD_DoParseMPData env_ok 2 13 early_demo = Inr (0, s') \<and>
     trace s' = rev (EvPost 2 (data_packet 0 0 0 0 0 [9]) (12 + length [9::U8]) 12
        # map (post_event early_demo) (undelivered (run_behind early_window 0 2))) @ trace early_demo \<and>
     mem s' = mem early_demo |` (- set (2 # ptrs (run_behind early_window 0 2))) \<and>
     dw_RxBegin (RxDataWin s') = dslot (0 + of_nat 2) \<and> (\<forall>i<NUM_SUBFLOW. rs_ok (RxSubWin s' i))"
  proof (rule ParseMPData_in_order)
    show "early_window = data_start 0 (RxDataWin early_demo)"
      by (simp add: early_demo_simps data_start_def early_window_slots)
    show "dw_ok early_window 0 2" by (rule early_window_ok)
    show "wf_tx (txWindow early_demo 0)" by (simp add: early_demo_simps wf_tx_zero)
  qed (use d in \<open>simp_all add: early_demo_simps early_run p rs_ok_zero ack_distance_def
      txwin_zero_def dn_zero_def MPD_SCHD_getFlowValid_def para_zero_def early_window_slots dslot_def dwn_zero_def\<close>)
  then show ?thesis by (auto simp: early_run p e early_demo_simps)
qed

end
