(* ===== verification/MPD_Session.thy ===== *)
theory MPD_Session
  imports MPD_Core Step_Systems
begin

text \<open>
  The table of sessions as a state machine: the calls into the driver as an \<^verbatim>\<open>inductive\<close> step
  relation, the invariant that \<open>g_totalUserNum\<close> counts the sessions, and what rests on it: the loop of
  the tick, which stops after that many sessions, misses none of them.
\<close>

section \<open>Steps and reachable states\<close>

inductive mpd_step :: "rat_env \<Rightarrow> mpd_sys \<Rightarrow> mpd_sys \<Rightarrow> bool" for env where
  create: "MPD_CreatUserSession memAlloc u w = (r, w') \<Longrightarrow> mpd_step env w w'"
| delete: "MPD_DeleteUserSession env adr w = Inr w' \<Longrightarrow> mpd_step env w w'"
| parse: "MPD_ParseMPData env buffer datalen w = Inr (r, w') \<Longrightarrow> mpd_step env w w'"
| send: "MPD_SendNewTransData env dataAddr len w = Inr (r, w') \<Longrightarrow> mpd_step env w w'"
| state_ind: "MPD_SubFlowStateInd env deviceId state w = Inr w' \<Longrightarrow> mpd_step env w w'"
| period: "MPD_periodCheck env w = Inr w' \<Longrightarrow> mpd_step env w w'"

text \<open>The static counter is zero when the driver is loaded.\<close>

definition mpd_start :: "mpd_sys \<Rightarrow> bool" where
  "mpd_start w \<longleftrightarrow> (\<exists>memAlloc u w0. g_totalUserNum w0 = 0 \<and> w = MPD_Init memAlloc u w0)"

abbreviation mpd_reachable :: "rat_env \<Rightarrow> mpd_sys \<Rightarrow> bool" where
  "mpd_reachable env \<equiv> reach mpd_start (mpd_step env)"

inductive_cases mpd_stepE: "mpd_step env w w'"

section \<open>The sessions of a table\<close>

definition sessions :: "mpd_sys \<Rightarrow> nat set" where
  "sessions w = {i. i < MAX_USER_NUM \<and> g_pUserInfo w i \<noteq> None}"

definition table_ok :: "mpd_sys \<Rightarrow> bool" where
  "table_ok w \<longleftrightarrow> unat (g_totalUserNum w) = card (sessions w)"

lemma sessions_sub: "sessions w \<subseteq> {..<MAX_USER_NUM}"
  by (auto simp: sessions_def)

lemma finite_sessions [simp]: "finite (sessions w)"
  by (rule finite_subset[OF sessions_sub]) simp

lemma card_sessions: "card (sessions w) \<le> MAX_USER_NUM"
  using card_mono[OF _ sessions_sub] by simp

text \<open>Updates inside a session and of the globals keep the table.\<close>

definition same_table :: "mpd_sys \<Rightarrow> mpd_sys \<Rightarrow> bool" where
  "same_table w w' \<longleftrightarrow> sessions w' = sessions w \<and> g_totalUserNum w' = g_totalUserNum w"

lemma same_table_refl [simp]: "same_table w w"
  by (simp add: same_table_def)

lemma same_table_trans: "same_table v w \<Longrightarrow> same_table u v \<Longrightarrow> same_table u w"
  by (simp add: same_table_def)

lemma same_table_ok: "same_table w w' \<Longrightarrow> table_ok w \<Longrightarrow> table_ok w'"
  by (simp add: same_table_def table_ok_def)

lemma same_table_put: "g_pUserInfo w i \<noteq> None \<Longrightarrow> same_table w (put_user i s w)"
  by (auto simp: same_table_def sessions_def put_user_def)

lemma same_table_globals: "on_globals f w = Inr w' \<Longrightarrow> same_table w w'"
  by (auto simp: on_globals_def res_simps same_table_def sessions_def)

lemma same_table_tick [simp]: "same_table w (tick w)"
  by (simp add: tick_def Let_def same_table_def sessions_def)

lemma put_user_table: "g_totalUserNum (put_user i s w) = g_totalUserNum w"
  "g_pUserInfo (put_user i s w) = (g_pUserInfo w)(i \<mapsto> stUserInfo.truncate s)"
  by (simp_all add: put_user_def)

lemma Parse_table: "MPD_ParseMPData env buffer datalen w = Inr (r, w') \<Longrightarrow> same_table w w'"
  by (auto simp: MPD_ParseMPData_def ut_user_def res_simps split: if_splits option.splits prod.splits
      intro: same_table_put same_table_globals)

lemma Send_table: "MPD_SendNewTransData env dataAddr len w = Inr (r, w') \<Longrightarrow> same_table w w'"
  by (auto simp: MPD_SendNewTransData_def ut_user_def res_simps split: if_splits option.splits prod.splits
      intro: same_table_put same_table_globals)

lemma StateInd_table: "MPD_SubFlowStateInd env deviceId state w = Inr w' \<Longrightarrow> same_table w w'"
  by (auto simp: MPD_SubFlowStateInd_def ut_user_def res_simps split: if_splits option.splits
      intro: same_table_put)

lemma periodLoop_table:
  "periodCheck_loop k idx n env w = Inr w' \<Longrightarrow> same_table w w'"
proof (induction k idx n env w rule: periodCheck_loop.induct)
  case (2 k idx n env w)
  then show ?case
    by (auto simp: res_simps split: option.splits if_splits
        intro: same_table_trans[OF _ same_table_put])
qed simp

lemma period_table: "MPD_periodCheck env w = Inr w' \<Longrightarrow> same_table w w'"
  unfolding MPD_periodCheck_def by (rule same_table_trans[OF periodLoop_table same_table_tick])

section \<open>Creation\<close>

text \<open>The first free entry of a table.\<close>

definition first_free :: "mpd_sys \<Rightarrow> nat \<Rightarrow> bool" where
  "first_free w i \<longleftrightarrow> i < MAX_USER_NUM \<and> g_pUserInfo w i = None \<and> {..<i} \<subseteq> sessions w"

lemma creat_loop_free:
  assumes "idx \<le> i" "i < idx + k" "g_pUserInfo w i = None" "\<forall>j. idx \<le> j \<and> j < i \<longrightarrow> g_pUserInfo w j \<noteq> None"
  shows "creatUser_loop k idx memAlloc u w =
     (case memAlloc i of
        None \<Rightarrow> (0, w)
      | Some blk \<Rightarrow>
          let w = w\<lparr>g_totalUserNum := g_totalUserNum w + 1\<rparr>
          in (of_nat i, put_user i (MPD_UserInfoInit (of_nat i) u (user_st blk w)) w))"
  using assms
proof (induction k arbitrary: idx)
  case (Suc k)
  show ?case
  proof (cases "idx = i")
    case False
    then have "g_pUserInfo w idx \<noteq> None" using Suc.prems by auto
    moreover have "creatUser_loop k (idx + 1) memAlloc u w =
       (case memAlloc i of None \<Rightarrow> (0, w)
        | Some blk \<Rightarrow> let w = w\<lparr>g_totalUserNum := g_totalUserNum w + 1\<rparr>
          in (of_nat i, put_user i (MPD_UserInfoInit (of_nat i) u (user_st blk w)) w))"
      using Suc.prems False by (intro Suc.IH) auto
    ultimately show ?thesis by simp
  qed (use Suc.prems in simp)
qed simp

lemma creat_loop_full:
  "\<forall>j. idx \<le> j \<and> j < idx + k \<longrightarrow> g_pUserInfo w j \<noteq> None \<Longrightarrow> creatUser_loop k idx memAlloc u w = (- 1, w)"
  by (induction k arbitrary: idx) auto

lemma first_free_or_full: "(\<exists>i. first_free w i) \<or> sessions w = {..<MAX_USER_NUM}"
proof (cases "\<exists>i. i < MAX_USER_NUM \<and> g_pUserInfo w i = None")
  case True
  define i where "i = (LEAST i. i < MAX_USER_NUM \<and> g_pUserInfo w i = None)"
  have i: "i < MAX_USER_NUM \<and> g_pUserInfo w i = None" unfolding i_def by (rule LeastI_ex[OF True])
  have "j \<in> sessions w" if "j < i" for j
    using not_less_Least[OF that[unfolded i_def]] that i by (auto simp: sessions_def)
  then have "first_free w i" using i by (auto simp: first_free_def)
  then show ?thesis by blast
next
  case False
  then have "sessions w = {..<MAX_USER_NUM}" by (auto simp: sessions_def)
  then show ?thesis ..
qed

lemma create_free:
  assumes "first_free w i"
  shows "MPD_CreatUserSession memAlloc u w =
     (case memAlloc i of
        None \<Rightarrow> (0, w)
      | Some blk \<Rightarrow>
          let w = w\<lparr>g_totalUserNum := g_totalUserNum w + 1\<rparr>
          in (of_nat i, put_user i (MPD_UserInfoInit (of_nat i) u (user_st blk w)) w))"
  unfolding MPD_CreatUserSession_def
  by (rule creat_loop_free) (use assms in \<open>auto simp: first_free_def sessions_def subset_iff\<close>)

lemma create_full:
  assumes "sessions w = {..<MAX_USER_NUM}"
  shows "MPD_CreatUserSession memAlloc u w = (- 1, w)"
proof -
  have "i < MAX_USER_NUM \<Longrightarrow> g_pUserInfo w i \<noteq> None" for i
    using assms unfolding sessions_def by blast
  then show ?thesis unfolding MPD_CreatUserSession_def by (intro creat_loop_full) auto
qed

lemma unat_Suc_small: "unat (x::U32) < 100 \<Longrightarrow> unat (x + 1) = unat x + 1"
  by (simp add: unat_word_ariths unat_arith_simps)

lemma sessions_put_new:
  "first_free w i \<Longrightarrow> sessions (put_user i s (w\<lparr>g_totalUserNum := n\<rparr>)) = insert i (sessions w)"
  by (auto simp: sessions_def put_user_table first_free_def)

lemma create_table:
  assumes "MPD_CreatUserSession memAlloc u w = (r, w')" "table_ok w"
  shows "table_ok w'"
proof (cases "sessions w = {..<MAX_USER_NUM}")
  case True
  then show ?thesis using assms by (simp add: create_full)
next
  case False
  then obtain i where i: "first_free w i" using first_free_or_full by blast
  have notin: "i \<notin> sessions w" using i by (simp add: first_free_def sessions_def)
  have "card (sessions w) < card {..<MAX_USER_NUM}"
    by (rule psubset_card_mono) (use False sessions_sub in auto)
  then have n: "unat (g_totalUserNum w + 1) = card (sessions w) + 1"
    using assms(2) by (simp add: unat_Suc_small table_ok_def)
  show ?thesis
    using assms(1) notin n assms(2)
    by (auto simp: create_free[OF i] Let_def table_ok_def sessions_put_new[OF i] put_user_table
        split: option.splits)
qed

section \<open>Release\<close>

lemma delete_cases:
  assumes "MPD_DeleteUserSession env adr w = Inr w'" "table_ok w"
  shows "w' = w \<or> (adr \<in> sessions w \<and> sessions w' = sessions w - {adr} \<and> g_totalUserNum w' = g_totalUserNum w - 1)"
  using assms
  by (auto simp: MPD_DeleteUserSession_def res_simps sessions_def split: if_splits option.splits)

lemma delete_table:
  assumes "MPD_DeleteUserSession env adr w = Inr w'" "table_ok w"
  shows "table_ok w'"
  using delete_cases[OF assms]
proof
  assume d: "adr \<in> sessions w \<and> sessions w' = sessions w - {adr} \<and> g_totalUserNum w' = g_totalUserNum w - 1"
  then have pos: "0 < card (sessions w)" by (auto simp: card_gt_0_iff)
  then have "g_totalUserNum w \<noteq> 0" using assms(2) by (auto simp: table_ok_def)
  then have "unat (g_totalUserNum w - 1) = unat (g_totalUserNum w) - 1"
    by (simp add: unat_minus_one)
  then show ?thesis using d assms(2) pos by (simp add: table_ok_def)
qed (use assms in simp)

section \<open>The invariant\<close>

lemma step_table: "mpd_step env w w' \<Longrightarrow> table_ok w \<Longrightarrow> table_ok w'"
  by (erule mpd_stepE)
    (blast intro: create_table delete_table same_table_ok Parse_table Send_table StateInd_table period_table)+

lemma init_table:
  assumes "g_totalUserNum w = 0"
  shows "table_ok (MPD_Init memAlloc u w)"
proof -
  define w0 where "w0 = w\<lparr>g_pUserInfo := (\<lambda>i. if i < MAX_USER_NUM then None else g_pUserInfo w i),
      globals := stUserInfo.more (MPD_SCHD_CfgInit ((user_st user_zero w)\<lparr>g_time := 0\<rparr>))\<rparr>"
  have "sessions w0 = {}" by (auto simp: w0_def sessions_def)
  then have ok: "table_ok w0" using assms by (simp add: table_ok_def w0_def)
  obtain r w1 where c: "MPD_CreatUserSession memAlloc u w0 = (r, w1)" by fastforce
  have "table_ok w1" by (rule create_table[OF c ok])
  moreover have "MPD_Init memAlloc u w = w1\<lparr>utAddressID := r\<rparr>"
    using c by (simp add: MPD_Init_def Let_def w0_def)
  ultimately show ?thesis by (simp add: table_ok_def sessions_def)
qed

interpretation ms: step_invariant mpd_start "mpd_step env" table_ok for env
  by unfold_locales (auto simp: mpd_start_def intro: init_table step_table)

lemma reachable_table: "mpd_reachable env w \<Longrightarrow> table_ok w"
  by (rule ms.reach_inv)

section \<open>Properties of the table\<close>

text \<open>
  C22: in every state the driver can reach the counter of sessions is the number of entries of the
  table that are in use, and a further call keeps it so: it never wraps below zero or past the size
  of the table.
\<close>

theorem session_count_invariant:
  assumes "mpd_reachable env w" and "mpd_step env w w'"
  shows "unat (g_totalUserNum w) = card (sessions w) \<and> unat (g_totalUserNum w') = card (sessions w') \<and>
     unat (g_totalUserNum w') \<le> MAX_USER_NUM"
  using ms.reach_step_inv[OF assms] card_sessions[of w'] by (simp add: table_ok_def)

text \<open>
  A new session takes the first free entry of the table and its address is the number of that
  entry; the other entries stay as they are. Without a free entry the answer is \<open>2 ^ 32 - 1\<close>, and
  without memory it is 0, the address of the first session; both leave the table alone.
\<close>

theorem CreatUserSession_first_free:
  "(\<forall>i blk. first_free w i \<and> memAlloc i = Some blk \<longrightarrow>
      (\<exists>u' w'. MPD_CreatUserSession memAlloc u w = (of_nat i, w') \<and> g_pUserInfo w' = (g_pUserInfo w)(i \<mapsto> u') \<and>
         addressID u' = of_nat i \<and> uid u' = u \<and> activeFlowNum u' = 0 \<and> g_totalUserNum w' = g_totalUserNum w + 1)) \<and>
   (\<forall>i. first_free w i \<and> memAlloc i = None \<longrightarrow> MPD_CreatUserSession memAlloc u w = (0, w)) \<and>
   ((\<nexists>i. first_free w i) \<longrightarrow> MPD_CreatUserSession memAlloc u w = (- 1, w))"
proof (intro conjI allI impI)
  fix i blk assume i: "first_free w i \<and> memAlloc i = Some blk"
  let ?w = "w\<lparr>g_totalUserNum := g_totalUserNum w + 1\<rparr>"
  let ?s = "MPD_UserInfoInit (of_nat i) u (user_st blk ?w)"
  have "MPD_CreatUserSession memAlloc u w = (of_nat i, put_user i ?s ?w)"
    using create_free[of w i memAlloc u] i by (simp add: Let_def)
  moreover have "addressID (stUserInfo.truncate ?s) = of_nat i" "uid (stUserInfo.truncate ?s) = u"
    "activeFlowNum (stUserInfo.truncate ?s) = 0"
    by (simp_all add: MPD_UserInfoInit_def MPD_TrafficCtlInit_def Let_def stUserInfo.defs)
  ultimately show "\<exists>u' w'. MPD_CreatUserSession memAlloc u w = (of_nat i, w') \<and> g_pUserInfo w' = (g_pUserInfo w)(i \<mapsto> u') \<and>
         addressID u' = of_nat i \<and> uid u' = u \<and> activeFlowNum u' = 0 \<and> g_totalUserNum w' = g_totalUserNum w + 1"
    by (intro exI[of _ "stUserInfo.truncate ?s"] exI[of _ "put_user i ?s ?w"]) (simp add: put_user_table)
next
  fix i assume "first_free w i \<and> memAlloc i = None"
  then show "MPD_CreatUserSession memAlloc u w = (0, w)" using create_free[of w i memAlloc u] by simp
next
  assume "\<nexists>i. first_free w i"
  then show "MPD_CreatUserSession memAlloc u w = (- 1, w)" using create_full first_free_or_full by blast
qed

subsection \<open>A new session goes without a trace\<close>

lemma fresh_release:
  "\<exists>s'. release_user env (MPD_UserInfoInit a u s) = Inr s' \<and> stUserInfo.more s' = stUserInfo.more s"
proof -
  let ?s = "MPD_UserInfoInit a u s"
  have v: "MPD_SCHD_getFlowValid (upd_dw f ?s) i = 0" if "i < NUM_SUBFLOW" for i f
    using that by (simp add: MPD_SCHD_getFlowValid_def MPD_UserInfoInit_def MPD_TrafficCtlInit_def MPD_RxWinInit_def
        MPD_SACKInit_def MPD_TxWinInit_def MPD_SCHD_Init_def SCHD_Init_para_def Let_def upd_dw_def)
  have "RxDataWin ?s = datawin_zero"
    by (simp add: MPD_UserInfoInit_def MPD_TrafficCtlInit_def MPD_RxWinInit_def Let_def)
  then have "MPD_ClearDataWin env ?s = Inr (upd_dw (\<lambda>_. datawin_zero) ?s)"
    by (simp add: MPD_ClearDataWin_def clearDataWin_loop.simps datawin_zero_def)
  moreover have "forR clear_valid_tx [0..<NUM_SUBFLOW] (upd_dw (\<lambda>_. datawin_zero) ?s) = Inr (upd_dw (\<lambda>_. datawin_zero) ?s)"
    by (simp add: clear_valid_tx_def v upt_rec)
  ultimately show ?thesis
    by (simp add: release_user_def upd_dw_def MPD_UserInfoInit_def MPD_TrafficCtlInit_def MPD_RxWinInit_def
        MPD_SACKInit_def MPD_TxWinInit_def MPD_SCHD_Init_def Let_def)
qed

lemma user_st_put: "g_pUserInfo w i = Some v \<Longrightarrow> v = stUserInfo.truncate s \<Longrightarrow> globals w = stUserInfo.more s \<Longrightarrow> user_st v w = s"
  by (cases s) (simp add: user_st_def stUserInfo.defs)

text \<open>
  A session that is created and deleted again leaves the whole state of the driver as it was: its
  entry is free, the count is the old one, and the globals have not changed.
\<close>

theorem create_delete_roundtrip:
  assumes "table_ok w" and "first_free w i" and "memAlloc i = Some blk"
    and "MPD_CreatUserSession memAlloc u w = (r, w1)"
  shows "MPD_DeleteUserSession env (unat r) w1 = Inr w"
proof -
  let ?w = "w\<lparr>g_totalUserNum := g_totalUserNum w + 1\<rparr>"
  define s where "s = MPD_UserInfoInit (of_nat i) u (user_st blk ?w)"
  have "MPD_CreatUserSession memAlloc u w = (of_nat i, put_user i s ?w)"
    using create_free[OF assms(2), of memAlloc u] assms(3) by (simp add: Let_def s_def)
  then have w1: "w1 = put_user i s ?w" "r = of_nat i" using assms(4) by auto
  have i: "i < MAX_USER_NUM" "g_pUserInfo w i = None" using assms(2) by (simp_all add: first_free_def)
  have r: "unat r = i" using i(1) unfolding w1(2) by (simp add: unat_of_nat take_bit_nat_eq_self)
  have more: "stUserInfo.more s = globals w"
    by (simp add: s_def MPD_UserInfoInit_def MPD_TrafficCtlInit_def MPD_RxWinInit_def MPD_SACKInit_def MPD_TxWinInit_def
        MPD_SCHD_Init_def Let_def user_st_def stUserInfo.defs)
  have u1: "user_st (stUserInfo.truncate s) w1 = s"
    by (rule user_st_put[of _ i]) (simp_all add: w1 put_user_def)
  obtain s' where s': "release_user env s = Inr s'" "stUserInfo.more s' = globals w"
    using fresh_release[of env "of_nat i" u "user_st blk ?w"] unfolding s_def
    by (auto simp: user_st_def stUserInfo.defs)
  have "unat (g_totalUserNum w) \<le> 100" using assms(1) card_sessions[of w] by (simp add: table_ok_def)
  then have "g_totalUserNum w \<noteq> - 1" by (auto simp: unsigned_minus_1_eq_mask mask_eq_exp_minus_1)
  then have "g_totalUserNum w + 1 \<noteq> 0" by (simp add: add_eq_0_iff2)
  then have "MPD_DeleteUserSession env (unat r) w1 = Inr (w1\<lparr>globals := stUserInfo.more s',
      g_totalUserNum := g_totalUserNum w1 - 1, g_pUserInfo := (g_pUserInfo w1)(i := None)\<rparr>)"
    using i u1 s'(1) unfolding MPD_DeleteUserSession_def r by (simp add: w1(1) put_user_table)
  also have "\<dots> = Inr w"
    using i(2) s'(2) by (auto simp: w1(1) put_user_def fun_upd_idem)
  finally show ?thesis .
qed

subsection \<open>The tick\<close>

text \<open>The work of the tick on one entry, and the tick without its early exit.\<close>

definition tick_session :: "rat_env \<Rightarrow> nat \<Rightarrow> mpd_sys \<Rightarrow> mpd_sys res" where
  "tick_session env i w = (case g_pUserInfo w i of
      None \<Rightarrow> Inr w
    | Some u \<Rightarrow> bindR (periodCheck_user env (user_st u w)) (\<lambda>s. Inr (put_user i s w)))"

lemma tick_session_simps:
  "g_pUserInfo w i = None \<Longrightarrow> tick_session env i w = Inr w"
  "g_pUserInfo w i = Some u \<Longrightarrow>
     tick_session env i w = bindR (periodCheck_user env (user_st u w)) (\<lambda>s. Inr (put_user i s w))"
  by (simp_all add: tick_session_def)

lemma tick_session_table: "tick_session env i w = Inr w' \<Longrightarrow> same_table w w'"
  by (auto simp: tick_session_def res_simps split: option.splits intro: same_table_put)

lemma sessions_below: "i \<in> sessions w \<Longrightarrow> card (sessions w \<inter> {..<i}) < card (sessions w)"
  by (rule psubset_card_mono) auto

lemma sessions_below_Suc:
  "card (sessions w \<inter> {..<Suc i}) = card (sessions w \<inter> {..<i}) + (if i \<in> sessions w then 1 else 0)"
  by (simp add: lessThan_Suc Int_insert_right)

lemma periodLoop_all:
  assumes "table_ok w" and "idx + k = MAX_USER_NUM" and "unat n = card (sessions w \<inter> {..<idx})"
  shows "periodCheck_loop k idx n env w = forR (tick_session env) [idx..<idx + k] w"
  using assms
proof (induction k arbitrary: idx n w)
  case (Suc k)
  have up: "[idx..<idx + Suc k] = idx # [Suc idx..<Suc idx + k]" by (simp add: upt_conv_Cons del: upt_Suc)
  show ?case
  proof (cases "g_pUserInfo w idx")
    case None
    then have "idx \<notin> sessions w" by (simp add: sessions_def)
    then have "unat n = card (sessions w \<inter> {..<Suc idx})" using Suc.prems(3) by (simp add: sessions_below_Suc)
    then have "periodCheck_loop k (Suc idx) n env w = forR (tick_session env) [Suc idx..<Suc idx + k] w"
      using Suc.prems(1,2) by (intro Suc.IH) simp_all
    then show ?thesis unfolding up using None by (simp add: tick_session_simps del: upt_Suc)
  next
    case (Some u)
    then have m: "idx \<in> sessions w" using Suc.prems(2) by (simp add: sessions_def)
    have lt: "unat n < unat (g_totalUserNum w)"
      using sessions_below[OF m] Suc.prems(1,3) by (simp add: table_ok_def)
    then have go: "\<not> n \<ge> g_totalUserNum w" by (simp add: word_le_nat_alt)
    have n: "unat (n + 1) = unat n + 1"
      using lt Suc.prems(1) card_sessions[of w] by (intro unat_Suc_small) (simp add: table_ok_def)
    have "periodCheck_loop k (Suc idx) (n + 1) env (put_user idx s w) =
        forR (tick_session env) [Suc idx..<Suc idx + k] (put_user idx s w)" for s
    proof (rule Suc.IH)
      have st: "same_table w (put_user idx s w)" using Some by (intro same_table_put) simp
      show "table_ok (put_user idx s w)" by (rule same_table_ok[OF st Suc.prems(1)])
      show "unat (n + 1) = card (sessions (put_user idx s w) \<inter> {..<Suc idx})"
        using st n m Suc.prems(3) by (simp add: same_table_def sessions_below_Suc)
    qed (use Suc.prems(2) in simp)
    with Some go show ?thesis unfolding up by (simp add: tick_session_simps bindR_assoc del: upt_Suc)
  qed
qed simp

text \<open>
  The loop of the tick, which stops as soon as it has seen as many sessions as the counter says,
  is in every reachable state the same as working on every entry of the table in turn: no session is
  missed.
\<close>

theorem periodCheck_all_sessions:
  assumes "mpd_reachable env w"
  shows "MPD_periodCheck env w = forR (tick_session env) [0..<MAX_USER_NUM] (tick w)"
  unfolding MPD_periodCheck_def
  using periodLoop_all[of "tick w" 0 MAX_USER_NUM 0 env] same_table_ok[OF same_table_tick reachable_table[OF assms]]
  by (simp del: upt_Suc upt_rec_numeral)

subsection \<open>A second start\<close>

text \<open>
  \<^verbatim>\<open>MPD_Init\<close> empties the table but not the counter. Called while sessions exist, it leaves a
  counter that is larger than the number of sessions by the number it has forgotten.
\<close>

theorem Init_keeps_counter:
  assumes "table_ok w" and "memAlloc 0 = Some blk"
  shows "unat (g_totalUserNum (MPD_Init memAlloc u w)) = card (sessions w) + 1 \<and> sessions (MPD_Init memAlloc u w) = {0}"
proof -
  define w0 where "w0 = w\<lparr>g_pUserInfo := (\<lambda>i. if i < MAX_USER_NUM then None else g_pUserInfo w i),
      globals := stUserInfo.more (MPD_SCHD_CfgInit ((user_st user_zero w)\<lparr>g_time := 0\<rparr>))\<rparr>"
  have "first_free w0 0" by (simp add: first_free_def w0_def)
  note c = create_free[OF this, of memAlloc u] sessions_put_new[OF this]
  have e: "sessions w0 = {}" "g_totalUserNum w0 = g_totalUserNum w" by (auto simp: w0_def sessions_def)
  have l: "unat (g_totalUserNum w) < 100 \<or> unat (g_totalUserNum w) = 100"
    using assms(1) card_sessions[of w] by (auto simp: table_ok_def)
  then have n: "unat (g_totalUserNum w + 1) = card (sessions w) + 1"
    using assms(1) by (auto simp: table_ok_def unat_word_ariths)
  have "MPD_Init memAlloc u w = (case MPD_CreatUserSession memAlloc u w0 of (idx, w) \<Rightarrow> w\<lparr>utAddressID := idx\<rparr>)"
    by (simp add: MPD_Init_def Let_def w0_def)
  moreover have "sessions (x\<lparr>utAddressID := a\<rparr>) = sessions x" for a x by (simp add: sessions_def)
  ultimately show ?thesis using c(1) assms(2) n by (simp add: Let_def c(2) e put_user_table)
qed

section \<open>Instances\<close>

text \<open>The driver when it is loaded, and after its start with one session.\<close>

definition sys_zero :: mpd_sys where
  "sys_zero = \<lparr>g_pUserInfo = (\<lambda>_. None), g_totalUserNum = 0, utAddressID = 0, globals = stUserInfo.more st_zero\<rparr>"

definition sys_demo :: mpd_sys where
  "sys_demo = MPD_Init (\<lambda>_. Some user_zero) 7 sys_zero"

lemma sys_zero_ok: "table_ok sys_zero" "first_free sys_zero 0" "sessions sys_zero = {}"
  by (simp_all add: table_ok_def sessions_def first_free_def sys_zero_def)

lemma sys_demo_reachable: "mpd_reachable env sys_demo"
  proof (rule reach.start)
  have "g_totalUserNum sys_zero = 0" by (simp add: sys_zero_def)
  then show "mpd_start sys_demo" unfolding mpd_start_def sys_demo_def by blast
qed

theorem session_count_invariant_witness:
  "unat (g_totalUserNum sys_demo) = card (sessions sys_demo) \<and>
   unat (g_totalUserNum (snd (MPD_CreatUserSession (\<lambda>_. Some user_zero) 8 sys_demo))) =
     card (sessions (snd (MPD_CreatUserSession (\<lambda>_. Some user_zero) 8 sys_demo)))"
  using session_count_invariant[OF sys_demo_reachable[of env_ok] mpd_step.create[OF prod.collapse[symmetric]],
      of "\<lambda>_. Some user_zero" 8] by simp

theorem CreatUserSession_first_free_witness:
  "\<exists>u' w'. MPD_CreatUserSession (\<lambda>_. Some user_zero) 7 sys_zero = (0, w') \<and> g_pUserInfo w' = [0 \<mapsto> u'] \<and> uid u' = 7"
  using CreatUserSession_first_free[of sys_zero "\<lambda>_. Some user_zero" 7] sys_zero_ok(2)
  by (fastforce simp: sys_zero_def)

theorem create_delete_roundtrip_witness:
  "MPD_DeleteUserSession env_ok (unat (fst (MPD_CreatUserSession (\<lambda>_. Some user_zero) 7 sys_zero)))
     (snd (MPD_CreatUserSession (\<lambda>_. Some user_zero) 7 sys_zero)) = Inr sys_zero"
  by (rule create_delete_roundtrip[OF sys_zero_ok(1,2) _ prod.collapse[symmetric]]) simp

theorem periodCheck_all_sessions_witness:
  "MPD_periodCheck env_ok sys_demo = forR (tick_session env_ok) [0..<MAX_USER_NUM] (tick sys_demo)"
  by (rule periodCheck_all_sessions[OF sys_demo_reachable])

theorem Init_keeps_counter_witness:
  "unat (g_totalUserNum (MPD_Init (\<lambda>_. Some user_zero) 8 sys_demo)) = card (sessions sys_demo) + 1 \<and>
   sessions (MPD_Init (\<lambda>_. Some user_zero) 8 sys_demo) = {0}"
  by (rule Init_keeps_counter[OF reachable_table[OF sys_demo_reachable]]) simp

end
