(* ===== verification/MPD_SubFlow.thy ===== *)
theory MPD_SubFlow
  imports MPD_Session
begin

text \<open>
  Subflows that come and go: what \<^verbatim>\<open>MPD_DoSubFlowStateInd\<close> does when a device is enabled and when it
  is disabled while another one carries on, and the tables of device numbers.
\<close>

section \<open>Device numbers\<close>

lemma GetSubFlowId_cases:
  "MPD_GetSubFlowId d = (if d = 1 then 0 else if d = 2 then 1 else if d = 4 then 2 else - 1)"
proof (cases "4 < d")
  case True
  then have "d \<noteq> 1" "d \<noteq> 2" "d \<noteq> 4" by auto
  then show ?thesis using True by (simp add: MPD_GetSubFlowId_def)
next
  case False
  then have "unat d \<le> 4" by (simp add: word_le_nat_alt not_less)
  then have "unat d \<in> {0, 1, 2, 3, 4}" by auto
  then have "d \<in> {0, 1, 2, 3, 4}" by (auto simp: word_unat_eq_iff)
  then show ?thesis by (auto simp: MPD_GetSubFlowId_def g_dev2SfId_def)
qed

lemma SubFlowId_less: "MPD_GetSubFlowId d = int f \<Longrightarrow> f < NUM_SUBFLOW \<and> d \<noteq> 0"
  by (auto simp: GetSubFlowId_cases split: if_splits)

text \<open>
  The two tables agree: the device of a subflow is the device whose number stands for that
  subflow, and every other number stands for none.
\<close>

theorem device_subflow_inverse:
  "(\<forall>f<NUM_SUBFLOW. MPD_GetSubFlowId (word_of_int (MPD_GetDeviceId f)) = int f) \<and>
   (\<forall>d. MPD_GetSubFlowId d \<noteq> - 1 \<longrightarrow> MPD_GetDeviceId (nat (MPD_GetSubFlowId d)) = int (unat d))"
  by (auto simp: GetSubFlowId_cases MPD_GetDeviceId_def g_sfId2Dev_def less_Suc_eq numeral_3_eq_3)

text \<open>
  The round-trip time of a device without a subflow is read outside the array, while the three
  known devices give the delay of their subflows; without a session the answer is 5.
\<close>

theorem GetRTT_answers:
  assumes "ut_user w = Inr uo"
  shows "MPD_GetRTT netType w = (case uo of None \<Rightarrow> Inr 5 | Some u \<Rightarrow>
     if netType = 1 then Inr (InhertDelay (schdPara u 0))
     else if netType = 2 then Inr (InhertDelay (schdPara u 1))
     else if netType = 4 then Inr (InhertDelay (schdPara u 2)) else Inl OutOfBounds)"
  by (simp add: MPD_GetRTT_def assms GetSubFlowId_cases split: option.split)

section \<open>The number of active subflows\<close>

definition valid_flows :: "mpd_st \<Rightarrow> nat set" where
  "valid_flows s = {i. i < NUM_SUBFLOW \<and> isValid (schdPara s i) \<noteq> 0}"

lemma active_count_card: "active_count s = of_nat (card (valid_flows s))"
proof -
  have "fold (\<lambda>i n. if MPD_SCHD_getFlowValid s i \<noteq> 0 then n + 1 else n) [0..<k] (0::U32) =
      of_nat (card {i. i < k \<and> isValid (schdPara s i) \<noteq> 0})" if "k \<le> NUM_SUBFLOW" for k
    using that
  proof (induction k)
    case (Suc k)
    have "{i. i < Suc k \<and> isValid (schdPara s i) \<noteq> 0} = {i. i < k \<and> isValid (schdPara s i) \<noteq> 0} \<union>
        (if isValid (schdPara s k) \<noteq> 0 then {k} else {})"
      by (auto simp: less_Suc_eq)
    then show ?case using Suc by (auto simp: MPD_SCHD_getFlowValid_def)
  qed simp
  then show ?thesis by (simp add: active_count_def valid_flows_def)
qed

section \<open>Enabling\<close>

definition enabled_para :: "nat \<Rightarrow> bool \<Rightarrow> mpd_st \<Rightarrow> nat \<Rightarrow> stSchdStreamPara" where
  "enabled_para f fresh s i =
     (let p = (if fresh \<and> i < NUM_SUBFLOW then (schdPara s i)\<lparr>wCnt := NN (g_schdCfg s), RTTFlow := 1\<rparr> else schdPara s i)
      in if i = f then p\<lparr>isValid := 1\<rparr> else p)"

lemma subflow_enabled:
  assumes "MPD_GetSubFlowId deviceId = int f"
  shows "\<exists>s'. MPD_DoSubFlowStateInd env deviceId MP_ENABLE s = Inr s' \<and>
     schdPara s' = enabled_para f (isValid (schdPara s f) \<noteq> 1) s \<and> valid_flows s' = insert f (valid_flows s) \<and>
     activeFlowNum s' = of_nat (card (valid_flows s')) \<and> txWindow s' = txWindow s \<and> RxSubWin s' = RxSubWin s \<and>
     RxDataWin s' = RxDataWin s \<and> mem s' = mem s \<and> trace s' = trace s"
proof -
  have f: "f < NUM_SUBFLOW" "deviceId \<noteq> 0" using SubFlowId_less[OF assms] by simp_all
  let ?fresh = "isValid (schdPara s f) \<noteq> 1"
  define t where "t = (if ?fresh then fold (\<lambda>i. upd_para i (\<lambda>p. p\<lparr>wCnt := NN (g_schdCfg s), RTTFlow := 1\<rparr>)) [0..<NUM_SUBFLOW] s else s)"
  define x where "x = MPD_SCHD_setFlowValid f (ucast (1::U8)) t"
  have t: "t = s\<lparr>schdPara := (\<lambda>i. if ?fresh \<and> i < NUM_SUBFLOW then (schdPara s i)\<lparr>wCnt := NN (g_schdCfg s), RTTFlow := 1\<rparr>
        else schdPara s i)\<rparr>"
    by (auto simp: t_def upt_rec upd_para_def fun_eq_iff less_Suc_eq numeral_3_eq_3)
  have x: "x = s\<lparr>schdPara := enabled_para f ?fresh s\<rparr>"
    by (simp add: x_def MPD_SCHD_setFlowValid_def upd_para_def t enabled_para_def fun_eq_iff f)
  have "MPD_DoSubFlowStateInd env deviceId MP_ENABLE s = Inr (x\<lparr>activeFlowNum := active_count x\<rparr>)"
    unfolding MPD_DoSubFlowStateInd_def Let_def assms
    using f by (simp add: t_def x_def MPD_SCHD_getFlowValid_def)
  moreover have "valid_flows x = insert f (valid_flows s)"
    using f by (auto simp: valid_flows_def x enabled_para_def Let_def)
  moreover have "valid_flows (y\<lparr>activeFlowNum := n\<rparr>) = valid_flows y" for y n by (simp add: valid_flows_def)
  ultimately show ?thesis
    by (intro exI[of _ "x\<lparr>activeFlowNum := active_count x\<rparr>"]) (simp add: active_count_card x)
qed

text \<open>
  A device that is enabled becomes valid; if it was not, the weights and the delay estimates of all
  subflows start anew. No window changes, and the number of active subflows is the number of valid
  ones.
\<close>

theorem SubFlowStateInd_enable:
  assumes "MPD_GetSubFlowId deviceId = int f"
  shows "\<exists>s'. MPD_DoSubFlowStateInd env deviceId MP_ENABLE s = Inr s' \<and>
     schdPara s' = enabled_para f (isValid (schdPara s f) \<noteq> 1) s \<and> valid_flows s' = insert f (valid_flows s) \<and>
     activeFlowNum s' = of_nat (card (valid_flows s')) \<and> txWindow s' = txWindow s \<and> RxSubWin s' = RxSubWin s \<and>
     RxDataWin s' = RxDataWin s \<and> mem s' = mem s \<and> trace s' = trace s"
  using assms by (rule subflow_enabled)

section \<open>Disabling\<close>

text \<open>A buffered packet of a subflow that goes.\<close>

definition orphan :: "nat \<Rightarrow> stRxDataWinNode \<Rightarrow> stRxDataWinNode" where
  "orphan f n = (if dw_status n \<noteq> UnReceived \<and> stream n = f then n\<lparr>stream := NUM_SUBFLOW\<rparr> else n)"

definition orphan_from :: "nat \<Rightarrow> nat \<Rightarrow> stRxDataWin \<Rightarrow> stRxDataWin" where
  "orphan_from f i w = w\<lparr>dw_Win := (\<lambda>j. if j < RxDataWinMaxSize \<and>
      rdist RxDataWinMaxSize i j < rdist RxDataWinMaxSize i (dw_RxNext w) then orphan f (dw_Win w j) else dw_Win w j)\<rparr>"

lemma orphan_step:
  assumes "i < RxDataWinMaxSize" and "dw_RxNext w < RxDataWinMaxSize" and "i \<noteq> dw_RxNext w"
  shows "orphan_from f (rsucc RxDataWinMaxSize i) (upd_dwn i (orphan f) w) = orphan_from f i w"
proof -
  let ?N = RxDataWinMaxSize
  have n: "rdist ?N (rsucc ?N i) (dw_RxNext w) = rdist ?N i (dw_RxNext w) - 1" "0 < rdist ?N i (dw_RxNext w)"
    using rdist_rsucc_left[OF assms] rdist_0[of i ?N "dw_RxNext w"] assms by auto
  have "rdist ?N (rsucc ?N i) j < rdist ?N i (dw_RxNext w) - 1 \<longleftrightarrow> rdist ?N i j < rdist ?N i (dw_RxNext w)"
    if "j < ?N" "j \<noteq> i" for j
  proof -
    have "rdist ?N (rsucc ?N i) j = rdist ?N i j - 1" using rdist_rsucc_left[of i ?N j] assms(1) that by simp
    moreover have "0 < rdist ?N i j" using rdist_0[of i ?N j] assms(1) that by auto
    ultimately show ?thesis using n(2) by linarith
  qed
  moreover have "\<not> rdist ?N (rsucc ?N i) i < rdist ?N i (dw_RxNext w) - 1"
  proof -
    have "rdist ?N (rsucc ?N i) i = ?N - 1"
      using assms(1) by (simp add: rdist_alt rsucc_alt)
    moreover have "rdist ?N i (dw_RxNext w) < ?N" by (rule rdist_less) simp
    ultimately show ?thesis by linarith
  qed
  moreover have "rdist ?N i i < rdist ?N i (dw_RxNext w)" using n(2) by simp
  ultimately have "(if j < ?N \<and> rdist ?N (rsucc ?N i) j < rdist ?N (rsucc ?N i) (dw_RxNext w)
        then orphan f (((dw_Win w)(i := orphan f (dw_Win w i))) j) else ((dw_Win w)(i := orphan f (dw_Win w i))) j) =
      (if j < ?N \<and> rdist ?N i j < rdist ?N i (dw_RxNext w) then orphan f (dw_Win w j) else dw_Win w j)" for j
    using assms(1) by (cases "j = i") (auto simp: n)
  then show ?thesis by (simp add: orphan_from_def upd_dwn_def del: fun_upd_apply cong: if_cong)
qed

lemma changeFlowId_ok:
  assumes "i < RxDataWinMaxSize" and "dw_RxNext w < RxDataWinMaxSize"
    and "rdist RxDataWinMaxSize i (dw_RxNext w) \<le> fuel"
  shows "changeFlowId_loop fuel f i w = Inr (orphan_from f i w)"
  using assms
proof (induction fuel arbitrary: i w)
  case 0
  then have "i = dw_RxNext w" using rdist_0 by simp
  then show ?case by (simp add: changeFlowId_loop.simps orphan_from_def)
next
  case (Suc fuel)
  show ?case
  proof (cases "i = dw_RxNext w")
    case True
    then show ?thesis by (simp add: changeFlowId_loop.simps orphan_from_def)
  next
    case False
    have u: "(if dw_status (dw_Win w i) \<noteq> UnReceived \<and> stream (dw_Win w i) = f
              then upd_dwn i (\<lambda>n. n\<lparr>stream := NUM_SUBFLOW\<rparr>) w else w) = upd_dwn i (orphan f) w"
      by (simp add: upd_dwn_def orphan_def fun_upd_idem)
    have p: "DataWinPlus i = rsucc RxDataWinMaxSize i" by (simp add: DataWinPlus_def rsucc_def)
    have "changeFlowId_loop fuel f (rsucc RxDataWinMaxSize i) (upd_dwn i (orphan f) w) =
        Inr (orphan_from f (rsucc RxDataWinMaxSize i) (upd_dwn i (orphan f) w))"
      using Suc.prems rdist_rsucc_left[OF Suc.prems(1,2) False] by (intro Suc.IH) (simp_all add: rsucc_less upd_dwn_def)
    then show ?thesis
      using False orphan_step[OF Suc.prems(1,2) False]
      by (subst changeFlowId_loop.simps) (simp add: u p)
  qed
qed

lemma any_valid_0: "any_valid s = 0 \<longleftrightarrow> valid_flows s = {}"
proof -
  have 1: "any_valid s = isValid (schdPara s 0) OR isValid (schdPara s 1) OR isValid (schdPara s 2)"
    by (simp add: any_valid_def upt_rec MPD_SCHD_getFlowValid_def numeral_2_eq_2 or.assoc)
  have three: "i < NUM_SUBFLOW \<longleftrightarrow> i = 0 \<or> i = 1 \<or> i = 2" for i by auto
  have 2: "valid_flows s = {} \<longleftrightarrow> isValid (schdPara s 0) = 0 \<and> isValid (schdPara s 1) = 0 \<and> isValid (schdPara s 2) = 0"
    unfolding valid_flows_def three by blast
  show ?thesis unfolding 1 2 by (simp add: or_eq_0_iff)
qed

text \<open>
  A device that is disabled while another one is valid loses its windows and exactly the buffers
  that wait there for an acknowledgement; its packets in the data window stay, under the number of no
  subflow, so that they are still delivered in order.
\<close>

theorem SubFlowStateInd_disable:
  assumes "MPD_GetSubFlowId deviceId = int f" and "state \<noteq> MP_ENABLE"
    and "tx_owned f s" and "valid_flows s - {f} \<noteq> {}"
    and "dw_RxBegin (RxDataWin s) < RxDataWinMaxSize" and "dw_RxNext (RxDataWin s) < RxDataWinMaxSize"
  shows "\<exists>s'. MPD_DoSubFlowStateInd env deviceId state s = Inr s' \<and> valid_flows s' = valid_flows s - {f} \<and>
     activeFlowNum s' = of_nat (card (valid_flows s')) \<and> txWindow s' = (txWindow s)(f := txwin_zero) \<and>
     RxSubWin s' = (RxSubWin s)(f := subwin_zero) \<and> mem s' = mem s |` (- set (tx_bufs (txWindow s f))) \<and>
     RxDataWin s' = orphan_from f (dw_RxBegin (RxDataWin s)) (RxDataWin s)"
proof -
  have f: "f < NUM_SUBFLOW" "deviceId \<noteq> 0" using SubFlowId_less[OF assms(1)] by simp_all
  define x where "x = MPD_SCHD_setFlowValid f (ucast (0::U8)) s"
  have x: "txWindow x = txWindow s" "mem x = mem s" "RxSubWin x = RxSubWin s" "RxDataWin x = RxDataWin s"
    "valid_flows x = valid_flows s - {f}"
    by (auto simp: x_def MPD_SCHD_setFlowValid_def upd_para_def valid_flows_def)
  obtain y where y: "MPD_clearTxWin f x = Inr y" "tx_frame x ((txWindow x)(f := txwin_zero)) (tx_bufs (txWindow s f)) y"
    using clearTxWin_ok[of x f] assms(3) x by (auto simp: tx_owned_def)
  note fr = tx_frameD[OF y(2)]
  define z where "z = upd_dw (\<lambda>_. orphan_from f (dw_RxBegin (RxDataWin s)) (RxDataWin s)) (MPD_ClearSubWin f y)"
  have c: "MPD_ChangeDataWinFlowId f (MPD_ClearSubWin f y) = Inr z"
    using changeFlowId_ok[OF assms(5,6), of RxDataWinMaxSize f] rdist_less[of RxDataWinMaxSize]
    by (simp add: MPD_ChangeDataWinFlowId_def MPD_ClearSubWin_def upd_sub_def fr x z_def less_imp_le)
  have vz: "valid_flows z = valid_flows s - {f}"
    using fr(3) x(5) by (simp add: z_def upd_dw_def MPD_ClearSubWin_def upd_sub_def valid_flows_def)
  then have av: "any_valid z \<noteq> 0" using assms(4) by (simp add: any_valid_0)
  obtain v where v: "shut_down env f (isValid (schdPara s f) \<noteq> 0) (any_valid s) x = Inr v"
    "v = z \<or> (\<exists>a. v = z\<lparr>lastPackageTime := a, totalToAckNum := 0\<rparr>)"
    unfolding shut_down_def y(1) bindR.simps c using av
    by (cases "isValid (schdPara s f) = 0"; cases "any_valid s = 0") auto
  have vs: "txWindow v = txWindow z" "RxSubWin v = RxSubWin z" "mem v = mem z" "RxDataWin v = RxDataWin z"
    "valid_flows v = valid_flows z"
    using v(2) by (auto simp: valid_flows_def)
  have "MPD_DoSubFlowStateInd env deviceId state s = Inr (v\<lparr>activeFlowNum := active_count v\<rparr>)"
    unfolding MPD_DoSubFlowStateInd_def Let_def assms(1)
    using f assms(2) v(1) by (simp add: x_def MPD_SCHD_getFlowValid_def)
  moreover have "valid_flows (y\<lparr>activeFlowNum := n\<rparr>) = valid_flows y" for y n by (simp add: valid_flows_def)
  ultimately show ?thesis
    by (intro exI[of _ "v\<lparr>activeFlowNum := active_count v\<rparr>"])
      (simp add: active_count_card vs vz, simp add: z_def upd_dw_def MPD_ClearSubWin_def upd_sub_def fr x)
qed

section \<open>Instances\<close>

text \<open>A session with two valid subflows.\<close>

definition two_flows :: mpd_st where
  "two_flows = st_zero\<lparr>schdPara := (\<lambda>i. if i < 2 then para_zero\<lparr>isValid := 1\<rparr> else para_zero)\<rparr>"

lemma two_flows_simps:
  "valid_flows two_flows = {0, 1}" "txWindow two_flows = (\<lambda>_. txwin_zero)" "RxDataWin two_flows = datawin_zero"
  by (auto simp: valid_flows_def two_flows_def para_zero_def st_zero_def user_zero_def stUserInfo.defs mpd_st.defs)

theorem device_subflow_inverse_witness:
  "MPD_GetSubFlowId (word_of_int (MPD_GetDeviceId 2)) = 2 \<and> MPD_GetDeviceId (nat (MPD_GetSubFlowId 4)) = 4"
proof -
  have "MPD_GetSubFlowId 4 \<noteq> - 1" by (simp add: GetSubFlowId_cases)
  then show ?thesis using device_subflow_inverse by fastforce
qed

theorem GetRTT_answers_witness:
  "MPD_GetRTT 3 (sys_zero\<lparr>g_pUserInfo := [0 \<mapsto> user_zero]\<rparr>) = Inl OutOfBounds"
  using GetRTT_answers[of "sys_zero\<lparr>g_pUserInfo := [0 \<mapsto> user_zero]\<rparr>" "Some user_zero" 3]
  by (simp add: ut_user_def sys_zero_def)

theorem SubFlowStateInd_enable_witness:
  "\<exists>s'. MPD_DoSubFlowStateInd env_ok 4 MP_ENABLE two_flows = Inr s' \<and> valid_flows s' = {0, 1, 2}"
proof -
  have "MPD_GetSubFlowId 4 = int 2" by (simp add: GetSubFlowId_cases)
  from SubFlowStateInd_enable[OF this, of env_ok two_flows]
  show ?thesis by (auto simp: two_flows_simps insert_commute)
qed

theorem SubFlowStateInd_disable_witness:
  "\<exists>s'. MPD_DoSubFlowStateInd env_ok 1 MP_DISABLE two_flows = Inr s' \<and> valid_flows s' = {1} \<and> activeFlowNum s' = 1"
proof -
  have "MPD_GetSubFlowId 1 = int 0" "MP_DISABLE \<noteq> MP_ENABLE" by (simp_all add: GetSubFlowId_cases)
  moreover have "tx_owned 0 two_flows" by (simp add: tx_owned_def two_flows_simps wf_tx_zero tx_queue_zero tx_bufs_def)
  moreover have "valid_flows two_flows - {0} = {1}" by (auto simp: two_flows_simps)
  ultimately show ?thesis
    using SubFlowStateInd_disable[of 1 0 MP_DISABLE two_flows env_ok] by (auto simp: two_flows_simps datawin_zero_def)
qed

end
