(* ===== verification/RATD_Queue.thy ===== *)
theory RATD_Queue
  imports MPD_Prelude
begin

text \<open>
  The send queues of the multi-path daemon (\<^verbatim>\<open>ratd/queue.c\<close>, \<^verbatim>\<open>ratd/mp_data.c\<close>): a ring of elements
  that refuses a new element when it is full. The operations run under the semaphore of the queue,
  so each is one step here. \<open>live\<close> is the set of buffers not yet freed; \<open>pBase\<close> is \<open>None\<close> after
  the queue has been destroyed.
\<close>

section \<open>State\<close>

type_synonym qbuf = nat

record ElemType =
  fdIndex :: int
  bufferAddr :: qbuf
  elem_len :: int
  release :: bool
  justNotSend :: bool

record QUEUE =
  pBase :: "ElemType list option"
  front :: nat
  rear :: nat
  maxsize :: nat

definition elem_zero :: ElemType where
  "elem_zero = \<lparr>fdIndex = 0, bufferAddr = 0, elem_len = 0, release = False, justNotSend = False\<rparr>"

section \<open>Operations\<close>

definition CreateQueue :: "nat \<Rightarrow> QUEUE" where
  "CreateQueue n = \<lparr>pBase = Some (replicate n elem_zero), front = 0, rear = 0, maxsize = n\<rparr>"

definition FullQueue :: "QUEUE \<Rightarrow> bool" where
  "FullQueue Q \<longleftrightarrow> front Q = (rear Q + 1) mod maxsize Q"

definition EmptyQueue :: "QUEUE \<Rightarrow> bool" where
  "EmptyQueue Q \<longleftrightarrow> front Q = rear Q"

text \<open>\<open>up\<close> is \<^verbatim>\<open>g_netStatus[fdIndex]\<close>.\<close>

definition Enqueue :: "bool \<Rightarrow> ElemType \<Rightarrow> QUEUE \<Rightarrow> bool \<times> QUEUE" where
  "Enqueue up val Q =
     (case pBase Q of
        None \<Rightarrow> (False, Q)
      | Some b \<Rightarrow>
          if FullQueue Q \<or> \<not> up then (False, Q)
          else (True, Q\<lparr>pBase := Some (b[rear Q := val\<lparr>justNotSend := False\<rparr>]),
                        rear := (rear Q + 1) mod maxsize Q\<rparr>))"

definition Dequeue :: "QUEUE \<Rightarrow> ElemType option \<times> QUEUE" where
  "Dequeue Q =
     (case pBase Q of
        None \<Rightarrow> (None, Q)
      | Some b \<Rightarrow>
          if EmptyQueue Q then (None, Q)
          else (Some (b ! front Q), Q\<lparr>front := (front Q + 1) mod maxsize Q\<rparr>))"

text \<open>
  The three functions that walk the queue index the array with \<open>i\<close>, not with \<open>i\<close> modulo the
  size: past the last element the access is out of bounds. They stop when \<open>i\<close> modulo the size is
  \<open>rear\<close>, at most one turn after \<open>front\<close>.
\<close>

fun resetFlag_loop :: "nat \<Rightarrow> nat \<Rightarrow> qbuf \<Rightarrow> bool \<Rightarrow> ElemType list \<Rightarrow> QUEUE \<Rightarrow> (bool \<times> QUEUE) res" where
  "resetFlag_loop fuel i buffer rel b Q =
     (if i mod maxsize Q = rear Q then Inr (False, Q)
      else if fuel = 0 then Inl OutOfFuel
      else if length b \<le> i then Inl OutOfBounds
      else if bufferAddr (b ! i) = buffer
      then Inr (True, Q\<lparr>pBase := Some (b[i := (b ! i)\<lparr>release := rel\<rparr>])\<rparr>)
      else resetFlag_loop (fuel - 1) (i + 1) buffer rel b Q)"

declare resetFlag_loop.simps [simp del]

definition ResetElemFlagInQueue :: "qbuf \<Rightarrow> bool \<Rightarrow> QUEUE \<Rightarrow> (bool \<times> QUEUE) res" where
  "ResetElemFlagInQueue buffer rel Q =
     (case pBase Q of None \<Rightarrow> Inr (False, Q)
      | Some b \<Rightarrow> resetFlag_loop (maxsize Q) (front Q) buffer rel b Q)"

text \<open>Every element that holds the buffer is marked; then the buffer is freed once.\<close>

fun markNotSend_loop :: "nat \<Rightarrow> nat \<Rightarrow> qbuf \<Rightarrow> bool \<Rightarrow> ElemType list \<Rightarrow> QUEUE \<Rightarrow> (bool \<times> ElemType list) res" where
  "markNotSend_loop fuel i buffer finded b Q =
     (if i mod maxsize Q = rear Q then Inr (finded, b)
      else if fuel = 0 then Inl OutOfFuel
      else if length b \<le> i then Inl OutOfBounds
      else if bufferAddr (b ! i) = buffer \<and> \<not> justNotSend (b ! i)
      then markNotSend_loop (fuel - 1) (i + 1) buffer True (b[i := (b ! i)\<lparr>justNotSend := True\<rparr>]) Q
      else markNotSend_loop (fuel - 1) (i + 1) buffer finded b Q)"

declare markNotSend_loop.simps [simp del]

definition qfree :: "qbuf \<Rightarrow> qbuf set \<Rightarrow> qbuf set res" where
  "qfree a live = (if a = 0 then Inr live else if a \<in> live then Inr (live - {a}) else Inl BadFree)"

definition DequeFreeReTransBuffer :: "qbuf \<Rightarrow> QUEUE \<times> qbuf set \<Rightarrow> (QUEUE \<times> qbuf set) res" where
  "DequeFreeReTransBuffer buffer = (\<lambda>(Q, live).
     case pBase Q of None \<Rightarrow> Inr (Q, live)
     | Some b \<Rightarrow>
         if buffer = 0 then Inr (Q, live)
         else bindR (markNotSend_loop (maxsize Q) (front Q) buffer False b Q) (\<lambda>(finded, b).
                bindR (if finded then qfree buffer live else Inr live) (\<lambda>live.
                  Inr (Q\<lparr>pBase := Some b\<rparr>, live))))"

fun releaseBuffs_loop :: "nat \<Rightarrow> nat \<Rightarrow> ElemType list \<Rightarrow> QUEUE \<Rightarrow> qbuf set \<Rightarrow> qbuf set res" where
  "releaseBuffs_loop fuel i b Q live =
     (if i mod maxsize Q = rear Q then Inr live
      else if fuel = 0 then Inl OutOfFuel
      else if length b \<le> i then Inl OutOfBounds
      else bindR (if release (b ! i) then qfree (bufferAddr (b ! i)) live else Inr live)
             (releaseBuffs_loop (fuel - 1) (i + 1) b Q))"

declare releaseBuffs_loop.simps [simp del]

definition ReleaseQueueBuffs :: "QUEUE \<times> qbuf set \<Rightarrow> (QUEUE \<times> qbuf set) res" where
  "ReleaseQueueBuffs = (\<lambda>(Q, live).
     bindR (case pBase Q of None \<Rightarrow> Inr live | Some b \<Rightarrow> releaseBuffs_loop (maxsize Q) (front Q) b Q live)
       (\<lambda>live. Inr (Q\<lparr>pBase := None\<rparr>, live)))"

section \<open>The callers in mp\_data.c\<close>

text \<open>\<^verbatim>\<open>MPC_putMsgToSendQueue\<close>: a buffer that cannot be queued is freed when it is the queue's to release,
  unless the queue already holds it.\<close>

definition MPC_putMsgToSendQueue :: "bool \<Rightarrow> int \<Rightarrow> qbuf \<Rightarrow> int \<Rightarrow> bool \<Rightarrow> QUEUE \<times> qbuf set
    \<Rightarrow> (int \<times> QUEUE \<times> qbuf set) res" where
  "MPC_putMsgToSendQueue up fd buffer n rel = (\<lambda>(Q, live).
     case Enqueue up \<lparr>fdIndex = fd, bufferAddr = buffer, elem_len = n, release = rel, justNotSend = False\<rparr> Q of
       (True, Q) \<Rightarrow> Inr (0, Q, live)
     | (False, Q) \<Rightarrow>
         if rel
         then bindR (ResetElemFlagInQueue buffer rel Q) (\<lambda>(found, Q).
                bindR (if found then Inr live else qfree buffer live) (\<lambda>live. Inr (-1, Q, live)))
         else Inr (-1, Q, live))"

text \<open>The queue of a network type is half its number: 1, 2 and 4 give 0, 1 and 2.\<close>

definition send_queue_of :: "int \<Rightarrow> int" where
  "send_queue_of netType = netType div 2"

definition Free_ResendBuf :: "qbuf \<Rightarrow> int \<Rightarrow> (int \<Rightarrow> QUEUE) \<times> qbuf set \<Rightarrow> ((int \<Rightarrow> QUEUE) \<times> qbuf set) res" where
  "Free_ResendBuf buffer subFlowFlag = (\<lambda>(Qs, live).
     if subFlowFlag < 0 then Inl OutOfBounds
     else if subFlowFlag < 3
     then bindR (DequeFreeReTransBuffer buffer (Qs subFlowFlag, live)) (\<lambda>(Q, live). Inr (Qs(subFlowFlag := Q), live))
     else Inr (Qs, live))"

section \<open>A bounded first-in first-out queue\<close>

text \<open>
  The interface a client of the queue relies on: what each operation does to the contents. \<open>up\<close>
  says whether the network of the queue is up, \<open>stored\<close> what the queue keeps of an element.
\<close>

locale bounded_fifo =
  fixes inv :: "'q \<Rightarrow> bool" and contents :: "'q \<Rightarrow> 'e list" and cap :: nat
    and stored :: "'e \<Rightarrow> 'e"
    and enq :: "bool \<Rightarrow> 'e \<Rightarrow> 'q \<Rightarrow> bool \<times> 'q" and deq :: "'q \<Rightarrow> 'e option \<times> 'q"
  assumes enq_room: "inv q \<Longrightarrow> up \<Longrightarrow> length (contents q) < cap \<Longrightarrow>
      \<exists>q'. enq up x q = (True, q') \<and> inv q' \<and> contents q' = contents q @ [stored x]"
    and enq_refuse: "inv q \<Longrightarrow> \<not> up \<or> length (contents q) = cap \<Longrightarrow> enq up x q = (False, q)"
    and deq_some: "inv q \<Longrightarrow> contents q = x # xs \<Longrightarrow> \<exists>q'. deq q = (Some x, q') \<and> inv q' \<and> contents q' = xs"
    and deq_none: "inv q \<Longrightarrow> contents q = [] \<Longrightarrow> deq q = (None, q)"
    and bound: "inv q \<Longrightarrow> length (contents q) \<le> cap"
begin

text \<open>A client's history: \<open>Some (up, x)\<close> enqueues, \<open>None\<close> dequeues. (accepted, delivered, queue).\<close>

fun step :: "(bool \<times> 'e) option \<Rightarrow> 'e list \<times> 'e list \<times> 'q \<Rightarrow> 'e list \<times> 'e list \<times> 'q" where
  "step (Some (up, x)) (ins, outs, q) =
     (case enq up x q of (True, q) \<Rightarrow> (ins @ [stored x], outs, q) | (False, q) \<Rightarrow> (ins, outs, q))"
| "step None (ins, outs, q) =
     (case deq q of (Some x, q) \<Rightarrow> (ins, outs @ [x], q) | (None, q) \<Rightarrow> (ins, outs, q))"

lemma step_inv:
  assumes "inv q" and "step e (ins, outs, q) = (ins', outs', q')" and "cs @ ins = outs @ contents q"
  shows "inv q' \<and> cs @ ins' = outs' @ contents q'"
proof (cases e)
  case None
  then show ?thesis
    using assms deq_none[of q] deq_some[of q] by (cases "contents q") auto
next
  case (Some a)
  obtain up x where a: "a = (up, x)" by (cases a)
  show ?thesis
  proof (cases "up \<and> length (contents q) < cap")
    case True
    with Some a assms enq_room[of q up x] show ?thesis by auto
  next
    case False
    with bound[OF assms(1)] have "\<not> up \<or> length (contents q) = cap" by auto
    with Some a assms enq_refuse[of q up x] show ?thesis by auto
  qed
qed

lemma fifo:
  assumes "inv q" and "fold step es (ins, outs, q) = (ins', outs', q')" and "cs @ ins = outs @ contents q"
  shows "inv q' \<and> cs @ ins' = outs' @ contents q'"
  using assms
proof (induction es arbitrary: ins outs q)
  case (Cons e es)
  obtain i o' r where s: "step e (ins, outs, q) = (i, o', r)" by (metis prod_cases3)
  from step_inv[OF Cons.prems(1) s Cons.prems(3)] Cons.prems(2) s Cons.IH[of r i o'] show ?case by simp
qed simp

end

text \<open>The ring as a list, and its invariant.\<close>

definition q_len :: "QUEUE \<Rightarrow> nat" where
  "q_len Q = rdist (maxsize Q) (front Q) (rear Q)"

definition q_idx :: "QUEUE \<Rightarrow> nat \<Rightarrow> nat" where
  "q_idx Q k = (front Q + k) mod maxsize Q"

definition q_contents :: "QUEUE \<Rightarrow> ElemType list" where
  "q_contents Q = (case pBase Q of None \<Rightarrow> [] | Some b \<Rightarrow> map (\<lambda>k. b ! q_idx Q k) [0..<q_len Q])"

definition q_inv :: "nat \<Rightarrow> QUEUE \<Rightarrow> bool" where
  "q_inv n Q \<longleftrightarrow> 0 < n \<and> maxsize Q = n \<and> front Q < n \<and> rear Q < n \<and> (\<exists>b. pBase Q = Some b \<and> length b = n)"

lemma q_len_le: "q_inv n Q \<Longrightarrow> q_len Q \<le> n - 1"
  using rdist_less[of n "front Q" "rear Q"] by (auto simp: q_inv_def q_len_def)

lemma q_full_iff: "q_inv n Q \<Longrightarrow> FullQueue Q \<longleftrightarrow> q_len Q = n - 1"
  using rdist_full_iff[of "front Q" n "rear Q"] by (auto simp: q_inv_def q_len_def FullQueue_def rsucc_def)

lemma q_empty_iff: "q_inv n Q \<Longrightarrow> EmptyQueue Q \<longleftrightarrow> q_len Q = 0"
  using rdist_0[of "front Q" n "rear Q"] by (auto simp: q_inv_def q_len_def EmptyQueue_def)

lemma q_idx_inj:
  "q_inv n Q \<Longrightarrow> k < n \<Longrightarrow> l < n \<Longrightarrow> q_idx Q k = q_idx Q l \<longleftrightarrow> k = l"
  using add_mod_inj[of "front Q" n k l] by (simp add: q_inv_def q_idx_def)

lemma q_idx_less: "q_inv n Q \<Longrightarrow> q_idx Q k < n"
  by (auto simp: q_inv_def q_idx_def)

lemma q_idx_len: "q_inv n Q \<Longrightarrow> q_idx Q (q_len Q) = rear Q"
  using add_rdist[of "front Q" n "rear Q"] by (auto simp: q_inv_def q_idx_def q_len_def)

lemma length_q_contents: "q_inv n Q \<Longrightarrow> length (q_contents Q) = q_len Q"
  by (auto simp: q_inv_def q_contents_def)

lemma Enqueue_room:
  assumes inv: "q_inv n Q" and room: "q_len Q < n - 1"
  shows "\<exists>Q'. Enqueue True x Q = (True, Q') \<and> q_inv n Q' \<and> q_contents Q' = q_contents Q @ [x\<lparr>justNotSend := False\<rparr>]"
proof -
  let ?x = "x\<lparr>justNotSend := False\<rparr>"
  obtain b where b: "pBase Q = Some b" "length b = n" using inv by (auto simp: q_inv_def)
  let ?Q = "Q\<lparr>pBase := Some (b[rear Q := ?x]), rear := (rear Q + 1) mod maxsize Q\<rparr>"
  have nf: "\<not> FullQueue Q" using q_full_iff[OF inv] room by simp
  have "Enqueue True x Q = (True, ?Q)" using b(1) nf by (simp add: Enqueue_def)
  moreover have inv': "q_inv n ?Q" using inv b(2) by (auto simp: q_inv_def)
  moreover have len: "q_len ?Q = Suc (q_len Q)"
    using rdist_rsucc_right[of "front Q" n "rear Q"] nf inv
    by (auto simp: q_len_def q_inv_def FullQueue_def rsucc_def)
  moreover have idx: "q_idx ?Q k = q_idx Q k" for k by (simp add: q_idx_def)
  moreover have old: "b[rear Q := ?x] ! q_idx Q k = b ! q_idx Q k" if "k < q_len Q" for k
  proof -
    have "q_idx Q k \<noteq> rear Q"
      using q_idx_inj[OF inv, of k "q_len Q"] that room by (simp add: q_idx_len[OF inv])
    then show ?thesis by simp
  qed
  moreover have new: "b[rear Q := ?x] ! q_idx Q (q_len Q) = ?x"
    using inv b(2) by (simp add: q_idx_len[OF inv]) (simp add: q_inv_def)
  ultimately have "q_contents ?Q = q_contents Q @ [?x]"
    using b(1) by (simp add: q_contents_def)
  with \<open>Enqueue True x Q = (True, ?Q)\<close> inv' show ?thesis by blast
qed

lemma Enqueue_refuse: "q_inv n Q \<Longrightarrow> \<not> up \<or> q_len Q = n - 1 \<Longrightarrow> Enqueue up x Q = (False, Q)"
  using q_full_iff[of n Q] by (auto simp: Enqueue_def q_inv_def)

lemma Dequeue_some:
  assumes inv: "q_inv n Q" and c: "q_contents Q = x # xs"
  shows "\<exists>R. Dequeue Q = (Some x, R) \<and> q_inv n R \<and> q_contents R = xs"
proof -
  obtain b where b: "pBase Q = Some b" "length b = n" using inv by (auto simp: q_inv_def)
  define Q' where "Q' = Q\<lparr>front := (front Q + 1) mod maxsize Q\<rparr>"
  have ne: "q_len Q \<noteq> 0" using c length_q_contents[OF inv] by auto
  have idx0: "q_idx Q 0 = front Q" using inv by (simp add: q_idx_def q_inv_def)
  have map: "map (\<lambda>k. b ! q_idx Q k) [0..<q_len Q] = x # xs" using c b(1) by (simp add: q_contents_def)
  have "[0..<q_len Q] = 0 # map Suc [0..<q_len Q - 1]"
    using ne by (cases "q_len Q") (simp_all add: map_Suc_upt upt_conv_Cons)
  with map idx0 have x: "b ! front Q = x" and xs: "map (\<lambda>k. b ! q_idx Q (Suc k)) [0..<q_len Q - 1] = xs"
    by (simp_all add: comp_def)
  have len: "q_len Q' = q_len Q - 1"
    using rdist_rsucc_left[of "front Q" n "rear Q"] inv q_empty_iff[OF inv] ne
    by (auto simp: Q'_def q_len_def q_inv_def EmptyQueue_def rsucc_def)
  have idx: "q_idx Q' k = q_idx Q (Suc k)" for k
    by (simp add: Q'_def q_idx_def mod_simps)
  have "Dequeue Q = (Some x, Q')" using b(1) ne x q_empty_iff[OF inv] by (simp add: Q'_def Dequeue_def)
  moreover have "q_inv n Q'" using inv by (auto simp: Q'_def q_inv_def)
  moreover have "pBase Q' = Some b" using b(1) by (simp add: Q'_def)
  then have "q_contents Q' = xs" using xs by (simp add: q_contents_def len idx)
  ultimately show ?thesis by blast
qed

lemma Dequeue_none: "q_inv n Q \<Longrightarrow> q_contents Q = [] \<Longrightarrow> Dequeue Q = (None, Q)"
  using q_empty_iff[of n Q] length_q_contents[of n Q] by (auto simp: Dequeue_def q_inv_def)

interpretation sendq: bounded_fifo "q_inv (Suc c)" q_contents c "\<lambda>x. x\<lparr>justNotSend := False\<rparr>" Enqueue Dequeue
  for c
proof unfold_locales
  fix Q :: QUEUE and up x
  assume inv: "q_inv (Suc c) Q"
  show "up \<Longrightarrow> length (q_contents Q) < c \<Longrightarrow> \<exists>Q'. Enqueue up x Q = (True, Q') \<and> q_inv (Suc c) Q' \<and>
      q_contents Q' = q_contents Q @ [x\<lparr>justNotSend := False\<rparr>]"
    using Enqueue_room[OF inv] length_q_contents[OF inv] by simp
  show "\<not> up \<or> length (q_contents Q) = c \<Longrightarrow> Enqueue up x Q = (False, Q)"
    using Enqueue_refuse[OF inv] length_q_contents[OF inv] by simp
  show "length (q_contents Q) \<le> c"
    using q_len_le[OF inv] length_q_contents[OF inv] by simp
qed (simp_all add: Dequeue_some Dequeue_none)

section \<open>Properties\<close>

text \<open>
  A history of a queue: \<open>Some (up, x)\<close> is an attempt to enqueue \<open>x\<close> with the network up or down,
  \<open>None\<close> a dequeue. The step collects the accepted elements and those delivered.
\<close>

fun q_step :: "(bool \<times> ElemType) option \<Rightarrow> ElemType list \<times> ElemType list \<times> QUEUE
    \<Rightarrow> ElemType list \<times> ElemType list \<times> QUEUE" where
  "q_step (Some (up, x)) (ins, outs, Q) =
     (case Enqueue up x Q of
        (True, Q) \<Rightarrow> (ins @ [x\<lparr>justNotSend := False\<rparr>], outs, Q)
      | (False, Q) \<Rightarrow> (ins, outs, Q))"
| "q_step None (ins, outs, Q) =
     (case Dequeue Q of (Some x, Q) \<Rightarrow> (ins, outs @ [x], Q) | (None, Q) \<Rightarrow> (ins, outs, Q))"

lemma q_step_eq: "q_step = sendq.step"
proof (intro ext)
  fix e a show "q_step e a = sendq.step e a"
    by (cases e; cases a) (auto split: prod.splits bool.splits option.splits)
qed

lemma q_inv_Create: "q_inv (Suc c) (CreateQueue (Suc c))"
  by (simp add: q_inv_def CreateQueue_def)

lemma q_contents_Create: "q_contents (CreateQueue n) = []"
  by (simp add: q_contents_def CreateQueue_def q_len_def)

text \<open>
  C33: over any history of a new queue of \<open>c + 1\<close> slots, what was accepted is what was delivered
  followed by what the queue still holds, in the same order; the queue never holds more than \<open>c\<close>.
\<close>

theorem queue_history:
  "case fold q_step es ([], [], CreateQueue (Suc c)) of
     (ins, outs, Q) \<Rightarrow> ins = outs @ q_contents Q \<and> length (q_contents Q) \<le> c"
proof -
  obtain ins outs Q where r: "fold q_step es ([], [], CreateQueue (Suc c)) = (ins, outs, Q)"
    by (metis prod_cases3)
  then have "q_inv (Suc c) Q \<and> [] @ ins = outs @ q_contents Q"
    using sendq.fifo[where c = c and q = "CreateQueue (Suc c)" and es = es and ins = "[]" and outs = "[]"
        and ins' = ins and outs' = outs and q' = Q and cs = "[]"] q_inv_Create
    by (simp add: q_step_eq q_contents_Create)
  then show ?thesis using sendq.bound[of c Q] r by simp
qed

subsection \<open>Walks over the queue\<close>

lemma resetFlag_unwrapped:
  assumes "maxsize Q = length b" and "rear Q < length b" and "i \<le> rear Q" and "rear Q - i \<le> fuel"
  shows "resetFlag_loop fuel i a rel b Q = Inr (case find (\<lambda>k. bufferAddr (b ! k) = a) [i..<rear Q] of
           None \<Rightarrow> (False, Q) | Some k \<Rightarrow> (True, Q\<lparr>pBase := Some (b[k := (b ! k)\<lparr>release := rel\<rparr>])\<rparr>))"
  using assms
proof (induction fuel arbitrary: i)
  case 0
  then show ?case by (subst resetFlag_loop.simps) simp
next
  case (Suc fuel)
  show ?case
  proof (cases "i = rear Q")
    case True
    then show ?thesis using Suc.prems by (subst resetFlag_loop.simps) simp
  next
    case False
    then have i: "i < rear Q" using Suc.prems by simp
    then have "i mod maxsize Q \<noteq> rear Q" "\<not> length b \<le> i" using Suc.prems by simp_all
    then show ?thesis
      using Suc.IH[of "i + 1"] Suc.prems i
      by (subst resetFlag_loop.simps) (simp add: upt_conv_Cons)
  qed
qed

lemma resetFlag_wrapped:
  assumes "maxsize Q = length b" and "rear Q < f" and "f \<le> i" and "i \<le> length b" and "length b - i < fuel"
    and "\<forall>k\<in>{f..<length b}. bufferAddr (b ! k) \<noteq> a" and "rear Q \<noteq> 0"
  shows "resetFlag_loop fuel i a rel b Q = Inl OutOfBounds"
  using assms
proof (induction fuel arbitrary: i)
  case (Suc fuel)
  show ?case
  proof (cases "i = length b")
    case True
    then show ?thesis using Suc.prems by (subst resetFlag_loop.simps) simp
  next
    case False
    then have "i mod maxsize Q \<noteq> rear Q" "\<not> length b \<le> i" "bufferAddr (b ! i) \<noteq> a" using Suc.prems by simp_all
    then show ?thesis
      using Suc.IH[of "i + 1"] Suc.prems False by (subst resetFlag_loop.simps) simp
  qed
qed simp

text \<open>The contents of a queue that does not wrap are a slice of the array.\<close>

lemma q_contents_slice:
  assumes "q_inv n Q" and "pBase Q = Some b" and "front Q \<le> rear Q"
  shows "q_contents Q = map (\<lambda>k. b ! k) [front Q..<rear Q]"
proof -
  have "q_len Q = rear Q - front Q" using assms by (auto simp: q_len_def q_inv_def rdist_alt)
  moreover have "q_idx Q k = front Q + k" if "k < rear Q - front Q" for k
    using assms that by (auto simp: q_idx_def q_inv_def)
  ultimately show ?thesis
    using assms by (intro nth_equalityI) (auto simp: q_contents_def)
qed

text \<open>
  While the queue does not wrap, \<^verbatim>\<open>ResetElemFlagInQueue\<close> reports whether the buffer is queued,
  and changes nothing when it is not.
\<close>

theorem ResetElemFlag_finds:
  assumes "q_inv n Q" and "front Q \<le> rear Q"
  shows "\<exists>Q'. ResetElemFlagInQueue a rel Q = Inr (a \<in> bufferAddr ` set (q_contents Q), Q') \<and>
     (a \<notin> bufferAddr ` set (q_contents Q) \<longrightarrow> Q' = Q) \<and>
     map bufferAddr (q_contents Q') = map bufferAddr (q_contents Q)"
proof -
  obtain b where b: "pBase Q = Some b" "length b = n" using assms(1) by (auto simp: q_inv_def)
  have l: "resetFlag_loop (maxsize Q) (front Q) a rel b Q =
      Inr (case find (\<lambda>k. bufferAddr (b ! k) = a) [front Q..<rear Q] of
           None \<Rightarrow> (False, Q) | Some k \<Rightarrow> (True, Q\<lparr>pBase := Some (b[k := (b ! k)\<lparr>release := rel\<rparr>])\<rparr>))"
    using assms b by (intro resetFlag_unwrapped) (auto simp: q_inv_def)
  note c = q_contents_slice[OF assms(1) b(1) assms(2)]
  show ?thesis
  proof (cases "find (\<lambda>k. bufferAddr (b ! k) = a) [front Q..<rear Q]")
    case None
    then have "a \<notin> bufferAddr ` set (q_contents Q)" by (auto simp: c find_None_iff)
    with None l b(1) show ?thesis by (auto simp: ResetElemFlagInQueue_def)
  next
    case (Some k)
    then have k: "bufferAddr (b ! k) = a" "k \<in> set [front Q..<rear Q]"
      by (auto simp: find_Some_iff)
    let ?Q = "Q\<lparr>pBase := Some (b[k := (b ! k)\<lparr>release := rel\<rparr>])\<rparr>"
    have "q_inv n ?Q" "pBase ?Q = Some (b[k := (b ! k)\<lparr>release := rel\<rparr>])" "front ?Q \<le> rear ?Q"
      using assms b by (auto simp: q_inv_def)
    from q_contents_slice[OF this] have "map bufferAddr (q_contents ?Q) = map bufferAddr (q_contents Q)"
      using assms b k(2) by (auto simp: c nth_list_update q_inv_def)
    moreover have "a \<in> bufferAddr ` set (q_contents Q)" using k by (auto simp: c)
    ultimately show ?thesis using l b(1) Some by (auto simp: ResetElemFlagInQueue_def)
  qed
qed

text \<open>
  Once the queue wraps, a search that fails before the end of the array runs past it: so does
  the search that \<^verbatim>\<open>MPC_putMsgToSendQueue\<close> makes for a new buffer it could not queue.
\<close>

theorem ResetElemFlag_overruns:
  assumes "q_inv n Q" and "rear Q < front Q" and "rear Q \<noteq> 0"
    and "a \<notin> bufferAddr ` set (drop (front Q) (the (pBase Q)))"
  shows "ResetElemFlagInQueue a rel Q = Inl OutOfBounds \<and>
     (\<not> up \<or> FullQueue Q \<longrightarrow> MPC_putMsgToSendQueue up fd a n' True (Q, live) = Inl OutOfBounds)"
proof -
  obtain b where b: "pBase Q = Some b" "length b = n" using assms(1) by (auto simp: q_inv_def)
  have "\<forall>k\<in>{front Q..<length b}. bufferAddr (b ! k) \<noteq> a"
  proof
    fix k assume "k \<in> {front Q..<length b}"
    then have "b ! k \<in> set (drop (front Q) b)" by (auto simp: in_set_conv_nth intro!: exI[of _ "k - front Q"])
    with assms(4) b(1) show "bufferAddr (b ! k) \<noteq> a" by auto
  qed
  then have "resetFlag_loop (maxsize Q) (front Q) a rel b Q = Inl OutOfBounds" for rel
    using assms b by (intro resetFlag_wrapped[where f = "front Q"]) (auto simp: q_inv_def)
  then have r: "ResetElemFlagInQueue a rel Q = Inl OutOfBounds" for rel
    using b(1) by (simp add: ResetElemFlagInQueue_def)
  have "\<not> up \<or> FullQueue Q \<Longrightarrow> Enqueue up x Q = (False, Q)" for x
    using b(1) by (auto simp: Enqueue_def)
  with r show ?thesis by (auto simp: MPC_putMsgToSendQueue_def)
qed

text \<open>A queue of three slots, full and wrapped.\<close>

definition wrapped_queue :: QUEUE where
  "wrapped_queue = \<lparr>pBase = Some [elem_zero\<lparr>bufferAddr := 5\<rparr>, elem_zero, elem_zero\<lparr>bufferAddr := 4\<rparr>],
     front = 2, rear = 1, maxsize = 3\<rparr>"

theorem ResetElemFlag_finds_witness:
  "\<exists>Q'. ResetElemFlagInQueue 4 True \<lparr>pBase = Some [elem_zero\<lparr>bufferAddr := 4\<rparr>, elem_zero], front = 0, rear = 1, maxsize = 2\<rparr>
     = Inr (True, Q')"
  using ResetElemFlag_finds[of 2 "\<lparr>pBase = Some [elem_zero\<lparr>bufferAddr := 4\<rparr>, elem_zero], front = 0, rear = 1, maxsize = 2\<rparr>" 4 True]
  by (auto simp: q_inv_def q_contents_def q_len_def q_idx_def rdist_def)

theorem ResetElemFlag_overruns_witness:
  "FullQueue wrapped_queue \<and> ResetElemFlagInQueue 9 True wrapped_queue = Inl OutOfBounds \<and>
   MPC_putMsgToSendQueue True 0 9 100 True (wrapped_queue, {4, 5, 9}) = Inl OutOfBounds"
proof -
  have full: "FullQueue wrapped_queue" by (simp add: FullQueue_def wrapped_queue_def)
  have "q_inv 3 wrapped_queue" "rear wrapped_queue < front wrapped_queue" "rear wrapped_queue \<noteq> 0"
    "9 \<notin> bufferAddr ` set (drop (front wrapped_queue) (the (pBase wrapped_queue)))"
    by (simp_all add: wrapped_queue_def q_inv_def elem_zero_def)
  from ResetElemFlag_overruns[OF this, of True True 0 100 "{4, 5, 9}"] full show ?thesis by simp
qed

end
