(* ===== verification/C_Strings.thy ===== *)
theory C_Strings
  imports MPD_Prelude "HOL-Library.Sublist"
begin

text \<open>
  The C library's string functions that the daemon and the radio layer use, over HOL strings: a C string is
  the list of its characters before the terminating NUL.
\<close>

named_theorems text_simps

section \<open>Character classes\<close>

abbreviation code :: "char \<Rightarrow> nat" where "code c \<equiv> of_char c"

definition isspace :: "char \<Rightarrow> bool" where
  "isspace c \<longleftrightarrow> code c = 32 \<or> (9 \<le> code c \<and> code c \<le> 13)"

definition isdigit :: "char \<Rightarrow> bool" where
  "isdigit c \<longleftrightarrow> 48 \<le> code c \<and> code c \<le> 57"

definition isalpha :: "char \<Rightarrow> bool" where
  "isalpha c \<longleftrightarrow> (97 \<le> code c \<and> code c \<le> 122) \<or> (65 \<le> code c \<and> code c \<le> 90)"

text \<open>The value of a character as a digit of a base, if it is one.\<close>

definition digit_val :: "nat \<Rightarrow> char \<Rightarrow> nat option" where
  "digit_val base c =
     (let d = (if isdigit c then code c - 48
               else if 97 \<le> code c \<and> code c \<le> 122 then code c - 87
               else if 65 \<le> code c \<and> code c \<le> 90 then code c - 55 else base)
      in if d < base then Some d else None)"

section \<open>Searching\<close>

fun strstr :: "string \<Rightarrow> string \<Rightarrow> string option" where
  "strstr [] sub = (if sub = [] then Some [] else None)"
| "strstr (c # cs) sub = (if prefix sub (c # cs) then Some (c # cs) else strstr cs sub)"

text \<open>The rest of a string after the first \<open>c\<close>.\<close>

fun after_char :: "char \<Rightarrow> string \<Rightarrow> string option" where
  "after_char c [] = None"
| "after_char c (x # xs) = (if x = c then Some xs else after_char c xs)"

lemma strstr_suffix: "strstr s sub = Some t \<Longrightarrow> suffix t s \<and> prefix sub t"
  by (induction s sub rule: strstr.induct) (auto split: if_splits intro: suffix_ConsI)

lemma strstr_None: "strstr s sub = None \<longleftrightarrow> \<not> sublist sub s"
  by (induction s sub rule: strstr.induct) (auto simp: sublist_Cons_right)

lemma strstr_here: "prefix sub s \<Longrightarrow> strstr s sub = Some s"
  by (cases s) auto

lemma strstr_skip: "c \<noteq> hd sub \<Longrightarrow> sub \<noteq> [] \<Longrightarrow> strstr (c # cs) sub = strstr cs sub"
  by (cases sub) auto

section \<open>Decimal numbers\<close>

definition digit_char :: "nat \<Rightarrow> char" where
  "digit_char d = char_of (48 + d)"

fun show_nat :: "nat \<Rightarrow> string" where
  "show_nat n = (if n < 10 then [digit_char n] else show_nat (n div 10) @ [digit_char (n mod 10)])"

declare show_nat.simps [simp del]

text \<open>\<^verbatim>\<open>%d\<close> and \<^verbatim>\<open>%u\<close> of \<^verbatim>\<open>printf\<close>.\<close>

definition show_int :: "int \<Rightarrow> string" where
  "show_int i = (if i < 0 then CHR ''-'' # show_nat (nat (- i)) else show_nat (nat i))"

text \<open>The digits at the start of a string, added to an accumulator.\<close>

fun scan_digits :: "nat \<Rightarrow> nat \<Rightarrow> string \<Rightarrow> nat \<times> string" where
  "scan_digits base acc [] = (acc, [])"
| "scan_digits base acc (c # cs) =
     (case digit_val base c of None \<Rightarrow> (acc, c # cs) | Some d \<Rightarrow> scan_digits base (acc * base + d) cs)"

definition starts_digit :: "nat \<Rightarrow> string \<Rightarrow> bool" where
  "starts_digit base s \<longleftrightarrow> (case s of [] \<Rightarrow> False | c # _ \<Rightarrow> digit_val base c \<noteq> None)"

definition scan_sign :: "string \<Rightarrow> bool \<times> string" where
  "scan_sign s = (case s of [] \<Rightarrow> (False, []) | c # cs \<Rightarrow>
     if c = CHR ''-'' then (True, cs) else if c = CHR ''+'' then (False, cs) else (False, c # cs))"

definition skip_0x :: "nat \<Rightarrow> string \<Rightarrow> string" where
  "skip_0x base s =
     (if base = 16 \<and> (prefix ''0x'' s \<or> prefix ''0X'' s) \<and> starts_digit 16 (drop 2 s) then drop 2 s else s)"

text \<open>
  \<^verbatim>\<open>strtol\<close> for the bases 10 and 16: white space, sign, digits. \<open>None\<close> stands for the case in which
  the end pointer is the start: there is no number. The value is not yet limited to the range of \<^verbatim>\<open>long\<close>.
\<close>

definition strtol :: "nat \<Rightarrow> string \<Rightarrow> (int \<times> string) option" where
  "strtol base s =
     (case scan_sign (dropWhile isspace s) of (neg, t) \<Rightarrow>
        let t = skip_0x base t
        in if \<not> starts_digit base t then None
           else case scan_digits base 0 t of (n, rest) \<Rightarrow> Some (if neg then - int n else int n, rest))"

text \<open>The value of a \<^verbatim>\<open>long\<close> of \<open>w\<close> bits: numbers outside the range become the nearest limit.\<close>

definition clamp :: "nat \<Rightarrow> int \<Rightarrow> int" where
  "clamp w v = max (- (2 ^ (w - 1))) (min (2 ^ (w - 1) - 1) v)"

subsection \<open>Printing and scanning\<close>

lemma code_char [text_simps]: "n < 256 \<Longrightarrow> code (char_of n) = n"
  by simp

lemma digit_char_val: "d < 10 \<Longrightarrow> digit_val 10 (digit_char d) = Some d"
  by (simp add: digit_val_def digit_char_def isdigit_def Let_def)

lemma digit_char_class: "d < 10 \<Longrightarrow> isdigit (digit_char d) \<and> \<not> isspace (digit_char d) \<and>
  digit_char d \<noteq> CHR ''-'' \<and> digit_char d \<noteq> CHR ''+''"
proof -
  assume d: "d < 10"
  then have "code (digit_char d) = 48 + d" by (simp add: digit_char_def)
  moreover have "code (CHR ''-'') = (45::nat)" "code (CHR ''+'') = (43::nat)" by simp_all
  ultimately show ?thesis using d by (auto simp: isdigit_def isspace_def)
qed

lemma show_nat_digits: "c \<in> set (show_nat n) \<Longrightarrow> \<exists>d<10. c = digit_char d"
proof (induction n rule: show_nat.induct)
  case (1 n)
  show ?case
  proof (cases "n < 10")
    case True
    then show ?thesis using 1(2) by (auto simp: show_nat.simps)
  next
    case False
    then have "c \<in> set (show_nat (n div 10)) \<or> c = digit_char (n mod 10)"
      using 1(2) by (subst (asm) show_nat.simps) auto
    then show ?thesis using 1(1)[OF False] by (auto intro: exI[of _ "n mod 10"])
  qed
qed

lemma show_nat_Nil [simp]: "show_nat n \<noteq> []"
  by (subst show_nat.simps) simp

lemma show_nat_Cons: "\<exists>d cs. d < 10 \<and> show_nat n = digit_char d # cs"
  using show_nat_digits[of "hd (show_nat n)" n] by (cases "show_nat n") auto

lemma scan_digits_append:
  "(\<forall>c\<in>set xs. digit_val base c \<noteq> None) \<Longrightarrow>
   scan_digits base acc (xs @ ys) = scan_digits base (fst (scan_digits base acc xs)) ys"
  by (induction xs arbitrary: acc) (auto split: option.splits)

lemma show_nat_all_digits: "\<forall>c\<in>set (show_nat n). digit_val 10 c \<noteq> None"
  using show_nat_digits digit_char_val by fastforce

lemma scan_show_nat_acc: "fst (scan_digits 10 acc (show_nat n)) = acc * 10 ^ length (show_nat n) + n"
proof (induction n rule: show_nat.induct)
  case (1 n)
  show ?case
  proof (cases "n < 10")
    case True
    then show ?thesis by (simp add: show_nat.simps digit_char_val)
  next
    case False
    have "n mod 10 < 10" by simp
    then show ?thesis
      using 1[OF False] False scan_digits_append[OF show_nat_all_digits, of acc "n div 10" "[digit_char (n mod 10)]"]
      by (subst (1 2) show_nat.simps) (simp add: digit_char_val algebra_simps)
  qed
qed

lemma scan_stop: "\<not> starts_digit base rest \<Longrightarrow> scan_digits base acc rest = (acc, rest)"
  by (cases rest) (auto simp: starts_digit_def)

lemma scan_show_nat [text_simps]: "\<not> starts_digit 10 rest \<Longrightarrow> scan_digits 10 0 (show_nat n @ rest) = (n, rest)"
  using scan_digits_append[OF show_nat_all_digits, of 0 n rest] scan_show_nat_acc[of 0 n] by (simp add: scan_stop)

lemma strtol_show_int: "\<not> starts_digit 10 rest \<Longrightarrow> strtol 10 (show_int i @ rest) = Some (i, rest)"
proof -
  assume r: "\<not> starts_digit 10 rest"
  obtain d cs where d: "d < 10" "show_nat (nat \<bar>i\<bar>) = digit_char d # cs" using show_nat_Cons by blast
  have st: "starts_digit 10 (show_nat (nat \<bar>i\<bar>) @ rest)" using d by (simp add: starts_digit_def digit_char_val)
  have sk: "skip_0x 10 t = t" for t by (simp add: skip_0x_def)
  show ?thesis
  proof (cases "i < 0")
    case True
    have "\<not> isspace (CHR ''-'')" by (simp add: isspace_def)
    then show ?thesis
      using True st scan_show_nat[OF r, of "nat (- i)"] by (simp add: strtol_def show_int_def scan_sign_def sk)
  next
    case False
    have "scan_sign (dropWhile isspace (show_nat (nat i) @ rest)) = (False, show_nat (nat i) @ rest)"
      using False d digit_char_class[OF d(1)] by (simp add: scan_sign_def)
    then show ?thesis
      using False st scan_show_nat[OF r, of "nat i"] by (simp add: strtol_def show_int_def sk)
  qed
qed

text \<open>Spaces before a number are skipped.\<close>

lemma strtol_space: "isspace c \<Longrightarrow> strtol base (c # s) = strtol base s"
  by (simp add: strtol_def)

subsection \<open>The length of a printed number\<close>

lemma length_show_nat: "n < 10 ^ k \<Longrightarrow> 0 < k \<Longrightarrow> length (show_nat n) \<le> k"
proof (induction k arbitrary: n)
  case (Suc k)
  show ?case
  proof (cases "n < 10")
    case True
    then show ?thesis by (simp add: show_nat.simps)
  next
    case False
    then have k: "0 < k" using Suc.prems(1) by (cases k) auto
    have "n div 10 < 10 ^ k" using Suc.prems(1) by (simp add: less_mult_imp_div_less mult.commute)
    then show ?thesis using Suc.IH k False by (subst show_nat.simps) simp
  qed
qed simp

lemma length_show_int: "- (10 ^ k) < i \<Longrightarrow> i < 10 ^ k \<Longrightarrow> 0 < k \<Longrightarrow> length (show_int i) \<le> k + 1"
proof -
  assume i: "- (10 ^ k) < i" "i < 10 ^ k" and k: "0 < k"
  have "int (10 ^ k) = 10 ^ k" by simp
  then have "nat (- i) < 10 ^ k" "nat i < 10 ^ k" using i by linarith+
  then show ?thesis using length_show_nat[OF _ k] by (auto simp: show_int_def intro: le_SucI)
qed

end
