(* ===== verification/RATD_Codec.thy ===== *)
theory RATD_Codec
  imports C_Strings
begin

text \<open>
  The messages of the control daemon (\<^verbatim>\<open>ratd/dataparse.c\<close>, \<^verbatim>\<open>dataparse.h\<close>): the text commands of
  the application, scanned with \<^verbatim>\<open>strstr\<close> and \<^verbatim>\<open>sscanf\<close>, the text answers, and the binary
  messages to and from the gateway.
\<close>

section \<open>Message types\<close>

abbreviation MESSAGE_TYPE_ADD_SUBFLOW_REQ :: U32 where "MESSAGE_TYPE_ADD_SUBFLOW_REQ \<equiv> 1"
abbreviation MESSAGE_TYPE_ADD_SUBFLOW_RSP :: U32 where "MESSAGE_TYPE_ADD_SUBFLOW_RSP \<equiv> 2"
abbreviation MESSAGE_TYPE_TRY_SUBFLOW_REQ :: U32 where "MESSAGE_TYPE_TRY_SUBFLOW_REQ \<equiv> 3"
abbreviation MESSAGE_TYPE_TRY_SUBFLOW_RSP :: U32 where "MESSAGE_TYPE_TRY_SUBFLOW_RSP \<equiv> 4"
abbreviation MESSAGE_TYPE_DEL_SUBFLOW_REQ :: U32 where "MESSAGE_TYPE_DEL_SUBFLOW_REQ \<equiv> 5"
abbreviation MESSAGE_TYPE_DEL_SUBFLOW_RSP :: U32 where "MESSAGE_TYPE_DEL_SUBFLOW_RSP \<equiv> 6"
abbreviation MESSAGE_TYPE_RELEASE_MP_REQ :: U32 where "MESSAGE_TYPE_RELEASE_MP_REQ \<equiv> 7"
abbreviation MESSAGE_TYPE_RELEASE_MP_RSP :: U32 where "MESSAGE_TYPE_RELEASE_MP_RSP \<equiv> 8"
abbreviation MESSAGE_TYPE_SYNC_MP_INIT_REQ :: U32 where "MESSAGE_TYPE_SYNC_MP_INIT_REQ \<equiv> 9"
abbreviation MESSAGE_TYPE_SYNC_MP_INIT_RSP :: U32 where "MESSAGE_TYPE_SYNC_MP_INIT_RSP \<equiv> 10"
abbreviation MESSAGE_TYPE_ENABLE_MP_REQ :: U32 where "MESSAGE_TYPE_ENABLE_MP_REQ \<equiv> 17"
abbreviation MESSAGE_TYPE_ENABLE_MP_RSP :: U32 where "MESSAGE_TYPE_ENABLE_MP_RSP \<equiv> 18"
abbreviation MESSAGE_TYPE_DISABLE_MP_REQ :: U32 where "MESSAGE_TYPE_DISABLE_MP_REQ \<equiv> 19"
abbreviation MESSAGE_TYPE_DISABLE_MP_RSP :: U32 where "MESSAGE_TYPE_DISABLE_MP_RSP \<equiv> 20"
abbreviation MESSAGE_TYPE_CONFIG_MP_REQ :: U32 where "MESSAGE_TYPE_CONFIG_MP_REQ \<equiv> 21"
abbreviation MESSAGE_TYPE_CONFIG_MP_RSP :: U32 where "MESSAGE_TYPE_CONFIG_MP_RSP \<equiv> 22"
abbreviation MESSAGE_TYPE_KEEPALIVE_REQ :: U32 where "MESSAGE_TYPE_KEEPALIVE_REQ \<equiv> 23"
abbreviation MESSAGE_TYPE_KEEPALIVE_RSP :: U32 where "MESSAGE_TYPE_KEEPALIVE_RSP \<equiv> 24"
abbreviation MESSAGE_TYPE_ENABLE_MPC_LOG :: U32 where "MESSAGE_TYPE_ENABLE_MPC_LOG \<equiv> 25"
abbreviation MESSAGE_TYPE_EXCEPTION :: U32 where "MESSAGE_TYPE_EXCEPTION \<equiv> 26"
abbreviation MESSAGE_TYPE_NOTIFY_STATICS :: U32 where "MESSAGE_TYPE_NOTIFY_STATICS \<equiv> 27"

abbreviation RESULT_OK :: U32 where "RESULT_OK \<equiv> 0"
abbreviation RESULT_FAILED :: U32 where "RESULT_FAILED \<equiv> - 1"

section \<open>The structs\<close>

text \<open>The embedded \<^verbatim>\<open>baseInfo\<close> is the record that the others extend.\<close>

record r_base =
  messageType :: U32
  sessionId :: U32

record r_app_config = r_base +
  cfg_uid :: U32
  cfg_dns :: string
  cfg_mag :: string

record r_app_enable = r_base +
  en_netType :: U32
  en_netTypeName :: string
  en_band :: U32
  en_rtt :: U32

record r_app_add = r_base +
  add_netType :: U32
  add_netTypeName :: string
  add_token :: U32
  add_band :: U32
  add_rtt :: U32
  add_ip :: string

record r_app_del = r_base +
  del_token :: U32
  del_numberType :: U8
  del_deleteCause :: U8

record r_app_enable_log = r_base +
  log_operation :: U32

record r_app_try = r_base +
  try_netType :: U32
  try_netTypeName :: string

record r_sync_mp_init = r_base +
  sync_uid :: U32
  sync_numberType :: U8

record magRsp =
  mag_messageType :: U32
  mag_sessionId :: U32
  mag_len :: U32
  mag_result :: U8

section \<open>Case-insensitive search\<close>

text \<open>
  The test \<^verbatim>\<open>if(len=0)\<close> assigns: the comparison that follows is of no characters, which
  \<^verbatim>\<open>strncasecmp\<close> finds equal, and the loop returns at the first difference.
\<close>

definition to_lower :: "char \<Rightarrow> char" where
  "to_lower c = (if 65 \<le> code c \<and> code c \<le> 90 then char_of (code c + 32) else c)"

fun strncasecmp :: "string \<Rightarrow> string \<Rightarrow> nat \<Rightarrow> int" where
  "strncasecmp s t 0 = 0"
| "strncasecmp [] [] (Suc n) = 0"
| "strncasecmp [] (d # ds) (Suc n) = - int (code (to_lower d))"
| "strncasecmp (c # cs) [] (Suc n) = int (code (to_lower c))"
| "strncasecmp (c # cs) (d # ds) (Suc n) =
     (if to_lower c = to_lower d then strncasecmp cs ds n else int (code (to_lower c)) - int (code (to_lower d)))"

fun strstri_loop :: "string \<Rightarrow> string \<Rightarrow> nat \<Rightarrow> string option" where
  "strstri_loop [] sub len = None"
| "strstri_loop (c # cs) sub len =
     (if strncasecmp (c # cs) sub len \<noteq> 0 then Some (c # cs) else strstri_loop cs sub len)"

definition strstri :: "string \<Rightarrow> string \<Rightarrow> string option" where
  "strstri str sub = (let len = 0 in if len \<noteq> (0::nat) then None else strstri_loop str sub len)"

section \<open>The conversions of sscanf\<close>

text \<open>A literal followed by \<^verbatim>\<open>%d\<close>; the number is read as 64 bits and stored as \<^verbatim>\<open>int\<close>.\<close>

definition scan_d :: "string \<Rightarrow> string \<Rightarrow> U32 option" where
  "scan_d lit s =
     (if prefix lit s
      then map_option (\<lambda>(v, _). word_of_int (clamp 64 v)) (strtol 10 (drop (length lit) s)) else None)"

text \<open>A conversion \<^verbatim>\<open>%[...]\<close>: the longest nonempty run of characters of a class.\<close>

definition scan_set :: "(char \<Rightarrow> bool) \<Rightarrow> string \<Rightarrow> (string \<times> string) option" where
  "scan_set P s = (if takeWhile P s = [] then None else Some (takeWhile P s, dropWhile P s))"

definition not_quote_comma :: "char \<Rightarrow> bool" where
  "not_quote_comma c \<longleftrightarrow> c \<noteq> CHR 0x22 \<and> c \<noteq> CHR '',''"

definition scan_name :: "string \<Rightarrow> string \<Rightarrow> string option" where
  "scan_name lit s = (if prefix lit s then map_option fst (scan_set not_quote_comma (drop (length lit) s)) else None)"

text \<open>\<^verbatim>\<open>%*["]\<close> skips the quotation mark.\<close>

definition scan_quoted_name :: "string \<Rightarrow> string \<Rightarrow> string option" where
  "scan_quoted_name lit s =
     (if prefix lit s
      then case scan_set (\<lambda>c. c = CHR 0x22) (drop (length lit) s) of
             None \<Rightarrow> None
           | Some (_, t) \<Rightarrow> map_option fst (scan_set not_quote_comma t)
      else None)"

text \<open>\<^verbatim>\<open>%*["a-zA-Z: ]%[0-9.]\<close>, the scan of an address behind its name.\<close>

definition scan_addr :: "string \<Rightarrow> string option" where
  "scan_addr s =
     (case scan_set (\<lambda>c. c = CHR 0x22 \<or> isalpha c \<or> c = CHR '':'' \<or> c = CHR '' '') s of
        None \<Rightarrow> None
      | Some (_, t) \<Rightarrow> map_option fst (scan_set (\<lambda>c. isdigit c \<or> c = CHR ''.'') t))"

definition node :: "string \<Rightarrow> string" where
  "node name = CHR 0x22 # name @ [CHR 0x22]"

definition RE_node :: "string \<Rightarrow> string" where
  "RE_node name = node name @ '':''"

text \<open>\<^verbatim>\<open>strFound=strstr(buffer,NODE); strFound!=NULL&&0<sscanf(strFound,RE,...)\<close>.\<close>

definition find_int :: "string \<Rightarrow> string \<Rightarrow> U32 option" where
  "find_int name buffer = Option.bind (strstr buffer (node name)) (scan_d (RE_node name))"

definition find_addr :: "string \<Rightarrow> string \<Rightarrow> string option" where
  "find_addr name buffer = Option.bind (strstr buffer (node name)) scan_addr"

text \<open>A string stored into an array of \<open>n\<close> characters.\<close>

definition store_str :: "nat \<Rightarrow> string \<Rightarrow> string res" where
  "store_str n s = (if length s < n then Inr s else Inl OutOfBounds)"

text \<open>
  \<^verbatim>\<open>%d\<close> into a byte field: four bytes are written at its offset in a packed struct of the given size.
\<close>

definition store_d_byte :: "nat \<Rightarrow> nat \<Rightarrow> U32 \<Rightarrow> U8 res" where
  "store_d_byte off struct_size v = (if off + 4 \<le> struct_size then Inr (ucast v) else Inl OutOfBounds)"

definition sizeof_r_app_del :: nat where "sizeof_r_app_del = 14"
definition offset_numberType :: nat where "offset_numberType = 12"
definition offset_deleteCause :: nat where "offset_deleteCause = 13"

text \<open>The name of a network type, without quotation marks or with them.\<close>

definition find_name :: "string \<Rightarrow> string option" where
  "find_name buffer =
     (case strstr buffer (node ''netTypeName'') of
        None \<Rightarrow> None
      | Some t \<Rightarrow> (case scan_name (RE_node ''netTypeName'') t of
            Some n \<Rightarrow> Some n
          | None \<Rightarrow> scan_quoted_name (RE_node ''netTypeName'') t))"

section \<open>Commands of the application\<close>

text \<open>
  Each decoder fills a freshly allocated struct (its other fields keep what the memory held) and
  returns \<open>None\<close> for \<^verbatim>\<open>false\<close>, when the caller frees the struct.
\<close>

definition decodeAppDisableReq :: "r_base \<Rightarrow> string \<Rightarrow> r_base option res" where
  "decodeAppDisableReq r buffer =
     Inr (case find_int ''sessionid'' buffer of None \<Rightarrow> None | Some v \<Rightarrow> Some (r\<lparr>sessionId := v\<rparr>))"

definition decodeAppAddSubFlowReq :: "r_app_add \<Rightarrow> string \<Rightarrow> r_app_add option res" where
  "decodeAppAddSubFlowReq r buffer =
     (case find_int ''netType'' buffer of None \<Rightarrow> Inr None | Some nt \<Rightarrow>
      case find_int ''sessionid'' buffer of None \<Rightarrow> Inr None | Some sid \<Rightarrow>
      case find_int ''token'' buffer of None \<Rightarrow> Inr None | Some tok \<Rightarrow>
      case find_int ''band'' buffer of None \<Rightarrow> Inr None | Some bnd \<Rightarrow>
      case find_int ''rtt'' buffer of None \<Rightarrow> Inr None | Some rt \<Rightarrow>
      case find_addr ''ip'' buffer of None \<Rightarrow> Inr None | Some a \<Rightarrow>
        bindR (store_str 16 a) (\<lambda>a.
          case find_name buffer of None \<Rightarrow> Inr None | Some n \<Rightarrow>
            bindR (store_str 13 n) (\<lambda>n.
              Inr (Some (r\<lparr>add_netType := nt, sessionId := sid, add_token := tok, add_band := bnd, add_rtt := rt,
                           add_ip := a, add_netTypeName := n\<rparr>)))))"

definition decodeAppDelSubFlowReq :: "r_app_del \<Rightarrow> string \<Rightarrow> r_app_del option res" where
  "decodeAppDelSubFlowReq r buffer =
     (case find_int ''sessionid'' buffer of None \<Rightarrow> Inr None | Some sid \<Rightarrow>
      case find_int ''numberType'' buffer of None \<Rightarrow> Inr None | Some nt \<Rightarrow>
        bindR (store_d_byte offset_numberType sizeof_r_app_del nt) (\<lambda>nt.
          case find_int ''token'' buffer of None \<Rightarrow> Inr None | Some tok \<Rightarrow>
          case find_int ''deleteCause'' buffer of None \<Rightarrow> Inr None | Some dc \<Rightarrow>
            bindR (store_d_byte offset_deleteCause sizeof_r_app_del dc) (\<lambda>dc.
              Inr (Some (r\<lparr>sessionId := sid, del_numberType := nt, del_token := tok, del_deleteCause := dc\<rparr>)))))"

definition decodeAppTrySubFlowReq :: "r_app_try \<Rightarrow> string \<Rightarrow> r_app_try option res" where
  "decodeAppTrySubFlowReq r buffer =
     (case find_int ''netType'' buffer of None \<Rightarrow> Inr None | Some nt \<Rightarrow>
      case find_int ''sessionid'' buffer of None \<Rightarrow> Inr None | Some sid \<Rightarrow>
      case find_name buffer of None \<Rightarrow> Inr None | Some n \<Rightarrow>
        bindR (store_str 13 n) (\<lambda>n.
          Inr (Some (r\<lparr>try_netType := nt, sessionId := sid, try_netTypeName := n\<rparr>))))"

definition decodeAppMPCKeepAliveReq :: "r_base \<Rightarrow> string \<Rightarrow> r_base option res" where
  "decodeAppMPCKeepAliveReq r buffer =
     Inr (case find_int ''sessionid'' buffer of None \<Rightarrow> None | Some v \<Rightarrow> Some (r\<lparr>sessionId := v\<rparr>))"

definition decodeAppEnablelogReq :: "r_app_enable_log \<Rightarrow> string \<Rightarrow> r_app_enable_log option res" where
  "decodeAppEnablelogReq r buffer =
     Inr (case find_int ''sessionid'' buffer of None \<Rightarrow> None | Some sid \<Rightarrow>
          case find_int ''operation'' buffer of None \<Rightarrow> None | Some opn \<Rightarrow>
            Some (r\<lparr>sessionId := sid, log_operation := opn\<rparr>))"

definition decodeAppEnableReq :: "r_app_enable \<Rightarrow> string \<Rightarrow> r_app_enable option res" where
  "decodeAppEnableReq r buffer =
     (case find_int ''netType'' buffer of None \<Rightarrow> Inr None | Some nt \<Rightarrow>
      case find_int ''sessionid'' buffer of None \<Rightarrow> Inr None | Some sid \<Rightarrow>
      case find_name buffer of None \<Rightarrow> Inr None | Some n \<Rightarrow>
        bindR (store_str 13 n) (\<lambda>n.
          Inr (Some (r\<lparr>en_netType := nt, sessionId := sid, en_netTypeName := n\<rparr>))))"

definition decodeAppConfigReq :: "r_app_config \<Rightarrow> string \<Rightarrow> r_app_config option res" where
  "decodeAppConfigReq r buffer =
     (case find_int ''uid'' buffer of None \<Rightarrow> Inr None | Some u \<Rightarrow>
      case find_int ''sessionid'' buffer of None \<Rightarrow> Inr None | Some sid \<Rightarrow>
      case find_addr ''dns'' buffer of None \<Rightarrow> Inr None | Some d \<Rightarrow>
        bindR (store_str 16 d) (\<lambda>d.
          case find_addr ''mag'' buffer of None \<Rightarrow> Inr None | Some m \<Rightarrow>
            bindR (store_str 16 m) (\<lambda>m.
              Inr (Some (r\<lparr>cfg_uid := u, sessionId := sid, cfg_dns := d, cfg_mag := m\<rparr>)))))"

text \<open>\<^verbatim>\<open>struct r_app_release_mp\<close> has the layout of \<^verbatim>\<open>struct r_app_del\<close>.\<close>

definition decodeAppReleaseMpReq :: "r_app_del \<Rightarrow> string \<Rightarrow> r_app_del option res" where
  "decodeAppReleaseMpReq r buffer =
     (case find_int ''sessionid'' buffer of None \<Rightarrow> Inr None | Some sid \<Rightarrow>
      case find_int ''numberType'' buffer of None \<Rightarrow> Inr None | Some nt \<Rightarrow>
        bindR (store_d_byte offset_numberType sizeof_r_app_del nt) (\<lambda>nt.
          case find_int ''token'' buffer of None \<Rightarrow> Inr None | Some tok \<Rightarrow>
          case find_int ''deleteCause'' buffer of None \<Rightarrow> Inr None | Some dc \<Rightarrow>
            bindR (store_d_byte offset_deleteCause sizeof_r_app_del dc) (\<lambda>dc.
              Inr (Some (r\<lparr>sessionId := sid, del_numberType := nt, del_token := tok, del_deleteCause := dc\<rparr>)))))"

text \<open>The command a buffer holds.\<close>

datatype app_command =
    CONFIG_MP r_app_config
  | ENABLE_MP r_app_enable
  | DISABLE_MP r_base
  | ADD_SUBFLOW r_app_add
  | DEL_SUBFLOW r_app_del
  | TRY_SUBFLOW r_app_try
  | KEEPALIVE r_base
  | ENABLE_LOG r_app_enable_log
  | RELEASE_MP r_app_del

text \<open>What a freshly allocated struct holds.\<close>

record fresh_structs =
  fresh_config :: r_app_config
  fresh_enable :: r_app_enable
  fresh_base :: r_base
  fresh_add :: r_app_add
  fresh_del :: r_app_del
  fresh_try :: r_app_try
  fresh_log :: r_app_enable_log

definition command :: "('a \<Rightarrow> app_command) \<Rightarrow> 'a option res \<Rightarrow> app_command option res" where
  "command C m = bindR m (\<lambda>r. Inr (map_option C r))"

definition decodeAppCommandBufferNew :: "fresh_structs \<Rightarrow> string \<Rightarrow> app_command option res" where
  "decodeAppCommandBufferNew fresh buffer =
     (case find_int ''messageType'' buffer of
        None \<Rightarrow> Inr None
      | Some mt \<Rightarrow>
          if mt = MESSAGE_TYPE_CONFIG_MP_REQ
          then command CONFIG_MP (decodeAppConfigReq (fresh_config fresh\<lparr>messageType := mt\<rparr>) buffer)
          else if mt = MESSAGE_TYPE_ENABLE_MP_REQ
          then command ENABLE_MP (decodeAppEnableReq (fresh_enable fresh\<lparr>messageType := mt\<rparr>) buffer)
          else if mt = MESSAGE_TYPE_DISABLE_MP_REQ
          then command DISABLE_MP (decodeAppDisableReq (fresh_base fresh\<lparr>messageType := mt\<rparr>) buffer)
          else if mt = MESSAGE_TYPE_ADD_SUBFLOW_REQ
          then command ADD_SUBFLOW (decodeAppAddSubFlowReq (fresh_add fresh\<lparr>messageType := mt\<rparr>) buffer)
          else if mt = MESSAGE_TYPE_DEL_SUBFLOW_REQ
          then command DEL_SUBFLOW (decodeAppDelSubFlowReq (fresh_del fresh\<lparr>messageType := mt\<rparr>) buffer)
          else if mt = MESSAGE_TYPE_TRY_SUBFLOW_REQ
          then command TRY_SUBFLOW (decodeAppTrySubFlowReq (fresh_try fresh\<lparr>messageType := mt\<rparr>) buffer)
          else if mt = MESSAGE_TYPE_KEEPALIVE_REQ
          then command KEEPALIVE (decodeAppMPCKeepAliveReq (fresh_base fresh\<lparr>messageType := mt\<rparr>) buffer)
          else if mt = MESSAGE_TYPE_ENABLE_MPC_LOG
          then command ENABLE_LOG (decodeAppEnablelogReq (fresh_log fresh\<lparr>messageType := mt\<rparr>) buffer)
          else if mt = MESSAGE_TYPE_RELEASE_MP_REQ
          then command RELEASE_MP (decodeAppReleaseMpReq (fresh_del fresh\<lparr>messageType := mt\<rparr>) buffer)
          else Inr None)"

section \<open>Answers to the application\<close>

text \<open>\<^verbatim>\<open>%d\<close> prints the 32-bit pattern as a signed number.\<close>

definition print_d :: "U32 \<Rightarrow> string" where
  "print_d w = show_int (sint w)"

text \<open>A buffer of \<open>n\<close> bytes from \<^verbatim>\<open>malloc\<close>, filled by \<^verbatim>\<open>sprintf\<close> with a string and its NUL.\<close>

definition sprintf_into :: "nat \<Rightarrow> string \<Rightarrow> string res" where
  "sprintf_into n s = (if length s + 1 \<le> n then Inr s else Inl OutOfBounds)"

definition encodeAppRsp :: "U32 \<Rightarrow> U32 \<Rightarrow> U32 \<Rightarrow> string res" where
  "encodeAppRsp mt sid res = sprintf_into 80
     (''[{'' @ RE_node ''messageType'' @ print_d mt @ '','' @ RE_node ''sessionid'' @ print_d sid @ '','' @
      RE_node ''result'' @ print_d res @ ''}]'')"

definition encodeAppTypeAndSessionId :: "U32 \<Rightarrow> U32 \<Rightarrow> string res" where
  "encodeAppTypeAndSessionId mt sid = sprintf_into 80
     (''[{'' @ RE_node ''messageType'' @ print_d mt @ '','' @ RE_node ''sessionid'' @ print_d sid @ ''}]'')"

definition encodeExceptionRsp :: "U32 \<Rightarrow> U32 \<Rightarrow> U32 \<Rightarrow> string res" where
  "encodeExceptionRsp mt ec nt = sprintf_into 80
     (''[{'' @ RE_node ''messageType'' @ print_d mt @ '','' @ RE_node ''exceptionCode'' @ print_d ec @ '','' @
      RE_node ''netType'' @ print_d nt @ ''}]'')"

definition encodeAppRspStatistics :: "U32 \<Rightarrow> U32 \<Rightarrow> 64 word \<Rightarrow> string res" where
  "encodeAppRspStatistics mt nt stat = sprintf_into 100
     (''[{'' @ RE_node ''messageType'' @ print_d mt @ '','' @ RE_node ''netType'' @ print_d nt @ '','' @
      RE_node ''statistics'' @ show_nat (unat stat) @ ''}]'')"

definition encodeAppRspWithNetType :: "U32 \<Rightarrow> U32 \<Rightarrow> U32 \<Rightarrow> U32 \<Rightarrow> string res" where
  "encodeAppRspWithNetType mt sid nt res = sprintf_into 100
     (''[{'' @ RE_node ''messageType'' @ print_d mt @ '','' @ RE_node ''sessionid'' @ print_d sid @ '','' @
      RE_node ''netType'' @ print_d nt @ '','' @ RE_node ''result'' @ print_d res @ ''}]'')"

section \<open>Binary messages to the gateway\<close>

text \<open>
  The machine is little-endian: \<^verbatim>\<open>memcpy\<close> of a number writes its low byte first, and \<^verbatim>\<open>htonl\<close>
  (as \<^verbatim>\<open>ntohl\<close>) turns the bytes around.
\<close>

definition le32_bytes :: "U32 \<Rightarrow> U8 list" where
  "le32_bytes x = [ucast x, ucast (drop_bit 8 x), ucast (drop_bit 16 x), ucast (drop_bit 24 x)]"

definition le32 :: "U8 list \<Rightarrow> U32" where
  "le32 b = ucast (b ! 0) OR push_bit 8 (ucast (b ! 1)) OR push_bit 16 (ucast (b ! 2)) OR push_bit 24 (ucast (b ! 3))"

definition htonl :: "U32 \<Rightarrow> U32" where
  "htonl x = le32 (rev (le32_bytes x))"

definition le16_bytes :: "U16 \<Rightarrow> U8 list" where
  "le16_bytes x = [lo8 x, hi8 x]"

definition htons :: "U16 \<Rightarrow> U16" where
  "htons x = be16 (lo8 x) (hi8 x)"

text \<open>\<^verbatim>\<open>memcpy\<close> into a buffer whose size is known to be enough.\<close>

definition put :: "nat \<Rightarrow> U8 list \<Rightarrow> U8 list \<Rightarrow> U8 list" where
  "put off bs buf = take off buf @ bs @ drop (off + length bs) buf"

definition LEN_TYPE_ADD_SUBFLOW_REQ :: U32 where "LEN_TYPE_ADD_SUBFLOW_REQ = 25"
definition LEN_TYPE_TRY_SUBFLOW_REQ :: U32 where "LEN_TYPE_TRY_SUBFLOW_REQ = 22"
definition LEN_TYPE_DEL_SUBFLOW_REQ :: U32 where "LEN_TYPE_DEL_SUBFLOW_REQ = 22"
definition LEN_TYPE_RELEASE_MP_REQ :: U32 where "LEN_TYPE_RELEASE_MP_REQ = 22"
definition LEN_TYPE_SYNC_MP_INIT_REQ :: U32 where "LEN_TYPE_SYNC_MP_INIT_REQ = 17"

text \<open>
  The encoders turn the fields of the caller's struct around in place; they return the message and the
  struct as they leave it. \<open>u\<close> is \<^verbatim>\<open>mpc_op.uid\<close>.
\<close>

definition swap_base :: "'a r_base_scheme \<Rightarrow> 'a r_base_scheme" where
  "swap_base r = r\<lparr>messageType := htonl (messageType r), sessionId := htonl (sessionId r)\<rparr>"

definition put_base :: "'a r_base_scheme \<Rightarrow> U8 list \<Rightarrow> U8 list" where
  "put_base r = put 0 (le32_bytes (messageType r) @ le32_bytes (sessionId r))"

definition zero_buffer :: "U32 \<Rightarrow> U8 list" where
  "zero_buffer n = replicate (unat n) 0"

definition encodeMPSyncInitRequest :: "U32 \<Rightarrow> r_sync_mp_init \<Rightarrow> U8 list \<times> r_sync_mp_init" where
  "encodeMPSyncInitRequest u r =
     (let r = swap_base r;
          b = put_base r (zero_buffer LEN_TYPE_SYNC_MP_INIT_REQ);
          b = put 8 (le32_bytes (htonl LEN_TYPE_SYNC_MP_INIT_REQ)) b;
          b = put 12 (le32_bytes (htonl u)) b;
          b = put 16 [sync_numberType r] b
      in (b, r))"

definition encodeTryRequest :: "U32 \<Rightarrow> U32 \<Rightarrow> U16 \<Rightarrow> r_app_try \<Rightarrow> U8 list \<times> r_app_try" where
  "encodeTryRequest u timeStamp ttl r =
     (let r = swap_base r;
          b = put_base r (zero_buffer LEN_TYPE_TRY_SUBFLOW_REQ);
          b = put 8 (le32_bytes (htonl LEN_TYPE_TRY_SUBFLOW_REQ)) b;
          b = put 12 (le32_bytes (htonl u)) b;
          b = put 16 (le32_bytes (htonl timeStamp)) b;
          b = put 20 (le16_bytes (htons ttl)) b
      in (b, r))"

definition encodeMPReleaseRequest :: "U32 \<Rightarrow> r_app_del \<Rightarrow> U8 list \<times> r_app_del" where
  "encodeMPReleaseRequest u r =
     (let r = swap_base r; r = r\<lparr>del_token := htonl (del_token r)\<rparr>;
          b = put_base r (zero_buffer LEN_TYPE_RELEASE_MP_REQ);
          b = put 8 (le32_bytes (htonl LEN_TYPE_RELEASE_MP_REQ)) b;
          b = put 12 (le32_bytes (htonl u)) b;
          b = put 16 (le32_bytes (del_token r)) b;
          b = put 20 [del_numberType r] b;
          b = put 21 [del_deleteCause r] b
      in (b, r))"

definition encodeDelRequest :: "U32 \<Rightarrow> r_app_del \<Rightarrow> U8 list \<times> r_app_del" where
  "encodeDelRequest u r =
     (let r = swap_base r; r = r\<lparr>del_token := htonl (del_token r)\<rparr>;
          b = put_base r (zero_buffer LEN_TYPE_DEL_SUBFLOW_REQ);
          b = put 8 (le32_bytes (htonl LEN_TYPE_DEL_SUBFLOW_REQ)) b;
          b = put 12 (le32_bytes (htonl u)) b;
          b = put 16 (le32_bytes (del_token r)) b;
          b = put 20 [del_numberType r] b;
          b = put 21 [del_deleteCause r] b
      in (b, r))"

definition encodeAddRequest :: "U32 \<Rightarrow> r_app_add \<Rightarrow> U8 list \<times> r_app_add" where
  "encodeAddRequest u r =
     (let r = swap_base r;
          b = put_base r (zero_buffer LEN_TYPE_ADD_SUBFLOW_REQ);
          b = put 8 (le32_bytes (htonl LEN_TYPE_ADD_SUBFLOW_REQ)) b;
          b = put 12 (le32_bytes (htonl u)) b;
          b = put 16 (le32_bytes (htonl (add_token r))) b;
          b = put 20 [ucast (add_netType r)] b;
          b = put 21 (le32_bytes (htonl (add_band r))) b
      in (b, r))"

section \<open>Binary answers of the gateway\<close>

abbreviation sizeof_magRsp :: nat where "sizeof_magRsp \<equiv> 13"

text \<open>The part of the host state an answer changes: \<^verbatim>\<open>mpc_op.localIp\<close> and the round-trip times.\<close>

record mag_state =
  localIp :: string
  RTTC :: "nat \<Rightarrow> U32"

text \<open>\<^verbatim>\<open>sprintf(_ip,"%d.%d.%d.%d",...)\<close> into sixteen bytes.\<close>

definition show_ip :: "U32 \<Rightarrow> string" where
  "show_ip v = show_nat (unat (drop_bit 24 (v AND 0xff000000))) @ ''.'' @ show_nat (unat (drop_bit 16 (v AND 0x00ff0000))) @ ''.'' @
     show_nat (unat (drop_bit 8 (v AND 0x0000ff00))) @ ''.'' @ show_nat (unat (v AND 0x000000ff))"

definition mag_header :: "U8 list \<Rightarrow> magRsp" where
  "mag_header b = \<lparr>mag_messageType = htonl (le32 (take 4 b)), mag_sessionId = htonl (le32 (take 4 (drop 4 b))),
     mag_len = htonl (le32 (take 4 (drop 8 b))), mag_result = b ! 12\<rparr>"

text \<open>
  \<open>now\<close> is the answer of \<^verbatim>\<open>getTimeStamp\<close>. \<^verbatim>\<open>netType/2\<close> truncates towards zero; an index below zero
  leaves the array.
\<close>

definition decodeMagCommandBuffer :: "U8 list \<Rightarrow> int \<Rightarrow> U32 \<Rightarrow> mag_state \<Rightarrow> (magRsp option \<times> mag_state) res" where
  "decodeMagCommandBuffer b netType now st =
     (if length b \<noteq> sizeof_magRsp \<and> length b \<noteq> sizeof_magRsp + 4 then Inr (None, st)
      else
        let rsp = mag_header b; value = htonl (le32 (take 4 (drop 13 b)))
        in if length b = 17 \<and> mag_messageType rsp = MESSAGE_TYPE_ADD_SUBFLOW_RSP \<and> ucast (mag_result rsp) = RESULT_OK
           then bindR (sprintf_into 16 (show_ip value)) (\<lambda>ip. Inr (Some rsp, st\<lparr>localIp := ip\<rparr>))
           else if length b = 17 \<and> mag_messageType rsp = MESSAGE_TYPE_TRY_SUBFLOW_RSP
           then let index = (if netType < 0 then - ((- netType) div 2) else netType div 2)
                in if index < 0 then Inl OutOfBounds
                   else if index < 3 then Inr (Some rsp, st\<lparr>RTTC := (RTTC st)(nat index := now - value)\<rparr>)
                   else Inr (Some rsp, st)
           else Inr (Some rsp, st))"

section \<open>Dotted addresses\<close>

text \<open>
  One part of the address: its value is read with \<^verbatim>\<open>atoi\<close> from an array of four characters, which needs its
  NUL inside. \<^verbatim>\<open>pow(256.0,a)\<close> is less than one when \<open>a\<close> is negative, and its conversion 0.
\<close>

definition atoi :: "string \<Rightarrow> int" where
  "atoi s = (case strtol 10 s of None \<Rightarrow> 0 | Some (v, _) \<Rightarrow> clamp 32 v)"

definition ip_part :: "string \<Rightarrow> U32 res" where
  "ip_part part = (if length part < 4 then Inr (word_of_int (atoi part)) else Inl OutOfBounds)"

definition pow256 :: "int \<Rightarrow> U32" where
  "pow256 a = (if a < 0 then 0 else 256 ^ nat a)"

fun convertIp_loop :: "string \<Rightarrow> string \<Rightarrow> int \<Rightarrow> U32 \<Rightarrow> U32 res" where
  "convertIp_loop [] part a ip_add =
     bindR (ip_part part) (\<lambda>ip_int. if ip_int > 255 then Inr 0 else Inr (ip_add + ip_int * pow256 a))"
| "convertIp_loop (c # cs) part a ip_add =
     (if c = CHR ''.''
      then bindR (ip_part part) (\<lambda>ip_int.
             if ip_int > 255 then Inr 0 else convertIp_loop cs [] (a - 1) (ip_add + ip_int * pow256 a))
      else if length part < 4 then convertIp_loop cs (part @ [c]) a ip_add
      else Inl OutOfBounds)"

definition convertIpToInt :: "string \<Rightarrow> U32 res" where
  "convertIpToInt ip = convertIp_loop ip [] 3 0"

end
