(* ===== verification/RATD_Messages.thy ===== *)
theory RATD_Messages
  imports RATD_Codec
begin

text \<open>
  What the messages of the daemon keep: the numbers of an answer can be scanned back, every answer fits
  its buffer, the binary requests carry their fields in network order, and an address survives the
  way through text. Two decoders write behind their struct, and one search never finds anything.
\<close>

section \<open>Scanning what was printed\<close>

lemma print_d_chars: "c \<in> set (print_d w) \<Longrightarrow> isdigit c \<or> c = CHR ''-''"
proof -
  assume c: "c \<in> set (print_d w)"
  have "isdigit c" if "c \<in> set (show_nat n)" for n
    using show_nat_digits[OF that] digit_char_class by blast
  then show ?thesis using c by (auto simp: print_d_def show_int_def split: if_splits)
qed

lemma quote_print_d: "CHR 0x22 \<notin> set (print_d w)"
  using print_d_chars by (fastforce simp: isdigit_def)

lemma clamp_sint: "word_of_int (clamp 64 (sint w)) = (w :: U32)"
proof -
  have "- (2 ^ 31) \<le> sint w" "sint w < 2 ^ 31" using sint_greater_eq[of w] sint_less[of w] by simp_all
  then have "clamp 64 (sint w) = sint w" by (simp add: clamp_def)
  then show ?thesis by simp
qed

text \<open>A field is found where it stands, behind text without it.\<close>

lemma find_int_skip: "CHR 0x22 \<notin> set xs \<Longrightarrow> find_int name (xs @ rest) = find_int name rest"
proof -
  have "strstr (xs @ rest) (node name) = strstr rest (node name)" if "CHR 0x22 \<notin> set xs"
    using that by (induction xs) (auto simp: strstr_skip node_def)
  then show "CHR 0x22 \<notin> set xs \<Longrightarrow> ?thesis" by (simp add: find_int_def)
qed

lemma quoted_prefix:
  "CHR 0x22 \<notin> set a \<Longrightarrow> CHR 0x22 \<notin> set b \<Longrightarrow> prefix (a @ [CHR 0x22]) (b @ CHR 0x22 # rest) \<longleftrightarrow> a = b"
proof (induction a arbitrary: b)
  case Nil
  then show ?case by (cases b) auto
next
  case (Cons x a)
  then show ?case by (cases b) auto
qed

definition plain_name :: "string \<Rightarrow> bool" where
  "plain_name n \<longleftrightarrow> n \<noteq> [] \<and> CHR 0x22 \<notin> set n \<and> hd n \<noteq> CHR '':''"

lemma find_int_other:
  assumes "plain_name a" and "plain_name b" and "a \<noteq> b"
  shows "find_int a (RE_node b @ rest) = find_int a rest"
proof -
  have s: "strstr (RE_node b @ rest) (node a) = strstr (b @ CHR 0x22 # CHR '':'' # rest) (node a)"
    using quoted_prefix[of a b "CHR '':'' # rest"] assms by (simp add: RE_node_def node_def plain_name_def)
  have "strstr (b @ ys) (node a) = strstr ys (node a)" if "CHR 0x22 \<notin> set b" for ys
    using that by (induction b) (auto simp: strstr_skip node_def)
  then have "strstr (RE_node b @ rest) (node a) = strstr (CHR 0x22 # CHR '':'' # rest) (node a)"
    unfolding s using assms(2) by (simp add: plain_name_def)
  also have "\<dots> = strstr (CHR '':'' # rest) (node a)"
    using assms(1) by (cases a) (auto simp: node_def plain_name_def)
  also have "\<dots> = strstr rest (node a)" by (rule strstr_skip) (simp_all add: node_def)
  finally show ?thesis by (simp add: find_int_def)
qed

lemma find_int_here:
  assumes "\<not> starts_digit 10 rest"
  shows "find_int a (RE_node a @ print_d w @ rest) = Some w"
proof -
  have "strstr (RE_node a @ print_d w @ rest) (node a) = Some (RE_node a @ print_d w @ rest)"
    by (rule strstr_here) (simp add: RE_node_def)
  moreover have "scan_d (RE_node a) (RE_node a @ print_d w @ rest) = Some w"
    using strtol_show_int[OF assms, of "sint w"] by (simp add: scan_d_def print_d_def clamp_sint)
  ultimately show ?thesis by (simp add: find_int_def)
qed

lemma names_plain:
  "plain_name ''messageType''" "plain_name ''sessionid''" "plain_name ''netType''" "plain_name ''result''"
  "plain_name ''exceptionCode''" "plain_name ''statistics''"
  by (simp_all add: plain_name_def)

lemma not_digit_sep: "\<not> starts_digit 10 (CHR '','' # s)" "\<not> starts_digit 10 (CHR ''}'' # s)"
  by (simp_all add: starts_digit_def digit_val_def isdigit_def)

lemmas scan_back = find_int_skip find_int_other[OF names_plain(1)] find_int_other[OF names_plain(2)]
  find_int_other[OF names_plain(3)] find_int_other[OF names_plain(4)] find_int_other[OF names_plain(5)]
  find_int_here not_digit_sep names_plain quote_print_d

lemma skip_Cons: "c \<noteq> CHR 0x22 \<Longrightarrow> find_int name (c # rest) = find_int name rest"
  using find_int_skip[of "[c]"] by simp

lemma sprintf_Inr: "sprintf_into n s = Inr t \<Longrightarrow> t = s"
  by (simp add: sprintf_into_def split: if_splits)

lemma response_scan:
  assumes "encodeAppRspWithNetType mt sid nt r = Inr s"
  shows "find_int ''messageType'' s = Some mt \<and> find_int ''sessionid'' s = Some sid \<and>
     find_int ''netType'' s = Some nt \<and> find_int ''result'' s = Some r"
  using sprintf_Inr[OF assms[unfolded encodeAppRspWithNetType_def]]
  by (simp add: scan_back skip_Cons)

text \<open>
  The numbers of an answer can be read back: scanning an answer for its message type, session, network
  type and result with the daemon's own conversions gives the numbers it was made of.
\<close>

theorem response_scan_roundtrip:
  assumes "encodeAppRspWithNetType mt sid nt r = Inr s"
  shows "find_int ''messageType'' s = Some mt \<and> find_int ''sessionid'' s = Some sid \<and>
     find_int ''netType'' s = Some nt \<and> find_int ''result'' s = Some r"
  using assms by (rule response_scan)

section \<open>The answers fit their buffers\<close>

lemma length_print_d: "length (print_d w) \<le> 11"
proof -
  have "- (2 ^ 31) \<le> sint w" "sint w < 2 ^ 31" using sint_greater_eq[of w] sint_less[of w] by simp_all
  then have "length (show_int (sint w)) \<le> 10 + 1" by (intro length_show_int) simp_all
  then show ?thesis by (simp add: print_d_def)
qed

lemma length_show_u64: "length (show_nat (unat (w :: 64 word))) \<le> 20"
proof -
  have "unat w < 2 ^ 64" using unsigned_less[of w] by simp
  then show ?thesis by (intro length_show_nat) simp_all
qed

lemma answers_fit:
  "(\<exists>s. encodeAppRsp mt sid r = Inr s) \<and> (\<exists>s. encodeAppTypeAndSessionId mt sid = Inr s) \<and>
   (\<exists>s. encodeExceptionRsp mt ec nt = Inr s) \<and> (\<exists>s. encodeAppRspStatistics mt nt stat = Inr s) \<and>
   (\<exists>s. encodeAppRspWithNetType mt sid nt r = Inr s) \<and>
   (\<exists>s. encodeExceptionRsp (2 ^ 31) (2 ^ 31) (2 ^ 31) = Inr s \<and> length s + 1 = 80)"
proof -
  note l = length_print_d[of mt] length_print_d[of sid] length_print_d[of r] length_print_d[of ec] length_print_d[of nt]
    length_show_u64[of stat]
  have "print_d (2 ^ 31) = ''-2147483648''"
    by (simp add: print_d_def show_int_def show_nat.simps digit_char_def char_of_eq_iff)
  with l show ?thesis
    by (intro conjI) (simp_all add: encodeAppRsp_def encodeAppTypeAndSessionId_def encodeExceptionRsp_def
        encodeAppRspStatistics_def encodeAppRspWithNetType_def sprintf_into_def RE_node_def node_def)
qed

text \<open>
  No answer outgrows the buffer it is printed into, whatever its numbers: 80 or 100 bytes with the
  final NUL. The report of an exception can need all of its 80 bytes.
\<close>

theorem responses_fit:
  "(\<exists>s. encodeAppRsp mt sid r = Inr s) \<and> (\<exists>s. encodeAppTypeAndSessionId mt sid = Inr s) \<and>
   (\<exists>s. encodeExceptionRsp mt ec nt = Inr s) \<and> (\<exists>s. encodeAppRspStatistics mt nt stat = Inr s) \<and>
   (\<exists>s. encodeAppRspWithNetType mt sid nt r = Inr s) \<and>
   (\<exists>s. encodeExceptionRsp (2 ^ 31) (2 ^ 31) (2 ^ 31) = Inr s \<and> length s + 1 = 80)"
  by (rule answers_fit)

section \<open>Network byte order\<close>

lemma le32_le32_bytes: "le32 (le32_bytes x @ rest) = x"
proof (rule bit_word_eqI)
  fix n assume "n < LENGTH(32)"
  then consider "n < 8" | "8 \<le> n" "n < 16" | "16 \<le> n" "n < 24" | "24 \<le> n" "n < 32" by fastforce
  then show "bit (le32 (le32_bytes x @ rest)) n = bit x n"
    by cases (auto simp: le32_def le32_bytes_def bit_simps)
qed

lemma le32_bytes_le32: "length b = 4 \<Longrightarrow> le32_bytes (le32 b) = b"
proof -
  assume "length b = 4"
  then obtain p q r s where b: "b = [p, q, r, s]" by (auto simp: length_Suc_conv numeral_eq_Suc)
  have "ucast (le32 b) = p" "ucast (drop_bit 8 (le32 b)) = q" "ucast (drop_bit 16 (le32 b)) = r" "ucast (drop_bit 24 (le32 b)) = s"
    by (rule bit_word_eqI; auto simp: le32_def b bit_simps dest: bit_imp_le_length)+
  then show ?thesis by (simp add: le32_bytes_def b)
qed

lemma length_le32_bytes [simp]: "length (le32_bytes x) = 4"
  by (simp add: le32_bytes_def)

lemma htonl_htonl [byte_simps]: "htonl (htonl x) = x"
  using le32_le32_bytes[of x "[]"] by (simp add: htonl_def le32_bytes_le32)

lemma htonl_inj: "htonl x = htonl y \<longleftrightarrow> x = y"
  by (metis htonl_htonl)

subsection \<open>Fields of a request\<close>

lemma put_at: "off + length bs \<le> length b \<Longrightarrow> take (length bs) (drop off (put off bs b)) = bs"
  by (simp add: put_def)

lemma put_before: "off' + n \<le> off \<Longrightarrow> off \<le> length b \<Longrightarrow> take n (drop off' (put off bs b)) = take n (drop off' b)"
  by (simp add: put_def min_def take_drop)

lemma length_put: "off + length bs \<le> length b \<Longrightarrow> length (put off bs b) = length b"
  by (simp add: put_def)

lemma put_at_le32: "off + 4 \<le> length b \<Longrightarrow> take 4 (drop off (put off (le32_bytes x) b)) = le32_bytes x"
  using put_at[of off "le32_bytes x" b] by simp

lemma put_end: "off + length bs = length b \<Longrightarrow> drop off (put off bs b) = bs"
  by (simp add: put_def)

lemma put_at_byte: "off < length b \<Longrightarrow> take (Suc 0) (drop off (put off [x] b)) = [x]"
  using put_at[of off "[x]" b] by simp

lemma length_zero_buffer [simp]: "length (zero_buffer n) = unat n"
  by (simp add: zero_buffer_def)

lemma base_at:
  assumes "8 \<le> length b"
  shows "take 4 (put_base r b) = le32_bytes (messageType r)" "take 4 (drop 4 (put_base r b)) = le32_bytes (sessionId r)"
    "length (put_base r b) = length b"
  using assms by (simp_all add: put_base_def put_def)

text \<open>What a receiver finds in the sixteen bytes of a header: type, session, length and user.\<close>

definition header_of :: "U8 list \<Rightarrow> U32 \<times> U32 \<times> U32 \<times> U32" where
  "header_of b = (htonl (le32 (take 4 b)), htonl (le32 (take 4 (drop 4 b))), htonl (le32 (take 4 (drop 8 b))),
     htonl (le32 (take 4 (drop 12 b))))"

lemma le32_bytes_back: "le32 (le32_bytes x) = x"
  using le32_le32_bytes[of x "[]"] by simp

definition put_header :: "U32 \<Rightarrow> U32 \<Rightarrow> 'a r_base_scheme \<Rightarrow> U8 list" where
  "put_header n u r = put 12 (le32_bytes (htonl u)) (put 8 (le32_bytes (htonl n)) (put_base r (zero_buffer n)))"

lemma header_of_take: "16 \<le> k \<Longrightarrow> header_of (take k b) = header_of b"
  by (simp add: header_of_def drop_take)

lemma put_header_ok:
  assumes "16 \<le> unat n"
  shows "header_of (put_header n u r) = (htonl (messageType r), htonl (sessionId r), n, u)" "length (put_header n u r) = unat n"
proof -
  have l: "length (put_base r (zero_buffer n)) = unat n" using assms by (simp add: base_at)
  then show "length (put_header n u r) = unat n" using assms by (simp add: put_header_def length_put)
  have "take 4 (put_header n u r) = le32_bytes (messageType r)"
    using assms l put_before[of 0 4 12] put_before[of 0 4 8] by (simp add: put_header_def length_put base_at)
  moreover have "take 4 (drop 4 (put_header n u r)) = le32_bytes (sessionId r)"
    using assms l put_before[of 4 4 12] put_before[of 4 4 8] by (simp add: put_header_def length_put base_at)
  moreover have "take 4 (drop 8 (put_header n u r)) = le32_bytes (htonl n)"
    using assms l put_before[of 8 4 12] put_at[of 8 "le32_bytes (htonl n)"] by (simp add: put_header_def length_put)
  moreover have "take 4 (drop 12 (put_header n u r)) = le32_bytes (htonl u)"
    using assms l put_at[of 12 "le32_bytes (htonl u)"] by (simp add: put_header_def length_put)
  ultimately show "header_of (put_header n u r) = (htonl (messageType r), htonl (sessionId r), n, u)"
    by (simp add: header_of_def le32_bytes_back byte_simps)
qed

lemma header_put: "16 \<le> off \<Longrightarrow> off \<le> length b \<Longrightarrow> header_of (put off bs b) = header_of b"
  using header_of_take[of 16 "put off bs b"] header_of_take[of 16 b] put_before[of 0 16 off b bs] by simp

lemma swap_base_fields:
  "messageType (swap_base r) = htonl (messageType r)" "sessionId (swap_base r) = htonl (sessionId r)"
  by (simp_all add: swap_base_def)

lemma swap_base_more:
  "add_token (swap_base a) = add_token a" "add_netType (swap_base a) = add_netType a" "add_band (swap_base a) = add_band a"
  "del_token (swap_base d) = del_token d" "del_numberType (swap_base d) = del_numberType d"
  "del_deleteCause (swap_base d) = del_deleteCause d"
  by (simp_all add: swap_base_def)

lemmas LEN_defs = LEN_TYPE_ADD_SUBFLOW_REQ_def LEN_TYPE_TRY_SUBFLOW_REQ_def LEN_TYPE_DEL_SUBFLOW_REQ_def
  LEN_TYPE_RELEASE_MP_REQ_def LEN_TYPE_SYNC_MP_INIT_REQ_def

lemma request_lengths:
  "unat LEN_TYPE_ADD_SUBFLOW_REQ = 25" "unat LEN_TYPE_TRY_SUBFLOW_REQ = 22" "unat LEN_TYPE_DEL_SUBFLOW_REQ = 22"
  "unat LEN_TYPE_RELEASE_MP_REQ = 22" "unat LEN_TYPE_SYNC_MP_INIT_REQ = 17"
  by (simp_all add: LEN_defs)

lemmas request_simps = put_header_def[symmetric] header_put put_header_ok length_put put_at_le32 put_at_byte put_end put_before swap_base_fields swap_base_more
  request_lengths byte_simps le32_bytes_back

text \<open>
  In every request to the gateway the header holds, in network order, the type and session of the
  command, the length of the request itself and the user's number; the other fields stand behind it:
  token, network type and band of an added subflow, the time stamp of a probe, token, subflow and
  cause of a removal.
\<close>

theorem request_layout:
  "header_of (fst (encodeAddRequest u a)) = (messageType a, sessionId a, of_nat (length (fst (encodeAddRequest u a))), u) \<and>
   htonl (le32 (take 4 (drop 16 (fst (encodeAddRequest u a))))) = add_token a \<and>
   take 1 (drop 20 (fst (encodeAddRequest u a))) = [ucast (add_netType a)] \<and>
   htonl (le32 (take 4 (drop 21 (fst (encodeAddRequest u a))))) = add_band a \<and>
   header_of (fst (encodeTryRequest u ts ttl t)) =
     (messageType t, sessionId t, of_nat (length (fst (encodeTryRequest u ts ttl t))), u) \<and>
   htonl (le32 (take 4 (drop 16 (fst (encodeTryRequest u ts ttl t))))) = ts \<and>
   header_of (fst (encodeDelRequest u d)) = (messageType d, sessionId d, of_nat (length (fst (encodeDelRequest u d))), u) \<and>
   htonl (le32 (take 4 (drop 16 (fst (encodeDelRequest u d))))) = del_token d \<and>
   take 2 (drop 20 (fst (encodeDelRequest u d))) = [del_numberType d, del_deleteCause d] \<and>
   fst (encodeMPReleaseRequest u d) = fst (encodeDelRequest u d) \<and>
   header_of (fst (encodeMPSyncInitRequest u i)) =
     (messageType i, sessionId i, of_nat (length (fst (encodeMPSyncInitRequest u i))), u)"
proof -
  have d2: "drop 20 (put 21 [y] (put 20 [x] b)) = [x, y]" if "length b = 22" for x y b
    using that by (simp add: put_def numeral_2_eq_2)
  show ?thesis
    unfolding encodeAddRequest_def encodeTryRequest_def encodeDelRequest_def encodeMPReleaseRequest_def
      encodeMPSyncInitRequest_def Let_def fst_conv
    by (intro conjI; simp add: request_simps d2 le16_bytes_def; simp add: LEN_defs)
qed

section \<open>Addresses\<close>

lemma octets:
  "drop_bit 24 (v AND 0xff000000) = ucast (ucast (drop_bit 24 v) :: U8)"
  "drop_bit 16 (v AND 0x00ff0000) = ucast (ucast (drop_bit 16 v) :: U8)"
  "drop_bit 8 (v AND 0x0000ff00) = ucast (ucast (drop_bit 8 v) :: U8)"
  "v AND 0x000000ff = ucast (ucast v :: U8)" for v :: U32
proof -
  have m: "(0xff000000 :: U32) = push_bit 24 (mask 8)" "(0x00ff0000 :: U32) = push_bit 16 (mask 8)"
    "(0x0000ff00 :: U32) = push_bit 8 (mask 8)" "(0x000000ff :: U32) = mask 8"
    by (simp_all add: mask_eq_exp_minus_1 push_bit_eq_mult)
  show "drop_bit 24 (v AND 0xff000000) = ucast (ucast (drop_bit 24 v) :: U8)"
    "drop_bit 16 (v AND 0x00ff0000) = ucast (ucast (drop_bit 16 v) :: U8)"
    "drop_bit 8 (v AND 0x0000ff00) = ucast (ucast (drop_bit 8 v) :: U8)"
    "v AND 0x000000ff = ucast (ucast v :: U8)"
    unfolding m by (rule bit_word_eqI; auto simp: bit_simps)+
qed

text \<open>The text of an address of four octets.\<close>

definition dotted :: "U8 list \<Rightarrow> string" where
  "dotted b = show_nat (unat (b ! 0)) @ ''.'' @ show_nat (unat (b ! 1)) @ ''.'' @ show_nat (unat (b ! 2)) @ ''.'' @
     show_nat (unat (b ! 3))"

lemma octet_less: "unat (w :: U8) < 256"
  using unsigned_less[of w] by simp

lemma unat_octet: "unat (ucast (w :: U8) :: U32) = unat w"
  using octet_less[of w] by (simp add: unsigned_ucast_eq take_bit_nat_eq_self)

lemma show_ip_dotted: "show_ip v = dotted (be32_bytes v)"
  unfolding show_ip_def octets dotted_def be32_bytes_def unat_octet by (simp only: nth_Cons_0 nth_Cons_Suc numeral_nat One_nat_def)

lemma length_show_octet: "length (show_nat (unat (w :: U8))) \<le> 3"
  using octet_less[of w] by (intro length_show_nat) simp_all

lemma dot_show_nat: "CHR ''.'' \<notin> set (show_nat n)"
proof
  assume "CHR ''.'' \<in> set (show_nat n)"
  then have "isdigit (CHR ''.'')" using show_nat_digits digit_char_class by metis
  then show False by (simp add: isdigit_def)
qed

lemma convertIp_part:
  assumes "CHR ''.'' \<notin> set xs" and "length (part @ xs) \<le> 4"
  shows "convertIp_loop (xs @ ys) part a ip_add = convertIp_loop ys (part @ xs) a ip_add"
  using assms by (induction xs arbitrary: part) auto

lemma clamp_small: "n < 256 \<Longrightarrow> clamp 32 (int n) = int n"
  by (simp add: clamp_def)

lemma ip_part_octet: "ip_part (show_nat (unat (w :: U8))) = Inr (ucast w)"
proof -
  have "show_nat (unat w) = show_int (int (unat w)) @ []" by (simp add: show_int_def)
  moreover have "strtol 10 (show_int (int (unat w)) @ []) = Some (int (unat w), [])"
    by (rule strtol_show_int) (simp add: starts_digit_def)
  moreover have "clamp 32 (int (unat w)) = int (unat w)"
    by (rule clamp_small[OF octet_less])
  ultimately have a: "atoi (show_nat (unat w)) = int (unat w)" by (simp only: atoi_def append_Nil2 option.case prod.case)
  have "word_of_int (int (unat w)) = (ucast w :: U32)" by simp
  moreover have "length (show_nat (unat w)) < 4" using length_show_octet[of w] by linarith
  ultimately show ?thesis by (simp only: ip_part_def a if_True)
qed

lemma octet_le: "\<not> ucast (w :: U8) > (255 :: U32)"
  using octet_less[of w] by (simp add: word_less_nat_alt unat_octet)

lemma convertIp_octet:
  "convertIp_loop (show_nat (unat (w :: U8)) @ CHR ''.'' # ys) [] a ip = convertIp_loop ys [] (a - 1) (ip + ucast w * pow256 a)"
  "convertIp_loop (show_nat (unat w)) [] a ip = Inr (ip + ucast w * pow256 a)"
  using convertIp_part[OF dot_show_nat[of "unat w"], of "[]" "CHR ''.'' # ys" a ip] length_show_octet[of w]
    convertIp_part[OF dot_show_nat[of "unat w"], of "[]" "[]" a ip] octet_le[of w]
  by (simp_all add: ip_part_octet)

lemma octets_sum:
  "ucast (ucast (drop_bit 24 v) :: U8) * pow256 3 + ucast (ucast (drop_bit 16 v) :: U8) * pow256 2 +
   ucast (ucast (drop_bit 8 v) :: U8) * pow256 1 + ucast (ucast v :: U8) * pow256 0 = (v :: U32)"
proof -
  have p: "pow256 3 = 2 ^ 24" "pow256 2 = 2 ^ 16" "pow256 1 = 2 ^ 8" "pow256 0 = 1" by (simp_all add: pow256_def)
  let ?a = "push_bit 24 (ucast (ucast (drop_bit 24 v) :: U8) :: U32)" and ?b = "push_bit 16 (ucast (ucast (drop_bit 16 v) :: U8) :: U32)"
    and ?c = "push_bit 8 (ucast (ucast (drop_bit 8 v) :: U8) :: U32)" and ?d = "ucast (ucast v :: U8) :: U32"
  have 1: "?a + ?b = ?a OR ?b" by (rule disjunctive_add) (auto simp: bit_simps)
  have 2: "(?a OR ?b) + ?c = ?a OR ?b OR ?c" by (subst disjunctive_add) (auto simp: bit_simps or.assoc)
  have 3: "(?a OR ?b OR ?c) + ?d = ?a OR ?b OR ?c OR ?d" by (subst disjunctive_add) (auto simp: bit_simps or.assoc)
  have "?a OR ?b OR ?c OR ?d = v"
  proof (rule bit_word_eqI)
    fix n assume "n < LENGTH(32)"
    then consider "n < 8" | "8 \<le> n" "n < 16" | "16 \<le> n" "n < 24" | "24 \<le> n" "n < 32" by fastforce
    then show "bit (?a OR ?b OR ?c OR ?d) n = bit v n" by cases (auto simp: bit_simps)
  qed
  then show ?thesis using 1 2 3 unfolding p push_bit_eq_mult by (simp add: mult.commute)
qed

lemma convertIp_dotted: "convertIpToInt (dotted (be32_bytes v)) = Inr v"
  using octets_sum[of v]
  by (simp add: convertIpToInt_def dotted_def be32_bytes_def convertIp_octet del: convertIp_loop.simps)

lemma length_dotted: "length (dotted b) \<le> 15"
  using length_show_octet[of "b ! 0"] length_show_octet[of "b ! 1"] length_show_octet[of "b ! 2"] length_show_octet[of "b ! 3"]
  by (simp add: dotted_def)

text \<open>
  The answer that accepts a subflow carries the tunnel's address. It is kept as text in a buffer that
  it always fits, and turning the text back into a number gives the address of the message.
\<close>

theorem add_response_address:
  assumes "length b = 17" and "mag_messageType (mag_header b) = MESSAGE_TYPE_ADD_SUBFLOW_RSP" and "mag_result (mag_header b) = 0"
  shows "\<exists>st'. decodeMagCommandBuffer b netType now st = Inr (Some (mag_header b), st') \<and> RTTC st' = RTTC st \<and>
     convertIpToInt (localIp st') = Inr (htonl (le32 (take 4 (drop 13 b))))"
proof -
  let ?v = "htonl (le32 (take 4 (drop 13 b)))"
  have "sprintf_into 16 (show_ip ?v) = Inr (dotted (be32_bytes ?v))"
    using length_dotted[of "be32_bytes ?v"] by (simp add: sprintf_into_def show_ip_dotted)
  then show ?thesis
    using assms by (simp add: decodeMagCommandBuffer_def Let_def convertIp_dotted)
qed

text \<open>
  A message of the gateway that does not have one of the two lengths is refused and changes nothing; a
  message of 13 bytes, which has no room for a value, changes nothing either.
\<close>

theorem mag_message_lengths:
  "(length b \<noteq> 13 \<and> length b \<noteq> 17 \<longrightarrow> decodeMagCommandBuffer b netType now st = Inr (None, st)) \<and>
   (length b = 13 \<longrightarrow> decodeMagCommandBuffer b netType now st = Inr (Some (mag_header b), st))"
  by (simp add: decodeMagCommandBuffer_def Let_def)

text \<open>
  A part of an address with four or more characters before the next dot runs over the array it is
  collected in.
\<close>

theorem convertIp_overrun:
  assumes "4 \<le> length part" and "CHR ''.'' \<notin> set part"
  shows "convertIpToInt (part @ CHR ''.'' # rest) = Inl OutOfBounds"
proof -
  have p: "part @ CHR ''.'' # rest = take 4 part @ drop 4 part @ CHR ''.'' # rest" by simp
  have d: "CHR ''.'' \<notin> set (take 4 part)" using assms(2) by (meson in_set_takeD)
  have "convertIpToInt (part @ CHR ''.'' # rest) = convertIp_loop (drop 4 part @ CHR ''.'' # rest) (take 4 part) 3 0"
    unfolding convertIpToInt_def using convertIp_part[OF d, of "[]" "drop 4 part @ CHR ''.'' # rest"] by (subst p) simp
  also have "\<dots> = Inl OutOfBounds"
    using assms by (cases "drop 4 part") (auto simp: ip_part_def dest: in_set_dropD[of _ 4 part])
  finally show ?thesis .
qed

section \<open>Decoders that write too far\<close>

text \<open>
  A removal command with the fields the daemon looks for makes it write past its struct: \<^verbatim>\<open>%d\<close> stores four
  bytes at the one-byte field \<^verbatim>\<open>numberType\<close>, two of them behind the fourteen bytes of the struct. The
  command that releases the connection has the same fault.
\<close>

theorem removal_overruns:
  assumes "find_int ''sessionid'' buffer = Some sid" and "find_int ''numberType'' buffer = Some nt"
    and "find_int ''messageType'' buffer = Some mt"
    and "mt = MESSAGE_TYPE_DEL_SUBFLOW_REQ \<or> mt = MESSAGE_TYPE_RELEASE_MP_REQ"
  shows "decodeAppCommandBufferNew fresh buffer = Inl OutOfBounds"
  using assms by (auto simp: decodeAppCommandBufferNew_def decodeAppDelSubFlowReq_def decodeAppReleaseMpReq_def
      store_d_byte_def offset_numberType_def sizeof_r_app_del_def command_def)

text \<open>
  The case-insensitive search never finds anything, since its test assigns zero to the length it
  compares.
\<close>

theorem strstri_finds_nothing: "strstri str sub = None"
  unfolding strstri_def Let_def by (induction str) auto

section \<open>Instances\<close>

theorem response_scan_roundtrip_witness:
  "\<exists>s. encodeAppRspWithNetType 2 7 4 RESULT_FAILED = Inr s \<and> find_int ''sessionid'' s = Some 7 \<and>
     find_int ''result'' s = Some RESULT_FAILED"
proof -
  obtain s where "encodeAppRspWithNetType 2 7 4 RESULT_FAILED = Inr s"
    using length_print_d[of 2] length_print_d[of 7] length_print_d[of 4] length_print_d[of RESULT_FAILED]
    by (simp add: encodeAppRspWithNetType_def sprintf_into_def RE_node_def node_def)
  then show ?thesis using response_scan_roundtrip by blast
qed

text \<open>The answer that accepts a subflow, with the address 10.0.0.1.\<close>

definition add_answer :: "U8 list" where
  "add_answer = be32_bytes 2 @ be32_bytes 7 @ be32_bytes 17 @ [0] @ [10, 0, 0, 1]"

lemma add_answer_header:
  "mag_messageType (mag_header add_answer) = 2" "mag_result (mag_header add_answer) = 0" "length add_answer = 17"
  by (simp_all add: mag_header_def add_answer_def be32_bytes_def htonl_def le32_def le32_bytes_def)

theorem add_response_address_witness:
  "\<exists>st'. decodeMagCommandBuffer add_answer 4 0 \<lparr>localIp = [], RTTC = (\<lambda>_. 0)\<rparr> = Inr (Some (mag_header add_answer), st') \<and>
     convertIpToInt (localIp st') = Inr 0x0A000001"
  using add_response_address[OF add_answer_header(3,1,2), of 4 0 "\<lparr>localIp = [], RTTC = (\<lambda>_. 0)\<rparr>"]
  by (auto simp: add_answer_def be32_bytes_def htonl_def le32_def le32_bytes_def)

theorem mag_message_lengths_witness:
  "decodeMagCommandBuffer [1, 2, 3] 0 5 st = Inr (None, st) \<and>
   decodeMagCommandBuffer (replicate 13 0) 0 5 st = Inr (Some (mag_header (replicate 13 0)), st)"
  using mag_message_lengths[of "[1, 2, 3]" 0 5 st] mag_message_lengths[of "replicate 13 0" 0 5 st] by simp

theorem convertIp_overrun_witness: "convertIpToInt ''1234.5.6.7'' = Inl OutOfBounds"
  using convertIp_overrun[of "''1234''" "''5.6.7''"] by simp

text \<open>A removal command.\<close>

definition removal_command :: string where
  "removal_command = RE_node ''messageType'' @ print_d 5 @ '','' @ RE_node ''sessionid'' @ print_d 7 @ '','' @
     RE_node ''numberType'' @ print_d 1 @ ''}''"

lemma removal_command_fields:
  "find_int ''messageType'' removal_command = Some 5" "find_int ''sessionid'' removal_command = Some 7"
  "find_int ''numberType'' removal_command = Some 1"
proof -
  have "plain_name ''numberType''" by (simp add: plain_name_def)
  then show "find_int ''messageType'' removal_command = Some 5" "find_int ''sessionid'' removal_command = Some 7"
    "find_int ''numberType'' removal_command = Some 1"
    by (simp_all add: removal_command_def scan_back skip_Cons find_int_other)
qed

theorem removal_overruns_witness: "\<forall>fresh. decodeAppCommandBufferNew fresh removal_command = Inl OutOfBounds"
  using removal_overruns[OF removal_command_fields(2,3,1)] by simp

end
