(* ===== verification/RATD_Record.thy ===== *)
theory RATD_Record
  imports MPD_Prelude
begin

text \<open>
  The record stream of the daemon (\<^verbatim>\<open>record_stream.c\<close>), as it is compiled: with \<^verbatim>\<open>test\<close> defined
  a record is whatever one \<^verbatim>\<open>read\<close> delivers. Pointers into the buffer are offsets.
\<close>

section \<open>The stream\<close>

abbreviation HEADER_SIZE :: nat where "HEADER_SIZE \<equiv> 1"

record RecordStream =
  maxRecordLen :: nat
  rs_buffer :: "U8 list"
  unconsumed :: nat
  read_end :: nat

definition buffer_end :: "RecordStream \<Rightarrow> nat" where
  "buffer_end rs = maxRecordLen rs + HEADER_SIZE"

definition record_stream_new :: "nat \<Rightarrow> RecordStream res" where
  "record_stream_new n =
     (if n \<le> 0xffff
      then Inr \<lparr>maxRecordLen = n, rs_buffer = replicate (n + HEADER_SIZE) 0, unconsumed = 0, read_end = 0\<rparr>
      else Inl AssertFail)"

definition getEndOfRecord :: "nat \<Rightarrow> nat \<Rightarrow> nat option" where
  "getEndOfRecord p_begin p_end =
     (if p_end < p_begin + HEADER_SIZE then None
      else let p_ret = p_end in if p_end < p_ret then None else Some p_ret)"

text \<open>A record is its offset and its length.\<close>

definition getNextRecord :: "RecordStream \<Rightarrow> (nat \<times> nat) option \<times> RecordStream" where
  "getNextRecord rs =
     (case getEndOfRecord (unconsumed rs) (read_end rs) of
        None \<Rightarrow> (None, rs)
      | Some record_end \<Rightarrow> (Some (unconsumed rs, record_end - unconsumed rs), rs\<lparr>unconsumed := record_end\<rparr>))"

definition move_down :: "RecordStream \<Rightarrow> RecordStream" where
  "move_down rs =
     (if unconsumed rs \<noteq> 0
      then let toMove = read_end rs - unconsumed rs;
               rest = take toMove (drop (unconsumed rs) (rs_buffer rs))
           in rs\<lparr>rs_buffer := rest @ drop toMove (rs_buffer rs), read_end := toMove, unconsumed := 0\<rparr>
      else rs)"

text \<open>
  \<open>rd n\<close> is the answer of \<^verbatim>\<open>read\<close> for up to \<open>n\<close> bytes: \<open>None\<close> for an error, no bytes at the end of
  the stream. The result: the return value, the record if there is one, and the stream.
\<close>

definition record_stream_get_next ::
  "(nat \<Rightarrow> U8 list option) \<Rightarrow> RecordStream \<Rightarrow> (int \<times> (nat \<times> nat) option \<times> RecordStream) res" where
  "record_stream_get_next rd rs =
     (case getNextRecord rs of
        (Some r, rs) \<Rightarrow> Inr (0, Some r, rs)
      | (None, rs) \<Rightarrow>
          if unconsumed rs = 0 \<and> read_end rs = buffer_end rs then Inl AssertFail
          else
            let rs = move_down rs
            in case rd (buffer_end rs - read_end rs) of
                 None \<Rightarrow> Inr (- 1, None, rs)
               | Some bs \<Rightarrow>
                   if bs = [] then Inr (0, None, rs)
                   else
                     let rs = rs\<lparr>rs_buffer := take (read_end rs) (rs_buffer rs) @ bs @ drop (read_end rs + length bs) (rs_buffer rs),
                                 read_end := read_end rs + length bs\<rparr>
                     in case getNextRecord rs of
                          (None, rs) \<Rightarrow> Inr (- 1, None, rs)
                        | (Some r, rs) \<Rightarrow> Inr (0, Some r, rs))"

text \<open>
  The loop of a reader (\<^verbatim>\<open>processAppCommandsCallback\<close>, \<^verbatim>\<open>commandDataRecvCallback\<close>): it takes records
  until the end of the stream or an error, handling each and clearing the buffer after it. The list
  holds the answers of the reads; its end is a read that has not answered yet.
\<close>

datatype stop = EndOfStream | ReadError | Waiting

definition record_bytes :: "RecordStream \<Rightarrow> nat \<times> nat \<Rightarrow> U8 list" where
  "record_bytes rs r = take (snd r) (drop (fst r) (rs_buffer rs))"

definition clear_buffer :: "RecordStream \<Rightarrow> RecordStream" where
  "clear_buffer rs = rs\<lparr>rs_buffer := replicate (maxRecordLen rs + HEADER_SIZE) 0\<rparr>"

fun reader_loop :: "RecordStream \<Rightarrow> (nat \<Rightarrow> U8 list option) list \<Rightarrow> (U8 list list \<times> stop \<times> RecordStream) res" where
  "reader_loop rs [] = Inr ([], Waiting, rs)"
| "reader_loop rs (rd # rds) =
     bindR (record_stream_get_next rd rs) (\<lambda>(ret, r, rs).
       case r of
         None \<Rightarrow> Inr ([], if ret = 0 then EndOfStream else ReadError, rs)
       | Some r \<Rightarrow>
           bindR (reader_loop (clear_buffer rs) rds) (\<lambda>(records, why, rs').
             Inr (record_bytes rs r # records, why, rs')))"

section \<open>Every read is one record\<close>

text \<open>Between two calls everything that was read has been consumed.\<close>

definition rs_inv :: "RecordStream \<Rightarrow> bool" where
  "rs_inv rs \<longleftrightarrow> length (rs_buffer rs) = buffer_end rs \<and> unconsumed rs = read_end rs \<and> read_end rs \<le> buffer_end rs"

lemma new_inv: "n \<le> 0xffff \<Longrightarrow> \<exists>rs. record_stream_new n = Inr rs \<and> rs_inv rs \<and> maxRecordLen rs = n"
  by (simp add: record_stream_new_def rs_inv_def buffer_end_def)

lemma move_down_empty:
  assumes "rs_inv rs"
  shows "rs_inv (move_down rs)" "read_end (move_down rs) = 0" "maxRecordLen (move_down rs) = maxRecordLen rs"
  using assms by (auto simp: rs_inv_def move_down_def Let_def buffer_end_def)

lemma clear_inv: "rs_inv rs \<Longrightarrow> rs_inv (clear_buffer rs)" "maxRecordLen (clear_buffer rs) = maxRecordLen rs"
  by (simp_all add: rs_inv_def clear_buffer_def buffer_end_def)

lemma get_next_nothing: "rs_inv rs \<Longrightarrow> getNextRecord rs = (None, rs)"
  by (simp add: getNextRecord_def getEndOfRecord_def rs_inv_def)

lemma not_full: "rs_inv rs \<Longrightarrow> \<not> (unconsumed rs = 0 \<and> read_end rs = buffer_end rs)"
  by (auto simp: rs_inv_def buffer_end_def)

lemma get_next_record:
  assumes "rs_inv rs" and "rd (maxRecordLen rs + HEADER_SIZE) = Some bs" and "bs \<noteq> []"
    and "length bs \<le> maxRecordLen rs + HEADER_SIZE"
  shows "\<exists>rs' r. record_stream_get_next rd rs = Inr (0, Some r, rs') \<and> record_bytes rs' r = bs \<and>
     rs_inv rs' \<and> maxRecordLen rs' = maxRecordLen rs"
proof -
  let ?m = "move_down rs"
  note m = move_down_empty[OF assms(1)]
  have um: "unconsumed ?m = 0" using m(1,2) by (simp add: rs_inv_def)
  have be: "buffer_end ?m = maxRecordLen rs + HEADER_SIZE" using m(3) by (simp add: buffer_end_def)
  let ?n = "?m\<lparr>rs_buffer := bs @ drop (length bs) (rs_buffer ?m), read_end := length bs\<rparr>"
  have g: "getNextRecord ?n = (Some (0, length bs), ?n\<lparr>unconsumed := length bs\<rparr>)"
    using assms(3) um by (simp add: getNextRecord_def getEndOfRecord_def Let_def Suc_le_eq not_less)
  have "record_stream_get_next rd rs = Inr (0, Some (0, length bs), ?n\<lparr>unconsumed := length bs\<rparr>)"
    using assms(2,3) not_full[OF assms(1)] g m(2) be
    by (simp add: record_stream_get_next_def get_next_nothing[OF assms(1)] Let_def)
  moreover have "rs_inv (?n\<lparr>unconsumed := length bs\<rparr>)"
    using m assms(4) by (simp add: rs_inv_def buffer_end_def)
  ultimately show ?thesis using m(3) by (intro exI conjI) (assumption, auto simp: record_bytes_def)
qed

lemma get_next_stop:
  assumes "rs_inv rs"
  shows "rd (maxRecordLen rs + HEADER_SIZE) = Some [] \<Longrightarrow> \<exists>rs'. record_stream_get_next rd rs = Inr (0, None, rs')"
    and "rd (maxRecordLen rs + HEADER_SIZE) = None \<Longrightarrow> \<exists>rs'. record_stream_get_next rd rs = Inr (- 1, None, rs')"
  using move_down_empty[OF assms] not_full[OF assms]
  by (simp_all add: record_stream_get_next_def get_next_nothing[OF assms] Let_def buffer_end_def)

text \<open>
  The records of a stream are exactly what its reads deliver, one record for each read, in order and
  with their bytes, until the stream ends or a read fails; the buffer never fills up, so that the
  assertion on a full buffer holds, whatever the sizes of the reads.
\<close>

theorem records_are_reads:
  assumes "record_stream_new n = Inr rs" and "\<forall>bs\<in>set chunks. bs \<noteq> [] \<and> length bs \<le> n + HEADER_SIZE"
    and "reads = map (\<lambda>bs _. Some bs) chunks @ [\<lambda>_. last_read]" and "last_read = None \<or> last_read = Some []"
  shows "\<exists>rs'. reader_loop rs reads = Inr (chunks, if last_read = None then ReadError else EndOfStream, rs')"
proof -
  have inv: "rs_inv rs" "maxRecordLen rs = n"
    using assms(1) by (auto simp: record_stream_new_def rs_inv_def buffer_end_def split: if_splits)
  have "\<exists>rs'. reader_loop rs (map (\<lambda>bs _. Some bs) chunks @ [\<lambda>_. last_read]) =
      Inr (chunks, if last_read = None then ReadError else EndOfStream, rs')"
    using assms(2) inv
  proof (induction chunks arbitrary: rs)
    case Nil
    then show ?case using assms(4) get_next_stop[OF Nil(2), of "\<lambda>_. last_read"] by auto
  next
    case (Cons c cs)
    from get_next_record[OF Cons.prems(2), of "\<lambda>_. Some c" c] Cons.prems obtain rs' r where
      r: "record_stream_get_next (\<lambda>_. Some c) rs = Inr (0, Some r, rs')" "record_bytes rs' r = c" "rs_inv rs'" "maxRecordLen rs' = n"
      by auto
    obtain rs'' where "reader_loop (clear_buffer rs') (map (\<lambda>bs _. Some bs) cs @ [\<lambda>_. last_read]) =
        Inr (cs, if last_read = None then ReadError else EndOfStream, rs'')"
      using Cons.IH[of "clear_buffer rs'"] Cons.prems(1) clear_inv(1)[OF r(3)] clear_inv(2)[of rs'] r(4) by auto
    then show ?case using r(1,2) by simp
  qed
  then show ?thesis by (simp add: assms(3))
qed

theorem records_are_reads_witness:
  "\<exists>rs rs'. record_stream_new 4096 = Inr rs \<and>
     reader_loop rs [\<lambda>_. Some [1, 2], \<lambda>_. Some [3], \<lambda>_. Some []] = Inr ([[1, 2], [3]], EndOfStream, rs')"
proof -
  obtain rs where rs: "record_stream_new 4096 = Inr rs" by (simp add: record_stream_new_def)
  from records_are_reads[OF rs, of "[[1, 2], [3]]" _ "Some []"] rs show ?thesis by simp
qed

end
