(* ===== verification/RATD_Event.thy ===== *)
theory RATD_Event
  imports MPD_Prelude
begin

text \<open>
  The event loop of the daemon (\<^verbatim>\<open>mcwill_event.c\<close>): a table of watched descriptors, and two circular
  doubly linked lists with sentinels, the armed timers and the pending events. The events are
  objects in a store; the lists are read as lists of addresses.
\<close>

section \<open>Points in time\<close>

text \<open>\<^verbatim>\<open>timercmp\<close> orders by seconds, then by microseconds.\<close>

datatype timeval = Timeval (tv_sec: int) (tv_usec: int)

instantiation timeval :: linorder
begin

definition less_timeval :: "timeval \<Rightarrow> timeval \<Rightarrow> bool" where
  "less_timeval a b \<longleftrightarrow> (if tv_sec a = tv_sec b then tv_usec a < tv_usec b else tv_sec a < tv_sec b)"

definition less_eq_timeval :: "timeval \<Rightarrow> timeval \<Rightarrow> bool" where
  "less_eq_timeval a b \<longleftrightarrow> (if tv_sec a = tv_sec b then tv_usec a \<le> tv_usec b else tv_sec a < tv_sec b)"

instance
  by standard (auto simp: less_timeval_def less_eq_timeval_def timeval.expand split: if_splits)

end

definition timeradd :: "timeval \<Rightarrow> timeval \<Rightarrow> timeval" where
  "timeradd a b =
     (let sec = tv_sec a + tv_sec b; usec = tv_usec a + tv_usec b
      in if usec \<ge> 1000000 then Timeval (sec + 1) (usec - 1000000) else Timeval sec usec)"

definition timersub :: "timeval \<Rightarrow> timeval \<Rightarrow> timeval" where
  "timersub a b =
     (let sec = tv_sec a - tv_sec b; usec = tv_usec a - tv_usec b
      in if usec < 0 then Timeval (sec - 1) (usec + 1000000) else Timeval sec usec)"

section \<open>Events\<close>

text \<open>
  Address 0 is the null pointer; the sentinels have addresses of their own. The name of an event is
  only logged and left out.
\<close>

abbreviation MAX_FD_EVENTS :: nat where "MAX_FD_EVENTS \<equiv> 15"
abbreviation timer_list :: nat where "timer_list \<equiv> 1"
abbreviation pending_list :: nat where "pending_list \<equiv> 2"

record mcwill_event =
  ev_next :: nat
  ev_prev :: nat
  ev_fd :: int
  ev_index :: int
  ev_persist :: bool
  ev_timeout :: timeval
  ev_func :: nat
  ev_netType :: int
  ev_param :: nat

definition event_zero :: mcwill_event where
  "event_zero = \<lparr>ev_next = 0, ev_prev = 0, ev_fd = 0, ev_index = 0, ev_persist = False, ev_timeout = Timeval 0 0,
     ev_func = 0, ev_netType = 0, ev_param = 0\<rparr>"

text \<open>\<open>closed\<close> records the descriptors that were closed, newest first.\<close>

record ev_st =
  store :: "nat \<Rightarrow> mcwill_event"
  watch_table :: "nat \<Rightarrow> nat"
  g_readFds :: "int set"
  g_nfds :: int
  closed :: "int list"

definition upd_ev :: "nat \<Rightarrow> (mcwill_event \<Rightarrow> mcwill_event) \<Rightarrow> (nat \<Rightarrow> mcwill_event) \<Rightarrow> nat \<Rightarrow> mcwill_event" where
  "upd_ev a f h = h(a := f (h a))"

section \<open>Lists\<close>

definition init_list :: "nat \<Rightarrow> (nat \<Rightarrow> mcwill_event) \<Rightarrow> nat \<Rightarrow> mcwill_event" where
  "init_list l h = h(l := event_zero\<lparr>ev_next := l, ev_prev := l, ev_fd := -1\<rparr>)"

text \<open>The new event goes in front of the node \<open>l\<close>; a node that is in no list has a null \<open>prev\<close>.\<close>

definition addToList :: "nat \<Rightarrow> nat \<Rightarrow> (nat \<Rightarrow> mcwill_event) \<Rightarrow> (nat \<Rightarrow> mcwill_event) res" where
  "addToList ev l h =
     (let h = upd_ev ev (\<lambda>e. e\<lparr>ev_next := l\<rparr>) h;
          h = upd_ev ev (\<lambda>e. e\<lparr>ev_prev := ev_prev (h l)\<rparr>) h;
          p = ev_prev (h ev)
      in if p = 0 then Inl NullDeref
         else
           let h = upd_ev p (\<lambda>e. e\<lparr>ev_next := ev\<rparr>) h
           in Inr (upd_ev l (\<lambda>e. e\<lparr>ev_prev := ev\<rparr>) h))"

definition removeFromList :: "nat \<Rightarrow> (nat \<Rightarrow> mcwill_event) \<Rightarrow> nat \<Rightarrow> mcwill_event" where
  "removeFromList ev h =
     (if ev \<noteq> 0 \<and> ev_next (h ev) \<noteq> 0 \<and> ev_prev (h ev) \<noteq> 0
      then
        let h = upd_ev (ev_next (h ev)) (\<lambda>e. e\<lparr>ev_prev := ev_prev (h ev)\<rparr>) h;
            h = upd_ev (ev_prev (h ev)) (\<lambda>e. e\<lparr>ev_next := ev_next (h ev)\<rparr>) h;
            h = upd_ev ev (\<lambda>e. e\<lparr>ev_next := 0\<rparr>) h
        in upd_ev ev (\<lambda>e. e\<lparr>ev_prev := 0\<rparr>) h
      else h)"

section \<open>The table of descriptors\<close>

text \<open>The largest descriptor of the table, or 0.\<close>

definition max_fd :: "ev_st \<Rightarrow> int" where
  "max_fd st = fold (\<lambda>i n. let rev = watch_table st i in if rev \<noteq> 0 \<and> ev_fd (store st rev) > n then ev_fd (store st rev) else n)
     [0..<MAX_FD_EVENTS] 0"

definition removeWatch :: "nat \<Rightarrow> nat \<Rightarrow> ev_st \<Rightarrow> ev_st" where
  "removeWatch ev index st =
     (let st = st\<lparr>watch_table := (watch_table st)(index := 0)\<rparr>;
          st = st\<lparr>store := upd_ev ev (\<lambda>e. e\<lparr>ev_index := -1\<rparr>) (store st)\<rparr>;
          fd = ev_fd (store st ev);
          st = st\<lparr>g_readFds := g_readFds st - {fd}\<rparr>
      in if fd + 1 = g_nfds st then st\<lparr>g_nfds := max_fd st + 1\<rparr> else st)"

definition mcwill_event_init :: "ev_st \<Rightarrow> ev_st" where
  "mcwill_event_init st = st\<lparr>g_readFds := {}, store := init_list pending_list (init_list timer_list (store st)),
     watch_table := (\<lambda>_. 0)\<rparr>"

definition mcwill_event_set :: "nat \<Rightarrow> int \<Rightarrow> bool \<Rightarrow> nat \<Rightarrow> nat \<Rightarrow> int \<Rightarrow> ev_st \<Rightarrow> ev_st" where
  "mcwill_event_set ev fd persist func param netType st =
     st\<lparr>store := (store st)(ev := event_zero\<lparr>ev_fd := fd, ev_index := -1, ev_persist := persist, ev_func := func,
       ev_netType := netType, ev_param := param\<rparr>)\<rparr>"

text \<open>The loop stops at the first free entry, or at one with the same descriptor.\<close>

fun event_add_loop :: "nat \<Rightarrow> nat \<Rightarrow> nat \<Rightarrow> ev_st \<Rightarrow> ev_st" where
  "event_add_loop 0 i ev st = st"
| "event_add_loop (Suc k) i ev st =
     (let fd = ev_fd (store st ev); w = watch_table st i
      in if w = 0
         then
           let st = st\<lparr>watch_table := (watch_table st)(i := ev), store := upd_ev ev (\<lambda>e. e\<lparr>ev_index := int i\<rparr>) (store st),
                       g_readFds := insert fd (g_readFds st)\<rparr>
           in if fd \<ge> g_nfds st then st\<lparr>g_nfds := fd + 1\<rparr> else st
         else if ev_fd (store st w) = fd
         then st\<lparr>store := upd_ev ev (\<lambda>e. e\<lparr>ev_index := int i\<rparr>) (store st)\<rparr>
         else event_add_loop k (i + 1) ev st)"

definition mcwill_event_add :: "nat \<Rightarrow> ev_st \<Rightarrow> ev_st" where
  "mcwill_event_add ev st = event_add_loop MAX_FD_EVENTS 0 ev st"

text \<open>The result is the new value of the caller's descriptor \<^verbatim>\<open>*pFd\<close>.\<close>

definition mcwill_event_del :: "nat \<Rightarrow> int \<Rightarrow> ev_st \<Rightarrow> int \<times> ev_st" where
  "mcwill_event_del ev pFd st =
     (let e = store st ev;
          st = (if ev_index e < 0 \<or> ev_index e \<ge> int MAX_FD_EVENTS \<or> (ev_fd e = 0 \<and> ev_index e = 0) then st
                else removeWatch ev (nat (ev_index e)) st)
      in if pFd > 0 then (-1, st\<lparr>closed := pFd # closed st\<rparr>) else (pFd, st))"

section \<open>Timers\<close>

text \<open>The walk along a list can run for ever if the list is damaged: \<open>None\<close> stands for that.\<close>

partial_function (option) timer_slot :: "(nat \<Rightarrow> mcwill_event) \<Rightarrow> timeval \<Rightarrow> nat \<Rightarrow> nat option" where
  "timer_slot h t l =
     (if ev_timeout (h l) < t \<and> l \<noteq> timer_list then timer_slot h t (ev_next (h l)) else Some l)"

definition mcwill_timer_add :: "nat \<Rightarrow> timeval \<Rightarrow> timeval \<Rightarrow> ev_st \<Rightarrow> ev_st res option" where
  "mcwill_timer_add ev now tv st =
     (let l = ev_next (store st timer_list);
          h = upd_ev ev (\<lambda>e. e\<lparr>ev_fd := -1, ev_timeout := timeradd now tv\<rparr>) (store st)
      in Option.bind (timer_slot h (timeradd now tv) l) (\<lambda>l.
           Some (bindR (addToList ev l h) (\<lambda>h. Inr (st\<lparr>store := h\<rparr>)))))"

partial_function (option) timer_exists :: "(nat \<Rightarrow> mcwill_event) \<Rightarrow> nat \<Rightarrow> nat \<Rightarrow> bool option" where
  "timer_exists h ev l =
     (if l = ev then Some True
      else let l = ev_next (h l) in if l \<noteq> timer_list then timer_exists h ev l else Some False)"

definition mcwill_timer_check_exist :: "nat \<Rightarrow> ev_st \<Rightarrow> bool option" where
  "mcwill_timer_check_exist ev st = timer_exists (store st) ev (ev_next (store st timer_list))"

text \<open>The timers that have run out move to the pending list.\<close>

partial_function (option) timeouts_loop :: "timeval \<Rightarrow> nat \<Rightarrow> (nat \<Rightarrow> mcwill_event) \<Rightarrow> (nat \<Rightarrow> mcwill_event) res option" where
  "timeouts_loop now tev h =
     (if tev \<noteq> timer_list \<and> now > ev_timeout (h tev)
      then
        let nxt = ev_next (h tev); h = removeFromList tev h
        in (case addToList tev pending_list h of
              Inl f \<Rightarrow> Some (Inl f)
            | Inr h \<Rightarrow> timeouts_loop now nxt h)
      else Some (Inr h))"

definition processTimeouts :: "timeval \<Rightarrow> ev_st \<Rightarrow> ev_st res option" where
  "processTimeouts now st =
     map_option (\<lambda>r. bindR r (\<lambda>h. Inr (st\<lparr>store := h\<rparr>))) (timeouts_loop now (ev_next (store st timer_list)) (store st))"

text \<open>\<open>None\<close>: no timer is armed and \<^verbatim>\<open>select\<close> may wait for ever.\<close>

definition calcNextTimeout :: "timeval \<Rightarrow> ev_st \<Rightarrow> timeval option" where
  "calcNextTimeout now st =
     (let tev = ev_next (store st timer_list)
      in if tev = timer_list then None
         else if ev_timeout (store st tev) > now then Some (timersub (ev_timeout (store st tev)) now)
         else Some (Timeval 0 0))"

section \<open>Ready descriptors\<close>

fun readies_loop :: "nat \<Rightarrow> nat \<Rightarrow> int set \<Rightarrow> int \<Rightarrow> ev_st \<Rightarrow> ev_st res" where
  "readies_loop 0 i rfds n st = Inr st"
| "readies_loop (Suc k) i rfds n st =
     (if n > 0
      then
        let rev = watch_table st i
        in if rev \<noteq> 0 \<and> ev_fd (store st rev) \<in> rfds
           then bindR (addToList rev pending_list (store st)) (\<lambda>h.
                  let st = st\<lparr>store := h\<rparr>;
                      st = (if ev_persist (store st rev) then st else removeWatch rev i st)
                  in readies_loop k (i + 1) rfds (n - 1) st)
           else readies_loop k (i + 1) rfds n st
      else Inr st)"

definition processReadReadies :: "int set \<Rightarrow> int \<Rightarrow> ev_st \<Rightarrow> ev_st res" where
  "processReadReadies rfds n st = readies_loop MAX_FD_EVENTS 0 rfds n st"

end
