(* ===== verification/RATD_Timers.thy ===== *)
theory RATD_Timers
  imports RATD_Event
begin

text \<open>
  The lists of the event loop as lists: insertion and removal in the linked store are insertion and removal in
  a list, an armed timer goes to its place in time, and the timers that run out become pending in the
  order of their times. The watch table and \<open>g_readFds\<close> describe the same descriptors.
\<close>

section \<open>Chains of pointers\<close>

fun chain :: "(nat \<Rightarrow> mcwill_event) \<Rightarrow> nat list \<Rightarrow> bool" where
  "chain h (a # b # ys) \<longleftrightarrow> ev_next (h a) = b \<and> ev_prev (h b) = a \<and> chain h (b # ys)"
| "chain h _ \<longleftrightarrow> True"

definition linked :: "(nat \<Rightarrow> mcwill_event) \<Rightarrow> nat \<Rightarrow> nat list \<Rightarrow> bool" where
  "linked h l xs \<longleftrightarrow> chain h (l # xs @ [l]) \<and> distinct (l # xs) \<and> 0 \<notin> set (l # xs)"

lemma chain_append: "chain h (xs @ a # ys) \<longleftrightarrow> chain h (xs @ [a]) \<and> chain h (a # ys)"
  by (induction xs rule: induct_list012) auto

lemma chain_prefix: "chain h (xs @ ys) \<Longrightarrow> chain h xs"
  by (induction xs rule: induct_list012) auto

lemma last_notin_butlast: "distinct zs \<Longrightarrow> zs \<noteq> [] \<Longrightarrow> last zs \<notin> set (butlast zs)"
  by (induction zs rule: rev_induct) auto

lemma chain_cong:
  assumes "\<forall>a\<in>set (butlast ys). ev_next (h' a) = ev_next (h a)" and "\<forall>a\<in>set (tl ys). ev_prev (h' a) = ev_prev (h a)"
  shows "chain h' ys = chain h ys"
  using assms by (induction h ys rule: chain.induct) auto

lemma linked_init: "l \<noteq> 0 \<Longrightarrow> linked (init_list l h) l []"
  by (simp add: linked_def init_list_def)

lemma linkedD:
  assumes "linked h l xs"
  shows "ev_next (h l) = hd (xs @ [l])" "ev_prev (h l) = last (l # xs)" "l \<noteq> 0"
proof -
  have c: "chain h (l # xs @ [l])" "0 \<noteq> l" using assms by (auto simp: linked_def)
  show "ev_next (h l) = hd (xs @ [l])" using c(1) by (cases xs) auto
  show "ev_prev (h l) = last (l # xs)"
  proof (cases xs rule: rev_cases)
    case (snoc ys y)
    then show ?thesis using c(1) chain_append[of h "l # ys" y "[l]"] by simp
  qed (use c in simp)
  show "l \<noteq> 0" using c(2) by simp
qed

lemma linked_split:
  "linked h l (xs @ ev # ys) \<Longrightarrow>
   ev_next (h ev) = hd (ys @ [l]) \<and> ev_prev (h ev) = last (l # xs) \<and> chain h (l # xs @ [ev]) \<and> chain h (ev # ys @ [l])"
proof -
  assume "linked h l (xs @ ev # ys)"
  then have c: "chain h ((l # xs) @ ev # ys @ [l])" by (simp add: linked_def)
  have n: "chain h (l # xs @ [ev])" "chain h (ev # ys @ [l])" using c chain_append[of h "l # xs" ev "ys @ [l]"] by simp_all
  moreover have "ev_next (h ev) = hd (ys @ [l])" using n(2) by (cases ys) auto
  moreover have "ev_prev (h ev) = last (l # xs)"
  proof (cases xs rule: rev_cases)
    case (snoc zs z)
    then show ?thesis using n(1) chain_append[of h "l # zs" z "[ev]"] by simp
  qed (use n in simp)
  ultimately show ?thesis by blast
qed

lemma chain_last_next:
  assumes "chain h (zs @ [z, b])"
  shows "ev_next (h z) = b"
  using assms chain_append[of h zs z "[b]"] by simp

subsection \<open>Insertion\<close>

text \<open>What an operation on one list leaves alone: the links of other objects and all other fields.\<close>

definition same_data :: "(nat \<Rightarrow> mcwill_event) \<Rightarrow> (nat \<Rightarrow> mcwill_event) \<Rightarrow> bool" where
  "same_data h h' \<longleftrightarrow> (\<forall>a. ev_fd (h' a) = ev_fd (h a) \<and> ev_index (h' a) = ev_index (h a) \<and>
     ev_persist (h' a) = ev_persist (h a) \<and> ev_timeout (h' a) = ev_timeout (h a) \<and> ev_func (h' a) = ev_func (h a) \<and>
     ev_netType (h' a) = ev_netType (h a) \<and> ev_param (h' a) = ev_param (h a))"

definition links_kept :: "nat set \<Rightarrow> (nat \<Rightarrow> mcwill_event) \<Rightarrow> (nat \<Rightarrow> mcwill_event) \<Rightarrow> bool" where
  "links_kept A h h' \<longleftrightarrow> (\<forall>a. a \<notin> A \<longrightarrow> h' a = h a)"

lemma same_data_refl [simp]: "same_data h h"
  by (simp add: same_data_def)

lemma same_data_trans: "same_data h h' \<Longrightarrow> same_data h' h'' \<Longrightarrow> same_data h h''"
  by (simp add: same_data_def)

lemma linked_other:
  assumes "linked h m zs" and "links_kept A h h'" and "A \<inter> set (m # zs) = {}"
  shows "linked h' m zs"
proof -
  have "h' a = h a" if "a \<in> set (m # zs)" for a using assms(2,3) that by (auto simp: links_kept_def)
  then have "chain h' (m # zs @ [m]) = chain h (m # zs @ [m])"
    by (intro chain_cong) (auto dest: in_set_butlastD)
  then show ?thesis using assms(1) by (simp add: linked_def)
qed

lemma addToList_ok:
  assumes "linked h l (xs @ ys)" and "ev \<notin> set (l # xs @ ys)" and "ev \<noteq> 0" and "node = hd (ys @ [l])"
  shows "\<exists>h'. addToList ev node h = Inr h' \<and> linked h' l (xs @ ev # ys) \<and> same_data h h' \<and>
     links_kept (insert ev (set (l # xs @ ys))) h h'"
proof -
  define p where "p = last (l # xs)"
  have c: "chain h ((l # xs) @ ys @ [l])" "distinct (l # xs @ ys)" "0 \<notin> set (l # xs @ ys)"
    using assms(1) by (simp_all add: linked_def)
  have pin: "p \<in> set (l # xs)" unfolding p_def by (rule last_in_set) simp
  have nin: "node \<in> set (ys @ [l])" using assms(4) by (cases ys) auto
  have prev: "ev_prev (h node) = p"
  proof (cases ys)
    case Nil
    then show ?thesis using linkedD(2)[OF assms(1)] assms(4) by (simp add: p_def)
  next
    case (Cons y zs)
    then show ?thesis using linked_split[of h l xs y zs] assms(1,4) by (simp add: p_def)
  qed
  have pin2: "p \<in> set (l # xs @ ys)" using pin by (metis UnCI append_Cons set_append)
  have "p \<noteq> 0" "ev \<noteq> p" using pin2 c(3) assms(2) by metis+
  moreover have "ev \<noteq> node" using assms(2) nin by auto
  ultimately have ne: "ev \<noteq> node" "ev \<noteq> p" "p \<noteq> 0" by simp_all
  define h' where "h' = upd_ev node (\<lambda>e. e\<lparr>ev_prev := ev\<rparr>) (upd_ev p (\<lambda>e. e\<lparr>ev_next := ev\<rparr>)
     (upd_ev ev (\<lambda>e. e\<lparr>ev_next := node, ev_prev := p\<rparr>) h))"
  have run: "addToList ev node h = Inr h'"
    using prev ne by (simp add: addToList_def Let_def upd_ev_def h'_def)
  have nxt: "ev_next (h' a) = (if a = p then ev else if a = ev then node else ev_next (h a))"
    and prv: "ev_prev (h' a) = (if a = node then ev else if a = ev then p else ev_prev (h a))" for a
    using ne by (simp_all add: upd_ev_def h'_def)
  have left: "chain h' (l # xs @ [ev])"
  proof (cases xs rule: rev_cases)
    case Nil
    then show ?thesis using ne by (simp add: nxt prv p_def)
  next
    case (snoc zs z)
    have "chain h (l # zs @ [z])" using c(1) chain_append[of h "l # zs" z "ys @ [l]"] by (simp add: snoc)
    moreover have "chain h' (l # zs @ [z]) = chain h (l # zs @ [z])"
    proof (rule chain_cong)
      show "\<forall>a\<in>set (butlast (l # zs @ [z])). ev_next (h' a) = ev_next (h a)"
        using c(2) assms(2) by (auto simp: nxt snoc butlast_append p_def)
      show "\<forall>a\<in>set (tl (l # zs @ [z])). ev_prev (h' a) = ev_prev (h a)"
        using c(2) assms(2) nin by (auto simp: prv snoc)
    qed
    ultimately show ?thesis using chain_append[of h' "l # zs" z "[ev]"] ne by (simp add: snoc nxt prv p_def)
  qed
  have right: "chain h' (ev # ys @ [l])"
  proof (cases ys)
    case Nil
    then show ?thesis using assms(4) ne by (simp add: nxt prv)
  next
    case (Cons y zs)
    have "chain h (y # zs @ [l])" using c(1) chain_append[of h "l # xs" y "zs @ [l]"] by (simp add: Cons)
    moreover have "chain h' (y # zs @ [l]) = chain h (y # zs @ [l])"
    proof (rule chain_cong)
      have "p \<notin> set (y # zs)" using pin c(2) by (auto simp: Cons)
      then show "\<forall>a\<in>set (butlast (y # zs @ [l])). ev_next (h' a) = ev_next (h a)"
        using assms(2) by (auto simp: nxt Cons butlast_append)
      have "node = y" using assms(4) Cons by simp
      then show "\<forall>a\<in>set (tl (y # zs @ [l])). ev_prev (h' a) = ev_prev (h a)"
        using assms(2) c(2) by (auto simp: prv Cons)
    qed
    ultimately show ?thesis using assms(4) ne by (simp add: Cons nxt prv)
  qed
  have "chain h' ((l # xs) @ ev # ys @ [l])"
    using left right chain_append[of h' "l # xs" ev "ys @ [l]"] by simp
  moreover have "distinct (l # xs @ ev # ys)" "0 \<notin> set (l # xs @ ev # ys)"
    using c(2,3) assms(2,3) by auto
  ultimately have "linked h' l (xs @ ev # ys)" by (simp add: linked_def)
  moreover have "same_data h h'"
    by (simp add: same_data_def upd_ev_def h'_def)
  moreover have "links_kept (insert ev (set (l # xs @ ys))) h h'"
    using pin nin by (auto simp: links_kept_def upd_ev_def h'_def)
  ultimately show ?thesis using run by blast
qed

subsection \<open>Removal\<close>

lemma removeFromList_ok:
  assumes "linked h l (xs @ ev # ys)"
  shows "linked (removeFromList ev h) l (xs @ ys) \<and> same_data h (removeFromList ev h) \<and>
     links_kept (set (l # xs @ ev # ys)) h (removeFromList ev h)"
proof -
  define p n where "p = last (l # xs)" and "n = hd (ys @ [l])"
  have c: "chain h (l # xs @ [ev])" "chain h (ev # ys @ [l])" "ev_next (h ev) = n" "ev_prev (h ev) = p"
    using linked_split[OF assms] by (simp_all add: p_def n_def)
  have d: "distinct (l # xs @ ev # ys)" "0 \<notin> set (l # xs @ ev # ys)" using assms by (simp_all add: linked_def)
  have pin: "p \<in> set (l # xs)" unfolding p_def by (rule last_in_set) simp
  have nin: "n \<in> set (ys @ [l])" unfolding n_def by (cases ys) auto
  have ne: "ev \<noteq> 0" "p \<noteq> ev" "n \<noteq> ev" "p \<noteq> 0" "n \<noteq> 0" using d pin nin by auto
  define h' where "h' = removeFromList ev h"
  have h': "h' = upd_ev ev (\<lambda>e. e\<lparr>ev_next := 0, ev_prev := 0\<rparr>)
      (upd_ev p (\<lambda>e. e\<lparr>ev_next := n\<rparr>) (upd_ev n (\<lambda>e. e\<lparr>ev_prev := p\<rparr>) h))"
    using c(3,4) ne by (simp add: h'_def removeFromList_def Let_def upd_ev_def)
  have nxt: "ev_next (h' a) = (if a = ev then 0 else if a = p then n else ev_next (h a))"
    and prv: "ev_prev (h' a) = (if a = ev then 0 else if a = n then p else ev_prev (h a))" for a
    using ne by (simp_all add: h' upd_ev_def)
  have left: "chain h' (l # xs)"
  proof -
    have "chain h (l # xs)" using c(1) chain_prefix[of h "l # xs" "[ev]"] by simp
    moreover have "chain h' (l # xs) = chain h (l # xs)"
    proof (rule chain_cong)
      have "p \<notin> set (butlast (l # xs))"
        unfolding p_def using d(1) by (intro last_notin_butlast) auto
      then show "\<forall>a\<in>set (butlast (l # xs)). ev_next (h' a) = ev_next (h a)"
        using d(1) by (auto simp: nxt dest: in_set_butlastD split: if_splits)
      show "\<forall>a\<in>set (tl (l # xs)). ev_prev (h' a) = ev_prev (h a)"
        using d(1) nin by (auto simp: prv)
    qed
    ultimately show ?thesis by simp
  qed
  have right: "chain h' (ys @ [l])"
  proof (cases ys)
    case (Cons y zs)
    have "chain h (y # zs @ [l])" using c(2) by (simp add: Cons)
    moreover have "chain h' (y # zs @ [l]) = chain h (y # zs @ [l])"
    proof (rule chain_cong)
      have "p \<notin> set (y # zs)" using pin d(1) by (auto simp: Cons)
      then show "\<forall>a\<in>set (butlast (y # zs @ [l])). ev_next (h' a) = ev_next (h a)"
        using d(1) by (auto simp: nxt Cons butlast_append)
      have "n = y" by (simp add: n_def Cons)
      then show "\<forall>a\<in>set (tl (y # zs @ [l])). ev_prev (h' a) = ev_prev (h a)"
        using d(1) by (auto simp: prv Cons)
    qed
    ultimately show ?thesis by (simp add: Cons)
  qed simp
  have join: "ev_next (h' p) = n" "ev_prev (h' n) = p" using ne by (simp_all add: nxt prv)
  have "chain h' (l # xs @ ys @ [l])"
  proof -
    have e: "l # xs @ ys @ [l] = butlast (l # xs) @ p # ys @ [l]"
      using append_butlast_last_id[of "l # xs"] by (simp add: p_def)
    have "chain h' (butlast (l # xs) @ [p])" using left append_butlast_last_id[of "l # xs"] by (simp add: p_def)
    moreover have "chain h' (p # ys @ [l])" using right join by (cases ys) (simp_all add: n_def)
    ultimately show ?thesis
      unfolding e using chain_append[of h' "butlast (l # xs)" p "ys @ [l]"] by blast
  qed
  then have "linked h' l (xs @ ys)" using d by (auto simp: linked_def)
  moreover have "same_data h h'" by (simp add: same_data_def h' upd_ev_def)
  moreover have "links_kept (set (l # xs @ ev # ys)) h h'"
    using pin nin by (auto simp: links_kept_def h' upd_ev_def)
  ultimately show ?thesis unfolding h'_def by blast
qed

section \<open>Arming a timer\<close>

lemma insort_key_split: "insort_key f x xs = takeWhile (\<lambda>y. f y < f x) xs @ x # dropWhile (\<lambda>y. f y < f x) xs"
  by (induction xs) (auto simp: not_less)

lemma timer_slot_ok:
  assumes "linked h timer_list (xs @ ys)"
  shows "timer_slot h t (hd (ys @ [timer_list])) = Some (hd (dropWhile (\<lambda>e. ev_timeout (h e) < t) ys @ [timer_list]))"
  using assms
proof (induction ys arbitrary: xs)
  case Nil
  then show ?case by (subst timer_slot.simps) simp
next
  case (Cons y ys)
  have "y \<noteq> timer_list" using Cons.prems by (auto simp: linked_def)
  moreover have "ev_next (h y) = hd (ys @ [timer_list])" using linked_split[OF Cons.prems] by simp
  ultimately show ?case using Cons.IH[of "xs @ [y]"] Cons.prems by (subst timer_slot.simps) simp
qed

text \<open>The two lists of the loop, and the events that are in neither.\<close>

definition lists_ok :: "(nat \<Rightarrow> mcwill_event) \<Rightarrow> nat list \<Rightarrow> nat list \<Rightarrow> bool" where
  "lists_ok h xs ps \<longleftrightarrow> linked h timer_list xs \<and> linked h pending_list ps \<and>
     set (timer_list # xs) \<inter> set (pending_list # ps) = {}"

definition free_event :: "nat \<Rightarrow> nat list \<Rightarrow> nat list \<Rightarrow> bool" where
  "free_event ev xs ps \<longleftrightarrow> ev \<noteq> 0 \<and> ev \<notin> set (timer_list # xs) \<and> ev \<notin> set (pending_list # ps)"

definition timeouts_sorted :: "(nat \<Rightarrow> mcwill_event) \<Rightarrow> nat list \<Rightarrow> bool" where
  "timeouts_sorted h xs \<longleftrightarrow> sorted (map (\<lambda>e. ev_timeout (h e)) xs)"

lemma linked_upd_free:
  "linked h l xs \<Longrightarrow> ev \<notin> set (l # xs) \<Longrightarrow> linked (upd_ev ev f h) l xs"
  by (rule linked_other[of h l xs "{ev}"]) (auto simp: links_kept_def upd_ev_def)

lemma timer_add_ok:
  assumes "lists_ok (store st) xs ps" and "free_event ev xs ps" and "timeouts_sorted (store st) xs"
  shows "\<exists>h' ys. mcwill_timer_add ev now tv st = Some (Inr (st\<lparr>store := h'\<rparr>)) \<and> lists_ok h' ys ps \<and>
     ys = insort_key (\<lambda>e. ev_timeout (h' e)) ev xs \<and> timeouts_sorted h' ys \<and>
     same_data (upd_ev ev (\<lambda>e. e\<lparr>ev_fd := -1, ev_timeout := timeradd now tv\<rparr>) (store st)) h'"
proof -
  let ?t = "timeradd now tv"
  let ?h = "upd_ev ev (\<lambda>e. e\<lparr>ev_fd := -1, ev_timeout := ?t\<rparr>) (store st)"
  have l: "linked (store st) timer_list xs" "linked (store st) pending_list ps"
    "set (timer_list # xs) \<inter> set (pending_list # ps) = {}" using assms(1) by (simp_all add: lists_ok_def)
  have e: "ev \<notin> set (timer_list # xs)" "ev \<notin> set (pending_list # ps)" "ev \<noteq> 0" using assms(2) by (simp_all add: free_event_def)
  define us vs where "us = takeWhile (\<lambda>y. ev_timeout (?h y) < ?t) xs" and "vs = dropWhile (\<lambda>y. ev_timeout (?h y) < ?t) xs"
  have xs: "xs = us @ vs" by (simp add: us_def vs_def)
  have lh: "linked ?h timer_list (us @ vs)" using linked_upd_free[OF l(1) e(1)] by (simp add: xs[symmetric])
  have "ev_next (store st timer_list) = hd (xs @ [timer_list])" using linkedD(1)[OF l(1)] .
  moreover have "timer_slot ?h ?t (hd (xs @ [timer_list])) = Some (hd (vs @ [timer_list]))"
    unfolding vs_def using timer_slot_ok[of ?h "[]" xs ?t] lh xs by simp
  moreover obtain h' where h': "addToList ev (hd (vs @ [timer_list])) ?h = Inr h'" "linked h' timer_list (us @ ev # vs)"
    "same_data ?h h'" "links_kept (insert ev (set (timer_list # us @ vs))) ?h h'"
    using addToList_ok[OF lh _ e(3) refl] e(1) xs by auto
  ultimately have run: "mcwill_timer_add ev now tv st = Some (Inr (st\<lparr>store := h'\<rparr>))"
    by (simp add: mcwill_timer_add_def Let_def)
  have to: "ev_timeout (h' e) = ev_timeout (?h e)" for e using h'(3) by (simp add: same_data_def)
  have ins: "us @ ev # vs = insort_key (\<lambda>e. ev_timeout (h' e)) ev xs"
    unfolding insort_key_split to us_def vs_def by (simp add: upd_ev_def)
  have "linked h' pending_list ps"
    by (rule linked_other[OF linked_upd_free[OF l(2) e(2)] h'(4)]) (use l(3) e(2) xs in auto)
  moreover have "set (us @ ev # vs) = insert ev (set xs)" by (auto simp: xs)
  ultimately have "lists_ok h' (us @ ev # vs) ps" using h'(2) l(3) e(2) unfolding lists_ok_def by auto
  moreover have "timeouts_sorted h' (us @ ev # vs)"
  proof -
    have "map (\<lambda>e. ev_timeout (h' e)) xs = map (\<lambda>e. ev_timeout (store st e)) xs"
      using e(1) by (auto simp: to upd_ev_def)
    then have "sorted (map (\<lambda>e. ev_timeout (h' e)) xs)" using assms(3) by (simp only: timeouts_sorted_def)
    then show ?thesis unfolding ins timeouts_sorted_def by (simp only: sorted_insort_key)
  qed
  ultimately show ?thesis using run ins h'(3) by (intro exI[of _ h'] exI[of _ "us @ ev # vs"]) simp
qed

text \<open>
  Arming a timer puts it at its place in time: the list of timers becomes the list with the event
  inserted in order of the times (before the timers of the same time), stays sorted, and the pending
  events are not touched. The search always ends.
\<close>

theorem timer_add_sorted:
  assumes "lists_ok (store st) xs ps" and "free_event ev xs ps" and "timeouts_sorted (store st) xs"
  shows "\<exists>st' ys. mcwill_timer_add ev now tv st = Some (Inr st') \<and> lists_ok (store st') ys ps \<and>
     ys = insort_key (\<lambda>e. ev_timeout (store st' e)) ev xs \<and> timeouts_sorted (store st') ys \<and>
     ev_timeout (store st' ev) = timeradd now tv \<and> (\<forall>e. e \<noteq> ev \<longrightarrow> ev_timeout (store st' e) = ev_timeout (store st e))"
proof -
  obtain h' ys where h: "mcwill_timer_add ev now tv st = Some (Inr (st\<lparr>store := h'\<rparr>))" "lists_ok h' ys ps"
    "ys = insort_key (\<lambda>e. ev_timeout (h' e)) ev xs" "timeouts_sorted h' ys"
    "same_data (upd_ev ev (\<lambda>e. e\<lparr>ev_fd := -1, ev_timeout := timeradd now tv\<rparr>) (store st)) h'"
    using timer_add_ok[OF assms] by blast
  then show ?thesis by (intro exI[of _ "st\<lparr>store := h'\<rparr>"] exI[of _ ys]) (simp add: same_data_def upd_ev_def)
qed

section \<open>Timers that run out\<close>

lemma timeouts_loop_ok:
  assumes "lists_ok h xs ps"
  shows "\<exists>h'. timeouts_loop now (hd (xs @ [timer_list])) h = Some (Inr h') \<and>
     lists_ok h' (dropWhile (\<lambda>e. ev_timeout (h e) < now) xs) (ps @ takeWhile (\<lambda>e. ev_timeout (h e) < now) xs) \<and> same_data h h'"
  using assms
proof (induction xs arbitrary: h ps)
  case Nil
  then show ?case by (subst timeouts_loop.simps) auto
next
  case (Cons x xs)
  have l: "linked h timer_list ([] @ x # xs)" "linked h pending_list ps" "set (timer_list # x # xs) \<inter> set (pending_list # ps) = {}"
    using Cons.prems by (simp_all add: lists_ok_def)
  show ?case
  proof (cases "ev_timeout (h x) < now")
    case False
    then show ?thesis using Cons.prems by (subst timeouts_loop.simps) auto
  next
    case True
    have x: "x \<noteq> timer_list" "x \<noteq> 0" "x \<notin> set xs" using l(1) by (auto simp: linked_def)
    let ?h1 = "removeFromList x h"
    have r: "linked ?h1 timer_list xs" "same_data h ?h1" "links_kept (set (timer_list # x # xs)) h ?h1"
      using removeFromList_ok[OF l(1)] by simp_all
    have p1: "linked ?h1 pending_list (ps @ [])" using linked_other[OF l(2) r(3) l(3)] by simp
    obtain h2 where h2: "addToList x pending_list ?h1 = Inr h2" "linked h2 pending_list (ps @ [x])" "same_data ?h1 h2"
      "links_kept (insert x (set (pending_list # ps))) ?h1 h2"
      using addToList_ok[OF p1 _ x(2), of pending_list] l(3) by auto
    have "linked h2 timer_list xs"
      by (rule linked_other[OF r(1) h2(4)]) (use l(3) x in auto)
    then have ok: "lists_ok h2 xs (ps @ [x])" using h2(2) l(3) x by (auto simp: lists_ok_def)
    have d: "same_data h h2" by (rule same_data_trans[OF r(2) h2(3)])
    then have to: "ev_timeout (h2 e) = ev_timeout (h e)" for e by (simp add: same_data_def)
    obtain h' where h': "timeouts_loop now (hd (xs @ [timer_list])) h2 = Some (Inr h')"
      "lists_ok h' (dropWhile (\<lambda>e. ev_timeout (h e) < now) xs) ((ps @ [x]) @ takeWhile (\<lambda>e. ev_timeout (h e) < now) xs)" "same_data h2 h'"
      using Cons.IH[OF ok] unfolding to by blast
    have "ev_next (h x) = hd (xs @ [timer_list])" using linked_split[OF l(1)] by simp
    then have "timeouts_loop now x h = Some (Inr h')"
      using True x h2(1) h'(1) by (subst timeouts_loop.simps) (simp add: Let_def)
    then show ?thesis using h'(2) same_data_trans[OF d h'(3)] True by (intro exI[of _ h']) simp
  qed
qed

lemma sorted_takeWhile_filter:
  "timeouts_sorted h xs \<Longrightarrow> takeWhile (\<lambda>e. ev_timeout (h e) < now) xs = filter (\<lambda>e. ev_timeout (h e) < now) xs"
proof (induction xs)
  case (Cons x xs)
  show ?case
  proof (cases "ev_timeout (h x) < now")
    case False
    then have "\<not> ev_timeout (h y) < now" if "y \<in> set xs" for y
      using Cons.prems that by (auto simp: timeouts_sorted_def)
    then have "filter (\<lambda>e. ev_timeout (h e) < now) xs = []" by (simp add: filter_empty_conv)
    then show ?thesis using False by simp
  qed (use Cons in \<open>simp add: timeouts_sorted_def\<close>)
qed simp

lemma sorted_dropWhile_filter:
  "timeouts_sorted h xs \<Longrightarrow> dropWhile (\<lambda>e. ev_timeout (h e) < now) xs = filter (\<lambda>e. \<not> ev_timeout (h e) < now) xs"
proof (induction xs)
  case (Cons x xs)
  show ?case
  proof (cases "ev_timeout (h x) < now")
    case False
    then have "\<not> ev_timeout (h y) < now" if "y \<in> set xs" for y
      using Cons.prems that by (auto simp: timeouts_sorted_def)
    then have "filter (\<lambda>e. \<not> ev_timeout (h e) < now) xs = xs" by (simp add: filter_id_conv)
    then show ?thesis using False by simp
  qed (use Cons in \<open>simp add: timeouts_sorted_def\<close>)
qed simp

text \<open>
  The walk over the armed timers ends: those whose time has passed move behind the events that are already pending, in the
  order of their times, and the others stay armed in order. Nothing but links changes.
\<close>

lemma processTimeouts_ok:
  assumes "lists_ok (store st) xs ps" and "timeouts_sorted (store st) xs"
  shows "\<exists>h. processTimeouts now st = Some (Inr (st\<lparr>store := h\<rparr>)) \<and> same_data (store st) h \<and>
     lists_ok h (filter (\<lambda>e. \<not> ev_timeout (store st e) < now) xs) (ps @ filter (\<lambda>e. ev_timeout (store st e) < now) xs)"
proof -
  have "ev_next (store st timer_list) = hd (xs @ [timer_list])"
    using assms(1) linkedD(1) by (simp add: lists_ok_def)
  then show ?thesis
    using timeouts_loop_ok[OF assms(1), of now] sorted_takeWhile_filter[OF assms(2)] sorted_dropWhile_filter[OF assms(2)]
    by (auto simp: processTimeouts_def)
qed

text \<open>A loop with timer 3 armed for second 5, timer 4 for second 9, and event 6 pending.\<close>

definition ev_demo :: ev_st where
  "ev_demo = \<lparr>store = (\<lambda>_. event_zero)
      (1 := event_zero\<lparr>ev_next := 3, ev_prev := 4, ev_fd := -1\<rparr>,
       3 := event_zero\<lparr>ev_next := 4, ev_prev := 1, ev_fd := -1, ev_timeout := Timeval 5 0\<rparr>,
       4 := event_zero\<lparr>ev_next := 1, ev_prev := 3, ev_fd := -1, ev_timeout := Timeval 9 0\<rparr>,
       2 := event_zero\<lparr>ev_next := 6, ev_prev := 6, ev_fd := -1\<rparr>,
       6 := event_zero\<lparr>ev_next := 2, ev_prev := 2, ev_fd := 7\<rparr>),
     watch_table = (\<lambda>_. 0), g_readFds = {}, g_nfds = 0, closed = []\<rparr>"

lemma ev_demo_ok:
  "lists_ok (store ev_demo) [3, 4] [6]" "timeouts_sorted (store ev_demo) [3, 4]"
  by (simp_all add: lists_ok_def linked_def ev_demo_def timeouts_sorted_def less_eq_timeval_def)

theorem timer_add_sorted_witness:
  "\<exists>st' ys. mcwill_timer_add 5 (Timeval 4 500000) (Timeval 2 600000) ev_demo = Some (Inr st') \<and> lists_ok (store st') ys [6] \<and>
     ys = insort_key (\<lambda>e. ev_timeout (store st' e)) 5 [3, 4] \<and> ev_timeout (store st' 5) = Timeval 7 100000"
proof -
  have "timeradd (Timeval 4 500000) (Timeval 2 600000) = Timeval 7 100000" by (simp add: timeradd_def)
  moreover have "free_event 5 [3, 4] [6]" by (simp add: free_event_def)
  ultimately show ?thesis
    using timer_add_sorted[OF ev_demo_ok(1) _ ev_demo_ok(2), of 5 "Timeval 4 500000" "Timeval 2 600000"] by auto
qed

section \<open>The watch table and the set for select\<close>

text \<open>
  The set given to \<^verbatim>\<open>select\<close> holds exactly the descriptors of the watched events, no two watched events share one,
  every event knows its entry, and \<open>g_nfds\<close> is above them all.
\<close>

definition watched :: "ev_st \<Rightarrow> nat set" where
  "watched st = {i. i < MAX_FD_EVENTS \<and> watch_table st i \<noteq> 0}"

definition fd_at :: "ev_st \<Rightarrow> nat \<Rightarrow> int" where
  "fd_at st i = ev_fd (store st (watch_table st i))"

definition fds_ok :: "ev_st \<Rightarrow> bool" where
  "fds_ok st \<longleftrightarrow> (\<forall>i\<in>watched st. ev_index (store st (watch_table st i)) = int i \<and> 0 \<le> fd_at st i) \<and>
     g_readFds st = fd_at st ` watched st \<and> inj_on (fd_at st) (watched st) \<and> (\<forall>fd\<in>g_readFds st. fd < g_nfds st)"

lemma fds_okD:
  assumes "fds_ok st" and "i \<in> watched st"
  shows "ev_index (store st (watch_table st i)) = int i" "0 \<le> fd_at st i" "fd_at st i \<in> g_readFds st"
  using assms by (auto simp: fds_ok_def)

definition watch_at :: "nat \<Rightarrow> nat \<Rightarrow> ev_st \<Rightarrow> ev_st" where
  "watch_at j ev st = st\<lparr>watch_table := (watch_table st)(j := ev), store := upd_ev ev (\<lambda>e. e\<lparr>ev_index := int j\<rparr>) (store st),
     g_readFds := insert (ev_fd (store st ev)) (g_readFds st), g_nfds := max (g_nfds st) (ev_fd (store st ev) + 1)\<rparr>"

lemma event_add_loop_free:
  assumes "\<forall>i. i0 \<le> i \<and> i < j \<longrightarrow> watch_table st i \<noteq> 0 \<and> fd_at st i \<noteq> ev_fd (store st ev)"
    and "watch_table st j = 0" and "i0 \<le> j" and "j < i0 + k"
  shows "event_add_loop k i0 ev st = watch_at j ev st"
  using assms
proof (induction k arbitrary: i0)
  case (Suc k)
  show ?case
  proof (cases "i0 = j")
    case True
    then show ?thesis using Suc.prems(2) by (simp add: watch_at_def Let_def max_def)
  next
    case False
    then have "event_add_loop k (Suc i0) ev st = watch_at j ev st" using Suc.prems by (intro Suc.IH) auto
    moreover have "watch_table st i0 \<noteq> 0" "fd_at st i0 \<noteq> ev_fd (store st ev)" using Suc.prems(1,3) False by auto
    ultimately show ?thesis by (simp add: fd_at_def Let_def)
  qed
qed simp

lemma event_add_loop_full:
  "\<forall>i. i0 \<le> i \<and> i < i0 + k \<longrightarrow> watch_table st i \<noteq> 0 \<and> fd_at st i \<noteq> ev_fd (store st ev) \<Longrightarrow> event_add_loop k i0 ev st = st"
proof (induction k arbitrary: i0)
  case (Suc k)
  then have "event_add_loop k (Suc i0) ev st = st" by (intro Suc.IH) auto
  moreover have "watch_table st i0 \<noteq> 0" "fd_at st i0 \<noteq> ev_fd (store st ev)" using Suc.prems by auto
  ultimately show ?case by (simp add: fd_at_def Let_def)
qed simp

lemma max_fd_bound:
  assumes "i \<in> watched st"
  shows "fd_at st i \<le> max_fd st"
proof -
  have "n \<le> fold (\<lambda>i n. let rev = watch_table st i in if rev \<noteq> 0 \<and> ev_fd (store st rev) > n then ev_fd (store st rev) else n) xs n \<and>
    (\<forall>i\<in>set xs. watch_table st i \<noteq> 0 \<longrightarrow>
      fd_at st i \<le> fold (\<lambda>i n. let rev = watch_table st i in if rev \<noteq> 0 \<and> ev_fd (store st rev) > n then ev_fd (store st rev) else n) xs n)"
    for xs n
  proof (induction xs arbitrary: n)
    case (Cons x xs)
    show ?case
      using Cons.IH[of "let rev = watch_table st x in if rev \<noteq> 0 \<and> ev_fd (store st rev) > n then ev_fd (store st rev) else n"]
      by (auto simp: Let_def fd_at_def split: if_splits)
  qed simp
  then show ?thesis using assms by (simp add: max_fd_def watched_def del: upt_Suc upt_rec_numeral)
qed

lemma event_add_ok:
  assumes "fds_ok st" and "ev \<noteq> 0" and "0 \<le> ev_fd (store st ev)" and "ev_fd (store st ev) \<notin> g_readFds st"
  shows "fds_ok (mcwill_event_add ev st) \<and>
     (if watched st = {..<MAX_FD_EVENTS} then mcwill_event_add ev st = st
      else \<exists>j. j < MAX_FD_EVENTS \<and> j \<notin> watched st \<and> {..<j} \<subseteq> watched st \<and>
        watch_table (mcwill_event_add ev st) = (watch_table st)(j := ev) \<and>
        g_readFds (mcwill_event_add ev st) = insert (ev_fd (store st ev)) (g_readFds st))"
proof (cases "watched st = {..<MAX_FD_EVENTS}")
  case True
  then have "i \<in> watched st" if "i < MAX_FD_EVENTS" for i using that by simp
  then have "watch_table st i \<noteq> 0 \<and> fd_at st i \<noteq> ev_fd (store st ev)" if "i < MAX_FD_EVENTS" for i
    using fds_okD(3)[OF assms(1), of i] assms(4) that by (auto simp: watched_def)
  then have "mcwill_event_add ev st = st"
    unfolding mcwill_event_add_def by (intro event_add_loop_full) simp
  then show ?thesis using True assms(1) by simp
next
  case False
  define j where "j = (LEAST j. j \<notin> watched st)"
  have "watched st \<subseteq> {..<MAX_FD_EVENTS}" by (auto simp: watched_def)
  then obtain k where k: "k < MAX_FD_EVENTS" "k \<notin> watched st" using False by blast
  have j: "j \<notin> watched st" "j \<le> k" unfolding j_def using LeastI[of "\<lambda>j. j \<notin> watched st", OF k(2)] Least_le[of "\<lambda>j. j \<notin> watched st", OF k(2)] by simp_all
  have below: "i \<in> watched st" if "i < j" for i using that not_less_Least[of i "\<lambda>j. j \<notin> watched st"] by (auto simp: j_def)
  have "j < MAX_FD_EVENTS" using j(2) k(1) by simp
  moreover then have jt: "watch_table st j = 0" using j(1) by (simp add: watched_def)
  moreover have "\<forall>i. 0 \<le> i \<and> i < j \<longrightarrow> watch_table st i \<noteq> 0 \<and> fd_at st i \<noteq> ev_fd (store st ev)"
    using below fds_okD(3)[OF assms(1)] assms(4) unfolding watched_def by force
  ultimately have run: "mcwill_event_add ev st = watch_at j ev st"
    unfolding mcwill_event_add_def by (intro event_add_loop_free) simp_all
  have out: "watch_table st i \<noteq> ev" if "i \<in> watched st" for i
    using fds_okD(3)[OF assms(1) that] assms(4) by (auto simp: fd_at_def)
  have w: "watched (watch_at j ev st) = insert j (watched st)"
    using \<open>j < MAX_FD_EVENTS\<close> assms(2) by (auto simp: watched_def watch_at_def)
  have f: "fd_at (watch_at j ev st) i = (if i = j then ev_fd (store st ev) else fd_at st i)" for i
    by (simp add: fd_at_def watch_at_def upd_ev_def)
  have im: "fd_at (watch_at j ev st) ` watched st = g_readFds st"
    using j(1) assms(1) by (auto simp: f fds_ok_def image_iff)
  have ix: "ev_index (store (watch_at j ev st) (watch_table (watch_at j ev st) i)) = int i" if "i \<in> insert j (watched st)" for i
    using that out[of i] j(1) fds_okD(1)[OF assms(1), of i] by (auto simp: watch_at_def upd_ev_def)
  have "inj_on (fd_at (watch_at j ev st)) (insert j (watched st))"
  proof -
    have "inj_on (fd_at (watch_at j ev st)) (watched st)"
      using assms(1) j(1) by (auto simp: fds_ok_def inj_on_def f)
    then show ?thesis using im assms(4) j(1) by (simp add: f)
  qed
  moreover have "g_readFds (watch_at j ev st) = insert (ev_fd (store st ev)) (g_readFds st)"
    "g_nfds (watch_at j ev st) = max (g_nfds st) (ev_fd (store st ev) + 1)" by (simp_all add: watch_at_def)
  ultimately have "fds_ok (watch_at j ev st)"
    using ix assms(1,3) im unfolding fds_ok_def w by (auto simp: f less_max_iff_disj)
  then show ?thesis unfolding run using False j(1) \<open>j < MAX_FD_EVENTS\<close> below by (auto simp: watch_at_def)
qed

text \<open>
  Adding an event for a descriptor that is not watched yet keeps the table right and puts the event
  in the first free entry; when the fifteen entries are taken nothing happens at all, and the caller is
  not told.
\<close>

theorem event_add_first_free:
  assumes "fds_ok st" and "ev \<noteq> 0" and "0 \<le> ev_fd (store st ev)" and "ev_fd (store st ev) \<notin> g_readFds st"
  shows "fds_ok (mcwill_event_add ev st) \<and>
     (if watched st = {..<MAX_FD_EVENTS} then mcwill_event_add ev st = st
      else \<exists>j. j < MAX_FD_EVENTS \<and> j \<notin> watched st \<and> {..<j} \<subseteq> watched st \<and>
        watch_table (mcwill_event_add ev st) = (watch_table st)(j := ev) \<and>
        g_readFds (mcwill_event_add ev st) = insert (ev_fd (store st ev)) (g_readFds st))"
  using assms by (rule event_add_ok)

lemma fds_ok_init: "fds_ok (mcwill_event_init st)"
  by (simp add: fds_ok_def watched_def mcwill_event_init_def)

text \<open>Taking entry \<open>i\<close> out of a right table leaves a right table.\<close>

lemma removeWatch_ok:
  assumes "fds_ok st" and "i \<in> watched st" and "watch_table st i = ev"
  shows "fds_ok (removeWatch ev i st) \<and> watched (removeWatch ev i st) = watched st - {i} \<and>
     g_readFds (removeWatch ev i st) = g_readFds st - {ev_fd (store st ev)} \<and>
     watch_table (removeWatch ev i st) = (watch_table st)(i := 0)"
proof -
  let ?r = "removeWatch ev i st"
  let ?s = "st\<lparr>watch_table := (watch_table st)(i := 0), store := upd_ev ev (\<lambda>e. e\<lparr>ev_index := -1\<rparr>) (store st),
    g_readFds := g_readFds st - {ev_fd (store st ev)}\<rparr>"
  have r: "?r = (if ev_fd (store st ev) + 1 = g_nfds st then ?s\<lparr>g_nfds := max_fd ?s + 1\<rparr> else ?s)"
    by (simp add: removeWatch_def Let_def upd_ev_def)
  have t: "watch_table ?r = (watch_table st)(i := 0)" "g_readFds ?r = g_readFds st - {fd_at st i}"
    "store ?r = upd_ev ev (\<lambda>e. e\<lparr>ev_index := -1\<rparr>) (store st)" using assms(3) by (simp_all add: r fd_at_def)
  have w: "watched ?r = watched st - {i}" "watched ?s = watched st - {i}" by (auto simp: watched_def t)
  have f: "fd_at ?r k = fd_at st k" "fd_at ?s k = fd_at st k" if "k \<noteq> i" for k
    using that by (simp_all add: fd_at_def t upd_ev_def)
  have inj: "inj_on (fd_at st) (watched st)" and im: "g_readFds st = fd_at st ` watched st" using assms(1) by (simp_all add: fds_ok_def)
  have "fd_at ?r ` (watched st - {i}) = fd_at st ` (watched st - {i})" using f(1) by (intro image_cong) auto
  also have "\<dots> = g_readFds st - {fd_at st i}" using inj_on_image_set_diff[OF inj, of "watched st" "{i}"] assms(2) im by simp
  finally have im': "g_readFds ?r = fd_at ?r ` watched ?r" using t(2) w(1) by simp
  have ix: "ev_index (store ?r (watch_table ?r k)) = int k \<and> 0 \<le> fd_at ?r k" if "k \<in> watched ?r" for k
  proof -
    have k: "k \<in> watched st" "k \<noteq> i" using that w(1) by auto
    moreover have "watch_table st k \<noteq> ev" using fds_okD(1)[OF assms(1) k(1)] fds_okD(1)[OF assms(1,2)] assms(3) k(2) by auto
    ultimately show ?thesis using fds_okD[OF assms(1) k(1)] f(1) by (simp add: t upd_ev_def)
  qed
  have "inj_on (fd_at ?r) (watched ?r)"
  proof -
    have "inj_on (fd_at st) (watched st - {i})" by (rule inj_on_subset[OF inj]) auto
    then show ?thesis unfolding w(1) using f(1) by (auto simp: inj_on_def)
  qed
  moreover have "fd_at ?r k < g_nfds ?r" if "k \<in> watched ?r" for k
  proof -
    have k: "k \<in> watched st" "k \<noteq> i" using that w(1) by auto
    then have "fd_at st k < g_nfds st" using assms(1) by (auto simp: fds_ok_def)
    moreover have "fd_at ?s k \<le> max_fd ?s" using that w by (intro max_fd_bound) simp
    ultimately show ?thesis using f[OF k(2)] by (simp add: r)
  qed
  ultimately have "fds_ok ?r" using ix im' unfolding fds_ok_def by auto
  then show ?thesis using w(1) t assms(3) by (simp add: fd_at_def)
qed

lemma event_del_watched:
  assumes "ev_index (store st ev) = int i" and "i < MAX_FD_EVENTS" and "ev_fd (store st ev) \<noteq> 0 \<or> i \<noteq> 0"
  shows "mcwill_event_del ev pFd st =
     (if pFd > 0 then (-1, (removeWatch ev i st)\<lparr>closed := pFd # closed st\<rparr>) else (pFd, removeWatch ev i st))"
proof -
  have "closed (removeWatch ev i st) = closed st" by (simp add: removeWatch_def Let_def)
  then show ?thesis using assms by (auto simp: mcwill_event_del_def Let_def)
qed

lemma event_del_ok:
  assumes "fds_ok st" and "i \<in> watched st" and "watch_table st i = ev" and "ev_fd (store st ev) \<noteq> 0 \<or> i \<noteq> 0"
  shows "\<exists>fd st'. mcwill_event_del ev pFd st = (fd, st') \<and> fds_ok st' \<and> watched st' = watched st - {i} \<and>
     g_readFds st' = g_readFds st - {ev_fd (store st ev)} \<and>
     (if pFd > 0 then fd = -1 \<and> closed st' = pFd # closed st else fd = pFd \<and> closed st' = closed st)"
proof -
  have i: "ev_index (store st ev) = int i" "i < MAX_FD_EVENTS"
    using fds_okD(1)[OF assms(1,2)] assms(2,3) by (simp_all add: watched_def)
  have w: "watched (s\<lparr>closed := c\<rparr>) = watched s" "fd_at (s\<lparr>closed := c\<rparr>) = fd_at s" for s :: ev_st and c
    by (simp_all add: watched_def fd_at_def fun_eq_iff)
  have up: "fds_ok (s\<lparr>closed := c\<rparr>) = fds_ok s" for s :: ev_st and c
    unfolding fds_ok_def w by simp
  have "closed (removeWatch ev i st) = closed st" by (simp add: removeWatch_def Let_def)
  then show ?thesis
    unfolding event_del_watched[OF i assms(4)] using removeWatch_ok[OF assms(1-3)] by (simp add: up w)
qed

text \<open>
  Deleting a watched event frees its entry, takes its descriptor and nothing else out of the set
  for \<^verbatim>\<open>select\<close>, keeps the table right, and closes the caller's descriptor once when there is one, which
  becomes \<open>-1\<close>. (An event at entry 0 with descriptor 0 is taken for one that was never added.)
\<close>

theorem event_del_removes:
  assumes "fds_ok st" and "i \<in> watched st" and "watch_table st i = ev" and "ev_fd (store st ev) \<noteq> 0 \<or> i \<noteq> 0"
  shows "\<exists>fd st'. mcwill_event_del ev pFd st = (fd, st') \<and> fds_ok st' \<and> watched st' = watched st - {i} \<and>
     g_readFds st' = g_readFds st - {ev_fd (store st ev)} \<and>
     (if pFd > 0 then fd = -1 \<and> closed st' = pFd # closed st else fd = pFd \<and> closed st' = closed st)"
  using assms by (rule event_del_ok)

text \<open>
  The search for a free entry does not look behind it. When the descriptor of the new event is already
  watched behind a free entry, it is watched twice; deleting the new event then takes the descriptor out
  of the set for \<^verbatim>\<open>select\<close> although the old event is still in the table, so the old event never fires again.
\<close>

theorem event_add_duplicate:
  assumes "fds_ok st" and "ev \<noteq> 0" and "ev_fd (store st ev) \<noteq> 0" and "\<forall>i<MAX_FD_EVENTS. watch_table st i \<noteq> ev"
    and "h \<notin> watched st" and "{..<h} \<subseteq> watched st" and "h < j" and "j \<in> watched st" and "fd_at st j = ev_fd (store st ev)"
  shows "\<exists>st1 st2. mcwill_event_add ev st = st1 \<and> {h, j} \<subseteq> watched st1 \<and> fd_at st1 h = fd_at st1 j \<and>
     snd (mcwill_event_del ev (-1) st1) = st2 \<and> j \<in> watched st2 \<and> fd_at st2 j = fd_at st j \<and> fd_at st2 j \<notin> g_readFds st2"
proof -
  have inj: "inj_on (fd_at st) (watched st)" using assms(1) by (simp add: fds_ok_def)
  have j: "j < MAX_FD_EVENTS" using assms(8) by (simp add: watched_def)
  have h: "h < MAX_FD_EVENTS" "watch_table st h = 0" using assms(5,7) j by (simp_all add: watched_def)
  have "watch_table st i \<noteq> 0 \<and> fd_at st i \<noteq> ev_fd (store st ev)" if "i < h" for i
  proof -
    have "i \<in> watched st" "i \<noteq> j" using that assms(6,7) by auto
    then show ?thesis using inj assms(8,9) by (auto simp: inj_on_def watched_def)
  qed
  then have run: "mcwill_event_add ev st = watch_at h ev st"
    unfolding mcwill_event_add_def using h by (intro event_add_loop_free) simp_all
  let ?s = "watch_at h ev st"
  have f: "fd_at ?s h = ev_fd (store st ev)" "fd_at ?s j = ev_fd (store st ev)" "{h, j} \<subseteq> watched ?s"
    using assms(2,7,8,9) h(1) by (auto simp: fd_at_def watch_at_def upd_ev_def watched_def)
  have ev: "ev_index (store ?s ev) = int h" "ev_fd (store ?s ev) = ev_fd (store st ev)" by (simp_all add: watch_at_def upd_ev_def)
  have del: "snd (mcwill_event_del ev (-1) ?s) = removeWatch ev h ?s"
    using event_del_watched[OF ev(1) h(1), of "-1"] ev(2) assms(3) by simp
  have "j \<in> watched (removeWatch ev h ?s)" "fd_at (removeWatch ev h ?s) j = ev_fd (store st ev)"
    "ev_fd (store st ev) \<notin> g_readFds (removeWatch ev h ?s)"
    using f assms(7) ev(2) by (auto simp: removeWatch_def Let_def watched_def fd_at_def upd_ev_def)
  then show ?thesis using run f del assms(9) by auto
qed

text \<open>Event 3 is watched at entry 0 for descriptor 4, event 5 at entry 2 for descriptor 7; event 8 also has descriptor 7.\<close>

definition watch_demo :: ev_st where
  "watch_demo = \<lparr>store = (\<lambda>_. event_zero)(3 := event_zero\<lparr>ev_fd := 4\<rparr>, 5 := event_zero\<lparr>ev_fd := 7, ev_index := 2\<rparr>,
       8 := event_zero\<lparr>ev_fd := 7, ev_index := -1\<rparr>, 9 := event_zero\<lparr>ev_fd := 11, ev_index := -1\<rparr>),
     watch_table = (\<lambda>_. 0)(0 := 3, 2 := 5), g_readFds = {4, 7}, g_nfds = 8, closed = []\<rparr>"

lemma watch_demo_ok: "watched watch_demo = {0, 2}" "fds_ok watch_demo"
proof -
  show w: "watched watch_demo = {0, 2}" by (auto simp: watched_def watch_demo_def)
  show "fds_ok watch_demo" unfolding fds_ok_def w by (auto simp: watch_demo_def fd_at_def event_zero_def)
qed

theorem event_add_first_free_witness:
  "fds_ok (mcwill_event_add 9 watch_demo) \<and> g_readFds (mcwill_event_add 9 watch_demo) = {4, 7, 11}"
proof -
  have "{0, 2} \<noteq> {..<MAX_FD_EVENTS}"
  proof
    assume "{0, 2} = {..<MAX_FD_EVENTS}"
    then have "(1 :: nat) \<in> {0, 2}" by simp
    then show False by simp
  qed
  then show ?thesis
    using event_add_first_free[OF watch_demo_ok(2), of 9] by (auto simp: watch_demo_ok(1)) (auto simp: watch_demo_def)
qed

theorem event_del_removes_witness:
  "\<exists>st'. mcwill_event_del 5 7 watch_demo = (-1, st') \<and> fds_ok st' \<and> watched st' = {0} \<and> g_readFds st' = {4} \<and> closed st' = [7]"
proof -
  have "2 \<in> watched watch_demo" "watch_table watch_demo 2 = 5" "ev_fd (store watch_demo 5) = 7"
    "g_readFds watch_demo = {4, 7}" "closed watch_demo = []" by (simp_all add: watch_demo_ok(1)) (simp_all add: watch_demo_def)
  then show ?thesis
    using event_del_removes[OF watch_demo_ok(2), of 2 5 7] by (auto simp: watch_demo_ok(1))
qed

theorem event_add_duplicate_witness:
  "\<exists>st2. snd (mcwill_event_del 8 (-1) (mcwill_event_add 8 watch_demo)) = st2 \<and> 2 \<in> watched st2 \<and> fd_at st2 2 = 7 \<and> 7 \<notin> g_readFds st2"
proof -
  have "ev_fd (store watch_demo 8) = 7" "fd_at watch_demo 2 = 7" "\<forall>i<MAX_FD_EVENTS. watch_table watch_demo i \<noteq> 8"
    "{..<1} \<subseteq> {0, 2 :: nat}" by (auto simp: watch_demo_def fd_at_def)
  then show ?thesis
    using event_add_duplicate[OF watch_demo_ok(2), of 8 1 2] by (auto simp: watch_demo_ok(1))
qed

end
