(* ===== verification/RATD_Daemon.thy ===== *)
theory RATD_Daemon
  imports RATD_Codec RATD_Event RATD_Record RATD_Queue
begin

text \<open>
  The host state of the multi-path daemon and the handlers that change it (\<^verbatim>\<open>mpcd.c\<close>): commands of the
  application, answers of the gateway, packets, timers and the threads of the send queues. Each
  handler is one step; what it asks the system for is the record \<open>sys_env\<close>, and what it sends, calls or
  starts is recorded in \<open>outs\<close>, newest first. Logging and the wake-up pipe of the event loop are left out.
\<close>

section \<open>Constants\<close>

abbreviation MAX_SUBFLOWS :: nat where "MAX_SUBFLOWS \<equiv> 3"
abbreviation MAX_COMMAND_BYTES :: nat where "MAX_COMMAND_BYTES \<equiv> 4096"

abbreviation MP_STATE :: U32 where "MP_STATE \<equiv> 0"
abbreviation MP_STREAM_FLAG_MCWILL :: U32 where "MP_STREAM_FLAG_MCWILL \<equiv> 1"
abbreviation MP_STREAM_FLAG_4G :: U32 where "MP_STREAM_FLAG_4G \<equiv> 2"
abbreviation MP_STREAM_FLAG_WIFI :: U32 where "MP_STREAM_FLAG_WIFI \<equiv> 4"
abbreviation MP_STREAM_FLAG_TUN0 :: U32 where "MP_STREAM_FLAG_TUN0 \<equiv> 6"

abbreviation NETWORK_DOWN :: U32 where "NETWORK_DOWN \<equiv> 0"
abbreviation NETWORK_UP :: U32 where "NETWORK_UP \<equiv> 1"
abbreviation NETWORK_MP_DISABLE :: U32 where "NETWORK_MP_DISABLE \<equiv> 2"
abbreviation NETWORK_MP_ENABLE :: U32 where "NETWORK_MP_ENABLE \<equiv> 3"

abbreviation EXCEPTION_CODE_MP_IDLE :: U32 where "EXCEPTION_CODE_MP_IDLE \<equiv> - 6"
abbreviation EXCEPTION_CODE_MP_ACTIVIE :: U32 where "EXCEPTION_CODE_MP_ACTIVIE \<equiv> - 5"
abbreviation EXCEPTION_CODE_MP_TUN_CLOSE :: U32 where "EXCEPTION_CODE_MP_TUN_CLOSE \<equiv> - 3"
abbreviation EXCEPTION_CODE_MP_SUBFLOW_ERROR :: U32 where "EXCEPTION_CODE_MP_SUBFLOW_ERROR \<equiv> - 1"

abbreviation TIMER_DEFAULT_INTERVAR_FOR_SACK :: int where "TIMER_DEFAULT_INTERVAR_FOR_SACK \<equiv> 10000"
abbreviation TIMER_DEFAULT_INTERVAR_FOR_KEEPALIVE_CHECK :: int where "TIMER_DEFAULT_INTERVAR_FOR_KEEPALIVE_CHECK \<equiv> 30"
abbreviation ONE_M :: "64 word" where "ONE_M \<equiv> 1048576"

text \<open>The addresses of the events, of which that of the timer is allocated, and the numbers of the callbacks.\<close>

abbreviation s_tun_event :: nat where "s_tun_event \<equiv> 10"
abbreviation s_listen_event :: nat where "s_listen_event \<equiv> 11"
abbreviation s_commands_event :: nat where "s_commands_event \<equiv> 12"
abbreviation s_wakeupfd_event :: nat where "s_wakeupfd_event \<equiv> 13"
abbreviation s_netlink_event :: nat where "s_netlink_event \<equiv> 14"
abbreviation ack_event :: nat where "ack_event \<equiv> 15"
abbreviation data_event :: "nat \<Rightarrow> nat" where "data_event i \<equiv> 20 + i"
abbreviation command_event :: "nat \<Rightarrow> nat" where "command_event i \<equiv> 30 + i"

abbreviation cb_listen :: nat where "cb_listen \<equiv> 1"
abbreviation cb_commands :: nat where "cb_commands \<equiv> 2"
abbreviation cb_gateway :: nat where "cb_gateway \<equiv> 3"
abbreviation cb_data :: nat where "cb_data \<equiv> 4"
abbreviation cb_tun :: nat where "cb_tun \<equiv> 5"
abbreviation cb_ack :: nat where "cb_ack \<equiv> 6"
abbreviation cb_wakeup :: nat where "cb_wakeup \<equiv> 7"
abbreviation cb_netlink :: nat where "cb_netlink \<equiv> 8"

section \<open>State\<close>

datatype mp_status = MP_ACTIVED | MP_IDLE | MP_DISACTIVE

record netStatus =
  sub_mp_status :: U32
  commandFd :: int
  dataFd :: int
  haveEchoedstatistics :: "64 word"
  statistics :: "64 word"

datatype out =
    ToApp string
  | ToGateway int "U8 list"
  | NotifyMpd U32 U32
  | MpdInit U32
  | MpdPeriod
  | MpdSend int
  | MpdParse int
  | ClearRoutes
  | AddRoutes string
  | StartTask nat
  | FreeBuffer nat

record MPC_OPTS =
  op_uid :: U32
  dns_addr :: string
  svr_addr :: string

text \<open>
  \<open>mag\<close> holds \<^verbatim>\<open>mpc_op.localIp\<close> and the round-trip times \<^verbatim>\<open>RTTC\<close> of the subflows, \<open>detectTime\<close> the
  \<^verbatim>\<open>uptime\<close> of \<^verbatim>\<open>detectTimeInfo\<close>, \<open>dispatching\<close> whether \<^verbatim>\<open>s_mp_dispatch\<close> names a thread, \<open>quit\<close> the flag of
  a queue, \<open>mpd_ready\<close> whether \<^verbatim>\<open>stMpdFuncs\<close> is set.
\<close>

record daemon =
  ev :: ev_st
  s_mpstatus :: mp_status
  g_fdListen :: int
  g_fdConnected :: int
  loc_fd :: int
  subflow_nu :: int
  flow :: "nat \<Rightarrow> netStatus"
  mag :: mag_state
  detectTime :: "nat \<Rightarrow> int"
  mpc_op :: MPC_OPTS
  quit :: "nat \<Rightarrow> bool"
  dispatching :: "nat \<Rightarrow> bool"
  mpd_ready :: bool
  p_ack_event :: nat
  timeInt :: int
  g_keepAliveinfo :: int
  s_watchDog_reset :: bool
  g_log_enable :: bool
  outs :: "out list"

text \<open>
  What the system answers during one handler: new sockets, writes to a socket of the gateway, the writes
  to the application by offset, the tunnel device, times, the driver's calls.
\<close>

record sys_env =
  new_socket :: "nat \<Rightarrow> bool \<Rightarrow> int"
  udp_result :: "int \<Rightarrow> U8 list \<Rightarrow> int"
  app_write :: "nat \<Rightarrow> int"
  tun_open :: int
  now_tv :: timeval
  uptime :: int
  sysinfo_fails :: bool
  myUptimeMillis :: int
  getTimeStamp :: U32
  getRTTD :: "U32 \<Rightarrow> U32"
  period_exceptions :: "(U32 \<times> U32) list"
  parse_einval :: bool
  structs :: fresh_structs

definition out :: "out \<Rightarrow> daemon \<Rightarrow> daemon" where
  "out x d = d\<lparr>outs := x # outs d\<rparr>"

definition upd_flow :: "nat \<Rightarrow> (netStatus \<Rightarrow> netStatus) \<Rightarrow> daemon \<Rightarrow> daemon" where
  "upd_flow i f d = d\<lparr>flow := (flow d)(i := f (flow d i))\<rparr>"

definition upd_ev_st :: "(ev_st \<Rightarrow> ev_st) \<Rightarrow> daemon \<Rightarrow> daemon" where
  "upd_ev_st f d = d\<lparr>ev := f (ev d)\<rparr>"

text \<open>A walk along a damaged list does not end: it counts as a loop that exceeds its bound.\<close>

definition ends :: "'a res option \<Rightarrow> 'a res" where
  "ends r = (case r of None \<Rightarrow> Inl OutOfFuel | Some x \<Rightarrow> x)"

section \<open>Sockets\<close>

definition watch :: "nat \<Rightarrow> int \<Rightarrow> bool \<Rightarrow> nat \<Rightarrow> nat \<Rightarrow> int \<Rightarrow> daemon \<Rightarrow> daemon" where
  "watch e fd persist cb param netType d =
     upd_ev_st (\<lambda>s. mcwill_event_add e (mcwill_event_set e fd persist cb param netType s)) d"

text \<open>\<^verbatim>\<open>mcwill_event_del\<close> on the descriptors of a subflow and on the others.\<close>

definition del_data :: "nat \<Rightarrow> daemon \<Rightarrow> daemon" where
  "del_data i d =
     (let (fd, s) = mcwill_event_del (data_event i) (dataFd (flow d i)) (ev d)
      in upd_flow i (\<lambda>n. n\<lparr>dataFd := fd\<rparr>) (d\<lparr>ev := s\<rparr>))"

definition del_command :: "nat \<Rightarrow> daemon \<Rightarrow> daemon" where
  "del_command i d =
     (let (fd, s) = mcwill_event_del (command_event i) (commandFd (flow d i)) (ev d)
      in upd_flow i (\<lambda>n. n\<lparr>commandFd := fd\<rparr>) (d\<lparr>ev := s\<rparr>))"

definition del_tun :: "daemon \<Rightarrow> daemon" where
  "del_tun d = (let (fd, s) = mcwill_event_del s_tun_event (loc_fd d) (ev d) in d\<lparr>ev := s, loc_fd := fd\<rparr>)"

definition del_connected :: "daemon \<Rightarrow> daemon" where
  "del_connected d = (let (fd, s) = mcwill_event_del s_commands_event (g_fdConnected d) (ev d) in d\<lparr>ev := s, g_fdConnected := fd\<rparr>)"

definition udp_write :: "sys_env \<Rightarrow> int \<Rightarrow> U8 list \<Rightarrow> daemon \<Rightarrow> int \<times> daemon" where
  "udp_write env fd b d =
     (if fd \<le> 0 then (-1, d)
      else let r = udp_result env fd b in (r, if r > 0 then out (ToGateway fd b) d else d))"

section \<open>Messages to the application\<close>

text \<open>
  A write may be partial; one that fails, with \<^verbatim>\<open>EAGAIN\<close> too, ends the connection. The fuel is the length of
  the message: each round writes at least a byte.
\<close>

fun blockingWrite_loop :: "nat \<Rightarrow> nat \<Rightarrow> nat \<Rightarrow> (nat \<Rightarrow> int) \<Rightarrow> bool res" where
  "blockingWrite_loop fuel writeOffset len w =
     (if writeOffset < len
      then (if fuel = 0 then Inl OutOfFuel
            else if w writeOffset \<ge> 0 then blockingWrite_loop (fuel - 1) (writeOffset + nat (w writeOffset)) len w
            else Inr False)
      else Inr True)"

declare blockingWrite_loop.simps [simp del]

definition sendResponseRaw :: "sys_env \<Rightarrow> string \<Rightarrow> daemon \<Rightarrow> daemon res" where
  "sendResponseRaw env msg d =
     (if g_fdConnected d < 0 then Inr d
      else if length msg > MAX_COMMAND_BYTES then Inr d
      else bindR (blockingWrite_loop (length msg) 0 (length msg) (app_write env)) (\<lambda>ok.
             if ok then Inr (out (ToApp msg) d)
             else Inr (upd_ev_st (mcwill_event_add s_listen_event) (del_connected d))))"

definition echoAppException :: "sys_env \<Rightarrow> U32 \<Rightarrow> U32 \<Rightarrow> daemon \<Rightarrow> daemon res" where
  "echoAppException env exceptionCode netType d =
     (let d = (if exceptionCode = EXCEPTION_CODE_MP_IDLE then d\<lparr>s_mpstatus := MP_IDLE\<rparr> else d)
      in bindR (encodeExceptionRsp MESSAGE_TYPE_EXCEPTION exceptionCode netType) (\<lambda>m. sendResponseRaw env m d))"

definition echoAppResult :: "sys_env \<Rightarrow> U32 \<Rightarrow> U32 \<Rightarrow> U32 \<Rightarrow> daemon \<Rightarrow> daemon res" where
  "echoAppResult env mt sid r d = bindR (encodeAppRsp mt sid r) (\<lambda>m. sendResponseRaw env m d)"

definition echoAppKeepAlive :: "sys_env \<Rightarrow> U32 \<Rightarrow> U32 \<Rightarrow> daemon \<Rightarrow> daemon res" where
  "echoAppKeepAlive env mt sid d = bindR (encodeAppTypeAndSessionId mt sid) (\<lambda>m. sendResponseRaw env m d)"

definition echoAppResultWithNetType :: "sys_env \<Rightarrow> U32 \<Rightarrow> U32 \<Rightarrow> U32 \<Rightarrow> U32 \<Rightarrow> daemon \<Rightarrow> daemon res" where
  "echoAppResultWithNetType env mt sid netType r d =
     bindR (encodeAppRspWithNetType mt sid netType r) (\<lambda>m. sendResponseRaw env m d)"

definition echoAppStreamStatistics :: "sys_env \<Rightarrow> U32 \<Rightarrow> U32 \<Rightarrow> 64 word \<Rightarrow> daemon \<Rightarrow> daemon res" where
  "echoAppStreamStatistics env mt netType st d =
     bindR (encodeAppRspStatistics mt netType st) (\<lambda>m. sendResponseRaw env m d)"

text \<open>A subflow whose count has grown by more than a megabyte since the last report is reported.\<close>

definition echoStatistics_flow :: "sys_env \<Rightarrow> nat \<Rightarrow> daemon \<Rightarrow> daemon res" where
  "echoStatistics_flow env i d =
     (let n = flow d i
      in if dataFd n > 0 \<and> statistics n - haveEchoedstatistics n > ONE_M
         then bindR (echoAppStreamStatistics env MESSAGE_TYPE_NOTIFY_STATICS (if i * 2 = 0 then 1 else of_nat (i * 2)) (statistics n) d)
                (\<lambda>d. Inr (upd_flow i (\<lambda>n. n\<lparr>haveEchoedstatistics := statistics n\<rparr>) d))
         else Inr d)"

definition echoAppAllSubStatistics :: "sys_env \<Rightarrow> daemon \<Rightarrow> daemon res" where
  "echoAppAllSubStatistics env d = forR (echoStatistics_flow env) [0..<MAX_SUBFLOWS] d"

section \<open>Driver and host status\<close>

definition notifyMpdNetStatus :: "U32 \<Rightarrow> U32 \<Rightarrow> daemon \<Rightarrow> daemon" where
  "notifyMpdNetStatus netType netStatus d = (if mpd_ready d then out (NotifyMpd netType netStatus) d else d)"

definition updateCurrentSubFlowsNum :: "daemon \<Rightarrow> daemon" where
  "updateCurrentSubFlowsNum d =
     d\<lparr>subflow_nu := fold (\<lambda>i flows. if sub_mp_status (flow d i) = NETWORK_MP_ENABLE then flows + 1 else flows) [0..<MAX_SUBFLOWS] 0\<rparr>"

definition enableTimerTask :: "sys_env \<Rightarrow> int \<Rightarrow> nat \<Rightarrow> nat \<Rightarrow> daemon \<Rightarrow> daemon res" where
  "enableTimerTask env interval e func d =
     (case mcwill_timer_check_exist e (ev d) of
        None \<Rightarrow> Inl OutOfFuel
      | Some True \<Rightarrow> Inr d
      | Some False \<Rightarrow>
          bindR (ends (mcwill_timer_add e (now_tv env) (Timeval 0 interval) (mcwill_event_set e (-1) False func e 0 (ev d))))
            (\<lambda>s. Inr (d\<lparr>ev := s\<rparr>)))"

definition enableAckTimer :: "sys_env \<Rightarrow> daemon \<Rightarrow> daemon res" where
  "enableAckTimer env d =
     (if p_ack_event d = 0
      then enableTimerTask env TIMER_DEFAULT_INTERVAR_FOR_SACK ack_event cb_ack (d\<lparr>p_ack_event := ack_event\<rparr>)
      else Inr d)"

definition switchMPToActivite :: "sys_env \<Rightarrow> daemon \<Rightarrow> daemon res" where
  "switchMPToActivite env d =
     (if s_mpstatus d = MP_IDLE
      then bindR (echoAppException env EXCEPTION_CODE_MP_ACTIVIE MP_STATE (d\<lparr>s_mpstatus := MP_ACTIVED\<rparr>)) (enableAckTimer env)
      else Inr d)"

text \<open>
  The ten-millisecond timer. The driver may report exceptions while it works; the event is freed
  when the timer is not armed again.
\<close>

definition userTimerAckCallback :: "sys_env \<Rightarrow> nat \<Rightarrow> daemon \<Rightarrow> daemon res" where
  "userTimerAckCallback env param d =
     bindR
       (if mpd_ready d \<and> s_mpstatus d = MP_ACTIVED
        then
          let t = timeInt d; d = d\<lparr>timeInt := timeInt d + 1\<rparr>
          in bindR (if t = 200 then echoAppAllSubStatistics env (d\<lparr>timeInt := 0\<rparr>) else Inr d) (\<lambda>d.
               forR (\<lambda>(code, nt). echoAppException env code nt) (period_exceptions env) (out MpdPeriod d))
        else Inr d)
       (\<lambda>d. if subflow_nu d > 0 \<and> s_mpstatus d = MP_ACTIVED \<and> param \<noteq> 0
            then (if p_ack_event d \<noteq> param then Inl AssertFail
                  else enableTimerTask env TIMER_DEFAULT_INTERVAR_FOR_SACK (p_ack_event d) cb_ack d)
            else Inr (d\<lparr>p_ack_event := 0\<rparr>))"

section \<open>Closing subflows\<close>

definition removeSpecifiedSubFlow :: "nat \<Rightarrow> daemon \<Rightarrow> daemon" where
  "removeSpecifiedSubFlow i d =
     (let d = d\<lparr>quit := (quit d)(i := True)\<rparr>;
          d = upd_flow i (\<lambda>n. n\<lparr>sub_mp_status := NETWORK_MP_DISABLE\<rparr>) d;
          d = updateCurrentSubFlowsNum d;
          d = d\<lparr>mag := (mag d)\<lparr>RTTC := (RTTC (mag d))(i := 0)\<rparr>\<rparr>;
          d = (if dataFd (flow d i) > 0 then del_data i d else d)
      in if commandFd (flow d i) > 0 then del_command i d else d)"

text \<open>One flag is chosen, the last one tested.\<close>

definition flag_index :: "U8 \<Rightarrow> nat option" where
  "flag_index numberType =
     (if ucast MP_STREAM_FLAG_WIFI AND numberType \<noteq> 0 then Some 2
      else if ucast MP_STREAM_FLAG_MCWILL AND numberType \<noteq> 0 then Some 0
      else if ucast MP_STREAM_FLAG_4G AND numberType \<noteq> 0 then Some 1
      else None)"

definition removeSubFlowsEvent :: "U8 \<Rightarrow> daemon \<Rightarrow> daemon" where
  "removeSubFlowsEvent numberType d =
     (case flag_index numberType of None \<Rightarrow> d | Some i \<Rightarrow> if i < MAX_SUBFLOWS then removeSpecifiedSubFlow i d else d)"

definition removeFlow :: "nat \<Rightarrow> daemon \<Rightarrow> daemon" where
  "removeFlow i d =
     (let d = (if dataFd (flow d i) > 0 then del_data i d else d);
          d = (if commandFd (flow d i) > 0 then del_command i d else d);
          d = d\<lparr>quit := (quit d)(i := True)\<rparr>;
          d = upd_flow i (\<lambda>n. n\<lparr>haveEchoedstatistics := 0, statistics := 0, sub_mp_status := NETWORK_MP_DISABLE\<rparr>) d
      in d\<lparr>mag := (mag d)\<lparr>RTTC := (RTTC (mag d))(i := 0)\<rparr>\<rparr>)"

definition removeAllSubFlowsEvent :: "daemon \<Rightarrow> daemon" where
  "removeAllSubFlowsEvent d = (fold removeFlow [0..<3] d)\<lparr>subflow_nu := 0\<rparr>"

text \<open>The threads of the queues are told to stop.\<close>

definition finishAllDisPathTask :: "daemon \<Rightarrow> daemon" where
  "finishAllDisPathTask d = d\<lparr>quit := (\<lambda>i. if i < 3 \<and> dispatching d i then True else quit d i)\<rparr>"

definition finishsubflowDispathTask :: "U8 \<Rightarrow> daemon \<Rightarrow> daemon" where
  "finishsubflowDispathTask numberType d =
     (case flag_index numberType of
        None \<Rightarrow> d
      | Some i \<Rightarrow> if i < MAX_SUBFLOWS \<and> dispatching d i then d\<lparr>quit := (quit d)(i := True)\<rparr> else d)"

definition toReleaseMpResource :: "sys_env \<Rightarrow> daemon \<Rightarrow> daemon res" where
  "toReleaseMpResource env d =
     (let d = del_tun (out ClearRoutes d)
      in bindR (echoAppException env EXCEPTION_CODE_MP_TUN_CLOSE MP_STREAM_FLAG_TUN0 d) (\<lambda>d.
           let d = removeAllSubFlowsEvent d; d = d\<lparr>s_mpstatus := MP_DISACTIVE\<rparr>; d = finishAllDisPathTask d
           in Inr (notifyMpdNetStatus MP_STATE NETWORK_DOWN d)))"

end
