(* ===== verification/RATD_Handlers.thy ===== *)
theory RATD_Handlers
  imports RATD_Daemon
begin

text \<open>
  The callbacks and commands of the daemon (\<^verbatim>\<open>mpcd.c\<close>) over the host state: the connection of the
  application, its commands, the answers of the gateway, the packets of the tunnel and of the subflows,
  and the threads of the send queues.
\<close>

section \<open>Start\<close>

text \<open>\<^verbatim>\<open>initDefaultParams\<close>: the host is cleared, the subflows are those of \<^verbatim>\<open>_flow_name_status_key\<close>.\<close>

definition netStatus_init :: netStatus where
  "netStatus_init = \<lparr>sub_mp_status = 0, commandFd = -1, dataFd = -1, haveEchoedstatistics = 0, statistics = 0\<rparr>"

definition flow_event_init :: mcwill_event where
  "flow_event_init = event_zero\<lparr>ev_fd := -1, ev_index := -1\<rparr>"

definition initDefaultParams :: "daemon \<Rightarrow> daemon" where
  "initDefaultParams d =
     d\<lparr>g_keepAliveinfo := 0,
       mpc_op := \<lparr>op_uid = 0, dns_addr = ''172.16.251.77'', svr_addr = ''103.5.126.153''\<rparr>,
       mag := \<lparr>localIp = [], RTTC = (\<lambda>_. 0)\<rparr>, detectTime := (\<lambda>_. 0), loc_fd := 0, subflow_nu := 0,
       flow := (\<lambda>_. netStatus_init),
       ev := (ev d)\<lparr>store := (\<lambda>a. if a \<in> data_event ` {..<3} \<union> command_event ` {..<3} then flow_event_init else store (ev d) a)\<rparr>\<rparr>"

text \<open>The first part of \<^verbatim>\<open>eventLoop\<close>, then the end of \<^verbatim>\<open>main\<close>.\<close>

definition eventLoop_start :: "int \<Rightarrow> daemon \<Rightarrow> daemon" where
  "eventLoop_start wakeupRead d = watch s_wakeupfd_event wakeupRead True cb_wakeup 0 0 (upd_ev_st mcwill_event_init d)"

definition main_start :: "int \<Rightarrow> int \<Rightarrow> int \<Rightarrow> daemon \<Rightarrow> daemon" where
  "main_start wakeupRead listenFd netlinkFd d =
     (let d = eventLoop_start wakeupRead (out ClearRoutes (initDefaultParams d));
          d = watch s_listen_event listenFd False cb_listen 0 0 (d\<lparr>g_fdListen := listenFd\<rparr>)
      in if netlinkFd < 0 then d else watch s_netlink_event netlinkFd True cb_netlink 0 0 d)"

section \<open>Answers of the gateway\<close>

text \<open>The number of a subflow, half that of its network; the array has three.\<close>

definition fd_index :: "int \<Rightarrow> nat res" where
  "fd_index netType = (if 0 \<le> netType \<and> netType div 2 < 3 then Inr (nat (netType div 2)) else Inl OutOfBounds)"

definition openData :: "sys_env \<Rightarrow> nat \<Rightarrow> int \<Rightarrow> daemon \<Rightarrow> bool \<times> daemon" where
  "openData env i netType d =
     (let fd = new_socket env i False
      in if fd = -1 then (False, d)
         else (True, watch (data_event i) fd True cb_data i netType (upd_flow i (\<lambda>n. n\<lparr>dataFd := fd\<rparr>) d)))"

definition startDispatch :: "nat \<Rightarrow> int \<Rightarrow> daemon \<Rightarrow> daemon" where
  "startDispatch i netType d =
     (if \<not> dispatching d i then out (StartTask i) (d\<lparr>dispatching := (dispatching d)(i := True)\<rparr>)
      else notifyMpdNetStatus (word_of_int netType) NETWORK_MP_ENABLE (d\<lparr>quit := (quit d)(i := False)\<rparr>))"

text \<open>The tunnel device, unless it is open.\<close>

definition init_tun_network :: "sys_env \<Rightarrow> daemon \<Rightarrow> bool \<times> daemon" where
  "init_tun_network env d =
     (if loc_fd d > 0 then (True, d)
      else if tun_open env < 0 then (False, d)
      else (True, d\<lparr>loc_fd := tun_open env\<rparr>))"

definition startTunnel :: "sys_env \<Rightarrow> daemon \<Rightarrow> (bool \<times> daemon) res" where
  "startTunnel env d =
     (let (ok, d) = (if loc_fd d \<le> 0 then init_tun_network env d else (True, d))
      in if \<not> ok then Inr (False, d)
         else
           let d = out (AddRoutes (localIp (mag d))) (out ClearRoutes d);
               d = d\<lparr>s_mpstatus := MP_ACTIVED\<rparr>;
               d = watch s_tun_event (loc_fd d) True cb_tun 0 0 d
           in bindR (enableAckTimer env d) (\<lambda>d. Inr (True, d)))"

text \<open>
  A subflow was accepted. The result of a handler of an answer says whether the callback goes on with
  the next record.
\<close>

definition addSubflowRsp :: "sys_env \<Rightarrow> magRsp \<Rightarrow> int \<Rightarrow> daemon \<Rightarrow> (bool \<times> daemon) res" where
  "addSubflowRsp env rsp netType d =
     (if mag_result rsp \<noteq> 0 then Inr (True, d)
      else
        bindR (fd_index netType) (\<lambda>i.
          let failed = (\<lambda>d. bindR (echoAppResultWithNetType env (mag_messageType rsp) (mag_sessionId rsp) (word_of_int netType)
                                    RESULT_FAILED d) (\<lambda>d. Inr (False, d)));
              (ok, d) = (if dataFd (flow d i) < 0 then openData env i netType d else (True, d))
          in if \<not> ok then failed d
             else
               let d = startDispatch i netType d;
                   d = upd_flow i (\<lambda>n. n\<lparr>sub_mp_status := NETWORK_MP_ENABLE\<rparr>) d;
                   lastNum = subflow_nu d;
                   d = updateCurrentSubFlowsNum d
               in bindR (if lastNum = 0 \<and> subflow_nu d = 1 then startTunnel env d else Inr (True, d)) (\<lambda>(ok, d).
                    if \<not> ok then failed d
                    else
                      let d = (if subflow_nu d > int MAX_SUBFLOWS then d\<lparr>subflow_nu := int MAX_SUBFLOWS\<rparr> else d)
                      in bindR (echoAppResultWithNetType env (mag_messageType rsp) (mag_sessionId rsp) (word_of_int netType) RESULT_OK d)
                           (\<lambda>d. Inr (True, d)))))"

definition handleMagRsp :: "sys_env \<Rightarrow> magRsp \<Rightarrow> int \<Rightarrow> daemon \<Rightarrow> (bool \<times> daemon) res" where
  "handleMagRsp env rsp netType d =
     (if mag_messageType rsp = MESSAGE_TYPE_ADD_SUBFLOW_RSP then addSubflowRsp env rsp netType d
      else if mag_messageType rsp = MESSAGE_TYPE_TRY_SUBFLOW_RSP
      then bindR (fd_index netType) (\<lambda>i.
             bindR (echoAppResultWithNetType env (mag_messageType rsp) (mag_sessionId rsp) (word_of_int netType) (ucast (mag_result rsp))
                     (d\<lparr>detectTime := (detectTime d)(i := 0)\<rparr>)) (\<lambda>d. Inr (True, d)))
      else if mag_messageType rsp = MESSAGE_TYPE_RELEASE_MP_RSP
      then bindR (echoAppResult env (mag_messageType rsp) (mag_sessionId rsp) (ucast (mag_result rsp)) d) (\<lambda>d.
             bindR (if mag_result rsp = 0 then toReleaseMpResource env d else Inr d) (\<lambda>d. Inr (True, d)))
      else if mag_messageType rsp = MESSAGE_TYPE_SYNC_MP_INIT_RSP
      then bindR (echoAppResult env MESSAGE_TYPE_ENABLE_MP_RSP (mag_sessionId rsp) (ucast (mag_result rsp)) d) (\<lambda>d. Inr (True, d))
      else Inr (True, d))"

definition gatewayRecord :: "sys_env \<Rightarrow> U8 list \<Rightarrow> int \<Rightarrow> daemon \<Rightarrow> (bool \<times> daemon) res" where
  "gatewayRecord env b netType d =
     bindR (decodeMagCommandBuffer b netType (getTimeStamp env) (mag d)) (\<lambda>(rsp, m).
       let d = d\<lparr>mag := m\<rparr>
       in case rsp of None \<Rightarrow> Inr (True, d) | Some rsp \<Rightarrow> handleMagRsp env rsp netType d)"

text \<open>The stream is \<open>None\<close> once it has been freed, which the event it belongs to does not learn.\<close>

fun commandDataRecvCallback ::
  "sys_env \<Rightarrow> int \<Rightarrow> RecordStream \<Rightarrow> (nat \<Rightarrow> U8 list option) list \<Rightarrow> daemon \<Rightarrow> (RecordStream option \<times> daemon) res" where
  "commandDataRecvCallback env netType rs [] d = Inr (Some rs, d)"
| "commandDataRecvCallback env netType rs (rd # rds) d =
     bindR (record_stream_get_next rd rs) (\<lambda>(ret, r, rs).
       case r of
         None \<Rightarrow> Inr (None, d)
       | Some r \<Rightarrow>
           bindR (gatewayRecord env (record_bytes rs r) netType d) (\<lambda>(go, d).
             if go then commandDataRecvCallback env netType (clear_buffer rs) rds d else Inr (Some rs, d)))"

section \<open>Packets\<close>

text \<open>The length of a packet minus that of its header is an unsigned number.\<close>

definition normalDataRecvCallback :: "sys_env \<Rightarrow> nat \<Rightarrow> int \<Rightarrow> daemon \<Rightarrow> daemon res" where
  "normalDataRecvCallback env i len d =
     (if len \<le> 0 then Inr d
      else if i \<ge> MAX_SUBFLOWS then Inl OutOfBounds
      else
        bindR (if (word_of_int len - 12 :: U32) > 0 then switchMPToActivite env d else Inr d) (\<lambda>d.
          let d = upd_flow i (\<lambda>n. n\<lparr>statistics := statistics n + word_of_int len\<rparr>) d
          in if \<not> mpd_ready d then Inl NullDeref
             else
               let d = out (MpdParse len) d
               in Inr (if parse_einval env then del_data i d else d)))"

definition tunDataRecvCallback :: "sys_env \<Rightarrow> int \<Rightarrow> daemon \<Rightarrow> daemon res" where
  "tunDataRecvCallback env len d =
     (if len = 0 then Inr d
      else bindR (switchMPToActivite env d) (\<lambda>d.
             Inr (if len > 0 \<and> mpd_ready d then out (MpdSend (len + 12)) d else d)))"

text \<open>The round-trip time the driver asks for; an unknown number is answered with 0.\<close>

definition GetRTTC :: "int \<Rightarrow> daemon \<Rightarrow> U32 res" where
  "GetRTTC netType d =
     (let index = (if netType < 0 then - ((- netType) div 2) else netType div 2)
      in if index < 0 then Inl OutOfBounds else if index < 3 then Inr (RTTC (mag d) (nat index)) else Inr 0)"

section \<open>Commands of the application\<close>

definition openCommand :: "sys_env \<Rightarrow> nat \<Rightarrow> int \<Rightarrow> daemon \<Rightarrow> bool \<times> daemon" where
  "openCommand env i netType d =
     (let fd = new_socket env i True
      in if fd = -1 then (False, d)
         else (True, watch (command_event i) fd True cb_gateway (nat fd) netType (upd_flow i (\<lambda>n. n\<lparr>commandFd := fd\<rparr>) d)))"

definition sendOnSubflow :: "sys_env \<Rightarrow> U8 list \<Rightarrow> nat \<Rightarrow> daemon \<Rightarrow> daemon" where
  "sendOnSubflow env b i d =
     (if commandFd (flow d i) > 0
      then let (r, d) = udp_write env (commandFd (flow d i)) b d
           in if r = -1 then del_data i (del_command i d) else d
      else d)"

definition sendCommandMsgOnAllSubflows :: "sys_env \<Rightarrow> U8 list \<Rightarrow> daemon \<Rightarrow> daemon" where
  "sendCommandMsgOnAllSubflows env b d = fold (sendOnSubflow env b) [0..<3] d"

definition configMp :: "sys_env \<Rightarrow> r_app_config \<Rightarrow> daemon \<Rightarrow> daemon res" where
  "configMp env r d =
     (let d = d\<lparr>mpc_op := \<lparr>op_uid = cfg_uid r, dns_addr = cfg_dns r, svr_addr = cfg_mag r\<rparr>\<rparr>;
          d = out (MpdInit (op_uid (mpc_op d))) (d\<lparr>mpd_ready := True\<rparr>)
      in echoAppResult env MESSAGE_TYPE_CONFIG_MP_RSP (sessionId r) RESULT_OK d)"

text \<open>A write of -1 says that the device is gone.\<close>

definition subflowError :: "sys_env \<Rightarrow> int \<Rightarrow> U32 \<Rightarrow> daemon \<Rightarrow> daemon res" where
  "subflowError env r netType d =
     (if r = -1 then echoAppException env EXCEPTION_CODE_MP_SUBFLOW_ERROR netType d else Inr d)"

definition enableMp :: "sys_env \<Rightarrow> r_app_enable \<Rightarrow> daemon \<Rightarrow> daemon res" where
  "enableMp env r d =
     (let d = notifyMpdNetStatus MP_STATE NETWORK_UP d;
          req = \<lparr>messageType = MESSAGE_TYPE_SYNC_MP_INIT_REQ, sessionId = sessionId r, sync_uid = op_uid (mpc_op d), sync_numberType = 0\<rparr>
      in bindR (fd_index (int (unat (en_netType r)))) (\<lambda>i.
           let d = (if commandFd (flow d i) > 0 then del_command i d else d);
               (ok, d) = openCommand env i (int (unat (en_netType r))) d
           in if \<not> ok then echoAppResult env MESSAGE_TYPE_ENABLE_MP_RSP (sessionId r) RESULT_FAILED d
              else
                let (res, d) = udp_write env (commandFd (flow d i)) (fst (encodeMPSyncInitRequest (op_uid (mpc_op d)) req)) d
                in if res < 0
                   then bindR (subflowError env res (en_netType r) d)
                          (echoAppResult env MESSAGE_TYPE_ENABLE_MP_RSP (sessionId r) RESULT_FAILED)
                   else Inr d))"

definition releaseMp :: "sys_env \<Rightarrow> r_app_del \<Rightarrow> daemon \<Rightarrow> daemon res" where
  "releaseMp env r d =
     (if subflow_nu d \<le> 0
      then echoAppResultWithNetType env MESSAGE_TYPE_RELEASE_MP_RSP (sessionId r) (ucast (del_numberType r)) RESULT_FAILED d
      else Inr (sendCommandMsgOnAllSubflows env (fst (encodeMPReleaseRequest (op_uid (mpc_op d)) r)) d))"

text \<open>The encoder turns the session number of the command around, and the answer turns it back.\<close>

definition addSubflow :: "sys_env \<Rightarrow> r_app_add \<Rightarrow> daemon \<Rightarrow> daemon res" where
  "addSubflow env r d =
     bindR (fd_index (int (unat (add_netType r)))) (\<lambda>i.
       let (ok, d) = (if commandFd (flow d i) \<le> 0 then openCommand env i (int (unat (add_netType r))) d else (True, d))
       in if \<not> ok
          then echoAppResultWithNetType env MESSAGE_TYPE_ADD_SUBFLOW_RSP (sessionId r) (add_netType r) RESULT_FAILED d
          else
            let (b, r') = encodeAddRequest (op_uid (mpc_op d)) r;
                failed = echoAppResultWithNetType env MESSAGE_TYPE_ADD_SUBFLOW_RSP (htonl (sessionId r')) (add_netType r) RESULT_FAILED
            in if commandFd (flow d i) > 0
               then let (res, d) = udp_write env (commandFd (flow d i)) b d
                    in if res \<ge> 0 then Inr d else bindR (subflowError env res (add_netType r) d) failed
               else failed d)"

text \<open>Every network named by the flags is reported to the driver.\<close>

definition notifyRemoved :: "U8 \<Rightarrow> daemon \<Rightarrow> daemon" where
  "notifyRemoved t d =
     (let d = (if ucast MP_STREAM_FLAG_4G AND t \<noteq> 0 then notifyMpdNetStatus MP_STREAM_FLAG_4G NETWORK_MP_DISABLE d else d);
          d = (if ucast MP_STREAM_FLAG_MCWILL AND t \<noteq> 0 then notifyMpdNetStatus MP_STREAM_FLAG_MCWILL NETWORK_MP_DISABLE d else d)
      in if ucast MP_STREAM_FLAG_WIFI AND t \<noteq> 0 then notifyMpdNetStatus MP_STREAM_FLAG_WIFI NETWORK_MP_DISABLE d else d)"

definition delSubflow :: "sys_env \<Rightarrow> r_app_del \<Rightarrow> daemon \<Rightarrow> daemon res" where
  "delSubflow env r d =
     (if subflow_nu d \<le> 0
      then echoAppResultWithNetType env MESSAGE_TYPE_DEL_SUBFLOW_RSP (htonl (sessionId r)) (ucast (del_numberType r)) RESULT_FAILED d
      else
        let (b, r') = encodeDelRequest (op_uid (mpc_op d)) r; t = del_numberType r;
            d = sendCommandMsgOnAllSubflows env b d;
            d = removeSubFlowsEvent t d;
            d = finishsubflowDispathTask t d;
            d = notifyRemoved t d
        in bindR (echoAppResultWithNetType env MESSAGE_TYPE_DEL_SUBFLOW_RSP (htonl (sessionId r')) (ucast t) RESULT_OK d) (\<lambda>d.
             if subflow_nu d = 0
             then bindR (echoAppException env EXCEPTION_CODE_MP_TUN_CLOSE MP_STREAM_FLAG_TUN0 (del_tun d)) (\<lambda>d. Inr (out ClearRoutes d))
             else Inr d))"

text \<open>A command socket that has not answered for ten seconds is opened anew.\<close>

definition detectStall :: "sys_env \<Rightarrow> nat \<Rightarrow> daemon \<Rightarrow> daemon" where
  "detectStall env i d =
     (let set = (\<lambda>d. if sysinfo_fails env then d else d\<lparr>detectTime := (detectTime d)(i := uptime env)\<rparr>)
      in if commandFd (flow d i) > 0
         then if detectTime d i \<noteq> 0 \<and> \<not> sysinfo_fails env \<and> uptime env - detectTime d i > 10 then set (del_command i d)
              else if detectTime d i = 0 then set d else d
         else d)"

definition trySubflow :: "sys_env \<Rightarrow> r_app_try \<Rightarrow> daemon \<Rightarrow> daemon res" where
  "trySubflow env r d =
     bindR (fd_index (int (unat (try_netType r)))) (\<lambda>i.
       let d = detectStall env i d;
           (ok, d) = (if commandFd (flow d i) < 0 then openCommand env i (int (unat (try_netType r))) d else (True, d))
       in if \<not> ok
          then echoAppResultWithNetType env MESSAGE_TYPE_TRY_SUBFLOW_RSP (sessionId r) (try_netType r) RESULT_FAILED d
          else if \<not> mpd_ready d then Inl NullDeref
          else
            let (b, r') = encodeTryRequest (op_uid (mpc_op d)) (getTimeStamp env) (ucast (getRTTD env (try_netType r))) r;
                (res, d) = udp_write env (commandFd (flow d i)) b d
            in if res < 0
               then bindR (subflowError env res (try_netType r) d)
                      (echoAppResultWithNetType env MESSAGE_TYPE_TRY_SUBFLOW_RSP (htonl (sessionId r')) (try_netType r) RESULT_FAILED)
               else Inr d)"

definition handleCommand :: "sys_env \<Rightarrow> app_command \<Rightarrow> daemon \<Rightarrow> daemon res" where
  "handleCommand env c d =
     (case c of
        CONFIG_MP r \<Rightarrow> configMp env r d
      | ENABLE_MP r \<Rightarrow> enableMp env r d
      | DISABLE_MP r \<Rightarrow> bindR (toReleaseMpResource env d) (echoAppResult env MESSAGE_TYPE_DISABLE_MP_RSP (sessionId r) RESULT_OK)
      | RELEASE_MP r \<Rightarrow> releaseMp env r d
      | ADD_SUBFLOW r \<Rightarrow> addSubflow env r d
      | DEL_SUBFLOW r \<Rightarrow> delSubflow env r d
      | TRY_SUBFLOW r \<Rightarrow> trySubflow env r d
      | KEEPALIVE r \<Rightarrow> bindR (echoAppKeepAlive env MESSAGE_TYPE_KEEPALIVE_RSP (sessionId r) d) (\<lambda>d. Inr (d\<lparr>s_watchDog_reset := False\<rparr>))
      | ENABLE_LOG r \<Rightarrow> Inr (d\<lparr>g_log_enable := (log_operation r \<noteq> 0)\<rparr>))"

definition processAppCommandBuffer :: "sys_env \<Rightarrow> string \<Rightarrow> daemon \<Rightarrow> daemon res" where
  "processAppCommandBuffer env buffer d =
     bindR (decodeAppCommandBufferNew (structs env) buffer) (\<lambda>c.
       case c of None \<Rightarrow> Inr d | Some c \<Rightarrow> handleCommand env c (d\<lparr>g_keepAliveinfo := myUptimeMillis env\<rparr>))"

section \<open>The connection of the application\<close>

text \<open>The record as a C string: it needs a NUL inside the buffer.\<close>

definition c_string :: "nat \<Rightarrow> U8 list \<Rightarrow> string res" where
  "c_string n bs = (if length bs < n \<or> 0 \<in> set bs then Inr (map (\<lambda>b. char_of (unat b)) (takeWhile (\<lambda>b. b \<noteq> 0) bs)) else Inl OutOfBounds)"

definition appGone :: "daemon \<Rightarrow> daemon" where
  "appGone d = removeAllSubFlowsEvent ((del_tun (out ClearRoutes d))\<lparr>s_mpstatus := MP_DISACTIVE\<rparr>)"

definition appClosed :: "daemon \<Rightarrow> daemon" where
  "appClosed d = upd_ev_st (mcwill_event_add s_listen_event) (del_connected d)"

fun processAppCommandsCallback ::
  "sys_env \<Rightarrow> RecordStream \<Rightarrow> (nat \<Rightarrow> U8 list option) list \<Rightarrow> daemon \<Rightarrow> (RecordStream option \<times> daemon) res" where
  "processAppCommandsCallback env rs [] d = Inr (Some rs, d)"
| "processAppCommandsCallback env rs (rd # rds) d =
     bindR (record_stream_get_next rd rs) (\<lambda>(ret, r, rs).
       case r of
         None \<Rightarrow> Inr (None, appClosed (if ret = 0 then appGone d else d))
       | Some r \<Rightarrow>
           bindR (c_string (maxRecordLen rs + HEADER_SIZE) (record_bytes rs r)) (\<lambda>s.
             bindR (processAppCommandBuffer env s d) (processAppCommandsCallback env (clear_buffer rs) rds)))"

text \<open>\<open>fd\<close> is the answer of \<^verbatim>\<open>accept\<close>.\<close>

definition listenMcwillSocketCallback :: "int \<Rightarrow> daemon \<Rightarrow> daemon res" where
  "listenMcwillSocketCallback fd d =
     (if g_fdConnected d \<ge> 0 then Inl AssertFail
      else
        let d = d\<lparr>g_fdConnected := fd\<rparr>
        in if fd < 0 then Inr (upd_ev_st (mcwill_event_add s_listen_event) d)
           else bindR (record_stream_new MAX_COMMAND_BYTES) (\<lambda>rs. Inr (watch s_commands_event fd True cb_commands (nat fd) 0 d)))"

text \<open>One round of the keep-alive thread; the result says whether the process exits.\<close>

definition skeepAlive_check :: "sys_env \<Rightarrow> daemon \<Rightarrow> (bool \<times> daemon) res" where
  "skeepAlive_check env d =
     (if g_keepAliveinfo d \<noteq> 0 \<and> s_mpstatus d \<noteq> MP_DISACTIVE \<and> myUptimeMillis env \<noteq> 0 \<and>
         myUptimeMillis env - g_keepAliveinfo d > TIMER_DEFAULT_INTERVAR_FOR_KEEPALIVE_CHECK * 1000
      then bindR (toReleaseMpResource env
                    (d\<lparr>ev := (ev d)\<lparr>closed := g_fdConnected d # closed (ev d)\<rparr>, g_fdConnected := -1\<rparr>)) (\<lambda>d. Inr (True, d))
      else Inr (False, d))"

section \<open>The threads of the send queues\<close>

definition getNetTypeFromQ :: "nat \<Rightarrow> U32" where
  "getNetTypeFromQ i = (if i * 2 = 0 then MP_STREAM_FLAG_MCWILL else of_nat (i * 2))"

definition dispatchStart :: "nat \<Rightarrow> daemon \<Rightarrow> daemon" where
  "dispatchStart i d = notifyMpdNetStatus (getNetTypeFromQ i) NETWORK_MP_ENABLE (d\<lparr>quit := (quit d)(i := False)\<rparr>)"

text \<open>An element taken off queue \<open>i\<close>; \<open>b\<close> is what its buffer holds.\<close>

definition dispatchElem :: "sys_env \<Rightarrow> nat \<Rightarrow> ElemType \<Rightarrow> U8 list \<Rightarrow> daemon \<Rightarrow> daemon res" where
  "dispatchElem env i e b d =
     (if justNotSend e then Inr d
      else
        bindR (if fdIndex e < 0 then Inl OutOfBounds
               else if fdIndex e < 3 \<and> dataFd (flow d (nat (fdIndex e))) > 0
               then let (r, d) = udp_write env (dataFd (flow d (nat (fdIndex e)))) (take (nat (elem_len e)) b) d
                    in if r = -1 then echoAppException env EXCEPTION_CODE_MP_SUBFLOW_ERROR (getNetTypeFromQ i) d else Inr d
               else Inr d)
          (\<lambda>d. Inr (if release e then out (FreeBuffer (bufferAddr e)) d else d)))"

definition dispatchEnd :: "nat \<Rightarrow> daemon \<Rightarrow> daemon" where
  "dispatchEnd i d = d\<lparr>dispatching := (dispatching d)(i := False)\<rparr>"

end
