(* ===== verification/RATD_Control.thy ===== *)
theory RATD_Control
  imports RATD_Handlers RATD_Timers RATD_Messages Step_Systems
begin

text \<open>
  The daemon as a transition system over its handlers, with the invariant of the number of subflows;
  the release of everything the daemon holds; what an accepted subflow sets up.
\<close>

section \<open>The count of subflows\<close>

definition count_state :: "daemon \<Rightarrow> int \<times> (nat \<Rightarrow> U32)" where
  "count_state d = (subflow_nu d, \<lambda>i. sub_mp_status (flow d i))"

definition enabled :: "daemon \<Rightarrow> nat set" where
  "enabled d = {i. i < MAX_SUBFLOWS \<and> sub_mp_status (flow d i) = NETWORK_MP_ENABLE}"

definition count_ok :: "daemon \<Rightarrow> bool" where
  "count_ok d \<longleftrightarrow> subflow_nu d = int (card (enabled d))"

lemma count_ok_cong: "count_state d' = count_state d \<Longrightarrow> count_ok d' = count_ok d"
  by (simp add: count_state_def count_ok_def enabled_def fun_eq_iff)

lemma count_okI: "count_state d' = count_state d \<Longrightarrow> count_ok d \<Longrightarrow> count_ok d'"
  using count_ok_cong by blast

lemma enabled_le: "card (enabled d) \<le> MAX_SUBFLOWS"
proof -
  have "enabled d \<subseteq> {..<MAX_SUBFLOWS}" by (auto simp: enabled_def)
  then show ?thesis using card_mono[of "{..<MAX_SUBFLOWS}" "enabled d"] by simp
qed

named_theorems counts "operations that leave the count of subflows alone"

lemma count_state_upd [counts]:
  "count_state (d\<lparr>ev := a1\<rparr>) = count_state d" "count_state (d\<lparr>s_mpstatus := a2\<rparr>) = count_state d"
  "count_state (d\<lparr>g_fdConnected := a3\<rparr>) = count_state d" "count_state (d\<lparr>loc_fd := a4\<rparr>) = count_state d"
  "count_state (d\<lparr>mag := a5\<rparr>) = count_state d" "count_state (d\<lparr>detectTime := a6\<rparr>) = count_state d"
  "count_state (d\<lparr>mpc_op := a7\<rparr>) = count_state d" "count_state (d\<lparr>quit := a8\<rparr>) = count_state d"
  "count_state (d\<lparr>dispatching := a9\<rparr>) = count_state d" "count_state (d\<lparr>mpd_ready := b1\<rparr>) = count_state d"
  "count_state (d\<lparr>p_ack_event := b2\<rparr>) = count_state d" "count_state (d\<lparr>timeInt := b3\<rparr>) = count_state d"
  "count_state (d\<lparr>g_keepAliveinfo := b4\<rparr>) = count_state d" "count_state (d\<lparr>s_watchDog_reset := b5\<rparr>) = count_state d"
  "count_state (d\<lparr>g_log_enable := b6\<rparr>) = count_state d" "count_state (d\<lparr>g_fdListen := b7\<rparr>) = count_state d"
  by (simp_all add: count_state_def)

lemma count_state_upd_flow [counts]:
  "(\<And>n. sub_mp_status (f n) = sub_mp_status n) \<Longrightarrow> count_state (upd_flow i f d) = count_state d"
  by (simp add: count_state_def upd_flow_def fun_eq_iff)

lemma count_state_ops [counts]:
  "count_state (out x d) = count_state d" "count_state (upd_ev_st g d) = count_state d"
  "count_state (watch e fd p cb par nt d) = count_state d" "count_state (del_data i d) = count_state d"
  "count_state (del_command i d) = count_state d" "count_state (del_tun d) = count_state d"
  "count_state (del_connected d) = count_state d" "count_state (notifyMpdNetStatus net st d) = count_state d"
  "count_state (finishAllDisPathTask d) = count_state d" "count_state (finishsubflowDispathTask t d) = count_state d"
  "count_state (startDispatch i nti d) = count_state d" "count_state (dispatchStart i d) = count_state d"
  "count_state (dispatchEnd i d) = count_state d" "count_state (appClosed d) = count_state d"
  "count_state (sendOnSubflow env b i d) = count_state d"
  by (auto simp: out_def upd_ev_st_def watch_def del_data_def del_command_def del_tun_def del_connected_def notifyMpdNetStatus_def
      finishAllDisPathTask_def finishsubflowDispathTask_def startDispatch_def dispatchStart_def dispatchEnd_def appClosed_def
      sendOnSubflow_def udp_write_def count_state_def upd_flow_def Let_def split: prod.split option.split)

lemma count_state_detectStall [counts]: "count_state (detectStall env i d) = count_state d"
  by (simp add: detectStall_def counts)

lemma count_state_pairs [counts]:
  "udp_write env fd b d = (r, d') \<Longrightarrow> count_state d' = count_state d"
  "openData env i nt d = (ok, d') \<Longrightarrow> count_state d' = count_state d"
  "openCommand env i nt d = (ok, d') \<Longrightarrow> count_state d' = count_state d"
  "init_tun_network env d = (ok, d') \<Longrightarrow> count_state d' = count_state d"
  by (auto simp: udp_write_def openData_def openCommand_def init_tun_network_def Let_def counts split: if_splits)

lemma count_state_sendAll [counts]: "count_state (sendCommandMsgOnAllSubflows env b d) = count_state d"
proof -
  have "count_state (fold (sendOnSubflow env b) is d) = count_state d" for "is" :: "nat list"
    by (induction "is" arbitrary: d) (simp_all add: counts)
  then show ?thesis by (simp add: sendCommandMsgOnAllSubflows_def)
qed

text \<open>The same for the handlers that may fail.\<close>

named_theorems counts_run "results of operations that leave the count of subflows alone"

lemma count_send [counts_run]: "sendResponseRaw env m d = Inr d' \<Longrightarrow> count_state d' = count_state d"
  by (auto simp: sendResponseRaw_def bindR_Inr_iff counts split: if_splits)

lemma count_echo [counts_run]:
  "echoAppException env c nt d = Inr d' \<Longrightarrow> count_state d' = count_state d"
  "echoAppResult env mt sid r d = Inr d' \<Longrightarrow> count_state d' = count_state d"
  "echoAppKeepAlive env mt sid d = Inr d' \<Longrightarrow> count_state d' = count_state d"
  "echoAppResultWithNetType env mt sid nt r d = Inr d' \<Longrightarrow> count_state d' = count_state d"
  "echoAppStreamStatistics env mt nt st d = Inr d' \<Longrightarrow> count_state d' = count_state d"
  by (auto simp: echoAppException_def echoAppResult_def echoAppKeepAlive_def echoAppResultWithNetType_def
      echoAppStreamStatistics_def Let_def bindR_Inr_iff counts split: if_splits dest!: count_send)

lemma count_forR:
  assumes "\<And>x d d'. f x d = Inr d' \<Longrightarrow> count_state d' = count_state d" and "forR f xs d = Inr d'"
  shows "count_state d' = count_state d"
  using assms(2) by (induction xs arbitrary: d) (auto simp: bindR_Inr_iff dest: assms(1))

lemma count_statistics [counts_run]: "echoAppAllSubStatistics env d = Inr d' \<Longrightarrow> count_state d' = count_state d"
  unfolding echoAppAllSubStatistics_def
  by (rule count_forR) (auto simp: echoStatistics_flow_def Let_def bindR_Inr_iff counts split: if_splits dest!: counts_run)

lemma count_exceptions [counts_run]:
  "forR (\<lambda>(code, nt). echoAppException env code nt) xs d = Inr d' \<Longrightarrow> count_state d' = count_state d"
  by (rule count_forR) (auto dest: counts_run)

lemma count_timer [counts_run]:
  "enableTimerTask env iv e f d = Inr d' \<Longrightarrow> count_state d' = count_state d"
  by (auto simp: enableTimerTask_def bindR_Inr_iff counts split: option.splits bool.splits)

lemma count_ack [counts_run]:
  "enableAckTimer env d = Inr d' \<Longrightarrow> count_state d' = count_state d"
  by (auto simp: enableAckTimer_def counts split: if_splits dest!: counts_run)

lemma count_switch [counts_run]: "switchMPToActivite env d = Inr d' \<Longrightarrow> count_state d' = count_state d"
  by (auto simp: switchMPToActivite_def bindR_Inr_iff counts split: if_splits dest!: counts_run)

lemma count_ack_callback [counts_run]: "userTimerAckCallback env param d = Inr d' \<Longrightarrow> count_state d' = count_state d"
  by (auto simp: userTimerAckCallback_def Let_def bindR_Inr_iff counts split: if_splits dest!: counts_run)

lemma count_startTunnel [counts_run]: "startTunnel env d = Inr (ok, d') \<Longrightarrow> count_state d' = count_state d"
  by (auto simp: startTunnel_def Let_def bindR_Inr_iff counts split: if_splits prod.splits dest!: counts_run count_state_pairs)

lemma count_subflowError [counts_run]: "subflowError env r nt d = Inr d' \<Longrightarrow> count_state d' = count_state d"
  by (auto simp: subflowError_def split: if_splits dest!: counts_run)

section \<open>Operations that change the count\<close>

lemma fold_count:
  "fold (\<lambda>i n. if P i then n + 1 else n) xs (k :: int) = k + int (length (filter P xs))"
  by (induction xs arbitrary: k) auto

lemma count_ok_update: "count_ok (updateCurrentSubFlowsNum d)"
proof -
  have "card (enabled d) = length (filter (\<lambda>i. sub_mp_status (flow d i) = NETWORK_MP_ENABLE) [0..<MAX_SUBFLOWS])"
    by (subst distinct_card[symmetric]) (auto simp: enabled_def intro!: arg_cong[of _ _ card])
  moreover have "enabled (updateCurrentSubFlowsNum d) = enabled d" by (simp add: enabled_def updateCurrentSubFlowsNum_def)
  ultimately show ?thesis by (simp add: count_ok_def updateCurrentSubFlowsNum_def fold_count del: upt_Suc upt_rec_numeral)
qed

lemma count_ok_removeSpecified: "count_ok (removeSpecifiedSubFlow i d)"
proof -
  have "count_state (removeSpecifiedSubFlow i d) =
      count_state (updateCurrentSubFlowsNum (upd_flow i (\<lambda>n. n\<lparr>sub_mp_status := NETWORK_MP_DISABLE\<rparr>) (d\<lparr>quit := (quit d)(i := True)\<rparr>)))"
    by (simp add: removeSpecifiedSubFlow_def Let_def counts)
  then show ?thesis using count_ok_cong count_ok_update by blast
qed

lemma sub_status_removeFlow:
  "sub_mp_status (flow (removeFlow i d) j) = (if j = i then NETWORK_MP_DISABLE else sub_mp_status (flow d j))"
  by (auto simp: removeFlow_def Let_def upd_flow_def del_data_def del_command_def split: prod.split)

lemma enabled_removeAll: "enabled (removeAllSubFlowsEvent d) = {}"
  by (auto simp: removeAllSubFlowsEvent_def enabled_def sub_status_removeFlow upt_rec less_Suc_eq numeral_3_eq_3)

lemma count_ok_removeAll: "count_ok (removeAllSubFlowsEvent d)"
  by (simp add: count_ok_def enabled_removeAll) (simp add: removeAllSubFlowsEvent_def)

lemma count_ok_release:
  assumes "toReleaseMpResource env d = Inr d'"
  shows "count_ok d'"
proof -
  obtain d1 where "d' = notifyMpdNetStatus MP_STATE NETWORK_DOWN (finishAllDisPathTask ((removeAllSubFlowsEvent d1)\<lparr>s_mpstatus := MP_DISACTIVE\<rparr>))"
    using assms by (auto simp: toReleaseMpResource_def Let_def bindR_Inr_iff)
  then have "count_state d' = count_state (removeAllSubFlowsEvent d1)" by (simp add: counts)
  then show ?thesis using count_ok_cong count_ok_removeAll by blast
qed

text \<open>An accepted subflow, once its data socket is there.\<close>

definition accepted :: "nat \<Rightarrow> int \<Rightarrow> daemon \<Rightarrow> daemon" where
  "accepted i nt d = upd_flow i (\<lambda>n. n\<lparr>sub_mp_status := NETWORK_MP_ENABLE\<rparr>) (startDispatch i nt d)"

definition clamp_nu :: "daemon \<Rightarrow> daemon" where
  "clamp_nu d = (if subflow_nu d > int MAX_SUBFLOWS then d\<lparr>subflow_nu := int MAX_SUBFLOWS\<rparr> else d)"

lemma clamp_nu_id: "count_ok d \<Longrightarrow> clamp_nu d = d"
  using enabled_le[of d] by (simp add: count_ok_def clamp_nu_def)

lemma addSubflowRsp_run:
  assumes "mag_result rsp = 0" and "fd_index nt = Inr i"
    and "(if dataFd (flow d i) < 0 then openData env i nt d else (True, d)) = (True, d1)"
    and "d3 = updateCurrentSubFlowsNum (accepted i nt d1)"
  shows "addSubflowRsp env rsp nt d =
    bindR (if subflow_nu (accepted i nt d1) = 0 \<and> subflow_nu d3 = 1 then startTunnel env d3 else Inr (True, d3)) (\<lambda>(ok, e).
      bindR (echoAppResultWithNetType env (mag_messageType rsp) (mag_sessionId rsp) (word_of_int nt)
               (if ok then RESULT_OK else RESULT_FAILED) (if ok then clamp_nu e else e)) (\<lambda>e. Inr (ok, e)))"
  unfolding addSubflowRsp_def assms(2) bindR.simps Let_def assms(3) assms(4)
  by (auto simp: assms(1) accepted_def clamp_nu_def split: prod.split intro!: arg_cong2[where f = bindR] ext)

lemma addSubflowRsp_no_socket:
  assumes "mag_result rsp = 0" and "fd_index nt = Inr i"
    and "(if dataFd (flow d i) < 0 then openData env i nt d else (True, d)) = (False, d1)"
  shows "addSubflowRsp env rsp nt d =
    bindR (echoAppResultWithNetType env (mag_messageType rsp) (mag_sessionId rsp) (word_of_int nt) RESULT_FAILED d1) (\<lambda>e. Inr (False, e))"
  unfolding addSubflowRsp_def assms(2) bindR.simps Let_def assms(3) by (simp add: assms(1))

lemma count_ok_addSubflowRsp:
  assumes "addSubflowRsp env rsp nt d = Inr (go, d')" and "count_ok d"
  shows "count_ok d'"
proof -
  have keep: "count_ok e'" if "echoAppResultWithNetType env mt sid n r e = Inr e'" "count_ok e" for mt sid n r e e'
    using that by (rule count_okI[OF count_echo(4)])
  show ?thesis
  proof (cases "mag_result rsp = 0")
    case False
    then show ?thesis using assms by (simp add: addSubflowRsp_def)
  next
    case True
    obtain i where i: "fd_index nt = Inr i" using assms(1) True by (auto simp: addSubflowRsp_def bindR_Inr_iff)
    obtain ok1 d1 where d1: "(if dataFd (flow d i) < 0 then openData env i nt d else (True, d)) = (ok1, d1)" by force
    then have c1: "count_ok d1" using count_okI[OF count_state_pairs(2) assms(2)] assms(2) by (auto split: if_splits)
    show ?thesis
    proof (cases ok1)
      case False
      with d1 have "(if dataFd (flow d i) < 0 then openData env i nt d else (True, d)) = (False, d1)" by simp
      note run = addSubflowRsp_no_socket[OF True i this]
      show ?thesis using assms(1) c1 unfolding run by (auto simp: bindR_Inr_iff intro: keep)
    next
      case ok1: True
      define d3 where "d3 = updateCurrentSubFlowsNum (accepted i nt d1)"
      have "(if dataFd (flow d i) < 0 then openData env i nt d else (True, d)) = (True, d1)" using d1 ok1 by simp
      note run = addSubflowRsp_run[OF True i this d3_def]
      obtain ok e where e: "(if subflow_nu (accepted i nt d1) = 0 \<and> subflow_nu d3 = 1 then startTunnel env d3 else Inr (True, d3)) = Inr (ok, e)"
        "echoAppResultWithNetType env (mag_messageType rsp) (mag_sessionId rsp) (word_of_int nt)
               (if ok then RESULT_OK else RESULT_FAILED) (if ok then clamp_nu e else e) = Inr d'"
        using assms(1) unfolding run by (auto simp: bindR_Inr_iff)
      have "count_ok d3" unfolding d3_def by (rule count_ok_update)
      then have "count_ok e" using e(1) count_okI[OF count_startTunnel] by (auto split: if_splits)
      then show ?thesis using keep[OF e(2)] clamp_nu_id by (simp split: if_splits)
    qed
  qed
qed

lemma count_ok_gateway:
  assumes "gatewayRecord env b nt d = Inr (go, d')" and "count_ok d"
  shows "count_ok d'"
proof -
  obtain r m where r: "(case r of None \<Rightarrow> Inr (True, d\<lparr>mag := m\<rparr>) | Some rsp \<Rightarrow> handleMagRsp env rsp nt (d\<lparr>mag := m\<rparr>)) = Inr (go, d')"
    using assms(1) by (auto simp: gatewayRecord_def bindR_Inr_iff Let_def split: prod.splits)
  have c: "count_ok (d\<lparr>mag := m\<rparr>)" using assms(2) by (rule count_okI[rotated]) (simp add: counts)
  show ?thesis
  proof (cases r)
    case None
    then show ?thesis using r c by simp
  next
    case (Some rsp)
    then have h: "handleMagRsp env rsp nt (d\<lparr>mag := m\<rparr>) = Inr (go, d')" using r by simp
    show ?thesis
    proof (cases "mag_messageType rsp = MESSAGE_TYPE_ADD_SUBFLOW_RSP")
      case True
      then show ?thesis using h c count_ok_addSubflowRsp by (simp add: handleMagRsp_def)
    next
      case False
      then have "count_state d' = count_state (d\<lparr>mag := m\<rparr>) \<or> (\<exists>e. toReleaseMpResource env e = Inr d')"
        using h by (auto simp: handleMagRsp_def bindR_Inr_iff counts split: if_splits dest!: counts_run)
      then show ?thesis using count_okI[OF _ c] count_ok_release by blast
    qed
  qed
qed

lemma count_ok_gateway_reads:
  "commandDataRecvCallback env nt rs rds d = Inr (r, d') \<Longrightarrow> count_ok d \<Longrightarrow> count_ok d'"
proof (induction rds arbitrary: rs d)
  case (Cons rd rds)
  then show ?case
    by (auto simp: bindR_Inr_iff split: prod.splits option.splits if_splits dest!: count_ok_gateway)
qed simp

text \<open>A removal with a subflow: the state before the answer, and what follows it.\<close>

definition removed :: "sys_env \<Rightarrow> r_app_del \<Rightarrow> daemon \<Rightarrow> daemon" where
  "removed env r d = notifyRemoved (del_numberType r) (finishsubflowDispathTask (del_numberType r)
     (removeSubFlowsEvent (del_numberType r) (sendCommandMsgOnAllSubflows env (fst (encodeDelRequest (op_uid (mpc_op d)) r)) d)))"

definition removal_end :: "sys_env \<Rightarrow> daemon \<Rightarrow> daemon res" where
  "removal_end env e =
     (if subflow_nu e = 0
      then bindR (echoAppException env EXCEPTION_CODE_MP_TUN_CLOSE MP_STREAM_FLAG_TUN0 (del_tun e)) (\<lambda>d. Inr (out ClearRoutes d))
      else Inr e)"

lemma delSubflow_run:
  "\<not> subflow_nu d \<le> 0 \<Longrightarrow> handleCommand env (DEL_SUBFLOW r) d =
     bindR (echoAppResultWithNetType env MESSAGE_TYPE_DEL_SUBFLOW_RSP (htonl (sessionId (snd (encodeDelRequest (op_uid (mpc_op d)) r))))
         (ucast (del_numberType r)) RESULT_OK (removed env r d)) (removal_end env)"
  unfolding handleCommand_def delSubflow_def app_command.case Let_def case_prod_beta removed_def removal_end_def by (simp only: if_not_P if_False)

lemma count_state_notifyRemoved [counts]: "count_state (notifyRemoved t d) = count_state d"
  by (simp add: notifyRemoved_def Let_def if_distrib[of count_state] counts)

lemma count_ok_command:
  assumes "handleCommand env c d = Inr d'" and "count_ok d"
  shows "count_ok d'"
proof (cases c)
  case (DEL_SUBFLOW r)
  show ?thesis
  proof (cases "subflow_nu d \<le> 0")
    case True
    then have "count_state d' = count_state d" using assms(1) DEL_SUBFLOW by (auto simp: handleCommand_def delSubflow_def dest!: counts_run)
    then show ?thesis using assms(2) by (rule count_okI)
  next
    case False
    define d1 where "d1 = sendCommandMsgOnAllSubflows env (fst (encodeDelRequest (op_uid (mpc_op d)) r)) d"
    have d1: "count_ok d1" using assms(2) by (rule count_okI[rotated]) (simp add: d1_def counts)
    then have d2: "count_ok (removeSubFlowsEvent (del_numberType r) d1)"
      by (simp add: removeSubFlowsEvent_def count_ok_removeSpecified split: option.split)
    obtain e where e: "echoAppResultWithNetType env MESSAGE_TYPE_DEL_SUBFLOW_RSP (htonl (sessionId (snd (encodeDelRequest (op_uid (mpc_op d)) r))))
         (ucast (del_numberType r)) RESULT_OK (removed env r d) = Inr e" "removal_end env e = Inr d'"
      using assms(1) False unfolding DEL_SUBFLOW delSubflow_run[OF False] bindR_Inr_iff by blast
    have "count_state d' = count_state e" using e(2) by (auto simp: removal_end_def bindR_Inr_iff counts split: if_splits dest!: counts_run)
    also have "\<dots> = count_state (removed env r d)" using e(1) by (rule count_echo(4))
    also have "\<dots> = count_state (removeSubFlowsEvent (del_numberType r) d1)" by (simp add: removed_def d1_def counts)
    finally show ?thesis using count_okI[OF _ d2] by simp
  qed
next
  case (DISABLE_MP r)
  then obtain e where "toReleaseMpResource env d = Inr e" "count_state d' = count_state e"
    using assms(1) by (auto simp: handleCommand_def bindR_Inr_iff dest!: counts_run)
  then show ?thesis using count_ok_release count_okI by blast
next
  case (CONFIG_MP r)
  then have "count_state d' = count_state d"
    using assms(1) by (auto simp: handleCommand_def configMp_def Let_def bindR_Inr_iff counts dest!: counts_run)
  then show ?thesis using assms(2) by (rule count_okI)
next
  case (ENABLE_MP r)
  then have "count_state d' = count_state d"
    using assms(1) by (auto simp: handleCommand_def enableMp_def Let_def bindR_Inr_iff counts
        split: if_splits prod.splits dest!: counts_run count_state_pairs)
  then show ?thesis using assms(2) by (rule count_okI)
next
  case (ADD_SUBFLOW r)
  then have "count_state d' = count_state d"
    using assms(1) by (auto simp: handleCommand_def addSubflow_def Let_def bindR_Inr_iff counts
        split: if_splits prod.splits dest!: counts_run count_state_pairs)
  then show ?thesis using assms(2) by (rule count_okI)
next
  case (TRY_SUBFLOW r)
  then have "count_state d' = count_state d"
    using assms(1) by (auto simp: handleCommand_def trySubflow_def Let_def bindR_Inr_iff counts
        split: if_splits prod.splits dest!: counts_run count_state_pairs)
  then show ?thesis using assms(2) by (rule count_okI)
next
  case (KEEPALIVE r)
  then have "count_state d' = count_state d"
    using assms(1) by (auto simp: handleCommand_def bindR_Inr_iff counts dest!: counts_run)
  then show ?thesis using assms(2) by (rule count_okI)
next
  case (ENABLE_LOG r)
  then have "count_state d' = count_state d" using assms(1) by (auto simp: handleCommand_def counts)
  then show ?thesis using assms(2) by (rule count_okI)
next
  case (RELEASE_MP r)
  then have "count_state d' = count_state d"
    using assms(1) by (auto simp: handleCommand_def releaseMp_def counts split: if_splits dest!: counts_run)
  then show ?thesis using assms(2) by (rule count_okI)
qed

lemma count_ok_app_reads:
  "processAppCommandsCallback env rs rds d = Inr (r, d') \<Longrightarrow> count_ok d \<Longrightarrow> count_ok d'"
proof (induction rds arbitrary: rs d)
  case (Cons rd rds)
  have gone: "count_ok (appClosed (appGone e))" for e
    by (rule count_okI[OF _ count_ok_removeAll]) (simp add: counts appGone_def)
  have closed: "count_ok (appClosed d)" using Cons.prems(2) by (rule count_okI[rotated]) (simp add: counts)
  have buffer: "count_ok e" if "processAppCommandBuffer env m d = Inr e" for m e
  proof -
    have "count_ok (d\<lparr>g_keepAliveinfo := myUptimeMillis env\<rparr>)" using Cons.prems(2) by (rule count_okI[rotated]) (simp add: counts)
    then show ?thesis using that Cons.prems(2)
      by (auto simp: processAppCommandBuffer_def bindR_Inr_iff split: option.splits dest: count_ok_command)
  qed
  show ?case
    using Cons gone closed
    by (auto simp: bindR_Inr_iff split: prod.splits option.splits if_splits dest!: buffer)
qed simp

section \<open>The transition system\<close>

text \<open>A step is one event of the loop, one packet, or one round of a thread.\<close>

inductive daemon_step :: "daemon \<Rightarrow> daemon \<Rightarrow> bool" where
  app: "processAppCommandsCallback env rs reads d = Inr (r, d') \<Longrightarrow> daemon_step d d'"
| command: "handleCommand env c d = Inr d' \<Longrightarrow> daemon_step d d'"
| gateway: "commandDataRecvCallback env nt rs reads d = Inr (r, d') \<Longrightarrow> daemon_step d d'"
| data: "normalDataRecvCallback env i len d = Inr d' \<Longrightarrow> daemon_step d d'"
| tunnel: "tunDataRecvCallback env len d = Inr d' \<Longrightarrow> daemon_step d d'"
| ack: "userTimerAckCallback env param d = Inr d' \<Longrightarrow> daemon_step d d'"
| listen: "listenMcwillSocketCallback fd d = Inr d' \<Longrightarrow> daemon_step d d'"
| keepalive: "skeepAlive_check env d = Inr (x, d') \<Longrightarrow> daemon_step d d'"
| exception: "echoAppException env c netType d = Inr d' \<Longrightarrow> daemon_step d d'"
| dispatch_start: "daemon_step d (dispatchStart i d)"
| dispatch_elem: "dispatchElem env i e b d = Inr d' \<Longrightarrow> daemon_step d d'"
| dispatch_end: "daemon_step d (dispatchEnd i d)"

inductive_cases daemon_stepE: "daemon_step d d'"

definition daemon_started :: "daemon \<Rightarrow> bool" where
  "daemon_started d \<longleftrightarrow> (\<exists>wakeupRead listenFd netlinkFd d0. d = main_start wakeupRead listenFd netlinkFd d0)"

lemma count_ok_start: "daemon_started d \<Longrightarrow> count_ok d"
proof -
  assume "daemon_started d"
  then obtain d0 where "count_state d = count_state (initDefaultParams d0)"
    by (auto simp: daemon_started_def main_start_def eventLoop_start_def Let_def counts split: if_splits)
  moreover have "count_ok (initDefaultParams d0)"
    by (simp add: count_ok_def enabled_def initDefaultParams_def netStatus_init_def)
  ultimately show ?thesis by (rule count_okI)
qed

lemma count_ok_step: "count_ok d \<Longrightarrow> daemon_step d d' \<Longrightarrow> count_ok d'"
proof (erule daemon_stepE)
  fix env i len assume "normalDataRecvCallback env i len d = Inr d'" and ok: "count_ok d"
  then have "count_state d' = count_state d"
    by (auto simp: normalDataRecvCallback_def Let_def bindR_Inr_iff counts split: if_splits dest!: counts_run)
  then show "count_ok d'" using ok by (rule count_okI)
next
  fix env len assume "tunDataRecvCallback env len d = Inr d'" and ok: "count_ok d"
  then have "count_state d' = count_state d"
    by (auto simp: tunDataRecvCallback_def bindR_Inr_iff counts split: if_splits dest!: counts_run)
  then show "count_ok d'" using ok by (rule count_okI)
next
  fix fd assume "listenMcwillSocketCallback fd d = Inr d'" and ok: "count_ok d"
  then have "count_state d' = count_state d"
    by (auto simp: listenMcwillSocketCallback_def Let_def bindR_Inr_iff counts split: if_splits)
  then show "count_ok d'" using ok by (rule count_okI)
next
  fix env x assume "skeepAlive_check env d = Inr (x, d')" and "count_ok d"
  then show "count_ok d'" by (auto simp: skeepAlive_check_def bindR_Inr_iff split: if_splits dest: count_ok_release)
next
  fix env i e b assume "dispatchElem env i e b d = Inr d'" and ok: "count_ok d"
  then have "count_state d' = count_state d"
    by (auto simp: dispatchElem_def Let_def bindR_Inr_iff counts split: if_splits prod.splits dest!: counts_run count_state_pairs)
  then show "count_ok d'" using ok by (rule count_okI)
qed (auto intro: count_okI counts counts_run count_ok_app_reads count_ok_command count_ok_gateway_reads)

interpretation dc: step_invariant daemon_started daemon_step count_ok
  by unfold_locales (auto intro: count_ok_start count_ok_step)

text \<open>
  C31: in every state the daemon can reach, whatever the application, the gateway, the driver and the
  system answer, the number of subflows it keeps is the number of those that are enabled, between none
  and three; every further step keeps it so.
\<close>

theorem subflow_count_invariant:
  assumes "reach daemon_started daemon_step d" and "daemon_step d d'"
  shows "subflow_nu d = int (card (enabled d)) \<and> subflow_nu d' = int (card (enabled d')) \<and> 0 \<le> subflow_nu d' \<and> subflow_nu d' \<le> 3"
  using dc.reach_step_inv[OF assms] enabled_le[of d'] by (simp add: count_ok_def)

section \<open>Channels\<close>

text \<open>A descriptor and its event: watched while it is open, out of the table when it is not.\<close>

definition watched_as :: "ev_st \<Rightarrow> nat \<Rightarrow> int \<Rightarrow> bool" where
  "watched_as st e fd \<longleftrightarrow> ev_fd (store st e) = fd \<and> (\<exists>i\<in>watched st. watch_table st i = e)"

definition idle_event :: "ev_st \<Rightarrow> nat \<Rightarrow> bool" where
  "idle_event st e \<longleftrightarrow> ev_index (store st e) < 0 \<or> int MAX_FD_EVENTS \<le> ev_index (store st e) \<or>
     (ev_fd (store st e) = 0 \<and> ev_index (store st e) = 0)"

definition channel_ok :: "ev_st \<Rightarrow> nat \<Rightarrow> int \<Rightarrow> bool" where
  "channel_ok st e fd \<longleftrightarrow> (if fd > 0 then watched_as st e fd else idle_event st e)"

definition open_fds :: "int list \<Rightarrow> int list" where
  "open_fds fds = filter (\<lambda>fd. fd > 0) fds"

lemma open_fds_simps [simp]:
  "open_fds [] = []" "open_fds (fd # fds) = (if fd > 0 then fd # open_fds fds else open_fds fds)"
  "open_fds (xs @ ys) = open_fds xs @ open_fds ys"
  by (simp_all add: open_fds_def)

lemma close_channel:
  assumes "fds_ok st" and "channel_ok st e fd" and "mcwill_event_del e fd st = (fd', st')"
  shows "fd' \<le> 0" and "fds_ok st'" and "g_readFds st' = g_readFds st - set (open_fds [fd])"
    and "closed st' = open_fds [fd] @ closed st" and "e' \<noteq> e \<Longrightarrow> channel_ok st' e' x = channel_ok st e' x"
proof -
  have "fd' \<le> 0 \<and> fds_ok st' \<and> g_readFds st' = g_readFds st - set (open_fds [fd]) \<and> closed st' = open_fds [fd] @ closed st \<and>
    (e' \<noteq> e \<longrightarrow> channel_ok st' e' x = channel_ok st e' x)"
  proof (cases "fd > 0")
    case False
    then have "mcwill_event_del e fd st = (fd, st)"
      using assms(2) by (auto simp: channel_ok_def idle_event_def mcwill_event_del_def Let_def)
    then show ?thesis using assms(1,3) False by simp
  next
    case True
    obtain i where i: "i \<in> watched st" "watch_table st i = e" "ev_fd (store st e) = fd"
      using assms(2) True by (auto simp: channel_ok_def watched_as_def)
    have ix: "ev_index (store st e) = int i" "i < MAX_FD_EVENTS" using fds_okD(1)[OF assms(1) i(1)] i by (simp_all add: watched_def)
    have st': "fd' = -1" "st' = (removeWatch e i st)\<lparr>closed := fd # closed st\<rparr>"
      using assms(3) event_del_watched[OF ix, of fd] True i(3) by auto
    note del = event_del_ok[OF assms(1) i(1,2), of fd]
    have tab: "watch_table st' = (watch_table st)(i := 0)" "e' \<noteq> e \<Longrightarrow> store st' e' = store st e'"
      by (simp_all add: st' removeWatch_def Let_def upd_ev_def)
    have "channel_ok st' e' x = channel_ok st e' x" if "e' \<noteq> e"
    proof -
      have "(\<exists>k\<in>watched st'. watch_table st' k = e') \<longleftrightarrow> (\<exists>k\<in>watched st. watch_table st k = e')"
        using that i(2) unfolding watched_def tab by (auto simp: bex_simps)
      then show ?thesis using tab(2)[OF that] by (simp add: channel_ok_def watched_as_def idle_event_def)
    qed
    then show ?thesis using del assms(3) True i(3) by auto
  qed
  then show "fd' \<le> 0" "fds_ok st'" "g_readFds st' = g_readFds st - set (open_fds [fd])"
    "closed st' = open_fds [fd] @ closed st" "e' \<noteq> e \<Longrightarrow> channel_ok st' e' x = channel_ok st e' x" by auto
qed

text \<open>The channels of one subflow and of the tunnel.\<close>

definition flow_channels :: "daemon \<Rightarrow> nat \<Rightarrow> bool" where
  "flow_channels d i \<longleftrightarrow> channel_ok (ev d) (data_event i) (dataFd (flow d i)) \<and> channel_ok (ev d) (command_event i) (commandFd (flow d i))"

definition flow_fds :: "daemon \<Rightarrow> nat \<Rightarrow> int list" where
  "flow_fds d i = open_fds [commandFd (flow d i), dataFd (flow d i)]"

lemma removeFlow_ok:
  assumes "fds_ok (ev d)" and "flow_channels d i" and "i < 3"
  shows "fds_ok (ev (removeFlow i d))" and "dataFd (flow (removeFlow i d) i) \<le> 0" and "commandFd (flow (removeFlow i d) i) \<le> 0"
    and "statistics (flow (removeFlow i d) i) = 0" and "RTTC (mag (removeFlow i d)) = (RTTC (mag d))(i := 0)"
    and "quit (removeFlow i d) = (quit d)(i := True)" and "j \<noteq> i \<Longrightarrow> flow (removeFlow i d) j = flow d j"
    and "closed (ev (removeFlow i d)) = flow_fds d i @ closed (ev d)"
    and "g_readFds (ev (removeFlow i d)) = g_readFds (ev d) - set (flow_fds d i)"
    and "j \<noteq> i \<Longrightarrow> j < 3 \<Longrightarrow> flow_channels (removeFlow i d) j = flow_channels d j"
proof -
  obtain f1 s1 where s1: "mcwill_event_del (data_event i) (dataFd (flow d i)) (ev d) = (f1, s1)" by force
  have c1: "channel_ok (ev d) (data_event i) (dataFd (flow d i))" "channel_ok (ev d) (command_event i) (commandFd (flow d i))"
    using assms(2) by (simp_all add: flow_channels_def)
  note k1 = close_channel[OF assms(1) c1(1) s1]
  obtain f2 s2 where s2: "mcwill_event_del (command_event i) (commandFd (flow d i)) s1 = (f2, s2)" by force
  have c2: "channel_ok s1 (command_event i) (commandFd (flow d i))" using k1(5)[of "command_event i"] c1(2) assms(3) by simp
  note k2 = close_channel[OF k1(2) c2 s2]
  have z1: "dataFd (flow d i) \<le> 0 \<Longrightarrow> f1 = dataFd (flow d i) \<and> s1 = ev d"
    using s1 c1(1) by (auto simp: mcwill_event_del_def channel_ok_def idle_event_def Let_def split: if_splits)
  have z2: "commandFd (flow d i) \<le> 0 \<Longrightarrow> f2 = commandFd (flow d i) \<and> s2 = s1"
    using s2 c2 by (auto simp: mcwill_event_del_def channel_ok_def idle_event_def Let_def split: if_splits)
  have r: "ev (removeFlow i d) = s2" "flow (removeFlow i d) = (flow d)(i := (flow d i)\<lparr>commandFd := f2, dataFd := f1,
      haveEchoedstatistics := 0, statistics := 0, sub_mp_status := NETWORK_MP_DISABLE\<rparr>)"
    "RTTC (mag (removeFlow i d)) = (RTTC (mag d))(i := 0)" "quit (removeFlow i d) = (quit d)(i := True)"
    using s1 s2 z1 z2 by (auto simp: removeFlow_def Let_def del_data_def del_command_def upd_flow_def)
  show "fds_ok (ev (removeFlow i d))" "dataFd (flow (removeFlow i d) i) \<le> 0" "commandFd (flow (removeFlow i d) i) \<le> 0"
    "statistics (flow (removeFlow i d) i) = 0" "RTTC (mag (removeFlow i d)) = (RTTC (mag d))(i := 0)"
    "quit (removeFlow i d) = (quit d)(i := True)" "j \<noteq> i \<Longrightarrow> flow (removeFlow i d) j = flow d j"
    "closed (ev (removeFlow i d)) = flow_fds d i @ closed (ev d)"
    "g_readFds (ev (removeFlow i d)) = g_readFds (ev d) - set (flow_fds d i)"
    using r k1 k2 by (auto simp: flow_fds_def)
  show "j \<noteq> i \<Longrightarrow> j < 3 \<Longrightarrow> flow_channels (removeFlow i d) j = flow_channels d j"
    using assms(3) r k1(5) k2(5) by (simp add: flow_channels_def)
qed

text \<open>A connection to the application that takes every message, or none at all.\<close>

definition app_reachable :: "sys_env \<Rightarrow> daemon \<Rightarrow> bool" where
  "app_reachable env d \<longleftrightarrow> g_fdConnected d < 0 \<or> (\<forall>off. app_write env off > 0)"

definition told :: "string \<Rightarrow> daemon \<Rightarrow> daemon" where
  "told m d = (if g_fdConnected d < 0 then d else out (ToApp m) d)"

lemma blockingWrite_all:
  "(\<And>off. w off > 0) \<Longrightarrow> len \<le> fuel + off \<Longrightarrow> blockingWrite_loop fuel off len w = Inr True"
proof (induction fuel arbitrary: off)
  case (Suc fuel)
  have "w off > 0" using Suc.prems(1) .
  then have "1 \<le> nat (w off)" by simp
  then have "len \<le> fuel + (off + nat (w off))" using Suc.prems(2) by linarith
  then show ?case
    using Suc.IH[of "off + nat (w off)"] Suc.prems \<open>0 < w off\<close> by (subst blockingWrite_loop.simps) (simp add: less_imp_le)
qed (subst blockingWrite_loop.simps, simp)

lemma send_told: "app_reachable env d \<Longrightarrow> length m \<le> MAX_COMMAND_BYTES \<Longrightarrow> sendResponseRaw env m d = Inr (told m d)"
  using blockingWrite_all[of "app_write env" "length m" "length m" 0]
  by (auto simp: sendResponseRaw_def app_reachable_def told_def)

lemma sprintf_into_length: "sprintf_into n m = Inr s \<Longrightarrow> s = m \<and> length s < n"
  by (simp add: sprintf_into_def split: if_splits)

lemma echo_exception_told:
  assumes "app_reachable env d"
  shows "\<exists>m. encodeExceptionRsp MESSAGE_TYPE_EXCEPTION c nt = Inr m \<and>
    echoAppException env c nt d = Inr (told m (if c = EXCEPTION_CODE_MP_IDLE then d\<lparr>s_mpstatus := MP_IDLE\<rparr> else d))"
proof -
  obtain m where m: "encodeExceptionRsp MESSAGE_TYPE_EXCEPTION c nt = Inr m" using answers_fit by blast
  then have "length m < 80" unfolding encodeExceptionRsp_def using sprintf_into_length by blast
  moreover have "app_reachable env (d\<lparr>s_mpstatus := MP_IDLE\<rparr>)" using assms by (simp add: app_reachable_def)
  ultimately show ?thesis using m assms by (auto simp: echoAppException_def Let_def send_told)
qed

lemma echo_nettype_told:
  assumes "app_reachable env d"
  shows "\<exists>m. encodeAppRspWithNetType mt sid nt r = Inr m \<and> echoAppResultWithNetType env mt sid nt r d = Inr (told m d)"
proof -
  obtain m where m: "encodeAppRspWithNetType mt sid nt r = Inr m" using answers_fit by blast
  then have "length m < 100" unfolding encodeAppRspWithNetType_def using sprintf_into_length by blast
  then show ?thesis using m assms by (auto simp: echoAppResultWithNetType_def send_told)
qed

lemma told_simps [simp]:
  "ev (told m d) = ev d" "flow (told m d) = flow d" "loc_fd (told m d) = loc_fd d" "mag (told m d) = mag d"
  "quit (told m d) = quit d" "mpd_ready (told m d) = mpd_ready d" "dispatching (told m d) = dispatching d"
  "s_mpstatus (told m d) = s_mpstatus d" "subflow_nu (told m d) = subflow_nu d" "g_fdConnected (told m d) = g_fdConnected d"
  "p_ack_event (told m d) = p_ack_event d" "mpc_op (told m d) = mpc_op d"
  by (simp_all add: told_def out_def)

lemma out_simps [simp]:
  "ev (out x d) = ev d" "flow (out x d) = flow d" "loc_fd (out x d) = loc_fd d" "mag (out x d) = mag d"
  "quit (out x d) = quit d" "mpd_ready (out x d) = mpd_ready d" "dispatching (out x d) = dispatching d"
  "s_mpstatus (out x d) = s_mpstatus d" "subflow_nu (out x d) = subflow_nu d" "g_fdConnected (out x d) = g_fdConnected d"
  "p_ack_event (out x d) = p_ack_event d" "outs (out x d) = x # outs d" "mpc_op (out x d) = mpc_op d"
  by (simp_all add: out_def)

section \<open>Release\<close>

lemma all_less_Suc_3: "(\<forall>i<3. P i) \<longleftrightarrow> P 0 \<and> P 1 \<and> P (2 :: nat)"
  by (auto simp: less_Suc_eq numeral_3_eq_3 numeral_2_eq_2)

lemma removeAll_ok:
  assumes "fds_ok (ev d)" and "\<forall>i<3. flow_channels d i"
  shows "fds_ok (ev (removeAllSubFlowsEvent d)) \<and>
    (\<forall>i<3. dataFd (flow (removeAllSubFlowsEvent d) i) \<le> 0 \<and> commandFd (flow (removeAllSubFlowsEvent d) i) \<le> 0 \<and>
       statistics (flow (removeAllSubFlowsEvent d) i) = 0 \<and> RTTC (mag (removeAllSubFlowsEvent d)) i = 0 \<and> quit (removeAllSubFlowsEvent d) i) \<and>
    closed (ev (removeAllSubFlowsEvent d)) = flow_fds d 2 @ flow_fds d 1 @ flow_fds d 0 @ closed (ev d) \<and>
    g_readFds (ev (removeAllSubFlowsEvent d)) = g_readFds (ev d) - set (flow_fds d 2 @ flow_fds d 1 @ flow_fds d 0)"
proof -
  let ?a = "removeFlow 0 d"
  let ?b = "removeFlow 1 ?a"
  let ?c = "removeFlow 2 ?b"
  have ch: "flow_channels d 0" "flow_channels d 1" "flow_channels d 2" using assms(2) by simp_all
  note a = removeFlow_ok[OF assms(1) ch(1)]
  have "flow_channels ?a 1" "flow_channels ?a 2" using a(10)[of 1] a(10)[of 2] ch by simp_all
  note b = removeFlow_ok[OF a(1) this(1)]
  have "flow_channels ?b 2" using b(10)[of 2] \<open>flow_channels ?a 2\<close> by simp
  note c = removeFlow_ok[OF b(1) this]
  have fd: "flow_fds ?b 2 = flow_fds d 2" "flow_fds ?a 1 = flow_fds d 1" using a(7) b(7) by (simp_all add: flow_fds_def)
  have r: "removeAllSubFlowsEvent d = ?c\<lparr>subflow_nu := 0\<rparr>" by (simp add: removeAllSubFlowsEvent_def upt_rec numeral_2_eq_2)
  have all: "\<forall>i<3. dataFd (flow ?c i) \<le> 0 \<and> commandFd (flow ?c i) \<le> 0 \<and> statistics (flow ?c i) = 0 \<and> RTTC (mag ?c) i = 0 \<and> quit ?c i"
    using a b c by (simp add: all_less_Suc_3)
  have "g_readFds (ev ?c) = g_readFds (ev d) - set (flow_fds d 2 @ flow_fds d 1 @ flow_fds d 0)"
    using a(9) b(9) c(9) fd by auto
  then show ?thesis unfolding r using all a(8) b(8) c(1,8) fd by simp
qed

lemma channel_tun:
  assumes "fds_ok (ev d)" and "channel_ok (ev d) s_tun_event (loc_fd d)"
  shows "fds_ok (ev (del_tun d))" and "loc_fd (del_tun d) \<le> 0" and "closed (ev (del_tun d)) = open_fds [loc_fd d] @ closed (ev d)"
    and "g_readFds (ev (del_tun d)) = g_readFds (ev d) - set (open_fds [loc_fd d])" and "flow (del_tun d) = flow d"
    and "i < 3 \<Longrightarrow> flow_channels (del_tun d) i = flow_channels d i"
proof -
  obtain f s where s: "mcwill_event_del s_tun_event (loc_fd d) (ev d) = (f, s)" by force
  note k = close_channel[OF assms s]
  have r: "del_tun d = d\<lparr>ev := s, loc_fd := f\<rparr>" by (simp add: del_tun_def s)
  show "fds_ok (ev (del_tun d))" "loc_fd (del_tun d) \<le> 0" "closed (ev (del_tun d)) = open_fds [loc_fd d] @ closed (ev d)"
    "g_readFds (ev (del_tun d)) = g_readFds (ev d) - set (open_fds [loc_fd d])" "flow (del_tun d) = flow d"
    using r k(1-4) by simp_all
  show "i < 3 \<Longrightarrow> flow_channels (del_tun d) i = flow_channels d i" using r k(5) by (simp add: flow_channels_def)
qed

lemma removeFlow_keeps: "mpd_ready (removeFlow i d) = mpd_ready d" "loc_fd (removeFlow i d) = loc_fd d"
  by (simp_all add: removeFlow_def Let_def del_data_def del_command_def upd_flow_def split: prod.split)

lemma removeAll_keeps: "mpd_ready (removeAllSubFlowsEvent d) = mpd_ready d" "loc_fd (removeAllSubFlowsEvent d) = loc_fd d"
  by (simp_all add: removeAllSubFlowsEvent_def upt_rec removeFlow_keeps)

lemma del_tun_ready: "mpd_ready (del_tun d) = mpd_ready d"
  by (simp add: del_tun_def split: prod.split)

text \<open>
  C32: releasing the resources closes every open descriptor of the tunnel and of the subflows exactly once and
  takes exactly these out of the set for \<^verbatim>\<open>select\<close>; no subflow is left enabled or counted, the queues are told to stop, the
  daemon is inactive, and the last thing the driver hears is that the network is down.
\<close>

theorem release_closes_all:
  assumes "fds_ok (ev d)" and "channel_ok (ev d) s_tun_event (loc_fd d)" and "\<forall>i<3. flow_channels d i" and "app_reachable env d"
    and "fds = flow_fds d 2 @ flow_fds d 1 @ flow_fds d 0 @ open_fds [loc_fd d]"
  shows "\<exists>d'. toReleaseMpResource env d = Inr d' \<and> fds_ok (ev d') \<and>
     closed (ev d') = fds @ closed (ev d) \<and> g_readFds (ev d') = g_readFds (ev d) - set fds \<and>
     loc_fd d' \<le> 0 \<and> (\<forall>i<3. dataFd (flow d' i) \<le> 0 \<and> commandFd (flow d' i) \<le> 0 \<and> statistics (flow d' i) = 0 \<and>
                            RTTC (mag d') i = 0 \<and> quit d' i) \<and>
     enabled d' = {} \<and> subflow_nu d' = 0 \<and> s_mpstatus d' = MP_DISACTIVE \<and>
     (mpd_ready d \<longrightarrow> hd (outs d') = NotifyMpd MP_STATE NETWORK_DOWN)"
proof -
  let ?t = "del_tun (out ClearRoutes d)"
  have t: "fds_ok (ev ?t)" "loc_fd ?t \<le> 0" "closed (ev ?t) = open_fds [loc_fd d] @ closed (ev d)"
    "g_readFds (ev ?t) = g_readFds (ev d) - set (open_fds [loc_fd d])" "flow ?t = flow d"
    using channel_tun[of "out ClearRoutes d"] assms(1,2) by simp_all
  have tf: "\<forall>i<3. flow_channels ?t i"
    using channel_tun(6)[of "out ClearRoutes d"] assms(1-3) by (simp add: flow_channels_def)
  have reach: "app_reachable env ?t" using assms(4) by (simp add: app_reachable_def del_tun_def split: prod.split)
  then obtain m where m: "echoAppException env EXCEPTION_CODE_MP_TUN_CLOSE MP_STREAM_FLAG_TUN0 ?t = Inr (told m ?t)"
    using echo_exception_told[OF reach, of EXCEPTION_CODE_MP_TUN_CLOSE MP_STREAM_FLAG_TUN0] by auto
  let ?u = "told m ?t"
  have u: "fds_ok (ev ?u)" "\<forall>i<3. flow_channels ?u i" using t(1) tf by (simp_all add: flow_channels_def)
  note rm = removeAll_ok[OF u]
  let ?d = "notifyMpdNetStatus MP_STATE NETWORK_DOWN (finishAllDisPathTask ((removeAllSubFlowsEvent ?u)\<lparr>s_mpstatus := MP_DISACTIVE\<rparr>))"
  have run: "toReleaseMpResource env d = Inr ?d"
    by (simp add: toReleaseMpResource_def Let_def m)
  have fd: "flow_fds ?u i = flow_fds d i" for i using t(5) by (simp add: flow_fds_def)
  have d: "ev ?d = ev (removeAllSubFlowsEvent ?u)" "flow ?d = flow (removeAllSubFlowsEvent ?u)" "mag ?d = mag (removeAllSubFlowsEvent ?u)"
    "loc_fd ?d = loc_fd ?t" "subflow_nu ?d = 0" "s_mpstatus ?d = MP_DISACTIVE"
    "mpd_ready d \<longrightarrow> hd (outs ?d) = NotifyMpd MP_STATE NETWORK_DOWN"
    "\<forall>i<3. quit (removeAllSubFlowsEvent ?u) i \<longrightarrow> quit ?d i"
    using removeAll_keeps[of ?u] del_tun_ready[of "out ClearRoutes d"]
    by (simp_all add: notifyMpdNetStatus_def finishAllDisPathTask_def) (simp add: removeAllSubFlowsEvent_def)
  have e: "enabled ?d = {}" using enabled_removeAll[of ?u] d(2) by (simp add: enabled_def)
  have g: "g_readFds (ev ?d) = g_readFds (ev d) - set fds"
    using rm t(4) d(1) fd by (auto simp: assms(5))
  show ?thesis
    using run rm d e g fd t(2,3) assms(5) by (intro exI[of _ ?d]) simp
qed

end
