(* ===== verification/RATD_Subflows.thy ===== *)
theory RATD_Subflows
  imports RATD_Control MPD_SubFlow
begin

text \<open>
  What the first accepted subflow sets up, over the watch table and the timers of the event loop; what
  goes wrong when the tunnel cannot be opened and when a removal names several networks; and how the
  numbers of the daemon and of the driver fit together.
\<close>

section \<open>Watching a new descriptor\<close>

lemma fds_ok_store:
  assumes "\<forall>i\<in>watched st. ev_index (h (watch_table st i)) = ev_index (store st (watch_table st i)) \<and>
     ev_fd (h (watch_table st i)) = ev_fd (store st (watch_table st i))"
  shows "fds_ok (st\<lparr>store := h\<rparr>) = fds_ok st"
proof -
  have w: "watched (st\<lparr>store := h\<rparr>) = watched st" by (simp add: watched_def)
  have f: "fd_at (st\<lparr>store := h\<rparr>) i = fd_at st i" if "i \<in> watched st" for i using assms that by (simp add: fd_at_def)
  have "fd_at (st\<lparr>store := h\<rparr>) ` watched st = fd_at st ` watched st" using f by (rule image_cong[OF refl])
  moreover have "inj_on (fd_at (st\<lparr>store := h\<rparr>)) (watched st) = inj_on (fd_at st) (watched st)" using f by (rule inj_on_cong)
  ultimately show ?thesis using assms f unfolding fds_ok_def w by simp
qed

definition unwatched :: "ev_st \<Rightarrow> nat \<Rightarrow> bool" where
  "unwatched st e \<longleftrightarrow> e \<noteq> 0 \<and> (\<forall>i\<in>watched st. watch_table st i \<noteq> e)"

lemma watched_finite: "finite (watched st)" "watched st \<subseteq> {..<MAX_FD_EVENTS}"
  by (auto simp: watched_def)

text \<open>Setting up an event and watching it.\<close>

lemma watch_new:
  assumes "fds_ok st" and "unwatched st e" and "0 \<le> fd" and "fd \<notin> g_readFds st" and "card (watched st) < MAX_FD_EVENTS"
    and "st' = mcwill_event_add e (mcwill_event_set e fd p cb par nt st)"
  shows "fds_ok st'" and "g_readFds st' = insert fd (g_readFds st)" and "card (watched st') = Suc (card (watched st))"
    and "a \<noteq> e \<Longrightarrow> store st' a = store st a" and "unwatched st a \<Longrightarrow> a \<noteq> e \<Longrightarrow> unwatched st' a" and "closed st' = closed st"
    and "watched_as st' e fd"
proof -
  let ?s = "mcwill_event_set e fd p cb par nt st"
  have s: "watched ?s = watched st" "watch_table ?s = watch_table st" "g_readFds ?s = g_readFds st" "ev_fd (store ?s e) = fd"
    "closed ?s = closed st" "\<And>a. a \<noteq> e \<Longrightarrow> store ?s a = store st a"
    by (simp_all add: mcwill_event_set_def watched_def)
  have "\<forall>i\<in>watched st. watch_table st i \<noteq> e" using assms(2) by (simp add: unwatched_def)
  then have "fds_ok ?s = fds_ok st" unfolding mcwill_event_set_def by (intro fds_ok_store) simp
  then have ok: "fds_ok ?s" using assms(1) by simp
  have full: "watched st \<noteq> {..<MAX_FD_EVENTS}" using assms(5) card_lessThan[of MAX_FD_EVENTS] less_irrefl by metis
  have e0: "e \<noteq> 0" using assms(2) by (simp add: unwatched_def)
  have a: "mcwill_event_add e ?s = st'" by (simp only: assms(6))
  note add = event_add_ok[OF ok e0, unfolded a s(1-4) if_not_P[OF full], OF assms(3,4)]
  obtain j where j: "j < MAX_FD_EVENTS" "j \<notin> watched st" "{..<j} \<subseteq> watched st" "watch_table st' = (watch_table st)(j := e)"
    "g_readFds st' = insert fd (g_readFds st)" "fds_ok st'"
    using add by (elim conjE exE) (rule that; assumption)
  have run: "st' = watch_at j e ?s"
  proof -
    have "watch_table ?s i \<noteq> 0 \<and> fd_at ?s i \<noteq> ev_fd (store ?s e)" if "i < j" for i
    proof -
      have "i \<in> watched st" using that j(3) by auto
      then show ?thesis using fds_okD(3)[OF ok, of i] assms(4) s by (auto simp: watched_def)
    qed
    moreover have "watch_table ?s j = 0" using j(1,2) s(2) by (simp add: watched_def)
    ultimately show ?thesis unfolding assms(6) mcwill_event_add_def using j(1) by (intro event_add_loop_free) simp_all
  qed
  have w: "watched st' = insert j (watched st)" using j(1,4) e0 by (auto simp: watched_def)
  show "fds_ok st'" "g_readFds st' = insert fd (g_readFds st)" by (rule j)+
  show "card (watched st') = Suc (card (watched st))" unfolding w using j(2) watched_finite(1) by simp
  show "a \<noteq> e \<Longrightarrow> store st' a = store st a" using s(6) by (simp add: run watch_at_def upd_ev_def)
  show "unwatched st a \<Longrightarrow> a \<noteq> e \<Longrightarrow> unwatched st' a" unfolding unwatched_def w j(4) by auto
  show "closed st' = closed st" using s(5) by (simp add: run watch_at_def)
  show "watched_as st' e fd" unfolding watched_as_def w using j(4) s(4) by (auto simp: run watch_at_def upd_ev_def)
qed

section \<open>Arming the acknowledgement timer\<close>

lemma timer_exists_ok:
  assumes "linked h timer_list (xs @ ys)" and "ys \<noteq> []" and "e \<notin> set ys"
  shows "timer_exists h e (hd ys) = Some False"
  using assms
proof (induction ys arbitrary: xs)
  case (Cons y ys)
  have n: "ev_next (h y) = hd (ys @ [timer_list])" using linked_split[OF Cons.prems(1)] by simp
  have ne: "y \<noteq> e" using Cons.prems(3) by auto
  show ?case
  proof (cases ys)
    case Nil
    then show ?thesis using n ne by (subst timer_exists.simps) (simp add: Let_def)
  next
    case c: (Cons z zs)
    have "timer_exists h e (hd ys) = Some False" using Cons.IH[of "xs @ [y]"] Cons.prems c by simp
    moreover have "hd ys \<noteq> timer_list" using Cons.prems(1) c by (auto simp: linked_def)
    ultimately show ?thesis using n ne c by (subst timer_exists.simps) (simp add: Let_def)
  qed
qed simp

lemma check_exist_free:
  assumes "linked (store st) timer_list xs" and "e \<notin> set (timer_list # xs)"
  shows "mcwill_timer_check_exist e st = Some False"
proof (cases xs)
  case Nil
  then have "ev_next (store st timer_list) = timer_list" using linkedD(1)[OF assms(1)] by simp
  then show ?thesis using assms(2) by (simp add: mcwill_timer_check_exist_def) (subst timer_exists.simps, simp add: Let_def)
next
  case (Cons y ys)
  then show ?thesis
    using timer_exists_ok[of "store st" "[]" xs e] linkedD(1)[OF assms(1)] assms by (simp add: mcwill_timer_check_exist_def)
qed

lemma enableTimerTask_lists:
  assumes "lists_ok (store (ev d)) xs ps" and "free_event e xs ps" and "timeouts_sorted (store (ev d)) xs"
  shows "\<exists>h' ys. enableTimerTask env iv e cb d = Inr (d\<lparr>ev := (ev d)\<lparr>store := h'\<rparr>\<rparr>) \<and> lists_ok h' ys ps \<and> timeouts_sorted h' ys \<and>
     ys = insort_key (\<lambda>a. ev_timeout (h' a)) e xs \<and>
     same_data ((store (ev d))(e := event_zero\<lparr>ev_fd := -1, ev_index := -1, ev_timeout := timeradd (now_tv env) (Timeval 0 iv),
       ev_func := cb, ev_param := e\<rparr>)) h'"
proof -
  let ?s = "mcwill_event_set e (-1) False cb e 0 (ev d)"
  have l: "linked (store (ev d)) timer_list xs" "linked (store (ev d)) pending_list ps" using assms(1) by (simp_all add: lists_ok_def)
  have f: "e \<notin> set (timer_list # xs)" "e \<notin> set (pending_list # ps)" using assms(2) by (simp_all add: free_event_def)
  have st: "store ?s = upd_ev e (\<lambda>_. event_zero\<lparr>ev_fd := -1, ev_index := -1, ev_persist := False, ev_func := cb, ev_netType := 0, ev_param := e\<rparr>) (store (ev d))"
    by (simp add: mcwill_event_set_def upd_ev_def)
  have ok: "lists_ok (store ?s) xs ps"
    using assms(1) linked_upd_free[OF l(1) f(1)] linked_upd_free[OF l(2) f(2)] unfolding st lists_ok_def by simp
  have "map (\<lambda>a. ev_timeout (store ?s a)) xs = map (\<lambda>a. ev_timeout (store (ev d) a)) xs"
    using f(1) by (auto simp: st upd_ev_def)
  then have srt: "timeouts_sorted (store ?s) xs" using assms(3) by (simp only: timeouts_sorted_def)
  obtain h' ys where h: "mcwill_timer_add e (now_tv env) (Timeval 0 iv) ?s = Some (Inr (?s\<lparr>store := h'\<rparr>))" "lists_ok h' ys ps"
    "ys = insort_key (\<lambda>a. ev_timeout (h' a)) e xs" "timeouts_sorted h' ys"
    "same_data (upd_ev e (\<lambda>a. a\<lparr>ev_fd := -1, ev_timeout := timeradd (now_tv env) (Timeval 0 iv)\<rparr>) (store ?s)) h'"
    using timer_add_ok[OF ok assms(2) srt, of "now_tv env" "Timeval 0 iv"] by blast
  have s: "?s\<lparr>store := h'\<rparr> = (ev d)\<lparr>store := h'\<rparr>" by (simp add: mcwill_event_set_def)
  have "same_data ((store (ev d))(e := event_zero\<lparr>ev_fd := -1, ev_index := -1, ev_timeout := timeradd (now_tv env) (Timeval 0 iv),
       ev_func := cb, ev_param := e\<rparr>)) h'"
    using h(5) by (simp add: same_data_def st upd_ev_def event_zero_def)
  then show ?thesis
    using h(1-4) check_exist_free[OF l(1) f(1)] by (intro exI[of _ h'] exI[of _ ys]) (simp add: enableTimerTask_def ends_def s)
qed

lemma enableTimerTask_ok:
  assumes "lists_ok (store (ev d)) xs ps" and "free_event e xs ps" and "timeouts_sorted (store (ev d)) xs"
    and "fds_ok (ev d)" and "unwatched (ev d) e"
  shows "\<exists>h' ys. enableTimerTask env iv e cb d = Inr (d\<lparr>ev := (ev d)\<lparr>store := h'\<rparr>\<rparr>) \<and> lists_ok h' ys ps \<and>
     ys = insort_key (\<lambda>a. ev_timeout (h' a)) e xs \<and> ev_timeout (h' e) = timeradd (now_tv env) (Timeval 0 iv) \<and>
     ev_func (h' e) = cb \<and> fds_ok ((ev d)\<lparr>store := h'\<rparr>)"
proof -
  obtain h' ys where h: "enableTimerTask env iv e cb d = Inr (d\<lparr>ev := (ev d)\<lparr>store := h'\<rparr>\<rparr>)" "lists_ok h' ys ps"
    "ys = insort_key (\<lambda>a. ev_timeout (h' a)) e xs"
    "same_data ((store (ev d))(e := event_zero\<lparr>ev_fd := -1, ev_index := -1, ev_timeout := timeradd (now_tv env) (Timeval 0 iv),
       ev_func := cb, ev_param := e\<rparr>)) h'"
    using enableTimerTask_lists[OF assms(1-3), of env iv cb] by blast
  have "\<forall>i\<in>watched (ev d). watch_table (ev d) i \<noteq> e" using assms(5) by (simp add: unwatched_def)
  then have "fds_ok ((ev d)\<lparr>store := h'\<rparr>) = fds_ok (ev d)"
    using h(4) by (intro fds_ok_store) (simp add: same_data_def)
  then show ?thesis using assms(4) h by (intro exI[of _ h'] exI[of _ ys]) (simp add: same_data_def)
qed

section \<open>The first subflow\<close>

lemma enabled_accepted: "i < MAX_SUBFLOWS \<Longrightarrow> enabled (accepted i nt d) = insert i (enabled d)"
  by (auto simp: enabled_def accepted_def upd_flow_def startDispatch_def notifyMpdNetStatus_def)

lemma accepted_keeps:
  "subflow_nu (accepted i nt d) = subflow_nu d" "loc_fd (accepted i nt d) = loc_fd d" "ev (accepted i nt d) = ev d"
  "s_mpstatus (accepted i nt d) = s_mpstatus d" "g_fdConnected (accepted i nt d) = g_fdConnected d"
  "p_ack_event (accepted i nt d) = p_ack_event d" "mag (accepted i nt d) = mag d"
  "dataFd (flow (accepted i nt d) j) = dataFd (flow d j)"
  by (simp_all add: accepted_def upd_flow_def startDispatch_def notifyMpdNetStatus_def)

lemma update_keeps:
  "loc_fd (updateCurrentSubFlowsNum d) = loc_fd d" "ev (updateCurrentSubFlowsNum d) = ev d" "outs (updateCurrentSubFlowsNum d) = outs d"
  "s_mpstatus (updateCurrentSubFlowsNum d) = s_mpstatus d" "g_fdConnected (updateCurrentSubFlowsNum d) = g_fdConnected d"
  "p_ack_event (updateCurrentSubFlowsNum d) = p_ack_event d" "mag (updateCurrentSubFlowsNum d) = mag d"
  "flow (updateCurrentSubFlowsNum d) = flow d" "enabled (updateCurrentSubFlowsNum d) = enabled d"
  by (simp_all add: updateCurrentSubFlowsNum_def enabled_def)

lemma nu_update: "subflow_nu (updateCurrentSubFlowsNum d) = int (card (enabled d))"
  using count_ok_update[of d] by (simp add: count_ok_def update_keeps)

lemma fd_index_less: "fd_index nt = Inr i \<Longrightarrow> i < 3"
  by (auto simp: fd_index_def split: if_splits)

text \<open>What the daemon needs for a new watched event: its object is in no list, and not in the table.\<close>

definition unused :: "daemon \<Rightarrow> nat list \<Rightarrow> nat list \<Rightarrow> nat \<Rightarrow> bool" where
  "unused d xs ps e \<longleftrightarrow> free_event e xs ps \<and> unwatched (ev d) e"

lemma lists_ok_cong:
  assumes "lists_ok h xs ps" and "\<forall>a\<in>set (timer_list # pending_list # xs @ ps). h' a = h a"
  shows "lists_ok h' xs ps"
proof -
  have l: "linked h timer_list xs" "linked h pending_list ps" using assms(1) by (simp_all add: lists_ok_def)
  have "linked h' timer_list xs" by (rule linked_other[OF l(1), of "{a. h' a \<noteq> h a}"]) (use assms(2) in \<open>auto simp: links_kept_def\<close>)
  moreover have "linked h' pending_list ps" by (rule linked_other[OF l(2), of "{a. h' a \<noteq> h a}"]) (use assms(2) in \<open>auto simp: links_kept_def\<close>)
  ultimately show ?thesis using assms(1) by (simp add: lists_ok_def)
qed

text \<open>Watching a new event in the daemon keeps lists and timers.\<close>

lemma watch_daemon:
  assumes "fds_ok (ev d)" and "lists_ok (store (ev d)) xs ps" and "timeouts_sorted (store (ev d)) xs" and "unused d xs ps e"
    and "0 \<le> fd" and "fd \<notin> g_readFds (ev d)" and "card (watched (ev d)) < MAX_FD_EVENTS" and "d' = watch e fd p cb par nt d"
  shows "fds_ok (ev d')" and "g_readFds (ev d') = insert fd (g_readFds (ev d))" and "card (watched (ev d')) = Suc (card (watched (ev d)))"
    and "lists_ok (store (ev d')) xs ps" and "timeouts_sorted (store (ev d')) xs" and "unused d xs ps a \<Longrightarrow> a \<noteq> e \<Longrightarrow> unused d' xs ps a"
    and "watched_as (ev d') e fd" and "d' = d\<lparr>ev := ev d'\<rparr>"
proof -
  have ev: "ev d' = mcwill_event_add e (mcwill_event_set e fd p cb par nt (ev d))" by (simp add: assms(8) watch_def upd_ev_st_def)
  have u: "unwatched (ev d) e" "free_event e xs ps" using assms(4) by (simp_all add: unused_def)
  note w = watch_new[OF assms(1) u(1) assms(5-7) ev]
  have keep: "store (ev d') a = store (ev d) a" if "a \<in> set (timer_list # pending_list # xs @ ps)" for a
  proof -
    have "a \<noteq> e" using u(2) that by (auto simp: free_event_def)
    then show ?thesis by (rule w(4))
  qed
  show "fds_ok (ev d')" "g_readFds (ev d') = insert fd (g_readFds (ev d))" "card (watched (ev d')) = Suc (card (watched (ev d)))"
    "watched_as (ev d') e fd" by (rule w)+
  show "lists_ok (store (ev d')) xs ps" using assms(2) keep by (blast intro: lists_ok_cong)
  have "map (\<lambda>a. ev_timeout (store (ev d') a)) xs = map (\<lambda>a. ev_timeout (store (ev d) a)) xs" using keep by simp
  then show "timeouts_sorted (store (ev d')) xs" using assms(3) by (simp only: timeouts_sorted_def)
  show "unused d xs ps a \<Longrightarrow> a \<noteq> e \<Longrightarrow> unused d' xs ps a" using w(5) by (simp add: unused_def)
  show "d' = d\<lparr>ev := ev d'\<rparr>" unfolding assms(8) watch_def upd_ev_st_def by simp
qed

lemma unused_cong: "ev d' = ev d \<Longrightarrow> unused d' xs ps e = unused d xs ps e"
  by (simp add: unused_def)

text \<open>The tunnel is opened, its routes set, its descriptor watched and the timer armed.\<close>

lemma startTunnel_ok:
  assumes "fds_ok (ev d)" and "lists_ok (store (ev d)) xs ps" and "timeouts_sorted (store (ev d)) xs"
    and "unused d xs ps s_tun_event" and "unused d xs ps ack_event" and "card (watched (ev d)) < MAX_FD_EVENTS"
    and "loc_fd d \<le> 0" and "0 < tun_open env" and "tun_open env \<notin> g_readFds (ev d)" and "p_ack_event d = 0"
  shows "\<exists>d' ys. startTunnel env d = Inr (True, d') \<and> fds_ok (ev d') \<and> g_readFds (ev d') = insert (tun_open env) (g_readFds (ev d)) \<and>
     lists_ok (store (ev d')) ys ps \<and> ys = insort_key (\<lambda>a. ev_timeout (store (ev d') a)) ack_event xs \<and>
     ev_timeout (store (ev d') ack_event) = timeradd (now_tv env) (Timeval 0 TIMER_DEFAULT_INTERVAR_FOR_SACK) \<and>
     d' = d\<lparr>ev := ev d', loc_fd := tun_open env, s_mpstatus := MP_ACTIVED, p_ack_event := ack_event,
            outs := AddRoutes (localIp (mag d)) # ClearRoutes # outs d\<rparr>"
proof -
  define d0 where "d0 = (out (AddRoutes (localIp (mag d))) (out ClearRoutes (d\<lparr>loc_fd := tun_open env\<rparr>)))\<lparr>s_mpstatus := MP_ACTIVED\<rparr>"
  have e0: "ev d0 = ev d" by (simp add: d0_def)
  define d1 where "d1 = watch s_tun_event (tun_open env) True cb_tun 0 0 d0"
  have "unused d0 xs ps s_tun_event" "unused d0 xs ps ack_event" using assms(4,5) unused_cong[OF e0] by simp_all
  note w = watch_daemon[of d0 xs ps s_tun_event "tun_open env", unfolded e0, OF assms(1-3) this(1) less_imp_le[OF assms(8)] assms(9,6) d1_def]
  have u: "unused d1 xs ps ack_event" using w(6)[OF \<open>unused d0 xs ps ack_event\<close>] by simp
  define d2 where "d2 = d1\<lparr>p_ack_event := ack_event\<rparr>"
  have e2: "ev d2 = ev d1" by (simp add: d2_def)
  have u2: "free_event ack_event xs ps" "unwatched (ev d1) ack_event" using u by (simp_all add: unused_def)
  obtain h ys where h: "enableTimerTask env TIMER_DEFAULT_INTERVAR_FOR_SACK ack_event cb_ack d2 = Inr (d2\<lparr>ev := (ev d1)\<lparr>store := h\<rparr>\<rparr>)"
    "lists_ok h ys ps" "ys = insort_key (\<lambda>a. ev_timeout (h a)) ack_event xs"
    "ev_timeout (h ack_event) = timeradd (now_tv env) (Timeval 0 TIMER_DEFAULT_INTERVAR_FOR_SACK)" "fds_ok ((ev d1)\<lparr>store := h\<rparr>)"
    using enableTimerTask_ok[of d2 xs ps ack_event env TIMER_DEFAULT_INTERVAR_FOR_SACK cb_ack, unfolded e2, OF w(4) u2(1) w(5) w(1) u2(2)] by blast
  have p2: "d1 = d0\<lparr>ev := ev d1\<rparr>" by (rule w(8))
  have "p_ack_event d1 = 0" by (subst p2) (simp add: d0_def out_def assms(10))
  note p = this p2
  have "startTunnel env d = Inr (True, d2\<lparr>ev := (ev d1)\<lparr>store := h\<rparr>\<rparr>)"
    using assms(7,8) h(1) p(1)
    by (simp add: startTunnel_def init_tun_network_def d0_def[symmetric] d1_def[symmetric] enableAckTimer_def d2_def[symmetric] Let_def)
       (simp add: out_def d0_def d1_def d2_def)
  moreover have "d2\<lparr>ev := (ev d1)\<lparr>store := h\<rparr>\<rparr> = d\<lparr>ev := (ev d1)\<lparr>store := h\<rparr>, loc_fd := tun_open env, s_mpstatus := MP_ACTIVED,
      p_ack_event := ack_event, outs := AddRoutes (localIp (mag d)) # ClearRoutes # outs d\<rparr>"
    unfolding d2_def by (subst p(2)) (simp add: d0_def out_def)
  ultimately show ?thesis using h(2-5) w(2)
    by (intro exI[of _ "d2\<lparr>ev := (ev d1)\<lparr>store := h\<rparr>\<rparr>"] exI[of _ ys]) simp
qed

text \<open>
  C30: when the gateway accepts the first subflow, the daemon opens its data socket and the tunnel, watches both (the
  table stays right and the set for \<^verbatim>\<open>select\<close> gains exactly these two), starts the thread of its queue, sets the
  routes, arms the acknowledgement timer at its place in time ten milliseconds ahead, counts the
  subflow, becomes active and answers the application; it has not done so before any of this.
\<close>

theorem first_subflow_starts:
  assumes "mag_result rsp = 0" and "fd_index nt = Inr i" and "dataFd (flow d i) < 0" and "\<not> dispatching d i" and "enabled d = {}"
    and "subflow_nu d = 0" and "loc_fd d \<le> 0" and "p_ack_event d = 0" and "app_reachable env d" and "0 \<le> g_fdConnected d"
    and "fd = new_socket env i False" and "tun = tun_open env" and "0 < fd" and "0 < tun" and "fd \<noteq> tun"
    and "fd \<notin> g_readFds (ev d)" and "tun \<notin> g_readFds (ev d)"
    and "fds_ok (ev d)" and "card (watched (ev d)) + 2 \<le> MAX_FD_EVENTS"
    and "lists_ok (store (ev d)) xs ps" and "timeouts_sorted (store (ev d)) xs"
    and "unused d xs ps (data_event i)" and "unused d xs ps s_tun_event" and "unused d xs ps ack_event"
  shows "\<exists>d' ys m. addSubflowRsp env rsp nt d = Inr (True, d') \<and> s_mpstatus d' = MP_ACTIVED \<and> enabled d' = {i} \<and> subflow_nu d' = 1 \<and>
     dataFd (flow d' i) = fd \<and> loc_fd d' = tun \<and> fds_ok (ev d') \<and> g_readFds (ev d') = {fd, tun} \<union> g_readFds (ev d) \<and>
     lists_ok (store (ev d')) ys ps \<and> ys = insort_key (\<lambda>a. ev_timeout (store (ev d') a)) ack_event xs \<and>
     ev_timeout (store (ev d') ack_event) = timeradd (now_tv env) (Timeval 0 10000) \<and>
     encodeAppRspWithNetType (mag_messageType rsp) (mag_sessionId rsp) (word_of_int nt) RESULT_OK = Inr m \<and>
     outs d' = [ToApp m, AddRoutes (localIp (mag d)), ClearRoutes, StartTask i] @ outs d"
proof -
  have i: "i < MAX_SUBFLOWS" using fd_index_less[OF assms(2)] by simp
  define d0 where "d0 = upd_flow i (\<lambda>n. n\<lparr>dataFd := fd\<rparr>) d"
  have d0: "ev d0 = ev d" "outs d0 = outs d" "mag d0 = mag d" by (simp_all add: d0_def upd_flow_def)
  define d1 where "d1 = watch (data_event i) fd True cb_data i nt d0"
  have "fd \<noteq> -1" using assms(13) by simp
  then have opened: "(if dataFd (flow d i) < 0 then openData env i nt d else (True, d)) = (True, d1)"
    using assms(3) by (simp add: openData_def Let_def assms(11)[symmetric] d0_def[symmetric] d1_def)
  have room: "card (watched (ev d)) < MAX_FD_EVENTS" using assms(19) by simp
  have un: "unused d0 xs ps (data_event i)" "unused d0 xs ps s_tun_event" "unused d0 xs ps ack_event"
    using assms(22-24) unused_cong[OF d0(1)] by simp_all
  note w = watch_daemon[of d0 xs ps "data_event i" fd, unfolded d0(1), OF assms(18,20,21) un(1) less_imp_le[OF assms(13)] assms(16) room d1_def]
  have d1: "d1 = d0\<lparr>ev := ev d1\<rparr>" by (rule w(8))
  have f1: "flow d1 = flow d0" "loc_fd d1 = loc_fd d" "p_ack_event d1 = 0" "subflow_nu d1 = 0" "g_fdConnected d1 = g_fdConnected d"
    "mag d1 = mag d" "outs d1 = outs d" "dispatching d1 = dispatching d"
    by (subst d1, simp add: d0_def upd_flow_def assms(6,8))+
  define d3 where "d3 = updateCurrentSubFlowsNum (accepted i nt d1)"
  have en: "enabled d3 = {i}"
  proof -
    have "enabled d1 = enabled d" unfolding enabled_def f1(1) d0_def upd_flow_def by auto
    then show ?thesis using assms(5) by (simp add: d3_def update_keeps enabled_accepted[OF i])
  qed
  have nu: "subflow_nu d3 = 1" "subflow_nu (accepted i nt d1) = 0"
    using nu_update[of "accepted i nt d1"] en by (simp_all add: d3_def update_keeps accepted_keeps f1)
  have f3: "ev d3 = ev d1" "loc_fd d3 = loc_fd d" "p_ack_event d3 = 0" "mag d3 = mag d" "g_fdConnected d3 = g_fdConnected d"
    "dataFd (flow d3 i) = fd"
    by (simp_all add: d3_def update_keeps accepted_keeps f1 d0_def) (simp add: upd_flow_def)
  have o3: "outs d3 = StartTask i # outs d"
    using assms(4) by (simp add: d3_def update_keeps accepted_def startDispatch_def f1(8)) (simp add: upd_flow_def f1(7))
  have u3: "unused d3 xs ps s_tun_event" "unused d3 xs ps ack_event"
    using w(6)[OF un(2)] w(6)[OF un(3)] unused_cong[OF f3(1)] by simp_all
  have t3: "tun \<notin> g_readFds (ev d1)" using w(2) assms(15,17) by simp
  have room3: "card (watched (ev d1)) < MAX_FD_EVENTS" using w(3) assms(19) by simp
  obtain e ys where e: "startTunnel env d3 = Inr (True, e)" "fds_ok (ev e)" "g_readFds (ev e) = insert tun (g_readFds (ev d1))"
    "lists_ok (store (ev e)) ys ps" "ys = insort_key (\<lambda>a. ev_timeout (store (ev e) a)) ack_event xs"
    "ev_timeout (store (ev e) ack_event) = timeradd (now_tv env) (Timeval 0 TIMER_DEFAULT_INTERVAR_FOR_SACK)"
    "e = d3\<lparr>ev := ev e, loc_fd := tun, s_mpstatus := MP_ACTIVED, p_ack_event := ack_event,
            outs := AddRoutes (localIp (mag d3)) # ClearRoutes # outs d3\<rparr>"
    using startTunnel_ok[of d3 xs ps env, unfolded f3(1-3) assms(12)[symmetric], OF w(1,4,5) u3 room3 assms(7,14) t3 refl]
    by blast
  have ce: "subflow_nu e = 1" "g_fdConnected e = g_fdConnected d" "flow e = flow d3" "loc_fd e = tun" "s_mpstatus e = MP_ACTIVED"
    "outs e = AddRoutes (localIp (mag d)) # ClearRoutes # StartTask i # outs d"
    by (subst e(7), simp add: nu f3 o3)+
  have enE: "enabled e = {i}" using en ce(3) by (simp add: enabled_def)
  have clamp: "clamp_nu e = e" using ce(1) by (simp add: clamp_nu_def)
  have reach: "app_reachable env e" using assms(9) ce(2) by (simp add: app_reachable_def)
  obtain m where m: "encodeAppRspWithNetType (mag_messageType rsp) (mag_sessionId rsp) (word_of_int nt) RESULT_OK = Inr m"
    "echoAppResultWithNetType env (mag_messageType rsp) (mag_sessionId rsp) (word_of_int nt) RESULT_OK e = Inr (told m e)"
    using echo_nettype_told[OF reach] by blast
  have run: "addSubflowRsp env rsp nt d = Inr (True, told m e)"
    unfolding addSubflowRsp_run[OF assms(1,2) opened d3_def] by (simp add: nu e(1) clamp m(2))
  have "outs (told m e) = ToApp m # outs e" using assms(10) ce(2) by (simp add: told_def)
  moreover have "enabled (told m e) = {i}" using enE by (simp add: enabled_def)
  ultimately show ?thesis
    using run m(1) e(2-6) ce f3(6) w(2) by (intro exI[of _ "told m e"] exI[of _ ys] exI[of _ m]) auto
qed

section \<open>A tunnel that cannot be opened\<close>

definition same_tunnel :: "daemon \<Rightarrow> daemon \<Rightarrow> bool" where
  "same_tunnel d d' \<longleftrightarrow> loc_fd d' = loc_fd d \<and> s_mpstatus d' = s_mpstatus d \<and> g_fdConnected d' = g_fdConnected d"

lemma openData_opens:
  assumes "new_socket env i False \<noteq> -1"
  shows "\<exists>d1. (if dataFd (flow d i) < 0 then openData env i nt d else (True, d)) = (True, d1) \<and>
     enabled d1 = enabled d \<and> subflow_nu d1 = subflow_nu d \<and> same_tunnel d d1"
proof (cases "dataFd (flow d i) < 0")
  case True
  define d1 where "d1 = watch (data_event i) (new_socket env i False) True cb_data i nt
    (upd_flow i (\<lambda>n. n\<lparr>dataFd := new_socket env i False\<rparr>) d)"
  have "(if dataFd (flow d i) < 0 then openData env i nt d else (True, d)) = (True, d1)"
    using True assms by (simp add: openData_def Let_def d1_def)
  moreover have "enabled d1 = enabled d" unfolding enabled_def d1_def watch_def upd_ev_st_def upd_flow_def by auto
  ultimately show ?thesis by (simp add: same_tunnel_def) (simp add: d1_def watch_def upd_ev_st_def upd_flow_def)
qed (simp add: same_tunnel_def)

text \<open>
  If the tunnel cannot be opened for the first subflow, the application is told of a failure, but
  the subflow stays enabled and counted. A second subflow that is accepted later is then not the first
  one any more: it is reported as a success although there is still no tunnel and the daemon is not
  active.
\<close>

theorem tunnel_failure_sticks:
  assumes "mag_result rsp = 0" and "fd_index nt = Inr i" and "enabled d = {}" and "subflow_nu d = 0" and "loc_fd d \<le> 0"
    and "tun_open env < 0" and "new_socket env i False \<noteq> -1" and "app_reachable env d"
    and "mag_result rsp2 = 0" and "fd_index nt2 = Inr j" and "j \<noteq> i" and "new_socket env2 j False \<noteq> -1" and "app_reachable env2 d"
    and "0 \<le> g_fdConnected d"
  shows "\<exists>d1 d2 m. addSubflowRsp env rsp nt d = Inr (False, d1) \<and> enabled d1 = {i} \<and> subflow_nu d1 = 1 \<and> loc_fd d1 \<le> 0 \<and>
     addSubflowRsp env2 rsp2 nt2 d1 = Inr (True, d2) \<and> enabled d2 = {i, j} \<and> loc_fd d2 \<le> 0 \<and> s_mpstatus d2 = s_mpstatus d \<and>
     encodeAppRspWithNetType (mag_messageType rsp2) (mag_sessionId rsp2) (word_of_int nt2) RESULT_OK = Inr m \<and> hd (outs d2) = ToApp m"
proof -
  have ij: "i < MAX_SUBFLOWS" "j < MAX_SUBFLOWS" using fd_index_less assms(2,10) by auto
  obtain a1 where a1: "(if dataFd (flow d i) < 0 then openData env i nt d else (True, d)) = (True, a1)" "enabled a1 = {}"
    "subflow_nu a1 = 0" "same_tunnel d a1" using openData_opens[OF assms(7), of d nt] assms(3,4) by auto
  define a2 where "a2 = updateCurrentSubFlowsNum (accepted i nt a1)"
  have a2: "enabled a2 = {i}" "subflow_nu a2 = 1" "same_tunnel d a2"
    using a1 enabled_accepted[OF ij(1)] by (simp_all add: a2_def update_keeps nu_update same_tunnel_def accepted_keeps)
  have tun: "startTunnel env a2 = Inr (False, a2)"
    using assms(5,6) a2(3) by (simp add: startTunnel_def init_tun_network_def same_tunnel_def)
  have "app_reachable env a2" using assms(8) a2(3) by (simp add: app_reachable_def same_tunnel_def)
  then obtain m1 where m1: "echoAppResultWithNetType env (mag_messageType rsp) (mag_sessionId rsp) (word_of_int nt) RESULT_FAILED a2 = Inr (told m1 a2)"
    using echo_nettype_told by blast
  let ?d1 = "told m1 a2"
  have run1: "addSubflowRsp env rsp nt d = Inr (False, ?d1)"
    unfolding addSubflowRsp_run[OF assms(1,2) a1(1) a2_def] using a1(3) a2(2) tun m1 by (simp add: accepted_keeps)
  have d1: "enabled ?d1 = {i}" "subflow_nu ?d1 = 1" "same_tunnel d ?d1" using a2 by (simp_all add: enabled_def same_tunnel_def)
  obtain b1 where b1: "(if dataFd (flow ?d1 j) < 0 then openData env2 j nt2 ?d1 else (True, ?d1)) = (True, b1)" "enabled b1 = {i}"
    "subflow_nu b1 = 1" "same_tunnel ?d1 b1" using openData_opens[OF assms(12), of ?d1 nt2] d1 by auto
  define b2 where "b2 = updateCurrentSubFlowsNum (accepted j nt2 b1)"
  have b2: "enabled b2 = {i, j}" "subflow_nu b2 = 2" "same_tunnel d b2"
    using b1 d1(3) assms(11) enabled_accepted[OF ij(2)]
    by (auto simp: b2_def update_keeps nu_update same_tunnel_def accepted_keeps)
  have "app_reachable env2 b2" using assms(13) b2(3) by (simp add: app_reachable_def same_tunnel_def)
  then obtain m2 where m2: "encodeAppRspWithNetType (mag_messageType rsp2) (mag_sessionId rsp2) (word_of_int nt2) RESULT_OK = Inr m2"
    "echoAppResultWithNetType env2 (mag_messageType rsp2) (mag_sessionId rsp2) (word_of_int nt2) RESULT_OK b2 = Inr (told m2 b2)"
    using echo_nettype_told by blast
  have clamp: "clamp_nu b2 = b2" using b2(2) by (simp add: clamp_nu_def)
  have run2: "addSubflowRsp env2 rsp2 nt2 ?d1 = Inr (True, told m2 b2)"
    unfolding addSubflowRsp_run[OF assms(9,10) b1(1) b2_def] using b1(3) by (simp add: accepted_keeps clamp m2(2))
  have "outs (told m2 b2) = ToApp m2 # outs b2" using assms(14) b2(3) by (simp add: told_def same_tunnel_def)
  moreover have "enabled (told m2 b2) = {i, j}" using b2(1) by (simp add: enabled_def)
  ultimately show ?thesis
    using run1 run2 d1 b2 m2(1) assms(5) by (intro exI[of _ ?d1] exI[of _ "told m2 b2"] exI[of _ m2]) (auto simp: same_tunnel_def)
qed

section \<open>Removals\<close>

text \<open>
  A removal that finds no subflow is refused under the session number of the command with its four bytes reversed,
  so that the application cannot tell which command failed; with a subflow, the number is turned around
  by the encoder and back again, and is the right one.
\<close>

theorem removal_session_number:
  assumes "app_reachable env d" and "0 \<le> g_fdConnected d" and "subflow_nu d \<le> 0"
  shows "\<exists>m. handleCommand env (DEL_SUBFLOW r) d = Inr (out (ToApp m) d) \<and> find_int ''sessionid'' m = Some (htonl (sessionId r)) \<and>
     htonl (sessionId (snd (encodeDelRequest u r))) = sessionId r"
proof -
  obtain m where m: "encodeAppRspWithNetType MESSAGE_TYPE_DEL_SUBFLOW_RSP (htonl (sessionId r)) (ucast (del_numberType r)) RESULT_FAILED = Inr m"
    "echoAppResultWithNetType env MESSAGE_TYPE_DEL_SUBFLOW_RSP (htonl (sessionId r)) (ucast (del_numberType r)) RESULT_FAILED d = Inr (told m d)"
    using echo_nettype_told[OF assms(1)] by blast
  then have "handleCommand env (DEL_SUBFLOW r) d = Inr (out (ToApp m) d)"
    using assms(2,3) by (simp add: handleCommand_def delSubflow_def told_def)
  moreover have "find_int ''sessionid'' m = Some (htonl (sessionId r))" using response_scan[OF m(1)] by simp
  ultimately show ?thesis by (intro exI[of _ m]) (simp add: encodeDelRequest_def swap_base_def htonl_htonl Let_def)
qed

text \<open>What a removal keeps while it works.\<close>

lemma sendAll_keeps:
  "mpd_ready (sendCommandMsgOnAllSubflows env b d) = mpd_ready d \<and> g_fdConnected (sendCommandMsgOnAllSubflows env b d) = g_fdConnected d"
proof -
  have one: "mpd_ready (sendOnSubflow env b i d) = mpd_ready d" "g_fdConnected (sendOnSubflow env b i d) = g_fdConnected d" for i d
    by (simp_all add: sendOnSubflow_def udp_write_def Let_def del_data_def del_command_def upd_flow_def split: prod.split)
  have "mpd_ready (fold (sendOnSubflow env b) is d) = mpd_ready d \<and> g_fdConnected (fold (sendOnSubflow env b) is d) = g_fdConnected d"
    for "is" :: "nat list"
    by (induction "is" arbitrary: d) (simp_all add: one)
  then show ?thesis by (simp add: sendCommandMsgOnAllSubflows_def)
qed

lemma removeSpecified_keeps:
  "mpd_ready (removeSpecifiedSubFlow i d) = mpd_ready d" "g_fdConnected (removeSpecifiedSubFlow i d) = g_fdConnected d"
  "sub_mp_status (flow (removeSpecifiedSubFlow i d) j) = (if j = i then NETWORK_MP_DISABLE else sub_mp_status (flow d j))"
  by (auto simp: removeSpecifiedSubFlow_def Let_def del_data_def del_command_def upd_flow_def updateCurrentSubFlowsNum_def split: prod.split)

lemma flag_index_less: "flag_index t = Some i \<Longrightarrow> i < 3"
  by (auto simp: flag_index_def split: if_splits)

lemma finish_keeps:
  "mpd_ready (finishsubflowDispathTask t d) = mpd_ready d" "g_fdConnected (finishsubflowDispathTask t d) = g_fdConnected d"
  "flow (finishsubflowDispathTask t d) = flow d"
  by (auto simp: finishsubflowDispathTask_def split: option.split)

lemma notifyRemoved_tells:
  assumes "mpd_ready d"
  shows "g_fdConnected (notifyRemoved t d) = g_fdConnected d" "flow (notifyRemoved t d) = flow d"
    and "k < 3 \<Longrightarrow> ucast (getNetTypeFromQ k) AND t \<noteq> 0 \<Longrightarrow>
      NotifyMpd (getNetTypeFromQ k) NETWORK_MP_DISABLE \<in> set (outs (notifyRemoved t d))"
  using assms by (auto simp: notifyRemoved_def notifyMpdNetStatus_def Let_def getNetTypeFromQ_def less_Suc_eq numeral_3_eq_3)

lemma removal_end_ok:
  assumes "app_reachable env d"
  shows "\<exists>d'. removal_end env d = Inr d' \<and> flow d' = flow d \<and> set (outs d) \<subseteq> set (outs d')"
proof (cases "subflow_nu d = 0")
  case True
  have "app_reachable env (del_tun d)" using assms by (simp add: app_reachable_def del_tun_def split: prod.split)
  then obtain m where "echoAppException env EXCEPTION_CODE_MP_TUN_CLOSE MP_STREAM_FLAG_TUN0 (del_tun d) = Inr (told m (del_tun d))"
    using echo_exception_told[of env "del_tun d" EXCEPTION_CODE_MP_TUN_CLOSE MP_STREAM_FLAG_TUN0] by auto
  then show ?thesis
    using True by (intro exI[of _ "out ClearRoutes (told m (del_tun d))"]) (auto simp: removal_end_def told_def del_tun_def split: prod.split)
qed (simp add: removal_end_def)

text \<open>
  A removal that names several networks is carried out for one of them only (WiFi before McWiLL before 4G): every
  other one it names stays as it is in the daemon, with its sockets and in the count, while the driver
  is told that it is disabled.
\<close>

theorem removal_of_several:
  assumes "0 < subflow_nu d" and "app_reachable env d" and "mpd_ready d"
    and "flag_index (del_numberType r) = Some i" and "k < 3" and "k \<noteq> i" and "ucast (getNetTypeFromQ k) AND del_numberType r \<noteq> 0"
  shows "\<exists>d'. handleCommand env (DEL_SUBFLOW r) d = Inr d' \<and> i \<notin> enabled d' \<and>
     sub_mp_status (flow d' k) = sub_mp_status (flow d k) \<and> NotifyMpd (getNetTypeFromQ k) NETWORK_MP_DISABLE \<in> set (outs d')"
proof -
  let ?t = "del_numberType r"
  define d1 where "d1 = sendCommandMsgOnAllSubflows env (fst (encodeDelRequest (op_uid (mpc_op d)) r)) d"
  define d2 where "d2 = removeSpecifiedSubFlow i d1"
  define d3 where "d3 = finishsubflowDispathTask ?t d2"
  have rm: "removed env r d = notifyRemoved ?t d3"
    using flag_index_less[OF assms(4)] by (simp add: removed_def removeSubFlowsEvent_def assms(4) d1_def d2_def d3_def)
  have st1: "sub_mp_status (flow d1 j) = sub_mp_status (flow d j)" for j
    using count_state_sendAll[of env _ d] by (simp add: d1_def count_state_def fun_eq_iff)
  have d1: "mpd_ready d1" "g_fdConnected d1 = g_fdConnected d" using sendAll_keeps assms(3) by (simp_all add: d1_def)
  then have d3: "mpd_ready d3" "g_fdConnected d3 = g_fdConnected d" "flow d3 = flow d2"
    by (simp_all add: d3_def finish_keeps d2_def removeSpecified_keeps)
  let ?x = "removed env r d"
  have x: "g_fdConnected ?x = g_fdConnected d" "flow ?x = flow d2" "NotifyMpd (getNetTypeFromQ k) NETWORK_MP_DISABLE \<in> set (outs ?x)"
    unfolding rm using notifyRemoved_tells[OF d3(1)] d3(2,3) assms(5,7) by auto
  have "app_reachable env ?x" using assms(2) x(1) by (simp add: app_reachable_def)
  then obtain m where m: "echoAppResultWithNetType env MESSAGE_TYPE_DEL_SUBFLOW_RSP (htonl (sessionId (snd (encodeDelRequest (op_uid (mpc_op d)) r))))
         (ucast ?t) RESULT_OK ?x = Inr (told m ?x)" "app_reachable env (told m ?x)"
    using echo_nettype_told by (metis app_reachable_def told_simps(10))
  obtain d' where d': "removal_end env (told m ?x) = Inr d'" "flow d' = flow d2" "set (outs (told m ?x)) \<subseteq> set (outs d')"
    using removal_end_ok[OF m(2)] x(2) by auto
  have "handleCommand env (DEL_SUBFLOW r) d = Inr d'"
    using assms(1) m(1) d'(1) by (simp add: delSubflow_run)
  moreover have "set (outs ?x) \<subseteq> set (outs (told m ?x))" by (auto simp: told_def)
  ultimately show ?thesis
    using d' x(3) assms(6) by (intro exI[of _ d']) (auto simp: enabled_def d2_def removeSpecified_keeps st1)
qed

section \<open>The numbers of the daemon and of the driver\<close>

text \<open>
  The daemon and the driver mean the same subflow by the same number: when the thread of queue \<open>i\<close> starts, what the
  daemon reports makes exactly subflow \<open>i\<close> of the driver valid, and a packet that the driver hands back for
  the device of subflow \<open>i\<close> is put into queue \<open>i\<close>.
\<close>

theorem dispatch_enables_subflow:
  assumes "i < 3" and "mpd_ready d"
  shows "\<exists>dev. outs (dispatchStart i d) = NotifyMpd dev NETWORK_MP_ENABLE # outs d \<and>
     (\<exists>s'. MPD_DoSubFlowStateInd renv dev NETWORK_MP_ENABLE s = Inr s' \<and> valid_flows s' = insert i (valid_flows s) \<and>
        txWindow s' = txWindow s \<and> mem s' = mem s) \<and>
     MPD_GetDeviceId i = int (unat dev) \<and> fd_index (MPD_GetDeviceId i) = Inr i \<and> send_queue_of (MPD_GetDeviceId i) = int i"
proof -
  have sf: "MPD_GetSubFlowId (getNetTypeFromQ i) = int i"
    using assms(1) by (auto simp: GetSubFlowId_cases getNetTypeFromQ_def less_Suc_eq numeral_3_eq_3)
  have dev: "MPD_GetDeviceId i = int (unat (getNetTypeFromQ i))" "fd_index (MPD_GetDeviceId i) = Inr i" "send_queue_of (MPD_GetDeviceId i) = int i"
    using assms(1)
    by (auto simp: MPD_GetDeviceId_def g_sfId2Dev_def getNetTypeFromQ_def fd_index_def send_queue_of_def less_Suc_eq numeral_3_eq_3)
  then show ?thesis
    using subflow_enabled[OF sf, of renv s] assms(2)
    by (intro exI[of _ "getNetTypeFromQ i"]) (auto simp: dispatchStart_def notifyMpdNetStatus_def)
qed

section \<open>Instances\<close>

text \<open>A system that answers everything, with what fresh memory holds as its parameter.\<close>

definition env_demo :: "fresh_structs \<Rightarrow> sys_env" where
  "env_demo fresh = \<lparr>new_socket = (\<lambda>i c. if c then 20 + int i else 30 + int i), udp_result = (\<lambda>fd b. int (length b)),
     app_write = (\<lambda>_. 1), tun_open = 40, now_tv = Timeval 100 0, uptime = 50, sysinfo_fails = False, myUptimeMillis = 1000,
     getTimeStamp = 7, getRTTD = (\<lambda>_. 5), period_exceptions = [], parse_einval = False, structs = fresh\<rparr>"

text \<open>The wake-up pipe is watched as 5 and the application as 9; no timer is armed.\<close>

definition ev_idle :: ev_st where
  "ev_idle = \<lparr>store = (\<lambda>_. event_zero)
      (timer_list := event_zero\<lparr>ev_next := timer_list, ev_prev := timer_list\<rparr>,
       pending_list := event_zero\<lparr>ev_next := pending_list, ev_prev := pending_list\<rparr>,
       s_wakeupfd_event := event_zero\<lparr>ev_fd := 5\<rparr>, s_commands_event := event_zero\<lparr>ev_fd := 9, ev_index := 1\<rparr>),
     watch_table = (\<lambda>_. 0)(0 := s_wakeupfd_event, 1 := s_commands_event), g_readFds = {5, 9}, g_nfds = 10, closed = []\<rparr>"

definition daemon_demo :: daemon where
  "daemon_demo = \<lparr>ev = ev_idle, s_mpstatus = MP_DISACTIVE, g_fdListen = 8, g_fdConnected = 9, loc_fd = 0, subflow_nu = 0,
     flow = (\<lambda>_. netStatus_init), mag = \<lparr>localIp = ''10.0.0.1'', RTTC = (\<lambda>_. 0)\<rparr>, detectTime = (\<lambda>_. 0),
     mpc_op = \<lparr>op_uid = 3, dns_addr = [], svr_addr = []\<rparr>, quit = (\<lambda>_. False), dispatching = (\<lambda>_. False), mpd_ready = True,
     p_ack_event = 0, timeInt = 0, g_keepAliveinfo = 0, s_watchDog_reset = False, g_log_enable = False, outs = []\<rparr>"

definition rsp_demo :: magRsp where
  "rsp_demo = \<lparr>mag_messageType = MESSAGE_TYPE_ADD_SUBFLOW_RSP, mag_sessionId = 7, mag_len = 17, mag_result = 0\<rparr>"

lemma watched_idle: "watched ev_idle = {0, 1}"
  by (auto simp: watched_def ev_idle_def)

lemma fds_ok_idle: "fds_ok ev_idle"
  unfolding fds_ok_def watched_idle by (auto simp: ev_idle_def fd_at_def event_zero_def)

lemma lists_idle: "lists_ok (store ev_idle) [] []" "timeouts_sorted (store ev_idle) []"
  by (simp_all add: lists_ok_def linked_def ev_idle_def timeouts_sorted_def)

lemma unused_idle: "e \<noteq> 0 \<Longrightarrow> e \<noteq> 1 \<Longrightarrow> e \<noteq> 2 \<Longrightarrow> e \<noteq> 12 \<Longrightarrow> e \<noteq> 13 \<Longrightarrow> ev d = ev_idle \<Longrightarrow> unused d [] [] e"
  by (auto simp: unused_def free_event_def unwatched_def watched_idle) (auto simp: ev_idle_def)

lemma demo_simps [simp]:
  "ev daemon_demo = ev_idle" "subflow_nu daemon_demo = 0" "flow daemon_demo = (\<lambda>_. netStatus_init)" "loc_fd daemon_demo = 0"
  "g_fdConnected daemon_demo = 9" "p_ack_event daemon_demo = 0" "dispatching daemon_demo i = False" "mpd_ready daemon_demo"
  "outs daemon_demo = []" "s_mpstatus daemon_demo = MP_DISACTIVE"
  by (simp_all add: daemon_demo_def)

lemma enabled_demo [simp]: "enabled daemon_demo = {}"
  by (simp add: enabled_def netStatus_init_def)

lemma reachable_demo [simp]: "app_reachable (env_demo fresh) d"
  by (simp add: app_reachable_def env_demo_def)

lemma idle_sets: "g_readFds ev_idle = {5, 9}" "closed ev_idle = []"
  by (simp_all add: ev_idle_def)

lemma env_demo_simps [simp]:
  "new_socket (env_demo fresh) i False = 30 + int i" "tun_open (env_demo fresh) = 40" "now_tv (env_demo fresh) = Timeval 100 0"
  by (simp_all add: env_demo_def)

theorem first_subflow_starts_witness:
  "\<forall>fresh. \<exists>d'. addSubflowRsp (env_demo fresh) rsp_demo 4 daemon_demo = Inr (True, d') \<and> enabled d' = {2} \<and> loc_fd d' = 40 \<and>
     g_readFds (ev d') = {32, 40, 5, 9} \<and> lists_ok (store (ev d')) [ack_event] [] \<and> s_mpstatus d' = MP_ACTIVED"
proof
  fix fresh
  have u: "unused daemon_demo [] [] (data_event 2)" "unused daemon_demo [] [] s_tun_event" "unused daemon_demo [] [] ack_event"
    by (rule unused_idle; simp)+
  have "fd_index 4 = Inr 2" "mag_result rsp_demo = 0" by (simp_all add: fd_index_def rsp_demo_def)
  then show "\<exists>d'. addSubflowRsp (env_demo fresh) rsp_demo 4 daemon_demo = Inr (True, d') \<and> enabled d' = {2} \<and> loc_fd d' = 40 \<and>
     g_readFds (ev d') = {32, 40, 5, 9} \<and> lists_ok (store (ev d')) [ack_event] [] \<and> s_mpstatus d' = MP_ACTIVED"
    using first_subflow_starts[of rsp_demo 4 2 daemon_demo "env_demo fresh" 32 40 "[]" "[]"] u fds_ok_idle lists_idle
    by (auto simp: idle_sets watched_idle netStatus_init_def)
qed

theorem tunnel_failure_sticks_witness:
  "\<forall>fresh. \<exists>d1 d2. addSubflowRsp ((env_demo fresh)\<lparr>tun_open := -1\<rparr>) rsp_demo 4 daemon_demo = Inr (False, d1) \<and>
     addSubflowRsp (env_demo fresh) rsp_demo 2 d1 = Inr (True, d2) \<and> loc_fd d2 \<le> 0 \<and> enabled d2 = {1, 2}"
proof
  fix fresh
  have "fd_index 4 = Inr 2" "fd_index 2 = Inr 1" "mag_result rsp_demo = 0" by (simp_all add: fd_index_def rsp_demo_def)
  moreover have "app_reachable ((env_demo fresh)\<lparr>tun_open := -1\<rparr>) daemon_demo" by (simp add: app_reachable_def env_demo_def)
  moreover have "new_socket ((env_demo fresh)\<lparr>tun_open := -1\<rparr>) 2 False = 32" by (simp add: env_demo_def)
  ultimately show "\<exists>d1 d2. addSubflowRsp ((env_demo fresh)\<lparr>tun_open := -1\<rparr>) rsp_demo 4 daemon_demo = Inr (False, d1) \<and>
     addSubflowRsp (env_demo fresh) rsp_demo 2 d1 = Inr (True, d2) \<and> loc_fd d2 \<le> 0 \<and> enabled d2 = {1, 2}"
    using tunnel_failure_sticks[of rsp_demo 4 2 daemon_demo "(env_demo fresh)\<lparr>tun_open := -1\<rparr>" rsp_demo 2 1 "env_demo fresh"]
    by (auto simp: insert_commute)
qed

definition removal_demo :: r_app_del where
  "removal_demo = \<lparr>messageType = MESSAGE_TYPE_DEL_SUBFLOW_REQ, sessionId = 1, del_token = 0, del_numberType = 6, del_deleteCause = 0\<rparr>"

theorem removal_session_number_witness:
  "\<forall>fresh. \<exists>m. handleCommand (env_demo fresh) (DEL_SUBFLOW removal_demo) daemon_demo = Inr (out (ToApp m) daemon_demo) \<and>
     find_int ''sessionid'' m = Some 0x01000000"
proof
  fix fresh
  have "htonl (sessionId removal_demo) = 0x01000000"
    by (simp add: removal_demo_def htonl_def le32_bytes_def le32_def)
  then show "\<exists>m. handleCommand (env_demo fresh) (DEL_SUBFLOW removal_demo) daemon_demo = Inr (out (ToApp m) daemon_demo) \<and>
     find_int ''sessionid'' m = Some 0x01000000"
    using removal_session_number[of "env_demo fresh" daemon_demo removal_demo 0] by auto
qed

text \<open>Two subflows are enabled; a tunnel is open as 40, a data socket of WiFi as 32.\<close>

definition daemon_two :: daemon where
  "daemon_two = daemon_demo\<lparr>subflow_nu := 2, loc_fd := 40,
     flow := (\<lambda>_. netStatus_init)(1 := netStatus_init\<lparr>sub_mp_status := NETWORK_MP_ENABLE\<rparr>,
       2 := netStatus_init\<lparr>sub_mp_status := NETWORK_MP_ENABLE, dataFd := 32\<rparr>),
     ev := ev_idle\<lparr>store := (store ev_idle)(22 := event_zero\<lparr>ev_fd := 32, ev_index := 3\<rparr>, s_tun_event := event_zero\<lparr>ev_fd := 40, ev_index := 4\<rparr>),
       watch_table := (watch_table ev_idle)(3 := 22, 4 := s_tun_event), g_readFds := {5, 9, 32, 40}, g_nfds := 41\<rparr>\<rparr>"

theorem removal_of_several_witness:
  "\<forall>fresh. \<exists>d'. handleCommand (env_demo fresh) (DEL_SUBFLOW removal_demo) daemon_two = Inr d' \<and>
     sub_mp_status (flow d' 1) = NETWORK_MP_ENABLE \<and> NotifyMpd 2 NETWORK_MP_DISABLE \<in> set (outs d')"
proof
  fix fresh
  have "flag_index (del_numberType removal_demo) = Some 2" "getNetTypeFromQ 1 = 2"
    "(ucast (getNetTypeFromQ 1) :: U8) AND del_numberType removal_demo \<noteq> 0"
    by (simp_all add: flag_index_def removal_demo_def getNetTypeFromQ_def)
  moreover have "0 < subflow_nu daemon_two" "mpd_ready daemon_two" "sub_mp_status (flow daemon_two 1) = NETWORK_MP_ENABLE"
    by (simp_all add: daemon_two_def)
  ultimately show "\<exists>d'. handleCommand (env_demo fresh) (DEL_SUBFLOW removal_demo) daemon_two = Inr d' \<and>
     sub_mp_status (flow d' 1) = NETWORK_MP_ENABLE \<and> NotifyMpd 2 NETWORK_MP_DISABLE \<in> set (outs d')"
    using removal_of_several[of daemon_two "env_demo fresh" removal_demo 2 1] by auto
qed

lemma daemon_two_ok: "watched (ev daemon_two) = {0, 1, 3, 4}" "fds_ok (ev daemon_two)"
proof -
  show w: "watched (ev daemon_two) = {0, 1, 3, 4}" by (auto simp: daemon_two_def watched_def ev_idle_def)
  show "fds_ok (ev daemon_two)"
    unfolding fds_ok_def w by (auto simp: daemon_two_def ev_idle_def fd_at_def event_zero_def)
qed

lemma daemon_two_simps:
  "loc_fd daemon_two = 40" "dataFd (flow daemon_two i) = (if i = 2 then 32 else -1)" "commandFd (flow daemon_two i) = -1"
  "watch_table (ev daemon_two) 3 = 22" "watch_table (ev daemon_two) 4 = s_tun_event"
  "store (ev daemon_two) 22 = event_zero\<lparr>ev_fd := 32, ev_index := 3\<rparr>"
  "store (ev daemon_two) s_tun_event = event_zero\<lparr>ev_fd := 40, ev_index := 4\<rparr>"
  "e \<notin> {1, 2, 10, 12, 13, 22} \<Longrightarrow> store (ev daemon_two) e = event_zero"
  by (simp_all add: daemon_two_def netStatus_init_def ev_idle_def)

lemma daemon_two_channels: "channel_ok (ev daemon_two) s_tun_event (loc_fd daemon_two)" "\<forall>i<3. flow_channels daemon_two i"
proof -
  have idle: "idle_event (ev daemon_two) e" if "e \<notin> {1, 2, 10, 12, 13, 22}" for e
    using daemon_two_simps(8)[OF that] by (simp add: idle_event_def event_zero_def)
  show "channel_ok (ev daemon_two) s_tun_event (loc_fd daemon_two)"
    unfolding channel_ok_def watched_as_def daemon_two_ok(1) by (simp add: daemon_two_simps)
  have "flow_channels daemon_two 0" "flow_channels daemon_two 1"
    unfolding flow_channels_def channel_ok_def daemon_two_simps by (simp_all add: idle)
  moreover have "flow_channels daemon_two 2"
    unfolding flow_channels_def channel_ok_def watched_as_def daemon_two_ok(1) by (simp add: daemon_two_simps(1-7) idle)
  ultimately show "\<forall>i<3. flow_channels daemon_two i" by (simp add: all_less_Suc_3)
qed

theorem release_closes_all_witness:
  "\<forall>fresh. \<exists>d'. toReleaseMpResource (env_demo fresh) daemon_two = Inr d' \<and> closed (ev d') = [32, 40] \<and> g_readFds (ev d') = {5, 9} \<and>
     subflow_nu d' = 0"
proof
  fix fresh
  have f: "flow_fds daemon_two 2 @ flow_fds daemon_two 1 @ flow_fds daemon_two 0 @ open_fds [loc_fd daemon_two] = [32, 40]"
    by (simp add: flow_fds_def daemon_two_def netStatus_init_def)
  have "closed (ev daemon_two) = []" "g_readFds (ev daemon_two) = {5, 9, 32, 40}" by (simp_all add: daemon_two_def ev_idle_def)
  then show "\<exists>d'. toReleaseMpResource (env_demo fresh) daemon_two = Inr d' \<and> closed (ev d') = [32, 40] \<and> g_readFds (ev d') = {5, 9} \<and>
     subflow_nu d' = 0"
    using release_closes_all[OF daemon_two_ok(2) daemon_two_channels reachable_demo f[symmetric], of fresh] by auto
qed

theorem subflow_count_invariant_witness:
  "subflow_nu (dispatchStart 0 (main_start 5 8 6 daemon_demo)) = int (card (enabled (dispatchStart 0 (main_start 5 8 6 daemon_demo))))"
proof -
  have "reach daemon_started daemon_step (main_start 5 8 6 daemon_demo)" by (rule reach.start) (auto simp: daemon_started_def)
  then show ?thesis using subflow_count_invariant[OF _ daemon_step.dispatch_start] by blast
qed

theorem dispatch_enables_subflow_witness:
  "\<exists>s'. MPD_DoSubFlowStateInd env_ok 4 NETWORK_MP_ENABLE two_flows = Inr s' \<and> valid_flows s' = {0, 1, 2} \<and>
     outs (dispatchStart 2 daemon_demo) = [NotifyMpd 4 NETWORK_MP_ENABLE]"
proof -
  obtain dev where dev: "outs (dispatchStart 2 daemon_demo) = NotifyMpd dev NETWORK_MP_ENABLE # outs daemon_demo"
    "\<exists>s'. MPD_DoSubFlowStateInd env_ok dev NETWORK_MP_ENABLE two_flows = Inr s' \<and> valid_flows s' = insert 2 (valid_flows two_flows)"
    "MPD_GetDeviceId 2 = int (unat dev)"
    using dispatch_enables_subflow[of 2 daemon_demo env_ok two_flows] by auto
  have "uint dev = 4" using dev(3) by (simp add: MPD_GetDeviceId_def g_sfId2Dev_def)
  then have "dev = 4" using word_of_int_uint[of dev] by simp
  moreover have "insert 2 (valid_flows two_flows) = {0, 1, 2}" by (auto simp: two_flows_simps)
  ultimately show ?thesis using dev(1,2) by simp
qed

end
