(* ===== verification/RATD_Loop.thy ===== *)
theory RATD_Loop
  imports RATD_Subflows
begin

text \<open>
  The event loop of the daemon with the callbacks it calls (\<^verbatim>\<open>mcwill_event_loop\<close> and \<^verbatim>\<open>firePending\<close> over the host state): the
  walk over the pending events goes on while callbacks work on the same lists, and the timer of the daemon, which
  arms itself again from its own callback, keeps them whole.
\<close>

section \<open>Firing\<close>

definition unlink :: "nat \<Rightarrow> daemon \<Rightarrow> daemon" where
  "unlink e d = upd_ev_st (\<lambda>s. s\<lparr>store := removeFromList e (store s)\<rparr>) d"

text \<open>
  The next event is read before the callback is called; \<open>cb\<close> is the call of an event's function. A fault of a callback ends the
  walk.
\<close>

partial_function (option) fire_loop :: "(nat \<Rightarrow> daemon \<Rightarrow> daemon res) \<Rightarrow> nat \<Rightarrow> daemon \<Rightarrow> daemon res option" where
  "fire_loop cb e d =
     (if e = pending_list then Some (Inr d)
      else
        let nxt = ev_next (store (ev d) e); d = unlink e d
        in if ev_func (store (ev d) e) = 0 then fire_loop cb nxt d
           else (case cb e d of Inl f \<Rightarrow> Some (Inl f) | Inr d \<Rightarrow> fire_loop cb nxt d))"

definition firePending :: "(nat \<Rightarrow> daemon \<Rightarrow> daemon res) \<Rightarrow> daemon \<Rightarrow> daemon res option" where
  "firePending cb d = fire_loop cb (ev_next (store (ev d) pending_list)) d"

text \<open>The part of the loop after \<^verbatim>\<open>select\<close> has returned \<open>n\<close> ready descriptors \<open>rfds\<close>.\<close>

definition loop_round :: "(nat \<Rightarrow> daemon \<Rightarrow> daemon res) \<Rightarrow> timeval \<Rightarrow> int set \<Rightarrow> int \<Rightarrow> daemon \<Rightarrow> daemon res option" where
  "loop_round cb now rfds n d =
     Option.bind (processTimeouts now (ev d)) (\<lambda>r.
       case bindR r (processReadReadies rfds n) of
         Inl f \<Rightarrow> Some (Inl f)
       | Inr s \<Rightarrow> firePending cb (d\<lparr>ev := s\<rparr>))"

text \<open>
  The call of an event's function. Of the functions of the daemon the timer's is written out, with what the system answers
  while it runs, and the one that only empties the wake-up pipe; the others, which read descriptors, are \<open>io\<close>.
\<close>

definition event_callback :: "(nat \<Rightarrow> sys_env) \<Rightarrow> (nat \<Rightarrow> daemon \<Rightarrow> daemon res) \<Rightarrow> nat \<Rightarrow> daemon \<Rightarrow> daemon res" where
  "event_callback env io e d =
     (let x = store (ev d) e
      in if ev_func x = cb_ack then userTimerAckCallback (env e) (ev_param x) d
         else if ev_func x = cb_wakeup then Inr d
         else io e d)"

text \<open>One event: off the list, then its function, if it has one.\<close>

definition fire_one :: "(nat \<Rightarrow> daemon \<Rightarrow> daemon res) \<Rightarrow> nat \<Rightarrow> daemon \<Rightarrow> daemon res" where
  "fire_one cb e d = (let d = unlink e d in if ev_func (store (ev d) e) = 0 then Inr d else cb e d)"

section \<open>Callbacks that keep the lists\<close>

text \<open>
  What the loop asks of a callback: called for an event that has just been taken off the pending list, in a state where both lists
  are whole, it leaves the events behind it pending and every armed timer armed for its time; it may arm its own event.
\<close>

definition keeps_timers :: "nat \<Rightarrow> nat list \<Rightarrow> nat list \<Rightarrow> daemon \<Rightarrow> daemon \<Rightarrow> bool" where
  "keeps_timers e xs ps d d' \<longleftrightarrow> (\<exists>ys. lists_ok (store (ev d')) ys ps \<and> timeouts_sorted (store (ev d')) ys \<and>
     set xs \<subseteq> set ys \<and> set ys \<subseteq> insert e (set xs) \<and> (\<forall>a\<in>set xs. ev_timeout (store (ev d') a) = ev_timeout (store (ev d) a)))"

locale event_callbacks =
  fixes cb :: "nat \<Rightarrow> daemon \<Rightarrow> daemon res" and inv :: "daemon \<Rightarrow> nat list \<Rightarrow> bool"
  assumes inv_tail: "inv d (e # es) \<Longrightarrow> inv d es"
    and inv_unlink: "inv d es \<Longrightarrow> inv (unlink a d) es"
    and cb_keeps: "inv d (e # es) \<Longrightarrow> e \<notin> set es \<Longrightarrow> lists_ok (store (ev d)) xs es \<Longrightarrow> timeouts_sorted (store (ev d)) xs \<Longrightarrow>
        free_event e xs es \<Longrightarrow> ev_func (store (ev d) e) \<noteq> 0 \<Longrightarrow> cb e d = Inr d' \<Longrightarrow> inv d' es \<and> keeps_timers e xs es d d'"
begin

lemma unlink_first:
  assumes "lists_ok (store (ev d)) xs (e # es)" and "timeouts_sorted (store (ev d)) xs"
  shows "lists_ok (store (ev (unlink e d))) xs es" "timeouts_sorted (store (ev (unlink e d))) xs" "free_event e xs es" "e \<notin> set es"
    "ev_timeout (store (ev (unlink e d)) a) = ev_timeout (store (ev d) a)" "ev_next (store (ev d) e) = hd (es @ [pending_list])" "e \<noteq> pending_list"
proof -
  have l: "linked (store (ev d)) timer_list xs" "linked (store (ev d)) pending_list ([] @ e # es)"
    "set (timer_list # xs) \<inter> set (pending_list # e # es) = {}" using assms(1) by (simp_all add: lists_ok_def)
  let ?h = "removeFromList e (store (ev d))"
  have s: "store (ev (unlink e d)) = ?h" by (simp add: unlink_def upd_ev_st_def)
  have r: "linked ?h pending_list es" "same_data (store (ev d)) ?h" "links_kept (set (pending_list # e # es)) (store (ev d)) ?h"
    using removeFromList_ok[OF l(2)] by simp_all
  have "linked ?h timer_list xs" by (rule linked_other[OF l(1) r(3)]) (use l(3) in auto)
  then show "lists_ok (store (ev (unlink e d))) xs es" using r(1) l(3) unfolding s lists_ok_def by auto
  show t: "ev_timeout (store (ev (unlink e d)) a) = ev_timeout (store (ev d) a)" for a using r(2) by (simp add: s same_data_def)
  show "timeouts_sorted (store (ev (unlink e d))) xs" using assms(2) unfolding timeouts_sorted_def t .
  show "e \<notin> set es" "e \<noteq> pending_list" using l(2) by (auto simp: linked_def)
  then show "free_event e xs es" using l by (auto simp: free_event_def linked_def)
  show "ev_next (store (ev d) e) = hd (es @ [pending_list])" using linked_split[OF l(2)] by simp
qed

lemma fire_all:
  assumes "inv d es" and "lists_ok (store (ev d)) xs es" and "timeouts_sorted (store (ev d)) xs"
  shows "fire_loop cb (hd (es @ [pending_list])) d = Some (forR (fire_one cb) es d) \<and>
    (\<forall>d'. forR (fire_one cb) es d = Inr d' \<longrightarrow> (\<exists>ys. lists_ok (store (ev d')) ys [] \<and> timeouts_sorted (store (ev d')) ys \<and>
       set xs \<subseteq> set ys \<and> set ys \<subseteq> set xs \<union> set es \<and> (\<forall>a\<in>set xs. ev_timeout (store (ev d') a) = ev_timeout (store (ev d) a))))"
  using assms
proof (induction es arbitrary: d xs)
  case Nil
  then show ?case by (subst fire_loop.simps) auto
next
  case (Cons e es)
  note u = unlink_first[OF Cons.prems(2,3)]
  let ?u = "unlink e d"
  have iu: "inv ?u (e # es)" using inv_unlink Cons.prems(1) by blast
  have step: "inv d1 es \<and> keeps_timers e xs es d d1" if "fire_one cb e d = Inr d1" for d1
  proof (cases "ev_func (store (ev ?u) e) = 0")
    case True
    then show ?thesis using that inv_tail[OF iu] u(1,2,5) by (auto simp: fire_one_def keeps_timers_def)
  next
    case False
    then have "cb e ?u = Inr d1" using that by (simp add: fire_one_def)
    from cb_keeps[OF iu u(4,1,2,3) False this] show ?thesis by (simp add: keeps_timers_def u(5))
  qed
  have run: "fire_loop cb e d = (case fire_one cb e d of Inl f \<Rightarrow> Some (Inl f) | Inr d1 \<Rightarrow> fire_loop cb (hd (es @ [pending_list])) d1)"
    using u(6,7) by (subst fire_loop.simps) (simp add: fire_one_def Let_def)
  show ?case
  proof (cases "fire_one cb e d")
    case (Inl f)
    then show ?thesis using run by simp
  next
    case (Inr d1)
    obtain ys where ys: "lists_ok (store (ev d1)) ys es" "timeouts_sorted (store (ev d1)) ys" "set xs \<subseteq> set ys" "set ys \<subseteq> insert e (set xs)"
      "\<forall>a\<in>set xs. ev_timeout (store (ev d1) a) = ev_timeout (store (ev d) a)"
      using step[OF Inr] by (auto simp: keeps_timers_def)
    have i: "inv d1 es" using step[OF Inr] by simp
    note IH = Cons.IH[OF i ys(1,2)]
    have "\<exists>zs. lists_ok (store (ev d')) zs [] \<and> timeouts_sorted (store (ev d')) zs \<and> set xs \<subseteq> set zs \<and> set zs \<subseteq> set xs \<union> set (e # es) \<and>
        (\<forall>a\<in>set xs. ev_timeout (store (ev d') a) = ev_timeout (store (ev d) a))"
      if r: "forR (fire_one cb) es d1 = Inr d'" for d'
    proof -
      obtain zs where "lists_ok (store (ev d')) zs []" "timeouts_sorted (store (ev d')) zs" "set ys \<subseteq> set zs" "set zs \<subseteq> set ys \<union> set es"
        "\<forall>a\<in>set ys. ev_timeout (store (ev d') a) = ev_timeout (store (ev d1) a)"
        using IH r by blast
      then show ?thesis using ys(3-5) by (intro exI[of _ zs]) auto
    qed
    then show ?thesis using IH run Inr by simp
  qed
qed

end

section \<open>The timer of the daemon\<close>

text \<open>What the loop sees of the events.\<close>

definition event_view :: "daemon \<Rightarrow> nat \<Rightarrow> nat \<times> nat \<times> timeval \<times> nat \<times> nat" where
  "event_view d = (\<lambda>a. (ev_next (store (ev d) a), ev_prev (store (ev d) a), ev_timeout (store (ev d) a), ev_func (store (ev d) a),
     ev_param (store (ev d) a)))"

lemma event_viewD:
  assumes "event_view d' = event_view d"
  shows "lists_ok (store (ev d')) xs ps = lists_ok (store (ev d)) xs ps" "timeouts_sorted (store (ev d')) xs = timeouts_sorted (store (ev d)) xs"
    "ev_func (store (ev d') a) = ev_func (store (ev d) a)" "ev_param (store (ev d') a) = ev_param (store (ev d) a)"
    "ev_timeout (store (ev d') a) = ev_timeout (store (ev d) a)"
proof -
  have e: "ev_next (store (ev d') a) = ev_next (store (ev d) a)" "ev_prev (store (ev d') a) = ev_prev (store (ev d) a)"
    "ev_timeout (store (ev d') a) = ev_timeout (store (ev d) a)" "ev_func (store (ev d') a) = ev_func (store (ev d) a)"
    "ev_param (store (ev d') a) = ev_param (store (ev d) a)" for a
    using fun_cong[OF assms, of a] by (simp_all add: event_view_def)
  have "chain (store (ev d')) zs = chain (store (ev d)) zs" for zs by (rule chain_cong) (simp_all add: e)
  then show "lists_ok (store (ev d')) xs ps = lists_ok (store (ev d)) xs ps" by (simp add: lists_ok_def linked_def)
  show "timeouts_sorted (store (ev d')) xs = timeouts_sorted (store (ev d)) xs" by (simp add: timeouts_sorted_def e)
  show "ev_func (store (ev d') a) = ev_func (store (ev d) a)" "ev_param (store (ev d') a) = ev_param (store (ev d) a)"
    "ev_timeout (store (ev d') a) = ev_timeout (store (ev d) a)" by (rule e)+
qed

named_theorems views "operations that change no link, time or function of an event"

lemma view_fields [views]:
  "event_view (out x d) = event_view d" "event_view (upd_flow i f d) = event_view d" "event_view (d\<lparr>s_mpstatus := s\<rparr>) = event_view d"
  "event_view (d\<lparr>timeInt := t\<rparr>) = event_view d" "event_view (d\<lparr>p_ack_event := p\<rparr>) = event_view d"
  by (simp_all add: event_view_def out_def upd_flow_def)

lemma view_index: "event_view (d\<lparr>ev := (ev d)\<lparr>store := upd_ev e (\<lambda>x. x\<lparr>ev_index := i\<rparr>) (store (ev d))\<rparr>\<rparr>) = event_view d"
  by (auto simp: event_view_def upd_ev_def)

lemma view_add [views]: "event_view (upd_ev_st (mcwill_event_add e) d) = event_view d"
proof -
  have "event_view (d\<lparr>ev := event_add_loop k i e s\<rparr>) = event_view (d\<lparr>ev := s\<rparr>)" for k i s
  proof (induction k arbitrary: i)
    case (Suc k)
    then show ?case by (auto simp: Let_def) (simp_all add: event_view_def upd_ev_def fun_eq_iff)
  qed simp
  from this[of MAX_FD_EVENTS 0 "ev d"] show ?thesis by (simp add: upd_ev_st_def mcwill_event_add_def)
qed

lemma view_del [views]: "event_view (del_connected d) = event_view d"
  by (auto simp: del_connected_def mcwill_event_del_def removeWatch_def Let_def event_view_def upd_ev_def fun_eq_iff)

lemma view_send: "sendResponseRaw env m d = Inr d' \<Longrightarrow> event_view d' = event_view d"
  by (auto simp: sendResponseRaw_def bindR_Inr_iff views split: if_splits)

lemma view_exception: "echoAppException env c nt d = Inr d' \<Longrightarrow> event_view d' = event_view d"
  by (auto simp: echoAppException_def Let_def bindR_Inr_iff views dest!: view_send split: if_splits)

lemma view_forR:
  assumes "\<And>x d d'. f x d = Inr d' \<Longrightarrow> event_view d' = event_view d" and "forR f xs d = Inr d'"
  shows "event_view d' = event_view d"
  using assms(2) by (induction xs arbitrary: d) (auto simp: bindR_Inr_iff dest: assms(1))

lemma view_statistics: "echoAppAllSubStatistics env d = Inr d' \<Longrightarrow> event_view d' = event_view d"
  unfolding echoAppAllSubStatistics_def
  by (rule view_forR) (auto simp: echoStatistics_flow_def echoAppStreamStatistics_def Let_def bindR_Inr_iff views split: if_splits dest!: view_send)

lemma view_period:
  "forR (\<lambda>(code, nt). echoAppException env code nt) xs d = Inr d' \<Longrightarrow> event_view d' = event_view d"
  by (rule view_forR) (auto dest: view_exception)

text \<open>An event of the timer: its function is the timer's and gets the event itself, or it has none or the wake-up's.\<close>

definition timer_event :: "daemon \<Rightarrow> nat \<Rightarrow> bool" where
  "timer_event d e \<longleftrightarrow> (let x = store (ev d) e in ev_func x = 0 \<or> ev_func x = cb_wakeup \<or> (ev_func x = cb_ack \<and> ev_param x = e))"

lemma timer_event_cong:
  "ev_func (store (ev d') e) = ev_func (store (ev d) e) \<Longrightarrow> ev_param (store (ev d') e) = ev_param (store (ev d) e) \<Longrightarrow>
   timer_event d' e = timer_event d e"
  by (simp add: timer_event_def Let_def)

text \<open>The callback works on the application and the driver first, and then arms its event again or forgets it.\<close>

lemma ack_callback_cases:
  assumes "userTimerAckCallback env e d = Inr d'"
  obtains d1 where "event_view d1 = event_view d" "d' = d1\<lparr>p_ack_event := 0\<rparr>"
  | d1 where "event_view d1 = event_view d" "enableTimerTask env TIMER_DEFAULT_INTERVAR_FOR_SACK e cb_ack d1 = Inr d'"
proof -
  obtain d1 where d1: "event_view d1 = event_view d"
    "(if subflow_nu d1 > 0 \<and> s_mpstatus d1 = MP_ACTIVED \<and> e \<noteq> 0
      then (if p_ack_event d1 \<noteq> e then Inl AssertFail else enableTimerTask env TIMER_DEFAULT_INTERVAR_FOR_SACK (p_ack_event d1) cb_ack d1)
      else Inr (d1\<lparr>p_ack_event := 0\<rparr>)) = Inr d'"
    using assms
    by (auto simp: userTimerAckCallback_def Let_def bindR_Inr_iff views split: if_splits dest!: view_statistics view_period)
  then show thesis using that by (auto split: if_splits)
qed

lemma ack_callback_keeps:
  assumes "userTimerAckCallback env e d = Inr d'" and "lists_ok (store (ev d)) xs es" and "timeouts_sorted (store (ev d)) xs"
    and "free_event e xs es"
  shows "keeps_timers e xs es d d'"
    and "a \<noteq> e \<Longrightarrow> ev_func (store (ev d') a) = ev_func (store (ev d) a) \<and> ev_param (store (ev d') a) = ev_param (store (ev d) a)"
proof -
  have "keeps_timers e xs es d d' \<and> (\<forall>a. a \<noteq> e \<longrightarrow> ev_func (store (ev d') a) = ev_func (store (ev d) a) \<and>
      ev_param (store (ev d') a) = ev_param (store (ev d) a))"
    using assms(1)
  proof (cases rule: ack_callback_cases)
    case (1 d1)
    then have "event_view d' = event_view d" by (simp add: views)
    then show ?thesis using assms(2,3) event_viewD[of d' d] by (auto simp: keeps_timers_def)
  next
    case (2 d1)
    note v = event_viewD[OF 2(1)]
    obtain h ys where h: "d' = d1\<lparr>ev := (ev d1)\<lparr>store := h\<rparr>\<rparr>" "lists_ok h ys es" "timeouts_sorted h ys"
      "ys = insort_key (\<lambda>a. ev_timeout (h a)) e xs"
      "same_data ((store (ev d1))(e := event_zero\<lparr>ev_fd := -1, ev_index := -1,
         ev_timeout := timeradd (now_tv env) (Timeval 0 TIMER_DEFAULT_INTERVAR_FOR_SACK), ev_func := cb_ack, ev_param := e\<rparr>)) h"
      using enableTimerTask_lists[of d1 xs es e env TIMER_DEFAULT_INTERVAR_FOR_SACK cb_ack] 2(2) assms(2-4) v(1,2) by auto
    have k: "ev_func (h a) = ev_func (store (ev d) a)" "ev_param (h a) = ev_param (store (ev d) a)" "ev_timeout (h a) = ev_timeout (store (ev d) a)"
      if "a \<noteq> e" for a using h(5) v(3-5) that by (simp_all add: same_data_def)
    have "e \<notin> set xs" using assms(4) by (simp add: free_event_def)
    then have "\<forall>a\<in>set xs. ev_timeout (h a) = ev_timeout (store (ev d) a)" using k(3) by metis
    then show ?thesis using h(1-4) k(1,2) unfolding keeps_timers_def by (intro conjI exI[of _ ys]) (auto simp: set_insort_key)
  qed
  then show "keeps_timers e xs es d d'"
    and "a \<noteq> e \<Longrightarrow> ev_func (store (ev d') a) = ev_func (store (ev d) a) \<and> ev_param (store (ev d') a) = ev_param (store (ev d) a)"
    by simp_all
qed

interpretation timer_callbacks: event_callbacks "event_callback env io" "\<lambda>d es. \<forall>e\<in>set es. timer_event d e" for env io
proof (unfold_locales, goal_cases)
  case (2 d es a)
  have "same_data (store (ev d)) (store (ev (unlink a d)))"
    by (auto simp: unlink_def upd_ev_st_def removeFromList_def upd_ev_def same_data_def Let_def)
  then show ?case using 2 timer_event_cong[of "unlink a d" _ d] by (auto simp: same_data_def)
next
  case (3 d e es xs d')
  have e: "timer_event d e" using 3(1) by simp
  show ?case
  proof (cases "ev_func (store (ev d) e) = cb_ack")
    case True
    then have run: "userTimerAckCallback (env e) e d = Inr d'" using 3(7) e by (simp add: event_callback_def timer_event_def)
    note k = ack_callback_keeps[OF run 3(3-5)]
    have "timer_event d' a" if "a \<in> set es" for a
    proof -
      have "a \<noteq> e" using that 3(2) by auto
      then show ?thesis using k(2)[of a] timer_event_cong[of d' a d] 3(1) that by simp
    qed
    then show ?thesis using k(1) by simp
  next
    case False
    then have "d' = d" using 3(6,7) e by (auto simp: event_callback_def timer_event_def Let_def)
    then show ?thesis using 3(1,3,4) by (auto simp: keeps_timers_def)
  qed
qed simp

section \<open>A round of the loop\<close>

text \<open>
  C21: when the loop wakes up with no descriptor ready, the functions of the events that were already pending and then
  of exactly the timers whose time has passed are called, those in the order of their times, each once, one after the
  other until one faults: the walk over the pending list comes to the same as this sequence of calls, although the timer
  function of the daemon arms its own event again while the walk is under way. Afterwards nothing is pending, and the other
  timers are still armed, for the times they had, in the order of the times; besides them only timers that were called are armed.
\<close>

theorem timers_fire_in_order:
  assumes "lists_ok (store (ev d)) xs ps" and "timeouts_sorted (store (ev d)) xs"
    and "due = ps @ filter (\<lambda>e. ev_timeout (store (ev d) e) < now) xs" and "later = filter (\<lambda>e. \<not> ev_timeout (store (ev d) e) < now) xs"
    and "\<forall>e\<in>set due. timer_event d e"
  shows "\<exists>st. processTimeouts now (ev d) = Some (Inr st) \<and> lists_ok (store st) later due \<and>
    loop_round (event_callback env io) now rfds 0 d = Some (forR (fire_one (event_callback env io)) due (d\<lparr>ev := st\<rparr>)) \<and>
    (\<forall>d'. forR (fire_one (event_callback env io)) due (d\<lparr>ev := st\<rparr>) = Inr d' \<longrightarrow>
      (\<exists>ys. lists_ok (store (ev d')) ys [] \<and> timeouts_sorted (store (ev d')) ys \<and> set later \<subseteq> set ys \<and> set ys \<subseteq> set later \<union> set due \<and>
        (\<forall>a\<in>set later. ev_timeout (store (ev d') a) = ev_timeout (store (ev d) a))))"
proof -
  obtain h where h: "processTimeouts now (ev d) = Some (Inr ((ev d)\<lparr>store := h\<rparr>))" "same_data (store (ev d)) h" "lists_ok h later due"
    using processTimeouts_ok[OF assms(1,2), of now] assms(3,4) by blast
  let ?st = "(ev d)\<lparr>store := h\<rparr>" and ?d = "d\<lparr>ev := (ev d)\<lparr>store := h\<rparr>\<rparr>"
  have t: "ev_timeout (h a) = ev_timeout (store (ev d) a)" for a using h(2) by (simp add: same_data_def)
  have "timeouts_sorted h later"
    using assms(2) unfolding assms(4) timeouts_sorted_def t by (rule sorted_filter)
  moreover have "\<forall>e\<in>set due. timer_event ?d e"
    using assms(5) h(2) timer_event_cong[of ?d _ d] by (simp add: same_data_def)
  ultimately have fire: "fire_loop (event_callback env io) (hd (due @ [pending_list])) ?d = Some (forR (fire_one (event_callback env io)) due ?d)"
    "\<forall>d'. forR (fire_one (event_callback env io)) due ?d = Inr d' \<longrightarrow> (\<exists>ys. lists_ok (store (ev d')) ys [] \<and> timeouts_sorted (store (ev d')) ys \<and>
       set later \<subseteq> set ys \<and> set ys \<subseteq> set later \<union> set due \<and> (\<forall>a\<in>set later. ev_timeout (store (ev d') a) = ev_timeout (store (ev ?d) a)))"
    using timer_callbacks.fire_all[of due ?d later env io] h(3) by simp_all
  have l: "linked h pending_list due" using h(3) by (simp add: lists_ok_def)
  have "processReadReadies rfds 0 ?st = Inr ?st" unfolding processReadReadies_def by (simp add: eval_nat_numeral)
  then have "loop_round (event_callback env io) now rfds 0 d = Some (forR (fire_one (event_callback env io)) due ?d)"
    using h(1) fire(1) linkedD(1)[OF l] by (simp add: loop_round_def firePending_def)
  then show ?thesis using h(1,3) fire(2) t by (intro exI[of _ ?st]) simp
qed

text \<open>A daemon with one subflow whose timer was armed for second 5.\<close>

definition ev_armed :: ev_st where
  "ev_armed = \<lparr>store = (\<lambda>_. event_zero)
      (timer_list := event_zero\<lparr>ev_next := ack_event, ev_prev := ack_event, ev_fd := -1\<rparr>,
       ack_event := event_zero\<lparr>ev_next := timer_list, ev_prev := timer_list, ev_fd := -1, ev_timeout := Timeval 5 0,
         ev_func := cb_ack, ev_param := ack_event\<rparr>,
       pending_list := event_zero\<lparr>ev_next := pending_list, ev_prev := pending_list, ev_fd := -1\<rparr>),
     watch_table = (\<lambda>_. 0), g_readFds = {}, g_nfds = 0, closed = []\<rparr>"

definition loop_demo :: daemon where
  "loop_demo = daemon_demo\<lparr>ev := ev_armed, s_mpstatus := MP_ACTIVED, subflow_nu := 1, p_ack_event := ack_event, timeInt := 0\<rparr>"

lemma loop_demo_simps:
  "ev loop_demo = ev_armed" "s_mpstatus loop_demo = MP_ACTIVED" "subflow_nu loop_demo = 1" "p_ack_event loop_demo = ack_event"
  "mpd_ready loop_demo" "timeInt loop_demo = 0" "outs loop_demo = []"
  by (simp_all add: loop_demo_def)

lemma ev_armed_ok: "lists_ok (store ev_armed) [ack_event] []" "timeouts_sorted (store ev_armed) [ack_event]"
  "ev_timeout (store ev_armed ack_event) = Timeval 5 0" "ev_func (store ev_armed ack_event) = cb_ack" "ev_param (store ev_armed ack_event) = ack_event"
  by (simp_all add: lists_ok_def linked_def ev_armed_def timeouts_sorted_def)

text \<open>The timer's own callback: it lets the driver work and arms its event again.\<close>

lemma ack_rearms:
  assumes "lists_ok (store (ev d)) [] []" and "mpd_ready d" "s_mpstatus d = MP_ACTIVED" "subflow_nu d > 0" "p_ack_event d = ack_event"
    and "timeInt d \<noteq> 200" and "period_exceptions env = []"
  shows "\<exists>d'. userTimerAckCallback env ack_event d = Inr d' \<and> outs d' = MpdPeriod # outs d \<and> lists_ok (store (ev d')) [ack_event] [] \<and>
     ev_timeout (store (ev d') ack_event) = timeradd (now_tv env) (Timeval 0 TIMER_DEFAULT_INTERVAR_FOR_SACK)"
proof -
  let ?d = "out MpdPeriod (d\<lparr>timeInt := timeInt d + 1\<rparr>)"
  have "lists_ok (store (ev ?d)) [] []" "free_event ack_event [] []" "timeouts_sorted (store (ev ?d)) []"
    using assms(1) by (simp_all add: out_def free_event_def timeouts_sorted_def)
  from enableTimerTask_lists[OF this, of env TIMER_DEFAULT_INTERVAR_FOR_SACK cb_ack]
  obtain h where h: "enableTimerTask env TIMER_DEFAULT_INTERVAR_FOR_SACK ack_event cb_ack ?d = Inr (?d\<lparr>ev := (ev ?d)\<lparr>store := h\<rparr>\<rparr>)"
    "lists_ok h [ack_event] []" "ev_timeout (h ack_event) = timeradd (now_tv env) (Timeval 0 TIMER_DEFAULT_INTERVAR_FOR_SACK)"
    by (auto simp: same_data_def)
  moreover have "userTimerAckCallback env ack_event d = enableTimerTask env TIMER_DEFAULT_INTERVAR_FOR_SACK ack_event cb_ack ?d"
    using assms(2-7) by (simp add: userTimerAckCallback_def Let_def out_def)
  ultimately show ?thesis by (simp add: out_def)
qed

theorem timers_fire_in_order_witness:
  "\<forall>fresh io. \<exists>d'. loop_round (event_callback (\<lambda>_. env_demo fresh) io) (Timeval 100 0) {} 0 loop_demo = Some (Inr d') \<and>
     outs d' = [MpdPeriod] \<and> lists_ok (store (ev d')) [ack_event] [] \<and> ev_timeout (store (ev d') ack_event) = Timeval 100 10000"
proof (intro allI)
  fix fresh io
  let ?env = "env_demo fresh"
  have due: "filter (\<lambda>e. ev_timeout (store (ev loop_demo) e) < Timeval 100 0) [ack_event] = [ack_event]"
    "filter (\<lambda>e. \<not> ev_timeout (store (ev loop_demo) e) < Timeval 100 0) [ack_event] = []"
    by (simp_all add: loop_demo_simps ev_armed_ok less_timeval_def)
  have t: "\<forall>e\<in>set ([] @ [ack_event]). timer_event loop_demo e" by (simp add: timer_event_def loop_demo_simps ev_armed_ok)
  have l: "lists_ok (store (ev loop_demo)) [ack_event] []" "timeouts_sorted (store (ev loop_demo)) [ack_event]"
    using ev_armed_ok by (simp_all add: loop_demo_simps)
  obtain st where st: "processTimeouts (Timeval 100 0) (ev loop_demo) = Some (Inr st)" "lists_ok (store st) [] [ack_event]"
    "loop_round (event_callback (\<lambda>_. ?env) io) (Timeval 100 0) {} 0 loop_demo = Some (forR (fire_one (event_callback (\<lambda>_. ?env) io)) [ack_event] (loop_demo\<lparr>ev := st\<rparr>))"
    using timers_fire_in_order[OF l _ _ t, of "Timeval 100 0" "[]" "\<lambda>_. ?env" io "{}"] unfolding due by auto
  let ?d = "loop_demo\<lparr>ev := st\<rparr>" and ?u = "unlink ack_event (loop_demo\<lparr>ev := st\<rparr>)"
  have "same_data (store (ev loop_demo)) (store st)"
    using processTimeouts_ok[OF l, of "Timeval 100 0"] st(1) by auto
  then have f: "ev_func (store (ev ?u) ack_event) = cb_ack" "ev_param (store (ev ?u) ack_event) = ack_event"
    using ev_armed_ok(4,5) by (auto simp: unlink_def upd_ev_st_def removeFromList_def upd_ev_def same_data_def Let_def loop_demo_simps)
  have "lists_ok (store (ev ?u)) [] []"
    using timer_callbacks.unlink_first(1)[of ?d "[]" ack_event "[]"] st(2) by (simp add: timeouts_sorted_def)
  then have "\<exists>d'. userTimerAckCallback ?env ack_event ?u = Inr d' \<and> outs d' = MpdPeriod # outs ?u \<and> lists_ok (store (ev d')) [ack_event] [] \<and>
     ev_timeout (store (ev d') ack_event) = timeradd (now_tv ?env) (Timeval 0 TIMER_DEFAULT_INTERVAR_FOR_SACK)"
    by (rule ack_rearms) (simp_all add: unlink_def upd_ev_st_def loop_demo_simps env_demo_def)
  then obtain d' where d': "userTimerAckCallback ?env ack_event ?u = Inr d'" "outs d' = [MpdPeriod]" "lists_ok (store (ev d')) [ack_event] []"
    "ev_timeout (store (ev d') ack_event) = Timeval 100 10000"
    by (auto simp: unlink_def upd_ev_st_def loop_demo_simps env_demo_def timeradd_def)
  then show "\<exists>d'. loop_round (event_callback (\<lambda>_. ?env) io) (Timeval 100 0) {} 0 loop_demo = Some (Inr d') \<and>
     outs d' = [MpdPeriod] \<and> lists_ok (store (ev d')) [ack_event] [] \<and> ev_timeout (store (ev d') ack_event) = Timeval 100 10000"
    using st(3) f by (intro exI[of _ d']) (simp add: fire_one_def event_callback_def Let_def)
qed

end
