(* ===== verification/RIL_Tok.thy ===== *)
theory RIL_Tok
  imports C_Strings
begin

text \<open>
  The tokenizer of AT response lines of the reference RIL (\<^verbatim>\<open>at_tok.c\<close>). A cursor \<^verbatim>\<open>char **p_cur\<close> is
  the rest of the line, \<open>None\<close> for \<^verbatim>\<open>NULL\<close>; the terminators that \<^verbatim>\<open>strsep\<close> writes into the line only
  end the token that is returned, since no cursor goes back. Every operation returns the C result
  with the new cursor and the new value of the output variable.
\<close>

named_theorems tok_simps

section \<open>Cursors\<close>

type_synonym cursor = "string option"

definition at_tok_start :: "cursor \<Rightarrow> int \<times> cursor" where
  "at_tok_start p_cur =
     (case p_cur of None \<Rightarrow> (- 1, None)
      | Some s \<Rightarrow> (case after_char (CHR '':'') s of None \<Rightarrow> (- 1, None) | Some t \<Rightarrow> (0, Some t)))"

definition skipWhiteSpace :: "cursor \<Rightarrow> cursor" where
  "skipWhiteSpace p_cur = map_option (dropWhile isspace) p_cur"

definition skipNextComma :: "cursor \<Rightarrow> cursor" where
  "skipNextComma p_cur =
     map_option (\<lambda>s. case dropWhile (\<lambda>c. c \<noteq> CHR '','') s of [] \<Rightarrow> [] | _ # t \<Rightarrow> t) p_cur"

text \<open>\<^verbatim>\<open>strsep\<close> of the C library with one separator.\<close>

definition strsep :: "char \<Rightarrow> string \<Rightarrow> string \<times> cursor" where
  "strsep c s = (takeWhile (\<lambda>x. x \<noteq> c) s, after_char c s)"

definition nextTok :: "cursor \<Rightarrow> cursor \<times> cursor" where
  "nextTok p_cur =
     (case skipWhiteSpace p_cur of
        None \<Rightarrow> (None, None)
      | Some s \<Rightarrow>
          if s \<noteq> [] \<and> hd s = CHR 0x22
          then (case strsep (CHR 0x22) (tl s) of (t, cur) \<Rightarrow> (Some t, skipNextComma cur))
          else (case strsep (CHR '','') s of (t, cur) \<Rightarrow> (Some t, cur)))"

section \<open>Values\<close>

text \<open>The conversion of a \<^verbatim>\<open>long\<close> to \<^verbatim>\<open>int\<close>: the low 32 bits.\<close>

definition to_int :: "int \<Rightarrow> int" where
  "to_int v = signed_take_bit 31 v"

text \<open>
  The value of \<^verbatim>\<open>strtoul\<close> for a 64-bit \<^verbatim>\<open>unsigned long\<close>: a minus sign negates within the type, and a
  number that does not fit is the greatest one.
\<close>

definition strtoul_value :: "int \<Rightarrow> int" where
  "strtoul_value v = (if \<bar>v\<bar> \<ge> 2 ^ 64 then 2 ^ 64 - 1 else v mod 2 ^ 64)"

text \<open>The output is written, with 0, when there is no number too.\<close>

definition at_tok_nextint_base :: "nat \<Rightarrow> bool \<Rightarrow> cursor \<Rightarrow> int \<Rightarrow> int \<times> cursor \<times> int" where
  "at_tok_nextint_base base uns p_cur p_out =
     (case p_cur of None \<Rightarrow> (- 1, None, p_out)
      | Some s \<Rightarrow>
          (case nextTok p_cur of
             (None, cur) \<Rightarrow> (- 1, cur, p_out)
           | (Some ret, cur) \<Rightarrow>
               (case strtol base ret of
                  None \<Rightarrow> (- 1, cur, 0)
                | Some (l, _) \<Rightarrow> (0, cur, to_int (if uns then strtoul_value l else clamp 64 l)))))"

definition at_tok_nextint :: "cursor \<Rightarrow> int \<Rightarrow> int \<times> cursor \<times> int" where
  "at_tok_nextint p_cur p_out = at_tok_nextint_base 10 False p_cur p_out"

definition at_tok_nexthexint :: "cursor \<Rightarrow> int \<Rightarrow> int \<times> cursor \<times> int" where
  "at_tok_nexthexint p_cur p_out = at_tok_nextint_base 16 True p_cur p_out"

text \<open>
  The local \<^verbatim>\<open>result\<close> is only looked at when \<^verbatim>\<open>at_tok_nextint\<close> has succeeded. The output is written for
  0 and 1 only; the caller passes a variable.
\<close>

definition at_tok_nextbool :: "cursor \<Rightarrow> int \<Rightarrow> int \<times> cursor \<times> int" where
  "at_tok_nextbool p_cur p_out =
     (case at_tok_nextint p_cur 0 of (ret, cur, result) \<Rightarrow>
        if ret < 0 then (- 1, cur, p_out)
        else if \<not> (result = 0 \<or> result = 1) then (- 1, cur, p_out)
        else (ret, cur, result))"

definition at_tok_nextstr :: "cursor \<Rightarrow> cursor \<Rightarrow> int \<times> cursor \<times> cursor" where
  "at_tok_nextstr p_cur p_out =
     (case p_cur of None \<Rightarrow> (- 1, None, p_out)
      | Some s \<Rightarrow> (case nextTok p_cur of (t, cur) \<Rightarrow> (0, cur, t)))"

definition at_tok_hasmore :: "cursor \<Rightarrow> int" where
  "at_tok_hasmore p_cur = (if p_cur = None \<or> p_cur = Some [] then 0 else 1)"

text \<open>\<^verbatim>\<open>misc.c\<close>\<close>

fun strStartsWith :: "string \<Rightarrow> string \<Rightarrow> bool" where
  "strStartsWith line [] = True"
| "strStartsWith [] (p # ps) = False"
| "strStartsWith (c # line) (p # ps) = (if c \<noteq> p then False else strStartsWith line ps)"

lemma strStartsWith_prefix [tok_simps]: "strStartsWith line p \<longleftrightarrow> prefix p line"
  by (induction line p rule: strStartsWith.induct) auto

section \<open>Tokens of a printed line\<close>

text \<open>
  The arguments of a response: numbers, and strings in quotes, each behind some spaces. This is the
  form of the responses of 27.007, e.g. \<^verbatim>\<open>+CLCC: 1,0,2,0,0,"5551234",129\<close>.
\<close>

datatype at_arg = IntArg int | StrArg string

fun show_arg :: "at_arg \<Rightarrow> string" where
  "show_arg (IntArg i) = show_int i"
| "show_arg (StrArg s) = CHR 0x22 # s @ [CHR 0x22]"

definition show_spaced :: "nat \<times> at_arg \<Rightarrow> string" where
  "show_spaced a = replicate (fst a) (CHR '' '') @ show_arg (snd a)"

fun show_args :: "(nat \<times> at_arg) list \<Rightarrow> string" where
  "show_args [] = []"
| "show_args [a] = show_spaced a"
| "show_args (a # as) = show_spaced a @ CHR '','' # show_args as"

fun arg_ok :: "at_arg \<Rightarrow> bool" where
  "arg_ok (IntArg i) \<longleftrightarrow> - (2 ^ 31) \<le> i \<and> i < 2 ^ 31"
| "arg_ok (StrArg s) \<longleftrightarrow> CHR 0x22 \<notin> set s"

text \<open>A parser of the callers: one operation for each argument it expects.\<close>

definition read_arg :: "at_arg \<Rightarrow> cursor \<Rightarrow> (at_arg \<times> cursor) option" where
  "read_arg kind cur =
     (case kind of
        IntArg _ \<Rightarrow> (case at_tok_nextint cur 0 of (err, cur, i) \<Rightarrow> if err < 0 then None else Some (IntArg i, cur))
      | StrArg _ \<Rightarrow> (case at_tok_nextstr cur None of (err, cur, t) \<Rightarrow>
                       if err < 0 then None else map_option (\<lambda>s. (StrArg s, cur)) t))"

fun read_args :: "at_arg list \<Rightarrow> cursor \<Rightarrow> (at_arg list \<times> cursor) option" where
  "read_args [] cur = Some ([], cur)"
| "read_args (k # ks) cur =
     (case read_arg k cur of None \<Rightarrow> None
      | Some (a, cur) \<Rightarrow> map_option (\<lambda>(as, cur). (a # as, cur)) (read_args ks cur))"

subsection \<open>One token\<close>

lemma after_char_append [tok_simps]: "c \<notin> set s \<Longrightarrow> after_char c (s @ c # t) = Some t"
  by (induction s) auto

lemma after_char_none [tok_simps]: "c \<notin> set s \<Longrightarrow> after_char c s = None"
  by (induction s) auto

lemma takeWhile_upto [tok_simps]: "c \<notin> set s \<Longrightarrow> takeWhile (\<lambda>x. x \<noteq> c) (s @ c # t) = s"
  by (induction s) auto

lemma takeWhile_whole [tok_simps]: "c \<notin> set s \<Longrightarrow> takeWhile (\<lambda>x. x \<noteq> c) s = s"
  by (induction s) auto

lemma space_is_space [tok_simps]: "isspace (CHR '' '')" "\<not> isspace (CHR 0x22)" "\<not> isspace (CHR '','')"
  by (simp_all add: isspace_def)

lemma skip_spaces [tok_simps]: "dropWhile isspace (replicate n (CHR '' '') @ t) = dropWhile isspace t"
  by (induction n) (simp_all add: tok_simps)

lemma to_int_id [tok_simps]: "- (2 ^ 31) \<le> i \<Longrightarrow> i < 2 ^ 31 \<Longrightarrow> to_int (clamp 64 i) = i"
proof -
  assume i: "- (2 ^ 31) \<le> i" "i < 2 ^ 31"
  then have "clamp 64 i = i" by (simp add: clamp_def)
  then show ?thesis using i by (simp add: to_int_def signed_take_bit_int_eq_self)
qed

text \<open>What follows an argument: nothing, or a comma and more.\<close>

definition tail_of :: "cursor \<Rightarrow> string" where
  "tail_of rest = (case rest of None \<Rightarrow> [] | Some t \<Rightarrow> CHR '','' # t)"

lemma show_int_plain: "c \<in> set (show_int i) \<Longrightarrow> c \<noteq> CHR '','' \<and> c \<noteq> CHR 0x22"
proof -
  assume "c \<in> set (show_int i)"
  then consider d where "d < 10" "c = digit_char d" | "c = CHR ''-''"
    using show_nat_digits by (auto simp: show_int_def split: if_splits)
  then show ?thesis
  proof cases
    case 1
    then have "code c = 48 + d" by (simp add: digit_char_def)
    moreover have "code (CHR '','') = (44::nat)" "code (CHR 0x22) = (34::nat)" by simp_all
    ultimately show ?thesis by auto
  qed simp
qed

lemma show_int_starts: "\<exists>c cs. show_int i = c # cs \<and> \<not> isspace c \<and> c \<noteq> CHR 0x22"
proof (cases "i < 0")
  case True
  then show ?thesis by (simp add: show_int_def isspace_def)
next
  case False
  obtain d cs where "d < 10" "show_nat (nat i) = digit_char d # cs" using show_nat_Cons by blast
  then show ?thesis using False digit_char_class[of d] show_int_plain[of "digit_char d" i] by (simp add: show_int_def)
qed

lemma nextTok_int:
  "nextTok (Some (replicate n (CHR '' '') @ show_int i @ tail_of rest)) = (Some (show_int i), rest)"
proof -
  obtain c cs where c: "show_int i = c # cs" "\<not> isspace c" "c \<noteq> CHR 0x22" using show_int_starts by blast
  have sk: "dropWhile isspace (replicate n (CHR '' '') @ show_int i @ tail_of rest) = show_int i @ tail_of rest"
    using c by (simp add: tok_simps)
  have hd: "hd (show_int i @ tail_of rest) \<noteq> CHR 0x22" using c by simp
  have "CHR '','' \<notin> set (show_int i)" using show_int_plain by blast
  then have "strsep (CHR '','') (show_int i @ tail_of rest) = (show_int i, rest)"
    by (cases rest) (simp_all add: strsep_def tail_of_def after_char_append after_char_none takeWhile_upto takeWhile_whole
        del: takeWhile_eq_all_conv)
  then show ?thesis using hd by (simp add: nextTok_def skipWhiteSpace_def sk)
qed

lemma nextTok_str:
  assumes "CHR 0x22 \<notin> set s"
  shows "nextTok (Some (replicate n (CHR '' '') @ show_arg (StrArg s) @ tail_of rest)) =
    (Some s, Some (case rest of None \<Rightarrow> [] | Some t \<Rightarrow> t))"
proof -
  have "strsep (CHR 0x22) (s @ CHR 0x22 # tail_of rest) = (s, Some (tail_of rest))"
    using assms by (simp add: strsep_def tok_simps)
  moreover have "skipNextComma (Some (tail_of rest)) = Some (case rest of None \<Rightarrow> [] | Some t \<Rightarrow> t)"
    by (cases rest) (simp_all add: skipNextComma_def tail_of_def)
  ultimately show ?thesis by (simp add: nextTok_def skipWhiteSpace_def tok_simps)
qed

text \<open>The cursor behind an argument: a number at the end leaves \<^verbatim>\<open>NULL\<close>, a string the empty rest.\<close>

definition cursor_after :: "at_arg \<Rightarrow> cursor \<Rightarrow> cursor" where
  "cursor_after a rest =
     (case a of IntArg _ \<Rightarrow> rest | StrArg _ \<Rightarrow> Some (case rest of None \<Rightarrow> [] | Some t \<Rightarrow> t))"

lemma read_arg_shown:
  assumes "arg_ok a"
  shows "read_arg a (Some (replicate n (CHR '' '') @ show_arg a @ tail_of rest)) = Some (a, cursor_after a rest)"
proof (cases a)
  case (IntArg i)
  have "strtol 10 (show_int i) = Some (i, [])" using strtol_show_int[of "[]" i] by (simp add: starts_digit_def)
  then show ?thesis
    using assms IntArg
    by (simp add: read_arg_def at_tok_nextint_def at_tok_nextint_base_def nextTok_int cursor_after_def to_int_id)
next
  case (StrArg s)
  then show ?thesis
    using assms nextTok_str[of s n rest] by (simp add: read_arg_def at_tok_nextstr_def cursor_after_def)
qed

subsection \<open>All the tokens\<close>

lemma show_args_Cons:
  "show_args (a # as) = show_spaced a @ tail_of (if as = [] then None else Some (show_args as))"
  by (cases as) (simp_all add: tail_of_def)

lemma read_args_shown:
  "as \<noteq> [] \<Longrightarrow> \<forall>a\<in>set as. arg_ok (snd a) \<Longrightarrow>
   \<exists>cur. read_args (map snd as) (Some (show_args as)) = Some (map snd as, cur) \<and> at_tok_hasmore cur = 0"
proof (induction as)
  case (Cons a as)
  let ?rest = "if as = [] then None else Some (show_args as)"
  have one: "read_arg (snd a) (Some (show_args (a # as))) = Some (snd a, cursor_after (snd a) ?rest)"
    using read_arg_shown[of "snd a" "fst a" ?rest] Cons.prems(2)
    by (simp only: show_args_Cons show_spaced_def append_assoc list.set_intros)
  show ?case
  proof (cases "as = []")
    case True
    then show ?thesis
      using one by (cases "snd a") (simp_all add: cursor_after_def at_tok_hasmore_def)
  next
    case False
    then have "cursor_after (snd a) ?rest = Some (show_args as)" by (cases "snd a") (simp_all add: cursor_after_def)
    moreover obtain cur where "read_args (map snd as) (Some (show_args as)) = Some (map snd as, cur)" "at_tok_hasmore cur = 0"
      using Cons.IH False Cons.prems(2) by auto
    ultimately show ?thesis using one by simp
  qed
qed simp

lemma start_prefix: "CHR '':'' \<notin> set pre \<Longrightarrow> at_tok_start (Some (pre @ CHR '':'' # s)) = (0, Some s)"
  by (simp add: at_tok_start_def tok_simps)

text \<open>
  The arguments of a response line are read back by the tokenizer as they were printed, numbers and
  quoted strings, with any spaces before them and commas inside the strings, and after the last
  of them the line has no more.
\<close>

theorem tokens_roundtrip:
  assumes "CHR '':'' \<notin> set pre" and "as \<noteq> []" and "\<forall>a\<in>set as. arg_ok (snd a)"
  shows "\<exists>cur cur'. at_tok_start (Some (pre @ CHR '':'' # show_args as)) = (0, cur) \<and>
    read_args (map snd as) cur = Some (map snd as, cur') \<and> at_tok_hasmore cur' = 0"
  using read_args_shown[OF assms(2,3)] start_prefix[OF assms(1)] by auto

theorem tokens_roundtrip_witness:
  "\<exists>cur cur'. at_tok_start (Some (''+CLCC'' @ CHR '':'' # show_args [(1, IntArg 1), (0, StrArg ''55,5''), (2, IntArg (- 129))])) = (0, cur) \<and>
    read_args [IntArg 1, StrArg ''55,5'', IntArg (- 129)] cur = Some ([IntArg 1, StrArg ''55,5'', IntArg (- 129)], cur') \<and>
    at_tok_hasmore cur' = 0"
  using tokens_roundtrip[of "''+CLCC''" "[(1, IntArg 1), (0, StrArg ''55,5''), (2, IntArg (- 129))]"] by simp

end
