(* ===== verification/RIL_Reader.thy ===== *)
theory RIL_Reader
  imports RIL_Tok
begin

text \<open>
  The reading side of the AT channel (\<^verbatim>\<open>atchannel.c\<close>): the line buffer \<^verbatim>\<open>s_ATBuffer\<close> with its cursor, and
  \<^verbatim>\<open>readline\<close>, which cuts the bytes of the modem into lines. The buffer is the array of
  \<^verbatim>\<open>MAX_AT_RESPONSE + 1\<close> characters and pointers into it are offsets; a scan that leaves the array is a
  fault.
\<close>

named_theorems line_simps

section \<open>The buffer\<close>

abbreviation MAX_AT_RESPONSE :: nat where "MAX_AT_RESPONSE \<equiv> 8192"

abbreviation NUL :: char where "NUL \<equiv> CHR 0x00"

definition is_newline :: "char \<Rightarrow> bool" where
  "is_newline c \<longleftrightarrow> c = CHR 0x0D \<or> c = CHR 0x0A"

record at_reader =
  s_ATBuffer :: string
  s_ATBufferCur :: nat

definition reader_start :: at_reader where
  "reader_start = \<lparr>s_ATBuffer = replicate (MAX_AT_RESPONSE + 1) NUL, s_ATBufferCur = 0\<rparr>"

text \<open>
  What the calls of \<^verbatim>\<open>read\<close> deliver: bytes, an interruption, an error; the end of the list is the end of the
  stream. A call takes as much of the first bytes as it has room for and leaves the rest to the
  next call.
\<close>

datatype read_result = Bytes string | Interrupted | ReadFailed

section \<open>Lines\<close>

text \<open>Skips newlines; the offset of the first other character.\<close>

fun skip_newlines :: "nat \<Rightarrow> string \<Rightarrow> nat res" where
  "skip_newlines i [] = Inl OutOfBounds"
| "skip_newlines i (c # cs) = (if is_newline c then skip_newlines (i + 1) cs else Inr i)"

definition sms_prompt :: "string \<Rightarrow> bool" where
  "sms_prompt s = (case s of a # b # c # _ \<Rightarrow> a = CHR ''>'' \<and> b = CHR '' '' \<and> c = NUL | _ \<Rightarrow> False)"

fun scan_eol :: "nat \<Rightarrow> string \<Rightarrow> nat option res" where
  "scan_eol i [] = Inl OutOfBounds"
| "scan_eol i (c # cs) =
     (if c = NUL then Inr None else if is_newline c then Inr (Some i) else scan_eol (i + 1) cs)"

definition findNextEOL :: "string \<Rightarrow> nat \<Rightarrow> nat option res" where
  "findNextEOL buf cur =
     (if sms_prompt (drop cur buf) then Inr (Some (cur + 2)) else scan_eol cur (drop cur buf))"

text \<open>The string that starts at an offset.\<close>

definition c_string :: "string \<Rightarrow> nat \<Rightarrow> string" where
  "c_string buf cur = takeWhile (\<lambda>c. c \<noteq> NUL) (drop cur buf)"

text \<open>The end of \<^verbatim>\<open>readline\<close>: the line ends at \<open>eol\<close> and the cursor is behind it.\<close>

definition take_line :: "at_reader \<Rightarrow> nat \<Rightarrow> string \<times> at_reader" where
  "take_line st eol =
     (let buf = (s_ATBuffer st)[eol := NUL]
      in (c_string buf (s_ATBufferCur st), \<lparr>s_ATBuffer = buf, s_ATBufferCur = eol + 1\<rparr>))"

definition skip_and_find :: "at_reader \<Rightarrow> (nat option \<times> at_reader) res" where
  "skip_and_find st =
     bindR (skip_newlines (s_ATBufferCur st) (drop (s_ATBufferCur st) (s_ATBuffer st))) (\<lambda>cur.
     bindR (findNextEOL (s_ATBuffer st) cur) (\<lambda>eol. Inr (eol, st\<lparr>s_ATBufferCur := cur\<rparr>)))"

text \<open>The first part of \<^verbatim>\<open>readline\<close>: the end of a line that is in the buffer, or the place to read to.\<close>

definition ditch :: "at_reader \<Rightarrow> at_reader" where
  "ditch st = \<lparr>s_ATBuffer = (s_ATBuffer st)[0 := NUL], s_ATBufferCur = 0\<rparr>"

definition readline_begin :: "at_reader \<Rightarrow> (nat option \<times> nat \<times> at_reader) res" where
  "readline_begin st =
     (if s_ATBufferCur st \<ge> length (s_ATBuffer st) then Inl OutOfBounds
      else if s_ATBuffer st ! s_ATBufferCur st = NUL then Inr (None, 0, ditch st)
      else
        bindR (skip_and_find st) (\<lambda>(eol, st).
          if eol = None
          then let len = length (c_string (s_ATBuffer st) (s_ATBufferCur st));
                   part = take (len + 1) (drop (s_ATBufferCur st) (s_ATBuffer st))
               in Inr (None, len, \<lparr>s_ATBuffer = part @ drop (len + 1) (s_ATBuffer st), s_ATBufferCur = 0\<rparr>)
          else Inr (eol, 0, st)))"

text \<open>The bytes go to the buffer at \<open>p_read\<close>, with a terminator behind them.\<close>

definition store_bytes :: "nat \<Rightarrow> string \<Rightarrow> at_reader \<Rightarrow> at_reader" where
  "store_bytes p_read bs st =
     st\<lparr>s_ATBuffer := take p_read (s_ATBuffer st) @ bs @ NUL # drop (p_read + length bs + 1) (s_ATBuffer st)\<rparr>"

fun script_size :: "read_result list \<Rightarrow> nat" where
  "script_size [] = 0"
| "script_size (Bytes bs # rs) = length bs + 1 + script_size rs"
| "script_size (_ # rs) = 1 + script_size rs"

definition leftover :: "string \<Rightarrow> read_result list \<Rightarrow> read_result list" where
  "leftover bs rs = (if bs = [] then rs else Bytes bs # rs)"

definition ditch_full :: "nat \<Rightarrow> at_reader \<Rightarrow> nat \<times> at_reader" where
  "ditch_full p_read st = (if MAX_AT_RESPONSE - p_read = 0 then (0, ditch st) else (p_read, st))"

lemma round_shrinks:
  assumes "(p', st') = ditch_full p st" and "bs \<noteq> []"
  shows "script_size (leftover (drop (MAX_AT_RESPONSE - p') bs) rs) < Suc (length bs + script_size rs)"
proof -
  have "MAX_AT_RESPONSE - p' \<noteq> 0" using assms(1) by (auto simp: ditch_full_def split: if_splits)
  then show ?thesis using assms(2) by (cases "MAX_AT_RESPONSE - p'") (auto simp: leftover_def)
qed

text \<open>
  The loop of \<^verbatim>\<open>readline\<close>; its result is the line, \<open>None\<close> for \<^verbatim>\<open>NULL\<close>. Every round uses up a part of what
  the stream delivers.
\<close>

function readline_loop ::
  "nat \<Rightarrow> at_reader \<Rightarrow> read_result list \<Rightarrow> (string option \<times> at_reader \<times> read_result list) res" where
  "readline_loop p_read st [] = Inr (None, snd (ditch_full p_read st), [])"
| "readline_loop p_read st (Interrupted # rs) =
     (case ditch_full p_read st of (p_read, st) \<Rightarrow> readline_loop p_read st rs)"
| "readline_loop p_read st (ReadFailed # rs) = Inr (None, snd (ditch_full p_read st), rs)"
| "readline_loop p_read st (Bytes bs # rs) =
     (case ditch_full p_read st of (p_read, st) \<Rightarrow>
        if bs = [] then Inr (None, st, rs)
        else
          let got = take (MAX_AT_RESPONSE - p_read) bs;
              rs = leftover (drop (MAX_AT_RESPONSE - p_read) bs) rs
          in bindR (skip_and_find (store_bytes p_read got st)) (\<lambda>(eol, st).
               case eol of
                 Some e \<Rightarrow> (case take_line st e of (line, st) \<Rightarrow> Inr (Some line, st, rs))
               | None \<Rightarrow> readline_loop (p_read + length got) st rs))"
  by pat_completeness auto

termination
  by (relation "measure (\<lambda>(p, st, rs). script_size rs)") (auto intro: round_shrinks)

definition readline :: "at_reader \<Rightarrow> read_result list \<Rightarrow> (string option \<times> at_reader \<times> read_result list) res" where
  "readline st rs =
     bindR (readline_begin st) (\<lambda>(eol, p_read, st).
       case eol of
         Some e \<Rightarrow> (case take_line st e of (line, st) \<Rightarrow> Inr (Some line, st, rs))
       | None \<Rightarrow> readline_loop p_read st rs)"

section \<open>The buffer between two calls\<close>

text \<open>The buffer holds the text \<open>p\<close> at its cursor, up to the terminator.\<close>

definition holds :: "at_reader \<Rightarrow> string \<Rightarrow> bool" where
  "holds st p \<longleftrightarrow> length (s_ATBuffer st) = MAX_AT_RESPONSE + 1 \<and> NUL \<notin> set p \<and>
     (\<exists>junk tail. s_ATBuffer st = junk @ p @ NUL # tail \<and> s_ATBufferCur st = length junk)"

definition plain :: "string \<Rightarrow> bool" where
  "plain l \<longleftrightarrow> (\<forall>c\<in>set l. \<not> is_newline c \<and> c \<noteq> NUL)"

definition newlines :: "string \<Rightarrow> bool" where
  "newlines l \<longleftrightarrow> (\<forall>c\<in>set l. is_newline c)"

lemma newline_not_NUL [line_simps]: "is_newline c \<Longrightarrow> c \<noteq> NUL"
  by (auto simp: is_newline_def)

lemma plain_simps [line_simps]: "plain []" "plain (c # l) \<longleftrightarrow> \<not> is_newline c \<and> c \<noteq> NUL \<and> plain l"
    "plain (l @ m) \<longleftrightarrow> plain l \<and> plain m"
  by (auto simp: plain_def)

lemma newlines_simps [line_simps]: "newlines []" "newlines (c # l) \<longleftrightarrow> is_newline c \<and> newlines l"
    "newlines (l @ m) \<longleftrightarrow> newlines l \<and> newlines m"
  by (auto simp: newlines_def)

lemma no_NUL: "plain l \<Longrightarrow> NUL \<notin> set l" "newlines l \<Longrightarrow> NUL \<notin> set l"
  by (auto simp: plain_def newlines_def is_newline_def)

lemma skip_newlines_append:
  "newlines nl \<Longrightarrow> s \<noteq> [] \<Longrightarrow> \<not> is_newline (hd s) \<Longrightarrow> skip_newlines i (nl @ s) = Inr (i + length nl)"
  by (induction nl arbitrary: i) (auto simp: line_simps neq_Nil_conv)

lemma scan_eol_none: "plain l \<Longrightarrow> scan_eol i (l @ NUL # t) = Inr None"
  by (induction l arbitrary: i) (auto simp: line_simps)

lemma scan_eol_some: "plain l \<Longrightarrow> is_newline e \<Longrightarrow> scan_eol i (l @ e # t) = Inr (Some (i + length l))"
  by (induction l arbitrary: i) (auto simp: line_simps)

lemma sms_prompt_iff: "NUL \<notin> set p \<Longrightarrow> sms_prompt (p @ NUL # t) \<longleftrightarrow> p = ''> ''"
  by (auto simp: sms_prompt_def append_eq_Cons_conv split: list.splits)

lemma c_string_append: "NUL \<notin> set p \<Longrightarrow> c_string (junk @ p @ NUL # tail) (length junk) = p"
proof -
  assume "NUL \<notin> set p"
  then have "takeWhile (\<lambda>c. c \<noteq> NUL) (p @ NUL # tail) = p" by (induction p) auto
  then show ?thesis by (simp add: c_string_def)
qed

lemma holds_start: "holds reader_start []"
proof -
  have "replicate (MAX_AT_RESPONSE + 1) NUL = NUL # replicate MAX_AT_RESPONSE NUL"
    unfolding Suc_eq_plus1[symmetric] by (rule replicate_Suc)
  then show ?thesis by (simp add: holds_def reader_start_def)
qed

subsection \<open>Finding a line\<close>

lemma find_none:
  assumes "holds st (nl @ l)" and "newlines nl" and "plain l" and "l \<noteq> ''> ''"
  shows "skip_and_find st = Inr (None, st\<lparr>s_ATBufferCur := s_ATBufferCur st + length nl\<rparr>)"
    and "holds (st\<lparr>s_ATBufferCur := s_ATBufferCur st + length nl\<rparr>) l"
proof -
  obtain junk tail where b: "s_ATBuffer st = junk @ (nl @ l) @ NUL # tail" "s_ATBufferCur st = length junk"
    using assms(1) by (auto simp: holds_def)
  have hd: "\<not> is_newline (hd (l @ NUL # tail))" using assms(3) by (cases l) (auto simp: line_simps is_newline_def)
  have d: "drop (length junk + length nl) (s_ATBuffer st) = l @ NUL # tail" using b(1) by simp
  have sk: "skip_newlines (length junk) (drop (length junk) (s_ATBuffer st)) = Inr (length junk + length nl)"
    using b(1) skip_newlines_append[OF assms(2) _ hd, of "length junk"] by simp
  have "findNextEOL (s_ATBuffer st) (length junk + length nl) = Inr None"
    using sms_prompt_iff[OF no_NUL(1)[OF assms(3)], of tail] assms(4)
    by (simp add: findNextEOL_def d scan_eol_none[OF assms(3)])
  then show "skip_and_find st = Inr (None, st\<lparr>s_ATBufferCur := s_ATBufferCur st + length nl\<rparr>)"
    by (simp add: skip_and_find_def b(2) sk)
  have "s_ATBuffer st = (junk @ nl) @ l @ NUL # tail" using b(1) by simp
  then show "holds (st\<lparr>s_ATBufferCur := s_ATBufferCur st + length nl\<rparr>) l"
    using assms(1) no_NUL(1)[OF assms(3)] b(2) unfolding holds_def
    by (metis (no_types, lifting) at_reader.simps(1,2,4) at_reader.surjective at_reader.update_convs(2) length_append)
qed

lemma find_line:
  assumes "holds st (nl @ l @ e # r)" and "newlines nl" and "plain l" and "l \<noteq> []" and "is_newline e"
  shows "\<exists>k st1 st2. skip_and_find st = Inr (Some k, st1) \<and> take_line st1 k = (l, st2) \<and> holds st2 r"
proof -
  obtain junk tail where b: "s_ATBuffer st = junk @ (nl @ l @ e # r) @ NUL # tail" "s_ATBufferCur st = length junk"
    using assms(1) by (auto simp: holds_def)
  have hd: "\<not> is_newline (hd (l @ e # r @ NUL # tail))" using assms(3,4) by (cases l) (auto simp: line_simps)
  have d: "drop (length junk + length nl) (s_ATBuffer st) = l @ e # r @ NUL # tail" using b(1) by simp
  let ?cur = "length junk + length nl"
  have sk: "skip_newlines (length junk) (drop (length junk) (s_ATBuffer st)) = Inr ?cur"
    using b(1) skip_newlines_append[OF assms(2) _ hd, of "length junk"] by simp
  have nn: "NUL \<notin> set (l @ e # r)" using assms(1) by (auto simp: holds_def)
  have "\<not> sms_prompt ((l @ e # r) @ NUL # tail)"
    using assms(5) sms_prompt_iff[OF nn, of tail] by (auto simp: is_newline_def append_eq_Cons_conv)
  then have "findNextEOL (s_ATBuffer st) ?cur = Inr (Some (?cur + length l))"
    by (simp add: findNextEOL_def d scan_eol_some[OF assms(3,5)])
  then have f: "skip_and_find st = Inr (Some (?cur + length l), st\<lparr>s_ATBufferCur := ?cur\<rparr>)"
    by (simp add: skip_and_find_def b(2) sk)
  let ?buf = "(junk @ nl) @ l @ NUL # r @ NUL # tail"
  have up: "(s_ATBuffer st)[?cur + length l := NUL] = ?buf" using b(1) by (simp add: list_update_append)
  have tl: "take_line (st\<lparr>s_ATBufferCur := ?cur\<rparr>) (?cur + length l) =
      (l, \<lparr>s_ATBuffer = ?buf, s_ATBufferCur = ?cur + length l + 1\<rparr>)"
    using c_string_append[OF no_NUL(1)[OF assms(3)], of "junk @ nl" "r @ NUL # tail"] up
    by (simp add: take_line_def Let_def)
  have "length ?buf = MAX_AT_RESPONSE + 1" using assms(1) up by (metis holds_def length_list_update)
  moreover have "?buf = (junk @ nl @ l @ [NUL]) @ r @ NUL # tail" by simp
  moreover have "?cur + length l + 1 = length (junk @ nl @ l @ [NUL])" by simp
  ultimately have "holds \<lparr>s_ATBuffer = ?buf, s_ATBufferCur = ?cur + length l + 1\<rparr> r"
    using nn unfolding holds_def by (metis (no_types, lifting) at_reader.simps(1,2) list.set_intros(2) Un_iff set_append)
  then show ?thesis using f tl by blast
qed

lemma store_holds:
  assumes "holds st p" and "p_read = s_ATBufferCur st + length p" and "NUL \<notin> set got"
    and "p_read + length got \<le> MAX_AT_RESPONSE"
  shows "holds (store_bytes p_read got st) (p @ got)"
    and "s_ATBufferCur (store_bytes p_read got st) = s_ATBufferCur st"
proof -
  obtain junk tail where b: "s_ATBuffer st = junk @ p @ NUL # tail" "s_ATBufferCur st = length junk"
    using assms(1) by (auto simp: holds_def)
  have len: "length (s_ATBuffer st) = MAX_AT_RESPONSE + 1" using assms(1) by (simp add: holds_def)
  have "take p_read (s_ATBuffer st) = junk @ p" using b assms(2) by simp
  then have "s_ATBuffer (store_bytes p_read got st) =
      junk @ (p @ got) @ NUL # drop (p_read + length got + 1) (s_ATBuffer st)"
    by (simp add: store_bytes_def)
  moreover have "length (s_ATBuffer (store_bytes p_read got st)) = MAX_AT_RESPONSE + 1"
    using len assms(4) by (simp add: store_bytes_def)
  moreover show "s_ATBufferCur (store_bytes p_read got st) = s_ATBufferCur st" by (simp add: store_bytes_def)
  ultimately show "holds (store_bytes p_read got st) (p @ got)"
    using assms(1,3) b(2) unfolding holds_def by auto
qed

section \<open>Lines do not depend on how the bytes arrive\<close>

definition stream :: "read_result list \<Rightarrow> string" where
  "stream rs = concat (map (\<lambda>r. case r of Bytes bs \<Rightarrow> bs | _ \<Rightarrow> []) rs)"

text \<open>Reads that succeed or are interrupted, of text without NUL.\<close>

definition clean :: "read_result list \<Rightarrow> bool" where
  "clean rs \<longleftrightarrow> (\<forall>r\<in>set rs. case r of Bytes bs \<Rightarrow> bs \<noteq> [] \<and> NUL \<notin> set bs | Interrupted \<Rightarrow> True | ReadFailed \<Rightarrow> False)"

lemma stream_simps [line_simps]: "stream [] = []" "stream (Bytes bs # rs) = bs @ stream rs"
    "stream (Interrupted # rs) = stream rs" "stream (leftover bs rs) = bs @ stream rs"
  by (auto simp: stream_def leftover_def)

lemma clean_simps [line_simps]: "clean []" "clean (Bytes bs # rs) \<longleftrightarrow> bs \<noteq> [] \<and> NUL \<notin> set bs \<and> clean rs"
    "clean (Interrupted # rs) \<longleftrightarrow> clean rs" "\<not> clean (ReadFailed # rs)"
  by (auto simp: clean_def)

lemma clean_leftover: "clean (Bytes bs # rs) \<Longrightarrow> clean (leftover (drop n bs) rs)"
  using set_drop_subset[of n bs] by (auto simp: leftover_def line_simps)

lemma append_cut: "q @ s = a @ t \<Longrightarrow> length q \<le> length a \<Longrightarrow> \<exists>u. a = q @ u \<and> s = u @ t"
  by (auto simp: append_eq_append_conv2)

lemma first_char: "holds st p \<Longrightarrow> p \<noteq> [] \<Longrightarrow> s_ATBufferCur st < length (s_ATBuffer st) \<and> s_ATBuffer st ! s_ATBufferCur st \<noteq> NUL"
  by (cases p) (auto simp: holds_def nth_append)

text \<open>A prefix of newlines and a line that ends before the end of the line.\<close>

lemma line_prefix:
  assumes "q @ s = nl @ line @ t" and "length q \<le> length (nl @ line)" and "newlines nl" and "plain line"
  shows "\<exists>nl1 l1 nl2. q = nl1 @ l1 \<and> newlines nl1 \<and> plain l1 \<and> prefix l1 line \<and>
    newlines nl2 \<and> l1 @ s = nl2 @ line @ t \<and> length nl1 + length nl2 = length nl \<and> (l1 \<noteq> [] \<longrightarrow> nl2 = [])"
proof (cases "length q \<le> length nl")
  case True
  then obtain nl2 where n: "nl = q @ nl2" "s = nl2 @ line @ t" using append_cut[OF assms(1)] by blast
  then show ?thesis using assms(3) by (intro exI[of _ q] exI[of _ "[]"] exI[of _ nl2]) (auto simp: line_simps)
next
  case False
  then obtain l1 where q: "q = nl @ l1" "line @ t = l1 @ s" using append_cut[OF assms(1)[symmetric]] by auto
  then have "prefix l1 line" using append_cut[OF q(2)[symmetric]] assms(2) by (auto simp: prefix_def)
  then show ?thesis using q assms(3,4) by (intro exI[of _ nl] exI[of _ l1] exI[of _ "[]"]) (auto simp: line_simps prefix_def)
qed

lemma line_complete:
  assumes "q @ s = nl @ line @ e # t" and "\<not> length q \<le> length (nl @ line)"
  shows "\<exists>r. q = nl @ line @ e # r \<and> r @ s = t"
proof -
  have "(nl @ line) @ e # t = q @ s" using assms(1) by simp
  then obtain u where "q = (nl @ line) @ u" "e # t = u @ s" using append_cut assms(2) by (metis nat_le_linear)
  then show ?thesis using assms(2) by (cases u) auto
qed

text \<open>The line that the reads will deliver, when the buffer already holds the first part \<open>p\<close> of it.\<close>

definition line_ok :: "string \<Rightarrow> bool" where
  "line_ok line \<longleftrightarrow> line \<noteq> [] \<and> plain line \<and> \<not> prefix ''> '' line"

text \<open>A state of the loop: the buffer holds \<open>p\<close> up to \<open>p_read\<close>, and newlines \<open>nl\<close> and the line come.\<close>

definition loop_at :: "nat \<Rightarrow> at_reader \<Rightarrow> string \<Rightarrow> read_result list \<Rightarrow> string \<Rightarrow> string \<Rightarrow> string \<Rightarrow> bool" where
  "loop_at p_read st p rs nl line t \<longleftrightarrow>
     holds st p \<and> p_read = s_ATBufferCur st + length p \<and> plain p \<and> clean rs \<and> p @ stream rs = nl @ line @ t \<and>
     newlines nl \<and> p_read + length nl + length line < MAX_AT_RESPONSE + length p"

lemma line_ends: "newlines nl \<Longrightarrow> is_newline e \<Longrightarrow> \<not> plain (nl @ line @ e # t)"
  by (auto simp: line_simps)

text \<open>One call of \<^verbatim>\<open>read\<close>: the text in the buffer, what is left of the stream, and what the loop does then.\<close>

lemma loop_read:
  assumes "loop_at p_read st p (Bytes bs # rs) nl line t" and "length p \<le> length (nl @ line)"
  shows "\<exists>got rs1 st1. holds st1 (p @ got) \<and> s_ATBufferCur st1 = s_ATBufferCur st \<and> clean rs1 \<and>
    (p @ got) @ stream rs1 = nl @ line @ t \<and> script_size rs1 < script_size (Bytes bs # rs) \<and>
    readline_loop p_read st (Bytes bs # rs) = bindR (skip_and_find st1) (\<lambda>(eol, st).
      case eol of Some e \<Rightarrow> (case take_line st e of (line, st) \<Rightarrow> Inr (Some line, st, rs1))
      | None \<Rightarrow> readline_loop (p_read + length got) st rs1)"
proof -
  note at = assms(1)[unfolded loop_at_def]
  have room: "p_read < MAX_AT_RESPONSE" using at assms(2) by simp
  then have full: "ditch_full p_read st = (p_read, st)" by (simp add: ditch_full_def)
  let ?got = "take (MAX_AT_RESPONSE - p_read) bs" and ?rs1 = "leftover (drop (MAX_AT_RESPONSE - p_read) bs) rs"
  have bs: "bs \<noteq> []" "NUL \<notin> set ?got" "clean ?rs1"
    using at clean_leftover set_take_subset[of "MAX_AT_RESPONSE - p_read" bs] by (auto simp: line_simps)
  have fits: "p_read + length ?got \<le> MAX_AT_RESPONSE" using room by simp
  have "(p @ ?got) @ stream ?rs1 = p @ (?got @ drop (MAX_AT_RESPONSE - p_read) bs) @ stream rs"
    by (simp only: line_simps append_assoc)
  then have str: "(p @ ?got) @ stream ?rs1 = nl @ line @ t" using at by (simp only: line_simps append_take_drop_id)
  have smaller: "script_size ?rs1 < script_size (Bytes bs # rs)"
    using round_shrinks[of p_read st p_read st bs rs] full bs(1) by simp
  let ?st1 = "store_bytes p_read ?got st"
  have "readline_loop p_read st (Bytes bs # rs) = bindR (skip_and_find ?st1) (\<lambda>(eol, st).
      case eol of Some e \<Rightarrow> (case take_line st e of (line, st) \<Rightarrow> Inr (Some line, st, ?rs1))
      | None \<Rightarrow> readline_loop (p_read + length ?got) st ?rs1)"
    using full bs(1) by (simp add: Let_def)
  moreover have "holds ?st1 (p @ ?got)" "s_ATBufferCur ?st1 = s_ATBufferCur st"
    using store_holds[OF _ _ bs(2) fits, of st p] at by blast+
  ultimately show ?thesis using bs(3) str smaller by blast
qed

text \<open>A call that does not complete the line leads to another state of the loop.\<close>

lemma loop_part:
  assumes "loop_at p_read st p (Bytes bs # rs) nl line t" and "length p \<le> length (nl @ line)"
    and "plain line" and "\<not> prefix ''> '' line"
    and "holds st1 (p @ got)" and "s_ATBufferCur st1 = s_ATBufferCur st" and "clean rs1"
    and "(p @ got) @ stream rs1 = nl @ line @ t" and "length (p @ got) \<le> length (nl @ line)"
  shows "\<exists>st2 p' nl'. skip_and_find st1 = Inr (None, st2) \<and> loop_at (p_read + length got) st2 p' rs1 nl' line t"
proof -
  note at = assms(1)[unfolded loop_at_def]
  from line_prefix[OF assms(8,9) _ assms(3)] at obtain nl1 l1 nl2 where s:
    "p @ got = nl1 @ l1" "newlines nl1" "plain l1" "prefix l1 line" "newlines nl2"
    "l1 @ stream rs1 = nl2 @ line @ t" "length nl1 + length nl2 = length nl"
    by blast
  have "l1 \<noteq> ''> ''" using s(4) assms(4) by auto
  note f = find_none[OF assms(5)[unfolded s(1)] s(2,3) this]
  let ?st2 = "st1\<lparr>s_ATBufferCur := s_ATBufferCur st1 + length nl1\<rparr>"
  have len: "length p + length got = length nl1 + length l1" using s(1) by (metis length_append)
  then have "p_read + length got = s_ATBufferCur ?st2 + length l1" using assms(6) at by simp
  moreover have "p_read + length got + length nl2 + length line < MAX_AT_RESPONSE + length l1"
    using len at s(7) by linarith
  ultimately have "loop_at (p_read + length got) ?st2 l1 rs1 nl2 line t"
    using f(2) s(3,5,6) assms(7) by (simp add: loop_at_def)
  then show ?thesis using f(1) by blast
qed

lemma loop_at_interrupted: "loop_at p_read st p (Interrupted # rs) nl line t \<longleftrightarrow> loop_at p_read st p rs nl line t"
  by (simp add: loop_at_def line_simps)

lemma loop_room:
  "loop_at p_read st p rs nl line t \<Longrightarrow> length p \<le> length (nl @ line) \<Longrightarrow> ditch_full p_read st = (p_read, st)"
  by (auto simp: loop_at_def ditch_full_def)

lemma loop_short:
  assumes "loop_at p_read st p rs nl line (e # rest)" and "is_newline e"
  shows "length p \<le> length (nl @ line)"
proof (rule ccontr)
  assume "\<not> ?thesis"
  from line_complete[OF _ this] assms show False by (force simp: loop_at_def line_simps)
qed

lemma loop_line:
  assumes "loop_at p_read st p rs nl line (e # rest)" and "line_ok line" and "is_newline e"
  shows "\<exists>st' rs' p'. readline_loop p_read st rs = Inr (Some line, st', rs') \<and> holds st' p' \<and> clean rs' \<and>
     p' @ stream rs' = rest"
  using assms
proof (induction rs arbitrary: p_read st p nl rule: measure_induct_rule[of script_size])
  case (less rs)
  note short = loop_short[OF less.prems(1,3)]
  note full = loop_room[OF less.prems(1) short]
  have line: "plain line" "\<not> prefix ''> '' line" "line \<noteq> []" using less.prems(2) by (auto simp: line_ok_def)
  show ?case
  proof (cases rs)
    case Nil
    then have "p = nl @ line @ e # rest" using less.prems(1) by (simp add: loop_at_def line_simps)
    then show ?thesis using less.prems(1,3) by (auto simp: loop_at_def line_simps)
  next
    case (Cons r rs0)
    show ?thesis
    proof (cases r)
      case Interrupted
      then show ?thesis using less.IH[of rs0 p_read st p nl] less.prems Cons full loop_at_interrupted by simp
    next
      case ReadFailed
      then show ?thesis using less.prems(1) Cons by (simp add: loop_at_def line_simps)
    next
      case (Bytes bs)
      note at = less.prems(1)[unfolded Cons Bytes]
      from loop_read[OF at short] obtain got rs1 st1 where r:
        "holds st1 (p @ got)" "s_ATBufferCur st1 = s_ATBufferCur st" "clean rs1" "(p @ got) @ stream rs1 = nl @ line @ e # rest"
        "script_size rs1 < script_size (Bytes bs # rs0)"
        and run: "readline_loop p_read st (Bytes bs # rs0) = bindR (skip_and_find st1) (\<lambda>(eol, st).
          case eol of Some e \<Rightarrow> (case take_line st e of (line, st) \<Rightarrow> Inr (Some line, st, rs1))
          | None \<Rightarrow> readline_loop (p_read + length got) st rs1)"
        by blast
      show ?thesis
      proof (cases "length (p @ got) \<le> length (nl @ line)")
        case True
        from loop_part[OF at short line(1,2) r(1-4) True] obtain st2 p' nl' where
          "skip_and_find st1 = Inr (None, st2)" "loop_at (p_read + length got) st2 p' rs1 nl' line (e # rest)" by blast
        then show ?thesis using less.IH[of rs1 "p_read + length got" st2 p' nl'] r(5) less.prems(2,3) run Cons Bytes by simp
      next
        case False
        from line_complete[OF r(4) False] obtain r1 where r1: "p @ got = nl @ line @ e # r1" "r1 @ stream rs1 = rest" by blast
        have "newlines nl" using at by (simp add: loop_at_def)
        from find_line[OF r(1)[unfolded r1(1)] this line(1,3) less.prems(3)]
        obtain k st2 st3 where "skip_and_find st1 = Inr (Some k, st2)" "take_line st2 k = (line, st3)" "holds st3 r1" by blast
        then show ?thesis using run r1(2) r(3) Cons Bytes by auto
      qed
    qed
  qed
qed

lemma loop_end:
  assumes "loop_at p_read st p rs nl line []" and "plain line" and "\<not> prefix ''> '' line"
  shows "\<exists>st'. readline_loop p_read st rs = Inr (None, st', [])"
  using assms
proof (induction rs arbitrary: p_read st p nl rule: measure_induct_rule[of script_size])
  case (less rs)
  have "p @ stream rs = nl @ line" using less.prems(1) by (simp add: loop_at_def)
  then have short: "length p \<le> length (nl @ line)" by (metis length_append le_add1)
  note full = loop_room[OF less.prems(1) short]
  show ?case
  proof (cases rs)
    case Nil
    then show ?thesis by simp
  next
    case (Cons r rs0)
    show ?thesis
    proof (cases r)
      case Interrupted
      then show ?thesis using less.IH[of rs0 p_read st p nl] less.prems Cons full loop_at_interrupted by simp
    next
      case ReadFailed
      then show ?thesis using less.prems(1) Cons by (simp add: loop_at_def line_simps)
    next
      case (Bytes bs)
      note at = less.prems(1)[unfolded Cons Bytes]
      from loop_read[OF at short] obtain got rs1 st1 where r:
        "holds st1 (p @ got)" "s_ATBufferCur st1 = s_ATBufferCur st" "clean rs1" "(p @ got) @ stream rs1 = nl @ line @ []"
        "script_size rs1 < script_size (Bytes bs # rs0)"
        and run: "readline_loop p_read st (Bytes bs # rs0) = bindR (skip_and_find st1) (\<lambda>(eol, st).
          case eol of Some e \<Rightarrow> (case take_line st e of (line, st) \<Rightarrow> Inr (Some line, st, rs1))
          | None \<Rightarrow> readline_loop (p_read + length got) st rs1)"
        by blast
      have "length (p @ got) \<le> length (nl @ line)" using r(4) by (metis append_Nil2 length_append le_add1)
      from loop_part[OF at short less.prems(2,3) r(1-4) this] obtain st2 p' nl' where
        "skip_and_find st1 = Inr (None, st2)" "loop_at (p_read + length got) st2 p' rs1 nl' line []" by blast
      then show ?thesis using less.IH[of rs1 "p_read + length got" st2 p' nl'] r(5) less.prems(2,3) run Cons Bytes by simp
    qed
  qed
qed

text \<open>The first part of \<^verbatim>\<open>readline\<close> on a partial line moves it to the start of the buffer.\<close>

lemma begin_empty: "holds st [] \<Longrightarrow> \<exists>st'. readline_begin st = Inr (None, 0, st') \<and> holds st' [] \<and> s_ATBufferCur st' = 0"
proof -
  assume h: "holds st []"
  then obtain junk tail where b: "s_ATBuffer st = junk @ NUL # tail" "s_ATBufferCur st = length junk"
    and len: "length (s_ATBuffer st) = MAX_AT_RESPONSE + 1"
    by (auto simp: holds_def)
  obtain x xs where "s_ATBuffer st = x # xs" using len by (cases "s_ATBuffer st") auto
  then have "holds (ditch st) []" "s_ATBufferCur (ditch st) = 0"
    using len by (auto simp: holds_def ditch_def)
  then show ?thesis using b by (simp add: readline_begin_def)
qed

lemma begin_part:
  assumes "holds st (nl @ l)" and "newlines nl" and "plain l" and "l \<noteq> ''> ''" and "nl @ l \<noteq> []"
  shows "\<exists>st'. readline_begin st = Inr (None, length l, st') \<and> holds st' l \<and> s_ATBufferCur st' = 0"
proof -
  let ?st = "st\<lparr>s_ATBufferCur := s_ATBufferCur st + length nl\<rparr>"
  note f = find_none[OF assms(1-4)]
  from f(2) obtain junk tail where b: "s_ATBuffer st = junk @ l @ NUL # tail" "s_ATBufferCur ?st = length junk"
    and len: "length (s_ATBuffer st) = MAX_AT_RESPONSE + 1"
    by (auto simp: holds_def)
  have cs: "c_string (s_ATBuffer st) (s_ATBufferCur ?st) = l"
    using c_string_append[OF no_NUL(1)[OF assms(3)], of junk tail] b by simp
  let ?st' = "\<lparr>s_ATBuffer = l @ NUL # drop (length l + 1) (s_ATBuffer st), s_ATBufferCur = 0\<rparr>"
  note first = first_char[OF assms(1,5)]
  have "take (length l + 1) (drop (s_ATBufferCur ?st) (s_ATBuffer st)) = l @ [NUL]" using b by simp
  then have "readline_begin st = Inr (None, length l, ?st')"
    using f(1) first cs by (simp add: readline_begin_def Let_def)
  moreover have "holds ?st' l" using len no_NUL(1)[OF assms(3)] b(1) by (auto simp: holds_def)
  ultimately show ?thesis by auto
qed

text \<open>The start of \<^verbatim>\<open>readline\<close> when the line is not yet complete in the buffer.\<close>

lemma begin_loop:
  assumes "holds st p" and "clean rs" and "p @ stream rs = nl @ line @ t" and "length p \<le> length (nl @ line)"
    and "newlines nl" and "plain line" and "\<not> prefix ''> '' line" and "length nl + length line < MAX_AT_RESPONSE"
  shows "\<exists>st' p' nl'. readline st rs = readline_loop (length p') st' rs \<and> loop_at (length p') st' p' rs nl' line t"
proof -
  from line_prefix[OF assms(3-6)] obtain nl1 l1 nl2 where s:
    "p = nl1 @ l1" "newlines nl1" "plain l1" "prefix l1 line" "newlines nl2"
    "l1 @ stream rs = nl2 @ line @ t" "length nl1 + length nl2 = length nl"
    by blast
  have np: "l1 \<noteq> ''> ''" using s(4) assms(7) by auto
  have "\<exists>st'. readline_begin st = Inr (None, length l1, st') \<and> holds st' l1 \<and> s_ATBufferCur st' = 0"
  proof (cases "p = []")
    case True
    then show ?thesis using begin_empty[of st] assms(1) s(1) by simp
  next
    case False
    then show ?thesis using begin_part[of st nl1 l1] assms(1) s(1-3) np by simp
  qed
  then obtain st' where st': "readline_begin st = Inr (None, length l1, st')" "holds st' l1" "s_ATBufferCur st' = 0" by blast
  have "length l1 + length nl2 + length line < MAX_AT_RESPONSE + length l1" using assms(8) s(7) by linarith
  then have "loop_at (length l1) st' l1 rs nl2 line t" using st'(2,3) s assms(2) by (simp add: loop_at_def)
  then show ?thesis using st'(1) by (auto simp: readline_def)
qed

lemma readline_line:
  assumes "holds st p" and "clean rs" and "p @ stream rs = nl @ line @ e # rest"
    and "newlines nl" and "line_ok line" and "is_newline e" and "length nl + length line < MAX_AT_RESPONSE"
  shows "\<exists>st' rs' p'. readline st rs = Inr (Some line, st', rs') \<and> holds st' p' \<and> clean rs' \<and> p' @ stream rs' = rest"
proof (cases "length p \<le> length (nl @ line)")
  case True
  from begin_loop[OF assms(1-3) True assms(4) _ _ assms(7)] assms(5) obtain st' p' nl' where
    "readline st rs = readline_loop (length p') st' rs" "loop_at (length p') st' p' rs nl' line (e # rest)"
    by (auto simp: line_ok_def)
  then show ?thesis using loop_line assms(5,6) by metis
next
  case False
  from line_complete[OF assms(3) False] obtain r where r: "p = nl @ line @ e # r" "r @ stream rs = rest" by blast
  from find_line[OF assms(1)[unfolded r(1)] assms(4)] assms(5,6)
  obtain k st1 st2 where f: "skip_and_find st = Inr (Some k, st1)" "take_line st1 k = (line, st2)" "holds st2 r"
    by (auto simp: line_ok_def)
  have "p \<noteq> []" using r(1) by simp
  then have "readline st rs = Inr (Some line, st2, rs)"
    using first_char[OF assms(1)] f(1,2) by (simp add: readline_def readline_begin_def)
  then show ?thesis using f(3) assms(2) r(2) by blast
qed

lemma readline_end:
  assumes "holds st p" and "clean rs" and "p @ stream rs = nl @ line"
    and "newlines nl" and "plain line" and "\<not> prefix ''> '' line" and "length nl + length line < MAX_AT_RESPONSE"
  shows "\<exists>st'. readline st rs = Inr (None, st', [])"
proof -
  have "length p \<le> length (nl @ line)" using assms(3) by (metis length_append le_add1)
  moreover have "p @ stream rs = nl @ line @ []" using assms(3) by simp
  ultimately obtain st' p' nl' where
    "readline st rs = readline_loop (length p') st' rs" "loop_at (length p') st' p' rs nl' line []"
    using begin_loop[OF assms(1,2) _ _ assms(4-7)] by blast
  then show ?thesis using loop_end assms(5,6) by metis
qed

section \<open>The reader thread\<close>

definition s_smsUnsoliciteds :: "string list" where
  "s_smsUnsoliciteds = [''+CMT:'', ''+CDS:'', ''+CBM:'']"

definition isSMSUnsolicited :: "string \<Rightarrow> bool" where
  "isSMSUnsolicited line \<longleftrightarrow> (\<exists>p\<in>set s_smsUnsoliciteds. strStartsWith line p)"

text \<open>
  What one round of \<^verbatim>\<open>readerLoop\<close> comes to: a line for \<^verbatim>\<open>processLine\<close>, a message of two lines for the
  handler of unsolicited ones, or the end of the thread.
\<close>

datatype reader_event = GotLine string | GotSms string string | ReaderEnds

definition readerLoop_step :: "at_reader \<Rightarrow> read_result list \<Rightarrow> (reader_event \<times> at_reader \<times> read_result list) res" where
  "readerLoop_step st rs =
     bindR (readline st rs) (\<lambda>(line, st, rs).
       case line of
         None \<Rightarrow> Inr (ReaderEnds, st, rs)
       | Some line \<Rightarrow>
           if isSMSUnsolicited line
           then bindR (readline st rs) (\<lambda>(line2, st, rs).
                  case line2 of None \<Rightarrow> Inr (ReaderEnds, st, rs) | Some line2 \<Rightarrow> Inr (GotSms line line2, st, rs))
           else Inr (GotLine line, st, rs))"

text \<open>The rounds until the thread ends; the fuel bounds their number.\<close>

fun reader_events :: "nat \<Rightarrow> at_reader \<Rightarrow> read_result list \<Rightarrow> reader_event list res" where
  "reader_events 0 st rs = Inl OutOfFuel"
| "reader_events (Suc n) st rs =
     bindR (readerLoop_step st rs) (\<lambda>(ev, st, rs).
       if ev = ReaderEnds then Inr [ReaderEnds] else bindR (reader_events n st rs) (\<lambda>evs. Inr (ev # evs)))"

text \<open>What the modem has sent: lines, each with newlines before it and its terminator.\<close>

type_synonym sent_line = "string \<times> string \<times> char"

definition sent_text :: "sent_line list \<Rightarrow> string" where
  "sent_text ls = concat (map (\<lambda>(nl, line, e). nl @ line @ [e]) ls)"

definition sent_ok :: "sent_line \<Rightarrow> bool" where
  "sent_ok l \<longleftrightarrow> (case l of (nl, line, e) \<Rightarrow>
     newlines nl \<and> line_ok line \<and> is_newline e \<and> length nl + length line < MAX_AT_RESPONSE)"

fun group_lines :: "string list \<Rightarrow> reader_event list" where
  "group_lines [] = [ReaderEnds]"
| "group_lines [l] = (if isSMSUnsolicited l then [ReaderEnds] else [GotLine l, ReaderEnds])"
| "group_lines (l # l2 # ls) =
     (if isSMSUnsolicited l then GotSms l l2 # group_lines ls else GotLine l # group_lines (l2 # ls))"

lemma sent_text_simps [line_simps]: "sent_text [] = []" "sent_text ((nl, l, e) # ls) = nl @ l @ e # sent_text ls"
  by (simp_all add: sent_text_def)

text \<open>The unfinished end of a stream: newlines and a part of a line.\<close>

definition unfinished :: "string \<Rightarrow> bool" where
  "unfinished s \<longleftrightarrow> (\<exists>nl l. s = nl @ l \<and> newlines nl \<and> plain l \<and> \<not> prefix ''> '' l \<and> length s < MAX_AT_RESPONSE)"

lemma readline_sent:
  assumes "holds st p" and "clean rs" and "p @ stream rs = sent_text ((nl, line, e) # ls) @ t" and "sent_ok (nl, line, e)"
  shows "\<exists>st' rs' p'. readline st rs = Inr (Some line, st', rs') \<and> holds st' p' \<and> clean rs' \<and>
    p' @ stream rs' = sent_text ls @ t"
  using readline_line[OF assms(1,2), of nl line e "sent_text ls @ t"] assms(3,4) by (simp add: line_simps sent_ok_def)

lemma readline_unfinished:
  assumes "holds st p" and "clean rs" and "p @ stream rs = t" and "unfinished t"
  shows "\<exists>st'. readline st rs = Inr (None, st', [])"
  using readline_end[OF assms(1,2)] assms(3,4) by (auto simp: unfinished_def)

lemma events_end:
  "readerLoop_step st rs = Inr (ReaderEnds, st', rs') \<Longrightarrow> 0 < n \<Longrightarrow> reader_events n st rs = Inr [ReaderEnds]"
  by (cases n) simp_all

lemma events_more:
  "readerLoop_step st rs = Inr (ev, st', rs') \<Longrightarrow> ev \<noteq> ReaderEnds \<Longrightarrow> reader_events n st' rs' = Inr evs \<Longrightarrow>
   reader_events (Suc n) st rs = Inr (ev # evs)"
  by simp

lemma events_sent:
  assumes "holds st p" and "clean rs" and "p @ stream rs = sent_text ls @ t" and "\<forall>l\<in>set ls. sent_ok l" and "unfinished t"
    and "length ls < n"
  shows "reader_events n st rs = Inr (group_lines (map (fst \<circ> snd) ls))"
  using assms
proof (induction "map (fst \<circ> snd) ls" arbitrary: ls st p rs n rule: group_lines.induct)
  case 1
  then have "p @ stream rs = t" by (simp add: line_simps)
  from readline_unfinished[OF 1(2,3) this 1(6)] obtain st' where "readline st rs = Inr (None, st', [])" by blast
  then show ?case using 1 events_end[of st rs st' "[]" n] by (simp add: readerLoop_step_def)
next
  case (2 l)
  then obtain nl e where ls: "ls = [(nl, l, e)]" by (auto simp: Cons_eq_map_conv)
  obtain m where n: "n = Suc m" "0 < m" using 2(7) ls by (cases n) auto
  have "p @ stream rs = sent_text ((nl, l, e) # []) @ t" "sent_ok (nl, l, e)" using 2(4,5) ls by simp_all
  from readline_sent[OF 2(2,3) this] obtain st' rs' p' where
    r: "readline st rs = Inr (Some l, st', rs')" "holds st' p'" "clean rs'" "p' @ stream rs' = t"
    by (auto simp: line_simps)
  from readline_unfinished[OF r(2-4) 2(6)] obtain st'' where e: "readline st' rs' = Inr (None, st'', [])" by blast
  show ?case
  proof (cases "isSMSUnsolicited l")
    case True
    then show ?thesis using r(1) e ls n events_end[of st rs st'' "[]" n] by (simp add: readerLoop_step_def)
  next
    case False
    have "reader_events m st' rs' = Inr [ReaderEnds]"
      using e n(2) events_end[of st' rs' st'' "[]" m] by (simp add: readerLoop_step_def)
    then show ?thesis using r(1) False ls n(1) by (simp add: readerLoop_step_def)
  qed
next
  case (3 l l2 ls0)
  then obtain nl e nl2 e2 ls1 where ls: "ls = (nl, l, e) # (nl2, l2, e2) # ls1" "ls0 = map (fst \<circ> snd) ls1"
    by (auto simp: Cons_eq_map_conv)
  obtain m where n: "n = Suc m" "Suc (length ls1) < m" using 3(9) ls by (cases n) auto
  have "p @ stream rs = sent_text ((nl, l, e) # (nl2, l2, e2) # ls1) @ t" "sent_ok (nl, l, e)" using 3(6,7) ls by simp_all
  from readline_sent[OF 3(4,5) this] obtain st' rs' p' where
    r: "readline st rs = Inr (Some l, st', rs')" "holds st' p'" "clean rs'" "p' @ stream rs' = sent_text ((nl2, l2, e2) # ls1) @ t"
    by blast
  show ?case
  proof (cases "isSMSUnsolicited l")
    case True
    from readline_sent[OF r(2-4)] 3(7) ls obtain st'' rs'' p'' where
      r2: "readline st' rs' = Inr (Some l2, st'', rs'')" "holds st'' p''" "clean rs''" "p'' @ stream rs'' = sent_text ls1 @ t"
      by auto
    have "reader_events m st'' rs'' = Inr (group_lines ls0)"
      using 3(1)[OF True ls(2) r2(2-4)] 3(7,8) ls n by simp
    then show ?thesis using r(1) r2(1) True ls n(1) by (simp add: readerLoop_step_def)
  next
    case False
    have "reader_events m st' rs' = Inr (group_lines (l2 # ls0))"
      using 3(2)[OF False _ r(2-4)] 3(7,8) ls n by simp
    then show ?thesis using r(1) False ls n(1) by (simp add: readerLoop_step_def)
  qed
qed

text \<open>
  C10: the lines that the modem sends reach the handlers one by one and in order, messages of two
  lines together, whatever the newlines around them and however the calls of \<^verbatim>\<open>read\<close> cut the bytes
  into pieces, provided no line with the newlines before it is longer than the buffer; the thread
  ends at the end of the stream and an unfinished line is dropped.
\<close>

theorem lines_delivered:
  assumes "clean rs" and "stream rs = sent_text ls @ t" and "\<forall>l\<in>set ls. sent_ok l" and "unfinished t"
    and "length ls < n"
  shows "reader_events n reader_start rs = Inr (group_lines (map (fst \<circ> snd) ls))"
  by (rule events_sent[OF holds_start assms(1) _ assms(3-5)]) (simp add: assms(2))

text \<open>An answer and a message of two lines that arrive in three pieces.\<close>

definition demo_lines :: "sent_line list" where
  "demo_lines = [([CHR 0x0D, CHR 0x0A], ''OK'', CHR 0x0D), ([CHR 0x0A], ''+CMT: 24'', CHR 0x0D), ([], ''0791'', CHR 0x0A)]"

definition demo_reads :: "read_result list" where
  "demo_reads = [Bytes (CHR 0x0D # CHR 0x0A # ''O''), Interrupted,
     Bytes (''K'' @ [CHR 0x0D, CHR 0x0A] @ ''+CMT: 24'' @ [CHR 0x0D] @ ''07''), Bytes (''91'' @ [CHR 0x0A] @ ''RI'')]"

theorem lines_delivered_witness:
  "reader_events 4 reader_start demo_reads = Inr [GotLine ''OK'', GotSms ''+CMT: 24'' ''0791'', ReaderEnds]"
proof -
  have c: "clean demo_reads" by (simp add: demo_reads_def line_simps)
  have s: "stream demo_reads = sent_text demo_lines @ ''RI''" by (simp add: demo_reads_def demo_lines_def line_simps)
  have o: "\<forall>l\<in>set demo_lines. sent_ok l"
    by (simp add: demo_lines_def sent_ok_def line_ok_def newlines_def plain_def is_newline_def)
  have u: "unfinished ''RI''"
    unfolding unfinished_def by (rule exI[of _ "[]"], rule exI[of _ "''RI''"]) (simp add: newlines_def plain_def is_newline_def)
  have n: "length demo_lines < 4" by (simp add: demo_lines_def)
  show ?thesis using lines_delivered[OF c s o u n] by (simp add: demo_lines_def isSMSUnsolicited_def s_smsUnsoliciteds_def)
qed

section \<open>Bytes that \<^verbatim>\<open>readline\<close> does not expect\<close>

text \<open>
  After the prompt of an SMS command the cursor stands one past the terminator, contrary to the comment
  at the end of \<^verbatim>\<open>readline\<close>: the bytes that an earlier and longer read has left there are the
  start of the next line.
\<close>

theorem prompt_replays_old_bytes:
  assumes "holds st []" and "NUL \<in> set (drop 3 (s_ATBuffer st))"
  shows "\<exists>st'. readline st (Bytes ''> '' # rs) = Inr (Some ''> '', st', rs) \<and>
    holds st' (takeWhile (\<lambda>c. c \<noteq> NUL) (drop 3 (s_ATBuffer st)))"
proof -
  obtain junk tail where b: "s_ATBuffer st = junk @ NUL # tail" "s_ATBufferCur st = length junk"
    and len: "length (s_ATBuffer st) = MAX_AT_RESPONSE + 1"
    using assms(1) by (auto simp: holds_def)
  obtain old where old: "drop 3 (s_ATBuffer st) = old" by blast
  then have drop3: "drop 3 ((s_ATBuffer st)[0 := NUL]) = old" by (metis drop_update_cancel zero_less_numeral)
  have lo: "length old = MAX_AT_RESPONSE - 2" using old len by auto
  have bg: "readline_begin st = Inr (None, 0, ditch st)" using b by (simp add: readline_begin_def)
  let ?st1 = "\<lparr>s_ATBuffer = ''> '' @ NUL # old, s_ATBufferCur = 0\<rparr>"
  have st1: "store_bytes 0 ''> '' (ditch st) = ?st1" using drop3 by (simp add: store_bytes_def ditch_def eval_nat_numeral)
  have f: "skip_and_find ?st1 = Inr (Some 2, ?st1)"
    by (simp add: skip_and_find_def findNextEOL_def sms_prompt_def is_newline_def)
  let ?st2 = "\<lparr>s_ATBuffer = ''> '' @ NUL # old, s_ATBufferCur = 3\<rparr>"
  have t: "take_line ?st1 2 = (''> '', ?st2)" by (simp add: take_line_def c_string_def)
  have "readline st (Bytes ''> '' # rs) = Inr (Some ''> '', ?st2, rs)"
    using bg st1 f t by (simp add: readline_def ditch_full_def leftover_def)
  moreover have "holds ?st2 (takeWhile (\<lambda>c. c \<noteq> NUL) old)"
  proof -
    obtain p r where pr: "old = p @ NUL # r" "NUL \<notin> set p" using assms(2) old by (metis split_list_first)
    then have "takeWhile (\<lambda>c. c \<noteq> NUL) old = p" by (induction p arbitrary: old) auto
    moreover have "s_ATBuffer ?st2 = (''> '' @ [NUL]) @ p @ NUL # r" "s_ATBufferCur ?st2 = length (''> '' @ [NUL])"
      using pr(1) by simp_all
    moreover have "length (s_ATBuffer ?st2) = MAX_AT_RESPONSE + 1" using lo by simp
    ultimately show ?thesis using pr(2) unfolding holds_def by blast
  qed
  ultimately show ?thesis using old by blast
qed

theorem prompt_replays_old_bytes_witness:
  "\<exists>st st'. holds st [] \<and> readline st [Bytes ''> ''] = Inr (Some ''> '', st', []) \<and> holds st' ''EG: 1''"
proof -
  define st where "st = \<lparr>s_ATBuffer = ''+CREG: 1'' @ NUL # replicate 8184 NUL, s_ATBufferCur = 8\<rparr>"
  have "s_ATBuffer st = ''+CREG: 1'' @ [] @ NUL # replicate 8184 NUL" by (simp add: st_def)
  moreover have "s_ATBufferCur st = length ''+CREG: 1''" by (simp add: st_def)
  moreover have "length (s_ATBuffer st) = MAX_AT_RESPONSE + 1" by (simp add: st_def)
  ultimately have h: "holds st []" unfolding holds_def by fastforce
  have n: "NUL \<in> set (drop 3 (s_ATBuffer st))" by (simp add: st_def)
  have "takeWhile (\<lambda>c. c \<noteq> NUL) (drop 3 (s_ATBuffer st)) = ''EG: 1''" by (simp add: st_def)
  then show ?thesis using prompt_replays_old_bytes[OF h n, of "[]"] h by auto
qed

lemma store_blocked:
  assumes "holds st l" and "s_ATBufferCur st + length l < p_read" and "p_read + length got \<le> MAX_AT_RESPONSE"
  shows "holds (store_bytes p_read got st) l" "s_ATBufferCur (store_bytes p_read got st) = s_ATBufferCur st"
proof -
  obtain junk tail where b: "s_ATBuffer st = junk @ l @ NUL # tail" "s_ATBufferCur st = length junk"
    using assms(1) by (auto simp: holds_def)
  obtain k where k: "p_read = length (junk @ l @ [NUL]) + k" using assms(2) b(2)
    by (metis Suc_leI add_Suc_right le_Suc_ex length_append length_append_singleton)
  have "take p_read (s_ATBuffer st) = (junk @ l @ [NUL]) @ take k tail" using b(1) k by simp
  then have "s_ATBuffer (store_bytes p_read got st) =
      junk @ l @ NUL # take k tail @ got @ NUL # drop (p_read + length got + 1) (s_ATBuffer st)"
    by (simp add: store_bytes_def)
  moreover show "s_ATBufferCur (store_bytes p_read got st) = s_ATBufferCur st" by (simp add: store_bytes_def)
  moreover have "length (s_ATBuffer (store_bytes p_read got st)) = MAX_AT_RESPONSE + 1"
    using assms(1,3) by (simp add: holds_def store_bytes_def)
  ultimately show "holds (store_bytes p_read got st) l" using assms(1) b(2) unfolding holds_def by auto
qed

lemma find_blocked: "holds st l \<Longrightarrow> plain l \<Longrightarrow> l \<noteq> ''> '' \<Longrightarrow> skip_and_find st = Inr (None, st)"
  using find_none(1)[of st "[]" l] by (simp add: line_simps)

lemma loop_blocked:
  assumes "holds st l" and "plain l" and "l \<noteq> ''> ''" and "s_ATBufferCur st + length l < p_read"
    and "p_read + length (stream rs) < MAX_AT_RESPONSE"
  shows "\<exists>st' rs'. readline_loop p_read st rs = Inr (None, st', rs')"
  using assms
proof (induction rs arbitrary: p_read st)
  case Nil
  then show ?case by simp
next
  case (Cons r rs)
  have full: "ditch_full p_read st = (p_read, st)" using Cons.prems(5) by (simp add: ditch_full_def)
  show ?case
  proof (cases r)
    case (Bytes bs)
    have room: "p_read + length bs < MAX_AT_RESPONSE" using Cons.prems(5) Bytes by (simp add: line_simps)
    then have whole: "take (MAX_AT_RESPONSE - p_read) bs = bs" "drop (MAX_AT_RESPONSE - p_read) bs = []" by simp_all
    note st1 = store_blocked[OF Cons.prems(1,4) less_imp_le[OF room]]
    let ?st1 = "store_bytes p_read bs st"
    have "readline_loop p_read st (r # rs) =
        (if bs = [] then Inr (None, st, rs) else readline_loop (p_read + length bs) ?st1 rs)"
      using full whole find_blocked[OF st1(1) Cons.prems(2,3)] Bytes by (simp add: leftover_def)
    moreover have "\<exists>st' rs'. readline_loop (p_read + length bs) ?st1 rs = Inr (None, st', rs')"
      using Cons.IH[OF st1(1) Cons.prems(2,3), of "p_read + length bs"] st1(2) Cons.prems(4,5) Bytes
      by (simp add: line_simps)
    ultimately show ?thesis by simp
  next
    case Interrupted
    then show ?thesis using Cons.IH[OF Cons.prems(1-4)] Cons.prems(5) full by (simp add: line_simps)
  next
    case ReadFailed
    then show ?thesis by simp
  qed
qed

text \<open>
  A NUL byte from the modem stops the reader: the line in which it stands never ends for \<^verbatim>\<open>findNextEOL\<close>,
  so that no later line is delivered either, until the stream ends or the buffer is full.
\<close>

theorem nul_blocks_reader:
  assumes "holds st []" and "plain l" and "l \<noteq> ''> ''" and "length (l @ NUL # s) + length (stream rs) < MAX_AT_RESPONSE"
  shows "\<exists>st' rs'. readline st (Bytes (l @ NUL # s) # rs) = Inr (None, st', rs')"
proof -
  from begin_empty[OF assms(1)] obtain st1 where
    st1: "readline_begin st = Inr (None, 0, st1)" "holds st1 []" "s_ATBufferCur st1 = 0" by blast
  let ?bs = "l @ NUL # s"
  let ?st2 = "store_bytes 0 ?bs st1"
  have fits: "length ?bs < MAX_AT_RESPONSE" using assms(4) by simp
  then have whole: "take MAX_AT_RESPONSE ?bs = ?bs" "drop MAX_AT_RESPONSE ?bs = []" by simp_all
  have cur: "s_ATBufferCur ?st2 = 0" using st1(3) by (simp add: store_bytes_def)
  have buf: "s_ATBuffer ?st2 = [] @ l @ NUL # s @ NUL # drop (length ?bs + 1) (s_ATBuffer st1)" by (simp add: store_bytes_def)
  moreover have "length (s_ATBuffer ?st2) = MAX_AT_RESPONSE + 1" using st1(2) fits by (simp add: holds_def store_bytes_def)
  ultimately have h: "holds ?st2 l" using cur no_NUL(1)[OF assms(2)] unfolding holds_def by (metis list.size(3))
  have "readline st (Bytes ?bs # rs) = readline_loop (length ?bs) ?st2 rs"
    using st1(1) find_blocked[OF h assms(2,3)] whole
    by (simp add: readline_def ditch_full_def leftover_def del: take_append drop_append)
  then show ?thesis using loop_blocked[OF h assms(2,3), of "length ?bs" rs] cur assms(4) by simp
qed

theorem nul_blocks_reader_witness:
  "\<exists>st rs. readline reader_start [Bytes (''RI'' @ NUL # ''NG'' @ [CHR 0x0D]), Bytes (''OK'' @ [CHR 0x0D])] = Inr (None, st, rs)"
  using nul_blocks_reader[OF holds_start, of "''RI''" "''NG'' @ [CHR 0x0D]" "[Bytes (''OK'' @ [CHR 0x0D])]"]
  by (simp add: plain_def is_newline_def line_simps)

end
