(* ===== verification/RIL_Channel.thy ===== *)
theory RIL_Channel
  imports RIL_Reader
begin

text \<open>
  The AT channel of the reference RIL (\<^verbatim>\<open>atchannel.c\<close>): the state that the reader thread and the command
  thread share under \<^verbatim>\<open>s_commandmutex\<close>, the writer, the handling of a line and the sending of a
  command with the wait for its response. What runs between two points at which the mutex is
  free is one definition. The reader thread is \<^verbatim>\<open>RIL_Reader\<close>.
\<close>

named_theorems chan_simps

section \<open>State\<close>

abbreviation AT_ERROR_GENERIC :: int where "AT_ERROR_GENERIC \<equiv> - 1"
abbreviation AT_ERROR_COMMAND_PENDING :: int where "AT_ERROR_COMMAND_PENDING \<equiv> - 2"
abbreviation AT_ERROR_CHANNEL_CLOSED :: int where "AT_ERROR_CHANNEL_CLOSED \<equiv> - 3"
abbreviation AT_ERROR_TIMEOUT :: int where "AT_ERROR_TIMEOUT \<equiv> - 4"
abbreviation AT_ERROR_INVALID_THREAD :: int where "AT_ERROR_INVALID_THREAD \<equiv> - 5"
abbreviation AT_ERROR_INVALID_RESPONSE :: int where "AT_ERROR_INVALID_RESPONSE \<equiv> - 6"
abbreviation HANDSHAKE_RETRY_COUNT :: nat where "HANDSHAKE_RETRY_COUNT \<equiv> 8"
abbreviation HANDSHAKE_TIMEOUT_MSEC :: nat where "HANDSHAKE_TIMEOUT_MSEC \<equiv> 250"

datatype ATCommandType = NO_RESULT | NUMERIC | SINGLELINE | MULTILINE

text \<open>The linked list of intermediate lines is the list from its head.\<close>

record ATResponse =
  success :: int
  finalResponse :: "string option"
  p_intermediates :: "string list"

definition at_response_new :: ATResponse where
  "at_response_new = \<lparr>success = 0, finalResponse = None, p_intermediates = []\<rparr>"

text \<open>What leaves the channel: bytes to the modem and calls of the handlers.\<close>

datatype at_out =
    ToModem string
  | Unsolicited string "string option"
  | TimeoutCall
  | ReaderClosedCall
  | CloseFd int
  | Pause nat

text \<open>The answers of \<^verbatim>\<open>write\<close>; when the list is over, a call takes all it is given.\<close>

datatype write_result = Wrote nat | WriteInterrupted | WriteFailed

text \<open>Handlers are known by whether they are set; what they are called with is in \<open>at_outs\<close>.\<close>

record at_channel =
  s_fd :: int
  s_readerClosed :: bool
  s_type :: ATCommandType
  s_responsePrefix :: "string option"
  s_smsPDU :: "string option"
  sp_response :: "ATResponse option"
  s_unsolHandler :: bool
  s_onTimeout :: bool
  s_onReaderClosed :: bool
  at_outs :: "at_out list"
  at_writes :: "write_result list"

definition at_out :: "at_out \<Rightarrow> at_channel \<Rightarrow> at_channel" where
  "at_out x st = st\<lparr>at_outs := at_outs st @ [x]\<rparr>"

section \<open>Writing\<close>

text \<open>The loop over the main string: success, the bytes that were taken, the answers left.\<close>

fun write_all :: "string \<Rightarrow> write_result list \<Rightarrow> bool \<times> string \<times> write_result list" where
  "write_all [] ws = (True, [], ws)"
| "write_all s [] = (True, s, [])"
| "write_all s (WriteInterrupted # ws) = write_all s ws"
| "write_all s (WriteFailed # ws) = (False, [], ws)"
| "write_all s (Wrote n # ws) =
     (case write_all (drop n s) ws of (ok, sent, ws) \<Rightarrow> (ok, take n s @ sent, ws))"

text \<open>The loop over the last character.\<close>

fun write_last :: "char \<Rightarrow> write_result list \<Rightarrow> bool \<times> string \<times> write_result list" where
  "write_last c [] = (True, [c], [])"
| "write_last c (WriteInterrupted # ws) = write_last c ws"
| "write_last c (WriteFailed # ws) = (False, [], ws)"
| "write_last c (Wrote n # ws) = (if n = 0 then write_last c ws else (True, [c], ws))"

definition write_with_end :: "char \<Rightarrow> string \<Rightarrow> at_channel \<Rightarrow> int \<times> at_channel" where
  "write_with_end c s st =
     (if s_fd st < 0 \<or> s_readerClosed st then (AT_ERROR_CHANNEL_CLOSED, st)
      else case write_all s (at_writes st) of (ok, sent, ws) \<Rightarrow>
        if \<not> ok then (AT_ERROR_GENERIC, at_out (ToModem sent) (st\<lparr>at_writes := ws\<rparr>))
        else case write_last c ws of (ok, sent2, ws) \<Rightarrow>
          (if ok then 0 else AT_ERROR_GENERIC, at_out (ToModem (sent @ sent2)) (st\<lparr>at_writes := ws\<rparr>)))"

definition writeline :: "string \<Rightarrow> at_channel \<Rightarrow> int \<times> at_channel" where
  "writeline s st = write_with_end (CHR 0x0D) s st"

definition writeCtrlZ :: "string \<Rightarrow> at_channel \<Rightarrow> int \<times> at_channel" where
  "writeCtrlZ s st = write_with_end (CHR 0x1A) s st"

section \<open>A line from the modem\<close>

definition s_finalResponsesError :: "string list" where
  "s_finalResponsesError =
     [''ERROR'', ''+CMS ERROR:'', ''+CME ERROR:'', ''NO CARRIER'', ''NO ANSWER'', ''NO DIALTONE'']"

definition isFinalResponseError :: "string \<Rightarrow> bool" where
  "isFinalResponseError line \<longleftrightarrow> (\<exists>p\<in>set s_finalResponsesError. strStartsWith line p)"

definition s_finalResponsesSuccess :: "string list" where
  "s_finalResponsesSuccess = [''OK'', ''CONNECT'']"

definition isFinalResponseSuccess :: "string \<Rightarrow> bool" where
  "isFinalResponseSuccess line \<longleftrightarrow> (\<exists>p\<in>set s_finalResponsesSuccess. strStartsWith line p)"

definition isFinalResponse :: "string \<Rightarrow> bool" where
  "isFinalResponse line \<longleftrightarrow> isFinalResponseSuccess line \<or> isFinalResponseError line"

definition addIntermediate :: "string \<Rightarrow> ATResponse \<Rightarrow> ATResponse" where
  "addIntermediate line r = r\<lparr>p_intermediates := line # p_intermediates r\<rparr>"

definition handleFinalResponse :: "string \<Rightarrow> ATResponse \<Rightarrow> ATResponse" where
  "handleFinalResponse line r = r\<lparr>finalResponse := Some line\<rparr>"

definition handleUnsolicited :: "string \<Rightarrow> at_channel \<Rightarrow> at_channel" where
  "handleUnsolicited line st = (if s_unsolHandler st then at_out (Unsolicited line None) st else st)"

definition set_response :: "ATResponse \<Rightarrow> at_channel \<Rightarrow> at_channel" where
  "set_response r st = st\<lparr>sp_response := Some r\<rparr>"

text \<open>\<^verbatim>\<open>strStartsWith (line, s_responsePrefix)\<close>, which reads through the prefix.\<close>

definition has_prefix :: "string \<Rightarrow> at_channel \<Rightarrow> bool res" where
  "has_prefix line st = (case s_responsePrefix st of None \<Rightarrow> Inl NullDeref | Some p \<Rightarrow> Inr (strStartsWith line p))"

definition add_or_unsolicited :: "bool \<Rightarrow> string \<Rightarrow> ATResponse \<Rightarrow> at_channel \<Rightarrow> at_channel" where
  "add_or_unsolicited b line r st =
     (if b then set_response (addIntermediate line r) st else handleUnsolicited line st)"

definition processLine :: "string \<Rightarrow> at_channel \<Rightarrow> at_channel res" where
  "processLine line st =
     (case sp_response st of
        None \<Rightarrow> Inr (handleUnsolicited line st)
      | Some r \<Rightarrow>
          if isFinalResponseSuccess line
          then Inr (set_response (handleFinalResponse line (r\<lparr>success := 1\<rparr>)) st)
          else if isFinalResponseError line
          then Inr (set_response (handleFinalResponse line (r\<lparr>success := 0\<rparr>)) st)
          else if s_smsPDU st \<noteq> None \<and> line = ''> ''
          then Inr ((snd (writeCtrlZ (the (s_smsPDU st)) st))\<lparr>s_smsPDU := None\<rparr>)
          else case s_type st of
            NO_RESULT \<Rightarrow> Inr (handleUnsolicited line st)
          | NUMERIC \<Rightarrow>
              Inr (add_or_unsolicited (p_intermediates r = [] \<and> line \<noteq> [] \<and> isdigit (hd line)) line r st)
          | SINGLELINE \<Rightarrow>
              if p_intermediates r = []
              then bindR (has_prefix line st) (\<lambda>b. Inr (add_or_unsolicited b line r st))
              else Inr (handleUnsolicited line st)
          | MULTILINE \<Rightarrow> bindR (has_prefix line st) (\<lambda>b. Inr (add_or_unsolicited b line r st)))"

definition onReaderClosed :: "at_channel \<Rightarrow> at_channel" where
  "onReaderClosed st =
     (if s_onReaderClosed st \<and> \<not> s_readerClosed st then at_out ReaderClosedCall (st\<lparr>s_readerClosed := True\<rparr>) else st)"

text \<open>What the reader thread does with the result of a round.\<close>

definition reader_act :: "reader_event \<Rightarrow> at_channel \<Rightarrow> at_channel res" where
  "reader_act ev st =
     (case ev of
        GotLine line \<Rightarrow> processLine line st
      | GotSms line1 line2 \<Rightarrow> Inr (if s_unsolHandler st then at_out (Unsolicited line1 (Some line2)) st else st)
      | ReaderEnds \<Rightarrow> Inr (onReaderClosed st))"

section \<open>Opening and closing\<close>

definition clearPendingCommand :: "at_channel \<Rightarrow> at_channel" where
  "clearPendingCommand st = st\<lparr>sp_response := None, s_responsePrefix := None, s_smsPDU := None\<rparr>"

text \<open>The result of \<^verbatim>\<open>pthread_create\<close> is a parameter: 0, or an error number, which is positive.\<close>

definition at_open :: "int \<Rightarrow> int \<Rightarrow> bool \<Rightarrow> at_channel \<Rightarrow> int \<times> at_channel" where
  "at_open create fd h st =
     (if create < 0 then - 1 else 0,
      st\<lparr>s_fd := fd, s_unsolHandler := h, s_readerClosed := False, s_responsePrefix := None, s_smsPDU := None,
         sp_response := None\<rparr>)"

definition at_close :: "at_channel \<Rightarrow> at_channel" where
  "at_close st =
     (let st = (if s_fd st \<ge> 0 then at_out (CloseFd (s_fd st)) st else st)
      in st\<lparr>s_fd := - 1, s_readerClosed := True\<rparr>)"

section \<open>Sending a command\<close>

fun reverse_loop :: "string list \<Rightarrow> string list \<Rightarrow> string list" where
  "reverse_loop [] done = done"
| "reverse_loop (pcur # pnext) done = reverse_loop pnext (pcur # done)"

definition reverseIntermediates :: "ATResponse \<Rightarrow> ATResponse" where
  "reverseIntermediates r = r\<lparr>p_intermediates := reverse_loop (p_intermediates r) []\<rparr>"

record at_command =
  command :: string
  cmd_type :: ATCommandType
  cmd_prefix :: "string option"
  cmd_pdu :: "string option"
  timeoutMsec :: nat
  wants_response :: bool

text \<open>
  \<^verbatim>\<open>at_send_command_full_nolock\<close> in three parts: up to the wait, the test of the loop that waits, and after it.
  A negative result of the first part is the error that it returns.
\<close>

definition send_begin :: "at_command \<Rightarrow> at_channel \<Rightarrow> int \<times> at_channel" where
  "send_begin c st =
     (if sp_response st \<noteq> None then (AT_ERROR_COMMAND_PENDING, clearPendingCommand st)
      else case writeline (command c) st of (err, st) \<Rightarrow>
        if err < 0 then (err, clearPendingCommand st)
        else (0, st\<lparr>s_type := cmd_type c, s_responsePrefix := cmd_prefix c, s_smsPDU := cmd_pdu c,
                    sp_response := Some at_response_new\<rparr>))"

definition wait_over :: "at_channel \<Rightarrow> bool res" where
  "wait_over st =
     (case sp_response st of None \<Rightarrow> Inl NullDeref | Some r \<Rightarrow> Inr (finalResponse r \<noteq> None \<or> s_readerClosed st))"

definition send_timeout :: "at_channel \<Rightarrow> int \<times> ATResponse option \<times> at_channel" where
  "send_timeout st = (AT_ERROR_TIMEOUT, None, clearPendingCommand st)"

definition send_finish :: "at_command \<Rightarrow> at_channel \<Rightarrow> (int \<times> ATResponse option \<times> at_channel) res" where
  "send_finish c st =
     (case sp_response st of
        None \<Rightarrow> if wants_response c then Inl NullDeref
                else Inr (if s_readerClosed st then AT_ERROR_CHANNEL_CLOSED else 0, None, clearPendingCommand st)
      | Some r \<Rightarrow>
          Inr (if s_readerClosed st then AT_ERROR_CHANNEL_CLOSED else 0,
               if wants_response c then Some (reverseIntermediates r) else None,
               clearPendingCommand (st\<lparr>sp_response := None\<rparr>)))"

text \<open>
  A wait is what the reader thread does while the mutex is free, and how the wait returns. It may return
  for no reason. Only a wait with a time limit times out.
\<close>

datatype wait_return = Woken | TimedOut

type_synonym waits = "(reader_event list \<times> wait_return) list"

text \<open>\<open>None\<close>: the command waits longer than the list.\<close>

fun send_wait :: "at_command \<Rightarrow> waits \<Rightarrow> at_channel \<Rightarrow> (int \<times> ATResponse option \<times> at_channel \<times> waits) option res" where
  "send_wait c ws st =
     bindR (wait_over st) (\<lambda>over.
       if over
       then bindR (send_finish c st) (\<lambda>(err, out, st). Inr (Some (err, out, st, ws)))
       else case ws of
         [] \<Rightarrow> Inr None
       | (evs, ret) # ws \<Rightarrow>
           bindR (forR reader_act evs st) (\<lambda>st.
             if ret = TimedOut \<and> timeoutMsec c \<noteq> 0
             then (case send_timeout st of (err, out, st) \<Rightarrow> Inr (Some (err, out, st, ws)))
             else send_wait c ws st))"

declare send_wait.simps [simp del]

definition at_send_command_full_nolock ::
  "at_command \<Rightarrow> waits \<Rightarrow> at_channel \<Rightarrow> (int \<times> ATResponse option \<times> at_channel \<times> waits) option res" where
  "at_send_command_full_nolock c ws st =
     (case send_begin c st of (err, st) \<Rightarrow>
        if err < 0 then Inr (Some (err, None, st, ws)) else send_wait c ws st)"

definition at_send_command_full ::
  "bool \<Rightarrow> at_command \<Rightarrow> waits \<Rightarrow> at_channel \<Rightarrow> (int \<times> ATResponse option \<times> at_channel \<times> waits) option res" where
  "at_send_command_full on_reader c ws st =
     (if on_reader then Inr (Some (AT_ERROR_INVALID_THREAD, None, st, ws))
      else bindR (at_send_command_full_nolock c ws st) (\<lambda>r. Inr (map_option (\<lambda>(err, out, st, ws).
        (err, out, if err = AT_ERROR_TIMEOUT \<and> s_onTimeout st then at_out TimeoutCall st else st, ws)) r)))"

text \<open>The check of the callers that need an intermediate line.\<close>

definition need_intermediate ::
  "(int \<times> ATResponse option \<times> at_channel \<times> waits) option res \<Rightarrow> (int \<times> ATResponse option \<times> at_channel \<times> waits) option res" where
  "need_intermediate r =
     bindR r (\<lambda>r. Inr (map_option (\<lambda>(err, out, st, ws).
       case out of
         Some p \<Rightarrow> if err = 0 \<and> success p > 0 \<and> p_intermediates p = []
                   then (AT_ERROR_INVALID_RESPONSE, None, st, ws) else (err, out, st, ws)
       | None \<Rightarrow> (err, out, st, ws)) r))"

definition at_send_command where
  "at_send_command on_reader cmd wanted =
     at_send_command_full on_reader \<lparr>command = cmd, cmd_type = NO_RESULT, cmd_prefix = None, cmd_pdu = None,
       timeoutMsec = 0, wants_response = wanted\<rparr>"

definition at_send_command_singleline where
  "at_send_command_singleline on_reader cmd responsePrefix wanted ws st =
     need_intermediate (at_send_command_full on_reader \<lparr>command = cmd, cmd_type = SINGLELINE,
       cmd_prefix = Some responsePrefix, cmd_pdu = None, timeoutMsec = 0, wants_response = wanted\<rparr> ws st)"

definition at_send_command_numeric where
  "at_send_command_numeric on_reader cmd wanted ws st =
     need_intermediate (at_send_command_full on_reader \<lparr>command = cmd, cmd_type = NUMERIC,
       cmd_prefix = None, cmd_pdu = None, timeoutMsec = 0, wants_response = wanted\<rparr> ws st)"

definition at_send_command_sms where
  "at_send_command_sms on_reader cmd pdu responsePrefix wanted ws st =
     need_intermediate (at_send_command_full on_reader \<lparr>command = cmd, cmd_type = SINGLELINE,
       cmd_prefix = Some responsePrefix, cmd_pdu = Some pdu, timeoutMsec = 0, wants_response = wanted\<rparr> ws st)"

definition at_send_command_multiline where
  "at_send_command_multiline on_reader cmd responsePrefix wanted =
     at_send_command_full on_reader \<lparr>command = cmd, cmd_type = MULTILINE,
       cmd_prefix = Some responsePrefix, cmd_pdu = None, timeoutMsec = 0, wants_response = wanted\<rparr>"

definition at_set_on_timeout :: "bool \<Rightarrow> at_channel \<Rightarrow> at_channel" where
  "at_set_on_timeout h st = st\<lparr>s_onTimeout := h\<rparr>"

definition at_set_on_reader_closed :: "bool \<Rightarrow> at_channel \<Rightarrow> at_channel" where
  "at_set_on_reader_closed h st = st\<lparr>s_onReaderClosed := h\<rparr>"

text \<open>The rounds of \<^verbatim>\<open>at_handshake\<close>: the number that is left and the error of the last.\<close>

definition handshake_command :: at_command where
  "handshake_command = \<lparr>command = ''ATE0Q0V1'', cmd_type = NO_RESULT, cmd_prefix = None, cmd_pdu = None,
     timeoutMsec = HANDSHAKE_TIMEOUT_MSEC, wants_response = False\<rparr>"

fun handshake_loop :: "nat \<Rightarrow> int \<Rightarrow> waits \<Rightarrow> at_channel \<Rightarrow> (int \<times> at_channel \<times> waits) option res" where
  "handshake_loop 0 err ws st = Inr (Some (err, st, ws))"
| "handshake_loop (Suc n) err ws st =
     bindR (at_send_command_full_nolock handshake_command ws st) (\<lambda>r.
       case r of
         None \<Rightarrow> Inr None
       | Some (err, _, st, ws) \<Rightarrow> if err = 0 then Inr (Some (err, st, ws)) else handshake_loop n err ws st)"

definition at_handshake :: "bool \<Rightarrow> waits \<Rightarrow> at_channel \<Rightarrow> (int \<times> at_channel \<times> waits) option res" where
  "at_handshake on_reader ws st =
     (if on_reader then Inr (Some (AT_ERROR_INVALID_THREAD, st, ws))
      else bindR (handshake_loop HANDSHAKE_RETRY_COUNT 0 ws st) (\<lambda>r. Inr (map_option (\<lambda>(err, st, ws).
        (err, if err = 0 then at_out (Pause HANDSHAKE_TIMEOUT_MSEC) st else st, ws)) r)))"

abbreviation CME_ERROR_NON_CME :: int where "CME_ERROR_NON_CME \<equiv> - 1"

text \<open>The result 0 is \<^verbatim>\<open>CME_SUCCESS\<close>.\<close>

definition at_get_cme_error :: "ATResponse \<Rightarrow> int" where
  "at_get_cme_error r =
     (if success r > 0 then 0
      else case finalResponse r of
        None \<Rightarrow> CME_ERROR_NON_CME
      | Some line \<Rightarrow>
          if \<not> strStartsWith line ''+CME ERROR:'' then CME_ERROR_NON_CME
          else case at_tok_start (Some line) of (err, p_cur) \<Rightarrow>
            if err < 0 then CME_ERROR_NON_CME
            else case at_tok_nextint p_cur 0 of (err, _, ret) \<Rightarrow>
              if err < 0 then CME_ERROR_NON_CME else ret)"

end
