(* ===== verification/RIL_Commands.thy ===== *)
theory RIL_Commands
  imports RIL_Channel
begin

text \<open>
  What a command on the AT channel comes to: which lines make its response and which go to the handler of
  unsolicited ones, the bytes that are sent, and what happens at the edges of the wait.
\<close>

section \<open>Writing\<close>

lemma write_all_whole: "WriteFailed \<notin> set ws \<Longrightarrow>
  \<exists>ws'. write_all s ws = (True, s, ws') \<and> WriteFailed \<notin> set ws'"
proof (induction s ws rule: write_all.induct)
  case (5 c s n ws)
  then obtain ws' where "write_all (drop n (c # s)) ws = (True, drop n (c # s), ws')" "WriteFailed \<notin> set ws'" by auto
  then show ?case using append_take_drop_id[of n "c # s"] by simp
qed auto

lemma write_last_whole: "WriteFailed \<notin> set ws \<Longrightarrow>
  \<exists>ws'. write_last c ws = (True, [c], ws') \<and> WriteFailed \<notin> set ws'"
  by (induction c ws rule: write_last.induct) auto

text \<open>A channel that is open and whose writes do not fail.\<close>

definition can_write :: "at_channel \<Rightarrow> bool" where
  "can_write st \<longleftrightarrow> 0 \<le> s_fd st \<and> \<not> s_readerClosed st \<and> WriteFailed \<notin> set (at_writes st)"

lemma write_with_end_whole:
  "can_write st \<Longrightarrow> \<exists>ws. write_with_end c s st = (0, st\<lparr>at_writes := ws, at_outs := at_outs st @ [ToModem (s @ [c])]\<rparr>) \<and>
     WriteFailed \<notin> set ws"
proof -
  assume st: "can_write st"
  then obtain ws where w: "write_all s (at_writes st) = (True, s, ws)" "WriteFailed \<notin> set ws"
    using write_all_whole by (fastforce simp: can_write_def)
  then obtain ws' where "write_last c ws = (True, [c], ws')" "WriteFailed \<notin> set ws'" using write_last_whole by blast
  then show ?thesis using st w(1) by (auto simp: write_with_end_def can_write_def at_out_def)
qed

section \<open>Lines of a response\<close>

definition line_pred :: "ATCommandType \<Rightarrow> string option \<Rightarrow> string \<Rightarrow> bool" where
  "line_pred ty pfx l =
     (case ty of NO_RESULT \<Rightarrow> False | NUMERIC \<Rightarrow> l \<noteq> [] \<and> isdigit (hd l) | _ \<Rightarrow> prefix (the pfx) l)"

definition one_line :: "ATCommandType \<Rightarrow> bool" where
  "one_line ty \<longleftrightarrow> ty = NUMERIC \<or> ty = SINGLELINE"

text \<open>The lines of a response, and the others.\<close>

definition response_lines :: "ATCommandType \<Rightarrow> string option \<Rightarrow> string list \<Rightarrow> string list" where
  "response_lines ty pfx ls = (if one_line ty then take 1 (filter (line_pred ty pfx) ls) else filter (line_pred ty pfx) ls)"

definition other_lines :: "ATCommandType \<Rightarrow> string option \<Rightarrow> string list \<Rightarrow> string list" where
  "other_lines ty pfx ls =
     (if one_line ty then takeWhile (\<lambda>l. \<not> line_pred ty pfx l) ls @ drop 1 (dropWhile (\<lambda>l. \<not> line_pred ty pfx l) ls)
      else filter (\<lambda>l. \<not> line_pred ty pfx l) ls)"

definition prefix_given :: "ATCommandType \<Rightarrow> string option \<Rightarrow> bool" where
  "prefix_given ty pfx \<longleftrightarrow> (ty = SINGLELINE \<or> ty = MULTILINE \<longrightarrow> pfx \<noteq> None)"

text \<open>A channel on which a command waits, without the prompt of an SMS.\<close>

definition waiting_for :: "ATCommandType \<Rightarrow> string option \<Rightarrow> at_channel \<Rightarrow> bool" where
  "waiting_for ty pfx st \<longleftrightarrow> s_type st = ty \<and> s_responsePrefix st = pfx \<and> prefix_given ty pfx \<and> s_smsPDU st = None \<and> s_unsolHandler st"

definition with_lines :: "ATResponse \<Rightarrow> string list \<Rightarrow> string list \<Rightarrow> at_channel \<Rightarrow> at_channel" where
  "with_lines r kept others st =
     st\<lparr>sp_response := Some (r\<lparr>p_intermediates := kept\<rparr>), at_outs := at_outs st @ map (\<lambda>l. Unsolicited l None) others\<rparr>"

lemma waiting_with_lines [chan_simps]: "waiting_for ty pfx (with_lines r kept others st) \<longleftrightarrow> waiting_for ty pfx st"
  by (simp add: waiting_for_def with_lines_def)

lemma with_lines_response [chan_simps]:
  "sp_response (with_lines r kept others st) = Some (r\<lparr>p_intermediates := kept\<rparr>)"
  by (simp add: with_lines_def)

lemma with_lines_twice [chan_simps]:
  "with_lines (r\<lparr>p_intermediates := i\<rparr>) kept o2 (with_lines r' i' o1 st) = with_lines r kept (o1 @ o2) st"
  by (simp add: with_lines_def)

lemma with_lines_nothing: "sp_response st = Some r \<Longrightarrow> with_lines r (p_intermediates r) [] st = st"
  by (simp add: with_lines_def)

text \<open>The same response, one wait later.\<close>

lemma with_lines_next [chan_simps]:
  "with_lines r k2 o2 (with_lines r k1 o1 st) = with_lines r k2 (o1 @ o2) st"
  by (simp add: with_lines_def)

lemma reader_act_line [chan_simps]: "reader_act (GotLine l) = processLine l"
  by (simp add: fun_eq_iff reader_act_def)

lemma process_ordinary:
  assumes "sp_response st = Some r" and "waiting_for ty pfx st" and "\<not> isFinalResponse l"
  shows "processLine l st = Inr
    (if line_pred ty pfx l \<and> (one_line ty \<longrightarrow> p_intermediates r = []) then with_lines r (l # p_intermediates r) [] st
     else with_lines r (p_intermediates r) [l] st)"
  using assms
  by (cases ty) (auto simp: processLine_def waiting_for_def prefix_given_def isFinalResponse_def line_pred_def one_line_def
      with_lines_def has_prefix_def add_or_unsolicited_def set_response_def addIntermediate_def handleUnsolicited_def
      at_out_def tok_simps)

lemma process_full:
  assumes "sp_response st = Some r" and "waiting_for ty pfx st" and "\<forall>l\<in>set ls. \<not> isFinalResponse l"
    and "one_line ty" and "p_intermediates r \<noteq> []"
  shows "forR reader_act (map GotLine ls) st = Inr (with_lines r (p_intermediates r) ls st)"
  using assms
proof (induction ls arbitrary: st r)
  case Nil
  then show ?case by (simp add: with_lines_nothing)
next
  case (Cons l ls)
  let ?st = "with_lines r (p_intermediates r) [l] st"
  have "forR reader_act (map GotLine ls) ?st = Inr (with_lines r (p_intermediates r) ls ?st)"
    using Cons.IH[of ?st r] Cons.prems by (simp add: chan_simps)
  then show ?case
    using process_ordinary[OF Cons.prems(1,2), of l] Cons.prems(3-5) by (simp add: reader_act_line chan_simps)
qed

lemma process_lines:
  assumes "sp_response st = Some r" and "waiting_for ty pfx st" and "\<forall>l\<in>set ls. \<not> isFinalResponse l"
    and "one_line ty \<longrightarrow> p_intermediates r = []"
  shows "forR reader_act (map GotLine ls) st =
    Inr (with_lines r (rev (response_lines ty pfx ls) @ p_intermediates r) (other_lines ty pfx ls) st)"
  using assms
proof (induction ls arbitrary: st r)
  case Nil
  then show ?case using with_lines_nothing[OF Nil(1)] by (cases "one_line ty") (simp_all add: response_lines_def other_lines_def)
next
  case (Cons l ls)
  note p = process_ordinary[OF Cons.prems(1,2), of l]
  show ?case
  proof (cases "line_pred ty pfx l")
    case False
    let ?st = "with_lines r (p_intermediates r) [l] st"
    have "forR reader_act (map GotLine ls) ?st =
        Inr (with_lines r (rev (response_lines ty pfx ls) @ p_intermediates r) (other_lines ty pfx ls) ?st)"
      using Cons.IH[of ?st r] Cons.prems by (simp add: chan_simps)
    moreover have "response_lines ty pfx (l # ls) = response_lines ty pfx ls"
      "other_lines ty pfx (l # ls) = l # other_lines ty pfx ls"
      using False by (simp_all add: response_lines_def other_lines_def)
    ultimately show ?thesis
      using p False Cons.prems(3) by (simp add: reader_act_line chan_simps)
  next
    case True
    let ?i = "l # p_intermediates r"
    let ?st = "with_lines r ?i [] st"
    have p1: "processLine l st = Inr ?st" using p True Cons.prems(3,4) by simp
    show ?thesis
    proof (cases "one_line ty")
      case one: True
      have "forR reader_act (map GotLine ls) ?st = Inr (with_lines (r\<lparr>p_intermediates := ?i\<rparr>) ?i ls ?st)"
        using process_full[of ?st "r\<lparr>p_intermediates := ?i\<rparr>" ty pfx ls] Cons.prems(2,3) one by (simp add: chan_simps)
      moreover have "response_lines ty pfx (l # ls) = [l]" "other_lines ty pfx (l # ls) = ls"
        using True one by (simp_all add: response_lines_def other_lines_def)
      ultimately show ?thesis using p1 by (simp add: reader_act_line chan_simps)
    next
      case False
      have "forR reader_act (map GotLine ls) ?st =
          Inr (with_lines (r\<lparr>p_intermediates := ?i\<rparr>) (rev (response_lines ty pfx ls) @ ?i) (other_lines ty pfx ls) ?st)"
        using Cons.IH[of ?st "r\<lparr>p_intermediates := ?i\<rparr>"] Cons.prems(2,3) False by (simp add: chan_simps)
      moreover have "response_lines ty pfx (l # ls) = l # response_lines ty pfx ls"
        "other_lines ty pfx (l # ls) = other_lines ty pfx ls"
        using True False by (simp_all add: response_lines_def other_lines_def)
      ultimately show ?thesis using p1 by (simp add: reader_act_line chan_simps)
    qed
  qed
qed

section \<open>A command and its response\<close>

lemma reverse_loop_rev: "reverse_loop xs acc = rev xs @ acc"
  by (induction xs acc rule: reverse_loop.induct) simp_all

definition got_lines :: "string list \<Rightarrow> reader_event list \<times> wait_return" where
  "got_lines ls = (map GotLine ls, Woken)"

lemma wait_ordinary:
  assumes "sp_response st = Some r" and "finalResponse r = None" and "\<not> s_readerClosed st" and "waiting_for (cmd_type c) (cmd_prefix c) st"
    and "\<forall>l\<in>set ls. \<not> isFinalResponse l" and "one_line (cmd_type c) \<longrightarrow> p_intermediates r = []"
  shows "send_wait c (got_lines ls # ws) st =
    send_wait c ws (with_lines r (rev (response_lines (cmd_type c) (cmd_prefix c) ls) @ p_intermediates r)
      (other_lines (cmd_type c) (cmd_prefix c) ls) st)"
  using assms process_lines[OF assms(1,4,5,6)]
  by (subst send_wait.simps) (simp add: wait_over_def got_lines_def)

lemma process_final:
  assumes "sp_response st = Some r" and "isFinalResponse f"
  shows "processLine f st =
    Inr (set_response (r\<lparr>success := (if isFinalResponseSuccess f then 1 else 0), finalResponse := Some f\<rparr>) st)"
  using assms by (auto simp: processLine_def handleFinalResponse_def isFinalResponse_def)

text \<open>The wait that sees the final line, after the lines \<open>ls\<close>.\<close>

lemma wait_final:
  assumes "sp_response st = Some r" and "finalResponse r = None" and "\<not> s_readerClosed st" and "waiting_for (cmd_type c) (cmd_prefix c) st"
    and "\<forall>l\<in>set ls. \<not> isFinalResponse l" and "one_line (cmd_type c) \<longrightarrow> p_intermediates r = []" and "isFinalResponse f"
  shows "\<exists>st'. send_wait c [got_lines (ls @ [f])] st =
      Inr (Some (0, if wants_response c
         then Some \<lparr>success = (if isFinalResponseSuccess f then 1 else 0), finalResponse = Some f,
                    p_intermediates = rev (p_intermediates r) @ response_lines (cmd_type c) (cmd_prefix c) ls\<rparr> else None, st', [])) \<and>
    at_outs st' = at_outs st @ map (\<lambda>l. Unsolicited l None) (other_lines (cmd_type c) (cmd_prefix c) ls) \<and>
    sp_response st' = None \<and> s_readerClosed st' = s_readerClosed st \<and> s_fd st' = s_fd st"
proof -
  define st1 where "st1 = with_lines r (rev (response_lines (cmd_type c) (cmd_prefix c) ls) @ p_intermediates r)
      (other_lines (cmd_type c) (cmd_prefix c) ls) st"
  define r1 where "r1 = r\<lparr>p_intermediates := rev (response_lines (cmd_type c) (cmd_prefix c) ls) @ p_intermediates r\<rparr>"
  define r2 where "r2 = r1\<lparr>success := (if isFinalResponseSuccess f then 1 else 0), finalResponse := Some f\<rparr>"
  have 1: "sp_response st1 = Some r1" by (simp add: st1_def r1_def chan_simps)
  have "forR reader_act (map GotLine (ls @ [f])) st = Inr (set_response r2 st1)"
    using process_lines[OF assms(1,4,5,6)] process_final[OF 1 assms(7)]
    by (simp add: forR_append st1_def[symmetric] reader_act_line r2_def)
  then have run: "send_wait c [got_lines (ls @ [f])] st = send_wait c [] (set_response r2 st1)"
    using assms(1-3) by (subst send_wait.simps) (simp add: wait_over_def got_lines_def)
  let ?st' = "clearPendingCommand ((set_response r2 st1)\<lparr>sp_response := None\<rparr>)"
  have "send_wait c [] (set_response r2 st1) =
      Inr (Some (0, if wants_response c then Some (reverseIntermediates r2) else None, ?st', []))"
    using assms(3) by (subst send_wait.simps) (simp add: wait_over_def send_finish_def set_response_def r2_def st1_def with_lines_def)
  moreover have "reverseIntermediates r2 = \<lparr>success = (if isFinalResponseSuccess f then 1 else 0), finalResponse = Some f,
      p_intermediates = rev (p_intermediates r) @ response_lines (cmd_type c) (cmd_prefix c) ls\<rparr>"
    by (simp add: reverseIntermediates_def reverse_loop_rev r2_def r1_def)
  ultimately show ?thesis using run by (simp add: clearPendingCommand_def set_response_def st1_def with_lines_def)
qed

text \<open>A command that waits; lines that are not final do not end the wait.\<close>

definition command_waits :: "at_command \<Rightarrow> at_channel \<Rightarrow> bool" where
  "command_waits c st \<longleftrightarrow> \<not> s_readerClosed st \<and> waiting_for (cmd_type c) (cmd_prefix c) st \<and>
     (\<exists>r. sp_response st = Some r \<and> finalResponse r = None)"

lemma lines_keep_waiting:
  "command_waits c st \<Longrightarrow> \<forall>l\<in>set ls. \<not> isFinalResponse l \<Longrightarrow>
   \<exists>st'. forR reader_act (map GotLine ls) st = Inr st' \<and> command_waits c st'"
proof (induction ls arbitrary: st)
  case (Cons l ls)
  then obtain r where r: "sp_response st = Some r" "finalResponse r = None" by (auto simp: command_waits_def)
  obtain kept others where p: "processLine l st = Inr (with_lines r kept others st)"
    using process_ordinary[OF r(1), of "cmd_type c" "cmd_prefix c" l] Cons.prems by (auto simp: command_waits_def split: if_splits)
  have "command_waits c (with_lines r kept others st)"
    using Cons.prems(1) r by (auto simp: command_waits_def chan_simps) (simp_all add: with_lines_def)
  then show ?case using Cons.IH Cons.prems(2) p by (simp add: chan_simps)
qed simp

lemma waits_merge:
  assumes "command_waits c st" and "\<forall>l\<in>set (concat lss). \<not> isFinalResponse l"
  shows "send_wait c (map got_lines lss @ [got_lines xs]) st = send_wait c [got_lines (concat lss @ xs)] st"
  using assms
proof (induction lss arbitrary: st)
  case (Cons a lss)
  then obtain st1 where st1: "forR reader_act (map GotLine a) st = Inr st1" "command_waits c st1"
    using lines_keep_waiting[OF Cons.prems(1), of a] by auto
  have on: "wait_over st = Inr False" "wait_over st1 = Inr False"
    using Cons.prems(1) st1(2) by (auto simp: command_waits_def wait_over_def)
  have "send_wait c (map got_lines (a # lss) @ [got_lines xs]) st = send_wait c (map got_lines lss @ [got_lines xs]) st1"
    using st1(1) on by (subst send_wait.simps) (simp add: got_lines_def)
  also have "\<dots> = send_wait c [got_lines (concat lss @ xs)] st1" using Cons.IH[OF st1(2)] Cons.prems(2) by simp
  also have "\<dots> = send_wait c [got_lines (concat (a # lss) @ xs)] st"
    using st1(1) on by (subst (1 2) send_wait.simps) (simp add: got_lines_def forR_append)
  finally show ?case .
qed simp

text \<open>The start of a command on a free channel.\<close>

lemma begin_sent:
  assumes "sp_response st = None" and "can_write st"
  shows "\<exists>ws. send_begin c st = (0, st\<lparr>at_writes := ws, at_outs := at_outs st @ [ToModem (command c @ [CHR 0x0D])],
     s_type := cmd_type c, s_responsePrefix := cmd_prefix c, s_smsPDU := cmd_pdu c, sp_response := Some at_response_new\<rparr>) \<and>
     WriteFailed \<notin> set ws"
  using write_with_end_whole[OF assms(2), of "CHR 0x0D" "command c"] assms(1)
  by (auto simp: send_begin_def writeline_def)

definition ready :: "at_channel \<Rightarrow> bool" where
  "ready st \<longleftrightarrow> sp_response st = None \<and> s_unsolHandler st \<and> can_write st"

definition response_of :: "at_command \<Rightarrow> string list \<Rightarrow> string \<Rightarrow> ATResponse" where
  "response_of c ls f = \<lparr>success = (if isFinalResponseSuccess f then 1 else 0), finalResponse = Some f,
     p_intermediates = response_lines (cmd_type c) (cmd_prefix c) ls\<rparr>"

definition unsolicited_of :: "at_command \<Rightarrow> string list \<Rightarrow> at_out list" where
  "unsolicited_of c ls = map (\<lambda>l. Unsolicited l None) (other_lines (cmd_type c) (cmd_prefix c) ls)"

lemma nolock_answered:
  assumes "ready st" and "prefix_given (cmd_type c) (cmd_prefix c)" and "cmd_pdu c = None"
    and "\<forall>l\<in>set (concat lss @ ls). \<not> isFinalResponse l" and "isFinalResponse f"
  shows "\<exists>st'. at_send_command_full_nolock c (map got_lines lss @ [got_lines (ls @ [f])]) st =
      Inr (Some (0, if wants_response c then Some (response_of c (concat lss @ ls) f) else None, st', [])) \<and>
    at_outs st' = at_outs st @ ToModem (command c @ [CHR 0x0D]) # unsolicited_of c (concat lss @ ls) \<and> sp_response st' = None"
proof -
  from begin_sent[of st c] assms(1) obtain st1 where st1: "send_begin c st = (0, st1)" "command_waits c st1"
    "sp_response st1 = Some at_response_new" "at_outs st1 = at_outs st @ [ToModem (command c @ [CHR 0x0D])]"
    using assms(2,3) by (fastforce simp: ready_def command_waits_def waiting_for_def can_write_def at_response_new_def)
  have "send_wait c (map got_lines lss @ [got_lines (ls @ [f])]) st1 = send_wait c [got_lines ((concat lss @ ls) @ [f])] st1"
    using waits_merge[OF st1(2), of lss "ls @ [f]"] assms(4) by simp
  then have "at_send_command_full_nolock c (map got_lines lss @ [got_lines (ls @ [f])]) st = send_wait c [got_lines ((concat lss @ ls) @ [f])] st1"
    by (simp add: at_send_command_full_nolock_def st1(1))
  moreover from wait_final[OF st1(3), of c "concat lss @ ls" f] st1(2) assms(4,5) obtain st' where
    "send_wait c [got_lines ((concat lss @ ls) @ [f])] st1 =
      Inr (Some (0, if wants_response c then Some (response_of c (concat lss @ ls) f) else None, st', []))"
    "at_outs st' = at_outs st1 @ unsolicited_of c (concat lss @ ls)" "sp_response st' = None"
    by (fastforce simp: at_response_new_def command_waits_def response_of_def unsolicited_of_def)
  ultimately show ?thesis using st1(4) by simp
qed

lemma full_of_nolock:
  "at_send_command_full_nolock c ws st = Inr (Some (err, out, st', ws')) \<Longrightarrow> err \<noteq> AT_ERROR_TIMEOUT \<Longrightarrow>
   at_send_command_full False c ws st = Inr (Some (err, out, st', ws'))"
  by (simp add: at_send_command_full_def)

text \<open>
  C11: on a free channel a command is sent with its carriage return, and its response is the final line with
  the lines that its type expects, in the order in which they came (the first one for a command with one
  line, all of them for one with several); every other line goes to the handler, in order, and
  however often the wait returns in between makes no difference.
\<close>

theorem command_answered:
  assumes "ready st" and "prefix_given (cmd_type c) (cmd_prefix c)" and "cmd_pdu c = None" and "wants_response c"
    and "\<forall>l\<in>set (concat lss @ ls). \<not> isFinalResponse l" and "isFinalResponse f"
  shows "\<exists>st'. at_send_command_full False c (map got_lines lss @ [got_lines (ls @ [f])]) st =
      Inr (Some (0, Some (response_of c (concat lss @ ls) f), st', [])) \<and>
    at_outs st' = at_outs st @ ToModem (command c @ [CHR 0x0D]) # unsolicited_of c (concat lss @ ls) \<and> sp_response st' = None"
  using nolock_answered[OF assms(1,2,3,5,6)] full_of_nolock assms(4) by fastforce

definition demo_channel :: at_channel where
  "demo_channel = \<lparr>s_fd = 7, s_readerClosed = False, s_type = NO_RESULT, s_responsePrefix = None, s_smsPDU = None,
     sp_response = None, s_unsolHandler = True, s_onTimeout = True, s_onReaderClosed = True, at_outs = [],
     at_writes = [Wrote 3, WriteInterrupted, Wrote 0]\<rparr>"

definition demo_command :: at_command where
  "demo_command = \<lparr>command = ''AT+CLCC'', cmd_type = MULTILINE, cmd_prefix = Some ''+CLCC:'', cmd_pdu = None,
     timeoutMsec = 0, wants_response = True\<rparr>"

lemma demo_ready: "ready demo_channel"
  by (simp add: ready_def demo_channel_def can_write_def)

lemmas final_defs = isFinalResponse_def isFinalResponseSuccess_def isFinalResponseError_def
  s_finalResponsesSuccess_def s_finalResponsesError_def

theorem command_answered_witness:
  "\<exists>st'. at_send_command_full False demo_command
      [got_lines [''+CLCC: 1'', ''RING''], got_lines [], got_lines [''+CLCC: 2'', ''OK'']] demo_channel =
    Inr (Some (0, Some \<lparr>success = 1, finalResponse = Some ''OK'', p_intermediates = [''+CLCC: 1'', ''+CLCC: 2'']\<rparr>, st', [])) \<and>
    at_outs st' = [ToModem (''AT+CLCC'' @ [CHR 0x0D]), Unsolicited ''RING'' None]"
  using command_answered[OF demo_ready, of demo_command "[[''+CLCC: 1'', ''RING''], []]" "[''+CLCC: 2'']" "''OK''"]
  by (auto simp: demo_command_def prefix_given_def final_defs response_of_def unsolicited_of_def response_lines_def
      other_lines_def one_line_def line_pred_def demo_channel_def)

section \<open>From the bytes of the modem to the response\<close>

lemma group_plain: "\<forall>l\<in>set ls. \<not> isSMSUnsolicited l \<Longrightarrow> group_lines ls = map GotLine ls @ [ReaderEnds]"
  by (induction ls rule: group_lines.induct) simp_all

text \<open>
  C13: a command gets the response that the modem has sent, however the bytes were cut into reads: the reader
  thread turns them into lines and the lines make up the response.
\<close>

theorem modem_answers:
  assumes "clean rs" and "stream rs = sent_text sent @ t" and "\<forall>l\<in>set sent. sent_ok l" and "unfinished t" and "length sent < n"
    and "map (fst \<circ> snd) sent = ls @ [f]" and "\<forall>l\<in>set (ls @ [f]). \<not> isSMSUnsolicited l"
    and "\<forall>l\<in>set ls. \<not> isFinalResponse l" and "isFinalResponse f"
    and "ready st" and "prefix_given (cmd_type c) (cmd_prefix c)" and "cmd_pdu c = None" and "wants_response c"
  shows "\<exists>evs st'. reader_events n reader_start rs = Inr (evs @ [ReaderEnds]) \<and>
    at_send_command_full False c [(evs, Woken)] st = Inr (Some (0, Some (response_of c ls f), st', []))"
proof -
  have "reader_events n reader_start rs = Inr (map GotLine (ls @ [f]) @ [ReaderEnds])"
    using events_sent[OF holds_start assms(1) _ assms(3-5)] assms(2,6) group_plain[OF assms(7)] by simp
  moreover have "\<exists>st'. at_send_command_full False c [got_lines (ls @ [f])] st = Inr (Some (0, Some (response_of c ls f), st', []))"
    using nolock_answered[OF assms(10-12), of "[]" ls f] full_of_nolock assms(8,9,13) by fastforce
  ultimately show ?thesis unfolding got_lines_def by blast
qed

theorem modem_answers_witness:
  "\<exists>evs st'. reader_events 3 reader_start
      [Bytes (''+CSQ: 1'' @ [CHR 0x0D]), Bytes (CHR 0x0A # ''ER''), Bytes (''ROR'' @ [CHR 0x0D])] = Inr (evs @ [ReaderEnds]) \<and>
    at_send_command_full False (demo_command\<lparr>cmd_prefix := Some ''+CSQ:''\<rparr>) [(evs, Woken)] demo_channel =
      Inr (Some (0, Some \<lparr>success = 0, finalResponse = Some ''ERROR'', p_intermediates = [''+CSQ: 1'']\<rparr>, st', []))"
proof -
  let ?rs = "[Bytes (''+CSQ: 1'' @ [CHR 0x0D]), Bytes (CHR 0x0A # ''ER''), Bytes (''ROR'' @ [CHR 0x0D])]"
  let ?sent = "[([], ''+CSQ: 1'', CHR 0x0D), ([CHR 0x0A], ''ERROR'', CHR 0x0D)] :: sent_line list"
  let ?c = "demo_command\<lparr>cmd_prefix := Some ''+CSQ:''\<rparr>"
  have 1: "clean ?rs" "stream ?rs = sent_text ?sent @ []" by (simp_all add: line_simps)
  have 2: "\<forall>l\<in>set ?sent. sent_ok l" by (simp add: sent_ok_def line_ok_def newlines_def plain_def is_newline_def)
  have 3: "unfinished []" unfolding unfinished_def by (rule exI[of _ "[]"], rule exI[of _ "[]"]) (simp add: line_simps)
  have 4: "map (fst \<circ> snd) ?sent = [''+CSQ: 1''] @ [''ERROR'']" "length ?sent < 3" by simp_all
  have 5: "prefix_given (cmd_type ?c) (cmd_prefix ?c)" "cmd_pdu ?c = None" "wants_response ?c"
    by (simp_all add: demo_command_def prefix_given_def)
  have 6: "\<forall>l\<in>set ([''+CSQ: 1''] @ [''ERROR'']). \<not> isSMSUnsolicited l" by (simp add: isSMSUnsolicited_def s_smsUnsoliciteds_def)
  have 7: "\<forall>l\<in>set [''+CSQ: 1'']. \<not> isFinalResponse l" "isFinalResponse ''ERROR''" by (simp_all add: final_defs)
  have "response_of ?c [''+CSQ: 1''] ''ERROR'' = \<lparr>success = 0, finalResponse = Some ''ERROR'', p_intermediates = [''+CSQ: 1'']\<rparr>"
    by (simp add: response_of_def response_lines_def one_line_def line_pred_def demo_command_def final_defs)
  then show ?thesis using modem_answers[OF 1 2 3 4(2,1) 6 7 demo_ready 5] by simp
qed

section \<open>A command with a prompt\<close>

lemma process_prompt:
  assumes "sp_response st = Some r" and "s_smsPDU st = Some pdu" and "can_write st"
  shows "\<exists>ws. processLine ''> '' st =
    Inr (st\<lparr>at_writes := ws, at_outs := at_outs st @ [ToModem (pdu @ [CHR 0x1A])], s_smsPDU := None\<rparr>)"
  using assms(1,2) write_with_end_whole[OF assms(3), of "CHR 0x1A" pdu]
  by (auto simp: processLine_def final_defs writeCtrlZ_def)

text \<open>
  A message is sent in two parts: the command with its carriage return, and after the prompt of the modem the
  text of the message with the final control character, once; the lines after the prompt make the
  response as for any other command.
\<close>

theorem message_sent_after_prompt:
  assumes "ready st" and "prefix_given (cmd_type c) (cmd_prefix c)" and "cmd_pdu c = Some pdu" and "wants_response c"
    and "\<forall>l\<in>set ls. \<not> isFinalResponse l" and "isFinalResponse f"
  shows "\<exists>st'. at_send_command_full False c [got_lines (''> '' # ls @ [f])] st = Inr (Some (0, Some (response_of c ls f), st', [])) \<and>
    at_outs st' = at_outs st @ ToModem (command c @ [CHR 0x0D]) # ToModem (pdu @ [CHR 0x1A]) # unsolicited_of c ls"
proof -
  obtain ws where st1: "send_begin c st = (0, st\<lparr>at_writes := ws, at_outs := at_outs st @ [ToModem (command c @ [CHR 0x0D])],
     s_type := cmd_type c, s_responsePrefix := cmd_prefix c, s_smsPDU := cmd_pdu c, sp_response := Some at_response_new\<rparr>)"
    "WriteFailed \<notin> set ws"
    using begin_sent[of st c] assms(1) by (auto simp: ready_def)
  let ?st1 = "st\<lparr>at_writes := ws, at_outs := at_outs st @ [ToModem (command c @ [CHR 0x0D])],
     s_type := cmd_type c, s_responsePrefix := cmd_prefix c, s_smsPDU := cmd_pdu c, sp_response := Some at_response_new\<rparr>"
  have "can_write ?st1" using assms(1) st1(2) by (simp add: ready_def can_write_def)
  then obtain ws2 where p: "processLine ''> '' ?st1 =
      Inr (?st1\<lparr>at_writes := ws2, at_outs := at_outs ?st1 @ [ToModem (pdu @ [CHR 0x1A])], s_smsPDU := None\<rparr>)"
    using process_prompt[of ?st1 at_response_new pdu] assms(3) by auto
  let ?st2 = "?st1\<lparr>at_writes := ws2, at_outs := at_outs ?st1 @ [ToModem (pdu @ [CHR 0x1A])], s_smsPDU := None\<rparr>"
  have st2: "sp_response ?st2 = Some at_response_new" "finalResponse at_response_new = None" "\<not> s_readerClosed ?st2"
    "waiting_for (cmd_type c) (cmd_prefix c) ?st2"
    using assms(1,2) by (simp_all add: at_response_new_def ready_def can_write_def waiting_for_def)
  from wait_final[OF st2 assms(5) _ assms(6)] assms(4) obtain st' where r:
    "send_wait c [got_lines (ls @ [f])] ?st2 = Inr (Some (0, Some (response_of c ls f), st', []))"
    "at_outs st' = at_outs ?st2 @ unsolicited_of c ls"
    by (fastforce simp: at_response_new_def response_of_def unsolicited_of_def)
  have on: "wait_over ?st1 = Inr False" "wait_over ?st2 = Inr False" using st2(3) by (simp_all add: wait_over_def at_response_new_def)
  have "send_wait c [got_lines (''> '' # ls @ [f])] ?st1 = send_wait c [got_lines (ls @ [f])] ?st2"
    using on p by (subst (1 2) send_wait.simps) (simp add: got_lines_def chan_simps)
  then have "at_send_command_full_nolock c [got_lines (''> '' # ls @ [f])] st = Inr (Some (0, Some (response_of c ls f), st', []))"
    using r(1) by (simp add: at_send_command_full_nolock_def st1(1))
  then show ?thesis using full_of_nolock r(2) by fastforce
qed

definition demo_message :: at_command where
  "demo_message = \<lparr>command = ''AT+CMGS=2'', cmd_type = SINGLELINE, cmd_prefix = Some ''+CMGS:'', cmd_pdu = Some ''0001'',
     timeoutMsec = 0, wants_response = True\<rparr>"

theorem message_sent_after_prompt_witness:
  "\<exists>st'. at_send_command_full False demo_message [got_lines [''> '', ''+CMGS: 5'', ''OK'']] demo_channel =
      Inr (Some (0, Some \<lparr>success = 1, finalResponse = Some ''OK'', p_intermediates = [''+CMGS: 5'']\<rparr>, st', [])) \<and>
    at_outs st' = [ToModem (''AT+CMGS=2'' @ [CHR 0x0D]), ToModem (''0001'' @ [CHR 0x1A])]"
  using message_sent_after_prompt[OF demo_ready, of demo_message "''0001''" "[''+CMGS: 5'']" "''OK''"]
  by (auto simp: demo_message_def prefix_given_def final_defs response_of_def unsolicited_of_def response_lines_def
      other_lines_def one_line_def line_pred_def demo_channel_def)

section \<open>The end of a wait\<close>

text \<open>
  C37: when the stream of the modem ends, a command that waits returns with the error of a closed channel, without
  any further line; it also hands out the response it has so far.
\<close>

theorem reader_end_ends_wait:
  assumes "command_waits c st" and "s_onReaderClosed st" and "\<forall>l\<in>set ls. \<not> isFinalResponse l"
  shows "\<exists>out st'. send_wait c ((map GotLine ls @ [ReaderEnds], Woken) # ws) st = Inr (Some (AT_ERROR_CHANNEL_CLOSED, out, st', ws)) \<and>
    (out \<noteq> None \<longleftrightarrow> wants_response c) \<and> sp_response st' = None"
proof -
  have keep: "s_onReaderClosed st' = s_onReaderClosed st" if "forR reader_act (map GotLine ls) st = Inr st'" for st'
    using that assms(1,3)
  proof (induction ls arbitrary: st)
    case (Cons l ls)
    then obtain r where r: "sp_response st = Some r" "finalResponse r = None" by (auto simp: command_waits_def)
    obtain kept others where p: "processLine l st = Inr (with_lines r kept others st)"
      using process_ordinary[OF r(1), of "cmd_type c" "cmd_prefix c" l] Cons.prems by (auto simp: command_waits_def split: if_splits)
    have "command_waits c (with_lines r kept others st)"
      using lines_keep_waiting[OF Cons.prems(2), of "[l]"] Cons.prems(3) p by (simp add: chan_simps)
    then show ?case using Cons.IH[of "with_lines r kept others st"] Cons.prems p by (simp add: chan_simps) (simp add: with_lines_def)
  qed simp
  from lines_keep_waiting[OF assms(1,3)] obtain st1 where st1: "forR reader_act (map GotLine ls) st = Inr st1" "command_waits c st1" by blast
  obtain r where r: "sp_response st1 = Some r" "\<not> s_readerClosed st1" using st1(2) by (auto simp: command_waits_def)
  have "wait_over st = Inr False" using assms(1) by (auto simp: command_waits_def wait_over_def)
  then have "send_wait c ((map GotLine ls @ [ReaderEnds], Woken) # ws) st = send_wait c ws (onReaderClosed st1)"
    using st1(1) by (subst send_wait.simps) (simp add: forR_append reader_act_def)
  moreover have "wait_over (onReaderClosed st1) = Inr True"
    using r keep[OF st1(1)] assms(2) by (simp add: onReaderClosed_def at_out_def wait_over_def)
  ultimately show ?thesis
    using r keep[OF st1(1)] assms(2)
    by (subst (asm) (2) send_wait.simps) (simp add: send_finish_def onReaderClosed_def at_out_def clearPendingCommand_def)
qed

theorem reader_end_ends_wait_witness:
  "\<exists>out st'. send_wait demo_command [([GotLine ''+CLCC: 1'', ReaderEnds], Woken)]
      (demo_channel\<lparr>s_type := MULTILINE, s_responsePrefix := Some ''+CLCC:'', sp_response := Some at_response_new\<rparr>) =
    Inr (Some (AT_ERROR_CHANNEL_CLOSED, out, st', [])) \<and> out \<noteq> None"
proof -
  let ?st = "demo_channel\<lparr>s_type := MULTILINE, s_responsePrefix := Some ''+CLCC:'', sp_response := Some at_response_new\<rparr>"
  have w: "command_waits demo_command ?st" "s_onReaderClosed ?st"
    by (simp_all add: command_waits_def waiting_for_def prefix_given_def demo_command_def demo_channel_def at_response_new_def)
  have "\<forall>l\<in>set [''+CLCC: 1'']. \<not> isFinalResponse l" by (simp add: final_defs)
  from reader_end_ends_wait[OF w this, of "[]"] show ?thesis by (auto simp: demo_command_def)
qed

text \<open>
  A second final line that arrives before the command thread runs replaces the first: a command that the
  modem has accepted is reported with the result of the later line.
\<close>

theorem late_final_overwrites:
  assumes "sp_response st = Some r" and "isFinalResponse f" and "isFinalResponse g"
  shows "\<exists>st' r'. forR reader_act [GotLine f, GotLine g] st = Inr st' \<and> sp_response st' = Some r' \<and>
    finalResponse r' = Some g \<and> (success r' = 1 \<longleftrightarrow> isFinalResponseSuccess g) \<and> p_intermediates r' = p_intermediates r"
proof -
  let ?r = "r\<lparr>success := (if isFinalResponseSuccess f then 1 else 0), finalResponse := Some f\<rparr>"
  have "sp_response (set_response ?r st) = Some ?r" by (simp add: set_response_def)
  from process_final[OF this assms(3)] process_final[OF assms(1,2)] show ?thesis
    by (simp add: chan_simps) (simp add: set_response_def)
qed

theorem late_final_overwrites_witness:
  "\<exists>st' r'. forR reader_act [GotLine ''OK'', GotLine ''NO CARRIER''] (demo_channel\<lparr>sp_response := Some at_response_new\<rparr>) = Inr st' \<and>
    sp_response st' = Some r' \<and> finalResponse r' = Some ''NO CARRIER'' \<and> success r' \<noteq> 1"
  using late_final_overwrites[of "demo_channel\<lparr>sp_response := Some at_response_new\<rparr>" at_response_new "''OK''" "''NO CARRIER''"]
  by (auto simp: final_defs)

section \<open>Error numbers\<close>

text \<open>
  The number of a mobile equipment error is read from the final line as it was printed.
\<close>

theorem cme_error_roundtrip:
  assumes "- (2 ^ 31) \<le> n" and "n < 2 ^ 31"
  shows "at_get_cme_error \<lparr>success = 0, finalResponse = Some (''+CME ERROR: '' @ show_int n), p_intermediates = ls\<rparr> = n"
proof -
  have st: "at_tok_start (Some (''+CME ERROR: '' @ show_int n)) = (0, Some (CHR '' '' # show_int n))"
    using start_prefix[of "''+CME ERROR''" "CHR '' '' # show_int n"] by simp
  have "nextTok (Some (CHR '' '' # show_int n)) = (Some (show_int n), None)"
    using nextTok_int[of 1 n None] by (simp add: tail_of_def)
  moreover have "strtol 10 (show_int n) = Some (n, [])" using strtol_show_int[of "[]" n] by (simp add: starts_digit_def)
  ultimately have "at_tok_nextint (Some (CHR '' '' # show_int n)) 0 = (0, None, n)"
    using assms by (simp add: at_tok_nextint_def at_tok_nextint_base_def to_int_id)
  then show ?thesis using st by (simp add: at_get_cme_error_def tok_simps)
qed

theorem cme_error_roundtrip_witness:
  "at_get_cme_error \<lparr>success = 0, finalResponse = Some (''+CME ERROR: '' @ show_int 10), p_intermediates = []\<rparr> = 10"
  using cme_error_roundtrip[of 10 "[]"] by simp

end
