(* ===== verification/RIL_Threads.thy ===== *)
theory RIL_Threads
  imports RIL_Commands Step_Systems
begin

text \<open>
  The handshake, and the threads of the AT channel as a step relation: the reader thread, and command threads
  that take \<^verbatim>\<open>s_writeMutex\<close> (in an emulator only) and \<^verbatim>\<open>s_commandmutex\<close>. A step is what runs between two points
  at which \<^verbatim>\<open>s_commandmutex\<close> is free.
\<close>

section \<open>The handshake\<close>

lemma nolock_times_out:
  assumes "ready st" and "timeoutMsec c \<noteq> 0"
  shows "\<exists>st'. at_send_command_full_nolock c (([], TimedOut) # ws) st = Inr (Some (AT_ERROR_TIMEOUT, None, st', ws)) \<and> ready st' \<and>
    at_outs st' = at_outs st @ [ToModem (command c @ [CHR 0x0D])]"
proof -
  from begin_sent[of st c] assms(1) obtain wr where b: "send_begin c st = (0, st\<lparr>at_writes := wr, at_outs := at_outs st @ [ToModem (command c @ [CHR 0x0D])],
     s_type := cmd_type c, s_responsePrefix := cmd_prefix c, s_smsPDU := cmd_pdu c, sp_response := Some at_response_new\<rparr>)"
    "WriteFailed \<notin> set wr"
    by (auto simp: ready_def)
  then show ?thesis using assms
    by (simp add: at_send_command_full_nolock_def)
      (subst send_wait.simps, simp add: wait_over_def at_response_new_def ready_def can_write_def send_timeout_def clearPendingCommand_def)
qed

lemma handshake_answered:
  assumes "ready st" and "isFinalResponse f"
  shows "\<exists>st'. at_send_command_full_nolock handshake_command [got_lines [f]] st = Inr (Some (0, None, st', [])) \<and>
    at_outs st' = at_outs st @ [ToModem (command handshake_command @ [CHR 0x0D])]"
  using nolock_answered[OF assms(1), of handshake_command "[]" "[]" f] assms(2)
  by (auto simp: handshake_command_def prefix_given_def unsolicited_of_def other_lines_def one_line_def)

lemma handshake_loop_retries:
  assumes "ready st" and "k < n" and "isFinalResponse f"
  shows "\<exists>st'. handshake_loop n err (replicate k ([], TimedOut) @ [got_lines [f]]) st = Inr (Some (0, st', [])) \<and>
    at_outs st' = at_outs st @ replicate (Suc k) (ToModem (command handshake_command @ [CHR 0x0D]))"
  using assms(1,2)
proof (induction n arbitrary: k st err)
  case (Suc n)
  show ?case
  proof (cases k)
    case 0
    then show ?thesis using handshake_answered[OF Suc.prems(1) assms(3)] by auto
  next
    case (Suc k')
    have "timeoutMsec handshake_command \<noteq> 0" by (simp add: handshake_command_def)
    from nolock_times_out[OF Suc.prems(1) this, of "replicate k' ([], TimedOut) @ [got_lines [f]]"] obtain st1 where st1:
      "at_send_command_full_nolock handshake_command (([], TimedOut) # replicate k' ([], TimedOut) @ [got_lines [f]]) st =
        Inr (Some (AT_ERROR_TIMEOUT, None, st1, replicate k' ([], TimedOut) @ [got_lines [f]]))" "ready st1"
      "at_outs st1 = at_outs st @ [ToModem (command handshake_command @ [CHR 0x0D])]"
      by blast
    then show ?thesis using Suc.IH[OF st1(2), of k' AT_ERROR_TIMEOUT] Suc.prems(2) Suc by auto
  qed
qed simp

text \<open>
  A modem that answers one of the first eight attempts is found: the handshake sends its command once for
  each attempt, stops at the answer, and pauses once.
\<close>

theorem handshake_retries:
  assumes "ready st" and "k < HANDSHAKE_RETRY_COUNT" and "isFinalResponse f"
  shows "\<exists>st'. at_handshake False (replicate k ([], TimedOut) @ [got_lines [f]]) st = Inr (Some (0, st', [])) \<and>
    at_outs st' = at_outs st @ replicate (Suc k) (ToModem (''ATE0Q0V1'' @ [CHR 0x0D])) @ [Pause HANDSHAKE_TIMEOUT_MSEC]"
  using handshake_loop_retries[OF assms, of 0]
  by (auto simp: at_handshake_def at_out_def handshake_command_def)

theorem handshake_retries_witness:
  "\<exists>st'. at_handshake False [([], TimedOut), ([], TimedOut), got_lines [''OK'']] demo_channel = Inr (Some (0, st', [])) \<and>
    length (at_outs st') = 4"
  using handshake_retries[OF demo_ready, of 2 "''OK''"] by (auto simp: final_defs demo_channel_def eval_nat_numeral)

section \<open>Threads\<close>

text \<open>
  A command thread is outside \<^verbatim>\<open>at_send_command_full\<close>, behind \<^verbatim>\<open>s_writeMutex\<close> (which only an emulator takes), in the
  wait of a command, or done with a result. What a command handed out is kept with its number.
\<close>

datatype issuer = Outside | Entered | Waits at_command | Done int "ATResponse option"

record at_system =
  channel :: at_channel
  issuers :: "nat \<Rightarrow> issuer"
  s_writeMutex :: "nat option"

definition set_issuer :: "nat \<Rightarrow> issuer \<Rightarrow> at_channel \<Rightarrow> at_system \<Rightarrow> at_system" where
  "set_issuer t i ch s = s\<lparr>channel := ch, issuers := (issuers s)(t := i)\<rparr>"

definition prefix_ok :: "at_command \<Rightarrow> bool" where
  "prefix_ok c \<longleftrightarrow> prefix_given (cmd_type c) (cmd_prefix c)"

text \<open>
  The handshake holds both mutexes over its rounds; a round that has failed is followed by another, which is
  the step from \<open>Done\<close> to \<open>Entered\<close>. The callers of the file give a prefix to the commands that need one.
\<close>

inductive at_step :: "bool \<Rightarrow> at_system \<Rightarrow> at_system \<Rightarrow> bool" for inEmulator where
  enter: "issuers s t = Outside \<Longrightarrow> (inEmulator \<Longrightarrow> s_writeMutex s = None) \<Longrightarrow>
     at_step inEmulator s (set_issuer t Entered (channel s) (s\<lparr>s_writeMutex := (if inEmulator then Some t else None)\<rparr>))"
| issue: "issuers s t = Entered \<Longrightarrow> prefix_ok c \<Longrightarrow> send_begin c (channel s) = (err, ch) \<Longrightarrow>
     at_step inEmulator s (set_issuer t (if err < 0 then Done err None else Waits c) ch s)"
| finish: "issuers s t = Waits c \<Longrightarrow> wait_over (channel s) = Inr True \<Longrightarrow> send_finish c (channel s) = Inr (err, out, ch) \<Longrightarrow>
     at_step inEmulator s (set_issuer t (Done err out) ch s)"
| timeout: "issuers s t = Waits c \<Longrightarrow> timeoutMsec c \<noteq> 0 \<Longrightarrow> wait_over (channel s) = Inr False \<Longrightarrow>
     at_step inEmulator s (set_issuer t (Done AT_ERROR_TIMEOUT None) (clearPendingCommand (channel s)) s)"
| again: "issuers s t = Done err out \<Longrightarrow> err < 0 \<Longrightarrow> at_step inEmulator s (set_issuer t Entered (channel s) s)"
| leave: "issuers s t = Done err out \<Longrightarrow>
     at_step inEmulator s (set_issuer t Outside (channel s) (s\<lparr>s_writeMutex := None\<rparr>))"
| reader: "reader_act ev (channel s) = Inr ch \<Longrightarrow> at_step inEmulator s (s\<lparr>channel := ch\<rparr>)"
| closing: "at_step inEmulator s (s\<lparr>channel := at_close (channel s)\<rparr>)"

definition at_started :: "at_system \<Rightarrow> bool" where
  "at_started s \<longleftrightarrow> sp_response (channel s) = None \<and> s_smsPDU (channel s) = None \<and> (\<forall>t. issuers s t = Outside) \<and> s_writeMutex s = None"

text \<open>What makes a thread crash: a null pointer in the wait of a command or in the handling of a line.\<close>

definition at_crash :: "at_system \<Rightarrow> bool" where
  "at_crash s \<longleftrightarrow> (\<exists>t c. issuers s t = Waits c \<and> wait_over (channel s) = Inl NullDeref) \<or>
     (\<exists>ev. reader_act ev (channel s) = Inl NullDeref)"

subsection \<open>In an emulator\<close>

text \<open>
  A response is pending exactly when a command thread waits, that thread holds \<^verbatim>\<open>s_writeMutex\<close>, and the channel
  is set up for its command.
\<close>

definition one_command :: "at_system \<Rightarrow> bool" where
  "one_command s \<longleftrightarrow>
     (\<forall>t. issuers s t \<noteq> Outside \<longrightarrow> s_writeMutex s = Some t) \<and>
     (case sp_response (channel s) of
        None \<Rightarrow> (\<forall>t c. issuers s t \<noteq> Waits c)
      | Some r \<Rightarrow> (\<exists>t c. issuers s t = Waits c \<and> prefix_ok c \<and> s_type (channel s) = cmd_type c \<and>
           s_responsePrefix (channel s) = cmd_prefix c))"

text \<open>The handling of a line keeps what the invariant speaks of.\<close>

lemma processLine_keeps:
  assumes "processLine l ch = Inr ch'"
  shows "(sp_response ch' = None \<longleftrightarrow> sp_response ch = None) \<and> s_type ch' = s_type ch \<and> s_responsePrefix ch' = s_responsePrefix ch"
proof -
  have w: "sp_response (snd (writeCtrlZ p ch)) = sp_response ch \<and> s_type (snd (writeCtrlZ p ch)) = s_type ch \<and>
      s_responsePrefix (snd (writeCtrlZ p ch)) = s_responsePrefix ch" for p
    by (simp add: writeCtrlZ_def write_with_end_def at_out_def split: prod.split)
  show ?thesis
    using assms w
    by (auto simp: processLine_def handleUnsolicited_def at_out_def set_response_def add_or_unsolicited_def res_simps
        split: option.splits if_splits ATCommandType.splits)
qed

lemma reader_act_keeps:
  assumes "reader_act ev ch = Inr ch'"
  shows "(sp_response ch' = None \<longleftrightarrow> sp_response ch = None) \<and> s_type ch' = s_type ch \<and> s_responsePrefix ch' = s_responsePrefix ch"
  using assms processLine_keeps
  by (cases ev) (auto simp: reader_act_def at_out_def onReaderClosed_def split: if_splits)

lemma send_begin_keeps:
  assumes "send_begin c ch = (err, ch')"
  shows "(err < 0 \<longrightarrow> sp_response ch' = None) \<and>
    (\<not> err < 0 \<longrightarrow> sp_response ch' \<noteq> None \<and> s_type ch' = cmd_type c \<and> s_responsePrefix ch' = cmd_prefix c)"
  using assms
  by (auto simp: send_begin_def clearPendingCommand_def split: prod.splits if_splits)

lemma send_finish_clears: "send_finish c ch = Inr (err, out, ch') \<Longrightarrow> sp_response ch' = None"
  by (auto simp: send_finish_def clearPendingCommand_def split: option.splits if_splits)

text \<open>A thread that leaves its wait is the only one that waits.\<close>

lemma one_command_waits:
  assumes "one_command s" and "issuers s t \<noteq> Outside" and "issuers s t' \<noteq> Outside"
  shows "t' = t"
  using assms by (metis one_command_def option.inject)

lemma one_command_channel:
  "one_command s \<Longrightarrow> (sp_response ch = None \<longleftrightarrow> sp_response (channel s) = None) \<Longrightarrow> s_type ch = s_type (channel s) \<Longrightarrow>
   s_responsePrefix ch = s_responsePrefix (channel s) \<Longrightarrow> one_command (s\<lparr>channel := ch\<rparr>)"
  by (auto simp: one_command_def split: option.splits)

lemma one_command_free:
  assumes "one_command s" and "issuers s t \<noteq> Outside" and "sp_response ch = None" and "\<forall>c. i \<noteq> Waits c"
  shows "one_command (set_issuer t i ch s)"
proof -
  have "issuers s t' = Outside" if "t' \<noteq> t" for t' using one_command_waits[OF assms(1,2)] that by blast
  then have others: "\<forall>t'. t' \<noteq> t \<longrightarrow> issuers s t' = Outside" by blast
  have "s_writeMutex s = Some t" using assms(1,2) by (auto simp: one_command_def)
  then show ?thesis using others assms(3,4) by (auto simp: one_command_def set_issuer_def)
qed

lemma done_no_response:
  assumes "one_command s" and "issuers s t = Done err out"
  shows "sp_response (channel s) = None" "\<forall>t'. t' \<noteq> t \<longrightarrow> issuers s t' = Outside"
proof -
  show o: "\<forall>t'. t' \<noteq> t \<longrightarrow> issuers s t' = Outside" using one_command_waits[OF assms(1), of t] assms(2) by auto
  show "sp_response (channel s) = None"
  proof (cases "sp_response (channel s)")
    case (Some r)
    then obtain t' c where "issuers s t' = Waits c" using assms(1) by (auto simp: one_command_def)
    then show ?thesis using o assms(2) by (cases "t' = t") auto
  qed
qed

lemma at_step_keeps:
  assumes "one_command s" and "at_step True s s'"
  shows "one_command s'"
  using assms(2)
proof cases
  case (enter t)
  then have o: "\<forall>t. issuers s t = Outside" using assms(1) by (auto simp: one_command_def)
  then have "sp_response (channel s) = None"
    using assms(1) by (cases "sp_response (channel s)") (auto simp: one_command_def)
  then show ?thesis using o enter(1) by (simp add: one_command_def set_issuer_def)
next
  case (issue t c err ch)
  show ?thesis
  proof (cases "err < 0")
    case True
    then show ?thesis using one_command_free[OF assms(1), of t ch "Done err None"] issue send_begin_keeps[OF issue(4)] by simp
  next
    case False
    have "\<forall>t'. t' \<noteq> t \<longrightarrow> issuers s t' = Outside" using one_command_waits[OF assms(1), of t] issue(2) by auto
    moreover have "s_writeMutex s = Some t" using assms(1) issue(2) by (auto simp: one_command_def)
    ultimately show ?thesis using False issue(1,3) send_begin_keeps[OF issue(4)]
      by (auto simp: one_command_def set_issuer_def)
  qed
next
  case (finish t c err out ch)
  then show ?thesis using one_command_free[OF assms(1), of t ch "Done err out"] send_finish_clears[OF finish(4)] by simp
next
  case (timeout t c)
  then show ?thesis using one_command_free[OF assms(1), of t "clearPendingCommand (channel s)" "Done AT_ERROR_TIMEOUT None"]
    by (simp add: clearPendingCommand_def)
next
  case (again t err out)
  then show ?thesis using one_command_free[OF assms(1), of t "channel s" Entered] done_no_response[OF assms(1)] by simp
next
  case (leave t err out)
  then show ?thesis using done_no_response[OF assms(1) leave(2)] by (simp add: one_command_def set_issuer_def)
next
  case (reader ev ch)
  then show ?thesis using one_command_channel[OF assms(1)] reader_act_keeps[OF reader(2)] by simp
next
  case closing
  then show ?thesis using one_command_channel[OF assms(1), of "at_close (channel s)"] by (simp add: at_close_def at_out_def)
qed

interpretation ch: step_invariant at_started "at_step True" one_command
  by unfold_locales (simp add: at_started_def one_command_def, rule at_step_keeps)

lemma one_command_no_crash: "one_command s \<Longrightarrow> \<not> at_crash s"
proof -
  assume inv: "one_command s"
  have "reader_act ev (channel s) \<noteq> Inl NullDeref" for ev
  proof (cases ev)
    case (GotLine l)
    show ?thesis
    proof (cases "sp_response (channel s)")
      case None
      then show ?thesis using GotLine by (simp add: reader_act_def processLine_def)
    next
      case (Some r)
      then show ?thesis
        using GotLine inv
        by (auto simp: one_command_def prefix_ok_def prefix_given_def reader_act_def processLine_def has_prefix_def
            split: ATCommandType.splits)
    qed
  qed (simp_all add: reader_act_def)
  moreover have "wait_over (channel s) \<noteq> Inl NullDeref" if "issuers s t = Waits c" for t c
    using inv that by (cases "sp_response (channel s)") (auto simp: one_command_def wait_over_def)
  ultimately show ?thesis by (auto simp: at_crash_def)
qed

text \<open>
  C12: in an emulator, where \<^verbatim>\<open>s_writeMutex\<close> is taken, no interleaving of the reader thread and any number of
  command threads leads to a null pointer, and at most one command is on the channel.
\<close>

theorem emulator_threads_safe:
  assumes "reach at_started (at_step True) s"
  shows "\<not> at_crash s \<and> (\<forall>t t' c c'. issuers s t = Waits c \<longrightarrow> issuers s t' = Waits c' \<longrightarrow> t = t')"
proof -
  have inv: "one_command s" by (rule ch.reach_inv[OF assms])
  then show ?thesis using one_command_no_crash one_command_waits[OF inv] by (metis issuer.distinct(3))
qed

definition demo_system :: at_system where
  "demo_system = \<lparr>channel = demo_channel, issuers = (\<lambda>_. Outside), s_writeMutex = None\<rparr>"

lemma demo_started: "at_started demo_system"
  by (simp add: at_started_def demo_system_def demo_channel_def)

text \<open>A state in which thread 1 waits for its response.\<close>

lemma demo_prefix: "prefix_ok demo_command"
  by (simp add: prefix_ok_def prefix_given_def demo_command_def)

lemma demo_waits:
  "\<exists>s. reach at_started (at_step inEmulator) s \<and> issuers s = (\<lambda>_. Outside)(1 := Waits demo_command) \<and>
     sp_response (channel s) \<noteq> None"
proof -
  obtain ch where b: "send_begin demo_command demo_channel = (0, ch)" "sp_response ch \<noteq> None"
    using begin_sent[of demo_channel demo_command] demo_ready by (auto simp: ready_def)
  let ?s1 = "set_issuer 1 Entered demo_channel (demo_system\<lparr>s_writeMutex := (if inEmulator then Some 1 else None)\<rparr>)"
  let ?s2 = "set_issuer 1 (Waits demo_command) ch ?s1"
  have 1: "at_step inEmulator demo_system ?s1"
    using at_step.enter[of demo_system 1 inEmulator] by (simp add: demo_system_def)
  have 2: "at_step inEmulator ?s1 ?s2"
    using at_step.issue[of ?s1 1 demo_command 0 ch inEmulator] demo_prefix b(1) by (simp add: set_issuer_def)
  have "reach at_started (at_step inEmulator) demo_system" by (rule reach.start, rule demo_started)
  then have "reach at_started (at_step inEmulator) ?s1" using 1 by (rule reach.step)
  then have "reach at_started (at_step inEmulator) ?s2" using 2 by (rule reach.step)
  moreover have "issuers ?s2 = (\<lambda>_. Outside)(1 := Waits demo_command)" "sp_response (channel ?s2) \<noteq> None"
    using b(2) by (simp_all add: set_issuer_def demo_system_def)
  ultimately show ?thesis by blast
qed

theorem emulator_threads_safe_witness:
  "\<exists>s. reach at_started (at_step True) s \<and> issuers s 1 = Waits demo_command \<and> \<not> at_crash s"
proof -
  obtain s where s: "reach at_started (at_step True) s" "issuers s = (\<lambda>_. Outside)(1 := Waits demo_command)"
    using demo_waits by blast
  then show ?thesis using emulator_threads_safe[OF s(1)] by auto
qed

subsection \<open>Outside an emulator\<close>

lemma second_command_clears:
  "sp_response ch \<noteq> None \<Longrightarrow> send_begin c ch = (AT_ERROR_COMMAND_PENDING, clearPendingCommand ch)"
  by (auto simp: send_begin_def)

text \<open>
  C38: outside an emulator a command that is issued while another one waits is refused, but it also frees
  and clears the pending response: the thread that waits follows a null pointer when it wakes.
\<close>

theorem second_command_crashes:
  assumes "issuers s t = Waits c" and "issuers s t' = Entered" and "sp_response (channel s) \<noteq> None" and "prefix_ok c'"
  shows "\<exists>s'. at_step False s s' \<and> issuers s' t' = Done AT_ERROR_COMMAND_PENDING None \<and> issuers s' t = Waits c \<and> at_crash s'"
proof -
  let ?s' = "set_issuer t' (Done AT_ERROR_COMMAND_PENDING None) (clearPendingCommand (channel s)) s"
  have "at_step False s ?s'"
    using at_step.issue[OF assms(2,4) second_command_clears[OF assms(3)], of False] by simp
  moreover have "t \<noteq> t'" using assms(1,2) by auto
  ultimately show ?thesis
    using assms(1) by (intro exI[of _ ?s']) (auto simp: set_issuer_def at_crash_def wait_over_def clearPendingCommand_def)
qed

text \<open>The state before it is reachable.\<close>

theorem second_command_crashes_witness:
  "\<exists>s s'. reach at_started (at_step False) s \<and> at_step False s s' \<and> at_crash s'"
proof -
  obtain s where s: "reach at_started (at_step False) s" "issuers s = (\<lambda>_. Outside)(1 := Waits demo_command)"
    "sp_response (channel s) \<noteq> None"
    using demo_waits by blast
  let ?s = "set_issuer 2 Entered (channel s) (s\<lparr>s_writeMutex := None\<rparr>)"
  have "at_step False s ?s" using at_step.enter[of s 2 False] s(2) by simp
  with s(1) have r: "reach at_started (at_step False) ?s" by (rule reach.step)
  have "issuers ?s 1 = Waits demo_command" "issuers ?s 2 = Entered" "sp_response (channel ?s) \<noteq> None"
    using s(2,3) by (simp_all add: set_issuer_def)
  from second_command_crashes[OF this demo_prefix] r show ?thesis by blast
qed

end
