(* ===== verification/RIL_Types.thy ===== *)
theory RIL_Types
  imports RIL_Channel
begin

text \<open>
  What the request handlers of the reference RIL (\<^verbatim>\<open>reference-ril.c\<close>) work on: its static variables as a record,
  the modem behind the AT channel and the system as an environment of answers, and a trace of what
  goes to the modem and to the RIL library. A handler is one step; the callbacks of the reader
  thread are steps of their own.
\<close>

named_theorems ril_simps

section \<open>Values\<close>

datatype RIL_RadioState = RADIO_STATE_OFF | RADIO_STATE_UNAVAILABLE | RADIO_STATE_ON

datatype RIL_Errno =
    RIL_E_SUCCESS | RIL_E_RADIO_NOT_AVAILABLE | RIL_E_GENERIC_FAILURE | RIL_E_PASSWORD_INCORRECT
  | RIL_E_REQUEST_NOT_SUPPORTED | RIL_E_SMS_SEND_FAIL_RETRY | RIL_E_MODE_NOT_SUPPORTED

datatype RIL_CallState =
    RIL_CALL_ACTIVE | RIL_CALL_HOLDING | RIL_CALL_DIALING | RIL_CALL_ALERTING | RIL_CALL_INCOMING | RIL_CALL_WAITING

text \<open>The fields of \<^verbatim>\<open>RIL_Call\<close> that the file writes; the others stay zero.\<close>

record RIL_Call =
  rc_state :: RIL_CallState
  rc_index :: int
  rc_toa :: int
  rc_isMpty :: int
  rc_isMT :: int
  rc_isVoice :: int
  rc_number :: "string option"

definition zero_call :: RIL_Call where
  "zero_call = \<lparr>rc_state = RIL_CALL_ACTIVE, rc_index = 0, rc_toa = 0, rc_isMpty = 0, rc_isMT = 0, rc_isVoice = 0,
     rc_number = None\<rparr>"

text \<open>\<^verbatim>\<open>RIL_Data_Call_Response_v11\<close> without \<^verbatim>\<open>pcscf\<close>, which stays empty.\<close>

record RIL_Data_Call =
  dc_status :: int
  dc_suggestedRetryTime :: int
  dc_cid :: int
  dc_active :: int
  dc_type :: string
  dc_ifname :: string
  dc_addresses :: string
  dc_dnses :: string
  dc_gateways :: string
  dc_mtu :: int

record RIL_SIM_IO_Response =
  sw1 :: int
  sw2 :: int
  simResponse :: "string option"

datatype SIM_Status = SIM_ABSENT | SIM_NOT_READY | SIM_READY | SIM_PIN | SIM_PUK | SIM_NETWORK_PERSONALIZATION

datatype RIL_AppType = RIL_APPTYPE_UNKNOWN | RIL_APPTYPE_SIM | RIL_APPTYPE_USIM | RIL_APPTYPE_RUIM | RIL_APPTYPE_ISIM

datatype RIL_AppState =
  RIL_APPSTATE_UNKNOWN | RIL_APPSTATE_DETECTED | RIL_APPSTATE_PIN | RIL_APPSTATE_PUK | RIL_APPSTATE_SUBSCRIPTION_PERSO | RIL_APPSTATE_READY

datatype RIL_PinState =
  RIL_PINSTATE_UNKNOWN | RIL_PINSTATE_ENABLED_NOT_VERIFIED | RIL_PINSTATE_DISABLED | RIL_PINSTATE_ENABLED_BLOCKED

datatype RIL_PersoSubstate = RIL_PERSOSUBSTATE_UNKNOWN | RIL_PERSOSUBSTATE_READY | RIL_PERSOSUBSTATE_SIM_NETWORK

text \<open>An application: its type, its state, what it is locked to, its two PINs.\<close>

datatype RIL_AppStatus = AppStatus RIL_AppType RIL_AppState RIL_PersoSubstate RIL_PinState RIL_PinState

record RIL_CardStatus =
  card_present :: bool
  num_applications :: nat
  applications :: "RIL_AppStatus list"

datatype ril_payload =
    NoData
  | Ints "int list"
  | Text string
  | Texts "string option list"
  | Calls "RIL_Call list"
  | DataCalls "RIL_Data_Call list"
  | SmsRef int
  | SimIo RIL_SIM_IO_Response
  | Card RIL_CardStatus
  | CellInfo int int int int int
  | Echo

datatype ril_unsol =
    UNSOL_RADIO_STATE_CHANGED | UNSOL_SIM_STATUS_CHANGED | UNSOL_CALL_STATE_CHANGED | UNSOL_VOICE_NETWORK_STATE_CHANGED
  | UNSOL_NEW_SMS | UNSOL_NEW_SMS_STATUS_REPORT | UNSOL_NITZ_TIME_RECEIVED | UNSOL_DATA_CALL_LIST_CHANGED
  | UNSOL_VOICE_RADIO_TECH_CHANGED | UNSOL_CDMA_SUBSCRIPTION_SOURCE_CHANGED | UNSOL_CDMA_PRL_CHANGED
  | UNSOL_ENTER_EMERGENCY_CALLBACK_MODE | UNSOL_EXIT_EMERGENCY_CALLBACK_MODE

datatype ril_callback = OnDataCallListChanged | SendCallStateChanged | PollSIMState | InitializeCallback

section \<open>The modem and the system\<close>

text \<open>The commands, by the function of \<^verbatim>\<open>atchannel.h\<close> that sends them.\<close>

datatype at_request =
    AtPlain string
  | AtNumeric string
  | AtSingle string string
  | AtMulti string string
  | AtSms string string string
  | AtHandshake

type_synonym at_answer = "int \<times> ATResponse option"

type_synonym token = nat

datatype ril_out =
    Sent at_request
  | Complete token RIL_Errno ril_payload
  | Unsol ril_unsol ril_payload
  | TimedCallback ril_callback
  | QmiWrite string
  | Shell string
  | AtClose

text \<open>
  The answer of the modem to the n-th command, the emulator's properties, the device \<^verbatim>\<open>/dev/qmi\<close> (whether it opens and takes
  the command, and what its reads deliver), the result of the shell, the clock, the variables
  \<^verbatim>\<open>s_ims_*\<close>, which the file never writes, and what the stack holds where a local struct is not initialised.
\<close>

record ril_env =
  modem :: "nat \<Rightarrow> at_request \<Rightarrow> at_answer"
  in_emulator :: bool
  sysprop :: "string \<Rightarrow> string option"
  qmi_open :: bool
  qmi_write :: bool
  qmi_reads :: "string option list"
  netcfg :: int
  nano_time :: int
  s_ims_registered :: int
  s_ims_format :: int
  s_ims_cause_retry :: int
  s_ims_cause_perm_failure :: int
  s_ims_gsm_retry :: int
  s_ims_gsm_fail :: int
  stale_sim_io :: RIL_SIM_IO_Response

section \<open>The static variables\<close>

record ril =
  sState :: RIL_RadioState
  s_closed :: bool
  supportedTechs :: int
  currentTech :: int
  isMultimode :: int
  preferredNetworkMode :: int
  subscription_source :: int
  s_mcc :: int
  s_mnc :: int
  s_lac :: int
  s_cid :: int
  s_cell_info_rate_ms :: int
  sent_nu :: nat
  ril_outs :: "ril_out list"

definition ril_out :: "ril_out \<Rightarrow> ril \<Rightarrow> ril" where
  "ril_out x st = st\<lparr>ril_outs := ril_outs st @ [x]\<rparr>"

definition RIL_onRequestComplete :: "token \<Rightarrow> RIL_Errno \<Rightarrow> ril_payload \<Rightarrow> ril \<Rightarrow> ril" where
  "RIL_onRequestComplete t e p st = ril_out (Complete t e p) st"

definition RIL_onUnsolicitedResponse :: "ril_unsol \<Rightarrow> ril_payload \<Rightarrow> ril \<Rightarrow> ril" where
  "RIL_onUnsolicitedResponse u p st = ril_out (Unsol u p) st"

definition RIL_requestTimedCallback :: "ril_callback \<Rightarrow> ril \<Rightarrow> ril" where
  "RIL_requestTimedCallback c st = ril_out (TimedCallback c) st"

definition at_send :: "ril_env \<Rightarrow> at_request \<Rightarrow> ril \<Rightarrow> at_answer \<times> ril" where
  "at_send env req st = (modem env (sent_nu st) req, ril_out (Sent req) (st\<lparr>sent_nu := Suc (sent_nu st)\<rparr>))"

text \<open>A command whose response is not asked for.\<close>

definition at_send_only :: "ril_env \<Rightarrow> at_request \<Rightarrow> ril \<Rightarrow> ril" where
  "at_send_only env req st = snd (at_send env req st)"

text \<open>\<^verbatim>\<open>err < 0 || p_response->success == 0\<close>; the response is only looked at when there was no error.\<close>

definition answer_failed :: "at_answer \<Rightarrow> bool res" where
  "answer_failed a =
     (case a of (err, r) \<Rightarrow>
        if err < 0 then Inr True else case r of None \<Rightarrow> Inl NullDeref | Some r \<Rightarrow> Inr (success r = 0))"

text \<open>\<^verbatim>\<open>p_response->p_intermediates->line\<close>\<close>

definition first_line :: "at_answer \<Rightarrow> string res" where
  "first_line a =
     (case snd a of None \<Rightarrow> Inl NullDeref
      | Some r \<Rightarrow> (case p_intermediates r of [] \<Rightarrow> Inl NullDeref | l # _ \<Rightarrow> Inr l))"

text \<open>\<^verbatim>\<open>p_response->p_intermediates\<close>\<close>

definition all_lines :: "at_answer \<Rightarrow> string list res" where
  "all_lines a = (case snd a of None \<Rightarrow> Inl NullDeref | Some r \<Rightarrow> Inr (p_intermediates r))"

section \<open>Printing\<close>

definition hex_char :: "nat \<Rightarrow> char" where
  "hex_char d = char_of (if d < 10 then 48 + d else 87 + d)"

fun show_hex_nat :: "nat \<Rightarrow> string" where
  "show_hex_nat n = (if n < 16 then [hex_char n] else show_hex_nat (n div 16) @ [hex_char (n mod 16)])"

declare show_hex_nat.simps [simp del]

text \<open>\<^verbatim>\<open>%x\<close> and \<^verbatim>\<open>%02x\<close> of an \<^verbatim>\<open>int\<close>.\<close>

definition show_hex :: "int \<Rightarrow> string" where
  "show_hex i = show_hex_nat (nat (i mod 2 ^ 32))"

definition show_hex2 :: "int \<Rightarrow> string" where
  "show_hex2 i = (let s = show_hex i in if length s < 2 then CHR ''0'' # s else s)"

end
