(* ===== verification/RIL_Parse.thy ===== *)
theory RIL_Parse
  imports RIL_Types
begin

text \<open>
  The lines of the modem's responses that the request handlers take apart (\<^verbatim>\<open>reference-ril.c\<close>): calls, SIM responses,
  registration states, technologies, data calls and operators. A result \<open>None\<close> is the error exit of the
  code; arrays are lists, and a write behind their end is a fault.
\<close>

section \<open>Calls\<close>

definition clccStateToRILState :: "int \<Rightarrow> RIL_CallState option" where
  "clccStateToRILState state =
     (if state = 0 then Some RIL_CALL_ACTIVE else if state = 1 then Some RIL_CALL_HOLDING
      else if state = 2 then Some RIL_CALL_DIALING else if state = 3 then Some RIL_CALL_ALERTING
      else if state = 4 then Some RIL_CALL_INCOMING else if state = 5 then Some RIL_CALL_WAITING else None)"

text \<open>\<^verbatim>\<open>0 == strspn(number, "+0123456789")\<close>\<close>

definition not_a_number :: "string \<Rightarrow> bool" where
  "not_a_number s \<longleftrightarrow> s = [] \<or> \<not> (hd s = CHR ''+'' \<or> isdigit (hd s))"

text \<open>The call is filled in place; what was written before an error stays. The result is 0 or -1.\<close>

definition clcc_number :: "cursor \<Rightarrow> RIL_Call \<Rightarrow> int \<times> RIL_Call" where
  "clcc_number line c =
     (case at_tok_nextstr line (rc_number c) of (err, line, number) \<Rightarrow>
        let c = c\<lparr>rc_number := number\<rparr>
        in if err < 0 then (0, c)
           else let c = (if number \<noteq> None \<and> not_a_number (the number) then c\<lparr>rc_number := None\<rparr> else c)
                in case at_tok_nextint line (rc_toa c) of (err, _, toa) \<Rightarrow>
                     (if err < 0 then - 1 else 0, c\<lparr>rc_toa := toa\<rparr>))"

definition clcc_mode :: "cursor \<Rightarrow> RIL_Call \<Rightarrow> int \<times> RIL_Call" where
  "clcc_mode line c =
     (case at_tok_nextint line 0 of (err, line, mode) \<Rightarrow>
        if err < 0 then (- 1, c)
        else let c = c\<lparr>rc_isVoice := (if mode = 0 then 1 else 0)\<rparr>
             in case at_tok_nextbool line (rc_isMpty c) of (err, line, b) \<Rightarrow>
                  let c = c\<lparr>rc_isMpty := b\<rparr>
                  in if err < 0 then (- 1, c)
                     else if at_tok_hasmore line \<noteq> 0 then clcc_number line c else (0, c))"

definition callFromCLCCLine :: "string \<Rightarrow> RIL_Call \<Rightarrow> int \<times> RIL_Call" where
  "callFromCLCCLine s c =
     (case at_tok_start (Some s) of (err, line) \<Rightarrow>
        if err < 0 then (- 1, c)
        else case at_tok_nextint line (rc_index c) of (err, line, i) \<Rightarrow>
          let c = c\<lparr>rc_index := i\<rparr>
          in if err < 0 then (- 1, c)
             else case at_tok_nextbool line (rc_isMT c) of (err, line, b) \<Rightarrow>
               let c = c\<lparr>rc_isMT := b\<rparr>
               in if err < 0 then (- 1, c)
                  else case at_tok_nextint line 0 of (err, line, state) \<Rightarrow>
                    if err < 0 then (- 1, c)
                    else case clccStateToRILState state of
                      None \<Rightarrow> (- 1, c)
                    | Some s \<Rightarrow> clcc_mode line (c\<lparr>rc_state := s\<rparr>))"

text \<open>
  The loop of \<^verbatim>\<open>requestGetCurrentCalls\<close> over the lines: the calls found so far, the slot that the next line fills (an
  invalid line leaves it as it is), and whether a call is neither active nor held.
\<close>

fun clcc_loop :: "string list \<Rightarrow> RIL_Call \<Rightarrow> RIL_Call list \<Rightarrow> bool \<Rightarrow> RIL_Call list \<times> bool" where
  "clcc_loop [] slot calls needRepoll = (calls, needRepoll)"
| "clcc_loop (line # ls) slot calls needRepoll =
     (case callFromCLCCLine line slot of (err, c) \<Rightarrow>
        if err \<noteq> 0 then clcc_loop ls c calls needRepoll
        else clcc_loop ls zero_call (calls @ [c])
               (needRepoll \<or> (rc_state c \<noteq> RIL_CALL_ACTIVE \<and> rc_state c \<noteq> RIL_CALL_HOLDING)))"

section \<open>SIM responses\<close>

definition parseSimResponseLine :: "string \<Rightarrow> RIL_SIM_IO_Response \<Rightarrow> int \<times> RIL_SIM_IO_Response" where
  "parseSimResponseLine s r =
     (case at_tok_start (Some s) of (err, line) \<Rightarrow>
        if err < 0 then (err, r)
        else case at_tok_nextint line (sw1 r) of (err, line, v1) \<Rightarrow>
          let r = r\<lparr>sw1 := v1\<rparr>
          in if err < 0 then (err, r)
             else case at_tok_nextint line (sw2 r) of (err, line, v2) \<Rightarrow>
               let r = r\<lparr>sw2 := v2\<rparr>
               in if err < 0 then (err, r)
                  else if at_tok_hasmore line \<noteq> 0
                  then (case at_tok_nextstr line (simResponse r) of (err, _, t) \<Rightarrow>
                          (if err < 0 then err else 0, r\<lparr>simResponse := t\<rparr>))
                  else (0, r))"

section \<open>Technologies\<close>

abbreviation MDM_GSM :: int where "MDM_GSM \<equiv> 1"
abbreviation MDM_WCDMA :: int where "MDM_WCDMA \<equiv> 2"
abbreviation MDM_CDMA :: int where "MDM_CDMA \<equiv> 4"
abbreviation MDM_EVDO :: int where "MDM_EVDO \<equiv> 8"
abbreviation MDM_LTE :: int where "MDM_LTE \<equiv> 16"

definition RADIO_TECH_GPRS :: int where "RADIO_TECH_GPRS = 1"
definition RADIO_TECH_1xRTT :: int where "RADIO_TECH_1xRTT = 6"
definition RADIO_TECH_EVDO_A :: int where "RADIO_TECH_EVDO_A = 8"
definition RADIO_TECH_HSPA :: int where "RADIO_TECH_HSPA = 11"
definition RADIO_TECH_LTE :: int where "RADIO_TECH_LTE = 14"

lemmas tech_defs = RADIO_TECH_GPRS_def RADIO_TECH_1xRTT_def RADIO_TECH_EVDO_A_def RADIO_TECH_HSPA_def RADIO_TECH_LTE_def

definition net2modem :: "int list" where
  "net2modem =
     [MDM_GSM OR MDM_WCDMA, MDM_GSM, MDM_WCDMA, MDM_GSM OR MDM_WCDMA, MDM_CDMA OR MDM_EVDO, MDM_CDMA, MDM_EVDO,
      MDM_GSM OR MDM_WCDMA OR MDM_CDMA OR MDM_EVDO, MDM_LTE OR MDM_CDMA OR MDM_EVDO, MDM_LTE OR MDM_GSM OR MDM_WCDMA,
      MDM_LTE OR MDM_CDMA OR MDM_EVDO OR MDM_GSM OR MDM_WCDMA, MDM_LTE]"

definition net2pmask :: "int list" where
  "net2pmask =
     [MDM_GSM OR push_bit 8 MDM_WCDMA, MDM_GSM, MDM_WCDMA, MDM_GSM OR MDM_WCDMA, MDM_CDMA OR MDM_EVDO, MDM_CDMA, MDM_EVDO,
      MDM_GSM OR MDM_WCDMA OR MDM_CDMA OR MDM_EVDO, MDM_LTE OR MDM_CDMA OR MDM_EVDO, MDM_LTE OR MDM_GSM OR MDM_WCDMA,
      MDM_LTE OR MDM_CDMA OR MDM_EVDO OR MDM_GSM OR MDM_WCDMA, MDM_LTE]"

text \<open>An element of a table at an index that comes from outside.\<close>

definition table_at :: "int list \<Rightarrow> int \<Rightarrow> int res" where
  "table_at xs i = (if 0 \<le> i \<and> i < int (length xs) then Inr (xs ! nat i) else Inl OutOfBounds)"

text \<open>\<^verbatim>\<open>1 << n\<close> of an \<^verbatim>\<open>int\<close>.\<close>

definition bit_of :: "int \<Rightarrow> int res" where
  "bit_of n = (if 0 \<le> n \<and> n < 31 then Inr (2 ^ nat n) else Inl BadShift)"

text \<open>\<^verbatim>\<open>IS95A\<close>, \<^verbatim>\<open>IS95B\<close>, \<^verbatim>\<open>1xRTT\<close>, \<^verbatim>\<open>EVDO_0\<close>, \<^verbatim>\<open>EVDO_A\<close>, \<^verbatim>\<open>EVDO_B\<close> and \<^verbatim>\<open>EHRPD\<close> of \<^verbatim>\<open>ril.h\<close>.\<close>

definition is3gpp2 :: "int \<Rightarrow> bool" where
  "is3gpp2 radioTech \<longleftrightarrow> (4 \<le> radioTech \<and> radioTech \<le> 8) \<or> radioTech = 12 \<or> radioTech = 13"

definition techFromModemType :: "int \<Rightarrow> int res" where
  "techFromModemType mdmtype =
     bindR (bit_of mdmtype) (\<lambda>b. Inr
       (if b = MDM_CDMA then RADIO_TECH_1xRTT
        else if b = MDM_EVDO then RADIO_TECH_EVDO_A
        else if b = MDM_GSM then RADIO_TECH_GPRS
        else if b = MDM_WCDMA then RADIO_TECH_HSPA
        else if b = MDM_LTE then RADIO_TECH_LTE else - 1))"

text \<open>
  The result and the values of \<^verbatim>\<open>current\<close> and \<^verbatim>\<open>preferred\<close> as far as they were parsed; a caller that passes \<^verbatim>\<open>NULL\<close>
  does not look at them.
\<close>

definition parse_technology_response :: "string \<Rightarrow> int \<times> int option \<times> int option" where
  "parse_technology_response s =
     (case at_tok_start (Some s) of (err, p) \<Rightarrow>
        if err \<noteq> 0 \<or> at_tok_hasmore p = 0 then (- 1, None, None)
        else case at_tok_nextint p 0 of (err, p, ct) \<Rightarrow>
          if err \<noteq> 0 then (- 1, None, None)
          else case at_tok_nexthexint p 0 of (err, _, pt) \<Rightarrow>
            if err \<noteq> 0 then (1, Some ct, None) else (0, Some ct, Some pt))"

text \<open>
  The loop of \<^verbatim>\<open>query_supported_techs\<close> over the numbers of the line. The fuel is the length of the line: every
  round but the last takes at least a character of it.
\<close>

fun supported_loop :: "nat \<Rightarrow> cursor \<Rightarrow> int \<Rightarrow> int res" where
  "supported_loop 0 line techs = Inl OutOfFuel"
| "supported_loop (Suc n) line techs =
     (case at_tok_nextint line 0 of (err, line, val) \<Rightarrow>
        if err \<noteq> 0 then Inr techs
        else bindR (bit_of val) (\<lambda>b. supported_loop n line (techs OR b)))"

section \<open>Registration\<close>

definition bindO :: "'a option res \<Rightarrow> ('a \<Rightarrow> 'b option res) \<Rightarrow> 'b option res" where
  "bindO m f = bindR m (\<lambda>x. case x of None \<Rightarrow> Inr None | Some y \<Rightarrow> f y)"

text \<open>A token into an element of the array, and a token that is skipped.\<close>

definition tok_into ::
  "(cursor \<Rightarrow> int \<Rightarrow> int \<times> cursor \<times> int) \<Rightarrow> nat \<Rightarrow> cursor \<times> int list \<Rightarrow> (cursor \<times> int list) option res" where
  "tok_into tok i s =
     (case s of (line, resp) \<Rightarrow>
        if i < length resp
        then (case tok line (resp ! i) of (err, line, v) \<Rightarrow>
                if err < 0 then Inr None else Inr (Some (line, resp[i := v])))
        else Inl OutOfBounds)"

definition tok_skip :: "cursor \<times> int list \<Rightarrow> (cursor \<times> int list) option res" where
  "tok_skip s =
     (case s of (line, resp) \<Rightarrow> (case at_tok_nextint line 0 of (err, line, _) \<Rightarrow>
        if err < 0 then Inr None else Inr (Some (line, resp))))"

definition store_int :: "nat \<Rightarrow> int \<Rightarrow> cursor \<times> int list \<Rightarrow> (cursor \<times> int list) option res" where
  "store_int i v s =
     (case s of (line, resp) \<Rightarrow> if i < length resp then Inr (Some (line, resp[i := v])) else Inl OutOfBounds)"

definition count_commas :: "string \<Rightarrow> nat" where
  "count_commas s = length (filter (\<lambda>c. c = CHR '','') s)"

definition registration_fields :: "nat \<Rightarrow> cursor \<times> int list \<Rightarrow> (cursor \<times> int list) option res" where
  "registration_fields commas s =
     (if commas = 0 then
        bindO (tok_into at_tok_nextint 0 s) (\<lambda>s. bindO (store_int 1 (- 1) s) (store_int 2 (- 1)))
      else if commas = 1 then
        bindO (tok_skip s) (\<lambda>s. bindO (tok_into at_tok_nextint 0 s) (\<lambda>s. bindO (store_int 1 (- 1) s) (store_int 2 (- 1))))
      else if commas = 2 then
        bindO (tok_into at_tok_nextint 0 s) (\<lambda>s. bindO (tok_into at_tok_nexthexint 1 s) (tok_into at_tok_nexthexint 2))
      else if commas = 3 then
        bindO (tok_skip s) (\<lambda>s. bindO (tok_into at_tok_nextint 0 s) (\<lambda>s.
          bindO (tok_into at_tok_nexthexint 1 s) (tok_into at_tok_nexthexint 2)))
      else if commas = 4 then
        bindO (tok_skip s) (\<lambda>s. bindO (tok_into at_tok_nextint 0 s) (\<lambda>s.
          bindO (tok_into at_tok_nexthexint 1 s) (\<lambda>s. bindO (tok_into at_tok_nexthexint 2 s) (tok_into at_tok_nexthexint 3))))
      else Inr None)"

text \<open>The array, the number of items and the type; the cell is kept in the static variables.\<close>

definition parseRegistrationState :: "string \<Rightarrow> ril \<Rightarrow> ((int list \<times> nat \<times> int) option \<times> ril) res" where
  "parseRegistrationState str st =
     (case at_tok_start (Some str) of (err, line) \<Rightarrow>
        if err < 0 then Inr (None, st)
        else let commas = count_commas (the line)
             in bindR (registration_fields commas (line, replicate (commas + 1) 0)) (\<lambda>r. case r of
                  None \<Rightarrow> Inr (None, st)
                | Some (_, resp) \<Rightarrow>
                    bindR (techFromModemType (currentTech st)) (\<lambda>type.
                      Inr (Some (resp, commas + 1, type), st\<lparr>s_lac := resp ! 1, s_cid := resp ! 2\<rparr>))))"

section \<open>Data calls\<close>

definition new_data_call :: RIL_Data_Call where
  "new_data_call = \<lparr>dc_status = - 1, dc_suggestedRetryTime = - 1, dc_cid = - 1, dc_active = - 1, dc_type = [], dc_ifname = [],
     dc_addresses = [], dc_dnses = [], dc_gateways = [], dc_mtu = 0\<rparr>"

definition parse_cgact :: "string \<Rightarrow> RIL_Data_Call option" where
  "parse_cgact s =
     (case at_tok_start (Some s) of (err, line) \<Rightarrow>
        if err < 0 then None
        else case at_tok_nextint line 0 of (err, line, cid) \<Rightarrow>
          if err < 0 then None
          else case at_tok_nextint line 0 of (err, _, active) \<Rightarrow>
            if err < 0 then None else Some (new_data_call\<lparr>dc_cid := cid, dc_active := active\<rparr>))"

fun parse_all :: "(string \<Rightarrow> 'a option) \<Rightarrow> string list \<Rightarrow> 'a list option" where
  "parse_all f [] = Some []"
| "parse_all f (l # ls) = (case f l of None \<Rightarrow> None | Some x \<Rightarrow> map_option ((#) x) (parse_all f ls))"

text \<open>\<^verbatim>\<open>at_tok_nextstr\<close> followed by \<^verbatim>\<open>strlen\<close> and a copy of the string.\<close>

definition next_copy :: "cursor \<Rightarrow> (cursor \<times> string) option res" where
  "next_copy line =
     (case at_tok_nextstr line None of (err, line, out) \<Rightarrow>
        if err < 0 then Inr None else case out of None \<Rightarrow> Inl NullDeref | Some s \<Rightarrow> Inr (Some (line, s)))"

text \<open>\<^verbatim>\<open>strlcat\<close> with a limit on the size of the buffer.\<close>

definition strlcat :: "nat \<Rightarrow> string \<Rightarrow> string \<Rightarrow> string" where
  "strlcat n dst src = (if length dst < n then dst @ take (n - 1 - length dst) src else dst)"

fun emulator_dns :: "(string \<Rightarrow> string option) \<Rightarrow> nat list \<Rightarrow> string \<Rightarrow> string \<Rightarrow> string" where
  "emulator_dns prop [] separator dnslist = dnslist"
| "emulator_dns prop (nn # ns) separator dnslist =
     (case prop (''net.eth0.dns'' @ show_nat nn) of
        None \<Rightarrow> emulator_dns prop ns separator dnslist
      | Some v \<Rightarrow> emulator_dns prop ns '' '' (strlcat 128 (strlcat 128 dnslist separator) v))"

definition dns_and_gateway :: "ril_env \<Rightarrow> cursor \<Rightarrow> RIL_Data_Call \<Rightarrow> RIL_Data_Call option res" where
  "dns_and_gateway env line d =
     (if in_emulator env
      then Inr (Some (d\<lparr>dc_dnses := emulator_dns (sysprop env) [1, 2, 3, 4] [] [], dc_gateways := ''10.0.2.2 fe80::2'', dc_mtu := 1500\<rparr>))
      else bindO (next_copy line) (\<lambda>(line, dns). bindO (next_copy line) (\<lambda>(_, gw).
        Inr (Some (d\<lparr>dc_dnses := dns, dc_gateways := gw\<rparr>)))))"

definition cgdcont_fields :: "ril_env \<Rightarrow> cursor \<Rightarrow> RIL_Data_Call \<Rightarrow> RIL_Data_Call option res" where
  "cgdcont_fields env line d =
     bindO (next_copy line) (\<lambda>(line, type). bindO (next_copy line) (\<lambda>(line, ifname). bindO (next_copy line) (\<lambda>(line, addresses).
       dns_and_gateway env line (d\<lparr>dc_status := 0, dc_type := type, dc_ifname := ifname, dc_addresses := addresses\<rparr>))))"

text \<open>The first data call with the number of the line is completed; other lines are skipped.\<close>

fun update_first :: "(RIL_Data_Call \<Rightarrow> bool) \<Rightarrow> (RIL_Data_Call \<Rightarrow> RIL_Data_Call option res) \<Rightarrow> RIL_Data_Call list \<Rightarrow> RIL_Data_Call list option res" where
  "update_first p f [] = Inr (Some [])"
| "update_first p f (d # ds) =
     (if p d then bindO (f d) (\<lambda>d. Inr (Some (d # ds))) else bindO (update_first p f ds) (\<lambda>ds. Inr (Some (d # ds))))"

definition parse_cgdcont :: "ril_env \<Rightarrow> string \<Rightarrow> RIL_Data_Call list \<Rightarrow> RIL_Data_Call list option res" where
  "parse_cgdcont env s ds =
     (case at_tok_start (Some s) of (err, line) \<Rightarrow>
        if err < 0 then Inr None
        else case at_tok_nextint line 0 of (err, line, cid) \<Rightarrow>
          if err < 0 then Inr None else update_first (\<lambda>d. dc_cid d = cid) (cgdcont_fields env line) ds)"

fun cgdcont_loop :: "ril_env \<Rightarrow> string list \<Rightarrow> RIL_Data_Call list \<Rightarrow> RIL_Data_Call list option res" where
  "cgdcont_loop env [] ds = Inr (Some ds)"
| "cgdcont_loop env (l # ls) ds = bindO (parse_cgdcont env l ds) (cgdcont_loop env ls)"

section \<open>Signal strength\<close>

text \<open>
  The loop of \<^verbatim>\<open>requestSignalStrength\<close>: 14 numbers (\<^verbatim>\<open>RIL_SignalStrength_v10\<close>), of which the first 12 (\<^verbatim>\<open>_v6\<close>) must be
  there. A failed token leaves 0 or, at the end of the line, what was there.
\<close>

fun signal_loop :: "nat list \<Rightarrow> cursor \<Rightarrow> int list \<Rightarrow> int list option" where
  "signal_loop [] line response = Some response"
| "signal_loop (count # cs) line response =
     (case at_tok_nextint line (response ! count) of (err, line, v) \<Rightarrow>
        if err < 0 \<and> count < 12 then None else signal_loop cs line (response[count := v]))"

definition parse_signal :: "string \<Rightarrow> int list option" where
  "parse_signal s =
     (case at_tok_start (Some s) of (err, line) \<Rightarrow>
        if err < 0 then None else signal_loop [0..<14] line (replicate 14 0))"

section \<open>Operators\<close>

text \<open>\<^verbatim>\<open>sscanf\<close> with \<^verbatim>\<open>%3d\<close>.\<close>

definition scan_3d :: "string \<Rightarrow> (int \<times> string) option" where
  "scan_3d s =
     (let t = dropWhile isspace s
      in map_option (\<lambda>(v, rem). (v, rem @ drop 3 t)) (strtol 10 (take 3 t)))"

definition scan_mccmnc :: "string \<Rightarrow> ril \<Rightarrow> ril" where
  "scan_mccmnc s st =
     (case scan_3d s of None \<Rightarrow> st
      | Some (mcc, rest) \<Rightarrow>
          let st = st\<lparr>s_mcc := mcc\<rparr>
          in case scan_3d rest of None \<Rightarrow> st | Some (mnc, _) \<Rightarrow> st\<lparr>s_mnc := mnc\<rparr>)"

text \<open>One line: \<open>None\<close> for the error exit, else what goes into \<^verbatim>\<open>response[i]\<close>.\<close>

definition parse_cops :: "string \<Rightarrow> string option option" where
  "parse_cops s =
     (case at_tok_start (Some s) of (err, line) \<Rightarrow>
        if err < 0 then None
        else case at_tok_nextint line 0 of (err, line, _) \<Rightarrow>
          if err < 0 then None
          else if at_tok_hasmore line = 0 then Some None
          else case at_tok_nextint line 0 of (err, line, _) \<Rightarrow>
            if err < 0 then None
            else if at_tok_hasmore line = 0 then Some None
            else case at_tok_nextstr line None of (err, _, r) \<Rightarrow> if err < 0 then None else Some r)"

fun cops_loop :: "string list \<Rightarrow> nat \<Rightarrow> string option list \<Rightarrow> ril \<Rightarrow> ((nat \<times> string option list) option \<times> ril) res" where
  "cops_loop [] i response st = Inr (Some (i, response), st)"
| "cops_loop (l # ls) i response st =
     (case parse_cops l of
        None \<Rightarrow> Inr (None, st)
      | Some r \<Rightarrow>
          if i < length response
          then cops_loop ls (i + 1) (response[i := r])
                 (case r of Some s \<Rightarrow> if length s = 6 then scan_mccmnc s st else st | None \<Rightarrow> st)
          else Inl OutOfBounds)"

section \<open>SIM channels and SIM state\<close>

text \<open>\<^verbatim>\<open>sscanf (line, "%d%c", ...) == 1\<close>\<close>

definition scan_session :: "string \<Rightarrow> int option" where
  "scan_session line = (case strtol 10 line of Some (v, []) \<Rightarrow> Some (to_int (clamp 64 v)) | _ \<Rightarrow> None)"

definition cpin_status :: "string \<Rightarrow> SIM_Status res" where
  "cpin_status s =
     (case at_tok_start (Some s) of (err, line) \<Rightarrow>
        if err < 0 then Inr SIM_NOT_READY
        else case at_tok_nextstr line None of (err, _, r) \<Rightarrow>
          if err < 0 then Inr SIM_NOT_READY
          else case r of
            None \<Rightarrow> Inl NullDeref
          | Some w \<Rightarrow> Inr
              (if w = ''SIM PIN'' then SIM_PIN
               else if w = ''SIM PUK'' then SIM_PUK
               else if w = ''PH-NET PIN'' then SIM_NETWORK_PERSONALIZATION
               else if w \<noteq> ''READY'' then SIM_ABSENT else SIM_READY))"

end
