(* ===== verification/RIL_Radio.thy ===== *)
theory RIL_Radio
  imports RIL_Parse
begin

text \<open>
  The radio's state, the SIM and the technology of the modem (\<^verbatim>\<open>reference-ril.c\<close>): the functions behind the requests,
  the start of the radio and the handler of unsolicited lines.
\<close>

section \<open>The SIM\<close>

definition getSIMStatus :: "ril_env \<Rightarrow> ril \<Rightarrow> (SIM_Status \<times> ril) res" where
  "getSIMStatus env st =
     (if sState st = RADIO_STATE_OFF \<or> sState st = RADIO_STATE_UNAVAILABLE then Inr (SIM_NOT_READY, st)
      else case at_send env (AtSingle ''AT+CPIN?'' ''+CPIN:'') st of (a, st) \<Rightarrow>
        if fst a \<noteq> 0 then Inr (SIM_NOT_READY, st)
        else case snd a of
          None \<Rightarrow> Inl NullDeref
        | Some r \<Rightarrow>
            let cme = at_get_cme_error r
            in if cme = 0 then bindR (first_line a) (\<lambda>l. bindR (cpin_status l) (\<lambda>s. Inr (s, st)))
               else if cme = 10 then Inr (SIM_ABSENT, st) else Inr (SIM_NOT_READY, st))"

definition no_app :: RIL_AppStatus where
  "no_app = AppStatus RIL_APPTYPE_UNKNOWN RIL_APPSTATE_UNKNOWN RIL_PERSOSUBSTATE_UNKNOWN RIL_PINSTATE_UNKNOWN RIL_PINSTATE_UNKNOWN"

text \<open>The entries of one kind of application for the states from absent to locked to a network.\<close>

definition app_statuses :: "RIL_AppType \<Rightarrow> RIL_AppStatus list" where
  "app_statuses ty =
     [no_app,
      AppStatus ty RIL_APPSTATE_DETECTED RIL_PERSOSUBSTATE_UNKNOWN RIL_PINSTATE_UNKNOWN RIL_PINSTATE_UNKNOWN,
      AppStatus ty RIL_APPSTATE_READY RIL_PERSOSUBSTATE_READY RIL_PINSTATE_UNKNOWN RIL_PINSTATE_UNKNOWN,
      AppStatus ty RIL_APPSTATE_PIN RIL_PERSOSUBSTATE_UNKNOWN RIL_PINSTATE_ENABLED_NOT_VERIFIED RIL_PINSTATE_UNKNOWN,
      AppStatus ty RIL_APPSTATE_PUK RIL_PERSOSUBSTATE_UNKNOWN RIL_PINSTATE_ENABLED_BLOCKED RIL_PINSTATE_UNKNOWN,
      AppStatus ty RIL_APPSTATE_SUBSCRIPTION_PERSO RIL_PERSOSUBSTATE_SIM_NETWORK RIL_PINSTATE_ENABLED_NOT_VERIFIED RIL_PINSTATE_UNKNOWN]"

definition app_status_array :: "RIL_AppStatus list" where
  "app_status_array =
     app_statuses RIL_APPTYPE_SIM @ app_statuses RIL_APPTYPE_RUIM @ app_statuses RIL_APPTYPE_ISIM @
     [AppStatus RIL_APPTYPE_USIM RIL_APPSTATE_READY RIL_PERSOSUBSTATE_READY RIL_PINSTATE_DISABLED RIL_PINSTATE_ENABLED_NOT_VERIFIED]"

abbreviation RIL_CARD_MAX_APPS :: nat where "RIL_CARD_MAX_APPS \<equiv> 8"

text \<open>The numbers of the states in \<^verbatim>\<open>SIM_Status\<close>; \<^verbatim>\<open>RUIM_ABSENT\<close> is 6 and \<^verbatim>\<open>ISIM_ABSENT\<close> 12.\<close>

fun sim_number :: "SIM_Status \<Rightarrow> nat" where
  "sim_number SIM_ABSENT = 0"
| "sim_number SIM_NOT_READY = 1"
| "sim_number SIM_READY = 2"
| "sim_number SIM_PIN = 3"
| "sim_number SIM_PUK = 4"
| "sim_number SIM_NETWORK_PERSONALIZATION = 5"

definition getCardStatus :: "ril_env \<Rightarrow> ril \<Rightarrow> (RIL_CardStatus \<times> ril) res" where
  "getCardStatus env st =
     bindR (getSIMStatus env st) (\<lambda>(sim, st). Inr
       (if sim = SIM_ABSENT
        then \<lparr>card_present = False, num_applications = 0, applications = replicate RIL_CARD_MAX_APPS (app_status_array ! 0)\<rparr>
        else \<lparr>card_present = True, num_applications = 3,
               applications = [app_status_array ! 18, app_status_array ! (sim_number sim + 6), app_status_array ! (sim_number sim + 12)] @
                 replicate (RIL_CARD_MAX_APPS - 3) (app_status_array ! 0)\<rparr>, st))"

section \<open>The state of the radio\<close>

definition onSIMReady :: "ril_env \<Rightarrow> ril \<Rightarrow> ril" where
  "onSIMReady env st =
     at_send_only env (AtPlain ''AT+CNMI=1,2,2,1,1'') (at_send_only env (AtSingle ''AT+CSMS=1'' ''+CSMS:'') st)"

definition pollSIMState :: "ril_env \<Rightarrow> ril \<Rightarrow> ril res" where
  "pollSIMState env st =
     (if sState st \<noteq> RADIO_STATE_UNAVAILABLE then Inr st
      else bindR (getSIMStatus env st) (\<lambda>(sim, st). Inr
        (if sim = SIM_NOT_READY then RIL_requestTimedCallback PollSIMState st
         else if sim = SIM_READY then RIL_onUnsolicitedResponse UNSOL_SIM_STATUS_CHANGED NoData (onSIMReady env st)
         else RIL_onUnsolicitedResponse UNSOL_SIM_STATUS_CHANGED NoData st)))"

definition onRadioPowerOn :: "ril_env \<Rightarrow> ril \<Rightarrow> ril res" where
  "onRadioPowerOn env st = pollSIMState env st"

definition setRadioState :: "ril_env \<Rightarrow> RIL_RadioState \<Rightarrow> ril \<Rightarrow> ril res" where
  "setRadioState env newState st =
     (let oldState = sState st;
          newState = (if s_closed st then RADIO_STATE_UNAVAILABLE else newState);
          st = (if sState st \<noteq> newState \<or> s_closed st then st\<lparr>sState := newState\<rparr> else st)
      in if sState st \<noteq> oldState
         then let st = RIL_onUnsolicitedResponse UNSOL_SIM_STATUS_CHANGED NoData
                         (RIL_onUnsolicitedResponse UNSOL_RADIO_STATE_CHANGED NoData st)
              in if sState st = RADIO_STATE_ON then onRadioPowerOn env st else Inr st
         else Inr st)"

definition setRadioTechnology :: "int \<Rightarrow> ril \<Rightarrow> ril res" where
  "setRadioTechnology newtech st =
     (let oldtech = currentTech st
      in if newtech \<noteq> oldtech
         then bindR (techFromModemType newtech) (\<lambda>new. bindR (techFromModemType oldtech) (\<lambda>old.
                let st = st\<lparr>currentTech := newtech\<rparr>
                in Inr (if new \<noteq> old \<and> new > 0
                        then RIL_onUnsolicitedResponse UNSOL_VOICE_RADIO_TECH_CHANGED (Ints [new]) st else st)))
         else Inr st)"

section \<open>The technology of the modem\<close>

text \<open>\<^verbatim>\<open>err || !response->success\<close>\<close>

definition answer_bad :: "at_answer \<Rightarrow> bool res" where
  "answer_bad a =
     (case a of (err, r) \<Rightarrow>
        if err \<noteq> 0 then Inr True else case r of None \<Rightarrow> Inl NullDeref | Some r \<Rightarrow> Inr (success r = 0))"

definition query_ctec :: "ril_env \<Rightarrow> ril \<Rightarrow> ((int \<times> int option \<times> int option) \<times> ril) res" where
  "query_ctec env st =
     (case at_send env (AtSingle ''AT+CTEC?'' ''+CTEC:'') st of (a, st) \<Rightarrow>
        bindR (answer_bad a) (\<lambda>bad.
          if bad then Inr ((- 1, None, None), st)
          else bindR (first_line a) (\<lambda>l. Inr (parse_technology_response l, st))))"

definition query_supported_techs :: "ril_env \<Rightarrow> ril \<Rightarrow> (int \<times> ril) res" where
  "query_supported_techs env st =
     (case at_send env (AtSingle ''AT+CTEC=?'' ''+CTEC:'') st of (a, st) \<Rightarrow>
        bindR (answer_bad a) (\<lambda>bad.
          if bad then Inr (- 1, st)
          else bindR (first_line a) (\<lambda>l.
            case at_tok_start (Some l) of (err, line) \<Rightarrow>
              if err \<noteq> 0 \<or> at_tok_hasmore line = 0 then Inr (- 1, st)
              else bindR (supported_loop (Suc (length l)) line 0) (\<lambda>techs. Inr (0, st\<lparr>supportedTechs := techs\<rparr>)))))"

definition is_multimode_modem :: "ril_env \<Rightarrow> ril \<Rightarrow> (int \<times> ril) res" where
  "is_multimode_modem env st =
     bindR (query_ctec env st) (\<lambda>((res, tech, preferred), st).
       if res = 0
       then bindR (query_supported_techs env (st\<lparr>currentTech := the tech, preferredNetworkMode := the preferred\<rparr>)) (\<lambda>(r, st).
              Inr (if r \<noteq> 0 then 0 else 1, st))
       else Inr (0, st))"

definition probeForModemMode :: "ril_env \<Rightarrow> ril \<Rightarrow> ril res" where
  "probeForModemMode env st =
     bindR (is_multimode_modem env st) (\<lambda>(multi, st).
       if multi \<noteq> 0 then Inr st
       else
         let st = st\<lparr>isMultimode := 0\<rparr>
         in case at_send env (AtSingle ''AT+WNAM'' ''+WNAM:'') st of (a, st) \<Rightarrow>
              bindR (answer_bad a) (\<lambda>bad.
                if \<not> bad then Inr (st\<lparr>supportedTechs := MDM_CDMA OR MDM_EVDO, currentTech := MDM_CDMA\<rparr>)
                else Inr (st\<lparr>supportedTechs := MDM_GSM OR MDM_WCDMA OR MDM_LTE, currentTech := MDM_GSM\<rparr>)))"

section \<open>The start of the radio\<close>

definition isRadioOn :: int where "isRadioOn = 1"

definition send_all :: "ril_env \<Rightarrow> string list \<Rightarrow> ril \<Rightarrow> ril" where
  "send_all env cmds st = fold (\<lambda>c. at_send_only env (AtPlain c)) cmds st"

definition initializeCallback :: "ril_env \<Rightarrow> ril \<Rightarrow> ril res" where
  "initializeCallback env st =
     bindR (setRadioState env RADIO_STATE_OFF st) (\<lambda>st.
     bindR (probeForModemMode env (at_send_only env AtHandshake st)) (\<lambda>st.
     case at_send env (AtPlain ''AT+CREG=2'') (send_all env [''ATE0Q0V1'', ''ATS0=0'', ''AT+CMEE=1''] st) of (a, st) \<Rightarrow>
     bindR (answer_failed a) (\<lambda>failed.
       let st = (if failed then at_send_only env (AtPlain ''AT+CREG=1'') st else st);
           st = send_all env [''AT+CGREG=1'', ''AT+CCWA=1'', ''AT+CMOD=0'', ''AT+CMUT=0'', ''AT+CSSN=0,1'', ''AT+COLP=0'',
                  ''AT+CSCS='' @ [CHR 0x22] @ ''HEX'' @ [CHR 0x22], ''AT+CUSD=1'', ''AT+CGEREP=1,0'', ''AT+CMGF=0''] st
       in if isRadioOn > 0 then setRadioState env RADIO_STATE_ON st else Inr st)))"

text \<open>The part of \<^verbatim>\<open>mainLoop\<close> that follows a connection to the modem.\<close>

definition mainLoop_open :: "ril \<Rightarrow> ril" where
  "mainLoop_open st = RIL_requestTimedCallback InitializeCallback (st\<lparr>s_closed := False\<rparr>)"

section \<open>Callbacks of the AT channel\<close>

definition onATReaderClosed :: "ril_env \<Rightarrow> ril \<Rightarrow> ril res" where
  "onATReaderClosed env st = setRadioState env RADIO_STATE_UNAVAILABLE ((ril_out AtClose st)\<lparr>s_closed := True\<rparr>)"

definition onATTimeout :: "ril_env \<Rightarrow> ril \<Rightarrow> ril res" where
  "onATTimeout env st = setRadioState env RADIO_STATE_UNAVAILABLE ((ril_out AtClose st)\<lparr>s_closed := True\<rparr>)"

definition starts_any :: "string \<Rightarrow> string list \<Rightarrow> bool" where
  "starts_any s ps \<longleftrightarrow> (\<exists>p\<in>set ps. strStartsWith s p)"

text \<open>\<^verbatim>\<open>RIL_onUnsolicitedResponse (.., sms_pdu, strlen(sms_pdu))\<close>\<close>

definition unsol_pdu :: "ril_unsol \<Rightarrow> string option \<Rightarrow> ril \<Rightarrow> ril res" where
  "unsol_pdu u sms_pdu st =
     (case sms_pdu of None \<Rightarrow> Inl NullDeref | Some pdu \<Rightarrow> Inr (RIL_onUnsolicitedResponse u (Text pdu) st))"

definition unsol_nitz :: "string \<Rightarrow> ril \<Rightarrow> ril res" where
  "unsol_nitz s st =
     (case at_tok_nextstr (snd (at_tok_start (Some s))) None of (err, _, response) \<Rightarrow>
        if err \<noteq> 0 then Inr st else unsol_pdu UNSOL_NITZ_TIME_RECEIVED response st)"

definition unsol_ctec :: "string \<Rightarrow> ril \<Rightarrow> ril res" where
  "unsol_ctec s st =
     (case parse_technology_response s of (res, tech, _) \<Rightarrow>
        if res = - 1 then Inr st
        else bindR (bit_of (the tech)) (\<lambda>mask.
          if mask \<noteq> MDM_GSM \<and> mask \<noteq> MDM_CDMA \<and> mask \<noteq> MDM_WCDMA \<and> mask \<noteq> MDM_LTE then Inr st
          else setRadioTechnology (the tech) st))"

definition unsol_number :: "string \<Rightarrow> (int \<Rightarrow> ril \<Rightarrow> ril) \<Rightarrow> ril \<Rightarrow> ril" where
  "unsol_number s f st =
     (case at_tok_start (Some s) of (err, p) \<Rightarrow>
        if err < 0 then st
        else case at_tok_nextint p 0 of (err, _, v) \<Rightarrow> if err < 0 then st else f v st)"

definition unsol_emergency :: "string \<Rightarrow> ril \<Rightarrow> ril" where
  "unsol_emergency s st =
     (case at_tok_start (Some s) of (err, p) \<Rightarrow>
        if err < 0 then st
        else case at_tok_nextbool p 0 of (err, _, state) \<Rightarrow>
          if err < 0 then st
          else RIL_onUnsolicitedResponse
                 (if state \<noteq> 0 then UNSOL_ENTER_EMERGENCY_CALLBACK_MODE else UNSOL_EXIT_EMERGENCY_CALLBACK_MODE) NoData st)"

definition onUnsolicited :: "ril_env \<Rightarrow> string \<Rightarrow> string option \<Rightarrow> ril \<Rightarrow> ril res" where
  "onUnsolicited env s sms_pdu st =
     (if sState st = RADIO_STATE_UNAVAILABLE then Inr st
      else if strStartsWith s ''%CTZV:'' then unsol_nitz s st
      else if starts_any s [''+CRING:'', ''RING'', ''NO CARRIER'', ''+CCWA'']
      then Inr (RIL_onUnsolicitedResponse UNSOL_CALL_STATE_CHANGED NoData st)
      else if starts_any s [''+CREG:'', ''+CGREG:'']
      then Inr (RIL_onUnsolicitedResponse UNSOL_VOICE_NETWORK_STATE_CHANGED NoData st)
      else if strStartsWith s ''+CMT:'' then unsol_pdu UNSOL_NEW_SMS sms_pdu st
      else if strStartsWith s ''+CDS:'' then unsol_pdu UNSOL_NEW_SMS_STATUS_REPORT sms_pdu st
      else if strStartsWith s ''+CGEV:'' then Inr (RIL_requestTimedCallback OnDataCallListChanged st)
      else if strStartsWith s ''+CTEC: '' then unsol_ctec s st
      else if strStartsWith s ''+CCSS: ''
      then Inr (unsol_number s (\<lambda>v st. RIL_onUnsolicitedResponse UNSOL_CDMA_SUBSCRIPTION_SOURCE_CHANGED (Ints [v])
                                          (st\<lparr>subscription_source := v\<rparr>)) st)
      else if strStartsWith s ''+WSOS: '' then Inr (unsol_emergency s st)
      else if strStartsWith s ''+WPRL: ''
      then Inr (unsol_number s (\<lambda>v. RIL_onUnsolicitedResponse UNSOL_CDMA_PRL_CHANGED (Ints [v])) st)
      else if strStartsWith s ''+CFUN: 0'' then setRadioState env RADIO_STATE_OFF st
      else Inr st)"

end
