(* ===== verification/RIL_Requests.thy ===== *)
theory RIL_Requests
  imports RIL_Radio
begin

text \<open>
  The request handlers of the reference RIL and their dispatch (\<^verbatim>\<open>reference-ril.c\<close>). What the RIL library passes in \<^verbatim>\<open>data\<close> is
  the argument of a request; every handler gets the token that it has to complete.
\<close>

section \<open>Power\<close>

definition done_ok :: "token \<Rightarrow> ril \<Rightarrow> ril" where
  "done_ok t st = RIL_onRequestComplete t RIL_E_SUCCESS NoData st"

definition done_fail :: "token \<Rightarrow> ril \<Rightarrow> ril" where
  "done_fail t st = RIL_onRequestComplete t RIL_E_GENERIC_FAILURE NoData st"

definition requestRadioPower :: "ril_env \<Rightarrow> int \<Rightarrow> token \<Rightarrow> ril \<Rightarrow> ril res" where
  "requestRadioPower env onOff t st =
     (if onOff = 0 \<and> sState st \<noteq> RADIO_STATE_OFF
      then (case at_send env (AtPlain ''AT+CFUN=0'') st of (a, st) \<Rightarrow>
              bindR (answer_failed a) (\<lambda>failed.
                if failed then Inr (done_fail t st)
                else bindR (setRadioState env RADIO_STATE_OFF st) (\<lambda>st. Inr (done_ok t st))))
      else if onOff > 0 \<and> sState st = RADIO_STATE_OFF
      then (case at_send env (AtPlain ''AT+CFUN=1'') st of (a, st) \<Rightarrow>
              bindR (answer_failed a) (\<lambda>_.
                bindR (setRadioState env RADIO_STATE_ON st) (\<lambda>st. Inr (done_ok t st))))
      else Inr (done_ok t st))"

definition requestShutdown :: "ril_env \<Rightarrow> token \<Rightarrow> ril \<Rightarrow> ril res" where
  "requestShutdown env t st =
     (if sState st \<noteq> RADIO_STATE_OFF
      then bindR (setRadioState env RADIO_STATE_UNAVAILABLE (at_send_only env (AtPlain ''AT+CFUN=0'') st)) (\<lambda>st. Inr (done_ok t st))
      else Inr (done_ok t st))"

section \<open>Data calls\<close>

text \<open>The answer to a request, or an unsolicited one if there is no token.\<close>

definition data_list_fail :: "token option \<Rightarrow> ril \<Rightarrow> ril" where
  "data_list_fail t st =
     (case t of Some t \<Rightarrow> done_fail t st | None \<Rightarrow> RIL_onUnsolicitedResponse UNSOL_DATA_CALL_LIST_CHANGED NoData st)"

definition data_list_ok :: "token option \<Rightarrow> RIL_Data_Call list \<Rightarrow> ril \<Rightarrow> ril" where
  "data_list_ok t ds st =
     (case t of Some t \<Rightarrow> RIL_onRequestComplete t RIL_E_SUCCESS (DataCalls ds) st
      | None \<Rightarrow> RIL_onUnsolicitedResponse UNSOL_DATA_CALL_LIST_CHANGED (DataCalls ds) st)"

definition requestOrSendDataCallList :: "ril_env \<Rightarrow> token option \<Rightarrow> ril \<Rightarrow> ril res" where
  "requestOrSendDataCallList env t st =
     (case at_send env (AtMulti ''AT+CGACT?'' ''+CGACT:'') st of (a, st) \<Rightarrow>
        bindR (answer_bad a) (\<lambda>bad.
          if bad then Inr (data_list_fail t st)
          else bindR (all_lines a) (\<lambda>ls.
            case parse_all parse_cgact ls of
              None \<Rightarrow> Inr (data_list_fail t st)
            | Some ds \<Rightarrow>
                (case at_send env (AtMulti ''AT+CGDCONT?'' ''+CGDCONT:'') st of (a, st) \<Rightarrow>
                   bindR (answer_bad a) (\<lambda>bad.
                     if bad then Inr (data_list_fail t st)
                     else bindR (all_lines a) (\<lambda>ls.
                       bindR (cgdcont_loop env ls ds) (\<lambda>r.
                         Inr (case r of None \<Rightarrow> data_list_fail t st | Some ds \<Rightarrow> data_list_ok t ds st))))))))"

text \<open>
  The reads of the status of \<^verbatim>\<open>/dev/qmi\<close>, at most ten; the end of the list is a read that delivers nothing.
\<close>

definition qmi_up :: "string \<Rightarrow> bool" where
  "qmi_up s \<longleftrightarrow> prefix ''STATE=up'' (take 31 s) \<or> take 31 s = ''online''"

fun qmi_status :: "nat \<Rightarrow> string option list \<Rightarrow> bool" where
  "qmi_status 0 rs = False"
| "qmi_status (Suc retry) [] = qmi_status retry []"
| "qmi_status (Suc retry) (None # rs) = False"
| "qmi_status (Suc retry) (Some s # rs) = (if qmi_up s then True else qmi_status retry rs)"

definition setup_qmi :: "ril_env \<Rightarrow> string \<Rightarrow> ril \<Rightarrow> bool \<times> ril" where
  "setup_qmi env apn st =
     (let st = ril_out (QmiWrite (''up:'' @ apn)) st
      in if \<not> qmi_write env \<or> \<not> qmi_status 10 (qmi_reads env) then (False, st)
         else (0 \<le> netcfg env, ril_out (Shell ''netcfg rmnet0 dhcp'') st))"

definition quoted :: "string \<Rightarrow> string" where
  "quoted s = CHR 0x22 # s @ [CHR 0x22]"

text \<open>The setup through the modem; the result tells whether the connection was started.\<close>

definition setup_modem :: "ril_env \<Rightarrow> string \<Rightarrow> string option \<Rightarrow> ril \<Rightarrow> (bool \<times> ril) res" where
  "setup_modem env apn pdp_type st =
     (let pdp = (case pdp_type of Some p \<Rightarrow> p | None \<Rightarrow> ''IP'');
          st = send_all env [''AT+CGDCONT=1,'' @ quoted pdp @ '','' @ quoted apn @ '',,0,0'', ''AT+CGQREQ=1'', ''AT+CGQMIN=1'',
                 ''AT+CGEREP=1,0'', ''AT+CGACT=1,0''] st
      in case at_send env (AtPlain ''ATD*99***1#'') st of (a, st) \<Rightarrow> bindR (answer_failed a) (\<lambda>failed. Inr (\<not> failed, st)))"

definition requestSetupDataCall :: "ril_env \<Rightarrow> string \<Rightarrow> string option \<Rightarrow> token \<Rightarrow> ril \<Rightarrow> ril res" where
  "requestSetupDataCall env apn pdp_type t st =
     bindR (if qmi_open env then Inr (setup_qmi env apn st) else setup_modem env apn pdp_type st) (\<lambda>(ok, st).
       if ok then requestOrSendDataCallList env (Some t) st else Inr (done_fail t st))"

section \<open>Calls\<close>

definition requestGetCurrentCalls :: "ril_env \<Rightarrow> token \<Rightarrow> ril \<Rightarrow> ril res" where
  "requestGetCurrentCalls env t st =
     (case at_send env (AtMulti ''AT+CLCC'' ''+CLCC:'') st of (a, st) \<Rightarrow>
        bindR (answer_bad a) (\<lambda>bad.
          if bad then Inr (done_fail t st)
          else bindR (all_lines a) (\<lambda>ls.
            case clcc_loop ls zero_call [] False of (calls, needRepoll) \<Rightarrow>
              let st = RIL_onRequestComplete t RIL_E_SUCCESS (Calls calls) st
              in Inr (if needRepoll then RIL_requestTimedCallback SendCallStateChanged st else st))))"

text \<open>A command whose success does not matter.\<close>

definition send_and_done :: "ril_env \<Rightarrow> string \<Rightarrow> token \<Rightarrow> ril \<Rightarrow> ril" where
  "send_and_done env cmd t st = done_ok t (at_send_only env (AtPlain cmd) st)"

definition requestDial :: "ril_env \<Rightarrow> string \<Rightarrow> int \<Rightarrow> token \<Rightarrow> ril \<Rightarrow> ril" where
  "requestDial env address clir t st =
     send_and_done env (''ATD'' @ address @ (if clir = 1 then ''I'' else if clir = 2 then ''i'' else []) @ '';'') t st"

definition requestHangup :: "ril_env \<Rightarrow> int \<Rightarrow> token \<Rightarrow> ril \<Rightarrow> ril" where
  "requestHangup env line t st = send_and_done env (''AT+CHLD=1'' @ show_int line) t st"

definition separateConnection :: "ril_env \<Rightarrow> int \<Rightarrow> token \<Rightarrow> ril \<Rightarrow> ril" where
  "separateConnection env party t st =
     (if party > 0 \<and> party < 10 then send_and_done env (''AT+CHLD=2'' @ show_int party) t st else done_fail t st)"

section \<open>Signal, registration, operator\<close>

definition requestSignalStrength :: "ril_env \<Rightarrow> token \<Rightarrow> ril \<Rightarrow> ril res" where
  "requestSignalStrength env t st =
     (case at_send env (AtSingle ''AT+CSQ'' ''+CSQ:'') st of (a, st) \<Rightarrow>
        bindR (answer_failed a) (\<lambda>failed.
          if failed then Inr (done_fail t (done_fail t st))
          else bindR (first_line a) (\<lambda>l.
            case parse_signal l of
              None \<Rightarrow> Inr (done_fail t st)
            | Some response \<Rightarrow> Inr (RIL_onRequestComplete t RIL_E_SUCCESS (Ints response) st))))"

definition requestQueryNetworkSelectionMode :: "ril_env \<Rightarrow> token \<Rightarrow> ril \<Rightarrow> ril res" where
  "requestQueryNetworkSelectionMode env t st =
     (case at_send env (AtSingle ''AT+COPS?'' ''+COPS:'') st of (a, st) \<Rightarrow>
        bindR (answer_failed a) (\<lambda>failed.
          if failed then Inr (done_fail t st)
          else bindR (first_line a) (\<lambda>l.
            case at_tok_start (Some l) of (err, line) \<Rightarrow>
              if err < 0 then Inr (done_fail t st)
              else case at_tok_nextint line 0 of (err, _, response) \<Rightarrow>
                if err < 0 then Inr (done_fail t st) else Inr (RIL_onRequestComplete t RIL_E_SUCCESS (Ints [response]) st))))"

text \<open>
  The strings of the answer to a registration request: \<open>voice\<close> tells the two requests apart. The loop that looks for
  missing strings tests the first one each time.
\<close>

definition registration_strings :: "bool \<Rightarrow> int list \<Rightarrow> nat \<Rightarrow> int \<Rightarrow> string option list" where
  "registration_strings voice registration count type =
     (if is3gpp2 type
      then [Some (show_int (registration ! 0)), None, None, Some ''8''] @
           (if voice then map Some [''1'', ''123'', ''222'', ''0'', ''4'', ''65535'', ''0'', ''1'', ''0'', ''0'', ''0'']
            else replicate 2 None)
      else [Some (show_int (registration ! 0)), Some (show_hex (registration ! 1)), Some (show_hex (registration ! 2)),
            if count > 3 then Some (show_int (registration ! 3)) else None] @ replicate (if voice then 11 else 2) None)"

definition requestRegistrationState :: "ril_env \<Rightarrow> bool \<Rightarrow> token \<Rightarrow> ril \<Rightarrow> ril res" where
  "requestRegistrationState env voice t st =
     (case at_send env (if voice then AtSingle ''AT+CREG?'' ''+CREG:'' else AtSingle ''AT+CGREG?'' ''+CGREG:'') st of (a, st) \<Rightarrow>
        if fst a \<noteq> 0 then Inr (done_fail t st)
        else bindR (first_line a) (\<lambda>l.
          bindR (parseRegistrationState l st) (\<lambda>(r, st).
            case r of
              None \<Rightarrow> Inr (done_fail t st)
            | Some (registration, count, type) \<Rightarrow>
                Inr (RIL_onRequestComplete t RIL_E_SUCCESS (Texts (registration_strings voice registration count type)) st))))"

definition requestOperator :: "ril_env \<Rightarrow> token \<Rightarrow> ril \<Rightarrow> ril res" where
  "requestOperator env t st =
     (case at_send env (AtMulti ''AT+COPS=3,0;+COPS?;+COPS=3,1;+COPS?;+COPS=3,2;+COPS?'' ''+COPS:'') st of (a, st) \<Rightarrow>
        if fst a \<noteq> 0 then Inr (done_fail t st)
        else bindR (all_lines a) (\<lambda>ls.
          bindR (cops_loop ls 0 (replicate 3 None) st) (\<lambda>(r, st).
            case r of
              None \<Rightarrow> Inr (done_fail t st)
            | Some (i, response) \<Rightarrow>
                Inr (if i \<noteq> 3 then done_fail t st else RIL_onRequestComplete t RIL_E_SUCCESS (Texts response) st))))"

section \<open>Network types\<close>

definition networkModePossible :: "int \<Rightarrow> ril \<Rightarrow> bool res" where
  "networkModePossible nm st = bindR (table_at net2modem nm) (\<lambda>m. Inr (m AND supportedTechs st = m))"

text \<open>\<^verbatim>\<open>PREFERRED_NETWORK(sMdmInfo) = value\<close>, and the technology of the answer.\<close>

definition preferred_set :: "int \<Rightarrow> string \<Rightarrow> ril \<Rightarrow> ril res" where
  "preferred_set value l st =
     (let st = st\<lparr>preferredNetworkMode := value\<rparr>
      in if strstr l ''DONE'' = None
         then (case parse_technology_response l of (res, current, _) \<Rightarrow>
                 if res = - 1 then Inr st else setRadioTechnology (the current) st)
         else Inr st)"

definition requestSetPreferredNetworkType :: "ril_env \<Rightarrow> int \<Rightarrow> token \<Rightarrow> ril \<Rightarrow> ril res" where
  "requestSetPreferredNetworkType env value t st =
     bindR (table_at net2pmask value) (\<lambda>preferred.
     bindR (networkModePossible value st) (\<lambda>possible.
       if \<not> possible then Inr (RIL_onRequestComplete t RIL_E_MODE_NOT_SUPPORTED NoData st)
       else bindR (query_ctec env st) (\<lambda>((res, current, _), st).
         if res < 0 then Inr (done_fail t st)
         else if preferredNetworkMode st \<noteq> preferred
         then (case at_send env (AtSingle (''AT+CTEC='' @ show_int (the current) @ '','' @ quoted (show_hex preferred)) ''+CTEC:'') st of (a, st) \<Rightarrow>
                 bindR (answer_bad a) (\<lambda>bad.
                   if bad then Inr (done_fail t st)
                   else bindR (first_line a) (\<lambda>l. bindR (preferred_set value l st) (\<lambda>st. Inr (done_ok t st)))))
         else Inr (done_ok t st))))"

fun find_index :: "int \<Rightarrow> int list \<Rightarrow> nat \<Rightarrow> nat option" where
  "find_index p [] i = None"
| "find_index p (x # xs) i = (if p = x then Some i else find_index p xs (i + 1))"

definition requestGetPreferredNetworkType :: "ril_env \<Rightarrow> token \<Rightarrow> ril \<Rightarrow> ril res" where
  "requestGetPreferredNetworkType env t st =
     bindR (query_ctec env st) (\<lambda>((res, _, preferred), st). Inr
       (if res = 0
        then (case find_index (the preferred) net2pmask 0 of
                Some i \<Rightarrow> RIL_onRequestComplete t RIL_E_SUCCESS (Ints [int i]) st
              | None \<Rightarrow> done_fail t st)
        else done_fail t st))"

section \<open>CDMA\<close>

definition requestCdmaBaseBandVersion :: "token \<Rightarrow> ril \<Rightarrow> ril" where
  "requestCdmaBaseBandVersion t st = RIL_onRequestComplete t RIL_E_SUCCESS (Text ''1.0.0.0'') st"

definition requestCdmaDeviceIdentity :: "ril_env \<Rightarrow> token \<Rightarrow> ril \<Rightarrow> ril res" where
  "requestCdmaDeviceIdentity env t st =
     (case at_send env (AtNumeric ''AT+CGSN'') st of (a, st) \<Rightarrow>
        bindR (answer_failed a) (\<lambda>failed.
          if failed then Inr (done_fail t st)
          else bindR (first_line a) (\<lambda>l.
            Inr (RIL_onRequestComplete t RIL_E_SUCCESS (Texts [Some ''----'', Some ''----'', Some ''77777777'', Some l]) st))))"

text \<open>The result of the last token is not looked at: without a number the answer is 0.\<close>

definition requestCdmaGetSubscriptionSource :: "ril_env \<Rightarrow> token \<Rightarrow> ril \<Rightarrow> ril res" where
  "requestCdmaGetSubscriptionSource env t st =
     (case at_send env (AtSingle ''AT+CCSS?'' ''+CCSS:'') st of (a, st) \<Rightarrow>
        bindR (answer_failed a) (\<lambda>failed.
          if failed then Inr (done_fail t st)
          else bindR (first_line a) (\<lambda>l.
            case at_tok_start (Some l) of (err, line) \<Rightarrow>
              if err < 0 then Inr (done_fail t st)
              else case at_tok_nextint line 0 of (_, _, response) \<Rightarrow>
                Inr (RIL_onRequestComplete t RIL_E_SUCCESS (Ints [response]) st))))"

definition requestCdmaSetSubscriptionSource :: "ril_env \<Rightarrow> int option \<Rightarrow> token \<Rightarrow> ril \<Rightarrow> ril res" where
  "requestCdmaSetSubscriptionSource env ss t st =
     (case ss of
        None \<Rightarrow> Inr (done_fail t st)
      | Some s \<Rightarrow>
          (case at_send env (AtPlain (''AT+CCSS='' @ show_int s)) st of (a, st) \<Rightarrow>
             bindR (answer_failed a) (\<lambda>failed.
               if failed then Inr (done_fail t st)
               else Inr (RIL_onUnsolicitedResponse UNSOL_CDMA_SUBSCRIPTION_SOURCE_CHANGED (Ints [s]) (done_ok t st)))))"

definition requestCdmaSubscription :: "token \<Rightarrow> ril \<Rightarrow> ril" where
  "requestCdmaSubscription t st =
     RIL_onRequestComplete t RIL_E_SUCCESS (Texts (map Some [''8587777777'', ''1'', ''1'', ''8587777777'', ''1''])) st"

definition requestCdmaGetRoamingPreference :: "ril_env \<Rightarrow> token \<Rightarrow> ril \<Rightarrow> ril res" where
  "requestCdmaGetRoamingPreference env t st =
     (case at_send env (AtSingle ''AT+WRMP?'' ''+WRMP:'') st of (a, st) \<Rightarrow>
        bindR (answer_failed a) (\<lambda>failed.
          if failed then Inr (done_fail t st)
          else bindR (first_line a) (\<lambda>l.
            case at_tok_start (Some l) of (err, line) \<Rightarrow>
              if err < 0 then Inr (done_fail t st)
              else case at_tok_nextint line (- 1) of (err, _, pref) \<Rightarrow>
                if err < 0 then Inr (done_fail t st) else Inr (RIL_onRequestComplete t RIL_E_SUCCESS (Ints [pref]) st))))"

text \<open>A command whose success is the result of the request.\<close>

definition send_and_report :: "ril_env \<Rightarrow> string \<Rightarrow> token \<Rightarrow> ril \<Rightarrow> ril res" where
  "send_and_report env cmd t st =
     (case at_send env (AtPlain cmd) st of (a, st) \<Rightarrow>
        bindR (answer_failed a) (\<lambda>failed. Inr (if failed then done_fail t st else done_ok t st)))"

definition requestCdmaSetRoamingPreference :: "ril_env \<Rightarrow> int \<Rightarrow> token \<Rightarrow> ril \<Rightarrow> ril res" where
  "requestCdmaSetRoamingPreference env pref t st = send_and_report env (''AT+WRMP='' @ show_int pref) t st"

definition requestExitEmergencyMode :: "ril_env \<Rightarrow> token \<Rightarrow> ril \<Rightarrow> ril res" where
  "requestExitEmergencyMode env t st = send_and_report env ''AT+WSOS=0'' t st"

definition requestCdmaPrlVersion :: "ril_env \<Rightarrow> token \<Rightarrow> ril \<Rightarrow> ril res" where
  "requestCdmaPrlVersion env t st =
     (case at_send env (AtSingle ''AT+WPRL?'' ''+WPRL:'') st of (a, st) \<Rightarrow>
        bindR (answer_failed a) (\<lambda>failed.
          if failed then Inr (done_fail t st)
          else bindR (first_line a) (\<lambda>l.
            case at_tok_start (Some l) of (err, line) \<Rightarrow>
              if err < 0 then Inr (done_fail t st)
              else case at_tok_nextstr line None of (err, _, s) \<Rightarrow>
                if err < 0 \<or> s = None then Inr (done_fail t st)
                else Inr (RIL_onRequestComplete t RIL_E_SUCCESS (Text (the s)) st))))"

section \<open>Short messages\<close>

definition requestWriteSmsToSim :: "ril_env \<Rightarrow> string \<Rightarrow> int \<Rightarrow> token \<Rightarrow> ril \<Rightarrow> ril res" where
  "requestWriteSmsToSim env pdu status t st =
     (case at_send env (AtSms (''AT+CMGW='' @ show_nat (length pdu div 2) @ '','' @ show_int status) pdu ''+CMGW:'') st of (a, st) \<Rightarrow>
        bindR (answer_bad a) (\<lambda>bad. Inr (if bad then done_fail t st else done_ok t st)))"

definition requestCdmaSendSMS :: "token \<Rightarrow> ril \<Rightarrow> ril" where
  "requestCdmaSendSMS t st = RIL_onRequestComplete t RIL_E_SMS_SEND_FAIL_RETRY (SmsRef (- 1)) st"

definition requestSendSMS :: "ril_env \<Rightarrow> string option \<Rightarrow> string \<Rightarrow> token \<Rightarrow> ril \<Rightarrow> ril res" where
  "requestSendSMS env smsc pdu t st =
     (if s_ims_gsm_fail env \<noteq> 0 then Inr (RIL_onRequestComplete t RIL_E_GENERIC_FAILURE (SmsRef (- 2)) st)
      else if s_ims_gsm_retry env \<noteq> 0 then Inr (RIL_onRequestComplete t RIL_E_SMS_SEND_FAIL_RETRY (SmsRef (- 1)) st)
      else
        let smsc = (case smsc of None \<Rightarrow> ''00'' | Some s \<Rightarrow> s)
        in case at_send env (AtSms (''AT+CMGS='' @ show_nat (length pdu div 2)) (smsc @ pdu) ''+CMGS:'') st of (a, st) \<Rightarrow>
             bindR (answer_bad a) (\<lambda>bad. Inr
               (if bad then RIL_onRequestComplete t RIL_E_GENERIC_FAILURE (SmsRef (- 2)) st
                else RIL_onRequestComplete t RIL_E_SUCCESS (SmsRef 1) st)))"

text \<open>The technology of the message: 1 is \<^verbatim>\<open>RADIO_TECH_3GPP\<close>, 2 \<^verbatim>\<open>RADIO_TECH_3GPP2\<close>.\<close>

definition requestImsSendSMS :: "ril_env \<Rightarrow> int \<Rightarrow> int \<Rightarrow> string option \<Rightarrow> string \<Rightarrow> token \<Rightarrow> ril \<Rightarrow> ril res" where
  "requestImsSendSMS env retry tech smsc pdu t st =
     (if s_ims_cause_perm_failure env \<noteq> 0 then Inr (RIL_onRequestComplete t RIL_E_GENERIC_FAILURE (SmsRef (- 2)) st)
      else if s_ims_cause_retry env \<noteq> 0 \<and> retry = 0 then Inr (RIL_onRequestComplete t RIL_E_SMS_SEND_FAIL_RETRY (SmsRef (- 1)) st)
      else if tech = 1 then requestSendSMS env smsc pdu t st
      else if tech = 2 then Inr (requestCdmaSendSMS t st)
      else Inr (RIL_onRequestComplete t RIL_E_GENERIC_FAILURE (SmsRef (- 2)) st))"

text \<open>After the success of the command the function runs on into its error exit.\<close>

definition requestSMSAcknowledge :: "ril_env \<Rightarrow> int \<Rightarrow> token \<Rightarrow> ril \<Rightarrow> ril" where
  "requestSMSAcknowledge env ackSuccess t st =
     (if ackSuccess = 1 then done_fail t (done_ok t (at_send_only env (AtPlain ''AT+CNMA=1'') st))
      else if ackSuccess = 0 then done_fail t (done_ok t (at_send_only env (AtPlain ''AT+CNMA=2'') st))
      else done_fail t st)"

section \<open>SIM\<close>

definition opened :: "at_answer \<Rightarrow> bool" where
  "opened a \<longleftrightarrow> \<not> (fst a < 0 \<or> snd a = None \<or> success (the (snd a)) = 0)"

text \<open>The data as a string, if there is any, and its length.\<close>

definition requestSimOpenChannel :: "ril_env \<Rightarrow> string option \<Rightarrow> nat \<Rightarrow> token \<Rightarrow> ril \<Rightarrow> ril res" where
  "requestSimOpenChannel env data datalen t st =
     (case data of
        None \<Rightarrow> Inr (done_fail t st)
      | Some s \<Rightarrow>
          if datalen = 0 \<or> datalen > 16 then Inr (done_fail t st)
          else case at_send env (AtNumeric (take 31 (''AT+CCHO='' @ s))) st of (a, st) \<Rightarrow>
            if \<not> opened a then Inr (done_fail t st)
            else bindR (first_line a) (\<lambda>l. Inr
              (case scan_session l of
                 None \<Rightarrow> done_fail t st
               | Some session_id \<Rightarrow> RIL_onRequestComplete t RIL_E_SUCCESS (Ints [session_id]) st)))"

definition requestSimCloseChannel :: "ril_env \<Rightarrow> int option \<Rightarrow> token \<Rightarrow> ril \<Rightarrow> ril" where
  "requestSimCloseChannel env data t st =
     (case data of
        None \<Rightarrow> done_fail t st
      | Some session_id \<Rightarrow>
          (case at_send env (AtSingle (take 31 (''AT+CCHC='' @ show_int session_id)) ''+CCHC'') st of (a, st) \<Rightarrow>
             if \<not> opened a then done_fail t st else done_ok t st))"

record RIL_SIM_APDU =
  sessionid :: int
  apdu_bytes :: "int list"
  apdu_data :: "string option"

definition zero_sim_io :: RIL_SIM_IO_Response where
  "zero_sim_io = \<lparr>sw1 = 0, sw2 = 0, simResponse = None\<rparr>"

text \<open>The five bytes are class, instruction and the parameters.\<close>

definition apdu_command :: "RIL_SIM_APDU \<Rightarrow> string" where
  "apdu_command apdu =
     (let d = (case apdu_data apdu of None \<Rightarrow> [] | Some s \<Rightarrow> s)
      in ''AT+CGLA='' @ show_int (sessionid apdu) @ '','' @ show_nat (10 + length d) @ '','' @
         concat (map show_hex2 (apdu_bytes apdu)) @ d)"

text \<open>The response is a local struct that is not initialised; a line without a third field leaves its pointer as it is.\<close>

definition requestSimTransmitApduChannel :: "ril_env \<Rightarrow> RIL_SIM_APDU option \<Rightarrow> token \<Rightarrow> ril \<Rightarrow> ril res" where
  "requestSimTransmitApduChannel env apdu t st =
     (case apdu of
        None \<Rightarrow> Inr (done_fail t st)
      | Some apdu \<Rightarrow>
          (case at_send env (AtSingle (apdu_command apdu) ''+CGLA'') st of (a, st) \<Rightarrow>
             if \<not> opened a then Inr (done_fail t st)
             else bindR (first_line a) (\<lambda>l. Inr
               (case parseSimResponseLine l (stale_sim_io env) of (err, sr) \<Rightarrow>
                  if err = 0 then RIL_onRequestComplete t RIL_E_SUCCESS (SimIo sr) st else done_fail t st))))"

text \<open>The five numbers are command, file and the parameters.\<close>

definition simio_command :: "int list \<Rightarrow> string option \<Rightarrow> string" where
  "simio_command ns d =
     ''AT+CRSM='' @ concat (map (\<lambda>n. show_int n @ '','') (butlast ns)) @ show_int (last ns) @
     (case d of None \<Rightarrow> [] | Some s \<Rightarrow> CHR '','' # s)"

definition requestSIM_IO :: "ril_env \<Rightarrow> int list \<Rightarrow> string option \<Rightarrow> token \<Rightarrow> ril \<Rightarrow> ril res" where
  "requestSIM_IO env ns d t st =
     (case at_send env (AtSingle (simio_command ns d) ''+CRSM:'') st of (a, st) \<Rightarrow>
        bindR (answer_failed a) (\<lambda>failed.
          if failed then Inr (done_fail t st)
          else bindR (first_line a) (\<lambda>l. Inr
            (case parseSimResponseLine l zero_sim_io of (err, sr) \<Rightarrow>
               if err < 0 then done_fail t st else RIL_onRequestComplete t RIL_E_SUCCESS (SimIo sr) st))))"

definition requestEnterSimPin :: "ril_env \<Rightarrow> string list \<Rightarrow> token \<Rightarrow> ril \<Rightarrow> ril res" where
  "requestEnterSimPin env strings t st =
     (if length strings = 1 \<or> length strings = 2
      then (case at_send env (AtSingle (''AT+CPIN='' @ hd strings @ (if length strings = 2 then CHR '','' # strings ! 1 else [])) ''+CPIN:'') st of (a, st) \<Rightarrow>
              bindR (answer_failed a) (\<lambda>failed. Inr
                (if failed then RIL_onRequestComplete t RIL_E_PASSWORD_INCORRECT NoData st else done_ok t st)))
      else Inr (RIL_onRequestComplete t RIL_E_PASSWORD_INCORRECT NoData st))"

text \<open>The number that a command answers with: \<^verbatim>\<open>GET_IMSI\<close>, \<^verbatim>\<open>GET_IMEI\<close>, \<^verbatim>\<open>CANCEL_USSD\<close>.\<close>

definition send_numeric :: "ril_env \<Rightarrow> string \<Rightarrow> token \<Rightarrow> ril \<Rightarrow> ril res" where
  "send_numeric env cmd t st =
     (case at_send env (AtNumeric cmd) st of (a, st) \<Rightarrow>
        bindR (answer_failed a) (\<lambda>failed.
          if failed then Inr (done_fail t st)
          else bindR (first_line a) (\<lambda>l. Inr (RIL_onRequestComplete t RIL_E_SUCCESS (Text l) st))))"

section \<open>Cells and the rest\<close>

definition requestGetCellInfoList :: "ril_env \<Rightarrow> token \<Rightarrow> ril \<Rightarrow> ril" where
  "requestGetCellInfoList env t st =
     RIL_onRequestComplete t RIL_E_SUCCESS (CellInfo (nano_time env - 1000) (s_mcc st) (s_mnc st) (s_lac st) (s_cid st)) st"

definition requestSetCellInfoListRate :: "int \<Rightarrow> token \<Rightarrow> ril \<Rightarrow> ril" where
  "requestSetCellInfoListRate rate t st = done_ok t (st\<lparr>s_cell_info_rate_ms := rate\<rparr>)"

definition requestGetHardwareConfig :: "token \<Rightarrow> ril \<Rightarrow> ril" where
  "requestGetHardwareConfig t st = RIL_onRequestComplete t RIL_E_SUCCESS (Ints [- 1]) st"

definition imsRegistrationState :: "ril_env \<Rightarrow> token \<Rightarrow> ril \<Rightarrow> ril" where
  "imsRegistrationState env t st =
     (if s_ims_format env \<noteq> - 1
      then RIL_onRequestComplete t RIL_E_SUCCESS (Ints [s_ims_registered env, s_ims_format env]) st else done_fail t st)"

definition voiceRadioTech :: "token \<Rightarrow> ril \<Rightarrow> ril res" where
  "voiceRadioTech t st =
     bindR (techFromModemType (currentTech st)) (\<lambda>tech. Inr
       (if tech < 0 then done_fail t st else RIL_onRequestComplete t RIL_E_SUCCESS (Ints [tech]) st))"

definition getSimStatusRequest :: "ril_env \<Rightarrow> token \<Rightarrow> ril \<Rightarrow> ril res" where
  "getSimStatusRequest env t st =
     bindR (getCardStatus env st) (\<lambda>(card, st). Inr (RIL_onRequestComplete t RIL_E_SUCCESS (Card card) st))"

section \<open>The dispatch\<close>

text \<open>The requests of the switch with what the library passes for them.\<close>

datatype ril_request =
    GET_SIM_STATUS | GET_CURRENT_CALLS | DIAL string int | HANGUP int | HANGUP_WAITING_OR_BACKGROUND
  | HANGUP_FOREGROUND_RESUME_BACKGROUND | SWITCH_WAITING_OR_HOLDING_AND_ACTIVE | ANSWER | CONFERENCE | UDUB
  | SEPARATE_CONNECTION int | SIGNAL_STRENGTH | VOICE_REGISTRATION_STATE | DATA_REGISTRATION_STATE | OPERATOR
  | RADIO_POWER int | DTMF char | SEND_SMS "string option" string | CDMA_SEND_SMS | IMS_SEND_SMS int int "string option" string
  | SIM_OPEN_CHANNEL "string option" nat | SIM_CLOSE_CHANNEL "int option" | SIM_TRANSMIT_APDU_CHANNEL "RIL_SIM_APDU option"
  | SETUP_DATA_CALL string "string option" | SMS_ACKNOWLEDGE int | GET_IMSI | GET_IMEI | SIM_IO "int list" "string option"
  | SEND_USSD | CANCEL_USSD | SET_NETWORK_SELECTION_AUTOMATIC | DATA_CALL_LIST | QUERY_NETWORK_SELECTION_MODE
  | OEM_HOOK_RAW | OEM_HOOK_STRINGS | WRITE_SMS_TO_SIM string int | DELETE_SMS_ON_SIM int | ENTER_SIM_PIN "string list"
  | IMS_REGISTRATION_STATE | VOICE_RADIO_TECH | SET_PREFERRED_NETWORK_TYPE int | GET_PREFERRED_NETWORK_TYPE
  | GET_CELL_INFO_LIST | SET_UNSOL_CELL_INFO_LIST_RATE int | GET_HARDWARE_CONFIG | SHUTDOWN
  | BASEBAND_VERSION | DEVICE_IDENTITY | CDMA_SUBSCRIPTION | CDMA_SET_SUBSCRIPTION_SOURCE "int option"
  | CDMA_GET_SUBSCRIPTION_SOURCE | CDMA_QUERY_ROAMING_PREFERENCE | CDMA_SET_ROAMING_PREFERENCE int
  | EXIT_EMERGENCY_CALLBACK_MODE | ALLOW_DATA | DEACTIVATE_DATA_CALL | OTHER_REQUEST

text \<open>
  A case for CDMA modems: with another technology the code runs on through the cases below it, which make the same test, to the
  case of \<^verbatim>\<open>RIL_REQUEST_ALLOW_DATA\<close>.
\<close>

definition cdma_or_fall_through :: "(ril \<Rightarrow> ril res) \<Rightarrow> token \<Rightarrow> ril \<Rightarrow> ril res" where
  "cdma_or_fall_through f t st =
     bindR (bit_of (currentTech st)) (\<lambda>b. if b = MDM_CDMA then f st else Inr (done_ok t st))"

fun dispatch :: "ril_env \<Rightarrow> ril_request \<Rightarrow> token \<Rightarrow> ril \<Rightarrow> ril res" where
  "dispatch env GET_SIM_STATUS t st = getSimStatusRequest env t st"
| "dispatch env GET_CURRENT_CALLS t st = requestGetCurrentCalls env t st"
| "dispatch env (DIAL address clir) t st = Inr (requestDial env address clir t st)"
| "dispatch env (HANGUP line) t st = Inr (requestHangup env line t st)"
| "dispatch env HANGUP_WAITING_OR_BACKGROUND t st = Inr (send_and_done env ''AT+CHLD=0'' t st)"
| "dispatch env HANGUP_FOREGROUND_RESUME_BACKGROUND t st = Inr (send_and_done env ''AT+CHLD=1'' t st)"
| "dispatch env SWITCH_WAITING_OR_HOLDING_AND_ACTIVE t st = Inr (send_and_done env ''AT+CHLD=2'' t st)"
| "dispatch env ANSWER t st = Inr (send_and_done env ''ATA'' t st)"
| "dispatch env CONFERENCE t st = Inr (send_and_done env ''AT+CHLD=3'' t st)"
| "dispatch env UDUB t st = Inr (send_and_done env ''ATH'' t st)"
| "dispatch env (SEPARATE_CONNECTION party) t st = Inr (separateConnection env party t st)"
| "dispatch env SIGNAL_STRENGTH t st = requestSignalStrength env t st"
| "dispatch env VOICE_REGISTRATION_STATE t st = requestRegistrationState env True t st"
| "dispatch env DATA_REGISTRATION_STATE t st = requestRegistrationState env False t st"
| "dispatch env OPERATOR t st = requestOperator env t st"
| "dispatch env (RADIO_POWER onOff) t st = requestRadioPower env onOff t st"
| "dispatch env (DTMF c) t st = Inr (send_and_done env (''AT+VTS='' @ [c]) t st)"
| "dispatch env (SEND_SMS smsc pdu) t st = requestSendSMS env smsc pdu t st"
| "dispatch env CDMA_SEND_SMS t st = Inr (requestCdmaSendSMS t st)"
| "dispatch env (IMS_SEND_SMS retry tech smsc pdu) t st = requestImsSendSMS env retry tech smsc pdu t st"
| "dispatch env (SIM_OPEN_CHANNEL s n) t st = requestSimOpenChannel env s n t st"
| "dispatch env (SIM_CLOSE_CHANNEL s) t st = Inr (requestSimCloseChannel env s t st)"
| "dispatch env (SIM_TRANSMIT_APDU_CHANNEL apdu) t st = requestSimTransmitApduChannel env apdu t st"
| "dispatch env (SETUP_DATA_CALL apn pdp) t st = requestSetupDataCall env apn pdp t st"
| "dispatch env (SMS_ACKNOWLEDGE ack) t st = Inr (requestSMSAcknowledge env ack t st)"
| "dispatch env GET_IMSI t st = send_numeric env ''AT+CIMI'' t st"
| "dispatch env GET_IMEI t st = send_numeric env ''AT+CGSN'' t st"
| "dispatch env (SIM_IO ns d) t st = requestSIM_IO env ns d t st"
| "dispatch env SEND_USSD t st = Inr (RIL_onRequestComplete t RIL_E_REQUEST_NOT_SUPPORTED NoData st)"
| "dispatch env CANCEL_USSD t st = send_numeric env ''AT+CUSD=2'' t st"
| "dispatch env SET_NETWORK_SELECTION_AUTOMATIC t st = Inr (at_send_only env (AtPlain ''AT+COPS=0'') st)"
| "dispatch env DATA_CALL_LIST t st = requestOrSendDataCallList env (Some t) st"
| "dispatch env QUERY_NETWORK_SELECTION_MODE t st = requestQueryNetworkSelectionMode env t st"
| "dispatch env OEM_HOOK_RAW t st = Inr (RIL_onRequestComplete t RIL_E_SUCCESS Echo st)"
| "dispatch env OEM_HOOK_STRINGS t st = Inr (RIL_onRequestComplete t RIL_E_SUCCESS Echo st)"
| "dispatch env (WRITE_SMS_TO_SIM pdu status) t st = requestWriteSmsToSim env pdu status t st"
| "dispatch env (DELETE_SMS_ON_SIM i) t st = send_and_report env (''AT+CMGD='' @ show_int i) t st"
| "dispatch env (ENTER_SIM_PIN ss) t st = requestEnterSimPin env ss t st"
| "dispatch env IMS_REGISTRATION_STATE t st = Inr (imsRegistrationState env t st)"
| "dispatch env VOICE_RADIO_TECH t st = voiceRadioTech t st"
| "dispatch env (SET_PREFERRED_NETWORK_TYPE v) t st = requestSetPreferredNetworkType env v t st"
| "dispatch env GET_PREFERRED_NETWORK_TYPE t st = requestGetPreferredNetworkType env t st"
| "dispatch env GET_CELL_INFO_LIST t st = Inr (requestGetCellInfoList env t st)"
| "dispatch env (SET_UNSOL_CELL_INFO_LIST_RATE r) t st = Inr (requestSetCellInfoListRate r t st)"
| "dispatch env GET_HARDWARE_CONFIG t st = Inr (requestGetHardwareConfig t st)"
| "dispatch env SHUTDOWN t st = requestShutdown env t st"
| "dispatch env BASEBAND_VERSION t st = cdma_or_fall_through (\<lambda>st. Inr (requestCdmaBaseBandVersion t st)) t st"
| "dispatch env DEVICE_IDENTITY t st = cdma_or_fall_through (requestCdmaDeviceIdentity env t) t st"
| "dispatch env CDMA_SUBSCRIPTION t st = cdma_or_fall_through (\<lambda>st. Inr (requestCdmaSubscription t st)) t st"
| "dispatch env (CDMA_SET_SUBSCRIPTION_SOURCE s) t st = cdma_or_fall_through (requestCdmaSetSubscriptionSource env s t) t st"
| "dispatch env CDMA_GET_SUBSCRIPTION_SOURCE t st = cdma_or_fall_through (requestCdmaGetSubscriptionSource env t) t st"
| "dispatch env CDMA_QUERY_ROAMING_PREFERENCE t st = cdma_or_fall_through (requestCdmaGetRoamingPreference env t) t st"
| "dispatch env (CDMA_SET_ROAMING_PREFERENCE p) t st = cdma_or_fall_through (requestCdmaSetRoamingPreference env p t) t st"
| "dispatch env EXIT_EMERGENCY_CALLBACK_MODE t st = cdma_or_fall_through (requestExitEmergencyMode env t) t st"
| "dispatch env ALLOW_DATA t st = Inr (done_ok t st)"
| "dispatch env DEACTIVATE_DATA_CALL t st = send_and_report env ''AT+CCVLTE'' t st"
| "dispatch env OTHER_REQUEST t st = Inr (RIL_onRequestComplete t RIL_E_REQUEST_NOT_SUPPORTED NoData st)"

definition is_radio_power :: "ril_request \<Rightarrow> bool" where
  "is_radio_power r \<longleftrightarrow> (case r of RADIO_POWER _ \<Rightarrow> True | _ \<Rightarrow> False)"

definition onRequest :: "ril_env \<Rightarrow> ril_request \<Rightarrow> token \<Rightarrow> ril \<Rightarrow> ril res" where
  "onRequest env request t st =
     (if sState st = RADIO_STATE_UNAVAILABLE \<and> request \<noteq> GET_SIM_STATUS
      then Inr (RIL_onRequestComplete t RIL_E_RADIO_NOT_AVAILABLE NoData st)
      else if sState st = RADIO_STATE_OFF \<and> \<not> (is_radio_power request \<or> request = GET_SIM_STATUS)
      then Inr (RIL_onRequestComplete t RIL_E_RADIO_NOT_AVAILABLE NoData st)
      else dispatch env request t st)"

text \<open>The callbacks that the file registers with the library.\<close>

fun timed_callback :: "ril_env \<Rightarrow> ril_callback \<Rightarrow> ril \<Rightarrow> ril res" where
  "timed_callback env OnDataCallListChanged st = requestOrSendDataCallList env None st"
| "timed_callback env SendCallStateChanged st = Inr (RIL_onUnsolicitedResponse UNSOL_CALL_STATE_CHANGED NoData st)"
| "timed_callback env PollSIMState st = pollSIMState env st"
| "timed_callback env InitializeCallback st = initializeCallback env st"

end
