(* ===== verification/RIL_Contract.thy ===== *)
theory RIL_Contract
  imports RIL_Requests RIL_Commands
begin

text \<open>
  The interface between the request handlers and the AT channel. A handler relies on what a command hands out: an error
  without a response, or a response, with a line in it for the commands that need one. The contract is a locale over the
  environment of the handlers; the channel of \<^verbatim>\<open>atchannel.c\<close> meets it, and under it every
  handler ends and completes its request once.
\<close>

section \<open>Outcomes\<close>

text \<open>A computation ends without a fault in a result with the property.\<close>

definition ends :: "('a \<Rightarrow> bool) \<Rightarrow> 'a res \<Rightarrow> bool" where
  "ends P m \<longleftrightarrow> (case m of Inl _ \<Rightarrow> False | Inr x \<Rightarrow> P x)"

lemma ends_simps [ril_simps]:
  "ends P (Inr x) \<longleftrightarrow> P x"
  "\<not> ends P (Inl e)"
  "ends P (bindR m f) \<longleftrightarrow> ends (\<lambda>x. ends P (f x)) m"
  by (cases m; simp add: ends_def)+

lemma ends_iff: "ends P m \<longleftrightarrow> (\<exists>x. m = Inr x \<and> P x)"
  by (cases m) (simp_all add: ends_def)

lemma ends_mono: "ends P m \<Longrightarrow> (\<And>x. P x \<Longrightarrow> Q x) \<Longrightarrow> ends Q m"
  by (cases m) (simp_all add: ends_def)

text \<open>The requests that a trace completes, in order.\<close>

fun completed :: "ril_out list \<Rightarrow> token list" where
  "completed [] = []"
| "completed (Complete t e p # xs) = t # completed xs"
| "completed (x # xs) = completed xs"

lemma completed_append [ril_simps]: "completed (xs @ ys) = completed xs @ completed ys"
  by (induction xs rule: completed.induct) simp_all

definition tokens_done :: "ril \<Rightarrow> token list" where
  "tokens_done st = completed (ril_outs st)"

definition once :: "token \<Rightarrow> ril \<Rightarrow> ril \<Rightarrow> bool" where
  "once t st = (\<lambda>st'. tokens_done st' = tokens_done st @ [t])"

lemma tokens_done_simps [ril_simps]:
  "tokens_done (ril_out (Sent q) st) = tokens_done st"
  "tokens_done (ril_out (QmiWrite s) st) = tokens_done st"
  "tokens_done (ril_out (Shell s) st) = tokens_done st"
  "tokens_done (ril_out AtClose st) = tokens_done st"
  "tokens_done (RIL_onRequestComplete t e p st) = tokens_done st @ [t]"
  "tokens_done (RIL_onUnsolicitedResponse u p st) = tokens_done st"
  "tokens_done (RIL_requestTimedCallback cb st) = tokens_done st"
  by (simp_all add: tokens_done_def ril_out_def RIL_onRequestComplete_def RIL_onUnsolicitedResponse_def
      RIL_requestTimedCallback_def completed_append)

lemma tokens_done_updates [ril_simps]:
  "tokens_done (st\<lparr>sState := a\<rparr>) = tokens_done st" "tokens_done (st\<lparr>s_closed := b\<rparr>) = tokens_done st"
  "tokens_done (st\<lparr>supportedTechs := c\<rparr>) = tokens_done st" "tokens_done (st\<lparr>currentTech := c\<rparr>) = tokens_done st"
  "tokens_done (st\<lparr>isMultimode := c\<rparr>) = tokens_done st" "tokens_done (st\<lparr>preferredNetworkMode := c\<rparr>) = tokens_done st"
  "tokens_done (st\<lparr>subscription_source := c\<rparr>) = tokens_done st" "tokens_done (st\<lparr>s_cell_info_rate_ms := c\<rparr>) = tokens_done st"
  "tokens_done (st\<lparr>sent_nu := n\<rparr>) = tokens_done st"
  by (simp_all add: tokens_done_def)

text \<open>The state after a command.\<close>

definition sent :: "at_request \<Rightarrow> ril \<Rightarrow> ril" where
  "sent req st = ril_out (Sent req) (st\<lparr>sent_nu := Suc (sent_nu st)\<rparr>)"

lemma at_send_sent [ril_simps]: "at_send env req st = (modem env (sent_nu st) req, sent req st)"
  by (simp add: at_send_def sent_def)

lemma at_send_only_sent [ril_simps]: "at_send_only env req st = sent req st"
  by (simp add: at_send_only_def ril_simps)

lemma sent_fields [ril_simps]:
  "tokens_done (sent req st) = tokens_done st" "sState (sent req st) = sState st" "s_closed (sent req st) = s_closed st"
  "currentTech (sent req st) = currentTech st" "supportedTechs (sent req st) = supportedTechs st"
  "sent_nu (sent req st) = Suc (sent_nu st)" "ril_outs (sent req st) = ril_outs st @ [Sent req]"
  by (simp_all add: sent_def ril_simps) (simp_all add: ril_out_def)

lemma send_all_tokens [ril_simps]: "tokens_done (send_all env cmds st) = tokens_done st"
  by (induction cmds arbitrary: st) (simp_all add: send_all_def ril_simps)

section \<open>What a command hands out\<close>

definition wants_line :: "at_request \<Rightarrow> bool" where
  "wants_line req \<longleftrightarrow> (case req of AtNumeric _ \<Rightarrow> True | AtSingle _ _ \<Rightarrow> True | AtSms _ _ _ \<Rightarrow> True | _ \<Rightarrow> False)"

definition answer_ok :: "at_request \<Rightarrow> at_answer \<Rightarrow> bool" where
  "answer_ok req a \<longleftrightarrow>
     fst a \<le> 0 \<and>
     (fst a = 0 \<and> req \<noteq> AtHandshake \<longrightarrow>
        (\<exists>r. snd a = Some r \<and> (success r = 0 \<or> success r = 1) \<and> (wants_line req \<and> success r = 1 \<longrightarrow> p_intermediates r \<noteq> [])))"

locale at_modem =
  fixes env :: ril_env
  assumes answers: "answer_ok req (modem env n req)"
begin

text \<open>The answer tells success, and its lines.\<close>

definition said_ok :: "nat \<Rightarrow> at_request \<Rightarrow> bool" where
  "said_ok n req \<longleftrightarrow> fst (modem env n req) = 0 \<and> success (the (snd (modem env n req))) = 1"

definition said :: "nat \<Rightarrow> at_request \<Rightarrow> string list" where
  "said n req = p_intermediates (the (snd (modem env n req)))"

lemma answer_of: "fst (modem env n req) = 0 \<Longrightarrow> req \<noteq> AtHandshake \<Longrightarrow>
  \<exists>r. modem env n req = (0, Some r) \<and> (success r = 0 \<or> success r = 1) \<and> (wants_line req \<and> success r = 1 \<longrightarrow> p_intermediates r \<noteq> [])"
  using answers[of req n] by (cases "modem env n req") (auto simp: answer_ok_def)

lemma answer_neg: "fst (modem env n req) < 0 \<or> fst (modem env n req) = 0"
  using answers[of req n] by (auto simp: answer_ok_def)

lemma failed_said [ril_simps]:
  "req \<noteq> AtHandshake \<Longrightarrow> answer_failed (modem env n req) = Inr (\<not> said_ok n req)"
  "req \<noteq> AtHandshake \<Longrightarrow> answer_bad (modem env n req) = Inr (\<not> said_ok n req)"
  using answer_neg[of n req] answer_of[of n req]
  by (auto simp: answer_failed_def answer_bad_def said_ok_def split: prod.splits)

lemma first_line_said [ril_simps]: "said_ok n req \<Longrightarrow> wants_line req \<Longrightarrow> first_line (modem env n req) = Inr (hd (said n req))"
  using answer_of[of n req]
  by (cases req) (fastforce simp: first_line_def said_ok_def said_def wants_line_def neq_Nil_conv)+

lemma all_lines_said [ril_simps]: "said_ok n req \<Longrightarrow> req \<noteq> AtHandshake \<Longrightarrow> all_lines (modem env n req) = Inr (said n req)"
  using answer_of[of n req] by (auto simp: all_lines_def said_ok_def said_def)

lemma opened_said [ril_simps]: "req \<noteq> AtHandshake \<Longrightarrow> opened (modem env n req) \<longleftrightarrow> said_ok n req"
  using answer_neg[of n req] answer_of[of n req] by (auto simp: opened_def said_ok_def)

end

lemma wants_line_simps [ril_simps]:
  "wants_line (AtNumeric c)" "wants_line (AtSingle c p)" "wants_line (AtSms c d p)"
  by (simp_all add: wants_line_def)

end
