(* ===== verification/RIL_Answers.thy ===== *)
theory RIL_Answers
  imports RIL_Contract
begin

text \<open>
  Under the contract of the AT channel the handlers end and complete their request once; the channel of
  \<^verbatim>\<open>atchannel.c\<close> meets the contract. The handlers that do not are stated with what they do instead.
\<close>

section \<open>Handlers under the contract\<close>

lemma done_tokens [ril_simps]:
  "tokens_done (done_ok t st) = tokens_done st @ [t]" "tokens_done (done_fail t st) = tokens_done st @ [t]"
  by (simp_all add: done_ok_def done_fail_def ril_simps)

text \<open>A token that is there is never \<^verbatim>\<open>NULL\<close>.\<close>

lemma nextTok_some: "\<exists>t cur. nextTok (Some s) = (Some t, cur)"
  by (simp add: nextTok_def skipWhiteSpace_def strsep_def)

lemma nextstr_some: "at_tok_nextstr p None = (err, cur, out) \<Longrightarrow> \<not> err < 0 \<Longrightarrow> out \<noteq> None"
  using nextTok_some[of "the p"] by (cases p) (auto simp: at_tok_nextstr_def split: prod.splits)

lemma next_copy_ends: "\<exists>r. next_copy line = Inr r"
  using nextstr_some[of line]
  by (auto simp: next_copy_def split: prod.splits option.splits)

lemma cpin_status_ends: "\<exists>r. cpin_status l = Inr r"
  using nextstr_some by (fastforce simp: cpin_status_def split: prod.splits option.splits)

lemma bindO_ends: "\<exists>r. m = Inr r \<Longrightarrow> (\<And>y. \<exists>r. f y = Inr r) \<Longrightarrow> \<exists>r. bindO m f = Inr r"
  by (auto simp: bindO_def split: option.splits)

lemma dns_and_gateway_ends: "\<exists>r. dns_and_gateway env line d = Inr r"
  by (auto simp: dns_and_gateway_def intro!: bindO_ends next_copy_ends)

lemma update_first_ends: "(\<And>d. \<exists>r. f d = Inr r) \<Longrightarrow> \<exists>r. update_first p f ds = Inr r"
  by (induction ds) (auto intro!: bindO_ends)

lemma cgdcont_loop_ends: "\<exists>r. cgdcont_loop env ls ds = Inr r"
proof (induction ls arbitrary: ds)
  case (Cons l ls)
  have "\<exists>r. parse_cgdcont env l ds = Inr r"
    by (auto simp: parse_cgdcont_def cgdcont_fields_def split: prod.splits
        intro!: update_first_ends bindO_ends next_copy_ends dns_and_gateway_ends)
  then show ?case using Cons.IH by (auto intro: bindO_ends)
qed simp

text \<open>
  The states in which one can be shifted by the technology of the modem. Nothing in the code keeps it there: the number
  of the modem's line is stored as it comes. The requests that shift by it are those that report the technology or
  ask for a CDMA modem, and they get that far only with the radio on.
\<close>

definition tech_ok :: "ril \<Rightarrow> bool" where
  "tech_ok st \<longleftrightarrow> 0 \<le> currentTech st \<and> currentTech st < 31"

fun asks_tech :: "ril_request \<Rightarrow> bool" where
  "asks_tech VOICE_RADIO_TECH \<longleftrightarrow> True"
| "asks_tech BASEBAND_VERSION \<longleftrightarrow> True"
| "asks_tech DEVICE_IDENTITY \<longleftrightarrow> True"
| "asks_tech CDMA_SUBSCRIPTION \<longleftrightarrow> True"
| "asks_tech (CDMA_SET_SUBSCRIPTION_SOURCE s) \<longleftrightarrow> True"
| "asks_tech CDMA_GET_SUBSCRIPTION_SOURCE \<longleftrightarrow> True"
| "asks_tech CDMA_QUERY_ROAMING_PREFERENCE \<longleftrightarrow> True"
| "asks_tech (CDMA_SET_ROAMING_PREFERENCE p) \<longleftrightarrow> True"
| "asks_tech EXIT_EMERGENCY_CALLBACK_MODE \<longleftrightarrow> True"
| "asks_tech r \<longleftrightarrow> False"

definition shift_fault :: "ril_request \<Rightarrow> ril \<Rightarrow> bool" where
  "shift_fault r st \<longleftrightarrow> asks_tech r \<and> \<not> tech_ok st \<and> sState st \<noteq> RADIO_STATE_UNAVAILABLE \<and> sState st \<noteq> RADIO_STATE_OFF"

lemma shift_faults:
  assumes "shift_fault r st"
  shows "onRequest env r t st = Inl BadShift"
proof -
  have "bit_of (currentTech st) = Inl BadShift" using assms by (auto simp: shift_fault_def tech_ok_def bit_of_def)
  then have "dispatch env r t st = Inl BadShift"
    using assms by (cases r) (simp_all add: shift_fault_def voiceRadioTech_def techFromModemType_def cdma_or_fall_through_def)
  then show ?thesis using assms by (simp add: onRequest_def shift_fault_def)
qed

context at_modem
begin

text \<open>The radio's state: only the change from unavailable to on asks the SIM.\<close>

lemma setRadioState_tokens [ril_simps]: "ends (\<lambda>st'. tokens_done st' = T) (setRadioState env s st) \<longleftrightarrow> tokens_done st = T"
  by (simp add: setRadioState_def onRadioPowerOn_def pollSIMState_def ril_simps Let_def)

lemma requestRadioPower_once: "ends (once t st) (requestRadioPower env onOff t st)"
  by (simp add: requestRadioPower_def ril_simps once_def)

lemma requestShutdown_once: "ends (once t st) (requestShutdown env t st)"
  by (simp add: requestShutdown_def ril_simps once_def)

lemma data_list_tokens [ril_simps]:
  "tokens_done (data_list_fail (Some t) st) = tokens_done st @ [t]" "tokens_done (data_list_ok (Some t) ds st) = tokens_done st @ [t]"
  "tokens_done (data_list_fail None st) = tokens_done st" "tokens_done (data_list_ok None ds st) = tokens_done st"
  by (simp_all add: data_list_fail_def data_list_ok_def ril_simps)

lemma requestOrSendDataCallList_tokens:
  "ends (\<lambda>st'. tokens_done st' = tokens_done st @ (case t of Some t \<Rightarrow> [t] | None \<Rightarrow> [])) (requestOrSendDataCallList env t st)"
proof -
  have "ends (\<lambda>r. True) (cgdcont_loop env ls ds)" for ls ds using cgdcont_loop_ends[of env ls ds] by (auto simp: ends_iff)
  then show ?thesis by (auto simp: requestOrSendDataCallList_def ril_simps split: option.splits)
qed

lemma setup_qmi_tokens: "tokens_done (snd (setup_qmi env apn st)) = tokens_done st"
  by (simp add: setup_qmi_def Let_def ril_simps)

lemma requestSetupDataCall_once: "ends (once t st) (requestSetupDataCall env apn pdp t st)"
proof -
  have l: "ends (once t st) (requestOrSendDataCallList env (Some t) st')" if "tokens_done st' = tokens_done st" for st'
    using requestOrSendDataCallList_tokens[of st' "Some t"] that by (simp add: once_def)
  show ?thesis
    using setup_qmi_tokens[of apn st]
    by (auto simp: requestSetupDataCall_def setup_modem_def Let_def ril_simps once_def split: prod.splits
        intro!: l[unfolded once_def])
qed

lemma requestGetCurrentCalls_once: "ends (once t st) (requestGetCurrentCalls env t st)"
  by (simp add: requestGetCurrentCalls_def once_def ril_simps Let_def split: prod.splits)

lemma simple_once:
  "once t st (send_and_done env cmd t st)" "once t st (requestDial env address clir t st)" "once t st (requestHangup env line t st)"
  "once t st (separateConnection env party t st)"
  by (simp_all add: send_and_done_def requestDial_def requestHangup_def separateConnection_def once_def ril_simps)

lemma send_and_report_once: "ends (once t st) (send_and_report env cmd t st)"
  by (simp add: send_and_report_def once_def ril_simps)

lemma send_numeric_once: "ends (once t st) (send_numeric env cmd t st)"
  by (simp add: send_numeric_def once_def ril_simps)

lemma requestQueryNetworkSelectionMode_once: "ends (once t st) (requestQueryNetworkSelectionMode env t st)"
  by (simp add: requestQueryNetworkSelectionMode_def once_def ril_simps split: prod.splits)

lemma requestGetPreferredNetworkType_once: "ends (once t st) (requestGetPreferredNetworkType env t st)"
  by (simp add: requestGetPreferredNetworkType_def query_ctec_def once_def ril_simps split: prod.splits option.splits)

lemma cdma_once:
  "ends (once t st) (requestCdmaDeviceIdentity env t st)" "ends (once t st) (requestCdmaGetSubscriptionSource env t st)"
  "ends (once t st) (requestCdmaSetSubscriptionSource env s t st)" "ends (once t st) (requestCdmaGetRoamingPreference env t st)"
  "ends (once t st) (requestCdmaSetRoamingPreference env p t st)" "ends (once t st) (requestExitEmergencyMode env t st)"
  "ends (once t st) (requestCdmaPrlVersion env t st)"
  "once t st (requestCdmaBaseBandVersion t st)" "once t st (requestCdmaSubscription t st)"
  by (simp_all add: requestCdmaDeviceIdentity_def requestCdmaGetSubscriptionSource_def requestCdmaSetSubscriptionSource_def
      requestCdmaGetRoamingPreference_def requestCdmaSetRoamingPreference_def requestExitEmergencyMode_def
      send_and_report_def requestCdmaPrlVersion_def requestCdmaBaseBandVersion_def requestCdmaSubscription_def
      once_def ril_simps split: prod.splits option.splits)

lemma sms_once:
  "ends (once t st) (requestSendSMS env smsc pdu t st)" "ends (once t st) (requestImsSendSMS env retry tech smsc pdu t st)"
  "ends (once t st) (requestWriteSmsToSim env pdu status t st)" "once t st (requestCdmaSendSMS t st)"
  by (simp_all add: requestImsSendSMS_def requestSendSMS_def requestCdmaSendSMS_def requestWriteSmsToSim_def
      once_def ril_simps Let_def)

lemma sim_once:
  "ends (once t st) (requestSimOpenChannel env s n t st)" "once t st (requestSimCloseChannel env sid t st)"
  "ends (once t st) (requestSimTransmitApduChannel env apdu t st)" "ends (once t st) (requestSIM_IO env ns d t st)"
  "ends (once t st) (requestEnterSimPin env ss t st)"
  by (simp_all add: requestSimOpenChannel_def requestSimCloseChannel_def requestSimTransmitApduChannel_def
      requestSIM_IO_def requestEnterSimPin_def once_def ril_simps split: prod.splits option.splits)

lemma voiceRadioTech_once: "tech_ok st \<Longrightarrow> ends (once t st) (voiceRadioTech t st)"
  by (simp add: voiceRadioTech_def techFromModemType_def bit_of_def tech_ok_def once_def ril_simps)

lemma rest_once:
  "once t st (requestGetCellInfoList env t st)" "once t st (requestSetCellInfoListRate rate t st)"
  "once t st (requestGetHardwareConfig t st)" "once t st (imsRegistrationState env t st)"
  by (simp_all add: requestGetCellInfoList_def requestSetCellInfoListRate_def requestGetHardwareConfig_def
      imsRegistrationState_def once_def ril_simps)

lemma cdma_or_fall_through_once:
  "tech_ok st \<Longrightarrow> ends (once t st) (f st) \<Longrightarrow> ends (once t st) (cdma_or_fall_through f t st)"
  by (simp add: cdma_or_fall_through_def bit_of_def tech_ok_def once_def ril_simps)

lemmas handlers_once = requestRadioPower_once requestShutdown_once requestSetupDataCall_once requestGetCurrentCalls_once
  simple_once send_and_report_once send_numeric_once requestQueryNetworkSelectionMode_once requestGetPreferredNetworkType_once
  cdma_once sms_once sim_once voiceRadioTech_once rest_once cdma_or_fall_through_once

end

section \<open>The channel meets the contract\<close>

text \<open>
  A command of a handler on a channel, with the waits that follow; the library's thread is not the reader
  thread. A handler that passes \<^verbatim>\<open>NULL\<close> for the response gets the same result without it.
\<close>

definition at_call :: "at_request \<Rightarrow> waits \<Rightarrow> at_channel \<Rightarrow> (int \<times> ATResponse option \<times> at_channel \<times> waits) option res" where
  "at_call req ws ch =
     (case req of
        AtPlain cmd \<Rightarrow> at_send_command False cmd True ws ch
      | AtNumeric cmd \<Rightarrow> at_send_command_numeric False cmd True ws ch
      | AtSingle cmd pfx \<Rightarrow> at_send_command_singleline False cmd pfx True ws ch
      | AtMulti cmd pfx \<Rightarrow> at_send_command_multiline False cmd pfx True ws ch
      | AtSms cmd pdu pfx \<Rightarrow> at_send_command_sms False cmd pdu pfx True ws ch
      | AtHandshake \<Rightarrow> bindR (at_handshake False ws ch) (\<lambda>r. Inr (map_option (\<lambda>(err, ch, ws). (err, None, ch, ws)) r)))"

text \<open>
  The answers of a channel: \<open>link n\<close> is the channel and its waits at the n-th command. A command that does not
  return has no answer; here it stands as an error, and what is proved asks that commands return.
\<close>

type_synonym at_link = "nat \<Rightarrow> at_channel \<times> waits"

definition channel_modem :: "at_link \<Rightarrow> nat \<Rightarrow> at_request \<Rightarrow> at_answer" where
  "channel_modem link n req =
     (case link n of (ch, ws) \<Rightarrow>
        (case at_call req ws ch of Inr (Some (err, out, _, _)) \<Rightarrow> (err, out) | _ \<Rightarrow> (AT_ERROR_GENERIC, None)))"

definition served_by :: "at_link \<Rightarrow> ril_env \<Rightarrow> bool" where
  "served_by link env \<longleftrightarrow>
     (\<forall>n req. \<exists>ch' ws'. at_call req (snd (link n)) (fst (link n)) = Inr (Some (fst (modem env n req), snd (modem env n req), ch', ws')))"

lemma served_modem: "served_by link env \<Longrightarrow> modem env = channel_modem link"
proof (intro ext)
  fix n req
  assume "served_by link env"
  then obtain ch' ws' where "at_call req (snd (link n)) (fst (link n)) = Inr (Some (fst (modem env n req), snd (modem env n req), ch', ws'))"
    unfolding served_by_def by blast
  then show "modem env n req = channel_modem link n req" by (cases "link n") (simp add: channel_modem_def)
qed

lemma returns_served:
  assumes "\<And>n req. \<exists>r. at_call req (snd (link n)) (fst (link n)) = Inr (Some r)"
  shows "served_by link (env\<lparr>modem := channel_modem link\<rparr>)"
proof -
  have "\<exists>ch' ws'. at_call req (snd (link n)) (fst (link n)) =
      Inr (Some (fst (channel_modem link n req), snd (channel_modem link n req), ch', ws'))" for n req
  proof -
    obtain err out ch' ws' where "at_call req (snd (link n)) (fst (link n)) = Inr (Some (err, out, ch', ws'))"
      using assms[of req n] by auto
    then show ?thesis by (cases "link n") (simp add: channel_modem_def)
  qed
  then show ?thesis by (simp add: served_by_def)
qed

text \<open>A pending response tells 0 or 1.\<close>

definition response_ok :: "at_channel \<Rightarrow> bool" where
  "response_ok st \<longleftrightarrow> (\<forall>r. sp_response st = Some r \<longrightarrow> success r = 0 \<or> success r = 1)"

lemma write_response: "sp_response (snd (write_with_end c s st)) = sp_response st"
  by (simp add: write_with_end_def at_out_def split: prod.split)

lemma reader_act_response: "reader_act ev st = Inr st' \<Longrightarrow> response_ok st \<Longrightarrow> response_ok st'"
proof (cases ev)
  case (GotLine l)
  assume "reader_act ev st = Inr st'" "response_ok st"
  then show ?thesis
    using write_response[of "CHR 0x1A"] GotLine
    by (auto simp: reader_act_def processLine_def handleUnsolicited_def at_out_def set_response_def add_or_unsolicited_def
        addIntermediate_def handleFinalResponse_def response_ok_def writeCtrlZ_def res_simps
        split: option.splits if_splits ATCommandType.splits)
qed (auto simp: reader_act_def onReaderClosed_def at_out_def response_ok_def split: if_splits)

lemma reader_acts_response: "forR reader_act evs st = Inr st' \<Longrightarrow> response_ok st \<Longrightarrow> response_ok st'"
  by (rule forR_inv[where P = response_ok]) (auto intro: reader_act_response)

text \<open>What comes out of a wait.\<close>

definition result_ok :: "bool \<Rightarrow> int \<Rightarrow> ATResponse option \<Rightarrow> bool" where
  "result_ok wanted err out \<longleftrightarrow>
     err \<le> 0 \<and> (err = 0 \<and> wanted \<longrightarrow> (\<exists>r. out = Some r \<and> (success r = 0 \<or> success r = 1)))"

lemma send_wait_result:
  "send_wait c ws st = Inr (Some (err, out, st', ws')) \<Longrightarrow> response_ok st \<Longrightarrow> result_ok (wants_response c) err out"
proof (induction c ws st rule: send_wait.induct)
  case (1 c ws st)
  from 1(2) show ?case
  proof (subst (asm) send_wait.simps, unfold bindR_Inr_iff, elim exE conjE)
    fix over
    assume over: "wait_over st = Inr over" and
      run: "(if over then bindR (send_finish c st) (\<lambda>(err, out, st). Inr (Some (err, out, st, ws)))
        else case ws of [] \<Rightarrow> Inr None
          | (evs, ret) # ws \<Rightarrow> bindR (forR reader_act evs st) (\<lambda>st.
              if ret = TimedOut \<and> timeoutMsec c \<noteq> 0 then (case send_timeout st of (err, out, st) \<Rightarrow> Inr (Some (err, out, st, ws)))
              else send_wait c ws st)) = Inr (Some (err, out, st', ws'))"
    show ?thesis
    proof (cases over)
      case True
      with run 1(3) show ?thesis
        by (auto simp: send_finish_def result_ok_def response_ok_def reverseIntermediates_def res_simps split: option.splits if_splits)
    next
      case False
      with run obtain evs ret ws1 st1 where w: "ws = (evs, ret) # ws1" "forR reader_act evs st = Inr st1"
        "(if ret = TimedOut \<and> timeoutMsec c \<noteq> 0 then (case send_timeout st1 of (err, out, st) \<Rightarrow> Inr (Some (err, out, st, ws1)))
          else send_wait c ws1 st1) = Inr (Some (err, out, st', ws'))"
        by (auto simp: res_simps split: list.splits)
      show ?thesis
      proof (cases "ret = TimedOut \<and> timeoutMsec c \<noteq> 0")
        case True
        with w(3) show ?thesis by (auto simp: send_timeout_def result_ok_def)
      next
        case False2: False
        then have "send_wait c ws1 st1 = Inr (Some (err, out, st', ws'))" using w(3) by auto
        from 1(1)[OF False w(1) refl False2 this reader_acts_response[OF w(2) 1(3)]]
        show ?thesis .
      qed
    qed
  qed
qed

lemma send_begin_err: "send_begin c st = (err, st') \<Longrightarrow> err \<le> 0 \<and> (\<not> err < 0 \<longrightarrow> sp_response st' = Some at_response_new)"
  by (auto simp: send_begin_def writeline_def write_with_end_def clearPendingCommand_def split: if_splits prod.splits)

lemma nolock_result:
  assumes "at_send_command_full_nolock c ws st = Inr (Some (err, out, st', ws'))"
  shows "result_ok (wants_response c) err out"
proof (cases "send_begin c st")
  case (Pair e st1)
  show ?thesis
  proof (cases "e < 0")
    case True
    with assms Pair show ?thesis by (simp add: at_send_command_full_nolock_def result_ok_def)
  next
    case False
    then have "response_ok st1" using send_begin_err[OF Pair] by (simp add: response_ok_def at_response_new_def)
    moreover have "send_wait c ws st1 = Inr (Some (err, out, st', ws'))"
      using assms Pair False by (simp add: at_send_command_full_nolock_def)
    ultimately show ?thesis using send_wait_result by blast
  qed
qed

lemma full_result:
  assumes "at_send_command_full b c ws st = Inr (Some (err, out, st', ws'))"
  shows "result_ok (wants_response c) err out"
  using assms nolock_result
  by (auto simp: at_send_command_full_def res_simps result_ok_def split: if_splits)

lemma need_result:
  assumes "need_intermediate m = Inr (Some (err, out, st', ws'))" and
    m: "\<And>err out st' ws'. m = Inr (Some (err, out, st', ws')) \<Longrightarrow> result_ok True err out"
  shows "result_ok True err out \<and> (err = 0 \<and> success (the out) = 1 \<longrightarrow> p_intermediates (the out) \<noteq> [])"
proof -
  from assms(1) obtain err1 out1 st1 ws1 where m1: "m = Inr (Some (err1, out1, st1, ws1))" and
    c: "(case out1 of Some p \<Rightarrow> if err1 = 0 \<and> success p > 0 \<and> p_intermediates p = [] then (AT_ERROR_INVALID_RESPONSE, None, st1, ws1)
         else (err1, out1, st1, ws1) | None \<Rightarrow> (err1, out1, st1, ws1)) = (err, out, st', ws')"
    by (auto simp: need_intermediate_def res_simps)
  show ?thesis using c m[OF m1] by (auto simp: result_ok_def split: option.splits if_splits)
qed

lemma need_full_result:
  assumes "need_intermediate (at_send_command_full b c ws st) = Inr (Some (err, out, st', ws'))" and "wants_response c"
  shows "result_ok True err out \<and> (err = 0 \<and> success (the out) = 1 \<longrightarrow> p_intermediates (the out) \<noteq> [])"
  using need_result[OF assms(1)] full_result assms(2) by metis

lemma handshake_loop_err: "handshake_loop n e ws st = Inr (Some (err, st', ws')) \<Longrightarrow> e \<le> 0 \<Longrightarrow> err \<le> 0"
proof (induction n arbitrary: e ws st)
  case (Suc n)
  from Suc.prems(1) obtain r where r: "at_send_command_full_nolock handshake_command ws st = Inr (Some r)"
    and rest: "(case r of (err1, _, st1, ws1) \<Rightarrow> if err1 = 0 then Inr (Some (err1, st1, ws1)) else handshake_loop n err1 ws1 st1) = Inr (Some (err, st', ws'))"
    by (auto simp: res_simps split: option.splits)
  obtain err1 out1 st1 ws1 where "r = (err1, out1, st1, ws1)" using prod_cases4 by blast
  with r rest nolock_result[of handshake_command ws st err1 out1 st1 ws1] Suc.IH show ?case
    by (auto simp: result_ok_def split: if_splits)
qed simp

lemma at_call_answer_ok:
  assumes "at_call req ws ch = Inr (Some (err, out, ch', ws'))"
  shows "answer_ok req (err, out)"
proof (cases req)
  case AtHandshake
  with assms obtain st1 ws1 where "at_handshake False ws ch = Inr (Some (err, st1, ws1))"
    by (auto simp: at_call_def res_simps)
  then have "err \<le> 0" using handshake_loop_err by (fastforce simp: at_handshake_def res_simps)
  then show ?thesis by (simp add: answer_ok_def AtHandshake)
qed (use assms in \<open>auto simp: at_call_def at_send_command_def at_send_command_multiline_def at_send_command_numeric_def
   at_send_command_singleline_def at_send_command_sms_def answer_ok_def wants_line_def result_ok_def
   dest!: full_result need_full_result\<close>)

lemma channel_answer_ok: "answer_ok req (channel_modem link n req)"
proof -
  have err: "answer_ok req (AT_ERROR_GENERIC, None)" by (simp add: answer_ok_def)
  show ?thesis
    using at_call_answer_ok[of req "snd (link n)" "fst (link n)"] err
    by (auto simp: channel_modem_def split: prod.splits sum.splits option.splits)
qed

interpretation chan: at_modem "env\<lparr>modem := channel_modem link\<rparr>" for env link
  by unfold_locales (simp add: channel_answer_ok)

lemma served_at_modem: "served_by link env \<Longrightarrow> at_modem env"
  using chan.at_modem_axioms[of link env] served_modem[of link env] by (metis ril_env.surjective ril_env.update_convs(1))

text \<open>
  The record of a command, and what a modem makes of it that answers with lines and a final line, for the commands without
  a message.
\<close>

definition command_of :: "at_request \<Rightarrow> at_command" where
  "command_of req =
     (case req of
        AtPlain cmd \<Rightarrow> \<lparr>command = cmd, cmd_type = NO_RESULT, cmd_prefix = None, cmd_pdu = None, timeoutMsec = 0, wants_response = True\<rparr>
      | AtNumeric cmd \<Rightarrow> \<lparr>command = cmd, cmd_type = NUMERIC, cmd_prefix = None, cmd_pdu = None, timeoutMsec = 0, wants_response = True\<rparr>
      | AtSingle cmd pfx \<Rightarrow> \<lparr>command = cmd, cmd_type = SINGLELINE, cmd_prefix = Some pfx, cmd_pdu = None, timeoutMsec = 0, wants_response = True\<rparr>
      | AtMulti cmd pfx \<Rightarrow> \<lparr>command = cmd, cmd_type = MULTILINE, cmd_prefix = Some pfx, cmd_pdu = None, timeoutMsec = 0, wants_response = True\<rparr>
      | AtSms cmd pdu pfx \<Rightarrow> \<lparr>command = cmd, cmd_type = SINGLELINE, cmd_prefix = Some pfx, cmd_pdu = Some pdu, timeoutMsec = 0, wants_response = True\<rparr>
      | AtHandshake \<Rightarrow> handshake_command)"

definition without_message :: "at_request \<Rightarrow> bool" where
  "without_message req \<longleftrightarrow> req \<noteq> AtHandshake \<and> (\<forall>cmd pdu pfx. req \<noteq> AtSms cmd pdu pfx)"

definition response_to :: "at_request \<Rightarrow> string list \<Rightarrow> string \<Rightarrow> at_answer" where
  "response_to req ls f =
     (let r = response_of (command_of req) ls f
      in if wants_line req \<and> success r > 0 \<and> p_intermediates r = [] then (AT_ERROR_INVALID_RESPONSE, None) else (0, Some r))"

definition says :: "at_link \<Rightarrow> nat \<Rightarrow> string list \<Rightarrow> string \<Rightarrow> bool" where
  "says link n ls f \<longleftrightarrow> ready (fst (link n)) \<and> snd (link n) = [got_lines (ls @ [f])] \<and>
     (\<forall>l\<in>set ls. \<not> isFinalResponse l) \<and> isFinalResponse f"

lemma says_answer:
  assumes "says link n ls f" and "without_message req"
  shows "channel_modem link n req = response_to req ls f"
proof -
  obtain ch where l: "link n = (ch, [got_lines (ls @ [f])])" "ready ch" using assms(1) by (cases "link n") (auto simp: says_def)
  have full: "\<exists>st'. at_send_command_full False (command_of req) [got_lines (ls @ [f])] ch = Inr (Some (0, Some (response_of (command_of req) ls f), st', []))"
  proof -
    have "prefix_given (cmd_type (command_of req)) (cmd_prefix (command_of req))" "cmd_pdu (command_of req) = None"
      "wants_response (command_of req)"
      using assms(2) by (cases req; simp add: command_of_def prefix_given_def without_message_def)+
    then show ?thesis
      using nolock_answered[OF l(2), of "command_of req" "[]" ls f] assms(1) full_of_nolock
      by (fastforce simp: says_def)
  qed
  show ?thesis
    using assms(2) full
    by (cases req) (auto simp: channel_modem_def l(1) at_call_def at_send_command_def at_send_command_numeric_def
        at_send_command_singleline_def at_send_command_multiline_def need_intermediate_def response_to_def
        command_of_def wants_line_def without_message_def Let_def)
qed

section \<open>Every request is answered once\<close>

text \<open>
  The requests whose handlers hold what they promise under the contract alone. The others are in the next section, and
  two more ask something of the numbers in the modem's lines or of its errors.
\<close>

fun plain_request :: "ril_request \<Rightarrow> bool" where
  "plain_request (SMS_ACKNOWLEDGE ack) \<longleftrightarrow> ack \<noteq> 0 \<and> ack \<noteq> 1"
| "plain_request SET_NETWORK_SELECTION_AUTOMATIC \<longleftrightarrow> False"
| "plain_request SIGNAL_STRENGTH \<longleftrightarrow> False"
| "plain_request VOICE_REGISTRATION_STATE \<longleftrightarrow> False"
| "plain_request DATA_REGISTRATION_STATE \<longleftrightarrow> False"
| "plain_request OPERATOR \<longleftrightarrow> False"
| "plain_request (SET_PREFERRED_NETWORK_TYPE v) \<longleftrightarrow> False"
| "plain_request GET_SIM_STATUS \<longleftrightarrow> False"
| "plain_request r \<longleftrightarrow> True"

context at_modem
begin

lemma dispatch_once: "plain_request r \<Longrightarrow> asks_tech r \<longrightarrow> tech_ok st \<Longrightarrow> ends (once t st) (dispatch env r t st)"
  by (cases r) (simp_all add: handlers_once ends_simps,
      simp_all add: once_def ril_simps requestSMSAcknowledge_def requestOrSendDataCallList_tokens[of _ "Some t", simplified])

lemma onRequest_once:
  assumes "plain_request r" and "\<not> shift_fault r st"
  shows "ends (once t st) (onRequest env r t st)"
proof (cases "asks_tech r \<longrightarrow> tech_ok st")
  case True
  show ?thesis using dispatch_once[OF assms(1) True, of t] by (simp add: onRequest_def ends_simps) (simp add: once_def ril_simps)
next
  case False
  then have off: "sState st = RADIO_STATE_UNAVAILABLE \<or> sState st = RADIO_STATE_OFF" using assms(2) by (auto simp: shift_fault_def)
  have "r \<noteq> GET_SIM_STATUS" "\<not> is_radio_power r" using False by (cases r; simp add: is_radio_power_def)+
  then show ?thesis using off by (auto simp: onRequest_def ends_simps once_def ril_simps)
qed

end

text \<open>
  C14: when every command on the channel returns, a request of the RIL library is completed with its token, once,
  whatever the modem says and whatever it has said before: errors, missing lines, garbage. The only fault, and it comes
  before anything is sent, is the shift by the technology of the modem, in the nine requests that shift by it with the radio
  on, and exactly when the modem has named a technology outside 0 to 30. (The eight requests below are the
  exceptions.)
\<close>

theorem requests_answered_once:
  assumes "served_by link env" and "plain_request r"
  shows "if shift_fault r st then onRequest env r t st = Inl BadShift
    else \<exists>st'. onRequest env r t st = Inr st' \<and> tokens_done st' = tokens_done st @ [t]"
  using at_modem.onRequest_once[OF served_at_modem[OF assms(1)] assms(2), of st t] shift_faults[of r st env t]
  by (auto simp: ends_iff once_def)

text \<open>A channel on which the modem says OK to everything, and a radio that is on.\<close>

definition ok_channel :: at_channel where
  "ok_channel = demo_channel\<lparr>at_writes := []\<rparr>"

definition ok_link :: at_link where
  "ok_link n = (ok_channel, [got_lines [''OK'']])"

definition demo_env :: "at_link \<Rightarrow> ril_env" where
  "demo_env link = \<lparr>modem = channel_modem link, in_emulator = False, sysprop = (\<lambda>_. None), qmi_open = False, qmi_write = False,
     qmi_reads = [], netcfg = 0, nano_time = 0, s_ims_registered = 0, s_ims_format = 1, s_ims_cause_retry = 0,
     s_ims_cause_perm_failure = 0, s_ims_gsm_retry = 0, s_ims_gsm_fail = 0, stale_sim_io = zero_sim_io\<rparr>"

definition demo_ril :: ril where
  "demo_ril = \<lparr>sState = RADIO_STATE_ON, s_closed = False, supportedTechs = 19, currentTech = 1, isMultimode = 1,
     preferredNetworkMode = 0, subscription_source = 0, s_mcc = 0, s_mnc = 0, s_lac = 0, s_cid = 0, s_cell_info_rate_ms = 0,
     sent_nu = 0, ril_outs = []\<rparr>"

lemma write_all_free: "write_all s [] = (True, s, [])"
  by (cases s) simp_all

lemma ok_returns: "\<exists>st'. at_send_command_full_nolock c [got_lines [''OK'']] ok_channel = Inr (Some (0, if wants_response c then
    Some (reverseIntermediates \<lparr>success = 1, finalResponse = Some ''OK'', p_intermediates = []\<rparr>) else None, st', []))"
  by (simp add: at_send_command_full_nolock_def send_begin_def writeline_def write_with_end_def write_all_free ok_channel_def demo_channel_def
      at_out_def at_response_new_def send_wait.simps wait_over_def got_lines_def reader_act_def processLine_def final_defs
      handleFinalResponse_def set_response_def send_finish_def clearPendingCommand_def)

lemma ok_served: "served_by ok_link (demo_env ok_link)"
proof -
  have full: "\<exists>out st'. at_send_command_full False c [got_lines [''OK'']] ok_channel = Inr (Some (0, out, st', []))" for c
    using ok_returns[of c] by (auto simp: at_send_command_full_def)
  have full2: "\<exists>r. at_send_command_full False c [got_lines [''OK'']] ok_channel = Inr (Some r)" for c
    using full[of c] by auto
  have need: "\<exists>r. need_intermediate (at_send_command_full False c [got_lines [''OK'']] ok_channel) = Inr (Some r)" for c
    using full[of c] by (auto simp: need_intermediate_def split: option.splits if_splits)
  have shake: "\<exists>r. at_handshake False [got_lines [''OK'']] ok_channel = Inr (Some r)"
    using ok_returns[of handshake_command] by (auto simp: at_handshake_def eval_nat_numeral)
  have "\<exists>r. at_call req [got_lines [''OK'']] ok_channel = Inr (Some r)" for req
    using full2 need shake
    by (cases req) (auto simp: at_call_def at_send_command_def at_send_command_numeric_def at_send_command_singleline_def
        at_send_command_multiline_def at_send_command_sms_def)
  then show ?thesis using returns_served[of ok_link "demo_env ok_link"] by (simp add: ok_link_def demo_env_def)
qed

theorem requests_answered_once_witness:
  "(\<exists>st'. onRequest (demo_env ok_link) (SIM_IO [192, 28421, 0, 0, 15] None) 7 demo_ril = Inr st' \<and> tokens_done st' = [7]) \<and>
   onRequest (demo_env ok_link) VOICE_RADIO_TECH 7 (demo_ril\<lparr>currentTech := 40\<rparr>) = Inl BadShift"
  using requests_answered_once[OF ok_served, of "SIM_IO [192, 28421, 0, 0, 15] None" demo_ril 7]
    requests_answered_once[OF ok_served, of VOICE_RADIO_TECH "demo_ril\<lparr>currentTech := 40\<rparr>" 7]
  by (simp add: demo_ril_def shift_fault_def tech_ok_def tokens_done_def)

end
