(* ===== verification/RIL_Lines.thy ===== *)
theory RIL_Lines
  imports RIL_Parse
begin

text \<open>
  The lines of the modem as they are printed, and what the parsers of the handlers read in them: hexadecimal numbers, the
  tokens of a line, and the lines of calls and registrations.
\<close>

named_theorems arg_simps

section \<open>Hexadecimal numbers\<close>

lemma hex_char_code: "d < 16 \<Longrightarrow> code (hex_char d) = (if d < 10 then 48 + d else 87 + d)"
  by (simp add: hex_char_def)

lemma hex_char_val: "d < 16 \<Longrightarrow> digit_val 16 (hex_char d) = Some d"
  using hex_char_code[of d] by (auto simp: digit_val_def isdigit_def Let_def)

lemma hex_char_plain: "d < 16 \<Longrightarrow> \<not> isspace (hex_char d) \<and> hex_char d \<notin> {CHR ''-'', CHR ''+'', CHR ''x'', CHR ''X'', CHR '','', CHR 0x22}"
proof -
  assume d: "d < 16"
  then consider "code (hex_char d) = 48 + d" "d < 10" | "code (hex_char d) = 87 + d" "10 \<le> d"
    using hex_char_code[OF d] by (auto split: if_splits)
  moreover have "code (CHR ''-'') = (45::nat)" "code (CHR ''+'') = (43::nat)" "code (CHR ''x'') = (120::nat)"
    "code (CHR ''X'') = (88::nat)" "code (CHR '','') = (44::nat)" "code (CHR 0x22) = (34::nat)" by simp_all
  ultimately show ?thesis using d by cases (auto simp: isspace_def)
qed

lemma show_hex_nat_chars: "c \<in> set (show_hex_nat n) \<Longrightarrow> \<exists>d<16. c = hex_char d"
proof (induction n rule: show_hex_nat.induct)
  case (1 n)
  show ?case
  proof (cases "n < 16")
    case True
    then show ?thesis using 1(2) by (auto simp: show_hex_nat.simps)
  next
    case False
    then have "c \<in> set (show_hex_nat (n div 16)) \<or> c = hex_char (n mod 16)"
      using 1(2) by (subst (asm) show_hex_nat.simps) auto
    then show ?thesis using 1(1)[OF False] by (auto intro: exI[of _ "n mod 16"])
  qed
qed

lemma show_hex_nat_plain: "c \<in> set (show_hex_nat n) \<Longrightarrow> c \<notin> {CHR ''-'', CHR ''+'', CHR ''x'', CHR ''X'', CHR '','', CHR 0x22}"
  using show_hex_nat_chars hex_char_plain by metis

lemma show_hex_nat_digits: "\<forall>c\<in>set (show_hex_nat n). digit_val 16 c \<noteq> None"
  using show_hex_nat_chars hex_char_val by fastforce

lemma scan_show_hex_acc: "fst (scan_digits 16 acc (show_hex_nat n)) = acc * 16 ^ length (show_hex_nat n) + n"
proof (induction n rule: show_hex_nat.induct)
  case (1 n)
  show ?case
  proof (cases "n < 16")
    case True
    then show ?thesis by (simp add: show_hex_nat.simps hex_char_val)
  next
    case False
    have "n mod 16 < 16" by simp
    then show ?thesis
      using 1[OF False] False scan_digits_append[OF show_hex_nat_digits, of acc "n div 16" "[hex_char (n mod 16)]"]
      by (subst (1 2) show_hex_nat.simps) (simp add: hex_char_val algebra_simps)
  qed
qed

lemma show_hex_nat_Cons: "\<exists>d cs. d < 16 \<and> show_hex_nat n = hex_char d # cs"
proof -
  have "show_hex_nat n \<noteq> []" by (subst show_hex_nat.simps) simp
  then show ?thesis using show_hex_nat_chars[of "hd (show_hex_nat n)" n] by (cases "show_hex_nat n") auto
qed

lemma strtol_show_hex: "strtol 16 (show_hex_nat n) = Some (int n, [])"
proof -
  obtain d cs where d: "d < 16" "show_hex_nat n = hex_char d # cs" using show_hex_nat_Cons by blast
  have "CHR ''x'' \<notin> set (show_hex_nat n)" "CHR ''X'' \<notin> set (show_hex_nat n)" using show_hex_nat_plain by auto
  then have sk: "skip_0x 16 (show_hex_nat n) = show_hex_nat n" using set_mono_prefix by (fastforce simp: skip_0x_def)
  have "scan_digits 16 0 (show_hex_nat n) = (n, [])"
    using scan_digits_append[OF show_hex_nat_digits, of 0 n "[]"] scan_show_hex_acc[of 0 n] by (simp add: prod_eq_iff)
  moreover have "starts_digit 16 (show_hex_nat n)" using d hex_char_val by (simp add: starts_digit_def)
  moreover have "scan_sign (dropWhile isspace (show_hex_nat n)) = (False, show_hex_nat n)"
    using d hex_char_plain[OF d(1)] by (simp add: scan_sign_def)
  ultimately show ?thesis using sk by (simp add: strtol_def)
qed

lemma show_hex_plain: "CHR 0x22 \<notin> set (show_hex i)"
  using show_hex_nat_plain by (auto simp: show_hex_def)

text \<open>An \<^verbatim>\<open>int\<close> is printed and read back with the low 32 bits.\<close>

lemma to_int_hex: "- (2 ^ 31) \<le> i \<Longrightarrow> i < 2 ^ 31 \<Longrightarrow> to_int (strtoul_value (int (nat (i mod 2 ^ 32)))) = i"
proof -
  assume i: "- (2 ^ 31) \<le> i" "i < 2 ^ 31"
  have m: "0 \<le> i mod 2 ^ 32" "i mod 2 ^ 32 < 2 ^ 32" by simp_all
  then have "strtoul_value (i mod 2 ^ 32) = i mod 2 ^ 32" by (simp add: strtoul_value_def)
  moreover have "to_int (i mod 2 ^ 32) = to_int i"
    by (simp add: to_int_def signed_take_bit_eq_iff_take_bit_eq take_bit_eq_mod)
  ultimately show ?thesis using i m by (simp add: to_int_def signed_take_bit_int_eq_self)
qed

section \<open>Tokens\<close>

text \<open>A line is a prefix, a colon and its arguments.\<close>

definition args_cur :: "(nat \<times> at_arg) list \<Rightarrow> cursor" where
  "args_cur as = (if as = [] then None else Some (show_args as))"

lemma args_cur_simps [arg_simps]: "args_cur [] = None" "args_cur (a # as) = Some (show_args (a # as))"
  by (simp_all add: args_cur_def)

lemma nextint_args [arg_simps]:
  "- (2 ^ 31) \<le> i \<Longrightarrow> i < 2 ^ 31 \<Longrightarrow> at_tok_nextint (Some (show_args ((k, IntArg i) # as))) p = (0, args_cur as, i)"
  using nextTok_int[of k i "args_cur as"] strtol_show_int[of "[]" i]
  by (simp add: show_args_Cons show_spaced_def args_cur_def at_tok_nextint_def at_tok_nextint_base_def to_int_id starts_digit_def)

lemma nextbool_args [arg_simps]:
  "b = 0 \<or> b = 1 \<Longrightarrow> at_tok_nextbool (Some (show_args ((k, IntArg b) # as))) p = (0, args_cur as, b)"
  by (auto simp: at_tok_nextbool_def arg_simps)

lemma nextTok_str_args:
  "CHR 0x22 \<notin> set s \<Longrightarrow> nextTok (Some (show_args ((k, StrArg s) # as))) = (Some s, Some (show_args as))"
  using nextTok_str[of s k "args_cur as"] by (simp add: show_args_Cons show_spaced_def args_cur_def)

lemma nextstr_args [arg_simps]:
  "CHR 0x22 \<notin> set s \<Longrightarrow> at_tok_nextstr (Some (show_args ((k, StrArg s) # as))) p = (0, Some (show_args as), Some s)"
  by (simp add: at_tok_nextstr_def nextTok_str_args)

lemma nexthex_args [arg_simps]:
  "- (2 ^ 31) \<le> i \<Longrightarrow> i < 2 ^ 31 \<Longrightarrow>
   at_tok_nexthexint (Some (show_args ((k, StrArg (show_hex i)) # as))) p = (0, Some (show_args as), i)"
  using nextTok_str_args[OF show_hex_plain, of k i as] strtol_show_hex[of "nat (i mod 2 ^ 32)"] to_int_hex[of i]
  by (simp add: at_tok_nexthexint_def at_tok_nextint_base_def show_hex_def)

lemma hasmore_args [arg_simps]: "at_tok_hasmore None = 0" "at_tok_hasmore (Some (show_args (a # as))) = 1" "at_tok_hasmore (Some []) = 0"
proof -
  have "show_args (a # as) \<noteq> []" using show_int_starts[of "case snd a of IntArg i \<Rightarrow> i"] by (cases "snd a") (auto simp: show_args_Cons show_spaced_def)
  then show "at_tok_hasmore (Some (show_args (a # as))) = 1" by (simp add: at_tok_hasmore_def)
qed (simp_all add: at_tok_hasmore_def)

declare show_args.simps [simp del]

section \<open>Calls\<close>

fun clcc_state :: "RIL_CallState \<Rightarrow> int" where
  "clcc_state RIL_CALL_ACTIVE = 0"
| "clcc_state RIL_CALL_HOLDING = 1"
| "clcc_state RIL_CALL_DIALING = 2"
| "clcc_state RIL_CALL_ALERTING = 3"
| "clcc_state RIL_CALL_INCOMING = 4"
| "clcc_state RIL_CALL_WAITING = 5"

text \<open>The line of a call, e.g. \<^verbatim>\<open>+CLCC: 1,0,2,0,0,"+18005551212",145\<close>, and the calls that a line can tell.\<close>

definition clcc_args :: "RIL_Call \<Rightarrow> (nat \<times> at_arg) list" where
  "clcc_args c =
     [(1, IntArg (rc_index c)), (0, IntArg (rc_isMT c)), (0, IntArg (clcc_state (rc_state c))),
      (0, IntArg (1 - rc_isVoice c)), (0, IntArg (rc_isMpty c))] @
     (case rc_number c of None \<Rightarrow> [] | Some s \<Rightarrow> [(0, StrArg s), (0, IntArg (rc_toa c))])"

definition clcc_line :: "RIL_Call \<Rightarrow> string" where
  "clcc_line c = ''+CLCC'' @ CHR '':'' # show_args (clcc_args c)"

definition is_int :: "int \<Rightarrow> bool" where
  "is_int i \<longleftrightarrow> - (2 ^ 31) \<le> i \<and> i < 2 ^ 31"

definition call_ok :: "RIL_Call \<Rightarrow> bool" where
  "call_ok c \<longleftrightarrow> is_int (rc_index c) \<and> (rc_isMT c = 0 \<or> rc_isMT c = 1) \<and> (rc_isVoice c = 0 \<or> rc_isVoice c = 1) \<and>
     (rc_isMpty c = 0 \<or> rc_isMpty c = 1) \<and>
     (case rc_number c of None \<Rightarrow> rc_toa c = 0
      | Some s \<Rightarrow> CHR 0x22 \<notin> set s \<and> \<not> not_a_number s \<and> is_int (rc_toa c))"

lemma clcc_state_inverse [arg_simps]: "clccStateToRILState (clcc_state s) = Some s"
  by (cases s) (simp_all add: clccStateToRILState_def)

lemma clcc_state_int: "- (2 ^ 31) \<le> clcc_state s \<and> clcc_state s < 2 ^ 31"
  by (cases s) simp_all

lemma clcc_line_parsed: "call_ok c \<Longrightarrow> callFromCLCCLine (clcc_line c) zero_call = (0, c)"
proof -
  assume ok: "call_ok c"
  have st: "at_tok_start (Some (clcc_line c)) = (0, Some (show_args (clcc_args c)))"
    unfolding clcc_line_def by (rule start_prefix) simp
  have num: "(if rc_number c = None then rc_toa c = 0 else True)" using ok by (auto simp: call_ok_def split: option.splits)
  show ?thesis
    using ok num clcc_state_int[of "rc_state c"]
    by (cases "rc_number c")
      (auto simp: callFromCLCCLine_def st clcc_args_def clcc_mode_def clcc_number_def arg_simps call_ok_def is_int_def zero_call_def Let_def)
qed

lemma clcc_lines_parsed:
  "\<forall>c\<in>set cs. call_ok c \<Longrightarrow> clcc_loop (map clcc_line cs) zero_call acc rep =
     (acc @ cs, rep \<or> (\<exists>c\<in>set cs. rc_state c \<noteq> RIL_CALL_ACTIVE \<and> rc_state c \<noteq> RIL_CALL_HOLDING))"
  by (induction cs arbitrary: acc rep) (auto simp: clcc_line_parsed)

text \<open>What holds of the fields of a call, whatever line has been read into it.\<close>

definition call_typed :: "RIL_Call \<Rightarrow> bool" where
  "call_typed c \<longleftrightarrow> is_int (rc_index c) \<and> is_int (rc_toa c) \<and> (rc_isMT c = 0 \<or> rc_isMT c = 1) \<and>
     (rc_isMpty c = 0 \<or> rc_isMpty c = 1) \<and> (rc_isVoice c = 0 \<or> rc_isVoice c = 1) \<and>
     (\<forall>s. rc_number c = Some s \<longrightarrow> \<not> not_a_number s)"

lemma is_int_to_int: "is_int (to_int v)"
  using signed_take_bit_int_greater_eq_minus_exp[of 31 v] signed_take_bit_int_less_exp[of 31 v] by (simp add: is_int_def to_int_def)

lemma nextint_is_int: "at_tok_nextint p v = (err, cur, w) \<Longrightarrow> is_int v \<Longrightarrow> is_int w"
  using is_int_to_int
  by (auto simp: at_tok_nextint_def at_tok_nextint_base_def split: option.splits prod.splits) (simp add: is_int_def)

lemma nextbool_bit: "at_tok_nextbool p v = (err, cur, w) \<Longrightarrow> v = 0 \<or> v = 1 \<Longrightarrow> w = 0 \<or> w = 1"
  by (auto simp: at_tok_nextbool_def split: prod.splits if_splits)

lemma clcc_number_typed:
  assumes "clcc_number line c = (err, c')" and "call_typed c"
  shows "call_typed c'"
proof -
  obtain e1 cur1 n where n: "at_tok_nextstr line (rc_number c) = (e1, cur1, n)" using prod_cases3 by blast
  obtain e2 cur2 v where v: "at_tok_nextint cur1 (rc_toa c) = (e2, cur2, v)" using prod_cases3 by blast
  have "is_int v" using nextint_is_int[OF v] assms(2) by (simp add: call_typed_def)
  moreover have "n = rc_number c" if "e1 < 0" using n that by (auto simp: at_tok_nextstr_def split: option.splits prod.splits)
  ultimately show ?thesis
    using assms n v by (auto simp: clcc_number_def call_typed_def Let_def split: if_splits)
qed

lemma clcc_mode_typed:
  assumes "clcc_mode line c = (err, c')" and "call_typed c"
  shows "call_typed c'"
proof -
  obtain e1 cur1 m where m: "at_tok_nextint line 0 = (e1, cur1, m)" using prod_cases3 by blast
  obtain e2 cur2 b where b: "at_tok_nextbool cur1 (rc_isMpty c) = (e2, cur2, b)" using prod_cases3 by blast
  let ?c = "c\<lparr>rc_isVoice := (if m = 0 then 1 else 0), rc_isMpty := b\<rparr>"
  have typed: "call_typed ?c" using nextbool_bit[OF b] assms(2) by (auto simp: call_typed_def)
  show ?thesis
    using assms m b typed clcc_number_typed[of cur2 ?c err c'] by (auto simp: clcc_mode_def Let_def split: if_splits)
qed

lemma clcc_call_typed:
  assumes "callFromCLCCLine s c = (err, c')" and "call_typed c"
  shows "call_typed c'"
proof -
  obtain e0 cur0 where t0: "at_tok_start (Some s) = (e0, cur0)" using prod.exhaust by blast
  obtain e1 cur1 i where t1: "at_tok_nextint cur0 (rc_index c) = (e1, cur1, i)" using prod_cases3 by blast
  obtain e2 cur2 b where t2: "at_tok_nextbool cur1 (rc_isMT c) = (e2, cur2, b)" using prod_cases3 by blast
  obtain e3 cur3 n where t3: "at_tok_nextint cur2 0 = (e3, cur3, n)" using prod_cases3 by blast
  let ?c = "c\<lparr>rc_index := i, rc_isMT := b\<rparr>"
  have typed1: "call_typed (c\<lparr>rc_index := i\<rparr>)" using nextint_is_int[OF t1] assms(2) by (auto simp: call_typed_def)
  have typed: "call_typed ?c" using typed1 nextbool_bit[OF t2] assms(2) by (auto simp: call_typed_def)
  have typed_state: "call_typed (?c\<lparr>rc_state := q\<rparr>)" for q using typed by (simp add: call_typed_def)
  show ?thesis
    using assms t0 t1 t2 t3 typed1 typed clcc_mode_typed[OF _ typed_state]
    by (auto simp: callFromCLCCLine_def Let_def split: if_splits option.splits)
qed

lemma clcc_loop_typed:
  "clcc_loop ls slot acc rep = (calls, r) \<Longrightarrow> call_typed slot \<Longrightarrow> \<forall>c\<in>set acc. call_typed c \<Longrightarrow> \<forall>c\<in>set calls. call_typed c"
proof (induction ls arbitrary: slot acc rep)
  case (Cons l ls)
  have z: "call_typed zero_call" by (simp add: call_typed_def zero_call_def is_int_def)
  obtain err c where c: "callFromCLCCLine l slot = (err, c)" by fastforce
  then have t: "call_typed c" using clcc_call_typed Cons.prems(2) by blast
  show ?case
  proof (cases "err = 0")
    case True
    then have "clcc_loop ls zero_call (acc @ [c]) (rep \<or> (rc_state c \<noteq> RIL_CALL_ACTIVE \<and> rc_state c \<noteq> RIL_CALL_HOLDING)) = (calls, r)"
      using Cons.prems(1) c by simp
    from Cons.IH[OF this z] show ?thesis using Cons.prems(3) t by simp
  next
    case False
    then have "clcc_loop ls c acc rep = (calls, r)" using Cons.prems(1) c by simp
    from Cons.IH[OF this t Cons.prems(3)] show ?thesis .
  qed
qed simp

section \<open>Registration\<close>

text \<open>\<^verbatim>\<open>+CREG: n,stat,"lac","cid"\<close>\<close>

definition creg_args :: "int \<Rightarrow> int \<Rightarrow> int \<Rightarrow> int \<Rightarrow> (nat \<times> at_arg) list" where
  "creg_args n stat lac cid = [(1, IntArg n), (0, IntArg stat), (0, StrArg (show_hex lac)), (0, StrArg (show_hex cid))]"

definition reg_line :: "string \<Rightarrow> (nat \<times> at_arg) list \<Rightarrow> string" where
  "reg_line pre as = pre @ CHR '':'' # show_args as"

lemma count_commas_append: "count_commas (s @ t) = count_commas s + count_commas t"
  by (simp add: count_commas_def)

lemma count_commas_none: "CHR '','' \<notin> set s \<Longrightarrow> count_commas s = 0"
  by (induction s) (auto simp: count_commas_def)

lemma show_hex_no_comma: "CHR '','' \<notin> set (show_hex i)"
  using show_hex_nat_plain by (auto simp: show_hex_def)

lemma show_int_no_comma: "CHR '','' \<notin> set (show_int i)"
  using show_int_plain by blast

lemma count_commas_args:
  "\<forall>a\<in>set as. (\<exists>i. snd a = IntArg i) \<or> (\<exists>s. snd a = StrArg s \<and> CHR '','' \<notin> set s) \<Longrightarrow> count_commas (show_args as) = length as - 1"
proof (induction as)
  case (Cons a as)
  have "CHR '','' \<notin> set (show_spaced a)" using Cons.prems show_int_no_comma by (auto simp: show_spaced_def)
  moreover have "count_commas (show_args as) = length as - 1" using Cons by simp
  ultimately show ?case
    by (subst show_args_Cons) (cases as; simp add: count_commas_append count_commas_none tail_of_def; simp add: count_commas_def)
qed (simp add: count_commas_def show_args.simps)

lemma reg_start: "CHR '':'' \<notin> set pre \<Longrightarrow> at_tok_start (Some (reg_line pre as)) = (0, Some (show_args as))"
  unfolding reg_line_def by (rule start_prefix)

lemma creg_parsed:
  assumes "CHR '':'' \<notin> set pre" and "is_int n" "is_int stat" "is_int lac" "is_int cid" and "techFromModemType (currentTech st) = Inr ty"
  shows "parseRegistrationState (reg_line pre (creg_args n stat lac cid)) st =
    Inr (Some ([stat, lac, cid, 0], 4, ty), st\<lparr>s_lac := lac, s_cid := cid\<rparr>)"
proof -
  have c: "count_commas (show_args (creg_args n stat lac cid)) = 3"
    by (subst count_commas_args) (auto simp: creg_args_def show_hex_no_comma)
  show ?thesis
    using assms
    by (simp add: parseRegistrationState_def reg_start c[unfolded creg_args_def One_nat_def] registration_fields_def creg_args_def bindO_def tok_skip_def tok_into_def
        arg_simps is_int_def eval_nat_numeral)
qed

text \<open>Without a cell the array is too short for what the code writes.\<close>

lemma creg_short:
  assumes "CHR '':'' \<notin> set pre" and "is_int n" "is_int stat" and "as = [(k, IntArg stat)] \<or> as = [(k, IntArg n), (k', IntArg stat)]"
  shows "parseRegistrationState (reg_line pre as) st = Inl OutOfBounds"
proof -
  have "count_commas (show_args as) = length as - 1"
    using assms(4) by (intro count_commas_args) auto
  then show ?thesis
    using assms
    by (auto simp: parseRegistrationState_def reg_start registration_fields_def bindO_def tok_skip_def tok_into_def store_int_def
        arg_simps is_int_def)
qed

end
