(* ===== verification/RIL_Modem.thy ===== *)
theory RIL_Modem
  imports RIL_Answers RIL_Lines
begin

text \<open>
  From the lines of the modem to the answers of the requests: what the handlers tell the RIL library when the
  modem answers a command with some lines and a final line on a free channel, and where they go wrong.
\<close>

declare show_args.simps [simp del]

section \<open>A command and its lines\<close>

definition linked :: "at_link \<Rightarrow> ril_env \<Rightarrow> bool" where
  "linked link env \<longleftrightarrow> modem env = channel_modem link"

lemma send_says: "linked link env \<Longrightarrow> says link (sent_nu st) ls f \<Longrightarrow> without_message req \<Longrightarrow>
  at_send env req st = (response_to req ls f, sent req st)"
  by (simp add: ril_simps linked_def says_answer)

lemma without_message_simps [ril_simps]:
  "without_message (AtPlain c)" "without_message (AtNumeric c)" "without_message (AtSingle c p)" "without_message (AtMulti c p)"
  by (simp_all add: without_message_def)

lemma request_on: "sState st = RADIO_STATE_ON \<Longrightarrow> onRequest env r t st = dispatch env r t st"
  by (simp add: onRequest_def)

lemma ok_final [ril_simps]: "isFinalResponseSuccess ''OK''" "\<not> isFinalResponseSuccess ''ERROR''"
  by (simp_all add: final_defs)

text \<open>The answers to a command of each kind.\<close>

lemma response_multi:
  "isFinalResponseSuccess f \<Longrightarrow> \<forall>l\<in>set ls. prefix p l \<Longrightarrow>
   response_to (AtMulti c p) ls f = (0, Some \<lparr>success = 1, finalResponse = Some f, p_intermediates = ls\<rparr>)"
  by (auto simp: response_to_def response_of_def command_of_def response_lines_def one_line_def line_pred_def ril_simps wants_line_def)

lemma response_single:
  "isFinalResponseSuccess f \<Longrightarrow> prefix p l \<Longrightarrow>
   response_to (AtSingle c p) [l] f = (0, Some \<lparr>success = 1, finalResponse = Some f, p_intermediates = [l]\<rparr>)"
  by (simp add: response_to_def response_of_def command_of_def response_lines_def one_line_def line_pred_def wants_line_def Let_def)

lemma response_error:
  "\<not> isFinalResponseSuccess f \<Longrightarrow> response_to req [] f = (0, Some \<lparr>success = 0, finalResponse = Some f, p_intermediates = []\<rparr>)"
  by (simp add: response_to_def response_of_def response_lines_def Let_def)

lemma answer_values [ril_simps]:
  "answer_failed (0, Some r) = Inr (success r = 0)" "answer_bad (0, Some r) = Inr (success r = 0)"
  "all_lines (0, Some r) = Inr (p_intermediates r)" "opened (0, Some r) \<longleftrightarrow> success r \<noteq> 0"
  "first_line (0, Some (r\<lparr>p_intermediates := l # ls\<rparr>)) = Inr l"
  by (simp_all add: answer_failed_def answer_bad_def all_lines_def opened_def first_line_def)

lemma completes_outs [ril_simps]:
  "ril_outs (RIL_onRequestComplete t e p st) = ril_outs st @ [Complete t e p]"
  "ril_outs (RIL_requestTimedCallback cb st) = ril_outs st @ [TimedCallback cb]"
  "ril_outs (RIL_onUnsolicitedResponse u p st) = ril_outs st @ [Unsol u p]"
  by (simp_all add: RIL_onRequestComplete_def RIL_requestTimedCallback_def RIL_onUnsolicitedResponse_def ril_out_def)

text \<open>For the witnesses: a modem that answers the n-th command with some lines.\<close>

definition line_link :: "(nat \<Rightarrow> string list) \<Rightarrow> at_link" where
  "line_link answer n = (ok_channel, [got_lines (answer n)])"

lemma line_link_says:
  "answer n = ls @ [f] \<Longrightarrow> \<forall>l\<in>set ls. \<not> isFinalResponse l \<Longrightarrow> isFinalResponse f \<Longrightarrow> says (line_link answer) n ls f"
  using demo_ready by (simp add: says_def line_link_def ready_def ok_channel_def can_write_def)

lemma demo_linked: "linked link (demo_env link)"
  by (simp add: linked_def demo_env_def)

lemma demo_state: "sState demo_ril = RADIO_STATE_ON" "sent_nu demo_ril = 0" "ril_outs demo_ril = []" "currentTech demo_ril = 1"
  by (simp_all add: demo_ril_def)

section \<open>Calls\<close>

lemma calls_read:
  assumes "linked link env" and "says link (sent_nu st) (map clcc_line cs) f" and "isFinalResponseSuccess f"
    and "\<forall>c\<in>set cs. call_ok c"
  shows "\<exists>st'. requestGetCurrentCalls env t st = Inr st' \<and>
    ril_outs st' = ril_outs st @ [Sent (AtMulti ''AT+CLCC'' ''+CLCC:''), Complete t RIL_E_SUCCESS (Calls cs)] @
      (if \<exists>c\<in>set cs. rc_state c \<noteq> RIL_CALL_ACTIVE \<and> rc_state c \<noteq> RIL_CALL_HOLDING then [TimedCallback SendCallStateChanged] else [])"
proof -
  have "response_to (AtMulti ''AT+CLCC'' ''+CLCC:'') (map clcc_line cs) f =
      (0, Some \<lparr>success = 1, finalResponse = Some f, p_intermediates = map clcc_line cs\<rparr>)"
    using assms(3) by (intro response_multi) (simp_all add: clcc_line_def)
  then show ?thesis
    using send_says[OF assms(1,2), of "AtMulti ''AT+CLCC'' ''+CLCC:''"] clcc_lines_parsed[OF assms(4)]
    by (auto simp: requestGetCurrentCalls_def ril_simps Let_def)
qed

text \<open>
  C17: the calls that the modem lists, one line for each, are what the library is told, in their order and with all
  their fields; a call that is neither active nor held makes the handler ask again later.
\<close>

theorem current_calls_reported:
  assumes "linked link env" and "says link (sent_nu st) (map clcc_line cs) f" and "isFinalResponseSuccess f"
    and "\<forall>c\<in>set cs. call_ok c" and "sState st = RADIO_STATE_ON"
  shows "\<exists>st'. onRequest env GET_CURRENT_CALLS t st = Inr st' \<and>
    ril_outs st' = ril_outs st @ [Sent (AtMulti ''AT+CLCC'' ''+CLCC:''), Complete t RIL_E_SUCCESS (Calls cs)] @
      (if \<exists>c\<in>set cs. rc_state c \<noteq> RIL_CALL_ACTIVE \<and> rc_state c \<noteq> RIL_CALL_HOLDING then [TimedCallback SendCallStateChanged] else [])"
  using calls_read[OF assms(1-4)] by (simp add: request_on[OF assms(5)])

definition demo_calls :: "RIL_Call list" where
  "demo_calls =
     [\<lparr>rc_state = RIL_CALL_ACTIVE, rc_index = 1, rc_toa = 145, rc_isMpty = 0, rc_isMT = 0, rc_isVoice = 1, rc_number = Some ''+18005551212''\<rparr>,
      \<lparr>rc_state = RIL_CALL_WAITING, rc_index = 2, rc_toa = 0, rc_isMpty = 0, rc_isMT = 1, rc_isVoice = 1, rc_number = None\<rparr>]"

theorem current_calls_reported_witness:
  "\<exists>st'. onRequest (demo_env (line_link (\<lambda>_. map clcc_line demo_calls @ [''OK'']))) GET_CURRENT_CALLS 3 demo_ril = Inr st' \<and>
    ril_outs st' = [Sent (AtMulti ''AT+CLCC'' ''+CLCC:''), Complete 3 RIL_E_SUCCESS (Calls demo_calls), TimedCallback SendCallStateChanged]"
proof -
  let ?link = "line_link (\<lambda>_. map clcc_line demo_calls @ [''OK''])"
  have says: "says ?link (sent_nu demo_ril) (map clcc_line demo_calls) ''OK''"
    by (rule line_link_says) (simp_all add: final_defs clcc_line_def)
  have ok: "\<forall>c\<in>set demo_calls. call_ok c"
    by (simp add: demo_calls_def call_ok_def is_int_def not_a_number_def)
  show ?thesis
    using current_calls_reported[OF demo_linked says _ ok, of 3] by (simp add: ril_simps demo_state) (simp add: demo_calls_def)
qed

text \<open>
  C18: whatever the modem answers, the calls that the library is told of are well-formed: their flags are 0 or 1, their
  numbers fit an \<^verbatim>\<open>int\<close>, and a telephone number starts with a plus sign or a digit.
\<close>

theorem current_calls_typed:
  assumes "onRequest env GET_CURRENT_CALLS t st = Inr st'"
    and "Complete t e (Calls cs) \<in> set (drop (length (ril_outs st)) (ril_outs st'))"
  shows "\<forall>c\<in>set cs. call_typed c"
proof (cases "sState st = RADIO_STATE_ON")
  case True
  let ?q = "AtMulti ''AT+CLCC'' ''+CLCC:''"
  have run: "requestGetCurrentCalls env t st = Inr st'" using assms(1) by (simp add: request_on[OF True])
  have z: "call_typed zero_call" by (simp add: call_typed_def zero_call_def is_int_def)
  obtain bad where bad: "answer_bad (modem env (sent_nu st) ?q) = Inr bad"
    using run by (auto simp: requestGetCurrentCalls_def ril_simps res_simps)
  show ?thesis
  proof (cases bad)
    case False
    then obtain ls where ls: "all_lines (modem env (sent_nu st) ?q) = Inr ls"
      using run bad by (auto simp: requestGetCurrentCalls_def ril_simps res_simps)
    obtain calls rep where "clcc_loop ls zero_call [] False = (calls, rep)" by fastforce
    moreover from this have "\<forall>c\<in>set calls. call_typed c" using clcc_loop_typed z by fastforce
    ultimately show ?thesis
      using run bad False ls assms(2) by (auto simp: requestGetCurrentCalls_def ril_simps Let_def split: if_splits)
  qed (use run bad assms(2) in \<open>auto simp: requestGetCurrentCalls_def ril_simps done_fail_def\<close>)
next
  case False
  then have "st' = RIL_onRequestComplete t RIL_E_RADIO_NOT_AVAILABLE NoData st"
    using assms(1) by (cases "sState st") (simp_all add: onRequest_def is_radio_power_def)
  then show ?thesis using assms(2) by (simp add: ril_simps)
qed

theorem current_calls_typed_witness:
  "\<exists>st'. onRequest (demo_env (line_link (\<lambda>_. map clcc_line demo_calls @ [''OK'']))) GET_CURRENT_CALLS 3 demo_ril = Inr st' \<and>
    (\<forall>c\<in>set demo_calls. call_typed c)"
proof -
  let ?link = "line_link (\<lambda>_. map clcc_line demo_calls @ [''OK''])"
  have says: "says ?link (sent_nu demo_ril) (map clcc_line demo_calls) ''OK''"
    by (rule line_link_says) (simp_all add: final_defs clcc_line_def)
  have ok: "\<forall>c\<in>set demo_calls. call_ok c"
    by (simp add: demo_calls_def call_ok_def is_int_def not_a_number_def)
  obtain st' where st': "onRequest (demo_env ?link) GET_CURRENT_CALLS 3 demo_ril = Inr st'"
    "Complete 3 RIL_E_SUCCESS (Calls demo_calls) \<in> set (drop (length (ril_outs demo_ril)) (ril_outs st'))"
    using calls_read[OF demo_linked says _ ok, of 3] by (fastforce simp: request_on demo_state ril_simps)
  show ?thesis using st'(1) current_calls_typed[OF st'] by simp
qed

section \<open>Registration\<close>

lemma first_line_single [ril_simps]:
  "first_line (0, Some \<lparr>success = n, finalResponse = g, p_intermediates = l # ls\<rparr>) = Inr l"
  "first_line (0, Some \<lparr>success = n, finalResponse = g, p_intermediates = []\<rparr>) = Inl NullDeref"
  by (simp_all add: first_line_def)

text \<open>The command, the prefix and the length of the answer of the two requests.\<close>

definition reg_request :: "bool \<Rightarrow> ril_request" where
  "reg_request voice = (if voice then VOICE_REGISTRATION_STATE else DATA_REGISTRATION_STATE)"

definition reg_command :: "bool \<Rightarrow> at_request" where
  "reg_command voice = (if voice then AtSingle ''AT+CREG?'' ''+CREG:'' else AtSingle ''AT+CGREG?'' ''+CGREG:'')"

definition reg_prefix :: "bool \<Rightarrow> string" where
  "reg_prefix voice = (if voice then ''+CREG'' else ''+CGREG'')"

lemma reg_response:
  assumes "isFinalResponseSuccess f"
  shows "response_to (reg_command voice) [reg_line (reg_prefix voice) as] f =
    (0, Some \<lparr>success = 1, finalResponse = Some f, p_intermediates = [reg_line (reg_prefix voice) as]\<rparr>)"
  using assms by (auto simp: reg_command_def reg_prefix_def reg_line_def intro!: response_single)

lemma reg_prefix_plain: "CHR '':'' \<notin> set (reg_prefix voice)"
  by (simp add: reg_prefix_def)

lemma reg_dispatch: "sState st = RADIO_STATE_ON \<Longrightarrow> onRequest env (reg_request voice) t st = requestRegistrationState env voice t st"
  by (simp add: request_on reg_request_def)

lemma reg_without: "without_message (reg_command voice)"
  by (simp add: reg_command_def ril_simps)

text \<open>
  The state, the area and the cell that the modem reports, the latter two as hexadecimal numbers in quotes, are
  what the library is told, and the cell is kept for the list of cells. The fourth string, the network's
  technology, is then 0.
\<close>

theorem registration_reported:
  assumes "linked link env" and "says link (sent_nu st) [reg_line (reg_prefix voice) (creg_args n stat lac cid)] f"
    and "isFinalResponseSuccess f" and "is_int n" "is_int stat" "is_int lac" "is_int cid"
    and "techFromModemType (currentTech st) = Inr ty" and "\<not> is3gpp2 ty" and "sState st = RADIO_STATE_ON"
  shows "\<exists>st'. onRequest env (reg_request voice) t st = Inr st' \<and> s_lac st' = lac \<and> s_cid st' = cid \<and>
    ril_outs st' = ril_outs st @ [Sent (reg_command voice),
      Complete t RIL_E_SUCCESS (Texts ([Some (show_int stat), Some (show_hex lac), Some (show_hex cid), Some ''0''] @
        replicate (if voice then 11 else 2) None))]"
proof -
  have send: "at_send env (reg_command voice) st = (response_to (reg_command voice) [reg_line (reg_prefix voice) (creg_args n stat lac cid)] f, sent (reg_command voice) st)"
    by (rule send_says[OF assms(1,2) reg_without])
  have parse: "parseRegistrationState (reg_line (reg_prefix voice) (creg_args n stat lac cid)) (sent (reg_command voice) st) =
      Inr (Some ([stat, lac, cid, 0], 4, ty), (sent (reg_command voice) st)\<lparr>s_lac := lac, s_cid := cid\<rparr>)"
    using creg_parsed[OF reg_prefix_plain assms(4-7)] assms(8) by (simp add: ril_simps)
  have zero: "show_int 0 = ''0''" by code_simp
  show ?thesis
    unfolding reg_dispatch[OF assms(10)] requestRegistrationState_def reg_command_def[symmetric] send reg_response[OF assms(3)]
    using parse assms(9) by (auto simp: ril_simps registration_strings_def zero RIL_onRequestComplete_def ril_out_def)
qed

text \<open>
  C39: while there is no cell, the modem's line has one or two numbers, and the handler writes two elements behind
  the end of the array that it has allocated.
\<close>

theorem registration_without_cell:
  assumes "linked link env" and "says link (sent_nu st) [reg_line (reg_prefix voice) as] f" and "isFinalResponseSuccess f"
    and "is_int n" "is_int stat" and "as = [(k, IntArg stat)] \<or> as = [(k, IntArg n), (k', IntArg stat)]"
    and "sState st = RADIO_STATE_ON"
  shows "onRequest env (reg_request voice) t st = Inl OutOfBounds"
proof -
  have send: "at_send env (reg_command voice) st = (response_to (reg_command voice) [reg_line (reg_prefix voice) as] f, sent (reg_command voice) st)"
    by (rule send_says[OF assms(1,2) reg_without])
  show ?thesis
    unfolding reg_dispatch[OF assms(7)] requestRegistrationState_def reg_command_def[symmetric] send reg_response[OF assms(3)]
    using creg_short[OF reg_prefix_plain assms(4-6)] by (simp add: ril_simps)
qed

text \<open>
  When the modem rejects the command, the handler, which does not look at the success, follows the null pointer of
  the missing line.
\<close>

theorem registration_rejected:
  assumes "linked link env" and "says link (sent_nu st) [] f" and "\<not> isFinalResponseSuccess f" and "sState st = RADIO_STATE_ON"
  shows "onRequest env (reg_request voice) t st = Inl NullDeref"
proof -
  have send: "at_send env (reg_command voice) st = (response_to (reg_command voice) [] f, sent (reg_command voice) st)"
    by (rule send_says[OF assms(1,2) reg_without])
  show ?thesis
    unfolding reg_dispatch[OF assms(4)] requestRegistrationState_def reg_command_def[symmetric] send response_error[OF assms(3)]
    by (simp add: ril_simps)
qed

lemma says_one: "isFinalResponse f \<Longrightarrow> \<not> isFinalResponse l \<Longrightarrow> says (line_link (\<lambda>_. [l, f])) n [l] f"
  by (rule line_link_says) simp_all

lemma says_none: "isFinalResponse f \<Longrightarrow> says (line_link (\<lambda>_. [f])) n [] f"
  by (rule line_link_says) simp_all

lemma reg_not_final: "\<not> isFinalResponse (reg_line (reg_prefix voice) as)"
  by (simp add: reg_line_def reg_prefix_def final_defs)

lemma ok_error_final: "isFinalResponse ''OK''" "isFinalResponse ''ERROR''"
  by (simp_all add: final_defs)

theorem registration_reported_witness:
  "\<exists>st'. onRequest (demo_env (line_link (\<lambda>_. [reg_line ''+CREG'' (creg_args 2 1 165 221007), ''OK'']))) VOICE_REGISTRATION_STATE 5 demo_ril = Inr st' \<and>
    s_lac st' = 165 \<and> s_cid st' = 221007"
  using registration_reported[where voice = True and n = 2 and stat = 1 and lac = 165 and cid = 221007 and st = demo_ril and ty = 11 and t = 5,
      OF demo_linked says_one[OF ok_error_final(1) reg_not_final]]
  by (auto simp: reg_prefix_def is_int_def ril_simps demo_state reg_request_def techFromModemType_def bit_of_def tech_defs is3gpp2_def)

theorem registration_without_cell_witness:
  "onRequest (demo_env (line_link (\<lambda>_. [reg_line ''+CREG'' [(1, IntArg 2), (0, IntArg 0)], ''OK'']))) VOICE_REGISTRATION_STATE 5 demo_ril = Inl OutOfBounds"
  using registration_without_cell[where voice = True and as = "[(1, IntArg 2), (0, IntArg 0)]" and n = 2 and stat = 0 and k = 1 and k' = 0
      and st = demo_ril and t = 5, OF demo_linked says_one[OF ok_error_final(1) reg_not_final]]
  by (simp add: reg_prefix_def is_int_def ril_simps demo_state reg_request_def)

theorem registration_rejected_witness:
  "onRequest (demo_env (line_link (\<lambda>_. [''ERROR'']))) DATA_REGISTRATION_STATE 5 demo_ril = Inl NullDeref"
  using registration_rejected[OF demo_linked says_none[OF ok_error_final(2)], of demo_ril False 5]
  by (simp add: ril_simps demo_state reg_request_def)

section \<open>Operators\<close>

text \<open>The loop over the lines stops at the end of the array of three strings.\<close>

lemma cops_overrun:
  "i \<le> length response \<Longrightarrow> length response < i + length ls \<Longrightarrow> \<forall>l\<in>set ls. parse_cops l \<noteq> None \<Longrightarrow>
   cops_loop ls i response st = Inl OutOfBounds"
proof (induction ls arbitrary: i response st)
  case (Cons l ls)
  then obtain r where "parse_cops l = Some r" by auto
  then show ?case using Cons by (cases "i < length response") auto
qed simp

text \<open>
  A modem that answers the three queries of the operator with more than three lines makes the handler write behind
  its array of three strings; the test for three lines comes after the loop.
\<close>

theorem operator_overrun:
  assumes "linked link env" and "says link (sent_nu st) ls f" and "isFinalResponseSuccess f"
    and "\<forall>l\<in>set ls. prefix ''+COPS:'' l \<and> parse_cops l \<noteq> None" and "3 < length ls" and "sState st = RADIO_STATE_ON"
  shows "onRequest env OPERATOR t st = Inl OutOfBounds"
proof -
  have "response_to (AtMulti c ''+COPS:'') ls f = (0, Some \<lparr>success = 1, finalResponse = Some f, p_intermediates = ls\<rparr>)" for c
    using assms(3,4) by (intro response_multi) auto
  then show ?thesis
    using assms(5,6) send_says[OF assms(1,2), of "AtMulti ''AT+COPS=3,0;+COPS?;+COPS=3,1;+COPS?;+COPS=3,2;+COPS?'' ''+COPS:''"]
      cops_overrun[where response = "replicate 3 None" and i = 0 and ls = ls] assms(4)
    by (simp add: request_on requestOperator_def ril_simps)
qed

theorem operator_overrun_witness:
  "onRequest (demo_env (line_link (\<lambda>_. replicate 4 ''+COPS: 0'' @ [''OK'']))) OPERATOR 5 demo_ril = Inl OutOfBounds"
proof -
  have says: "says (line_link (\<lambda>_. replicate 4 ''+COPS: 0'' @ [''OK''])) (sent_nu demo_ril) (replicate 4 ''+COPS: 0'') ''OK''"
    by (rule line_link_says) (simp_all add: final_defs)
  have "parse_cops ''+COPS: 0'' \<noteq> None" by code_simp
  then show ?thesis using operator_overrun[OF demo_linked says, of 5] by (simp add: ril_simps demo_state)
qed

section \<open>The SIM\<close>

text \<open>
  A modem that answers the query of the SIM with error 0 (\<^verbatim>\<open>phone failure\<close>) is taken to have
  succeeded, since 0 is also the number for no error, and the handler follows the null pointer of the missing line.
\<close>

theorem phone_failure_crashes:
  assumes "linked link env" and "says link (sent_nu st) [] ''+CME ERROR: 0''" and "sState st = RADIO_STATE_ON"
  shows "onRequest env GET_SIM_STATUS t st = Inl NullDeref"
proof -
  have nf: "\<not> isFinalResponseSuccess ''+CME ERROR: 0''" by (simp add: final_defs)
  have "at_get_cme_error \<lparr>success = 0, finalResponse = Some ''+CME ERROR: 0'', p_intermediates = []\<rparr> = 0" by code_simp
  then show ?thesis
    using send_says[OF assms(1,2), of "AtSingle ''AT+CPIN?'' ''+CPIN:''"] assms(3)
    by (simp add: request_on getSimStatusRequest_def getCardStatus_def getSIMStatus_def response_error[OF nf] ril_simps)
qed

theorem phone_failure_crashes_witness:
  "onRequest (demo_env (line_link (\<lambda>_. [''+CME ERROR: 0'']))) GET_SIM_STATUS 5 demo_ril = Inl NullDeref"
  using phone_failure_crashes[where st = demo_ril and t = 5, OF demo_linked says_none] by (simp add: final_defs demo_state)

text \<open>
  For a SIM that waits for its PIN the library is told of three applications: the first, a USIM, is
  ready, while the other two wait for the PIN.
\<close>

theorem locked_sim_is_ready:
  assumes "linked link env" and "says link (sent_nu st) [''+CPIN: SIM PIN''] f" and "isFinalResponseSuccess f" and "sState st = RADIO_STATE_ON"
  shows "\<exists>st' card. onRequest env GET_SIM_STATUS t st = Inr st' \<and> ril_outs st' = ril_outs st @ [Sent (AtSingle ''AT+CPIN?'' ''+CPIN:''), Complete t RIL_E_SUCCESS (Card card)] \<and>
    num_applications card = 3 \<and>
    applications card ! 0 = AppStatus RIL_APPTYPE_USIM RIL_APPSTATE_READY RIL_PERSOSUBSTATE_READY RIL_PINSTATE_DISABLED RIL_PINSTATE_ENABLED_NOT_VERIFIED \<and>
    applications card ! 1 = AppStatus RIL_APPTYPE_RUIM RIL_APPSTATE_PIN RIL_PERSOSUBSTATE_UNKNOWN RIL_PINSTATE_ENABLED_NOT_VERIFIED RIL_PINSTATE_UNKNOWN \<and>
    applications card ! 2 = AppStatus RIL_APPTYPE_ISIM RIL_APPSTATE_PIN RIL_PERSOSUBSTATE_UNKNOWN RIL_PINSTATE_ENABLED_NOT_VERIFIED RIL_PINSTATE_UNKNOWN"
proof -
  have resp: "response_to (AtSingle ''AT+CPIN?'' ''+CPIN:'') [''+CPIN: SIM PIN''] f =
      (0, Some \<lparr>success = 1, finalResponse = Some f, p_intermediates = [''+CPIN: SIM PIN'']\<rparr>)"
    using assms(3) by (intro response_single) simp_all
  have pin: "cpin_status ''+CPIN: SIM PIN'' = Inr SIM_PIN" by code_simp
  have cme: "at_get_cme_error \<lparr>success = 1, finalResponse = Some f, p_intermediates = ls\<rparr> = 0" for ls by (simp add: at_get_cme_error_def)
  show ?thesis
    using send_says[OF assms(1,2), of "AtSingle ''AT+CPIN?'' ''+CPIN:''"] assms(4) pin cme
    by (simp add: request_on getSimStatusRequest_def getCardStatus_def getSIMStatus_def resp ril_simps app_status_array_def
        app_statuses_def eval_nat_numeral)
qed

theorem locked_sim_is_ready_witness:
  "\<exists>st' card. onRequest (demo_env (line_link (\<lambda>_. [''+CPIN: SIM PIN'', ''OK'']))) GET_SIM_STATUS 5 demo_ril = Inr st' \<and>
    ril_outs st' = [Sent (AtSingle ''AT+CPIN?'' ''+CPIN:''), Complete 5 RIL_E_SUCCESS (Card card)] \<and> num_applications card = 3"
  using locked_sim_is_ready[OF demo_linked says_one, of "''OK''" demo_ril 5] by (auto simp: final_defs demo_state)

text \<open>
  A PIN that the modem accepts with a plain OK is reported as incorrect: the command is sent as one that needs
  a line, and its absence is an error.
\<close>

theorem accepted_pin_incorrect:
  assumes "linked link env" and "says link (sent_nu st) [] f" and "isFinalResponseSuccess f" and "sState st = RADIO_STATE_ON"
  shows "\<exists>st'. onRequest env (ENTER_SIM_PIN [pin]) t st = Inr st' \<and>
    ril_outs st' = ril_outs st @ [Sent (AtSingle (''AT+CPIN='' @ pin) ''+CPIN:''), Complete t RIL_E_PASSWORD_INCORRECT NoData]"
proof -
  have "response_to (AtSingle c p) [] f = (AT_ERROR_INVALID_RESPONSE, None)" for c p
    using assms(3) by (simp add: response_to_def response_of_def response_lines_def command_of_def wants_line_def Let_def)
  then show ?thesis
    using send_says[OF assms(1,2), of "AtSingle (''AT+CPIN='' @ pin) ''+CPIN:''"] assms(4)
    by (simp add: request_on requestEnterSimPin_def answer_failed_def ril_simps)
qed

theorem accepted_pin_incorrect_witness:
  "\<exists>st'. onRequest (demo_env (line_link (\<lambda>_. [''OK'']))) (ENTER_SIM_PIN [''1234'']) 5 demo_ril = Inr st' \<and>
    ril_outs st' = [Sent (AtSingle ''AT+CPIN=1234'' ''+CPIN:''), Complete 5 RIL_E_PASSWORD_INCORRECT NoData]"
  using accepted_pin_incorrect[OF demo_linked says_none, of "''OK''" demo_ril "''1234''" 5] by (simp add: final_defs demo_state)

section \<open>The technology of the modem\<close>

text \<open>
  A modem of one technology is taken for another: the code keeps the flag of the technology where a bit number is
  expected, so that a CDMA modem is reported as LTE and a GSM modem as HSPA.
\<close>

theorem single_mode_technology:
  assumes "linked link env" and "says link (sent_nu st) [] ''ERROR''"
    and "if cdma then says link (Suc (sent_nu st)) [l] ''OK'' \<and> prefix ''+WNAM:'' l else says link (Suc (sent_nu st)) [] ''ERROR''"
    and "sState st = RADIO_STATE_ON"
  shows "\<exists>st' st''. probeForModemMode env st = Inr st' \<and> supportedTechs st' = (if cdma then MDM_CDMA OR MDM_EVDO else MDM_GSM OR MDM_WCDMA OR MDM_LTE) \<and>
    onRequest env VOICE_RADIO_TECH t st' = Inr st'' \<and>
    ril_outs st'' = ril_outs st' @ [Complete t RIL_E_SUCCESS (Ints [if cdma then RADIO_TECH_LTE else RADIO_TECH_HSPA])]"
proof -
  have first: "modem env (sent_nu st) (AtSingle ''AT+CTEC?'' ''+CTEC:'') =
      (0, Some \<lparr>success = 0, finalResponse = Some ''ERROR'', p_intermediates = []\<rparr>)"
    using says_answer[OF assms(2)] assms(1) by (simp add: linked_def response_error ril_simps)
  have second: "modem env (Suc (sent_nu st)) (AtSingle ''AT+WNAM'' ''+WNAM:'') =
      (0, Some (if cdma then \<lparr>success = 1, finalResponse = Some ''OK'', p_intermediates = [l]\<rparr>
         else \<lparr>success = 0, finalResponse = Some ''ERROR'', p_intermediates = []\<rparr>))"
    using says_answer[of link "Suc (sent_nu st)"] assms(1,3)
    by (auto simp: linked_def response_error response_single ril_simps split: if_splits)
  show ?thesis
    using assms(4)
    by (auto simp: probeForModemMode_def is_multimode_modem_def query_ctec_def first second ril_simps request_on voiceRadioTech_def
        techFromModemType_def bit_of_def tech_defs)
qed

theorem single_mode_technology_witness:
  "\<exists>st' st''. probeForModemMode (demo_env (line_link (\<lambda>n. if n = 0 then [''ERROR''] else [''+WNAM: 1'', ''OK'']))) demo_ril = Inr st' \<and>
    supportedTechs st' = 12 \<and> onRequest (demo_env (line_link (\<lambda>n. if n = 0 then [''ERROR''] else [''+WNAM: 1'', ''OK'']))) VOICE_RADIO_TECH 5 st' = Inr st'' \<and>
    ril_outs st'' = ril_outs st' @ [Complete 5 RIL_E_SUCCESS (Ints [14])]"
proof -
  let ?link = "line_link (\<lambda>n. if n = 0 then [''ERROR''] else [''+WNAM: 1'', ''OK''])"
  have s0: "says ?link (sent_nu demo_ril) [] ''ERROR''" by (rule line_link_says) (simp_all add: demo_state final_defs)
  have s1: "says ?link (Suc (sent_nu demo_ril)) [''+WNAM: 1''] ''OK''" by (rule line_link_says) (simp_all add: demo_state final_defs)
  show ?thesis
    using single_mode_technology[OF demo_linked s0, of True "''+WNAM: 1''" 5] s1 by (simp add: demo_state tech_defs)
qed

text \<open>
  The number of the technology is stored as the modem names it, whatever it is: after a number outside 0 to 30, a request
  that shifts by it runs into the undefined shift.
\<close>

abbreviation ctec_line :: "int \<Rightarrow> int \<Rightarrow> string" where
  "ctec_line tech preferred \<equiv> reg_line ''+CTEC'' [(1, IntArg tech), (0, StrArg (show_hex preferred))]"

abbreviation ctec_list :: "int \<Rightarrow> string" where
  "ctec_list tech \<equiv> reg_line ''+CTEC'' [(1, IntArg tech)]"

theorem technology_unchecked:
  assumes "linked link env" and "says link (sent_nu st) [ctec_line tech preferred] ''OK''" and "says link (Suc (sent_nu st)) [ctec_list 0] ''OK''"
    and "is_int tech" "is_int preferred" and "sState st = RADIO_STATE_ON"
  shows "\<exists>st'. probeForModemMode env st = Inr st' \<and> currentTech st' = tech \<and>
    (asks_tech r \<and> \<not> (0 \<le> tech \<and> tech < 31) \<longrightarrow> onRequest env r t st' = Inl BadShift)"
proof -
  define l1 l2 where l: "l1 = ctec_line tech preferred" "l2 = ctec_list 0"
  have first: "modem env (sent_nu st) (AtSingle ''AT+CTEC?'' ''+CTEC:'') =
      (0, Some \<lparr>success = 1, finalResponse = Some ''OK'', p_intermediates = [l1]\<rparr>)"
    using says_answer[OF assms(2)] assms(1) response_single[of "''OK''" "''+CTEC:''" "ctec_line tech preferred"]
    by (simp add: linked_def l reg_line_def ril_simps)
  have second: "modem env (Suc (sent_nu st)) (AtSingle ''AT+CTEC=?'' ''+CTEC:'') =
      (0, Some \<lparr>success = 1, finalResponse = Some ''OK'', p_intermediates = [l2]\<rparr>)"
    using says_answer[OF assms(3)] assms(1) response_single[of "''OK''" "''+CTEC:''" "ctec_list 0"]
    by (simp add: linked_def l reg_line_def ril_simps)
  have parsed: "parse_technology_response l1 = (0, Some tech, Some preferred)"
    using assms(4,5) by (simp add: l parse_technology_response_def reg_start arg_simps is_int_def)
  have start: "at_tok_start (Some l2) = (0, Some (show_args [(1, IntArg 0)]))" "at_tok_hasmore (Some (show_args [(1, IntArg 0)])) = 1"
    by (simp_all add: l reg_start arg_simps)
  have none: "\<exists>c v. at_tok_nextint None 0 = (- 1, c, v)"
    by (simp add: at_tok_nextint_def at_tok_nextint_base_def nextTok_def)
  obtain techs where techs: "supported_loop (Suc (length l2)) (Some (show_args [(1, IntArg 0)])) 0 = Inr techs"
  proof -
    obtain n where "length l2 = Suc n" by (simp add: l reg_line_def)
    then show ?thesis using none that by (auto simp: arg_simps bit_of_def)
  qed
  let ?st = "(sent (AtSingle ''AT+CTEC=?'' ''+CTEC:'') ((sent (AtSingle ''AT+CTEC?'' ''+CTEC:'') st)\<lparr>currentTech := tech, preferredNetworkMode := preferred\<rparr>))\<lparr>supportedTechs := techs\<rparr>"
  have "probeForModemMode env st = Inr ?st"
    using techs by (simp add: probeForModemMode_def is_multimode_modem_def query_ctec_def query_supported_techs_def first second parsed
        start[simplified] ril_simps del: supported_loop.simps)
  moreover have "currentTech ?st = tech" "sState ?st = RADIO_STATE_ON" using assms(6) by (simp_all add: ril_simps)
  ultimately show ?thesis
    using shift_faults[of r ?st env t] by (auto simp: shift_fault_def tech_ok_def)
qed

theorem technology_unchecked_witness:
  "\<exists>st'. probeForModemMode (demo_env (line_link (\<lambda>n. if n = 0 then [ctec_line 40 1, ''OK''] else [ctec_list 0, ''OK'']))) demo_ril = Inr st' \<and>
    onRequest (demo_env (line_link (\<lambda>n. if n = 0 then [ctec_line 40 1, ''OK''] else [ctec_list 0, ''OK'']))) VOICE_RADIO_TECH 5 st' = Inl BadShift"
proof -
  let ?link = "line_link (\<lambda>n. if n = 0 then [ctec_line 40 1, ''OK''] else [ctec_list 0, ''OK''])"
  have s0: "says ?link (sent_nu demo_ril) [ctec_line 40 1] ''OK''" by (rule line_link_says) (simp_all add: demo_state final_defs reg_line_def)
  have s1: "says ?link (Suc (sent_nu demo_ril)) [ctec_list 0] ''OK''" by (rule line_link_says) (simp_all add: demo_state final_defs reg_line_def)
  show ?thesis
    using technology_unchecked[OF demo_linked s0 s1, of VOICE_RADIO_TECH 5] by (auto simp: demo_state is_int_def)
qed

text \<open>
  A request for CDMA modems on a modem of another technology is completed with success, though nothing is sent: its
  case runs on into the one that only reports success.
\<close>

theorem cdma_requests_claimed:
  assumes "r \<in> {BASEBAND_VERSION, DEVICE_IDENTITY, CDMA_SUBSCRIPTION, CDMA_SET_SUBSCRIPTION_SOURCE src, CDMA_GET_SUBSCRIPTION_SOURCE,
      CDMA_QUERY_ROAMING_PREFERENCE, CDMA_SET_ROAMING_PREFERENCE pref, EXIT_EMERGENCY_CALLBACK_MODE}"
    and "tech_ok st" and "2 ^ nat (currentTech st) \<noteq> MDM_CDMA" and "sState st = RADIO_STATE_ON"
  shows "onRequest env r t st = Inr (RIL_onRequestComplete t RIL_E_SUCCESS NoData st)"
  using assms by (auto simp: request_on cdma_or_fall_through_def bit_of_def tech_ok_def done_ok_def)

theorem cdma_requests_claimed_witness:
  "onRequest (demo_env ok_link) (CDMA_SET_ROAMING_PREFERENCE 2) 5 demo_ril = Inr (RIL_onRequestComplete 5 RIL_E_SUCCESS NoData demo_ril)"
  using cdma_requests_claimed[of "CDMA_SET_ROAMING_PREFERENCE 2" None 2 demo_ril] by (simp add: tech_ok_def demo_state)

section \<open>Completions\<close>

text \<open>
  C40: three handlers do not complete their request once: an acknowledged message is completed with success and then with
  a failure, a rejected query of the signal with two failures, and the automatic selection of a network never.
\<close>

theorem completion_defects:
  assumes "linked link env" and "says link (sent_nu st) [] ''ERROR''" and "sState st = RADIO_STATE_ON"
  shows "\<exists>st1 st2 st3.
    onRequest env (SMS_ACKNOWLEDGE 1) t st = Inr st1 \<and>
      ril_outs st1 = ril_outs st @ [Sent (AtPlain ''AT+CNMA=1''), Complete t RIL_E_SUCCESS NoData, Complete t RIL_E_GENERIC_FAILURE NoData] \<and>
    onRequest env SIGNAL_STRENGTH t st = Inr st2 \<and>
      ril_outs st2 = ril_outs st @ [Sent (AtSingle ''AT+CSQ'' ''+CSQ:''), Complete t RIL_E_GENERIC_FAILURE NoData, Complete t RIL_E_GENERIC_FAILURE NoData] \<and>
    onRequest env SET_NETWORK_SELECTION_AUTOMATIC t st = Inr st3 \<and>
      ril_outs st3 = ril_outs st @ [Sent (AtPlain ''AT+COPS=0'')]"
  using send_says[OF assms(1,2)] assms(3)
  by (simp add: request_on requestSMSAcknowledge_def requestSignalStrength_def at_send_only_def done_ok_def done_fail_def response_error ril_simps)

theorem completion_defects_witness:
  "\<exists>st1. onRequest (demo_env (line_link (\<lambda>_. [''ERROR'']))) (SMS_ACKNOWLEDGE 1) 5 demo_ril = Inr st1 \<and>
    ril_outs st1 = [Sent (AtPlain ''AT+CNMA=1''), Complete 5 RIL_E_SUCCESS NoData, Complete 5 RIL_E_GENERIC_FAILURE NoData]"
  using completion_defects[OF demo_linked says_none[OF ok_error_final(2)], of demo_ril 5] by (auto simp: demo_state)

section \<open>Data calls\<close>

text \<open>A data call as the modem describes it in two lines.\<close>

definition cgact_line :: "RIL_Data_Call \<Rightarrow> string" where
  "cgact_line d = ''+CGACT'' @ CHR '':'' # show_args [(1, IntArg (dc_cid d)), (0, IntArg (dc_active d))]"

definition cgdcont_line :: "RIL_Data_Call \<Rightarrow> string" where
  "cgdcont_line d = ''+CGDCONT'' @ CHR '':'' # show_args [(1, IntArg (dc_cid d)), (0, StrArg (dc_type d)), (0, StrArg (dc_ifname d)),
     (0, StrArg (dc_addresses d)), (0, StrArg (dc_dnses d)), (0, StrArg (dc_gateways d))]"

definition data_call_ok :: "RIL_Data_Call \<Rightarrow> bool" where
  "data_call_ok d \<longleftrightarrow> dc_status d = 0 \<and> dc_suggestedRetryTime d = - 1 \<and> dc_mtu d = 0 \<and> is_int (dc_cid d) \<and> is_int (dc_active d) \<and>
     (\<forall>s\<in>{dc_type d, dc_ifname d, dc_addresses d, dc_dnses d, dc_gateways d}. CHR 0x22 \<notin> set s)"

definition half_call :: "RIL_Data_Call \<Rightarrow> RIL_Data_Call" where
  "half_call d = new_data_call\<lparr>dc_cid := dc_cid d, dc_active := dc_active d\<rparr>"

lemma cgact_parsed: "data_call_ok d \<Longrightarrow> parse_cgact (cgact_line d) = Some (half_call d)"
proof -
  assume ok: "data_call_ok d"
  have "at_tok_start (Some (cgact_line d)) = (0, Some (show_args [(1, IntArg (dc_cid d)), (0, IntArg (dc_active d))]))"
    unfolding cgact_line_def by (rule start_prefix) simp
  then show ?thesis using ok by (simp add: parse_cgact_def arg_simps data_call_ok_def is_int_def half_call_def)
qed

lemma cgacts_parsed: "\<forall>d\<in>set ds. data_call_ok d \<Longrightarrow> parse_all parse_cgact (map cgact_line ds) = Some (map half_call ds)"
  by (induction ds) (simp_all add: cgact_parsed)

lemma cgdcont_fields_read:
  assumes "data_call_ok d" and "\<not> in_emulator env"
  shows "cgdcont_fields env (Some (show_args [(0, StrArg (dc_type d)), (0, StrArg (dc_ifname d)), (0, StrArg (dc_addresses d)),
     (0, StrArg (dc_dnses d)), (0, StrArg (dc_gateways d))])) (half_call d) = Inr (Some d)"
  using assms
  by (simp add: cgdcont_fields_def next_copy_def arg_simps data_call_ok_def bindO_def dns_and_gateway_def half_call_def new_data_call_def)

lemma update_first_middle:
  "\<forall>d\<in>set xs. \<not> p d \<Longrightarrow> p y \<Longrightarrow> f y = Inr (Some z) \<Longrightarrow> update_first p f (xs @ y # ys) = Inr (Some (xs @ z # ys))"
  by (induction xs) (simp_all add: bindO_def)

lemma cgdcont_loop_completes:
  "distinct (map dc_cid (xs @ ds)) \<Longrightarrow> \<forall>d\<in>set ds. data_call_ok d \<Longrightarrow> \<not> in_emulator env \<Longrightarrow>
   cgdcont_loop env (map cgdcont_line ds) (xs @ map half_call ds) = Inr (Some (xs @ ds))"
proof (induction ds arbitrary: xs)
  case (Cons d ds)
  have st: "at_tok_start (Some (cgdcont_line d)) = (0, Some (show_args [(1, IntArg (dc_cid d)), (0, StrArg (dc_type d)), (0, StrArg (dc_ifname d)),
     (0, StrArg (dc_addresses d)), (0, StrArg (dc_dnses d)), (0, StrArg (dc_gateways d))]))"
    unfolding cgdcont_line_def by (rule start_prefix) simp
  have "update_first (\<lambda>e. dc_cid e = dc_cid d) (cgdcont_fields env (Some (show_args [(0, StrArg (dc_type d)), (0, StrArg (dc_ifname d)),
      (0, StrArg (dc_addresses d)), (0, StrArg (dc_dnses d)), (0, StrArg (dc_gateways d))]))) (xs @ half_call d # map half_call ds) =
    Inr (Some (xs @ d # map half_call ds))"
    using Cons.prems by (intro update_first_middle cgdcont_fields_read) (auto simp: half_call_def intro: rev_image_eqI)
  then have "parse_cgdcont env (cgdcont_line d) (xs @ map half_call (d # ds)) = Inr (Some ((xs @ [d]) @ map half_call ds))"
    using Cons.prems(2) by (simp add: parse_cgdcont_def st arg_simps data_call_ok_def is_int_def)
  then show ?case using Cons.IH[of "xs @ [d]"] Cons.prems by (simp add: bindO_def)
qed simp

text \<open>
  C19: outside an emulator the data calls that the modem lists, each in a line with its state and a line with its
  type, interface, addresses, name servers and gateways, are what the library is told.
\<close>

theorem data_calls_reported:
  assumes "linked link env" and "says link (sent_nu st) (map cgact_line ds) f" and "says link (Suc (sent_nu st)) (map cgdcont_line ds) g"
    and "isFinalResponseSuccess f" "isFinalResponseSuccess g" and "\<forall>d\<in>set ds. data_call_ok d" and "distinct (map dc_cid ds)"
    and "\<not> in_emulator env" and "sState st = RADIO_STATE_ON"
  shows "\<exists>st'. onRequest env DATA_CALL_LIST t st = Inr st' \<and>
    ril_outs st' = ril_outs st @ [Sent (AtMulti ''AT+CGACT?'' ''+CGACT:''), Sent (AtMulti ''AT+CGDCONT?'' ''+CGDCONT:''),
      Complete t RIL_E_SUCCESS (DataCalls ds)]"
proof -
  have one: "modem env (sent_nu st) (AtMulti ''AT+CGACT?'' ''+CGACT:'') =
      (0, Some \<lparr>success = 1, finalResponse = Some f, p_intermediates = map cgact_line ds\<rparr>)"
    using says_answer[OF assms(2)] assms(1,4) by (simp add: linked_def ril_simps response_multi cgact_line_def)
  have two: "modem env (Suc (sent_nu st)) (AtMulti ''AT+CGDCONT?'' ''+CGDCONT:'') =
      (0, Some \<lparr>success = 1, finalResponse = Some g, p_intermediates = map cgdcont_line ds\<rparr>)"
    using says_answer[OF assms(3)] assms(1,5) by (simp add: linked_def ril_simps response_multi cgdcont_line_def)
  show ?thesis
    using assms(9) cgacts_parsed[OF assms(6)] cgdcont_loop_completes[of "[]" ds env] assms(6-8)
    by (simp add: request_on requestOrSendDataCallList_def ril_simps one two data_list_ok_def)
qed

definition demo_data_calls :: "RIL_Data_Call list" where
  "demo_data_calls =
     [new_data_call\<lparr>dc_status := 0, dc_cid := 1, dc_active := 1, dc_type := ''IP'', dc_ifname := ''rmnet0'', dc_addresses := ''10.0.0.2/24'',
        dc_dnses := ''10.0.0.1'', dc_gateways := ''10.0.0.1''\<rparr>,
      new_data_call\<lparr>dc_status := 0, dc_cid := 3, dc_active := 0, dc_type := ''IPV6''\<rparr>]"

theorem data_calls_reported_witness:
  "\<exists>st'. onRequest (demo_env (line_link (\<lambda>n. if n = 0 then map cgact_line demo_data_calls @ [''OK''] else map cgdcont_line demo_data_calls @ [''OK''])))
      DATA_CALL_LIST 5 demo_ril = Inr st' \<and>
    ril_outs st' = [Sent (AtMulti ''AT+CGACT?'' ''+CGACT:''), Sent (AtMulti ''AT+CGDCONT?'' ''+CGDCONT:''),
      Complete 5 RIL_E_SUCCESS (DataCalls demo_data_calls)]"
proof -
  let ?link = "line_link (\<lambda>n. if n = 0 then map cgact_line demo_data_calls @ [''OK''] else map cgdcont_line demo_data_calls @ [''OK''])"
  have s0: "says ?link (sent_nu demo_ril) (map cgact_line demo_data_calls) ''OK''"
    by (rule line_link_says) (simp_all add: demo_state final_defs cgact_line_def)
  have s1: "says ?link (Suc (sent_nu demo_ril)) (map cgdcont_line demo_data_calls) ''OK''"
    by (rule line_link_says) (simp_all add: demo_state final_defs cgdcont_line_def)
  have ok: "\<forall>d\<in>set demo_data_calls. data_call_ok d" "distinct (map dc_cid demo_data_calls)"
    by (simp_all add: demo_data_calls_def data_call_ok_def new_data_call_def is_int_def)
  have emu: "\<not> in_emulator (demo_env ?link)" by (simp add: demo_env_def)
  show ?thesis using data_calls_reported[OF demo_linked s0 s1 _ _ ok emu, of 5] by (simp add: demo_state ril_simps)
qed

end
