(* ===== verification/RIL_Steps.thy ===== *)
theory RIL_Steps
  imports RIL_Answers Step_Systems
begin

text \<open>
  The RIL as a step system: requests of the library, its timed callbacks, and the callbacks of the AT channel. A
  closed channel keeps the radio unavailable, and then no request sends a command; what the reader thread calls sends none
  at any time.
\<close>

section \<open>Results without a fault\<close>

definition may :: "('a \<Rightarrow> bool) \<Rightarrow> 'a res \<Rightarrow> bool" where
  "may P m \<longleftrightarrow> (\<forall>x. m = Inr x \<longrightarrow> P x)"

lemma may_simps [ril_simps]:
  "may P (Inr x) \<longleftrightarrow> P x"
  "may P (Inl e)"
  "may P (bindR m f) \<longleftrightarrow> may (\<lambda>x. may P (f x)) m"
  by (cases m; simp add: may_def)+

lemma may_all: "(\<And>x. P x) \<Longrightarrow> may P m"
  by (simp add: may_def)

lemma may_mono: "may P m \<Longrightarrow> (\<And>x. P x \<Longrightarrow> Q x) \<Longrightarrow> may Q m"
  by (simp add: may_def)

section \<open>Steps\<close>

inductive ril_step :: "ril_env \<Rightarrow> ril \<Rightarrow> ril \<Rightarrow> bool" for env where
  request: "onRequest env r t st = Inr st' \<Longrightarrow> ril_step env st st'"
| timed: "timed_callback env cb st = Inr st' \<Longrightarrow> ril_step env st st'"
| unsolicited: "onUnsolicited env s pdu st = Inr st' \<Longrightarrow> ril_step env st st'"
| reader_closed: "onATReaderClosed env st = Inr st' \<Longrightarrow> ril_step env st st'"
| timed_out: "onATTimeout env st = Inr st' \<Longrightarrow> ril_step env st st'"
| opened_again: "ril_step env st (mainLoop_open st)"

definition ril_start :: "ril \<Rightarrow> bool" where
  "ril_start st \<longleftrightarrow> sState st = RADIO_STATE_UNAVAILABLE \<and> \<not> s_closed st"

definition closed_unavailable :: "ril \<Rightarrow> bool" where
  "closed_unavailable st \<longleftrightarrow> (s_closed st \<longrightarrow> sState st = RADIO_STATE_UNAVAILABLE)"

subsection \<open>The flag of a closed channel\<close>

lemma ril_out_fields [ril_simps]:
  "s_closed (ril_out x st) = s_closed st" "sState (ril_out x st) = sState st" "sent_nu (ril_out x st) = sent_nu st"
  "s_closed (RIL_onRequestComplete t e p st) = s_closed st" "sState (RIL_onRequestComplete t e p st) = sState st"
  "s_closed (RIL_onUnsolicitedResponse u p st) = s_closed st" "sState (RIL_onUnsolicitedResponse u p st) = sState st"
  "s_closed (RIL_requestTimedCallback cb st) = s_closed st" "sState (RIL_requestTimedCallback cb st) = sState st"
  "s_closed (done_ok t st) = s_closed st" "s_closed (done_fail t st) = s_closed st"
  "sent_nu (RIL_onRequestComplete t e p st) = sent_nu st" "sent_nu (RIL_onUnsolicitedResponse u p st) = sent_nu st"
  "sent_nu (RIL_requestTimedCallback cb st) = sent_nu st"
  by (simp_all add: ril_out_def RIL_onRequestComplete_def RIL_onUnsolicitedResponse_def RIL_requestTimedCallback_def
      done_ok_def done_fail_def)

lemma send_all_fields [ril_simps]: "s_closed (send_all env cmds st) = s_closed st" "sState (send_all env cmds st) = sState st"
  by (induction cmds arbitrary: st) (simp_all add: send_all_def ril_simps)

definition same_closed :: "ril \<Rightarrow> ril \<Rightarrow> bool" where
  "same_closed st = (\<lambda>st'. s_closed st' = s_closed st)"

lemma getSIMStatus_closed: "may (\<lambda>(s, st'). s_closed st' = s_closed st \<and> sState st' = sState st) (getSIMStatus env st)"
  by (auto simp: getSIMStatus_def ril_simps Let_def intro!: may_all split: option.splits)

lemma pollSIMState_closed: "may (\<lambda>st'. s_closed st' = s_closed st \<and> sState st' = sState st) (pollSIMState env st)"
  by (auto simp: pollSIMState_def onSIMReady_def ril_simps intro!: may_mono[OF getSIMStatus_closed])

lemma setRadioState_closed: "may (\<lambda>st'. s_closed st' = s_closed st \<and> (s_closed st \<longrightarrow> sState st' = RADIO_STATE_UNAVAILABLE)) (setRadioState env s st)"
  by (auto simp: setRadioState_def onRadioPowerOn_def pollSIMState_def ril_simps Let_def)

lemma setRadioTechnology_closed: "may (\<lambda>st'. s_closed st' = s_closed st \<and> sState st' = sState st) (setRadioTechnology n st)"
  by (auto simp: setRadioTechnology_def ril_simps Let_def intro!: may_all)

subsection \<open>The handlers leave the flag alone\<close>

lemma data_list_fields [ril_simps]: "s_closed (data_list_fail t st) = s_closed st" "s_closed (data_list_ok t ds st) = s_closed st"
  "sState (data_list_fail t st) = sState st" "sState (data_list_ok t ds st) = sState st"
  by (simp_all add: data_list_fail_def data_list_ok_def done_fail_def ril_simps split: option.split)

lemma requestOrSendDataCallList_closed: "may (\<lambda>st'. s_closed st' = s_closed st \<and> sState st' = sState st) (requestOrSendDataCallList env t st)"
  by (auto simp: requestOrSendDataCallList_def ril_simps intro!: may_all split: option.splits)

lemma requestSetupDataCall_closed: "may (same_closed st) (requestSetupDataCall env apn pdp t st)"
  by (auto simp: requestSetupDataCall_def setup_qmi_def setup_modem_def same_closed_def ril_simps Let_def
      intro!: may_all may_mono[OF requestOrSendDataCallList_closed])

lemma scan_mccmnc_fields [ril_simps]: "s_closed (scan_mccmnc s st) = s_closed st" "sState (scan_mccmnc s st) = sState st"
  by (simp_all add: scan_mccmnc_def Let_def split: option.split prod.split)

lemma cops_loop_closed: "may (\<lambda>x. s_closed (snd x) = s_closed st) (cops_loop ls i response st)"
  by (induction ls arbitrary: i response st) (auto simp: ril_simps may_def split: option.splits if_splits)

lemma requestOperator_closed: "may (same_closed st) (requestOperator env t st)"
  by (auto simp: requestOperator_def same_closed_def ril_simps intro!: may_all[of _ "all_lines a" for a] may_mono[OF cops_loop_closed]
      split: option.splits prod.splits)

lemma requestRegistrationState_closed: "may (same_closed st) (requestRegistrationState env voice t st)"
  by (auto simp: requestRegistrationState_def parseRegistrationState_def same_closed_def ril_simps Let_def
      intro!: may_all split: option.splits prod.splits)

lemma requestSetPreferredNetworkType_closed: "may (same_closed st) (requestSetPreferredNetworkType env v t st)"
  by (auto simp: requestSetPreferredNetworkType_def query_ctec_def preferred_set_def same_closed_def ril_simps Let_def
      intro!: may_all may_mono[OF setRadioTechnology_closed] split: option.splits prod.splits)

lemma requestRadioPower_closed: "may (same_closed st) (requestRadioPower env onOff t st)"
  by (auto simp: requestRadioPower_def same_closed_def ril_simps intro!: may_all may_mono[OF setRadioState_closed])

lemma requestShutdown_closed: "may (same_closed st) (requestShutdown env t st)"
  by (auto simp: requestShutdown_def same_closed_def ril_simps intro!: may_all may_mono[OF setRadioState_closed])

lemma getSimStatusRequest_closed: "may (same_closed st) (getSimStatusRequest env t st)"
  by (auto simp: getSimStatusRequest_def getCardStatus_def same_closed_def ril_simps intro!: may_mono[OF getSIMStatus_closed])

lemma cdma_closed:
  "may (same_closed st) (requestCdmaDeviceIdentity env t st)" "may (same_closed st) (requestCdmaGetSubscriptionSource env t st)"
  "may (same_closed st) (requestCdmaSetSubscriptionSource env s t st)" "may (same_closed st) (requestCdmaGetRoamingPreference env t st)"
  "may (same_closed st) (send_and_report env cmd t st)" "may (same_closed st) (send_numeric env cmd t st)"
  "may (same_closed st) (requestCdmaSetRoamingPreference env p t st)" "may (same_closed st) (requestExitEmergencyMode env t st)"
  by (auto simp: requestCdmaSetRoamingPreference_def requestExitEmergencyMode_def requestCdmaDeviceIdentity_def requestCdmaGetSubscriptionSource_def requestCdmaSetSubscriptionSource_def
      requestCdmaGetRoamingPreference_def send_and_report_def send_numeric_def same_closed_def ril_simps
      intro!: may_all split: option.splits prod.splits)

lemma fall_through_closed: "(\<And>st. may (same_closed st) (f st)) \<Longrightarrow> may (same_closed st) (cdma_or_fall_through f t st)"
  by (auto simp: cdma_or_fall_through_def same_closed_def ril_simps intro!: may_all)

lemma queries_closed:
  "may (same_closed st) (requestSignalStrength env t st)" "may (same_closed st) (requestQueryNetworkSelectionMode env t st)"
  "may (same_closed st) (requestGetPreferredNetworkType env t st)" "may (same_closed st) (requestGetCurrentCalls env t st)"
  "may (same_closed st) (voiceRadioTech t st)"
  by (auto simp: requestSignalStrength_def requestQueryNetworkSelectionMode_def requestGetPreferredNetworkType_def query_ctec_def
      requestGetCurrentCalls_def voiceRadioTech_def same_closed_def ril_simps Let_def
      intro!: may_all split: option.splits prod.splits)

lemma sms_closed:
  "may (same_closed st) (requestSendSMS env smsc pdu t st)" "may (same_closed st) (requestImsSendSMS env retry tech smsc pdu t st)"
  "may (same_closed st) (requestWriteSmsToSim env pdu status t st)"
  by (auto simp: requestImsSendSMS_def requestSendSMS_def requestCdmaSendSMS_def requestWriteSmsToSim_def same_closed_def ril_simps Let_def
      intro!: may_all)

lemma sim_closed:
  "may (same_closed st) (requestSimOpenChannel env s n t st)" "may (same_closed st) (requestSimTransmitApduChannel env apdu t st)"
  "may (same_closed st) (requestSIM_IO env ns d t st)" "may (same_closed st) (requestEnterSimPin env ss t st)"
  by (auto simp: requestSimOpenChannel_def requestSimTransmitApduChannel_def requestSIM_IO_def requestEnterSimPin_def same_closed_def ril_simps
      intro!: may_all split: option.splits prod.splits)

lemma plain_closed:
  "same_closed st (send_and_done env cmd t st)" "same_closed st (requestDial env address clir t st)"
  "same_closed st (requestHangup env line t st)" "same_closed st (separateConnection env party t st)"
  "same_closed st (requestCdmaSendSMS t st)" "same_closed st (requestSimCloseChannel env sid t st)"
  "same_closed st (requestSMSAcknowledge env ack t st)" "same_closed st (imsRegistrationState env t st)"
  "same_closed st (requestGetCellInfoList env t st)" "same_closed st (requestSetCellInfoListRate rate t st)"
  "same_closed st (requestGetHardwareConfig t st)" "same_closed st (requestCdmaBaseBandVersion t st)"
  "same_closed st (requestCdmaSubscription t st)" "same_closed st (done_ok t st)"
  "same_closed st (RIL_onRequestComplete t e p st)" "same_closed st (at_send_only env q st)"
  by (simp_all add: same_closed_def requestDial_def requestHangup_def send_and_done_def separateConnection_def requestCdmaSendSMS_def
    requestSimCloseChannel_def requestSMSAcknowledge_def imsRegistrationState_def requestGetCellInfoList_def requestSetCellInfoListRate_def
    requestGetHardwareConfig_def requestCdmaBaseBandVersion_def requestCdmaSubscription_def ril_simps split: option.splits)

lemma data_list_closed: "may (same_closed st) (requestOrSendDataCallList env t st)"
  unfolding same_closed_def by (rule may_mono[OF requestOrSendDataCallList_closed]) simp

lemmas handlers_closed = requestSetupDataCall_closed requestOperator_closed requestRegistrationState_closed data_list_closed
  requestSetPreferredNetworkType_closed requestRadioPower_closed requestShutdown_closed getSimStatusRequest_closed cdma_closed
  queries_closed sms_closed sim_closed plain_closed

lemma dispatch_closed: "may (same_closed st) (dispatch env r t st)"
  by (cases r; simp only: dispatch.simps may_simps handlers_closed;
      (rule fall_through_closed, simp only: handlers_closed may_simps)?)

subsection \<open>The invariant\<close>

text \<open>On a closed channel a request does not get to its handler, but for the state of the SIM, which is then not asked for.\<close>

lemma closed_request:
  assumes "s_closed st" and "closed_unavailable st"
  shows "onRequest env r t st = Inr
    (if r = GET_SIM_STATUS
     then RIL_onRequestComplete t RIL_E_SUCCESS
            (Card \<lparr>card_present = True, num_applications = 3,
               applications = [app_status_array ! 18, app_status_array ! 7, app_status_array ! 13] @ replicate 5 (app_status_array ! 0)\<rparr>) st
     else RIL_onRequestComplete t RIL_E_RADIO_NOT_AVAILABLE NoData st)"
proof -
  have u: "sState st = RADIO_STATE_UNAVAILABLE" using assms by (simp add: closed_unavailable_def)
  show ?thesis
  proof (cases "r = GET_SIM_STATUS")
    case True
    have "getSIMStatus env st = Inr (SIM_NOT_READY, st)" using u by (simp add: getSIMStatus_def)
    then show ?thesis using True u by (simp add: onRequest_def getSimStatusRequest_def getCardStatus_def)
  qed (simp add: onRequest_def u)
qed

lemma request_keeps: "onRequest env r t st = Inr st' \<Longrightarrow> closed_unavailable st \<Longrightarrow> closed_unavailable st'"
proof (cases "s_closed st")
  case True
  assume "onRequest env r t st = Inr st'" and inv: "closed_unavailable st"
  then have "sState st' = sState st" using closed_request[OF True inv, of env r t] by (auto simp: ril_simps)
  then show ?thesis using True inv by (simp add: closed_unavailable_def)
next
  case False
  assume "onRequest env r t st = Inr st'"
  then have "s_closed st' = s_closed st"
    using dispatch_closed[of st env r t] by (auto simp: onRequest_def may_def same_closed_def ril_simps split: if_splits)
  then show ?thesis using False by (simp add: closed_unavailable_def)
qed

lemma is_multimode_closed: "may (\<lambda>(r, st'). s_closed st' = s_closed st \<and> sState st' = sState st) (is_multimode_modem env st)"
  by (auto simp: is_multimode_modem_def query_ctec_def query_supported_techs_def ril_simps intro!: may_all split: prod.splits)

lemma probeForModemMode_closed: "may (\<lambda>st'. s_closed st' = s_closed st \<and> sState st' = sState st) (probeForModemMode env st)"
  by (auto simp: probeForModemMode_def ril_simps Let_def intro!: may_mono[OF is_multimode_closed] may_all[of _ "answer_bad a" for a])

lemma initializeCallback_keeps: "may closed_unavailable (initializeCallback env st)"
proof -
  have set: "may closed_unavailable (setRadioState env s st)" for s st
    by (rule may_mono[OF setRadioState_closed]) (simp add: closed_unavailable_def)
  show ?thesis
    unfolding initializeCallback_def
    by (auto simp: ril_simps Let_def set isRadioOn_def intro!: may_all)
qed

lemma timed_keeps: "timed_callback env cb st = Inr st' \<Longrightarrow> closed_unavailable st \<Longrightarrow> closed_unavailable st'"
  using requestOrSendDataCallList_closed[of st env None] pollSIMState_closed[of st env] initializeCallback_keeps[of env st]
  by (cases cb) (auto simp: may_def closed_unavailable_def ril_simps)

definition unsol_keeps :: "ril \<Rightarrow> ril \<Rightarrow> bool" where
  "unsol_keeps st = (\<lambda>st'. s_closed st' = s_closed st \<and> (s_closed st \<longrightarrow> sState st' = sState st \<or> sState st' = RADIO_STATE_UNAVAILABLE))"

lemma unsol_parts:
  "may (unsol_keeps st) (unsol_pdu u pdu st)" "may (unsol_keeps st) (unsol_ctec s st)"
  "may (unsol_keeps st) (setRadioState env rs st)" "unsol_keeps st (unsol_emergency s st)"
proof -
  show pdu: "may (unsol_keeps st) (unsol_pdu u pdu st)"
    by (simp add: unsol_pdu_def unsol_keeps_def ril_simps split: option.split)
  have tech: "may (unsol_keeps st) (setRadioTechnology n st)" for n
    by (rule may_mono[OF setRadioTechnology_closed]) (simp add: unsol_keeps_def)
  show "may (unsol_keeps st) (unsol_ctec s st)"
    by (auto simp: unsol_ctec_def ril_simps tech intro!: may_all split: prod.split) (simp_all add: unsol_keeps_def)
  show "may (unsol_keeps st) (setRadioState env rs st)"
    by (rule may_mono[OF setRadioState_closed]) (simp add: unsol_keeps_def)
  show "unsol_keeps st (unsol_emergency s st)"
    by (simp add: unsol_emergency_def unsol_keeps_def ril_simps split: prod.split)
qed

lemma unsol_nitz_keeps: "may (unsol_keeps st) (unsol_nitz s st)"
  by (auto simp: unsol_nitz_def ril_simps unsol_parts split: prod.split) (simp add: unsol_keeps_def)

lemma unsol_number_keeps: "(\<And>v st. unsol_keeps st (f v st)) \<Longrightarrow> unsol_keeps st (unsol_number s f st)"
  by (simp add: unsol_number_def unsol_keeps_def split: prod.split)

lemma unsol_plain:
  "unsol_keeps st st" "unsol_keeps st (RIL_onUnsolicitedResponse u p st)" "unsol_keeps st (RIL_requestTimedCallback cb st)"
  "unsol_keeps st (RIL_onUnsolicitedResponse u p (st\<lparr>subscription_source := v\<rparr>))"
  by (simp_all add: unsol_keeps_def ril_simps)

lemma unsolicited_closed: "may (unsol_keeps st) (onUnsolicited env s pdu st)"
  unfolding onUnsolicited_def by (simp add: unsol_parts unsol_nitz_keeps unsol_number_keeps unsol_plain may_simps)

lemma reset_keeps: "setRadioState env RADIO_STATE_UNAVAILABLE st = Inr st' \<Longrightarrow> closed_unavailable st'"
  using setRadioState_closed[of st env RADIO_STATE_UNAVAILABLE] by (auto simp: may_def closed_unavailable_def)

lemma step_keeps: "ril_step env st st' \<Longrightarrow> closed_unavailable st \<Longrightarrow> closed_unavailable st'"
proof (induction rule: ril_step.induct)
  case (request r t st st')
  then show ?case by (rule request_keeps)
next
  case (timed cb st st')
  then show ?case by (rule timed_keeps)
next
  case (unsolicited s pdu st st')
  then show ?case using unsolicited_closed[of st env s pdu] by (auto simp: may_def closed_unavailable_def unsol_keeps_def)
next
  case (reader_closed st st')
  then show ?case unfolding onATReaderClosed_def by (blast intro: reset_keeps)
next
  case (timed_out st st')
  then show ?case unfolding onATTimeout_def by (blast intro: reset_keeps)
qed (simp add: mainLoop_open_def closed_unavailable_def ril_simps)

interpretation radio: step_invariant ril_start "ril_step env" closed_unavailable for env
  by unfold_locales (auto simp: ril_start_def closed_unavailable_def dest: step_keeps)

text \<open>
  C15: from the moment the channel is closed until it is open again, no request sends a command: whatever has happened
  before, each is completed at once, with the error that the radio is not available unless it asks for the
  state of the SIM.
\<close>

theorem closed_sends_nothing:
  assumes "reach ril_start (ril_step env) st" and "s_closed st"
  shows "\<exists>st' e p. onRequest env r t st = Inr st' \<and> ril_outs st' = ril_outs st @ [Complete t e p] \<and>
    (r \<noteq> GET_SIM_STATUS \<longrightarrow> e = RIL_E_RADIO_NOT_AVAILABLE)"
  using closed_request[OF assms(2) radio.reach_inv[OF assms(1)], of env r t]
  by (auto simp: RIL_onRequestComplete_def ril_out_def)

text \<open>The radio comes up, a request is made, and the reader thread ends.\<close>

lemma demo_closed: "\<exists>st. reach ril_start (ril_step (demo_env ok_link)) st \<and> s_closed st"
proof -
  let ?st0 = "demo_ril\<lparr>sState := RADIO_STATE_UNAVAILABLE\<rparr>"
  have "reach ril_start (ril_step (demo_env ok_link)) ?st0" by (intro reach.start) (simp add: ril_start_def demo_ril_def)
  moreover have "\<exists>st. onATReaderClosed (demo_env ok_link) ?st0 = Inr st \<and> s_closed st"
    by (simp add: onATReaderClosed_def setRadioState_def onRadioPowerOn_def Let_def ril_out_def demo_ril_def)
  ultimately show ?thesis by (meson reach.step ril_step.reader_closed)
qed

theorem closed_sends_nothing_witness:
  "\<exists>st st' e p. s_closed st \<and> onRequest (demo_env ok_link) (DIAL ''112'' 0) 4 st = Inr st' \<and>
    ril_outs st' = ril_outs st @ [Complete 4 e p] \<and> e = RIL_E_RADIO_NOT_AVAILABLE"
  using demo_closed closed_sends_nothing[of "demo_env ok_link" _ "DIAL ''112'' 0" 4] by fast

section \<open>The reader thread\<close>

definition quiet :: "ril \<Rightarrow> ril \<Rightarrow> bool" where
  "quiet st = (\<lambda>st'. \<exists>xs. ril_outs st' = ril_outs st @ xs \<and> (\<forall>q. Sent q \<notin> set xs) \<and> completed xs = [])"

lemma quiet_refl [ril_simps]: "quiet st st"
  by (simp add: quiet_def)

lemma quiet_trans: "quiet st st' \<Longrightarrow> quiet st' st'' \<Longrightarrow> quiet st st''"
proof -
  assume "quiet st st'" "quiet st' st''"
  then obtain xs ys where "ril_outs st' = ril_outs st @ xs" "ril_outs st'' = ril_outs st' @ ys" "\<forall>q. Sent q \<notin> set (xs @ ys)"
    "completed (xs @ ys) = []"
    unfolding quiet_def by (auto simp: ril_simps)
  then show ?thesis unfolding quiet_def by (intro exI[of _ "xs @ ys"]) simp
qed

lemma quiet_update [ril_simps]: "ril_outs st' = ril_outs st \<Longrightarrow> quiet st st'"
  by (simp add: quiet_def)

lemma quiet_out: "ril_outs st = ril_outs st0 \<Longrightarrow> quiet st0 (RIL_onUnsolicitedResponse u p st)"
  "ril_outs st = ril_outs st0 \<Longrightarrow> quiet st0 (RIL_requestTimedCallback cb st)" "ril_outs st = ril_outs st0 \<Longrightarrow> quiet st0 (ril_out AtClose st)"
  by (simp_all add: quiet_def RIL_onUnsolicitedResponse_def RIL_requestTimedCallback_def ril_out_def)

lemma quiet_radio: "s \<noteq> RADIO_STATE_ON \<Longrightarrow> may (quiet st) (setRadioState env s st)"
  using quiet_trans[OF quiet_out(1)[OF refl] quiet_out(1)[OF refl]]
  by (auto simp: setRadioState_def ril_simps Let_def quiet_def RIL_onUnsolicitedResponse_def ril_out_def)

lemma quiet_technology: "may (quiet st) (setRadioTechnology n st)"
  by (auto simp: setRadioTechnology_def ril_simps Let_def quiet_out intro!: may_all)

lemma quiet_parts:
  "may (quiet st) (unsol_pdu u pdu st)" "may (quiet st) (unsol_nitz s st)" "may (quiet st) (unsol_ctec s st)"
  "quiet st (unsol_emergency s st)"
proof -
  show pdu: "may (quiet st) (unsol_pdu u pdu st)" for u pdu
    by (simp add: unsol_pdu_def ril_simps quiet_out split: option.split)
  show "may (quiet st) (unsol_nitz s st)"
    by (simp add: unsol_nitz_def ril_simps pdu split: prod.split)
  show "may (quiet st) (unsol_ctec s st)"
    by (auto simp: unsol_ctec_def ril_simps quiet_technology intro!: may_all split: prod.split)
  show "quiet st (unsol_emergency s st)"
    by (simp add: unsol_emergency_def ril_simps quiet_out split: prod.split)
qed

lemma quiet_number: "(\<And>v st. quiet st (f v st)) \<Longrightarrow> quiet st (unsol_number s f st)"
  by (simp add: unsol_number_def ril_simps split: prod.split)

lemma quiet_unsolicited: "may (quiet st) (onUnsolicited env s pdu st)"
  unfolding onUnsolicited_def by (simp add: quiet_parts quiet_number quiet_radio quiet_out may_simps quiet_refl)

text \<open>
  What the reader thread calls, the handler of unsolicited lines and that of the end of the stream, sends no command
  and completes no request; a command there could never be answered, for the thread that waits is the one
  that reads.
\<close>

theorem reader_callbacks_quiet:
  assumes "onUnsolicited env s pdu st = Inr st' \<or> onATReaderClosed env st = Inr st'"
  shows "\<exists>xs. ril_outs st' = ril_outs st @ xs \<and> (\<forall>q. Sent q \<notin> set xs) \<and> completed xs = []"
proof -
  have base: "quiet st ((ril_out AtClose st)\<lparr>s_closed := True\<rparr>)" by (simp add: quiet_def ril_out_def)
  have "may (quiet st) (onATReaderClosed env st)"
    unfolding onATReaderClosed_def by (rule may_mono[OF quiet_radio]) (auto intro: quiet_trans[OF base])
  then show ?thesis using assms quiet_unsolicited[of st env s pdu] by (auto simp: may_def quiet_def)
qed

theorem reader_callbacks_quiet_witness:
  "\<exists>st' xs. onUnsolicited (demo_env ok_link) ''+CFUN: 0'' None demo_ril = Inr st' \<and> ril_outs st' = xs \<and>
    (\<forall>q. Sent q \<notin> set xs) \<and> completed xs = []"
proof -
  have "\<exists>st'. onUnsolicited (demo_env ok_link) ''+CFUN: 0'' None demo_ril = Inr st'"
    by (simp add: onUnsolicited_def demo_ril_def starts_any_def setRadioState_def onRadioPowerOn_def pollSIMState_def Let_def
        RIL_onUnsolicitedResponse_def ril_out_def)
  then show ?thesis using reader_callbacks_quiet[of "demo_env ok_link" "''+CFUN: 0''" None demo_ril] by (fastforce simp: demo_ril_def)
qed

text \<open>The line of a message comes with its second line, and no other does.\<close>

definition message_has_pdu :: "string \<Rightarrow> string option \<Rightarrow> bool" where
  "message_has_pdu s pdu \<longleftrightarrow> (isSMSUnsolicited s \<longrightarrow> pdu \<noteq> None)"

lemma loop_event_ok: "readerLoop_step rd rs = Inr (GotLine l, rd', rs') \<Longrightarrow> \<not> isSMSUnsolicited l"
  by (auto simp: readerLoop_step_def res_simps split: option.splits if_splits)

lemma process_unsolicited:
  assumes "processLine l ch = Inr ch'" and "Unsolicited s pdu \<in> set (drop (length (at_outs ch)) (at_outs ch'))"
  shows "s = l"
proof -
  have w: "\<exists>xs. at_outs (snd (writeCtrlZ p ch)) = at_outs ch @ xs \<and> (\<forall>s pdu. Unsolicited s pdu \<notin> set xs)" for p
    by (auto simp: writeCtrlZ_def write_with_end_def at_out_def split: prod.split)
  show ?thesis
    using assms w[of "the (s_smsPDU ch)"]
    by (auto simp: processLine_def handleUnsolicited_def at_out_def set_response_def add_or_unsolicited_def res_simps
        split: option.splits if_splits ATCommandType.splits)
qed

lemma act_message_has_pdu:
  assumes "readerLoop_step rd rs = Inr (ev, rd', rs')" and "reader_act ev ch = Inr ch'"
    and "Unsolicited s pdu \<in> set (drop (length (at_outs ch)) (at_outs ch'))"
  shows "message_has_pdu s pdu"
proof (cases ev)
  case (GotLine l)
  then show ?thesis
    using loop_event_ok assms process_unsolicited[of l ch ch' s pdu] by (auto simp: message_has_pdu_def reader_act_def)
next
  case (GotSms l l2)
  then show ?thesis using assms by (auto simp: reader_act_def at_out_def message_has_pdu_def split: if_splits)
next
  case ReaderEnds
  then show ?thesis using assms by (auto simp: reader_act_def onReaderClosed_def at_out_def split: if_splits)
qed

lemma unsol_total:
  "\<exists>st'. unsol_nitz s st = Inr st'" "pdu \<noteq> None \<Longrightarrow> \<exists>st'. unsol_pdu u pdu st = Inr st'"
  "rs \<noteq> RADIO_STATE_ON \<Longrightarrow> \<exists>st'. setRadioState env rs st = Inr st'"
proof -
  show pdu: "pdu \<noteq> None \<Longrightarrow> \<exists>st'. unsol_pdu u pdu st = Inr st'" for u pdu by (auto simp: unsol_pdu_def)
  show "\<exists>st'. unsol_nitz s st = Inr st'"
    using pdu nextstr_some by (fastforce simp: unsol_nitz_def split: prod.split)
  show "rs \<noteq> RADIO_STATE_ON \<Longrightarrow> \<exists>st'. setRadioState env rs st = Inr st'"
    by (auto simp: setRadioState_def Let_def ril_simps)
qed

lemma unsol_ctec_faults: "unsol_ctec s st = Inl e \<Longrightarrow> e = BadShift"
  by (auto simp: unsol_ctec_def setRadioTechnology_def techFromModemType_def bit_of_def Let_def split: prod.splits if_splits)

text \<open>
  C16: from the reader thread to the RIL, no line of the modem makes the handler of unsolicited lines follow a null pointer:
  the lines of messages come with their second line. The only fault left is the shift by a technology
  number that the modem is free to choose.
\<close>

theorem unsolicited_safe:
  assumes "readerLoop_step rd rs = Inr (ev, rd', rs')" and "reader_act ev ch = Inr ch'"
    and "Unsolicited s pdu \<in> set (drop (length (at_outs ch)) (at_outs ch'))"
  shows "(\<exists>st'. onUnsolicited env s pdu st = Inr st') \<or> (onUnsolicited env s pdu st = Inl BadShift \<and> prefix ''+CTEC: '' s)"
proof -
  have pdu: "pdu \<noteq> None" if "strStartsWith s ''+CMT:'' \<or> strStartsWith s ''+CDS:''"
    using act_message_has_pdu[OF assms] that by (auto simp: message_has_pdu_def isSMSUnsolicited_def s_smsUnsoliciteds_def)
  have ctec: "(\<exists>st'. unsol_ctec s st = Inr st') \<or> unsol_ctec s st = Inl BadShift" for st
    using unsol_ctec_faults by (cases "unsol_ctec s st") auto
  show ?thesis
    using pdu ctec unsol_total by (simp add: onUnsolicited_def strStartsWith_prefix)
qed

theorem unsolicited_safe_witness:
  "\<exists>rd' rs' ch'. readerLoop_step reader_start [Bytes (CHR 0x0A # ''+CMT: 24'' @ CHR 0x0D # ''0791'' @ [CHR 0x0A])] =
      Inr (GotSms ''+CMT: 24'' ''0791'', rd', rs') \<and>
    reader_act (GotSms ''+CMT: 24'' ''0791'') demo_channel = Inr ch' \<and>
    Unsolicited ''+CMT: 24'' (Some ''0791'') \<in> set (at_outs ch') \<and>
    (\<exists>st'. onUnsolicited (demo_env ok_link) ''+CMT: 24'' (Some ''0791'') demo_ril = Inr st')"
proof -
  let ?rs = "[Bytes (CHR 0x0A # ''+CMT: 24'' @ CHR 0x0D # ''0791'' @ [CHR 0x0A])]"
  let ?ls = "[([CHR 0x0A], ''+CMT: 24'', CHR 0x0D), ([], ''0791'', CHR 0x0A)] :: sent_line list"
  have c: "clean ?rs" by (simp add: line_simps)
  have t: "[] @ stream ?rs = sent_text ?ls @ []" by (simp add: line_simps)
  have ok: "\<forall>l\<in>set ?ls. sent_ok l" by (simp add: sent_ok_def line_ok_def newlines_def plain_def is_newline_def)
  from readline_sent[OF holds_start c t] ok obtain rd1 rs1 p1 where one: "readline reader_start ?rs = Inr (Some ''+CMT: 24'', rd1, rs1)"
    "holds rd1 p1" "clean rs1" "p1 @ stream rs1 = sent_text [([], ''0791'', CHR 0x0A)] @ []"
    by auto
  from readline_sent[OF one(2-4)] ok obtain rd2 rs2 p2 where two: "readline rd1 rs1 = Inr (Some ''0791'', rd2, rs2)" by auto
  have step: "readerLoop_step reader_start ?rs = Inr (GotSms ''+CMT: 24'' ''0791'', rd2, rs2)"
    using one(1) two by (simp add: readerLoop_step_def isSMSUnsolicited_def s_smsUnsoliciteds_def)
  have act: "reader_act (GotSms ''+CMT: 24'' ''0791'') demo_channel =
      Inr (demo_channel\<lparr>at_outs := [Unsolicited ''+CMT: 24'' (Some ''0791'')]\<rparr>)"
    by (simp add: reader_act_def demo_channel_def at_out_def)
  have safe: "\<exists>st'. onUnsolicited (demo_env ok_link) ''+CMT: 24'' (Some ''0791'') demo_ril = Inr st'"
    using unsolicited_safe[OF step act, of "''+CMT: 24''" "Some ''0791''" "demo_env ok_link" demo_ril] by (simp add: demo_channel_def)
  show ?thesis using step act safe by auto
qed

end
