(* ===== verification/RATD_Netlink.thy ===== *)
theory RATD_Netlink
  imports C_Strings RATD_Queue
begin

text \<open>
  The state of the links (\<^verbatim>\<open>mpcd.c\<close>): messages of the kernel's netlink socket are taken apart and kept in the three
  flags \<^verbatim>\<open>g_netStatus\<close>, which decide whether a send queue takes an element (\<^verbatim>\<open>queue.c\<close>). The buffer is
  the array of 4096 bytes on the stack, with whatever is left in it behind the received bytes; the
  layout of the messages and the macros that walk them are those of \<^verbatim>\<open>linux/netlink.h\<close> and
  \<^verbatim>\<open>linux/rtnetlink.h\<close>, in little-endian order.
\<close>

named_theorems netlink_simps

section \<open>Numbers and strings in the buffer\<close>

type_synonym bytes = "U8 list"

abbreviation NL_BUFFER :: nat where "NL_BUFFER \<equiv> 4096"

definition le16 :: "bytes \<Rightarrow> nat \<Rightarrow> nat" where
  "le16 b i = unat (b ! i) + 256 * unat (b ! (i + 1))"

definition le32 :: "bytes \<Rightarrow> nat \<Rightarrow> nat" where
  "le32 b i = le16 b i + 65536 * le16 b (i + 2)"

definition le16_bytes :: "nat \<Rightarrow> bytes" where
  "le16_bytes n = [word_of_nat n, word_of_nat (n div 256)]"

definition le32_bytes :: "nat \<Rightarrow> bytes" where
  "le32_bytes n = le16_bytes n @ le16_bytes (n div 65536)"

text \<open>Reading a range needs it inside the buffer.\<close>

definition inside :: "bytes \<Rightarrow> nat \<Rightarrow> nat \<Rightarrow> bool" where
  "inside b i n \<longleftrightarrow> i + n \<le> length b"

text \<open>The string that starts at an offset; without a NUL behind it the reading leaves the buffer.\<close>

definition string_at :: "bytes \<Rightarrow> nat \<Rightarrow> string res" where
  "string_at b i =
     (if 0 \<in> set (drop i b) then Inr (map (\<lambda>x. char_of (unat x)) (takeWhile (\<lambda>x. x \<noteq> 0) (drop i b))) else Inl OutOfBounds)"

definition align4 :: "nat \<Rightarrow> nat" where
  "align4 n = (n + 3) div 4 * 4"

section \<open>The flags of the links\<close>

definition to_lower :: "char \<Rightarrow> char" where
  "to_lower c = (if 65 \<le> code c \<and> code c \<le> 90 then char_of (code c + 32) else c)"

text \<open>\<^verbatim>\<open>!strcasecmp (s, t)\<close>\<close>

definition same_name :: "string \<Rightarrow> string \<Rightarrow> bool" where
  "same_name s t \<longleftrightarrow> map to_lower s = map to_lower t"

abbreviation NAME_WIFI :: string where "NAME_WIFI \<equiv> ''wlan0''"
abbreviation NAME_MCWILL :: string where "NAME_MCWILL \<equiv> ''mcwill''"
abbreviation NAME_4G :: string where "NAME_4G \<equiv> ''rmnet_data0''"

text \<open>The number of the network of an interface, and half of it as index: 1, 2 and 4 give 0, 1 and 2.\<close>

definition net_type_of :: "string \<Rightarrow> nat" where
  "net_type_of s = (if same_name s NAME_WIFI then 4 else if same_name s NAME_MCWILL then 1
     else if same_name s NAME_4G then 2 else 0)"

definition IFF_UP :: nat where "IFF_UP = 1"
definition IFF_LOOPBACK :: nat where "IFF_LOOPBACK = 8"
definition IFF_RUNNING :: nat where "IFF_RUNNING = 64"
definition IFF_LOWER_UP :: nat where "IFF_LOWER_UP = 65536"

definition flag :: "nat \<Rightarrow> nat \<Rightarrow> bool" where
  "flag flags f \<longleftrightarrow> flags AND f \<noteq> 0"

definition isUp :: "nat \<Rightarrow> bool" where
  "isUp flags \<longleftrightarrow> flag flags IFF_RUNNING \<and> flag flags IFF_UP \<and> flag flags IFF_LOWER_UP"

definition isDown :: "nat \<Rightarrow> bool" where
  "isDown flags \<longleftrightarrow> \<not> flag flags IFF_RUNNING \<and> \<not> flag flags IFF_UP"

text \<open>
  What the name attribute of a link message does. The test is the code's: the conjunction with the state binds
  stronger than the disjunctions of the names, so that it is asked for the WiFi interface only.
\<close>

definition link_named :: "nat \<Rightarrow> string \<Rightarrow> bool list \<Rightarrow> bool list" where
  "link_named flags ifname st =
     (if (isUp flags \<or> isDown flags) \<and> same_name ifname NAME_WIFI \<or> same_name ifname NAME_MCWILL
         \<or> same_name ifname ''tun0'' \<or> same_name ifname NAME_4G
      then let netType = net_type_of ifname
           in if netType \<noteq> 0 \<and> st ! (netType div 2) \<noteq> isUp flags then st[netType div 2 := isUp flags] else st
      else st)"

section \<open>Link messages\<close>

text \<open>The attributes from offset \<open>r\<close> on, \<open>l\<close> bytes of them.\<close>

function link_attrs :: "bytes \<Rightarrow> nat \<Rightarrow> nat \<Rightarrow> int \<Rightarrow> bool list \<Rightarrow> bool list res" where
  "link_attrs b flags r l st =
     (if \<not> 4 \<le> l then Inr st
      else if \<not> inside b r 4 then Inl OutOfBounds
      else let n = le16 b r
           in if \<not> (4 \<le> n \<and> int n \<le> l) then Inr st
              else if le16 b (r + 2) = 3
              then (case string_at b (r + 4) of
                      Inl e \<Rightarrow> Inl e
                    | Inr s \<Rightarrow> link_attrs b flags (r + align4 n) (l - int (align4 n)) (link_named flags (take 15 s) st))
              else link_attrs b flags (r + align4 n) (l - int (align4 n)) st)"
  by auto
termination
  by (relation "measure (\<lambda>(b, flags, r, l, st). nat l)") (auto simp: align4_def)

definition parseBinaryNetlinkMessage :: "bytes \<Rightarrow> nat \<Rightarrow> bool list \<Rightarrow> bool list res" where
  "parseBinaryNetlinkMessage b p st =
     (let len = int (le32 b p) - 16
      in if len < 16 then Inr st
         else if \<not> inside b (p + 16) 16 then Inl OutOfBounds
         else let flags = le32 b (p + 24)
              in if flag flags IFF_LOOPBACK then Inr st
                 else link_attrs b flags (p + 32) (int (le32 b p) - 32) st)"

section \<open>Address messages\<close>

text \<open>
  \<open>name_of\<close> is what the array of the name holds after \<^verbatim>\<open>if_indextoname\<close>: when that fails, which the code does
  not ask, it is whatever the array held before.
\<close>

definition addr_named :: "bool \<Rightarrow> string \<Rightarrow> bool list \<Rightarrow> bool list" where
  "addr_named newStatus name st =
     (let netType = net_type_of name in if netType \<noteq> 0 then st[netType div 2 := newStatus] else st)"

function addr_attrs :: "(nat \<Rightarrow> string) \<Rightarrow> bytes \<Rightarrow> bool \<Rightarrow> nat \<Rightarrow> nat \<Rightarrow> int \<Rightarrow> bool list \<Rightarrow> bool list res" where
  "addr_attrs name_of b newStatus p r l st =
     (if \<not> 4 \<le> l then Inr st
      else if \<not> inside b r 4 then Inl OutOfBounds
      else let n = le16 b r
           in if \<not> (4 \<le> n \<and> int n \<le> l) then Inr st
              else if le16 b (r + 2) = 2
              then (if inside b (r + 4) 4
                    then addr_attrs name_of b newStatus p (r + align4 n) (l - int (align4 n))
                           (addr_named newStatus (name_of (le32 b (p + 20))) st)
                    else Inl OutOfBounds)
              else addr_attrs name_of b newStatus p (r + align4 n) (l - int (align4 n)) st)"
  by auto
termination
  by (relation "measure (\<lambda>(name_of, b, newStatus, p, r, l, st). nat l)") (auto simp: align4_def)

definition parseNetlinkAddrMsg :: "(nat \<Rightarrow> string) \<Rightarrow> bytes \<Rightarrow> bool \<Rightarrow> nat \<Rightarrow> bool list \<Rightarrow> bool list res" where
  "parseNetlinkAddrMsg name_of b newStatus p st = addr_attrs name_of b newStatus p (p + 24) (int (le32 b p) - 24) st"

section \<open>The socket\<close>

text \<open>One message by its type.\<close>

definition netlink_message :: "(nat \<Rightarrow> string) \<Rightarrow> bytes \<Rightarrow> nat \<Rightarrow> bool list \<Rightarrow> bool list res" where
  "netlink_message name_of b p st =
     (let ty = le16 b (p + 4)
      in if ty = 20 then parseNetlinkAddrMsg name_of b True p st
         else if ty = 21 then parseNetlinkAddrMsg name_of b False p st
         else if ty = 16 then parseBinaryNetlinkMessage b p st
         else Inr st)"

function netlink_loop :: "(nat \<Rightarrow> string) \<Rightarrow> bytes \<Rightarrow> nat \<Rightarrow> int \<Rightarrow> bool list \<Rightarrow> bool list res" where
  "netlink_loop name_of b p l st =
     (if \<not> 16 \<le> l then Inr st
      else if \<not> inside b p 16 then Inl OutOfBounds
      else let n = le32 b p
           in if \<not> (16 \<le> n \<and> int n \<le> l) \<or> le16 b (p + 4) = 3 then Inr st
              else (case netlink_message name_of b p st of
                      Inl e \<Rightarrow> Inl e
                    | Inr st \<Rightarrow> netlink_loop name_of b (p + align4 n) (l - int (align4 n)) st))"
  by auto
termination
  by (relation "measure (\<lambda>(name_of, b, p, l, st). nat l)") (auto simp: align4_def)

declare link_attrs.simps [simp del] addr_attrs.simps [simp del] netlink_loop.simps [simp del]

definition netLinkChangedCallback :: "(nat \<Rightarrow> string) \<Rightarrow> bytes \<Rightarrow> int \<Rightarrow> bool list \<Rightarrow> bool list res" where
  "netLinkChangedCallback name_of b len st = (if 0 < len then netlink_loop name_of b 0 len st else Inr st)"

section \<open>The send queues and the driver\<close>

text \<open>
  \<^verbatim>\<open>mp_data.c\<close>: the queue of a network takes a packet of the driver as long as its link is up, and the calls that
  pass between the daemon and the driver.
\<close>

definition MPC_OnSendMpDataComplete :: "bool list \<Rightarrow> nat \<Rightarrow> qbuf \<Rightarrow> int \<Rightarrow> bool \<Rightarrow> QUEUE list \<times> qbuf set \<Rightarrow> (int \<times> QUEUE list \<times> qbuf set) res" where
  "MPC_OnSendMpDataComplete st netType buffer n rel = (\<lambda>(Qs, live).
     let fd = netType div 2
     in if length st \<le> fd \<or> length Qs \<le> fd then Inl OutOfBounds
        else bindR (MPC_putMsgToSendQueue (st ! fd) (int fd) buffer n rel (Qs ! fd, live))
               (\<lambda>(r, Q, live). Inr (r, Qs[fd := Q], live)))"

end
