(* ===== verification/RATD_Links.thy ===== *)
theory RATD_Links
  imports RATD_Netlink
begin

text \<open>
  The messages of the kernel as it writes them, and what the daemon makes of them: the flags of the links after any
  sequence of messages, the reads that stay inside the buffer, and the send queue that a link which went
  down closes.
\<close>

section \<open>Reading behind a prefix\<close>

lemma le16_bytes_length [simp]: "length (le16_bytes n) = 2"
  by (simp add: le16_bytes_def)

lemma le32_bytes_length [simp]: "length (le32_bytes n) = 4"
  by (simp add: le32_bytes_def)

lemma le16_at: "i = length pre \<Longrightarrow> n < 65536 \<Longrightarrow> le16 (pre @ le16_bytes n @ rest) i = n"
  by (simp add: le16_def le16_bytes_def nth_append unat_of_nat)

lemma le32_at: "i = length pre \<Longrightarrow> n < 65536 * 65536 \<Longrightarrow> le32 (pre @ le32_bytes n @ rest) i = n"
proof -
  assume i: "i = length pre" and n: "n < 65536 * 65536"
  have mod: "le16_bytes n = le16_bytes (n mod 65536)"
  proof -
    have m: "n mod 65536 = 256 * (n div 256 mod 256) + n mod 256" using mod_mult2_eq[of n 256 256] by simp
    then have "n mod 65536 mod 256 = n mod 256" "n mod 65536 div 256 mod 256 = n div 256 mod 256" by simp_all
    then show ?thesis by (simp add: le16_bytes_def word_of_nat_eq_iff take_bit_eq_mod)
  qed
  have "le16 (pre @ le16_bytes (n mod 65536) @ le16_bytes (n div 65536) @ rest) i = n mod 65536"
    by (rule le16_at[OF i]) simp
  moreover have "le16 ((pre @ le16_bytes (n mod 65536)) @ le16_bytes (n div 65536) @ rest) (i + 2) = n div 65536"
    by (rule le16_at) (use i n in \<open>auto simp: less_mult_imp_div_less\<close>)
  ultimately show ?thesis by (simp add: le32_def le32_bytes_def mod)
qed

lemma align4_ge: "n \<le> align4 n"
  by (simp add: align4_def)

lemma align4_less: "align4 n < n + 4"
  by (simp add: align4_def)

lemma string_at_text:
  "i = length pre \<Longrightarrow> 0 \<in> set d \<Longrightarrow> string_at (pre @ d @ rest) i = Inr (map (\<lambda>x. char_of (unat x)) (takeWhile (\<lambda>x. x \<noteq> 0) d))"
  by (simp add: string_at_def takeWhile_append1)

section \<open>Messages of the kernel\<close>

text \<open>An attribute is its type and its data, padded to a multiple of four bytes.\<close>

type_synonym attr = "nat \<times> bytes"

definition padded :: "bytes \<Rightarrow> bytes" where
  "padded d = d @ replicate (align4 (length d) - length d) 0"

definition show_attr :: "attr \<Rightarrow> bytes" where
  "show_attr a = padded (le16_bytes (4 + length (snd a)) @ le16_bytes (fst a) @ snd a)"

definition attr_ok :: "attr \<Rightarrow> bool" where
  "attr_ok a \<longleftrightarrow> fst a < 65536 \<and> 4 + length (snd a) < 65536 \<and> (fst a = 3 \<longrightarrow> 0 \<in> set (snd a))"

text \<open>A link message with the bytes that the daemon does not look at, or a message that is not about links or addresses.\<close>

datatype kernel_msg =
    Link (lk_misc: bytes) (lk_index: bytes) (lk_flags: nat) (lk_change: bytes) (lk_attrs: "attr list")
  | Other (ot_type: nat) (ot_misc: bytes) (ot_body: bytes)

fun msg_body :: "kernel_msg \<Rightarrow> bytes" where
  "msg_body (Link misc idx flags change as) = idx @ le32_bytes flags @ change @ concat (map show_attr as)"
| "msg_body (Other ty misc body) = body"

fun msg_head :: "kernel_msg \<Rightarrow> nat \<times> bytes" where
  "msg_head (Link misc idx flags change as) = (16, misc)"
| "msg_head (Other ty misc body) = (ty, misc)"

definition show_msg :: "kernel_msg \<Rightarrow> bytes" where
  "show_msg m = padded (le32_bytes (16 + length (msg_body m)) @ le16_bytes (fst (msg_head m)) @ snd (msg_head m) @ msg_body m)"

fun msg_ok :: "kernel_msg \<Rightarrow> bool" where
  "msg_ok (Link misc idx flags change as) \<longleftrightarrow>
     length misc = 10 \<and> length idx = 8 \<and> flags < 65536 * 65536 \<and> length change = 4 \<and> (\<forall>a\<in>set as. attr_ok a)"
| "msg_ok (Other ty misc body) \<longleftrightarrow> length misc = 10 \<and> ty < 65536 \<and> ty \<notin> {3, 16, 20, 21}"

text \<open>What a message says: the name attributes of a link that is not the loopback set the flag of their network.\<close>

definition attr_text :: "attr \<Rightarrow> string" where
  "attr_text a = map (\<lambda>x. char_of (unat x)) (takeWhile (\<lambda>x. x \<noteq> 0) (snd a))"

text \<open>
  The networks McWiLL and LTE follow the state of their interface at once; WiFi keeps its flag while its interface is
  neither up with a carrier nor taken down.
\<close>

definition track :: "nat \<Rightarrow> string \<Rightarrow> bool list \<Rightarrow> bool list" where
  "track flags s st =
     (if same_name s NAME_WIFI then (if isUp flags then st[2 := True] else if isDown flags then st[2 := False] else st)
      else if same_name s NAME_MCWILL then st[0 := isUp flags]
      else if same_name s NAME_4G then st[1 := isUp flags] else st)"

definition attr_effect :: "nat \<Rightarrow> attr \<Rightarrow> bool list \<Rightarrow> bool list" where
  "attr_effect flags a st = (if fst a = 3 then track flags (take 15 (attr_text a)) st else st)"

fun msg_effect :: "kernel_msg \<Rightarrow> bool list \<Rightarrow> bool list" where
  "msg_effect (Link misc idx flags change as) st = (if flag flags IFF_LOOPBACK then st else fold (attr_effect flags) as st)"
| "msg_effect (Other ty misc body) st = st"

lemma length_track [simp]: "length (track flags s st) = length st"
  by (simp add: track_def)

lemma length_effects [simp]:
  "length (attr_effect flags a st) = length st" "length (fold (attr_effect flags) as st) = length st"
  "length (msg_effect m st) = length st"
proof -
  show a: "length (attr_effect flags a st) = length st" for a st by (simp add: attr_effect_def)
  show "length (fold (attr_effect flags) as st) = length st" for flags as st
    by (induction as arbitrary: st) (simp_all add: attr_effect_def)
  then show "length (msg_effect m st) = length st" by (cases m) simp_all
qed

lemma link_named_track: "link_named flags s st = track flags s st"
proof -
  have upd: "(if st ! i \<noteq> x then st[i := x] else st) = st[i := x]" for i x
  proof (cases "st ! i = x")
    case True
    have "st[i := st ! i] = st" by simp
    then show ?thesis unfolding True by simp
  qed simp
  have down: "isDown flags \<Longrightarrow> \<not> isUp flags" by (auto simp: isUp_def isDown_def)
  consider (wifi) "same_name s NAME_WIFI" "\<not> same_name s NAME_MCWILL" "\<not> same_name s NAME_4G"
    | (mcwill) "\<not> same_name s NAME_WIFI" "same_name s NAME_MCWILL"
    | (lte) "\<not> same_name s NAME_WIFI" "\<not> same_name s NAME_MCWILL" "same_name s NAME_4G"
    | (none) "\<not> same_name s NAME_WIFI" "\<not> same_name s NAME_MCWILL" "\<not> same_name s NAME_4G"
    by (auto simp: same_name_def to_lower_def)
  then show ?thesis
  proof cases
    case wifi
    have "\<not> same_name s ''tun0''" using wifi(1) by (auto simp: same_name_def to_lower_def)
    moreover have "st ! 2 \<Longrightarrow> st[2 := True] = st" "\<not> st ! 2 \<Longrightarrow> st[2 := False] = st" using upd[of 2] by (metis (full_types))+
    ultimately show ?thesis using wifi down by (simp add: link_named_def track_def net_type_of_def)
  qed (use upd[of 0] upd[of 1] in \<open>simp_all add: link_named_def track_def net_type_of_def, (metis (full_types))+\<close>)
qed

lemma length_padded: "length (padded d) = align4 (length d)"
  using align4_ge[of "length d"] by (simp add: padded_def)

lemma length_show_attr: "length (show_attr a) = align4 (4 + length (snd a))"
  by (simp add: show_attr_def length_padded eval_nat_numeral)

lemma link_attrs_parse:
  "(\<forall>a\<in>set as. attr_ok a) \<Longrightarrow> r = length pre \<Longrightarrow>
   link_attrs (pre @ concat (map show_attr as) @ rest) flags r (int (length (concat (map show_attr as)))) st =
     Inr (fold (attr_effect flags) as st)"
proof (induction as arbitrary: pre r st)
  case Nil
  then show ?case by (simp add: link_attrs.simps)
next
  case (Cons a as)
  let ?n = "4 + length (snd a)"
  let ?b = "pre @ concat (map show_attr (a # as)) @ rest"
  let ?l = "int (length (concat (map show_attr (a # as))))"
  let ?tail = "replicate (align4 ?n - ?n) 0 @ concat (map show_attr as) @ rest"
  have ok: "attr_ok a" using Cons.prems by simp
  have b: "?b = pre @ le16_bytes ?n @ le16_bytes (fst a) @ snd a @ ?tail"
    by (simp add: show_attr_def padded_def eval_nat_numeral)
  have n: "le16 ?b r = ?n" unfolding b by (rule le16_at) (use ok Cons.prems in \<open>auto simp: attr_ok_def\<close>)
  have ty: "le16 ?b (r + 2) = fst a"
    using le16_at[of "r + 2" "pre @ le16_bytes ?n" "fst a" "snd a @ ?tail"] ok Cons.prems
    unfolding b by (simp add: attr_ok_def)
  have str: "string_at ?b (r + 4) = Inr (attr_text a)" if "fst a = 3"
    using string_at_text[of "r + 4" "pre @ le16_bytes ?n @ le16_bytes (fst a)" "snd a" ?tail] ok that Cons.prems
    unfolding b by (simp add: attr_ok_def attr_text_def)
  have "4 \<le> align4 ?n" using align4_ge[of ?n] by linarith
  then have ins: "inside ?b r 4" using Cons.prems by (simp add: inside_def length_show_attr)
  have len: "?l - int (align4 ?n) = int (length (concat (map show_attr as)))" by (simp add: length_show_attr)
  have more: "4 \<le> ?l" "int ?n \<le> ?l" using align4_ge[of ?n] by (simp_all add: length_show_attr)
  have later: "link_attrs ?b flags (r + align4 ?n) (?l - int (align4 ?n)) st' = Inr (fold (attr_effect flags) as st')" for st'
    using Cons.IH[of "r + align4 ?n" "pre @ show_attr a" st'] Cons.prems unfolding len
    by (simp add: length_show_attr)
  show ?case
    by (subst link_attrs.simps) (use n ty str ins more later in \<open>auto simp: Let_def attr_effect_def link_named_track\<close>)
qed

lemma link_parse:
  assumes "length misc = 10" "length idx = 8" "flags < 65536 * 65536" "length change = 4" "\<forall>a\<in>set as. attr_ok a"
    and b: "b = pre @ le32_bytes n @ le16_bytes 16 @ misc @ idx @ le32_bytes flags @ change @ concat (map show_attr as) @ rest"
    and n: "n = 32 + length (concat (map show_attr as))" "n < 65536 * 65536" and p: "p = length pre"
  shows "parseBinaryNetlinkMessage b p st = Inr (msg_effect (Link misc idx flags change as) st)"
proof -
  have len: "le32 b p = n" unfolding b by (rule le32_at) (use n p in auto)
  have fl: "le32 b (p + 24) = flags"
    using le32_at[of "p + 24" "pre @ le32_bytes n @ le16_bytes 16 @ misc @ idx" flags "change @ concat (map show_attr as) @ rest"]
      assms(1-3) p unfolding b by simp
  have ins: "inside b (p + 16) 16" using assms(1-4) p by (simp add: b inside_def)
  have attrs: "link_attrs b flags (p + 32) (int n - 32) st = Inr (fold (attr_effect flags) as st)"
    using link_attrs_parse[OF assms(5), of "p + 32" "pre @ le32_bytes n @ le16_bytes 16 @ misc @ idx @ le32_bytes flags @ change" rest flags st]
      assms(1-4) p n(1) unfolding b by simp
  show ?thesis using len fl ins attrs n(1) by (simp add: parseBinaryNetlinkMessage_def Let_def)
qed

lemma length_unpadded:
  "msg_ok m \<Longrightarrow> length (le32_bytes x @ le16_bytes y @ snd (msg_head m) @ msg_body m) = 16 + length (msg_body m)"
  by (cases m) simp_all

lemma length_show_msg: "msg_ok m \<Longrightarrow> length (show_msg m) = align4 (16 + length (msg_body m))"
  unfolding show_msg_def length_padded length_unpadded ..

lemma netlink_step:
  "16 \<le> l \<Longrightarrow> inside b p 16 \<Longrightarrow> netlink_message name_of b p st = Inr st' \<Longrightarrow> 16 \<le> le32 b p \<Longrightarrow> int (le32 b p) \<le> l \<Longrightarrow>
   le16 b (p + 4) \<noteq> 3 \<Longrightarrow>
   netlink_loop name_of b p l st = netlink_loop name_of b (p + align4 (le32 b p)) (l - int (align4 (le32 b p))) st'"
  by (subst netlink_loop.simps) (simp add: Let_def)

lemma netlink_parse:
  "(\<forall>m\<in>set ms. msg_ok m) \<Longrightarrow> p = length pre \<Longrightarrow> length (concat (map show_msg ms)) < 65536 \<Longrightarrow>
   netlink_loop name_of (pre @ concat (map show_msg ms) @ rest) p (int (length (concat (map show_msg ms)))) st =
     Inr (fold msg_effect ms st)"
proof (induction ms arbitrary: pre p st)
  case Nil
  then show ?case by (simp add: netlink_loop.simps)
next
  case (Cons m ms)
  let ?n = "16 + length (msg_body m)"
  let ?b = "pre @ concat (map show_msg (m # ms)) @ rest"
  let ?l = "int (length (concat (map show_msg (m # ms))))"
  let ?tail = "replicate (align4 ?n - ?n) 0 @ concat (map show_msg ms) @ rest"
  have ok: "msg_ok m" using Cons.prems by simp
  have misc: "length (snd (msg_head m)) = 10" "fst (msg_head m) < 65536" using ok by (cases m; simp)+
  have b: "?b = pre @ le32_bytes ?n @ le16_bytes (fst (msg_head m)) @ snd (msg_head m) @ msg_body m @ ?tail"
    unfolding list.map concat.simps show_msg_def padded_def length_unpadded[OF ok] append_assoc ..
  have small: "?n < 65536" using Cons.prems(3) align4_ge[of ?n] length_show_msg[OF ok] by simp
  have n: "le32 ?b p = ?n" unfolding b by (rule le32_at) (use small Cons.prems(2) in auto)
  have ty: "le16 ?b (p + 4) = fst (msg_head m)"
    using le16_at[of "p + 4" "pre @ le32_bytes ?n" "fst (msg_head m)" "snd (msg_head m) @ msg_body m @ ?tail"] misc(2) Cons.prems(2)
    unfolding b by simp
  have more: "16 \<le> ?l" "int ?n \<le> ?l" using align4_ge[of ?n] length_show_msg[OF ok] by simp_all
  have ins: "inside ?b p 16" using Cons.prems(2) align4_ge[of ?n] length_show_msg[OF ok] by (simp add: inside_def)
  have len: "?l - int (align4 ?n) = int (length (concat (map show_msg ms)))" by (simp add: length_show_msg[OF ok])
  have later: "netlink_loop name_of ?b (p + align4 ?n) (?l - int (align4 ?n)) st' = Inr (fold msg_effect ms st')" for st'
    using Cons.IH[of "p + align4 ?n" "pre @ show_msg m" st'] Cons.prems unfolding len
    by (simp add: length_show_msg[OF ok])
  have one: "netlink_message name_of ?b p st = Inr (msg_effect m st) \<and> fst (msg_head m) \<noteq> 3"
  proof (cases m)
    case (Link misc idx flags change as)
    have "parseBinaryNetlinkMessage ?b p st = Inr (msg_effect (Link misc idx flags change as) st)"
    proof (rule link_parse[where pre = pre and n = ?n and rest = ?tail])
      show "?b = pre @ le32_bytes ?n @ le16_bytes 16 @ misc @ idx @ le32_bytes flags @ change @ concat (map show_attr as) @ ?tail"
        unfolding b by (simp only: Link msg_head.simps msg_body.simps fst_conv snd_conv append_assoc)
      show "?n = 32 + length (concat (map show_attr as))" using ok unfolding Link by simp
      show "?n < 65536 * 65536" using small by simp
      show "length misc = 10" "length idx = 8" "flags < 65536 * 65536" "length change = 4" "\<forall>a\<in>set as. attr_ok a"
        using ok unfolding Link by simp_all
    qed (rule Cons.prems(2))
    then have "parseBinaryNetlinkMessage ?b p st = Inr (msg_effect m st)" unfolding Link[symmetric] .
    moreover have "le16 ?b (p + 4) = 16" unfolding ty by (simp add: Link)
    ultimately show ?thesis unfolding netlink_message_def Let_def by (simp add: Link)
  next
    case (Other t misc body)
    then show ?thesis using ty ok by (simp add: netlink_message_def Let_def)
  qed
  have "netlink_loop name_of ?b p ?l st =
      netlink_loop name_of ?b (p + align4 (le32 ?b p)) (?l - int (align4 (le32 ?b p))) (msg_effect m st)"
  proof (rule netlink_step[OF more(1) ins conjunct1[OF one]])
    show "16 \<le> le32 ?b p" unfolding n by (rule le_add1)
    show "int (le32 ?b p) \<le> ?l" unfolding n by (rule more(2))
    show "le16 ?b (p + 4) \<noteq> 3" unfolding ty by (rule conjunct2[OF one])
  qed
  then have "netlink_loop name_of ?b p ?l st = netlink_loop name_of ?b (p + align4 ?n) (?l - int (align4 ?n)) (msg_effect m st)"
    unfolding n .
  also have "\<dots> = Inr (fold msg_effect ms (msg_effect m st))" by (rule later)
  finally show ?case by simp
qed

section \<open>What the daemon knows of the links\<close>

text \<open>
  C26: After any sequence of messages that fits into the buffer, whatever other attributes and other messages stand between
  them, the flags are those that the messages say, in order: McWiLL and LTE follow their interface, WiFi changes
  only when its interface is up with a carrier or taken down, and the loopback is passed over.
\<close>

theorem links_tracked:
  assumes "\<forall>m\<in>set ms. msg_ok m" and "length (concat (map show_msg ms)) + length rest = 4096" and "ms \<noteq> []"
  shows "netLinkChangedCallback name_of (concat (map show_msg ms) @ rest) (int (length (concat (map show_msg ms)))) st =
     Inr (fold msg_effect ms st)"
proof -
  obtain m ns where ms: "ms = m # ns" using assms(3) by (cases ms) auto
  have "0 < length (show_msg m)"
    using length_show_msg[of m] assms(1) ms align4_ge[of "16 + length (msg_body m)"] by simp
  then have "0 < int (length (concat (map show_msg ms)))" by (simp add: ms add_pos_nonneg)
  moreover have "netlink_loop name_of ([] @ concat (map show_msg ms) @ rest) 0 (int (length (concat (map show_msg ms)))) st =
      Inr (fold msg_effect ms st)"
    by (rule netlink_parse[OF assms(1)]) (use assms(2) in simp_all)
  ultimately show ?thesis by (simp add: netLinkChangedCallback_def)
qed

text \<open>The WiFi interface goes down, the one of LTE comes up.\<close>

definition name_attr :: "string \<Rightarrow> attr" where
  "name_attr s = (3, map of_char s @ [0])"

definition link_change :: "string \<Rightarrow> nat \<Rightarrow> kernel_msg" where
  "link_change s flags = Link (replicate 10 0) (replicate 8 0) flags (replicate 4 0) [(1, replicate 6 0), name_attr s, (13, [1])]"

theorem links_tracked_witness:
  "\<exists>b. length b = 4096 \<and> netLinkChangedCallback (\<lambda>_. []) b 132 [True, False, True] = Inr [True, True, False]"
proof -
  let ?ms = "[link_change ''wlan0'' 0, link_change ''rmnet_data0'' 65601]"
  have len: "length (concat (map show_msg ?ms)) = 132"
    by (simp add: link_change_def name_attr_def show_msg_def show_attr_def length_padded align4_def)
  have t: "attr_text (name_attr s) = s" if "s = ''wlan0'' \<or> s = ''rmnet_data0''" for s
    using that by (auto simp: attr_text_def name_attr_def char_of_eq_iff)
  have up: "isUp 65601" "\<not> isUp 0" "isDown 0" "\<not> flag 65601 IFF_LOOPBACK" "\<not> flag 0 IFF_LOOPBACK"
    by (simp_all add: isUp_def isDown_def flag_def IFF_RUNNING_def IFF_UP_def IFF_LOWER_UP_def IFF_LOOPBACK_def)
  have same: "same_name ''wlan0'' ''wlan0''" "\<not> same_name ''rmnet_data0'' ''wlan0''" "\<not> same_name ''rmnet_data0'' ''mcwill''"
    "same_name ''rmnet_data0'' ''rmnet_data0''"
    by (simp_all add: same_name_def to_lower_def)
  have eff: "fold msg_effect ?ms [True, False, True] = [True, True, False]"
    using up same t by (simp add: link_change_def attr_effect_def track_def) (simp add: name_attr_def)
  have "netLinkChangedCallback (\<lambda>_. []) (concat (map show_msg ?ms) @ replicate 3964 0) (int (length (concat (map show_msg ?ms))))
      [True, False, True] = Inr (fold msg_effect ?ms [True, False, True])"
    by (rule links_tracked) (use len in \<open>auto simp: link_change_def name_attr_def attr_ok_def\<close>)
  then have "netLinkChangedCallback (\<lambda>_. []) (concat (map show_msg ?ms) @ replicate 3964 0) 132 [True, False, True] =
      Inr [True, True, False]"
    unfolding len eff of_nat_numeral .
  moreover have "length (concat (map show_msg ?ms) @ replicate 3964 0) = 4096"
    unfolding length_append len length_replicate by simp
  ultimately show ?thesis by blast
qed

section \<open>Reads inside the buffer\<close>

lemma string_at_inside: "i \<le> k \<Longrightarrow> 0 \<in> set (drop k b) \<Longrightarrow> \<exists>s. string_at b i = Inr s"
proof -
  assume ik: "i \<le> k" and z: "0 \<in> set (drop k b)"
  have "drop k b = drop (k - i) (drop i b)" using ik by simp
  then have "0 \<in> set (drop i b)" using z in_set_dropD by metis
  then show ?thesis by (simp add: string_at_def)
qed

lemma link_named_length: "length (link_named flags s st) = length st"
  by (simp add: link_named_track)

lemma link_attrs_inside:
  "int r + l \<le> int k \<Longrightarrow> k \<le> length b \<Longrightarrow> 0 \<in> set (drop k b) \<Longrightarrow>
   \<exists>st'. link_attrs b flags r l st = Inr st' \<and> length st' = length st"
proof (induction b flags r l st rule: link_attrs.induct)
  case (1 b flags r l st)
  show ?case
  proof (cases "4 \<le> l \<and> 4 \<le> le16 b r \<and> int (le16 b r) \<le> l")
    case False
    then show ?thesis using 1(3,4) by (subst link_attrs.simps) (auto simp: inside_def Let_def)
  next
    case True
    have ins: "inside b r 4" using True 1(3,4) by (simp add: inside_def)
    have pos: "int (r + align4 (le16 b r)) + (l - int (align4 (le16 b r))) \<le> int k" using 1(3) by simp
    obtain s where s: "string_at b (r + 4) = Inr s"
      using string_at_inside[OF _ 1(5), of "r + 4"] True 1(3) by auto
    have step: "link_attrs b flags r l st = link_attrs b flags (r + align4 (le16 b r)) (l - int (align4 (le16 b r)))
        (if le16 b (r + 2) = 3 then link_named flags (take 15 s) st else st)"
      using True ins s by (subst link_attrs.simps) (simp add: Let_def)
    show ?thesis
    proof (cases "le16 b (r + 2) = 3")
      case named: True
      have "\<exists>st'. link_attrs b flags (r + align4 (le16 b r)) (l - int (align4 (le16 b r))) (link_named flags (take 15 s) st) = Inr st' \<and>
          length st' = length (link_named flags (take 15 s) st)"
        by (rule 1(1)[OF _ _ refl _ named s pos 1(4,5)]) (use True ins in auto)
      then show ?thesis unfolding step link_named_length using named by simp
    next
      case other: False
      have "\<exists>st'. link_attrs b flags (r + align4 (le16 b r)) (l - int (align4 (le16 b r))) st = Inr st' \<and> length st' = length st"
        by (rule 1(2)[OF _ _ refl _ other pos 1(4,5)]) (use True ins in auto)
      then show ?thesis unfolding step using other by simp
    qed
  qed
qed

lemma addr_named_length: "length (addr_named newStatus s st) = length st"
  by (simp add: addr_named_def Let_def)

lemma addr_attrs_inside:
  "int r + l \<le> int k \<Longrightarrow> k + 4 \<le> length b \<Longrightarrow>
   \<exists>st'. addr_attrs name_of b newStatus p r l st = Inr st' \<and> length st' = length st"
proof (induction name_of b newStatus p r l st rule: addr_attrs.induct)
  case (1 name_of b newStatus p r l st)
  show ?case
  proof (cases "4 \<le> l \<and> 4 \<le> le16 b r \<and> int (le16 b r) \<le> l")
    case False
    then show ?thesis using 1(3,4) by (subst addr_attrs.simps) (auto simp: inside_def Let_def)
  next
    case True
    have ins: "inside b r 4" "inside b (r + 4) 4" using True 1(3,4) by (auto simp: inside_def)
    have pos: "int (r + align4 (le16 b r)) + (l - int (align4 (le16 b r))) \<le> int k" using 1(3) by simp
    let ?name = "name_of (le32 b (p + 20))"
    have step: "addr_attrs name_of b newStatus p r l st =
        addr_attrs name_of b newStatus p (r + align4 (le16 b r)) (l - int (align4 (le16 b r)))
          (if le16 b (r + 2) = 2 then addr_named newStatus ?name st else st)"
      using True ins by (subst addr_attrs.simps) (simp add: Let_def)
    show ?thesis
    proof (cases "le16 b (r + 2) = 2")
      case named: True
      have "\<exists>st'. addr_attrs name_of b newStatus p (r + align4 (le16 b r)) (l - int (align4 (le16 b r))) (addr_named newStatus ?name st) =
          Inr st' \<and> length st' = length (addr_named newStatus ?name st)"
        by (rule 1(1)[OF _ _ refl _ named ins(2) pos 1(4)]) (use True ins in auto)
      then show ?thesis unfolding step addr_named_length using named by simp
    next
      case other: False
      have "\<exists>st'. addr_attrs name_of b newStatus p (r + align4 (le16 b r)) (l - int (align4 (le16 b r))) st = Inr st' \<and>
          length st' = length st"
        by (rule 1(2)[OF _ _ refl _ other pos 1(4)]) (use True ins in auto)
      then show ?thesis unfolding step using other by simp
    qed
  qed
qed

lemma netlink_message_inside:
  assumes "int p + int (le32 b p) \<le> int k" and "k + 4 \<le> length b" and "0 \<in> set (drop k b)"
  shows "\<exists>st'. netlink_message name_of b p st = Inr st' \<and> length st' = length st"
proof -
  have "\<exists>st'. parseNetlinkAddrMsg name_of b up p st = Inr st' \<and> length st' = length st" for up
    unfolding parseNetlinkAddrMsg_def by (rule addr_attrs_inside[OF _ assms(2)]) (use assms(1) in simp)
  moreover have "\<exists>st'. parseBinaryNetlinkMessage b p st = Inr st' \<and> length st' = length st"
  proof -
    have "\<exists>st'. link_attrs b flags (p + 32) (int (le32 b p) - 32) st = Inr st' \<and> length st' = length st" for flags
      by (rule link_attrs_inside[OF _ _ assms(3)]) (use assms(1,2) in auto)
    then show ?thesis using assms(1,2) by (auto simp: parseBinaryNetlinkMessage_def Let_def inside_def)
  qed
  ultimately show ?thesis by (simp add: netlink_message_def Let_def)
qed

lemma netlink_loop_inside:
  "int p + l \<le> int k \<Longrightarrow> k + 4 \<le> length b \<Longrightarrow> 0 \<in> set (drop k b) \<Longrightarrow>
   \<exists>st'. netlink_loop name_of b p l st = Inr st' \<and> length st' = length st"
proof (induction name_of b p l st rule: netlink_loop.induct)
  case (1 name_of b p l st)
  show ?case
  proof (cases "16 \<le> l \<and> 16 \<le> le32 b p \<and> int (le32 b p) \<le> l \<and> le16 b (p + 4) \<noteq> 3")
    case False
    then show ?thesis using 1(2,3) by (subst netlink_loop.simps) (auto simp: inside_def Let_def)
  next
    case True
    have ins: "inside b p 16" using True 1(2,3) by (simp add: inside_def)
    have pos: "int (p + align4 (le32 b p)) + (l - int (align4 (le32 b p))) \<le> int k" using 1(2) by simp
    obtain st1 where m: "netlink_message name_of b p st = Inr st1" "length st1 = length st"
      using netlink_message_inside[OF _ 1(3,4), of p name_of st] True 1(2) by auto
    have "\<exists>st'. netlink_loop name_of b (p + align4 (le32 b p)) (l - int (align4 (le32 b p))) st1 = Inr st' \<and> length st' = length st1"
      by (rule 1(1)[OF _ _ refl _ m(1) pos 1(3,4)]) (use True ins in auto)
    then show ?thesis using netlink_step[OF _ ins m(1)] True m(2) by simp
  qed
qed

text \<open>
  C27: Whatever bytes the kernel sends, the daemon reads inside its buffer and keeps its three flags, as long as the
  message leaves four bytes of the buffer free and there is a NUL among the bytes behind it.
\<close>

theorem netlink_reads_inside:
  assumes "length b = 4096" and "len + 4 \<le> 4096" and "0 \<in> set (drop (nat len) b)" and "length st = 3"
  shows "\<exists>st'. netLinkChangedCallback name_of b len st = Inr st' \<and> length st' = 3"
  using netlink_loop_inside[of 0 len "nat len" b name_of st] assms by (auto simp: netLinkChangedCallback_def)

theorem netlink_reads_inside_witness:
  "\<exists>st'. netLinkChangedCallback (\<lambda>_. []) (replicate 4000 255 @ replicate 96 0) 4000 [True, True, True] = Inr st' \<and> length st' = 3"
  by (rule netlink_reads_inside) simp_all

text \<open>A name without a NUL in a full buffer is read behind the end of the buffer.\<close>

lemma full_buffer_overread:
  "netLinkChangedCallback name_of
     (le32_bytes 4096 @ le16_bytes 16 @ replicate 26 0 @ le16_bytes 4064 @ le16_bytes 3 @ replicate 4060 65) 4096 st = Inl OutOfBounds"
proof -
  let ?x = "le32_bytes 4096 @ le16_bytes 16 @ replicate 26 0"
  define b where "b = ?x @ le16_bytes 4064 @ le16_bytes 3 @ replicate 4060 65"
  have n: "le32 b 0 = 4096" using le32_at[of 0 "[]" 4096] by (simp add: b_def)
  have ty: "le16 b 4 = 16" using le16_at[of 4 "le32_bytes 4096" 16] by (simp add: b_def)
  have fl: "le32 b 24 = 0"
    by (simp add: b_def le32_def le16_def nth_append nth_replicate)
  have attr: "le16 b 32 = 4064" "le16 b 34 = 3"
    using le16_at[of 32 ?x 4064] le16_at[of 34 "?x @ le16_bytes 4064" 3] by (simp_all add: b_def)
  have "drop 36 b = replicate 4060 65" by (simp add: b_def)
  then have s: "string_at b 36 = Inl OutOfBounds" by (simp add: string_at_def)
  have len: "length b = 4096" by (simp add: b_def)
  have "link_attrs b 0 32 4064 st = Inl OutOfBounds"
    by (subst link_attrs.simps) (simp add: attr s inside_def len)
  then have "netlink_message name_of b 0 st = Inl OutOfBounds"
    by (simp add: netlink_message_def parseBinaryNetlinkMessage_def ty n Let_def fl inside_def len flag_def)
  then have "netlink_loop name_of b 0 4096 st = Inl OutOfBounds"
    by (subst netlink_loop.simps) (simp add: n ty inside_def len)
  then show ?thesis by (simp add: netLinkChangedCallback_def b_def)
qed

section \<open>A link that went down closes its send queue\<close>

text \<open>
  A packet of the driver for a network whose flag is down is refused, its queue stays as it is, and its buffer is freed when it is the
  queue's to release and the queue does not hold it already.
\<close>

lemma link_down_refuses:
  assumes "length st = 3" and "length Qs = 3" and "netType div 2 < 3" and "\<not> st ! (netType div 2)"
    and "ResetElemFlagInQueue buffer True (Qs ! (netType div 2)) = Inr (False, Qs ! (netType div 2))"
    and "buffer \<in> live" and "buffer \<noteq> 0"
  shows "MPC_OnSendMpDataComplete st netType buffer n True (Qs, live) = Inr (- 1, Qs, live - {buffer})"
proof -
  have "Enqueue False x Q = (False, Q)" for x Q by (simp add: Enqueue_def split: option.split)
  then show ?thesis
    using assms by (simp add: MPC_OnSendMpDataComplete_def MPC_putMsgToSendQueue_def qfree_def Let_def)
qed

end
