(* ===== verification/RATD_Sockets.thy ===== *)
theory RATD_Sockets
  imports RATD_Daemon RATD_Queue "HOL-Library.State_Monad" "HOL-Library.Multiset"
begin

text \<open>
  The socket helpers of the daemon (\<^verbatim>\<open>netlib.c\<close>, \<^verbatim>\<open>tun_dev.c\<close>) down to the system calls, each
  with its error paths: the socket of a subflow, writing and reading with their repetitions, the tunnel
  device with its address, and the commands that set the routes. What a call answers is a function of all
  calls up to it.
\<close>

section \<open>System calls\<close>

datatype net_call =
    Socket | OpenTun | SetReuse int | BindDevice int string | Connect int string bool | CloseFd int
  | TunSetIff int string | OTunSetIff int string | InetPton string
  | Ioctl int string
  | WriteFd int "U8 list" | ReadFd int nat | Nap nat | Shell string

datatype net_errno = ENODEV | EINVAL | EFAULT | EAGAIN | EINTR | ENOBUFS | ENOMEM | EBADFD | OtherError

record net =
  nt_ret :: "net_call list \<Rightarrow> int"
  nt_errno :: "net_call list \<Rightarrow> net_errno"
  nt_calls :: "net_call list"

definition sys_call :: "net_call \<Rightarrow> (net, int) state" where
  "sys_call c = State (\<lambda>n. (nt_ret n (nt_calls n @ [c]), n\<lparr>nt_calls := nt_calls n @ [c]\<rparr>))"

definition net_errno_of :: "(net, net_errno) state" where
  "net_errno_of = State (\<lambda>n. (nt_errno n (nt_calls n), n))"

named_theorems net_simps

lemma run_sys_call [net_simps]:
  "run_state (sys_call c) n = (nt_ret n (nt_calls n @ [c]), n\<lparr>nt_calls := nt_calls n @ [c]\<rparr>)"
  by (simp add: sys_call_def)

lemma run_errno [net_simps]: "run_state net_errno_of n = (nt_errno n (nt_calls n), n)"
  by (simp add: net_errno_of_def)

section \<open>The socket of a subflow (netlib.c)\<close>

text \<open>\<^verbatim>\<open>strncpy (ifrn_name, physicalIfname, strlen (physicalIfname))\<close> into an array of 16 bytes.\<close>

definition establishUdpSession :: "string \<Rightarrow> string \<Rightarrow> bool \<Rightarrow> (net, int res) state" where
  "establishUdpSession server physicalIfname isCommandMessage = do {
     s \<leftarrow> sys_call Socket;
     if s = - 1 then State_Monad.return (Inr (- 1))
     else do {
       sys_call (SetReuse s);
       if 16 < length physicalIfname then State_Monad.return (Inl OutOfBounds)
       else do {
         r \<leftarrow> sys_call (BindDevice s physicalIfname);
         if r < 0 then do { sys_call (CloseFd s); State_Monad.return (Inr (- 1)) }
         else do {
           c \<leftarrow> sys_call (Connect s server isCommandMessage);
           State_Monad.return (Inr (if c \<noteq> 0 then - 1 else s))
         }
       }
     }
   }"

text \<open>\<^verbatim>\<open>getifaddr\<close>: the number of the address is the answer of the call.\<close>

definition getifaddr :: "string \<Rightarrow> (net, int) state" where
  "getifaddr ifname = do {
     s \<leftarrow> sys_call Socket;
     if s = - 1 then State_Monad.return (- 1)
     else do {
       r \<leftarrow> sys_call (Ioctl s (''SIOCGIFADDR '' @ take 15 ifname));
       sys_call (CloseFd s);
       State_Monad.return (if r < 0 then - 1 else r)
     }
   }"

text \<open>
  The loop of \<^verbatim>\<open>udp_write\<close> runs once: a write that may be repeated ends it behind a nap of five milliseconds. The
  loop of \<^verbatim>\<open>udp_read\<close> makes up to five attempts.
\<close>

fun write_loop :: "int \<Rightarrow> U8 list \<Rightarrow> nat \<Rightarrow> (net, int) state" where
  "write_loop fd buf 0 = State_Monad.return 0"
| "write_loop fd buf (Suc n) = do {
     wlen \<leftarrow> sys_call (WriteFd fd buf);
     e \<leftarrow> net_errno_of;
     if 0 \<le> wlen then State_Monad.return wlen
     else if e = ENODEV \<or> e = EINVAL then State_Monad.return (- 1)
     else if e = EFAULT then State_Monad.return 0
     else if e = EAGAIN \<or> e = EINTR \<or> e = ENOBUFS \<or> e = ENOMEM then do { sys_call (Nap 5000); write_loop fd buf n }
     else State_Monad.return 0
   }"

definition udp_write_calls :: "int \<Rightarrow> U8 list \<Rightarrow> (net, int) state" where
  "udp_write_calls fd buf = (if fd \<le> 0 then State_Monad.return (- 1) else write_loop fd buf 1)"

fun read_loop :: "int \<Rightarrow> nat \<Rightarrow> int \<Rightarrow> nat \<Rightarrow> (net, int) state" where
  "read_loop fd len rlen 0 = State_Monad.return rlen"
| "read_loop fd len rlen (Suc n) = do {
     rlen \<leftarrow> sys_call (ReadFd fd len);
     e \<leftarrow> net_errno_of;
     if rlen < 0 \<and> (e = EAGAIN \<or> e = EINTR) then do { sys_call (Nap 1); read_loop fd len rlen n }
     else State_Monad.return rlen
   }"

definition udp_read :: "int \<Rightarrow> nat \<Rightarrow> (net, int) state" where
  "udp_read fd len = read_loop fd len 0 5"

text \<open>The commands for the routes, printed into an array of 100 bytes.\<close>

definition command_100 :: "string \<Rightarrow> string res" where
  "command_100 s = (if length s < 100 then Inr s else Inl OutOfBounds)"

definition run_command :: "string \<Rightarrow> (net, unit res) state" where
  "run_command s =
     (case command_100 s of Inl e \<Rightarrow> State_Monad.return (Inl e)
      | Inr c \<Rightarrow> do { sys_call (Shell c); State_Monad.return (Inr ()) })"

definition two_commands :: "string \<Rightarrow> string \<Rightarrow> (net, unit res) state" where
  "two_commands s t = do {
     r \<leftarrow> run_command s;
     (case r of Inl e \<Rightarrow> State_Monad.return (Inl e) | Inr _ \<Rightarrow> run_command t)
   }"

definition addMpRouteAndIptables :: "string \<Rightarrow> string \<Rightarrow> (net, unit res) state" where
  "addMpRouteAndIptables table_name ip =
     two_commands (''ip rule add from 0.0.0.0/0.0.0.0 table '' @ table_name @ '' pref 18001'')
       (''ip route add table '' @ table_name @ '' default via '' @ ip)"

definition clearMpRouteAndIptables :: "string \<Rightarrow> (net, unit res) state" where
  "clearMpRouteAndIptables table_name =
     two_commands (''ip rule del from 0.0.0.0/0.0.0.0 table '' @ table_name @ '' pref 18001'')
       (''ip route flush table '' @ table_name)"

section \<open>The tunnel device (tun_dev.c)\<close>

text \<open>The requests of \<^verbatim>\<open>set_ip\<close> in their order; the first that fails closes the socket and is the result.\<close>

fun set_ip_calls :: "int \<Rightarrow> (net_call \<times> bool) list \<Rightarrow> (net, int) state" where
  "set_ip_calls fd [] = do { sys_call (CloseFd fd); State_Monad.return 1 }"
| "set_ip_calls fd ((c, one) # cs) = do {
     err \<leftarrow> sys_call c;
     if (if one then err \<noteq> 1 else err < 0) then do { sys_call (CloseFd fd); State_Monad.return err }
     else set_ip_calls fd cs
   }"

definition set_ip :: "string \<Rightarrow> string \<Rightarrow> (net, int) state" where
  "set_ip ipaddr mask_addr = do {
     fd \<leftarrow> sys_call Socket;
     set_ip_calls fd [(InetPton ipaddr, True), (Ioctl fd ''SIOCSIFADDR'', False), (InetPton mask_addr, True),
       (Ioctl fd ''SIOCSIFNETMASK'', False), (Ioctl fd ''SIOCSIFMTU'', False), (Ioctl fd ''SIOCSIFTXQLEN'', False),
       (Ioctl fd ''SIOCGIFFLAGS'', False), (Ioctl fd ''SIOCSIFFLAGS'', False)]
   }"

definition tun_failed :: "int \<Rightarrow> (net, int) state" where
  "tun_failed fd = do { sys_call (CloseFd fd); State_Monad.return (- 1) }"

definition tun_open_common :: "string \<Rightarrow> string \<Rightarrow> (net, int) state" where
  "tun_open_common dev ip = do {
     fd \<leftarrow> sys_call OpenTun;
     if fd < 0 then tun_failed fd
     else do {
       r \<leftarrow> sys_call (TunSetIff fd (take 16 dev));
       e \<leftarrow> net_errno_of;
       r \<leftarrow> (if r < 0 \<and> e = EBADFD then sys_call (OTunSetIff fd (take 16 dev)) else State_Monad.return r);
       if r < 0 then tun_failed fd
       else do {
         s \<leftarrow> set_ip ip ''255.255.255.252'';
         if s \<noteq> 1 then tun_failed fd else State_Monad.return fd
       }
     }
   }"

definition tun_close :: "int \<Rightarrow> (net, int) state" where
  "tun_close fd = (if 0 < fd then sys_call (CloseFd fd) else State_Monad.return (- 1))"

text \<open>\<^verbatim>\<open>init_tun_network\<close> with the descriptor it keeps.\<close>

definition init_tun :: "int \<Rightarrow> string \<Rightarrow> string \<Rightarrow> (net, int \<times> int) state" where
  "init_tun tun_fd dev ip =
     (if 0 < tun_fd then State_Monad.return (0, tun_fd)
      else do {
        fd \<leftarrow> tun_open_common dev ip;
        State_Monad.return (if fd < 0 then (- 1, tun_fd) else (0, fd))
      })"

section \<open>Open descriptors\<close>

text \<open>The descriptors that a history of calls has opened and not closed, as a multiset of openings minus closings.\<close>

fun fd_opened :: "(net_call list \<Rightarrow> int) \<Rightarrow> net_call list \<Rightarrow> net_call \<Rightarrow> int multiset" where
  "fd_opened ret pre Socket = (if 0 \<le> ret (pre @ [Socket]) then {#ret (pre @ [Socket])#} else {#})"
| "fd_opened ret pre OpenTun = (if 0 \<le> ret (pre @ [OpenTun]) then {#ret (pre @ [OpenTun])#} else {#})"
| "fd_opened ret pre c = {#}"

fun fd_closed :: "net_call \<Rightarrow> int multiset" where
  "fd_closed (CloseFd fd) = (if 0 \<le> fd then {#fd#} else {#})"
| "fd_closed c = {#}"

fun openings :: "(net_call list \<Rightarrow> int) \<Rightarrow> net_call list \<Rightarrow> net_call list \<Rightarrow> int multiset" where
  "openings ret pre [] = {#}"
| "openings ret pre (c # cs) = fd_opened ret pre c + openings ret (pre @ [c]) cs"

definition closings :: "net_call list \<Rightarrow> int multiset" where
  "closings cs = sum_list (map fd_closed cs)"

text \<open>The descriptors that are open.\<close>

definition holds :: "net \<Rightarrow> int multiset \<Rightarrow> bool" where
  "holds n F \<longleftrightarrow> openings (nt_ret n) [] (nt_calls n) = closings (nt_calls n) + F"

abbreviation fd_set_of :: "int \<Rightarrow> int multiset" where
  "fd_set_of fd \<equiv> (if 0 \<le> fd then {#fd#} else {#})"

lemma openings_append: "openings ret pre (xs @ ys) = openings ret pre xs + openings ret (pre @ xs) ys"
  by (induction xs arbitrary: pre) auto

lemma closings_append: "closings (xs @ ys) = closings xs + closings ys"
  by (simp add: closings_def)

lemma closings_Cons [simp]: "closings [] = {#}" "closings (c # cs) = fd_closed c + closings cs"
  by (simp_all add: closings_def)

lemma holds_call:
  "holds n F \<Longrightarrow> fd_opened (nt_ret n) (nt_calls n) c = {#} \<Longrightarrow> fd_closed c = {#} \<Longrightarrow> holds (n\<lparr>nt_calls := nt_calls n @ [c]\<rparr>) F"
  by (simp add: holds_def openings_append closings_append)

lemma holds_socket: "holds n F \<Longrightarrow> c = Socket \<or> c = OpenTun \<Longrightarrow>
  holds (n\<lparr>nt_calls := nt_calls n @ [c]\<rparr>) (F + fd_set_of (nt_ret n (nt_calls n @ [c])))"
  by (auto simp: holds_def openings_append closings_append)

lemma holds_close: "holds n (F + fd_set_of fd) \<Longrightarrow> holds (n\<lparr>nt_calls := nt_calls n @ [CloseFd fd]\<rparr>) F"
  by (auto simp: holds_def openings_append closings_append split: if_splits)

definition plain :: "net_call \<Rightarrow> bool" where
  "plain c \<longleftrightarrow> (case c of InetPton _ \<Rightarrow> True | Ioctl _ _ \<Rightarrow> True | _ \<Rightarrow> False)"

lemma set_ip_calls_closes:
  "holds n (F + fd_set_of fd) \<Longrightarrow> \<forall>x\<in>set cs. plain (fst x) \<Longrightarrow> holds (snd (run_state (set_ip_calls fd cs) n)) F"
proof (induction cs arbitrary: n)
  case Nil
  then show ?case using holds_close by (simp add: net_simps)
next
  case (Cons x cs)
  obtain c one where x: "x = (c, one)" by (cases x)
  have "fd_opened (nt_ret n) (nt_calls n) c = {#} \<and> fd_closed c = {#}"
    using Cons.prems(2) unfolding x by (cases c) (auto simp: plain_def)
  then have h: "holds (n\<lparr>nt_calls := nt_calls n @ [c]\<rparr>) (F + fd_set_of fd)" using holds_call Cons.prems(1) by blast
  show ?case
    using Cons.IH[OF h] holds_close[OF h] Cons.prems(2) by (simp add: x net_simps)
qed

lemma set_ip_closes: "holds n F \<Longrightarrow> holds (snd (run_state (set_ip a m) n)) F"
  unfolding set_ip_def run_state_bind run_sys_call prod.case
  by (rule set_ip_calls_closes[OF holds_socket]) (simp_all add: plain_def)

lemma tun_failed_closes:
  "holds n (F + fd_set_of fd) \<Longrightarrow> fst (run_state (tun_failed fd) n) = - 1 \<and> holds (snd (run_state (tun_failed fd) n)) F"
  using holds_close by (simp add: tun_failed_def net_simps)

text \<open>
  C28: Opening the tunnel device leaves its descriptor open when it succeeds and nothing when it fails, whichever of
  its system calls fails; the socket that sets the address is closed on every path.
\<close>

theorem tun_open_balanced:
  assumes "holds n F" and "run_state (tun_open_common dev ip) n = (r, n')"
  shows "(0 \<le> r \<longrightarrow> holds n' (F + {#r#})) \<and> (r < 0 \<longrightarrow> r = - 1 \<and> holds n' F)"
proof -
  define fd where "fd = nt_ret n (nt_calls n @ [OpenTun])"
  let ?n1 = "n\<lparr>nt_calls := nt_calls n @ [OpenTun]\<rparr>"
  let ?n2 = "?n1\<lparr>nt_calls := nt_calls ?n1 @ [TunSetIff fd (take 16 dev)]\<rparr>"
  let ?n3 = "?n2\<lparr>nt_calls := nt_calls ?n2 @ [OTunSetIff fd (take 16 dev)]\<rparr>"
  have h1: "holds ?n1 (F + fd_set_of fd)" unfolding fd_def by (rule holds_socket[OF assms(1)]) simp
  have h2: "holds ?n2 (F + fd_set_of fd)" by (rule holds_call[OF h1]) simp_all
  have h3: "holds ?n3 (F + fd_set_of fd)" by (rule holds_call[OF h2]) simp_all
  let ?rest = "\<lambda>r::int. if r < 0 then tun_failed fd
       else do { s \<leftarrow> set_ip ip ''255.255.255.252''; if s \<noteq> 1 then tun_failed fd else State_Monad.return fd }"
  have rest: "let (v, m') = run_state (?rest q) m in (0 \<le> v \<longrightarrow> holds m' (F + {#v#})) \<and> (v < 0 \<longrightarrow> v = - 1 \<and> holds m' F)"
    if fd: "0 \<le> fd" and m: "holds m (F + fd_set_of fd)" for q m
  proof (cases "q < 0")
    case True
    then show ?thesis using tun_failed_closes[OF m] by (simp add: case_prod_beta Let_def)
  next
    case False
    have "holds (snd (run_state (set_ip ip ''255.255.255.252'') m)) (F + fd_set_of fd)" by (rule set_ip_closes[OF m])
    then show ?thesis using False fd tun_failed_closes by (auto simp: case_prod_beta Let_def)
  qed
  show ?thesis
  proof (cases "fd < 0")
    case True
    then have "(r, n') = run_state (tun_failed fd) ?n1"
      using assms(2) by (simp add: tun_open_common_def net_simps fd_def)
    then show ?thesis using tun_failed_closes[OF h1] by (simp add: prod_eq_iff)
  next
    case False
    let ?t = "nt_ret n (nt_calls ?n2)" and ?e = "nt_errno n (nt_calls ?n2)"
    have c1: "run_state (tun_open_common dev ip) n = run_state (?rest (nt_ret n (nt_calls ?n3))) ?n3" if "?t < 0 \<and> ?e = EBADFD"
      using that False by (simp add: tun_open_common_def net_simps flip: fd_def)
    have c2: "run_state (tun_open_common dev ip) n = run_state (?rest ?t) ?n2" if "\<not> (?t < 0 \<and> ?e = EBADFD)"
      using that False by (simp add: tun_open_common_def net_simps flip: fd_def)
    obtain q m where qm: "m = ?n2 \<or> m = ?n3" "(r, n') = run_state (?rest q) m"
    proof (cases "?t < 0 \<and> ?e = EBADFD")
      case True
      show ?thesis by (rule that[of ?n3 "nt_ret n (nt_calls ?n3)"]) (blast, rule trans[OF assms(2)[symmetric] c1[OF True]])
    next
      case False
      show ?thesis by (rule that[of ?n2 ?t]) (blast, rule trans[OF assms(2)[symmetric] c2[OF False]])
    qed
    have hm: "holds m (F + fd_set_of fd)" using qm(1) h2 h3 by blast
    show ?thesis using rest[OF _ hm, of q] False qm(2)[symmetric] by (simp add: Let_def)
  qed
qed

definition no_device :: net where
  "no_device = \<lparr>nt_ret = (\<lambda>cs. case last cs of OpenTun \<Rightarrow> 7 | TunSetIff _ _ \<Rightarrow> - 1 | _ \<Rightarrow> 0), nt_errno = (\<lambda>_. OtherError), nt_calls = []\<rparr>"

theorem tun_open_balanced_witness:
  "\<exists>n'. run_state (tun_open_common ''tun0'' ''10.0.0.1'') no_device = (- 1, n') \<and> holds n' {#}"
proof -
  obtain n' where run: "run_state (tun_open_common ''tun0'' ''10.0.0.1'') no_device = (- 1, n')"
    by (simp add: tun_open_common_def tun_failed_def net_simps no_device_def)
  have "holds no_device {#}" by (simp add: holds_def no_device_def)
  from tun_open_balanced[OF this run] show ?thesis using run by simp
qed

section \<open>Sockets\<close>

text \<open>When the socket of a subflow is bound but cannot be connected it stays open, and nobody knows its descriptor.\<close>

lemma failed_connect_leaks:
  assumes "holds n F" and "length name \<le> 16"
  defines "fd \<equiv> nt_ret n (nt_calls n @ [Socket])"
  assumes "0 \<le> fd" and "0 \<le> nt_ret n (nt_calls n @ [Socket, SetReuse fd, BindDevice fd name])"
    and "nt_ret n (nt_calls n @ [Socket, SetReuse fd, BindDevice fd name, Connect fd server cmd]) \<noteq> 0"
  shows "fst (run_state (establishUdpSession server name cmd) n) = Inr (- 1) \<and>
    holds (snd (run_state (establishUdpSession server name cmd) n)) (F + {#fd#})"
  using assms(2-) unfolding fd_def
  by (simp add: establishUdpSession_def net_simps)
    (use assms(1) in \<open>simp add: holds_def openings_append closings_append\<close>)

text \<open>
  What a write to the gateway returns: the bytes written; an error only when the device is gone; otherwise the
  packet is dropped without one, behind at most one nap.
\<close>

lemma udp_write_result:
  defines "w \<equiv> \<lambda>n fd b. nt_calls n @ [WriteFd fd b]"
  shows "fst (run_state (udp_write_calls fd b) n) =
     (if fd \<le> 0 then - 1 else if 0 \<le> nt_ret n (w n fd b) then nt_ret n (w n fd b)
      else if nt_errno n (w n fd b) \<in> {ENODEV, EINVAL} then - 1 else 0)"
  unfolding w_def by (simp add: udp_write_calls_def net_simps)

text \<open>The call that the handlers of the daemon make is this one.\<close>

lemma udp_write_refines:
  assumes "udp_result env fd b = fst (run_state (udp_write_calls fd b) n)"
  shows "fst (udp_write env fd b d) = fst (run_state (udp_write_calls fd b) n)"
  using assms by (simp add: udp_write_def udp_write_calls_def Let_def)

text \<open>The commands for the routes fit into their array for every table name and address that are not longer than 40 characters together.\<close>

lemma route_commands_fit:
  "length table_name + length ip \<le> 40 \<Longrightarrow> fst (run_state (addMpRouteAndIptables table_name ip) n) = Inr ()"
  "length table_name \<le> 40 \<Longrightarrow> fst (run_state (clearMpRouteAndIptables table_name) n) = Inr ()"
  by (simp_all add: addMpRouteAndIptables_def clearMpRouteAndIptables_def two_commands_def run_command_def command_100_def net_simps)

section \<open>The end of a queue\<close>

text \<open>\<^verbatim>\<open>DestroyQueue\<close> releases the buffers under the semaphore of the queue.\<close>

definition DestroyQueue :: "QUEUE \<times> qbuf set \<Rightarrow> (QUEUE \<times> qbuf set) res" where
  "DestroyQueue q = ReleaseQueueBuffs q"

section \<open>The calls between daemon and driver (mp_data.c)\<close>

text \<open>A packet for the transport goes to the tunnel and its buffer is freed, whatever the write returns.\<close>

definition MPC_OnPostPreMpDataToTransport :: "int \<Rightarrow> qbuf \<Rightarrow> U8 list \<Rightarrow> nat \<Rightarrow> nat \<Rightarrow> qbuf set \<Rightarrow> (net, (int \<times> qbuf set) res) state" where
  "MPC_OnPostPreMpDataToTransport tunnel buffer bytes datalen offsize live =
     (if datalen < offsize \<or> length bytes < datalen then State_Monad.return (Inl OutOfBounds)
      else do {
        r \<leftarrow> sys_call (WriteFd tunnel (take (datalen - offsize) (drop offsize bytes)));
        State_Monad.return (if buffer = 0 then Inr (r, live) else bindR (qfree buffer live) (\<lambda>live. Inr (r, live)))
      })"

definition MPC_OnNotifyException :: "sys_env \<Rightarrow> U32 \<Rightarrow> U32 \<Rightarrow> daemon \<Rightarrow> daemon res" where
  "MPC_OnNotifyException env netType exceptionCode d = echoAppException env exceptionCode netType d"

text \<open>The result of the driver is an answer of it; without a driver sending fails, and parsing follows a null pointer.\<close>

definition mp_data_send :: "int \<Rightarrow> int \<Rightarrow> daemon \<Rightarrow> int \<times> daemon" where
  "mp_data_send answer len d = (if mpd_ready d then (answer, out (MpdSend len) d) else (- 1, d))"

definition mp_data_recv_to_transport :: "int \<Rightarrow> int \<Rightarrow> daemon \<Rightarrow> (int \<times> daemon) res" where
  "mp_data_recv_to_transport answer len d = (if mpd_ready d then Inr (answer, out (MpdParse len) d) else Inl NullDeref)"

lemma transport_frees:
  assumes "buffer \<in> live" and "buffer \<noteq> 0" and "offsize \<le> datalen" and "datalen \<le> length bytes"
  shows "\<exists>r. fst (run_state (MPC_OnPostPreMpDataToTransport tunnel buffer bytes datalen offsize live) n) = Inr (r, live - {buffer})"
  using assms by (simp add: MPC_OnPostPreMpDataToTransport_def net_simps qfree_def)

end
