(* ===== verification/VLTE_System.thy ===== *)
theory VLTE_System
  imports C_Strings "HOL-Library.State_Monad"
begin

text \<open>
  What the utilities of the VLTE service share: the static variables of \<^verbatim>\<open>dhcp_utils.c\<close> and
  \<^verbatim>\<open>wifi.c\<close> as one record, and the system around them. A function is a computation of the state monad. Each
  call that leaves the code is recorded, and what comes back is a function of all calls up to and with this
  one, so that a property of the system or a file may change between two calls in any way, also in answer to
  what the code did.
\<close>

named_theorems run_simps "what a call of the system answers and records"

section \<open>Calls and answers of the system\<close>

type_synonym conn = nat

datatype call =
    PropGet string | PropSet string string
  | PropFind string | PropSerial | PropRead
  | Usleep nat | SchedYield
  | LoadFile string | InitModule string string | DeleteModule string
  | ReadText string
  | Access string | Chmod string | Chown string | Unlink string
  | OpenRead string | OpenWrite string | OpenCreate string
  | Read int | Write int string | Close int
  | IfcInit | IfcClose | DoDhcp string | GetDhcpInfo
  | CtrlCleanup | CtrlOpen string | CtrlClose conn | CtrlAttach conn
  | CtrlRequest conn string | CtrlRecv conn nat
  | SocketPair | Poll

datatype errno = EAGAIN | EACCES | ENOENT | OtherErr

text \<open>
  The answers: the returned number, \<^verbatim>\<open>errno\<close> after a failure, the text of a property, a file or a
  message, the handle of a connection (\<open>None\<close> is a null pointer), the pair of sockets, and whether the poll
  found input on its first descriptor. A text that is \<open>None\<close> says that there is none: the file cannot be
  opened, or the buffer stays as it was.
\<close>

record sys =
  sys_ret :: "call list \<Rightarrow> int"
  sys_errno :: "call list \<Rightarrow> errno"
  sys_value :: "call list \<Rightarrow> string"
  sys_text :: "call list \<Rightarrow> string option"
  sys_conn :: "call list \<Rightarrow> conn option"
  sys_pair :: "call list \<Rightarrow> int \<times> int"
  sys_input :: "call list \<Rightarrow> bool"

record vlte =
  sys_env :: sys
  sys_calls :: "call list"
  errmsg :: string
  ctrl_conn :: "conn option"
  monitor_conn :: "conn option"
  exit_sockets :: "int \<times> int"
  primary_iface :: string
  supplicant_name :: string
  supplicant_prop_name :: string

section \<open>Single calls\<close>

definition ask :: "(sys \<Rightarrow> call list \<Rightarrow> 'a) \<Rightarrow> call \<Rightarrow> (vlte, 'a) state" where
  "ask sel c = State (\<lambda>w. let cs = sys_calls w @ [c] in (sel (sys_env w) cs, w\<lparr>sys_calls := cs\<rparr>))"

definition tell :: "call \<Rightarrow> (vlte, unit) state" where
  "tell c = State (\<lambda>w. ((), w\<lparr>sys_calls := sys_calls w @ [c]\<rparr>))"

abbreviation query :: "(vlte \<Rightarrow> 'a) \<Rightarrow> (vlte, 'a) state" where
  "query f \<equiv> State (\<lambda>w. (f w, w))"

abbreviation modify :: "(vlte \<Rightarrow> vlte) \<Rightarrow> (vlte, unit) state" where
  "modify f \<equiv> State (\<lambda>w. ((), f w))"

text \<open>
  \<^verbatim>\<open>property_get (name, value, NULL)\<close>: the value is always terminated, and its length is returned; a
  property that is not set reads as the empty string.
\<close>

definition property_get :: "string \<Rightarrow> (vlte, string) state" where
  "property_get name = ask sys_value (PropGet name)"

definition property_set :: "string \<Rightarrow> string \<Rightarrow> (vlte, unit) state" where
  "property_set name v = tell (PropSet name v)"

lemma run_ask [run_simps]:
  "run_state (ask sel c) w =
     (sel (sys_env w) (sys_calls w @ [c]), w\<lparr>sys_calls := sys_calls w @ [c]\<rparr>)"
  by (simp add: ask_def Let_def)

lemma run_tell [run_simps]: "run_state (tell c) w = ((), w\<lparr>sys_calls := sys_calls w @ [c]\<rparr>)"
  by (simp add: tell_def)

lemma run_property_get [run_simps]:
  "run_state (property_get name) w =
     (sys_value (sys_env w) (sys_calls w @ [PropGet name]), w\<lparr>sys_calls := sys_calls w @ [PropGet name]\<rparr>)"
  by (simp add: property_get_def run_ask)

lemma run_property_set [run_simps]:
  "run_state (property_set name v) w = ((), w\<lparr>sys_calls := sys_calls w @ [PropSet name v]\<rparr>)"
  by (simp add: property_set_def run_tell)

text \<open>\<^verbatim>\<open>property_get (name, value, NULL) && strcmp (value, want) == 0\<close>\<close>

definition property_is :: "string \<Rightarrow> string \<Rightarrow> (vlte, bool) state" where
  "property_is name want = do {
     v \<leftarrow> property_get name;
     State_Monad.return (v \<noteq> [] \<and> v = want)
   }"

lemma run_property_is [run_simps]:
  "run_state (property_is name want) w =
     (sys_value (sys_env w) (sys_calls w @ [PropGet name]) \<noteq> [] \<and>
      sys_value (sys_env w) (sys_calls w @ [PropGet name]) = want,
      w\<lparr>sys_calls := sys_calls w @ [PropGet name]\<rparr>)"
  by (simp add: property_is_def run_property_get)

section \<open>Bounded output\<close>

text \<open>\<^verbatim>\<open>snprintf\<close> into a buffer of \<open>n\<close> bytes: what the buffer holds, and the length of the whole text.\<close>

definition snprintf :: "nat \<Rightarrow> string \<Rightarrow> string" where
  "snprintf n s = take (n - 1) s"

lemma snprintf_fits: "length s < n \<Longrightarrow> snprintf n s = s"
  by (simp add: snprintf_def)

abbreviation PROPERTY_KEY_MAX :: nat where "PROPERTY_KEY_MAX \<equiv> 32"
abbreviation PROPERTY_VALUE_MAX :: nat where "PROPERTY_VALUE_MAX \<equiv> 92"

section \<open>Waiting for a property\<close>

text \<open>
  The loops \<^verbatim>\<open>while (count-- > 0) { if (property_get (...) && strcmp (...) == 0) ...; usleep (us); }\<close> of
  \<^verbatim>\<open>wifi.c\<close> and \<^verbatim>\<open>wifi_fst.c\<close>.
\<close>

fun poll_until :: "nat \<Rightarrow> string \<Rightarrow> (string \<Rightarrow> bool) \<Rightarrow> nat \<Rightarrow> (vlte, bool) state" where
  "poll_until us name good 0 = State_Monad.return False"
| "poll_until us name good (Suc n) = do {
     v \<leftarrow> property_get name;
     if good v then State_Monad.return True
     else do { tell (Usleep us); poll_until us name good n }
   }"

definition poll_property :: "nat \<Rightarrow> string \<Rightarrow> string \<Rightarrow> nat \<Rightarrow> (vlte, bool) state" where
  "poll_property us name want n = poll_until us name (\<lambda>v. v \<noteq> [] \<and> v = want) n"

text \<open>The calls of \<open>k\<close> rounds that did not find the value.\<close>

fun rounds :: "nat \<Rightarrow> string \<Rightarrow> nat \<Rightarrow> call list" where
  "rounds us name 0 = []"
| "rounds us name (Suc k) = PropGet name # Usleep us # rounds us name k"

lemma rounds_snoc: "rounds us name (Suc k) = rounds us name k @ [PropGet name, Usleep us]"
  by (induction k) auto

lemma rounds_naps: "filter (\<lambda>c. c = Usleep us) (rounds us name k) = replicate k (Usleep us)"
  by (induction k) auto

text \<open>The value that round \<open>k\<close> reads.\<close>

definition seen :: "vlte \<Rightarrow> nat \<Rightarrow> string \<Rightarrow> nat \<Rightarrow> string" where
  "seen w us name k = sys_value (sys_env w) (sys_calls w @ rounds us name k @ [PropGet name])"

lemma seen_Suc:
  "seen w us name (Suc k) = seen (w\<lparr>sys_calls := sys_calls w @ [PropGet name, Usleep us]\<rparr>) us name k"
  by (simp add: seen_def)

text \<open>
  A bounded wait: it ends with the first round that sees the value, having slept once for each round before;
  without such a round it has slept as often as it may.
\<close>

lemma poll_until_result:
  "run_state (poll_until us name good n) w =
     (if \<exists>k<n. good (seen w us name k)
      then (True, w\<lparr>sys_calls := sys_calls w @ rounds us name (LEAST k. good (seen w us name k)) @ [PropGet name]\<rparr>)
      else (False, w\<lparr>sys_calls := sys_calls w @ rounds us name n\<rparr>))"
proof (induction n arbitrary: w)
  case (Suc n)
  have now: "seen w us name 0 = sys_value (sys_env w) (sys_calls w @ [PropGet name])" by (simp add: seen_def)
  show ?case
  proof (cases "good (seen w us name 0)")
    case True
    then have "(LEAST k. good (seen w us name k)) = 0" by (simp add: Least_eq_0)
    then show ?thesis using True now by (auto simp: run_simps)
  next
    case False
    let ?w = "w\<lparr>sys_calls := sys_calls w @ [PropGet name, Usleep us]\<rparr>"
    have later: "seen ?w us name k = seen w us name (Suc k)" for k by (simp add: seen_Suc)
    have ex: "(\<exists>k<Suc n. good (seen w us name k)) \<longleftrightarrow> (\<exists>k<n. good (seen ?w us name k))"
      using False unfolding later by (metis Suc_less_eq not0_implies_Suc)
    have step: "run_state (poll_until us name good (Suc n)) w = run_state (poll_until us name good n) ?w"
      using False now by (simp add: run_simps)
    show ?thesis
    proof (cases "\<exists>k<n. good (seen ?w us name k)")
      case True
      then obtain k where k: "good (seen w us name (Suc k))" unfolding later by blast
      have "(LEAST k. good (seen w us name k)) = Suc (LEAST k. good (seen ?w us name k))"
        unfolding later using k False by (intro Least_Suc) auto
      then show ?thesis unfolding step Suc.IH using True ex by simp
    next
      case none: False
      then show ?thesis unfolding step Suc.IH ex if_not_P[OF none] by simp
    qed
  qed
qed simp

lemma poll_property_result:
  "want \<noteq> [] \<Longrightarrow> run_state (poll_property us name want n) w =
     (if \<exists>k<n. seen w us name k = want
      then (True, w\<lparr>sys_calls := sys_calls w @ rounds us name (LEAST k. seen w us name k = want) @ [PropGet name]\<rparr>)
      else (False, w\<lparr>sys_calls := sys_calls w @ rounds us name n\<rparr>))"
proof -
  assume "want \<noteq> []"
  then have eq: "(\<lambda>v. v \<noteq> [] \<and> v = want) = (\<lambda>v. v = want)" by auto
  show ?thesis by (simp only: poll_property_def eq poll_until_result)
qed

end
