(* ===== verification/VLTE_Dhcp.thy ===== *)
theory VLTE_Dhcp
  imports VLTE_System
begin

text \<open>
  The DHCP utilities (\<^verbatim>\<open>utils/dhcp_utils.c\<close>): they start and stop the DHCP client through system
  properties, wait for its status, and read the configuration it leaves in the properties of an interface.
  The addresses that the caller passes as buffers are the fields of the record \<^verbatim>\<open>dhcp_info\<close>.
\<close>

section \<open>Names of interfaces\<close>

abbreviation MAX_INTERFACE_LENGTH :: nat where "MAX_INTERFACE_LENGTH \<equiv> 25"

text \<open>\<^verbatim>\<open>strncpy (dst, src, n)\<close>: padded with NUL, and not terminated when the source is long enough.\<close>

abbreviation NUL0 :: char where "NUL0 \<equiv> CHR 0x00"

definition strncpy :: "nat \<Rightarrow> string \<Rightarrow> string" where
  "strncpy n s = take n s @ replicate (n - length s) NUL0"

text \<open>Reading an array as a string runs behind its end when there is no NUL in it.\<close>

definition array_string :: "string \<Rightarrow> string res" where
  "array_string b = (if NUL0 \<in> set b then Inr (takeWhile (\<lambda>c. c \<noteq> NUL0) b) else Inl OutOfBounds)"

definition get_p2p_interface_replacement :: "string \<Rightarrow> string" where
  "get_p2p_interface_replacement interface =
     (if take 3 interface = ''p2p'' then strncpy MAX_INTERFACE_LENGTH ''p2p''
      else strncpy MAX_INTERFACE_LENGTH interface)"

abbreviation p2p_name :: "string \<Rightarrow> string res" where
  "p2p_name interface \<equiv> array_string (get_p2p_interface_replacement interface)"

text \<open>The name of a property of an interface, in an array of \<^verbatim>\<open>PROPERTY_KEY_MAX\<close> bytes.\<close>

definition dhcp_prop :: "string \<Rightarrow> string \<Rightarrow> string" where
  "dhcp_prop p2p field = snprintf PROPERTY_KEY_MAX (''dhcp.'' @ p2p @ ''.'' @ field)"

section \<open>Waiting\<close>

text \<open>
  \<^verbatim>\<open>wait_for_property\<close>: the loop runs with \<^verbatim>\<open>maxnaps\<close> from the number of naps down to 0 and sleeps
  after each round but the last. Its argument here is the number of rounds left.
\<close>

abbreviation NAP_TIME :: nat where "NAP_TIME \<equiv> 200"

definition desired :: "string option \<Rightarrow> string \<Rightarrow> bool" where
  "desired d v \<longleftrightarrow> v \<noteq> [] \<and> (case d of None \<Rightarrow> True | Some x \<Rightarrow> v = x)"

fun wait_loop :: "string \<Rightarrow> string option \<Rightarrow> nat \<Rightarrow> (vlte, int) state" where
  "wait_loop name d 0 = State_Monad.return (- 1)"
| "wait_loop name d (Suc m) = do {
     v \<leftarrow> property_get name;
     if desired d v then State_Monad.return 0
     else do {
       (if 0 < m then tell (Usleep (NAP_TIME * 1000)) else State_Monad.return ());
       wait_loop name d m
     }
   }"

definition wait_for_property :: "string \<Rightarrow> string option \<Rightarrow> nat \<Rightarrow> (vlte, int) state" where
  "wait_for_property name d maxwait = wait_loop name d (Suc (max 1 (maxwait * 1000 div NAP_TIME)))"

section \<open>The address configuration\<close>

record dhcp_info =
  ipaddr :: string
  gateway :: string
  prefixLength :: U32
  dns :: "string list"
  dhcp_server :: string
  lease :: U32
  vendorInfo :: string
  dhcp_domain :: string
  mtu :: string

text \<open>
  \<^verbatim>\<open>inet_addr\<close> with the result in the order of the host: up to four numbers separated by dots, each decimal, octal or
  hexadecimal, the last of which fills the bytes that are left.
\<close>

abbreviation INADDR_NONE :: U32 where "INADDR_NONE \<equiv> 0xFFFFFFFF"

definition c_number :: "string \<Rightarrow> (nat \<times> string) option" where
  "c_number s =
     (if \<not> starts_digit 10 s then None
      else if (prefix ''0x'' s \<or> prefix ''0X'' s) \<and> starts_digit 16 (drop 2 s) then Some (scan_digits 16 0 (drop 2 s))
      else if prefix ''0'' s then Some (scan_digits 8 0 s)
      else Some (scan_digits 10 0 s))"

fun inet_parts :: "nat \<Rightarrow> string \<Rightarrow> nat list option" where
  "inet_parts 0 s = None"
| "inet_parts (Suc k) s =
     (case c_number s of None \<Rightarrow> None
      | Some (n, []) \<Rightarrow> Some [n]
      | Some (n, c # cs) \<Rightarrow> if c = CHR ''.'' then map_option ((#) n) (inet_parts k cs) else None)"

definition inet_addr :: "string \<Rightarrow> U32" where
  "inet_addr s =
     (case inet_parts 4 s of
        Some ns \<Rightarrow>
          (if (\<forall>n\<in>set (butlast ns). n < 256) \<and> last ns < 256 ^ (5 - length ns)
           then word_of_nat (foldl (\<lambda>a n. a * 256 + n) 0 (butlast ns) * 256 ^ (5 - length ns) + last ns)
           else INADDR_NONE)
      | None \<Rightarrow> INADDR_NONE)"

text \<open>The loop that shifts the mask to the left until it is zero: the number of shifts, unless a zero comes before a one.\<close>

function mask_loop :: "nat \<Rightarrow> U32 \<Rightarrow> nat option" where
  "mask_loop p m =
     (if p < 32
      then if m = 0 then Some p
           else if m AND 0x80000000 = 0 then None
           else mask_loop (Suc p) (push_bit 1 m)
      else Some p)"
  by auto
termination by (relation "measure (\<lambda>(p, _). 32 - p)") auto

declare mask_loop.simps [simp del]

text \<open>What a mask property says about the length of the prefix.\<close>

definition mask_prefix :: "string \<Rightarrow> nat option" where
  "mask_prefix v =
     (let m = inet_addr v
      in if m = INADDR_NONE \<and> v \<noteq> ''255.255.255.255'' then None else mask_loop 0 m)"

definition set_errmsg :: "string \<Rightarrow> (vlte, unit) state" where
  "set_errmsg s = modify (\<lambda>w. w\<lparr>errmsg := snprintf 100 s\<rparr>)"

text \<open>\<^verbatim>\<open>atol\<close>, with the \<^verbatim>\<open>long\<close> of a 64-bit build.\<close>

definition atol :: "string \<Rightarrow> int" where
  "atol s = (case strtol 10 s of None \<Rightarrow> 0 | Some (n, _) \<Rightarrow> clamp 64 n)"

fun fill_dns :: "string \<Rightarrow> nat \<Rightarrow> nat \<Rightarrow> (vlte, string list) state" where
  "fill_dns p2p x 0 = State_Monad.return []"
| "fill_dns p2p x (Suc n) = do {
     v \<leftarrow> property_get (dhcp_prop p2p (''dns'' @ show_nat (x + 1)));
     vs \<leftarrow> fill_dns p2p (x + 1) n;
     State_Monad.return (v # vs)
   }"

text \<open>The fields after the mask: name servers, lease time, vendor, domain and size of a packet.\<close>

definition fill_rest :: "string \<Rightarrow> dhcp_info \<Rightarrow> (vlte, dhcp_info) state" where
  "fill_rest p2p i = do {
     ds \<leftarrow> fill_dns p2p 0 (length (dns i));
     l \<leftarrow> property_get (dhcp_prop p2p ''leasetime'');
     v \<leftarrow> property_get (dhcp_prop p2p ''vendorInfo'');
     d \<leftarrow> property_get (dhcp_prop p2p ''domain'');
     m \<leftarrow> property_get (dhcp_prop p2p ''mtu'');
     State_Monad.return (i\<lparr>dns := ds, lease := (if l \<noteq> [] then word_of_int (atol l) else lease i),
       vendorInfo := v, dhcp_domain := d, mtu := m\<rparr>)
   }"

definition fill_ip_info :: "string \<Rightarrow> dhcp_info \<Rightarrow> (vlte, (int \<times> dhcp_info) res) state" where
  "fill_ip_info interface i =
     (case p2p_name interface of Inl e \<Rightarrow> State_Monad.return (Inl e)
      | Inr p2p \<Rightarrow> do {
          ip \<leftarrow> property_get (dhcp_prop p2p ''ipaddress'');
          g \<leftarrow> property_get (dhcp_prop p2p ''gateway'');
          s \<leftarrow> property_get (dhcp_prop p2p ''server'');
          let g = (if g = [] \<or> prefix ''0.0.0.0'' g then takeWhile (\<lambda>c. c \<noteq> NUL0) (strncpy PROPERTY_VALUE_MAX s) else g);
          let i = i\<lparr>ipaddr := ip, gateway := g, dhcp_server := s\<rparr>;
          m \<leftarrow> property_get (dhcp_prop p2p ''mask'');
          if m \<noteq> []
          then (case mask_prefix m of
                  None \<Rightarrow> do {
                    set_errmsg (''DHCP gave invalid net mask '' @ m);
                    State_Monad.return (Inr (- 1, i))
                  }
                | Some p \<Rightarrow> do {
                    i \<leftarrow> fill_rest p2p (i\<lparr>prefixLength := word_of_nat p\<rparr>);
                    State_Monad.return (Inr (0, i))
                  })
          else do {
            i \<leftarrow> fill_rest p2p i;
            State_Monad.return (Inr (0, i))
          }
        })"

definition dhcp_get_results :: "string \<Rightarrow> dhcp_info \<Rightarrow> (vlte, (int \<times> dhcp_info) res) state" where
  "dhcp_get_results interface i =
     (case p2p_name interface of Inl e \<Rightarrow> State_Monad.return (Inl e)
      | Inr p2p \<Rightarrow> do {
          r \<leftarrow> property_get (dhcp_prop p2p ''result'');
          if r = [] then do {
            set_errmsg ''DHCP result property was not set'';
            State_Monad.return (Inr (- 1, i))
          }
          else if r = ''ok'' then fill_ip_info interface i
          else do {
            set_errmsg (''DHCP result was '' @ r);
            State_Monad.return (Inr (- 1, i))
          }
        })"

section \<open>The DHCP client\<close>

definition dhcp_start :: "(vlte, int) state" where
  "dhcp_start = do {
     property_set ''ctl.start'' ''dhcpcd_rmnet'';
     r \<leftarrow> wait_for_property ''init.svc.dhcpcd_rmnet'' (Some ''stopped'') 10;
     if r < 0 then State_Monad.return (- 1)
     else do {
       wait_for_property ''dhcp.rmnet_data9.result'' None 30;
       ip \<leftarrow> property_get ''dhcp.rmnet_data9.ipaddress'';
       State_Monad.return (if length ip < 1 then - 1 else 0)
     }
   }"

text \<open>The property that reports the state of the client, and the name of its service.\<close>

definition daemon_prop :: "string \<Rightarrow> string" where
  "daemon_prop p2p = snprintf PROPERTY_KEY_MAX (''init.svc.dhcpcd_'' @ p2p)"

definition daemon_cmd :: "string \<Rightarrow> string" where
  "daemon_cmd p2p = snprintf (PROPERTY_VALUE_MAX * 2) (''dhcpcd_'' @ p2p)"

definition dhcp_release_lease :: "string \<Rightarrow> (vlte, int res) state" where
  "dhcp_release_lease interface =
     (case p2p_name interface of Inl e \<Rightarrow> State_Monad.return (Inl e)
      | Inr p2p \<Rightarrow> do {
          property_set ''ctl.stop'' (daemon_cmd p2p);
          r \<leftarrow> wait_for_property (daemon_prop p2p) (Some ''stopped'') 5;
          State_Monad.return (Inr (if r < 0 then - 1 else 0))
        })"

definition dhcp_stop :: "string \<Rightarrow> (vlte, int res) state" where
  "dhcp_stop interface =
     (case p2p_name interface of Inl e \<Rightarrow> State_Monad.return (Inl e)
      | Inr p2p \<Rightarrow> do {
          property_set ''ctl.stop'' (daemon_cmd p2p);
          r \<leftarrow> wait_for_property (daemon_prop p2p) (Some ''stopped'') 5;
          if r < 0 then State_Monad.return (Inr (- 1))
          else do {
            property_set (dhcp_prop p2p ''result'') ''failed'';
            State_Monad.return (Inr 0)
          }
        })"

definition dhcp_start_renew :: "string \<Rightarrow> (vlte, int res) state" where
  "dhcp_start_renew interface =
     (case p2p_name interface of Inl e \<Rightarrow> State_Monad.return (Inl e)
      | Inr p2p \<Rightarrow> do {
          property_set (dhcp_prop p2p ''result'') [];
          property_set ''ctl.start'' (snprintf (PROPERTY_VALUE_MAX * 2) (''iprenew_'' @ p2p @ '':'' @ interface));
          r \<leftarrow> wait_for_property (dhcp_prop p2p ''result'') None 30;
          if r < 0 then do {
            set_errmsg ''Timed out waiting for DHCP Renew to finish'';
            State_Monad.return (Inr (- 1))
          }
          else State_Monad.return (Inr 0)
        })"

end
