(* ===== verification/VLTE_Network.thy ===== *)
theory VLTE_Network
  imports VLTE_Dhcp
begin

text \<open>
  What the DHCP utilities do: the bounded wait, the names of the properties, the length of a prefix from a
  dotted mask, and the configuration that is reported from the properties of an interface.
\<close>

section \<open>Waiting\<close>

lemma wait_loop_until:
  "run_state (wait_loop name d (Suc m)) w =
     (case run_state (poll_until (NAP_TIME * 1000) name (desired d) m) w of
        (True, w') \<Rightarrow> (0, w')
      | (False, w') \<Rightarrow>
          (if desired d (sys_value (sys_env w') (sys_calls w' @ [PropGet name])) then 0 else - 1,
           w'\<lparr>sys_calls := sys_calls w' @ [PropGet name]\<rparr>))"
proof (induction m arbitrary: w)
  case (Suc m)
  then show ?case
    by (simp add: run_simps del: wait_loop.simps(2) add: wait_loop.simps(2)[of _ _ "Suc m"])
qed (simp add: run_simps)

text \<open>The number of naps that a wait of some seconds takes.\<close>

definition naps :: "nat \<Rightarrow> nat" where
  "naps maxwait = max 1 (maxwait * 5)"

lemma wait_for_property_result:
  "run_state (wait_for_property name d maxwait) w =
     (let us = NAP_TIME * 1000; sees = (\<lambda>k. desired d (seen w us name k)) in
      if \<exists>k\<le>naps maxwait. sees k
      then (0, w\<lparr>sys_calls := sys_calls w @ rounds us name (LEAST k. sees k) @ [PropGet name]\<rparr>)
      else (- 1, w\<lparr>sys_calls := sys_calls w @ rounds us name (naps maxwait) @ [PropGet name]\<rparr>))"
proof -
  let ?us = "NAP_TIME * 1000" and ?N = "naps maxwait"
  let ?sees = "\<lambda>k. desired d (seen w ?us name k)"
  have w: "wait_for_property name d maxwait = wait_loop name d (Suc ?N)"
    by (simp add: wait_for_property_def naps_def mult.commute)
  show ?thesis
  proof (cases "\<exists>k<?N. ?sees k")
    case True
    then have "\<exists>k\<le>?N. ?sees k" by (meson less_imp_le)
    then show ?thesis using True unfolding w wait_loop_until poll_until_result by simp
  next
    case False
    then have last: "(\<exists>k\<le>?N. ?sees k) \<longleftrightarrow> ?sees ?N" by (metis le_neq_implies_less order_refl)
    have least: "?sees ?N \<Longrightarrow> (LEAST k. ?sees k) = ?N"
      using False by (intro Least_equality) (auto simp: not_less[symmetric])
    have "sys_value (sys_env w) ((sys_calls w @ rounds ?us name ?N) @ [PropGet name]) = seen w ?us name ?N"
      by (simp add: seen_def)
    then show ?thesis
      unfolding w wait_loop_until poll_until_result if_not_P[OF False] Let_def last using least by simp
  qed
qed

section \<open>Names\<close>

lemma takeWhile_NUL: "NUL0 \<notin> set s \<Longrightarrow> takeWhile (\<lambda>c. c \<noteq> NUL0) (s @ NUL0 # t) = s"
  by (induction s) auto

lemma strncpy_string:
  "NUL0 \<notin> set s \<Longrightarrow> array_string (strncpy n s) = (if length s < n then Inr s else Inl OutOfBounds)"
proof (cases "length s < n")
  case True
  assume s: "NUL0 \<notin> set s"
  have "replicate (n - length s) NUL0 = NUL0 # replicate (n - length s - 1) NUL0"
    using True by (metis Suc_pred' replicate_Suc zero_less_diff)
  then show ?thesis using True s takeWhile_NUL[OF s] by (simp add: array_string_def strncpy_def)
next
  case False
  assume "NUL0 \<notin> set s"
  then show ?thesis using False by (auto simp: array_string_def strncpy_def dest: in_set_takeD)
qed

lemma take_prefix: "take (length p) s = p \<longleftrightarrow> prefix p s"
  by (metis append_eq_conv_conj append_take_drop_id prefix_def)

lemma p2p_name_result:
  "NUL0 \<notin> set interface \<Longrightarrow> p2p_name interface =
     (if prefix ''p2p'' interface then Inr ''p2p''
      else if length interface < MAX_INTERFACE_LENGTH then Inr interface else Inl OutOfBounds)"
proof -
  assume "NUL0 \<notin> set interface"
  moreover have "prefix ''p2p'' interface \<longleftrightarrow> take 3 interface = ''p2p''"
    using take_prefix[of "''p2p''" interface] by (simp add: eval_nat_numeral)
  moreover have "array_string (strncpy 25 ''p2p'') = Inr ''p2p''" by (subst strncpy_string) auto
  ultimately show ?thesis by (simp add: get_p2p_interface_replacement_def strncpy_string)
qed

text \<open>The fields of the configuration fit behind every name of an interface that the kernel allows.\<close>

lemma dhcp_prop_full: "length p2p \<le> 15 \<Longrightarrow> length field \<le> 10 \<Longrightarrow> dhcp_prop p2p field = ''dhcp.'' @ p2p @ ''.'' @ field"
  by (simp add: dhcp_prop_def snprintf_fits)

section \<open>Masks\<close>

text \<open>The mask of a prefix: its bits from the top.\<close>

definition netmask :: "nat \<Rightarrow> U32" where
  "netmask p = push_bit (32 - p) (- 1)"

lemma bit_netmask: "bit (netmask p) i \<longleftrightarrow> 32 - p \<le> i \<and> i < 32"
  by (auto simp: netmask_def bit_simps)

lemma netmask_0: "netmask 0 = 0"
  by (rule bit_word_eqI) (auto simp: bit_netmask)

lemma netmask_eq_0: "k \<le> 32 \<Longrightarrow> netmask k = 0 \<longleftrightarrow> k = 0"
  using bit_netmask[of k 31] netmask_0 by (cases "k = 0") auto

lemma top_bit: "(m::U32) AND 0x80000000 = 0 \<longleftrightarrow> \<not> bit m 31"
proof -
  have "(0x80000000::U32) = push_bit 31 1" by simp
  then show ?thesis using bit_iff_and_push_bit_not_eq_0[of m 31] by simp
qed

lemma mask_loop_result:
  "p \<le> 32 \<Longrightarrow> (\<forall>i<p. \<not> bit m i) \<Longrightarrow>
   mask_loop p m = Some q \<longleftrightarrow> p \<le> q \<and> q \<le> 32 \<and> m = netmask (q - p)"
proof (induction p m rule: mask_loop.induct)
  case (1 p m)
  show ?case
  proof (cases "p < 32 \<and> m \<noteq> 0")
    case False
    have "m = 0" if "p = 32" using 1(3) that by (intro bit_word_eqI) simp
    then have m: "m = 0" using False 1(2) by auto
    have "netmask (q - p) = 0 \<longleftrightarrow> q \<le> p" if "q \<le> 32" using netmask_eq_0[of "q - p"] that by simp
    then show ?thesis using m 1(2) by (auto simp: mask_loop.simps)
  next
    case True
    show ?thesis
    proof (cases "bit m 31")
      case False
      then have "m \<noteq> netmask (q - p)" if "q \<le> 32" using that True netmask_0 bit_netmask[of "q - p" 31]
        by (cases "q \<le> p") auto
      then show ?thesis using True False by (subst mask_loop.simps) (auto simp: top_bit)
    next
      case set: True
      define s where "s = push_bit 1 m"
      have sh: "bit s i \<longleftrightarrow> 0 < i \<and> i < 32 \<and> bit m (i - 1)" for i
        unfolding s_def by (subst bit_push_bit_iff) auto
      have low: "\<forall>i<Suc p. \<not> bit s i" using 1(3) by (auto simp: sh)
      have shift: "s = netmask (q - Suc p) \<longleftrightarrow> m = netmask (q - p)" if q: "Suc p \<le> q" "q \<le> 32"
      proof
        assume eq: "s = netmask (q - Suc p)"
        show "m = netmask (q - p)"
        proof (rule bit_word_eqI)
          fix i assume i: "i < LENGTH(32)"
          show "bit m i = bit (netmask (q - p)) i"
          proof (cases "i = 31")
            case True
            then show ?thesis using set q by (simp add: bit_netmask)
          next
            case False
            then have "bit m i = bit s (Suc i)" using i by (simp add: sh)
            then show ?thesis using False i q unfolding eq by (auto simp: bit_netmask)
          qed
        qed
      next
        assume "m = netmask (q - p)"
        then show "s = netmask (q - Suc p)"
          using q by (intro bit_word_eqI) (auto simp: sh bit_netmask)
      qed
      have qp: "m \<noteq> netmask (q - p)" if "q \<le> p" using that True netmask_0 by simp
      have "mask_loop p m = mask_loop (Suc p) s"
        using True set by (subst mask_loop.simps) (simp add: top_bit s_def)
      moreover have "mask_loop (Suc p) s = Some q \<longleftrightarrow> Suc p \<le> q \<and> q \<le> 32 \<and> s = netmask (q - Suc p)"
        using 1(1)[folded s_def, OF _ _ _ _ low] True set by (simp add: top_bit)
      moreover have "p \<le> q \<and> m = netmask (q - p) \<longleftrightarrow> Suc p \<le> q \<and> m = netmask (q - p)"
        using qp by (metis Suc_leD not_less_eq_eq)
      ultimately show ?thesis using shift by auto
    qed
  qed
qed

text \<open>An address in dotted decimal form.\<close>

definition byte_of :: "nat \<Rightarrow> U32 \<Rightarrow> nat" where
  "byte_of k m = unat m div 256 ^ k mod 256"

definition show_quad :: "U32 \<Rightarrow> string" where
  "show_quad m = show_nat (byte_of 3 m) @ ''.'' @ show_nat (byte_of 2 m) @ ''.'' @
     show_nat (byte_of 1 m) @ ''.'' @ show_nat (byte_of 0 m)"

lemma show_nat_hd: "0 < n \<Longrightarrow> hd (show_nat n) \<noteq> CHR ''0''"
proof (induction n rule: show_nat.induct)
  case (1 n)
  show ?case
  proof (cases "n < 10")
    case True
    then have "show_nat n = [digit_char n]" by (simp add: show_nat.simps[of n])
    then show ?thesis using True 1(2) by (simp add: digit_char_def char_of_eq_iff take_bit_nat_eq_self)
  next
    case False
    then show ?thesis using 1 by (subst show_nat.simps) simp
  qed
qed

lemma c_number_show:
  assumes "rest = [] \<or> hd rest = CHR ''.''"
  shows "c_number (show_nat n @ rest) = Some (n, rest)"
proof -
  have stop: "\<not> starts_digit b rest" if "b \<le> 16" for b
    using assms that by (cases rest) (auto simp: starts_digit_def digit_val_def isdigit_def)
  have start: "starts_digit 10 (show_nat n @ rest)"
    using show_nat_Cons[of n] by (auto simp: starts_digit_def digit_char_val)
  show ?thesis
  proof (cases "n = 0")
    case True
    have s0: "show_nat 0 = ''0''" by (simp add: show_nat.simps digit_char_def char_of_eq_iff)
    have "\<not> prefix ''0x'' (''0'' @ rest)" "\<not> prefix ''0X'' (''0'' @ rest)" using assms by (cases rest; auto)+
    moreover have "scan_digits 8 0 (''0'' @ rest) = (0, rest)"
      using scan_stop[OF stop[of 8], of 0] by (simp add: digit_val_def isdigit_def)
    ultimately show ?thesis using start True by (simp add: c_number_def s0)
  next
    case False
    then have "\<not> prefix (CHR ''0'' # t) (show_nat n @ rest)" for t
      using show_nat_hd[of n] by (cases "show_nat n") auto
    then show ?thesis using start scan_show_nat[OF stop[of 10], of n] by (simp add: c_number_def)
  qed
qed

lemma quad_value: "(byte_of 3 m * 256 + byte_of 2 m) * 256 + byte_of 1 m = unat m div 256"
proof -
  have "unat m < 256 * (256 * (256 * 256))" using unsigned_less[of m] by simp
  then have "unat m div 256 div 256 div 256 < 256" by (simp only: less_mult_imp_div_less div_mult2_eq[symmetric] mult.commute)
  then have "byte_of 3 m = unat m div 256 div 256 div 256"
    "byte_of 2 m = unat m div 256 div 256 mod 256" "byte_of 1 m = unat m div 256 mod 256"
    unfolding byte_of_def by (simp_all only: power3_eq_cube power2_eq_square power_one_right div_mult2_eq mod_less)
  then show ?thesis by (simp only: div_mult_mod_eq)
qed

lemma inet_parts_quad: "inet_parts 4 (show_quad m) = Some [byte_of 3 m, byte_of 2 m, byte_of 1 m, byte_of 0 m]"
  by (simp add: show_quad_def eval_nat_numeral c_number_show c_number_show[of "[]", simplified])

lemma inet_addr_quad: "inet_addr (show_quad m) = m"
proof -
  have less: "byte_of k m < 256" for k by (simp add: byte_of_def)
  have "unat m div 256 * 256 + byte_of 0 m = unat m" by (simp add: byte_of_def)
  then show ?thesis
    using less quad_value[of m] by (simp add: inet_addr_def inet_parts_quad)
qed

lemma mask_prefix_quad: "mask_prefix (show_quad m) = Some q \<longleftrightarrow> q \<le> 32 \<and> m = netmask q"
proof -
  have ones: "m = INADDR_NONE \<Longrightarrow> show_quad m = ''255.255.255.255''"
    by (simp add: show_quad_def byte_of_def show_nat.simps digit_char_def char_of_eq_iff)
  have "mask_prefix (show_quad m) = mask_loop 0 m"
    unfolding mask_prefix_def Let_def inet_addr_quad using ones by (intro if_not_P) auto
  then show ?thesis using mask_loop_result[of 0 m q] by simp
qed

section \<open>The configuration of an interface\<close>

text \<open>The properties as long as nothing changes them, and those of an interface.\<close>

definition unchanging :: "vlte \<Rightarrow> (string \<Rightarrow> string) \<Rightarrow> bool" where
  "unchanging w props \<longleftrightarrow> (\<forall>cs name. sys_value (sys_env w) (cs @ [PropGet name]) = props name)"

lemma unchanging_calls [simp]: "unchanging (w\<lparr>sys_calls := cs\<rparr>) props \<longleftrightarrow> unchanging w props"
  by (simp add: unchanging_def)

lemma unchanging_get:
  "unchanging w props \<Longrightarrow>
   run_state (property_get name) w = (props name, w\<lparr>sys_calls := sys_calls w @ [PropGet name]\<rparr>)"
  by (simp add: unchanging_def run_simps)

definition iface_props :: "(string \<Rightarrow> string) \<Rightarrow> string \<Rightarrow> string \<Rightarrow> string" where
  "iface_props props ifc field = props (''dhcp.'' @ ifc @ ''.'' @ field)"

lemma unchanging_iface:
  "unchanging w props \<Longrightarrow> length ifc \<le> 15 \<Longrightarrow> length field \<le> 10 \<Longrightarrow>
   \<exists>w'. run_state (property_get (dhcp_prop ifc field)) w = (iface_props props ifc field, w') \<and>
        unchanging w' props \<and> errmsg w' = errmsg w"
  by (simp add: unchanging_get dhcp_prop_full iface_props_def)

text \<open>One read of the configuration: its value, and a state in which the properties and the message are as before.\<close>

definition reads :: "(vlte, 'a) state \<Rightarrow> (string \<Rightarrow> string) \<Rightarrow> 'a \<Rightarrow> bool" where
  "reads m props v \<longleftrightarrow>
     (\<forall>w. unchanging w props \<longrightarrow> fst (run_state m w) = v \<and> unchanging (snd (run_state m w)) props \<and>
          errmsg (snd (run_state m w)) = errmsg w)"

lemma reads_get: "length ifc \<le> 15 \<Longrightarrow> length field \<le> 10 \<Longrightarrow>
  reads (property_get (dhcp_prop ifc field)) props (iface_props props ifc field)"
  unfolding reads_def using unchanging_iface by fastforce

lemma reads_return: "reads (State_Monad.return v) props v"
  by (simp add: reads_def)

lemma reads_bind: "reads m props v \<Longrightarrow> reads (f v) props u \<Longrightarrow> reads (State_Monad.bind m f) props u"
  by (auto simp: reads_def split: prod.splits)

lemma reads_run: "reads m props v \<Longrightarrow> unchanging w props \<Longrightarrow>
  \<exists>w'. run_state m w = (v, w') \<and> unchanging w' props \<and> errmsg w' = errmsg w"
  by (cases "run_state m w") (force simp: reads_def)

definition dns_props :: "(string \<Rightarrow> string) \<Rightarrow> string \<Rightarrow> nat \<Rightarrow> string list" where
  "dns_props props ifc n = map (\<lambda>k. iface_props props ifc (''dns'' @ show_nat (k + 1))) [0..<n]"

lemma reads_dns: "length ifc \<le> 15 \<Longrightarrow> x + n < 1000 \<Longrightarrow>
  reads (fill_dns ifc x n) props (map (\<lambda>k. iface_props props ifc (''dns'' @ show_nat (k + 1))) [x..<x + n])"
proof (induction n arbitrary: x)
  case (Suc n)
  have "length (show_nat (x + 1)) \<le> 4" by (rule length_show_nat) (use Suc.prems(2) in auto)
  then have "length (''dns'' @ show_nat (x + 1)) \<le> 10" by simp
  note get = reads_get[OF Suc.prems(1) this]
  have "reads (fill_dns ifc (x + 1) n) props (map (\<lambda>k. iface_props props ifc (''dns'' @ show_nat (k + 1))) [x + 1..<x + 1 + n])"
    by (rule Suc.IH[OF Suc.prems(1)]) (use Suc.prems(2) in simp)
  note ih = this
  have "[x..<x + Suc n] = x # [x + 1..<x + 1 + n]" by (simp add: upt_conv_Cons)
  then show ?case
    unfolding fill_dns.simps(2) list.map by (simp only: list.map) (rule reads_bind[OF get reads_bind[OF ih reads_return]])
qed (simp add: reads_return)

text \<open>What the code reports behind the mask.\<close>

definition reported :: "(string \<Rightarrow> string) \<Rightarrow> string \<Rightarrow> dhcp_info \<Rightarrow> dhcp_info" where
  "reported props ifc i =
     i\<lparr>dns := dns_props props ifc (length (dns i)),
       lease := (if iface_props props ifc ''leasetime'' \<noteq> [] then word_of_int (atol (iface_props props ifc ''leasetime''))
                 else lease i),
       vendorInfo := iface_props props ifc ''vendorInfo'',
       dhcp_domain := iface_props props ifc ''domain'',
       mtu := iface_props props ifc ''mtu''\<rparr>"

lemma reads_rest: "length ifc \<le> 15 \<Longrightarrow> length (dns i) < 1000 \<Longrightarrow> reads (fill_rest ifc i) props (reported props ifc i)"
  unfolding fill_rest_def
  by (intro reads_bind[OF reads_dns] reads_bind[OF reads_get])
     (auto simp: reported_def dns_props_def intro: reads_return)

text \<open>The part before the mask.\<close>

definition addressed :: "(string \<Rightarrow> string) \<Rightarrow> string \<Rightarrow> dhcp_info \<Rightarrow> dhcp_info" where
  "addressed props ifc i =
     (let g = iface_props props ifc ''gateway''; s = iface_props props ifc ''server''
      in i\<lparr>ipaddr := iface_props props ifc ''ipaddress'',
           gateway := (if g = [] \<or> prefix ''0.0.0.0'' g then s else g), dhcp_server := s\<rparr>)"

lemma strncpy_short: "NUL0 \<notin> set s \<Longrightarrow> length s < n \<Longrightarrow> takeWhile (\<lambda>c. c \<noteq> NUL0) (strncpy n s) = s"
  using strncpy_string[of s n] by (auto simp: array_string_def split: if_splits)


text \<open>
  An interface whose properties stay as they are, as the DHCP client leaves them: its name has at most 15
  characters, the limit of the kernel, and the server's address fits into its property.
\<close>

definition configured :: "vlte \<Rightarrow> (string \<Rightarrow> string) \<Rightarrow> string \<Rightarrow> bool" where
  "configured w props ifc \<longleftrightarrow>
     unchanging w props \<and> NUL0 \<notin> set ifc \<and> length ifc \<le> 15 \<and> \<not> prefix ''p2p'' ifc \<and>
     NUL0 \<notin> set (iface_props props ifc ''server'') \<and> length (iface_props props ifc ''server'') < PROPERTY_VALUE_MAX"

lemma fill_ip_info_result:
  assumes c: "configured w props ifc" and n: "length (dns i) < 1000"
  defines "m \<equiv> iface_props props ifc ''mask''"
  obtains w' where "unchanging w' props" and "errmsg w' = errmsg w"
    and "m = [] \<Longrightarrow> fst (run_state (fill_ip_info ifc i) w) = Inr (0, reported props ifc (addressed props ifc i))"
    and "m \<noteq> [] \<Longrightarrow> mask_prefix m = Some q \<Longrightarrow> fst (run_state (fill_ip_info ifc i) w) =
           Inr (0, reported props ifc ((addressed props ifc i)\<lparr>prefixLength := word_of_nat q\<rparr>))"
    and "m \<noteq> [] \<Longrightarrow> mask_prefix m = None \<Longrightarrow> run_state (fill_ip_info ifc i) w =
           (Inr (- 1, addressed props ifc i), w'\<lparr>errmsg := snprintf 100 (''DHCP gave invalid net mask '' @ m)\<rparr>)"
proof -
  have st: "unchanging w props" and l: "length ifc \<le> 15" and nm: "p2p_name ifc = Inr ifc"
    using c by (auto simp: configured_def p2p_name_result)
  have get: "unchanging v props \<Longrightarrow> length f \<le> 10 \<Longrightarrow>
      \<exists>v'. run_state (property_get (dhcp_prop ifc f)) v = (iface_props props ifc f, v') \<and> unchanging v' props \<and> errmsg v' = errmsg v"
    for v f using unchanging_iface[OF _ l] .
  obtain w1 where 1: "run_state (property_get (dhcp_prop ifc ''ipaddress'')) w = (iface_props props ifc ''ipaddress'', w1)"
    "unchanging w1 props" "errmsg w1 = errmsg w" using get[OF st, of "''ipaddress''"] by auto
  obtain w2 where 2: "run_state (property_get (dhcp_prop ifc ''gateway'')) w1 = (iface_props props ifc ''gateway'', w2)"
    "unchanging w2 props" "errmsg w2 = errmsg w" using get[OF 1(2), of "''gateway''"] 1(3) by auto
  obtain w3 where 3: "run_state (property_get (dhcp_prop ifc ''server'')) w2 = (iface_props props ifc ''server'', w3)"
    "unchanging w3 props" "errmsg w3 = errmsg w" using get[OF 2(2), of "''server''"] 2(3) by auto
  obtain w4 where 4: "run_state (property_get (dhcp_prop ifc ''mask'')) w3 = (m, w4)"
    "unchanging w4 props" "errmsg w4 = errmsg w" using get[OF 3(2), of "''mask''"] 3(3) by (auto simp: m_def)
  let ?i = "addressed props ifc i"
  have i: "i\<lparr>ipaddr := iface_props props ifc ''ipaddress'',
      gateway := (if iface_props props ifc ''gateway'' = [] \<or> prefix ''0.0.0.0'' (iface_props props ifc ''gateway'')
                  then takeWhile (\<lambda>c. c \<noteq> NUL0) (strncpy PROPERTY_VALUE_MAX (iface_props props ifc ''server''))
                  else iface_props props ifc ''gateway''),
      dhcp_server := iface_props props ifc ''server''\<rparr> = ?i"
    using c by (simp add: addressed_def configured_def strncpy_short Let_def)
  have rest: "fst (run_state (fill_rest ifc j) w4) = reported props ifc j" if "dns j = dns i" for j
    using reads_run[OF reads_rest[OF l, of j] 4(2)] n that by auto
  have d: "dns ?i = dns i" by (simp add: addressed_def Let_def)
  have run: "run_state (fill_ip_info ifc i) w = run_state
      (if m \<noteq> []
       then (case mask_prefix m of
               None \<Rightarrow> do { set_errmsg (''DHCP gave invalid net mask '' @ m); State_Monad.return (Inr (- 1, ?i)) }
             | Some p \<Rightarrow> do { j \<leftarrow> fill_rest ifc (?i\<lparr>prefixLength := word_of_nat p\<rparr>); State_Monad.return (Inr (0, j)) })
       else do { j \<leftarrow> fill_rest ifc ?i; State_Monad.return (Inr (0, j)) }) w4"
    unfolding fill_ip_info_def nm sum.case run_state_bind 1(1) prod.case 2(1) 3(1) Let_def i 4(1) ..
  show ?thesis
  proof
    show "unchanging w4 props" "errmsg w4 = errmsg w" by fact+
  qed (use rest d in \<open>simp_all add: run set_errmsg_def case_prod_beta\<close>)
qed

section \<open>The results that are reported\<close>

text \<open>
  C23: when the DHCP client has left the result \<open>ok\<close> and a mask in dotted form, every field of the
  configuration is read from its own property of the interface, the gateway falls back to the server, and
  the prefix has length \<open>q\<close> exactly when the mask is that of \<open>q\<close> one bits from the top; every other mask is
  refused with its text in the error message, and nothing behind it is read.
\<close>

theorem dhcp_configuration_reported:
  assumes "configured w props ifc" and "length (dns i) < 1000"
    and "iface_props props ifc ''result'' = ''ok''" and "iface_props props ifc ''mask'' = show_quad m"
  shows "(\<forall>q\<le>32. m = netmask q \<longrightarrow> fst (run_state (dhcp_get_results ifc i) w) =
            Inr (0, reported props ifc ((addressed props ifc i)\<lparr>prefixLength := word_of_nat q\<rparr>))) \<and>
         ((\<forall>q\<le>32. m \<noteq> netmask q) \<longrightarrow> fst (run_state (dhcp_get_results ifc i) w) = Inr (- 1, addressed props ifc i) \<and>
            errmsg (snd (run_state (dhcp_get_results ifc i) w)) = snprintf 100 (''DHCP gave invalid net mask '' @ show_quad m))"
proof -
  have st: "unchanging w props" and l: "length ifc \<le> 15" and nm: "p2p_name ifc = Inr ifc"
    using assms(1) by (auto simp: configured_def p2p_name_result)
  let ?w = "w\<lparr>sys_calls := sys_calls w @ [PropGet (dhcp_prop ifc ''result'')]\<rparr>"
  have get: "run_state (property_get (dhcp_prop ifc ''result'')) w = (''ok'', ?w)"
    using st l assms(3) by (simp add: unchanging_get dhcp_prop_full iface_props_def)
  have run: "run_state (dhcp_get_results ifc i) w = run_state (fill_ip_info ifc i) ?w"
    unfolding dhcp_get_results_def nm sum.case run_state_bind get prod.case by simp
  have c: "configured ?w props ifc" using assms(1) by (simp add: configured_def)
  have quad: "show_quad m \<noteq> []" by (simp add: show_quad_def)
  show ?thesis
  proof (intro conjI allI impI)
    fix q assume "q \<le> 32" "m = netmask q"
    then have "mask_prefix (show_quad m) = Some q" by (simp add: mask_prefix_quad)
    then show "fst (run_state (dhcp_get_results ifc i) w) =
        Inr (0, reported props ifc ((addressed props ifc i)\<lparr>prefixLength := word_of_nat q\<rparr>))"
      using quad fill_ip_info_result[OF c assms(2), where q = q] unfolding run assms(4) by blast
  next
    assume "\<forall>q\<le>32. m \<noteq> netmask q"
    then have "mask_prefix (show_quad m) = None" using mask_prefix_quad[of m] by (cases "mask_prefix (show_quad m)") auto
    then obtain w' where "run_state (dhcp_get_results ifc i) w =
        (Inr (- 1, addressed props ifc i), w'\<lparr>errmsg := snprintf 100 (''DHCP gave invalid net mask '' @ show_quad m)\<rparr>)"
      using quad fill_ip_info_result[OF c assms(2)] unfolding run assms(4) by blast
    then show "fst (run_state (dhcp_get_results ifc i) w) = Inr (- 1, addressed props ifc i)"
      "errmsg (snd (run_state (dhcp_get_results ifc i) w)) = snprintf 100 (''DHCP gave invalid net mask '' @ show_quad m)"
      by simp_all
  qed
qed

text \<open>A system whose properties never change, and the state before the first call.\<close>

definition still :: "(string \<Rightarrow> string) \<Rightarrow> sys" where
  "still props = \<lparr>sys_ret = (\<lambda>_. 0), sys_errno = (\<lambda>_. OtherErr),
     sys_value = (\<lambda>cs. case last cs of PropGet n \<Rightarrow> props n | _ \<Rightarrow> []), sys_text = (\<lambda>_. None),
     sys_conn = (\<lambda>_. None), sys_pair = (\<lambda>_. (0, 0)), sys_input = (\<lambda>_. False)\<rparr>"

definition fresh :: "sys \<Rightarrow> vlte" where
  "fresh e = \<lparr>sys_env = e, sys_calls = [], errmsg = [], ctrl_conn = None, monitor_conn = None,
     exit_sockets = (0, 0), primary_iface = [], supplicant_name = [], supplicant_prop_name = []\<rparr>"

definition wlan_props :: "string \<Rightarrow> string" where
  "wlan_props n =
     (if n = ''dhcp.wlan0.result'' then ''ok''
      else if n = ''dhcp.wlan0.ipaddress'' then ''192.168.7.20''
      else if n = ''dhcp.wlan0.server'' then ''192.168.7.1''
      else if n = ''dhcp.wlan0.mask'' then ''255.255.240.0''
      else if n = ''dhcp.wlan0.leasetime'' then ''3600'' else [])"

definition no_info :: dhcp_info where
  "no_info = \<lparr>ipaddr = [], gateway = [], prefixLength = 0, dns = [[]], dhcp_server = [], lease = 0,
     vendorInfo = [], dhcp_domain = [], mtu = []\<rparr>"

lemma unchanging_still: "unchanging (fresh (still props)) props"
  by (simp add: unchanging_def fresh_def still_def)

theorem dhcp_configuration_reported_witness:
  "fst (run_state (dhcp_get_results ''wlan0'' no_info) (fresh (still wlan_props))) =
     Inr (0, \<lparr>ipaddr = ''192.168.7.20'', gateway = ''192.168.7.1'', prefixLength = 20, dns = [[]],
              dhcp_server = ''192.168.7.1'', lease = 3600, vendorInfo = [], dhcp_domain = [], mtu = []\<rparr>)"
proof -
  have m: "show_quad (netmask 20) = ''255.255.240.0''"
  proof -
    have "netmask 20 = 4294963200" by (simp add: netmask_def push_bit_eq_mult)
    then have "byte_of 3 (netmask 20) = 255" "byte_of 2 (netmask 20) = 255" "byte_of 1 (netmask 20) = 240" "byte_of 0 (netmask 20) = 0"
      by (simp_all add: byte_of_def)
    moreover have "show_nat 255 = ''255''" "show_nat 240 = ''240''" "show_nat 0 = ''0''"
      by (simp_all add: show_nat.simps digit_char_def char_of_eq_iff)
    ultimately show ?thesis by (simp add: show_quad_def)
  qed
  have c: "configured (fresh (still wlan_props)) wlan_props ''wlan0''"
    by (simp add: configured_def unchanging_still iface_props_def wlan_props_def)
  have "fst (run_state (dhcp_get_results ''wlan0'' no_info) (fresh (still wlan_props))) =
      Inr (0, reported wlan_props ''wlan0'' ((addressed wlan_props ''wlan0'' no_info)\<lparr>prefixLength := word_of_nat 20\<rparr>))"
  proof (rule conjunct1[OF dhcp_configuration_reported[OF c], rule_format, OF _ _ _ _ refl])
    show "iface_props wlan_props ''wlan0'' ''mask'' = show_quad (netmask 20)"
      unfolding m by (simp add: iface_props_def wlan_props_def)
  qed (simp_all add: no_info_def iface_props_def wlan_props_def)
  moreover have "atol ''3600'' = 3600"
    by (simp add: atol_def strtol_def scan_sign_def skip_0x_def starts_digit_def digit_val_def isdigit_def isspace_def clamp_def)
  ultimately show ?thesis
    by (simp add: reported_def addressed_def no_info_def dns_props_def iface_props_def wlan_props_def Let_def)
qed

text \<open>
  The copy of an interface name is not terminated when the name fills its array of 25 bytes, and each
  operation of the client then reads behind the array; a name that starts with \<open>p2p\<close> never does.
\<close>

theorem long_interface_overread:
  assumes "NUL0 \<notin> set ifc" and "25 \<le> length ifc" and "\<not> prefix ''p2p'' ifc"
  shows "dhcp_get_results ifc i = State_Monad.return (Inl OutOfBounds) \<and>
         dhcp_stop ifc = State_Monad.return (Inl OutOfBounds) \<and>
         dhcp_release_lease ifc = State_Monad.return (Inl OutOfBounds) \<and>
         dhcp_start_renew ifc = State_Monad.return (Inl OutOfBounds)"
  using assms
  by (simp add: dhcp_get_results_def dhcp_stop_def dhcp_release_lease_def dhcp_start_renew_def p2p_name_result)

theorem long_interface_overread_witness:
  "dhcp_stop (replicate 25 (CHR ''w'')) = State_Monad.return (Inl OutOfBounds)"
  using long_interface_overread[of "replicate 25 (CHR ''w'')" no_info] by (simp add: eval_nat_numeral)

text \<open>
  Stopping the client asks for its service by the full name of the interface and waits at most 25 naps
  of 200 milliseconds: when some round sees the service stopped the result of the interface is set to
  \<open>failed\<close> and 0 returned, and when none does nothing is set and -1 returned.
\<close>

theorem dhcp_stop_waits:
  fixes w :: vlte and ifc :: string
  assumes "NUL0 \<notin> set ifc" and "length ifc \<le> 15" and "\<not> prefix ''p2p'' ifc"
  defines "w1 \<equiv> w\<lparr>sys_calls := sys_calls w @ [PropSet ''ctl.stop'' (''dhcpcd_'' @ ifc)]\<rparr>"
    and "p \<equiv> ''init.svc.dhcpcd_'' @ ifc"
  defines "first \<equiv> LEAST k. seen w1 200000 p k = ''stopped''"
  shows "run_state (dhcp_stop ifc) w =
     (if \<exists>k\<le>25. seen w1 200000 p k = ''stopped''
      then (Inr 0, w\<lparr>sys_calls := sys_calls w1 @ rounds 200000 p first @
              [PropGet p, PropSet (''dhcp.'' @ ifc @ ''.result'') ''failed'']\<rparr>)
      else (Inr (- 1), w\<lparr>sys_calls := sys_calls w1 @ rounds 200000 p 25 @ [PropGet p]\<rparr>))"
proof -
  have nm: "p2p_name ifc = Inr ifc" using assms by (simp add: p2p_name_result)
  have names: "daemon_prop ifc = p" "daemon_cmd ifc = ''dhcpcd_'' @ ifc" "dhcp_prop ifc ''result'' = ''dhcp.'' @ ifc @ ''.result''"
    using assms(2) by (simp_all add: daemon_prop_def daemon_cmd_def p_def snprintf_fits dhcp_prop_full)
  have d: "desired (Some ''stopped'') v \<longleftrightarrow> v = ''stopped''" for v by (auto simp: desired_def)
  have w1: "run_state (property_set ''ctl.stop'' (''dhcpcd_'' @ ifc)) w = ((), w1)"
    by (simp add: run_simps w1_def)
  have five: "naps 5 = 25" by (simp add: naps_def)
  show ?thesis
    unfolding dhcp_stop_def nm sum.case run_state_bind names w1 prod.case wait_for_property_result Let_def d five first_def
    by (simp add: run_simps w1_def)
qed

theorem dhcp_stop_waits_witness:
  "run_state (dhcp_stop ''wlan0'') (fresh (still (\<lambda>_. ''stopped''))) =
     (Inr 0, (fresh (still (\<lambda>_. ''stopped'')))\<lparr>sys_calls := [PropSet ''ctl.stop'' ''dhcpcd_wlan0'',
        PropGet ''init.svc.dhcpcd_wlan0'', PropSet ''dhcp.wlan0.result'' ''failed'']\<rparr>)"
proof -
  let ?w = "(fresh (still (\<lambda>_. ''stopped'')))"
  have s: "seen (?w\<lparr>sys_calls := cs\<rparr>) us n k = ''stopped''" for cs us n k
    by (simp add: seen_def fresh_def still_def)
  have z: "(LEAST k::nat. True) = 0" by (simp add: Least_eq_0)
  have "\<exists>k::nat. k \<le> 25" by blast
  then show ?thesis using dhcp_stop_waits[of "''wlan0''" ?w] by (simp add: s z) (simp add: fresh_def)
qed

end
