(* ===== verification/VLTE_Wifi.thy ===== *)
theory VLTE_Wifi
  imports VLTE_System
begin

text \<open>
  Driver and supplicant of the Wi-Fi network (\<^verbatim>\<open>utils/wifi.c\<close>, \<^verbatim>\<open>utils/wifi_fst.c\<close>): loading and
  unloading of the kernel modules, the files that the supplicant needs, its start and its stop, and the
  manager for fast session transfer. The configuration is that of \<^verbatim>\<open>Android.mk\<close>, which defines none of the
  macros: the module path has its default, so the code for a driver without a module is compiled out. A call
  under \<^verbatim>\<open>TEMP_FAILURE_RETRY\<close> is the last of its repetitions.
\<close>

section \<open>Kernel modules\<close>

definition insmod :: "string \<Rightarrow> string \<Rightarrow> (vlte, int) state" where
  "insmod filename args = do {
     m \<leftarrow> ask sys_text (LoadFile filename);
     (case m of None \<Rightarrow> State_Monad.return (- 1) | Some _ \<Rightarrow> ask sys_ret (InitModule filename args))
   }"

text \<open>The loop of \<^verbatim>\<open>rmmod\<close>; \<open>ret\<close> is the result of the round before.\<close>

fun rmmod_loop :: "string \<Rightarrow> int \<Rightarrow> nat \<Rightarrow> (vlte, int) state" where
  "rmmod_loop modname ret 0 = State_Monad.return ret"
| "rmmod_loop modname ret (Suc n) = do {
     ret \<leftarrow> ask sys_ret (DeleteModule modname);
     e \<leftarrow> query (\<lambda>w. sys_errno (sys_env w) (sys_calls w));
     if ret < 0 \<and> e = EAGAIN
     then do { tell (Usleep 500000); rmmod_loop modname ret n }
     else State_Monad.return ret
   }"

definition rmmod :: "string \<Rightarrow> (vlte, int) state" where
  "rmmod modname = rmmod_loop modname (- 1) 10"

text \<open>
  \<^verbatim>\<open>fgets\<close> with a buffer of \<open>n + 1\<close> bytes cuts a text into pieces that end with a newline or have \<open>n\<close>
  characters.
\<close>

definition line_end :: "string \<Rightarrow> nat" where
  "line_end s = (let k = length (takeWhile (\<lambda>c. c \<noteq> CHR 0x0A) s) in if k < length s then Suc k else k)"

lemma line_end_pos: "s \<noteq> [] \<Longrightarrow> 0 < line_end s"
  by (cases s) (auto simp: line_end_def Let_def)

function fgets_all :: "nat \<Rightarrow> string \<Rightarrow> string list" where
  "fgets_all n s =
     (if s = [] \<or> n = 0 then []
      else let k = min n (line_end s) in take k s # fgets_all n (drop k s))"
  by auto
termination
  by (relation "measure (\<lambda>(n, s). length s)") (simp_all add: line_end_pos)

declare fgets_all.simps [simp del]

definition module_listed :: "string \<Rightarrow> string \<Rightarrow> bool" where
  "module_listed tag proc \<longleftrightarrow> (\<exists>l\<in>set (fgets_all (length tag + 1 + 10 - 1) proc). prefix tag l)"

text \<open>The common body of \<^verbatim>\<open>is_wifi_driver_loaded\<close> and \<^verbatim>\<open>is_fst_driver_loaded\<close> behind the test of the property.\<close>

definition check_modules :: "string \<Rightarrow> string \<Rightarrow> (vlte, bool) state \<Rightarrow> (vlte, bool) state" where
  "check_modules prop_name tag found = do {
     proc \<leftarrow> ask sys_text (ReadText ''/proc/modules'');
     (case proc of
        None \<Rightarrow> do { property_set prop_name ''unloaded''; State_Monad.return False }
      | Some t \<Rightarrow>
          if module_listed tag t then found
          else do { property_set prop_name ''unloaded''; State_Monad.return False })
   }"

section \<open>Fast session transfer\<close>

abbreviation FST_DRIVER_PROP_NAME :: string where "FST_DRIVER_PROP_NAME \<equiv> ''wlan.fst.driver.status''"
abbreviation FSTMAN_PROP_NAME :: string where "FSTMAN_PROP_NAME \<equiv> ''init.svc.fstman''"
abbreviation WIFI_FST_DRIVER_MODULE_TAG :: string where "WIFI_FST_DRIVER_MODULE_TAG \<equiv> '' ''"

definition is_fst_enabled :: "(vlte, bool) state" where
  "is_fst_enabled = property_is ''persist.fst.rate.upgrade.en'' ''1''"

definition is_fst_softap_enabled :: "(vlte, bool) state" where
  "is_fst_softap_enabled = do {
     e \<leftarrow> is_fst_enabled;
     if e then property_is ''persist.fst.softap.en'' ''1'' else State_Monad.return False
   }"

definition is_fst_driver_loaded :: "(vlte, bool) state" where
  "is_fst_driver_loaded = do {
     e \<leftarrow> is_fst_enabled;
     if \<not> e then State_Monad.return True
     else do {
       ok \<leftarrow> property_is FST_DRIVER_PROP_NAME ''ok'';
       if \<not> ok then State_Monad.return False
       else check_modules FST_DRIVER_PROP_NAME WIFI_FST_DRIVER_MODULE_TAG (State_Monad.return True)
     }
   }"

definition wifi_fst_load_driver :: "(vlte, int) state" where
  "wifi_fst_load_driver = do {
     e \<leftarrow> is_fst_enabled;
     if \<not> e then State_Monad.return 0
     else do {
       l \<leftarrow> is_fst_driver_loaded;
       if l then State_Monad.return 0
       else do {
         r \<leftarrow> insmod [] [];
         if r < 0 then State_Monad.return (- 1)
         else do { property_set FST_DRIVER_PROP_NAME ''ok''; State_Monad.return 0 }
       }
     }
   }"

text \<open>
  The wait of the two unload functions, \<^verbatim>\<open>while (count-- > 0) { if (!loaded ()) break; usleep (500000); }\<close>: the
  value that \<^verbatim>\<open>count\<close> has behind the loop.
\<close>

fun unload_wait :: "(vlte, bool) state \<Rightarrow> nat \<Rightarrow> (vlte, int) state" where
  "unload_wait loaded 0 = State_Monad.return (- 1)"
| "unload_wait loaded (Suc c) = do {
     l \<leftarrow> loaded;
     if \<not> l then State_Monad.return (int c)
     else do { tell (Usleep 500000); unload_wait loaded c }
   }"

text \<open>The end of the two unload functions: the wait, the nap for the card, and the test of \<^verbatim>\<open>count\<close>.\<close>

definition unload_result :: "(vlte, bool) state \<Rightarrow> (vlte, int) state" where
  "unload_result loaded = do {
     count \<leftarrow> unload_wait loaded 20;
     tell (Usleep 500000);
     State_Monad.return (if count \<noteq> 0 then 0 else - 1)
   }"

definition wifi_fst_unload_driver :: "(vlte, int) state" where
  "wifi_fst_unload_driver = do {
     e \<leftarrow> is_fst_enabled;
     if \<not> e then State_Monad.return 0
     else do {
       r \<leftarrow> rmmod [];
       if r \<noteq> 0 then State_Monad.return (- 1) else unload_result is_fst_driver_loaded
     }
   }"

section \<open>Files of the supplicant\<close>

definition last_errno :: "(vlte, errno) state" where
  "last_errno = query (\<lambda>w. sys_errno (sys_env w) (sys_calls w))"

text \<open>A file that is there but not accessible gets its mode set; the result says whether the function is done.\<close>

definition file_present :: "string \<Rightarrow> (vlte, int option) state" where
  "file_present f = do {
     ret \<leftarrow> ask sys_ret (Access f);
     e \<leftarrow> last_errno;
     if ret = 0 then State_Monad.return (Some 0)
     else if e = EACCES then do {
       r \<leftarrow> ask sys_ret (Chmod f);
       State_Monad.return (Some (if r \<noteq> 0 then - 1 else 0))
     }
     else State_Monad.return None
   }"

text \<open>Mode and owner of a new file; the file is removed when one of them fails.\<close>

definition file_owner :: "string \<Rightarrow> (vlte, int) state" where
  "file_owner f = do {
     r \<leftarrow> ask sys_ret (Chmod f);
     if r < 0 then do { tell (Unlink f); State_Monad.return (- 1) }
     else do {
       r \<leftarrow> ask sys_ret (Chown f);
       if r < 0 then do { tell (Unlink f); State_Monad.return (- 1) } else State_Monad.return 0
     }
   }"

abbreviation SUPP_ENTROPY_FILE :: string where "SUPP_ENTROPY_FILE \<equiv> ''/data/misc/wifi/entropy.bin''"

definition dummy_key :: string where
  "dummy_key = map char_of [0x02, 0x11, 0xbe, 0x33, 0x43, 0x35, 0x68, 0x47, 0x84, 0x99, 0xa9, 0x2b,
     0x1c, 0xd3, 0xee, 0xff, 0xf1, 0xe2, 0xf3, 0xf4, 0xf5 :: nat]"

definition ensure_entropy_file_exists :: "(vlte, int) state" where
  "ensure_entropy_file_exists = do {
     p \<leftarrow> file_present SUPP_ENTROPY_FILE;
     (case p of Some r \<Rightarrow> State_Monad.return r
      | None \<Rightarrow> do {
          destfd \<leftarrow> ask sys_ret (OpenCreate SUPP_ENTROPY_FILE);
          if destfd < 0 then State_Monad.return (- 1)
          else do {
            n \<leftarrow> ask sys_ret (Write destfd dummy_key);
            tell (Close destfd);
            if n \<noteq> int (length dummy_key) then State_Monad.return (- 1) else file_owner SUPP_ENTROPY_FILE
          }
        })
   }"

text \<open>
  The copy of the template in pieces of at most 2048 bytes. How often the template can be read is not
  bounded by the code; \<open>fuel\<close> bounds the rounds of the model.
\<close>

fun copy_loop :: "nat \<Rightarrow> int \<Rightarrow> int \<Rightarrow> (vlte, bool res) state" where
  "copy_loop 0 srcfd destfd = State_Monad.return (Inl OutOfFuel)"
| "copy_loop (Suc fuel) srcfd destfd = do {
     nread \<leftarrow> ask sys_ret (Read srcfd);
     buf \<leftarrow> query (\<lambda>w. sys_text (sys_env w) (sys_calls w));
     if nread = 0 then State_Monad.return (Inr True)
     else if nread < 0 then State_Monad.return (Inr False)
     else do {
       tell (Write destfd (take (nat nread) (case buf of None \<Rightarrow> [] | Some b \<Rightarrow> b)));
       copy_loop fuel srcfd destfd
     }
   }"

definition ensure_config_file_exists :: "nat \<Rightarrow> string \<Rightarrow> string \<Rightarrow> (vlte, int res) state" where
  "ensure_config_file_exists fuel config_file config_file_template = do {
     p \<leftarrow> file_present config_file;
     e \<leftarrow> last_errno;
     (case p of Some r \<Rightarrow> State_Monad.return (Inr r)
      | None \<Rightarrow>
          if e \<noteq> ENOENT then State_Monad.return (Inr (- 1))
          else do {
            srcfd \<leftarrow> ask sys_ret (OpenRead config_file_template);
            if srcfd < 0 then State_Monad.return (Inr (- 1))
            else do {
              destfd \<leftarrow> ask sys_ret (OpenCreate config_file);
              if destfd < 0 then do { tell (Close srcfd); State_Monad.return (Inr (- 1)) }
              else do {
                c \<leftarrow> copy_loop fuel srcfd destfd;
                (case c of Inl f \<Rightarrow> State_Monad.return (Inl f)
                 | Inr ok \<Rightarrow>
                     if \<not> ok then do {
                       tell (Close srcfd); tell (Close destfd); tell (Unlink config_file);
                       State_Monad.return (Inr (- 1))
                     }
                     else do {
                       tell (Close destfd); tell (Close srcfd);
                       r \<leftarrow> file_owner config_file;
                       State_Monad.return (Inr r)
                     })
              }
            }
          })
   }"

end
