(* ===== verification/VLTE_Supplicant.thy ===== *)
theory VLTE_Supplicant
  imports VLTE_Wifi
begin

text \<open>
  Driver, supplicant and its control connection (\<^verbatim>\<open>utils/wifi.c\<close>, \<^verbatim>\<open>utils/wifi_fst.c\<close>). The flag \<open>client\<close>
  is the macro \<^verbatim>\<open>LIBWPA_CLIENT_EXISTS\<close>: without it the file defines the functions of the client library itself, and
  none of them does anything. \<^verbatim>\<open>Android.mk\<close> does not define the macro.
\<close>

section \<open>The manager for fast session transfer\<close>

definition wifi_start_fstman :: "nat \<Rightarrow> bool \<Rightarrow> (vlte, int res) state" where
  "wifi_start_fstman fuel softap_mode = do {
     e \<leftarrow> is_fst_enabled;
     if \<not> e then State_Monad.return (Inr 0)
     else do {
       r \<leftarrow> ensure_config_file_exists fuel ''/data/misc/wifi/fstman.ini'' ''/system/etc/wifi/fstman.ini'';
       (case r of Inl f \<Rightarrow> State_Monad.return (Inl f)
        | Inr r \<Rightarrow>
            if r < 0 then State_Monad.return (Inr (- 1))
            else do {
              running \<leftarrow> property_is FSTMAN_PROP_NAME ''running'';
              if running then State_Monad.return (Inr 0)
              else do {
                (if softap_mode then property_set ''netd.fstman.start'' ''true''
                 else property_set ''ctl.start'' (snprintf PROPERTY_VALUE_MAX ''fstman:@android:wpa_wlan0''));
                tell SchedYield;
                ok \<leftarrow> poll_property 100000 FSTMAN_PROP_NAME ''running'' 50;
                State_Monad.return (Inr (if ok then 0 else - 1))
              }
            })
     }
   }"

definition wifi_stop_fstman :: "bool \<Rightarrow> (vlte, int) state" where
  "wifi_stop_fstman softap_mode = do {
     e \<leftarrow> is_fst_enabled;
     if \<not> e then State_Monad.return 0
     else do {
       stopped \<leftarrow> property_is FSTMAN_PROP_NAME ''stopped'';
       if stopped then State_Monad.return 0
       else do {
         (if softap_mode then property_set ''netd.fstman.start'' ''false'' else property_set ''ctl.stop'' ''fstman'');
         tell SchedYield;
         ok \<leftarrow> poll_property 100000 FSTMAN_PROP_NAME ''stopped'' 50;
         State_Monad.return (if ok then 0 else - 1)
       }
     }
   }"

section \<open>The driver\<close>

abbreviation DRIVER_PROP_NAME :: string where "DRIVER_PROP_NAME \<equiv> ''wlan.driver.status''"

definition is_wifi_driver_loaded :: "(vlte, bool) state" where
  "is_wifi_driver_loaded = do {
     ok \<leftarrow> property_is DRIVER_PROP_NAME ''ok'';
     if \<not> ok then State_Monad.return False
     else check_modules DRIVER_PROP_NAME ''wlan '' is_fst_driver_loaded
   }"

definition wifi_unload_driver :: "(vlte, int) state" where
  "wifi_unload_driver = do {
     tell (Usleep 200000);
     wifi_fst_unload_driver;
     r \<leftarrow> rmmod ''wlan'';
     if r = 0 then unload_result is_wifi_driver_loaded else State_Monad.return (- 1)
   }"

fun load_loop :: "nat \<Rightarrow> (vlte, int) state" where
  "load_loop 0 = do {
     property_set DRIVER_PROP_NAME ''timeout'';
     wifi_unload_driver;
     State_Monad.return (- 1)
   }"
| "load_loop (Suc count) = do {
     status \<leftarrow> property_get DRIVER_PROP_NAME;
     if status = ''ok'' then wifi_fst_load_driver
     else if status = ''failed'' then do { wifi_unload_driver; State_Monad.return (- 1) }
     else do { tell (Usleep 200000); load_loop count }
   }"

definition wifi_load_driver :: "(vlte, int) state" where
  "wifi_load_driver = do {
     l \<leftarrow> is_wifi_driver_loaded;
     if l then State_Monad.return 0
     else do {
       r \<leftarrow> insmod ''/system/lib/modules/wlan.ko'' [];
       if r < 0 then State_Monad.return (- 1)
       else do {
         property_set DRIVER_PROP_NAME ''ok'';
         tell SchedYield;
         load_loop 100
       }
     }
   }"

definition wifi_get_fw_path :: "int \<Rightarrow> string option" where
  "wifi_get_fw_path fw_type =
     (if fw_type = 0 then Some ''STA'' else if fw_type = 1 then Some ''AP'' else if fw_type = 2 then Some ''P2P'' else None)"

definition wifi_change_fw_path :: "string option \<Rightarrow> (vlte, int) state" where
  "wifi_change_fw_path fwpath =
     (case fwpath of None \<Rightarrow> State_Monad.return 0
      | Some p \<Rightarrow> do {
          fd \<leftarrow> ask sys_ret (OpenWrite ''/sys/module/wlan/parameters/fwpath'');
          if fd < 0 then State_Monad.return (- 1)
          else do {
            n \<leftarrow> ask sys_ret (Write fd (p @ [CHR 0x00]));
            tell (Close fd);
            State_Monad.return (if n \<noteq> int (length p + 1) then - 1 else 0)
          }
        })"

definition do_dhcp_request :: "(vlte, int) state" where
  "do_dhcp_request = do {
     iface \<leftarrow> query primary_iface;
     if iface = ''sta'' then State_Monad.return 0
     else do {
       i \<leftarrow> ask sys_ret IfcInit;
       if i < 0 then State_Monad.return (- 1)
       else do {
         d \<leftarrow> ask sys_ret (DoDhcp iface);
         tell IfcClose;
         if d < 0 then State_Monad.return (- 1)
         else do { tell GetDhcpInfo; State_Monad.return 0 }
       }
     }
   }"

section \<open>Start and stop of the supplicant\<close>

text \<open>The service and its property, by the kind of supplicant: for direct connections, the one of VLTE, the one of Android.\<close>

definition set_supplicant :: "string \<Rightarrow> string \<Rightarrow> (vlte, unit) state" where
  "set_supplicant name prop_name = modify (\<lambda>w. w\<lparr>supplicant_name := name, supplicant_prop_name := prop_name\<rparr>)"

definition set_p2p :: "(vlte, unit) state" where
  "set_p2p = set_supplicant ''p2p_supplicant'' ''init.svc.p2p_supplicant''"

definition set_vlte :: "(vlte, unit) state" where
  "set_vlte = set_supplicant ''wpa_supplicant_vlte'' ''init.svc.wpa_supplicant_vlte''"

abbreviation SUPP_CONFIG_TEMPLATE :: string where "SUPP_CONFIG_TEMPLATE \<equiv> ''/vendor/etc/wifi/wpa_supplicant.conf''"

text \<open>
  The wait for the supplicant: the property is looked up until it is found (\<open>pi\<close>), and its value counts only when its serial
  number has changed.
\<close>

fun start_loop :: "nat \<Rightarrow> bool \<Rightarrow> int \<Rightarrow> (vlte, int) state" where
  "start_loop 0 pi serial = State_Monad.return (- 1)"
| "start_loop (Suc count) pi serial = do {
     name \<leftarrow> query supplicant_prop_name;
     pi \<leftarrow> (if pi then State_Monad.return True
           else do { r \<leftarrow> ask sys_ret (PropFind name); State_Monad.return (r \<noteq> 0) });
     status \<leftarrow> (if pi then do {
                    s \<leftarrow> ask sys_ret PropSerial;
                    if s \<noteq> serial then ask sys_value PropRead else State_Monad.return []
                  }
                else State_Monad.return []);
     if status = ''running'' then State_Monad.return 0
     else if status = ''stopped'' then State_Monad.return (- 1)
     else do { tell (Usleep 100000); start_loop count pi serial }
   }"

text \<open>The start once the files are there.\<close>

definition start_service :: "bool \<Rightarrow> (vlte, int) state" where
  "start_service client = do {
     ensure_entropy_file_exists;
     (if client then tell CtrlCleanup else State_Monad.return ());
     modify (\<lambda>w. w\<lparr>exit_sockets := (- 1, - 1)\<rparr>);
     prop_name \<leftarrow> query supplicant_prop_name;
     r \<leftarrow> ask sys_ret (PropFind prop_name);
     serial \<leftarrow> (if r \<noteq> 0 then ask sys_ret PropSerial else State_Monad.return 0);
     v \<leftarrow> property_get ''wifi.interface'';
     modify (\<lambda>w. w\<lparr>primary_iface := (if v = [] then ''sta'' else v)\<rparr>);
     name \<leftarrow> query supplicant_name;
     property_set ''ctl.start'' name;
     tell SchedYield;
     start_loop 200 (r \<noteq> 0) serial
   }"

definition wifi_start_supplicant :: "bool \<Rightarrow> nat \<Rightarrow> bool \<Rightarrow> (vlte, int res) state" where
  "wifi_start_supplicant client fuel p2p_supported = do {
     f \<leftarrow> wifi_start_fstman fuel False;
     (case f of Inl e \<Rightarrow> State_Monad.return (Inl e)
      | Inr r \<Rightarrow>
          if r \<noteq> 0 then State_Monad.return (Inr (- 1))
          else do {
            c \<leftarrow> (if p2p_supported then do {
                    set_p2p;
                    ensure_config_file_exists fuel ''/data/misc/wifi/p2p_supplicant.conf'' SUPP_CONFIG_TEMPLATE
                  }
                 else do { set_vlte; State_Monad.return (Inr 0) });
            (case c of Inl e \<Rightarrow> State_Monad.return (Inl e)
             | Inr r \<Rightarrow>
                 if r < 0 then State_Monad.return (Inr (- 1))
                 else do {
                   name \<leftarrow> query supplicant_prop_name;
                   running \<leftarrow> property_is name ''running'';
                   if running then State_Monad.return (Inr 0)
                   else do {
                     c \<leftarrow> ensure_config_file_exists fuel ''/data/misc/wifi/wpa_supplicant.conf'' SUPP_CONFIG_TEMPLATE;
                     (case c of Inl e \<Rightarrow> State_Monad.return (Inl e)
                      | Inr r \<Rightarrow>
                          if r < 0 then State_Monad.return (Inr (- 1))
                          else do { r \<leftarrow> start_service client; State_Monad.return (Inr r) })
                   }
                 })
          })
   }"

text \<open>The common body of the two functions that stop a supplicant, behind the choice of the service.\<close>

definition stop_service :: "(vlte, int) state" where
  "stop_service = do {
     prop_name \<leftarrow> query supplicant_prop_name;
     stopped \<leftarrow> property_is prop_name ''stopped'';
     if stopped then do { wifi_stop_fstman False; State_Monad.return 0 }
     else do {
       name \<leftarrow> query supplicant_name;
       property_set ''ctl.stop'' name;
       tell SchedYield;
       ok \<leftarrow> poll_property 100000 prop_name ''stopped'' 50;
       wifi_stop_fstman False;
       State_Monad.return (if ok then 0 else - 1)
     }
   }"

definition wifi_stop_supplicant :: "bool \<Rightarrow> (vlte, int) state" where
  "wifi_stop_supplicant p2p_supported = do {
     (if p2p_supported then set_p2p else set_vlte);
     stop_service
   }"

definition wifi_stop_android_supplicant :: "bool \<Rightarrow> (vlte, int) state" where
  "wifi_stop_android_supplicant p2p_supported = do {
     (if p2p_supported then set_p2p else set_supplicant ''wpa_supplicant'' ''init.svc.wpa_supplicant'');
     stop_service
   }"

end
