(* ===== verification/VLTE_Events.thy ===== *)
theory VLTE_Events
  imports VLTE_Supplicant
begin

text \<open>
  The control connection to the supplicant (\<^verbatim>\<open>utils/wifi.c\<close>): its two handles, commands, and the events
  with the level that is cut out of their text. The buffer of the caller is a list of its bytes; the numbers
  are those of a 64-bit build.
\<close>

section \<open>Arrays of characters\<close>

definition cstr :: "string \<Rightarrow> string" where
  "cstr b = takeWhile (\<lambda>c. c \<noteq> CHR 0x00) b"

text \<open>\<^verbatim>\<open>strchr\<close>: the index of a character in the string at the start of an array.\<close>

definition strchr :: "char \<Rightarrow> string \<Rightarrow> nat option" where
  "strchr c b = (let s = cstr b; k = length (takeWhile (\<lambda>x. x \<noteq> c) s) in if k < length s then Some k else None)"

definition put_at :: "nat \<Rightarrow> char \<Rightarrow> string \<Rightarrow> string res" where
  "put_at i c b = (if i < length b then Inr (b[i := c]) else Inl OutOfBounds)"

definition memmove :: "nat \<Rightarrow> nat \<Rightarrow> nat \<Rightarrow> string \<Rightarrow> string res" where
  "memmove dst src n b =
     (if dst + n \<le> length b \<and> src + n \<le> length b
      then Inr (take dst b @ take n (drop src b) @ drop (dst + n) b) else Inl OutOfBounds)"

text \<open>A message that the library writes to the start of the buffer.\<close>

definition store :: "string \<Rightarrow> string \<Rightarrow> string res" where
  "store t b = (if length t \<le> length b then Inr (t @ drop (length t) b) else Inl OutOfBounds)"

text \<open>\<^verbatim>\<open>snprintf (buf, buflen, ...)\<close>: the result is the length of the whole text.\<close>

definition print_buf :: "string \<Rightarrow> string \<Rightarrow> int \<times> string" where
  "print_buf b s =
     (int (length s),
      if b = [] then b else take (length b - 1) s @ [CHR 0x00] @ drop (Suc (length (take (length b - 1) s))) b)"

section \<open>The client library\<close>

definition wpa_ctrl_open :: "bool \<Rightarrow> string \<Rightarrow> (vlte, conn option) state" where
  "wpa_ctrl_open client path = (if client then ask sys_conn (CtrlOpen path) else State_Monad.return None)"

definition wpa_ctrl_close :: "bool \<Rightarrow> conn option \<Rightarrow> (vlte, unit) state" where
  "wpa_ctrl_close client c =
     (case c of Some h \<Rightarrow> if client then tell (CtrlClose h) else State_Monad.return () | None \<Rightarrow> State_Monad.return ())"

definition wpa_ctrl_attach :: "bool \<Rightarrow> conn \<Rightarrow> (vlte, int) state" where
  "wpa_ctrl_attach client h = (if client then ask sys_ret (CtrlAttach h) else State_Monad.return 0)"

definition wpa_ctrl_request :: "bool \<Rightarrow> conn \<Rightarrow> string \<Rightarrow> nat \<Rightarrow> (vlte, int \<times> string option) state" where
  "wpa_ctrl_request client h cmd n =
     (if client then do {
        r \<leftarrow> ask sys_ret (CtrlRequest h cmd);
        t \<leftarrow> query (\<lambda>w. sys_text (sys_env w) (sys_calls w));
        State_Monad.return (r, map_option (take n) t)
      }
      else State_Monad.return (0, None))"

definition wpa_ctrl_recv :: "bool \<Rightarrow> conn \<Rightarrow> nat \<Rightarrow> (vlte, int \<times> string option) state" where
  "wpa_ctrl_recv client h n =
     (if client then do {
        r \<leftarrow> ask sys_ret (CtrlRecv h n);
        t \<leftarrow> query (\<lambda>w. sys_text (sys_env w) (sys_calls w));
        State_Monad.return (r, map_option (take n) t)
      }
      else State_Monad.return (0, None))"

section \<open>The connection\<close>

definition set_conns :: "conn option \<Rightarrow> conn option \<Rightarrow> (vlte, unit) state" where
  "set_conns c m = modify (\<lambda>w. w\<lparr>ctrl_conn := c, monitor_conn := m\<rparr>)"

definition wifi_connect_on_socket_path :: "bool \<Rightarrow> string \<Rightarrow> (vlte, int) state" where
  "wifi_connect_on_socket_path client path = do {
     prop_name \<leftarrow> query supplicant_prop_name;
     running \<leftarrow> property_is prop_name ''running'';
     if \<not> running then State_Monad.return (- 1)
     else do {
       c \<leftarrow> wpa_ctrl_open client path;
       modify (\<lambda>w. w\<lparr>ctrl_conn := c\<rparr>);
       (case c of None \<Rightarrow> State_Monad.return (- 1)
        | Some ch \<Rightarrow> do {
            m \<leftarrow> wpa_ctrl_open client path;
            modify (\<lambda>w. w\<lparr>monitor_conn := m\<rparr>);
            (case m of
               None \<Rightarrow> do { wpa_ctrl_close client c; set_conns None None; State_Monad.return (- 1) }
             | Some mh \<Rightarrow> do {
                 a \<leftarrow> wpa_ctrl_attach client mh;
                 if a \<noteq> 0 then do {
                   wpa_ctrl_close client m; wpa_ctrl_close client c; set_conns None None; State_Monad.return (- 1)
                 }
                 else do {
                   s \<leftarrow> ask sys_ret SocketPair;
                   if s = - 1 then do {
                     wpa_ctrl_close client m; wpa_ctrl_close client c; set_conns None None; State_Monad.return (- 1)
                   }
                   else do {
                     p \<leftarrow> query (\<lambda>w. sys_pair (sys_env w) (sys_calls w));
                     modify (\<lambda>w. w\<lparr>exit_sockets := p\<rparr>);
                     State_Monad.return 0
                   }
                 }
               })
          })
     }
   }"

definition wifi_connect_to_supplicant :: "bool \<Rightarrow> (vlte, int) state" where
  "wifi_connect_to_supplicant client = do {
     a \<leftarrow> ask sys_ret (Access ''/data/system/wpa_supplicant'');
     iface \<leftarrow> query primary_iface;
     wifi_connect_on_socket_path client
       (snprintf 4096 (if a = 0 then ''/data/system/wpa_supplicant/'' @ iface else ''@android:wpa_'' @ iface))
   }"

definition close_fd :: "int \<Rightarrow> (vlte, int) state" where
  "close_fd fd = (if 0 \<le> fd then do { tell (Close fd); State_Monad.return (- 1) } else State_Monad.return fd)"

definition wifi_close_sockets :: "bool \<Rightarrow> (vlte, unit) state" where
  "wifi_close_sockets client = do {
     c \<leftarrow> query ctrl_conn;
     wpa_ctrl_close client c;
     modify (\<lambda>w. w\<lparr>ctrl_conn := None\<rparr>);
     m \<leftarrow> query monitor_conn;
     wpa_ctrl_close client m;
     modify (\<lambda>w. w\<lparr>monitor_conn := None\<rparr>);
     e \<leftarrow> query exit_sockets;
     f0 \<leftarrow> close_fd (fst e);
     f1 \<leftarrow> close_fd (snd e);
     modify (\<lambda>w. w\<lparr>exit_sockets := (f0, f1)\<rparr>)
   }"

definition wifi_close_supplicant_connection :: "bool \<Rightarrow> (vlte, unit) state" where
  "wifi_close_supplicant_connection client = do {
     wifi_close_sockets client;
     prop_name \<leftarrow> query supplicant_prop_name;
     poll_property 100000 prop_name ''stopped'' 50;
     State_Monad.return ()
   }"

section \<open>Commands\<close>

text \<open>The result, the buffer of the reply and the length of the reply.\<close>

definition wifi_send_command :: "bool \<Rightarrow> string \<Rightarrow> string \<Rightarrow> nat \<Rightarrow> (vlte, (int \<times> string \<times> nat) res) state" where
  "wifi_send_command client cmd reply reply_len = do {
     c \<leftarrow> query ctrl_conn;
     (case c of None \<Rightarrow> State_Monad.return (Inr (- 1, reply, reply_len))
      | Some h \<Rightarrow> do {
          (ret, t) \<leftarrow> wpa_ctrl_request client h cmd reply_len;
          let stored = (case t of None \<Rightarrow> Inr reply | Some t \<Rightarrow> store t reply);
          let n = (case t of None \<Rightarrow> reply_len | Some t \<Rightarrow> length t);
          (case stored of Inl e \<Rightarrow> State_Monad.return (Inl e)
           | Inr reply \<Rightarrow>
               if ret = - 2 then do {
                 e \<leftarrow> query exit_sockets;
                 tell (Write (fst e) ''T'');
                 State_Monad.return (Inr (- 2, reply, n))
               }
               else if ret < 0 \<or> take 4 reply = ''FAIL'' then State_Monad.return (Inr (- 1, reply, n))
               else if prefix ''PING'' cmd
               then State_Monad.return (bindR (put_at n (CHR 0x00) reply) (\<lambda>reply. Inr (0, reply, n)))
               else State_Monad.return (Inr (0, reply, n)))
        })
   }"

definition wifi_command :: "bool \<Rightarrow> string \<Rightarrow> string \<Rightarrow> nat \<Rightarrow> (vlte, (int \<times> string \<times> nat) res) state" where
  "wifi_command client cmd reply reply_len = wifi_send_command client cmd reply reply_len"

definition wifi_supplicant_connection_active :: "(vlte, int) state" where
  "wifi_supplicant_connection_active = do {
     prop_name \<leftarrow> query supplicant_prop_name;
     stopped \<leftarrow> property_is prop_name ''stopped'';
     State_Monad.return (if stopped then - 1 else 0)
   }"

section \<open>Events\<close>

text \<open>
  The polling of \<^verbatim>\<open>wifi_ctrl_recv\<close>. As long as nothing comes and the supplicant is not stopped the code polls
  again without a limit; \<open>fuel\<close> bounds the rounds of the model.
\<close>

fun wifi_ctrl_recv :: "bool \<Rightarrow> nat \<Rightarrow> conn \<Rightarrow> nat \<Rightarrow> (vlte, (int \<times> string option) res) state" where
  "wifi_ctrl_recv client 0 h n = State_Monad.return (Inl OutOfFuel)"
| "wifi_ctrl_recv client (Suc fuel) h n = do {
     res \<leftarrow> ask sys_ret Poll;
     input \<leftarrow> query (\<lambda>w. sys_input (sys_env w) (sys_calls w));
     if res < 0 then State_Monad.return (Inr (res, None))
     else if res = 0 then do {
       a \<leftarrow> wifi_supplicant_connection_active;
       if a < 0 then State_Monad.return (Inr (- 2, None)) else wifi_ctrl_recv client fuel h n
     }
     else if input then do { r \<leftarrow> wpa_ctrl_recv client h n; State_Monad.return (Inr r) }
     else State_Monad.return (Inr (- 2, None))
   }"

abbreviation WPA_EVENT_TERMINATING :: string where "WPA_EVENT_TERMINATING \<equiv> ''CTRL-EVENT-TERMINATING ''"
abbreviation WPA_EVENT_IGNORE :: string where "WPA_EVENT_IGNORE \<equiv> ''CTRL-EVENT-IGNORE ''"
abbreviation IFNAME :: string where "IFNAME \<equiv> ''IFNAME=''"

text \<open>The message that the code makes up when there is no event.\<close>

definition terminating :: "vlte \<Rightarrow> string \<Rightarrow> string" where
  "terminating w why = IFNAME @ primary_iface w @ '' '' @ WPA_EVENT_TERMINATING @ '' - '' @ why"

text \<open>The level is cut out of the text of an event of \<open>nread\<close> characters.\<close>

definition strip_level :: "string \<Rightarrow> nat \<Rightarrow> (int \<times> string) res" where
  "strip_level buf nread =
     (if prefix IFNAME (cstr buf)
      then (case strchr (CHR '' '') buf of
              None \<Rightarrow> Inr (print_buf buf WPA_EVENT_IGNORE)
            | Some m \<Rightarrow>
                if buf ! (m + 1) = CHR ''<''
                then (case strchr (CHR ''>'') (drop (m + 2) buf) of
                        None \<Rightarrow> Inr (int nread, buf)
                      | Some k \<Rightarrow>
                          let m2 = m + 2 + k; nread = nread - (m2 - m)
                          in bindR (memmove (m + 1) (m2 + 1) (nread - m + 1) buf) (\<lambda>buf. Inr (int nread, buf)))
                else Inr (int nread, buf))
      else if take 1 buf = ''<''
      then (case strchr (CHR ''>'') buf of
              None \<Rightarrow> Inr (int nread, buf)
            | Some m \<Rightarrow>
                let nread = nread - (m + 1)
                in bindR (memmove 0 (m + 1) (nread + 1) buf) (\<lambda>buf. Inr (int nread, buf)))
      else Inr (int nread, buf))"

definition wifi_wait_on_socket :: "bool \<Rightarrow> nat \<Rightarrow> string \<Rightarrow> (vlte, (int \<times> string) res) state" where
  "wifi_wait_on_socket client fuel buf = do {
     monitor \<leftarrow> query monitor_conn;
     closed \<leftarrow> query (\<lambda>w. print_buf buf (terminating w ''connection closed''));
     failed \<leftarrow> query (\<lambda>w. print_buf buf (terminating w ''recv error''));
     eof \<leftarrow> query (\<lambda>w. terminating w ''signal 0 received'');
     (case monitor of None \<Rightarrow> State_Monad.return (Inr closed)
      | Some h \<Rightarrow> do {
          let room = (if buf = [] then 2 ^ 64 - 1 else length buf - 1);
          r \<leftarrow> wifi_ctrl_recv client fuel h room;
          (case r of Inl e \<Rightarrow> State_Monad.return (Inl e)
           | Inr (result, t) \<Rightarrow>
               if result = - 2 then State_Monad.return (Inr closed)
               else if result < 0 then State_Monad.return (Inr failed)
               else
                 let nread = (case t of None \<Rightarrow> room | Some t \<Rightarrow> length t);
                     stored = (case t of None \<Rightarrow> Inr buf | Some t \<Rightarrow> store t buf)
                 in State_Monad.return
                   (bindR stored (\<lambda>b.
                    bindR (put_at nread (CHR 0x00) b) (\<lambda>b.
                      if result = 0 \<and> nread = 0 then Inr (print_buf b eof) else strip_level b nread))))
        })
   }"

definition wifi_wait_for_event :: "bool \<Rightarrow> nat \<Rightarrow> string \<Rightarrow> (vlte, (int \<times> string) res) state" where
  "wifi_wait_for_event client fuel buf = wifi_wait_on_socket client fuel buf"

end
