(* ===== verification/VLTE_Reports.thy ===== *)
theory VLTE_Reports
  imports VLTE_Events
begin

text \<open>
  Events of the supplicant as the caller gets them: the level is cut out of the text, whatever else the
  buffer holds; and what an event does that fills the buffer.
\<close>

section \<open>Arrays\<close>

abbreviation NULC :: char where "NULC \<equiv> CHR 0x00"

lemma cstr_append: "NULC \<notin> set s \<Longrightarrow> cstr (s @ NULC # t) = s"
  by (induction s) (auto simp: cstr_def)

lemma cstr_append_prefix: "NULC \<notin> set s \<Longrightarrow> cstr (s @ t) = s @ cstr t"
  by (induction s) (auto simp: cstr_def)

lemma cstr_Cons: "cstr (c # t) = (if c = NULC then [] else c # cstr t)"
  by (simp add: cstr_def)

lemma strchr_append: "NULC \<notin> set s \<Longrightarrow> c \<notin> set s \<Longrightarrow> c \<noteq> NULC \<Longrightarrow> strchr c (s @ c # t) = Some (length s)"
proof -
  assume s: "NULC \<notin> set s" "c \<notin> set s" "c \<noteq> NULC"
  then have "cstr (s @ c # t) = s @ c # cstr t" by (simp add: cstr_append_prefix cstr_Cons)
  moreover have "takeWhile (\<lambda>x. x \<noteq> c) (s @ c # cstr t) = s" using s(2) by (induction s) auto
  ultimately show ?thesis by (simp add: strchr_def)
qed

lemma strchr_none: "NULC \<notin> set s \<Longrightarrow> c \<notin> set s \<Longrightarrow> strchr c (s @ NULC # t) = None"
proof -
  assume s: "NULC \<notin> set s" "c \<notin> set s"
  have "takeWhile (\<lambda>x. x \<noteq> c) s = s" using s(2) by (induction s) auto
  then show ?thesis unfolding strchr_def cstr_append[OF s(1)] Let_def by (simp del: takeWhile_eq_all_conv)
qed

text \<open>Text behind a gap moves down to its start.\<close>

lemma memmove_gap:
  assumes "n \<le> length tail"
  shows "memmove (length p) (length (p @ g)) n (p @ g @ tail) = Inr (p @ take n tail @ drop (length p + n) (p @ g @ tail))"
  using assms by (simp add: memmove_def)

lemma memmove_outside: "length b < src + n \<Longrightarrow> memmove dst src n b = Inl OutOfBounds"
  by (simp add: memmove_def)

section \<open>Messages of the supplicant\<close>

text \<open>An event: the interface it is for, its level, and its text.\<close>

record event =
  ev_iface :: "string option"
  ev_level :: "string option"
  ev_text :: string

definition ev_head :: "event \<Rightarrow> string" where
  "ev_head e = (case ev_iface e of None \<Rightarrow> [] | Some i \<Rightarrow> IFNAME @ i @ '' '')"

definition ev_tag :: "event \<Rightarrow> string" where
  "ev_tag e = (case ev_level e of None \<Rightarrow> [] | Some l \<Rightarrow> ''<'' @ l @ ''>'')"

definition show_event :: "event \<Rightarrow> string" where
  "show_event e = ev_head e @ ev_tag e @ ev_text e"

text \<open>Names without blanks, levels without a closing bracket, and a text that does not look like a head or a level.\<close>

definition ev_ok :: "event \<Rightarrow> bool" where
  "ev_ok e \<longleftrightarrow> NULC \<notin> set (show_event e) \<and>
     (case ev_iface e of None \<Rightarrow> True | Some i \<Rightarrow> CHR '' '' \<notin> set i) \<and>
     (case ev_level e of Some l \<Rightarrow> CHR ''>'' \<notin> set l
      | None \<Rightarrow> take 1 (ev_text e) \<noteq> ''<'' \<and> (ev_iface e = None \<longrightarrow> \<not> prefix IFNAME (ev_text e)))"

lemma strip_iface_level:
  assumes "NULC \<notin> set i" "CHR '' '' \<notin> set i" "NULC \<notin> set l" "CHR ''>'' \<notin> set l" "NULC \<notin> set t"
  defines "p \<equiv> IFNAME @ i @ '' ''" and "g \<equiv> ''<'' @ l @ ''>''"
  shows "strip_level (p @ g @ t @ NULC # rest) (length (p @ g @ t)) =
    bindR (memmove (length p) (length (p @ g)) (length t + 2) (p @ g @ t @ NULC # rest))
      (\<lambda>b. Inr (int (length (p @ t)), b))"
proof -
  let ?b = "p @ g @ t @ NULC # rest"
  have head: "prefix IFNAME (cstr ?b)" by (simp add: p_def cstr_def)
  have m: "strchr (CHR '' '') ?b = Some (length (IFNAME @ i))"
    using strchr_append[of "IFNAME @ i" "CHR '' ''"] assms(1,2) by (simp add: p_def)
  have lt: "?b ! (length (IFNAME @ i) + 1) = CHR ''<''" by (simp add: p_def g_def nth_append)
  have "drop (length (IFNAME @ i) + 2) ?b = l @ CHR ''>'' # t @ NULC # rest" by (simp add: p_def g_def)
  then have k: "strchr (CHR ''>'') (drop (length (IFNAME @ i) + 2) ?b) = Some (length l)"
    using strchr_append[of l "CHR ''>''"] assms(3,4) by simp
  show ?thesis
    unfolding strip_level_def if_P[OF head] m option.case if_P[OF lt] k Let_def
    by (simp add: p_def g_def)
qed

lemma strip_level_only:
  assumes "NULC \<notin> set l" "CHR ''>'' \<notin> set l" "NULC \<notin> set t"
  defines "g \<equiv> ''<'' @ l @ ''>''"
  shows "strip_level (g @ t @ NULC # rest) (length (g @ t)) = Inr (int (length t), t @ NULC # drop (length t + 1) (g @ t @ NULC # rest))"
proof -
  let ?b = "g @ t @ NULC # rest"
  have head: "\<not> prefix IFNAME (cstr ?b)" "take 1 ?b = ''<''" by (simp_all add: g_def cstr_def)
  have m: "strchr (CHR ''>'') ?b = Some (length l + 1)"
    using strchr_append[of "''<'' @ l" "CHR ''>''"] assms(1,2) by (simp add: g_def)
  have mv: "memmove 0 (length g) (length t + 1) ?b = Inr (t @ NULC # drop (length t + 1) ?b)"
    using memmove_gap[of "length t + 1" "t @ NULC # rest" "[]" g] by simp
  show ?thesis
    unfolding strip_level_def if_not_P[OF head(1)] if_P[OF head(2)] m option.case Let_def
    using mv by (simp add: g_def)
qed

lemma strip_iface_only:
  assumes "NULC \<notin> set i" "CHR '' '' \<notin> set i" "take 1 t \<noteq> ''<''"
  shows "strip_level ((IFNAME @ i @ '' '') @ t @ NULC # rest) n = Inr (int n, (IFNAME @ i @ '' '') @ t @ NULC # rest)"
proof -
  let ?b = "(IFNAME @ i @ '' '') @ t @ NULC # rest"
  have head: "prefix IFNAME (cstr ?b)" by (simp add: cstr_def)
  have m: "strchr (CHR '' '') ?b = Some (length (IFNAME @ i))"
    using strchr_append[of "IFNAME @ i" "CHR '' ''"] assms(1,2) by simp
  have "?b ! (length (IFNAME @ i) + 1) = (t @ NULC # rest) ! 0" by (simp add: nth_append)
  also have "\<dots> \<noteq> CHR ''<''" using assms(3) by (cases t) auto
  finally show ?thesis unfolding strip_level_def if_P[OF head] m option.case by simp
qed

lemma strip_plain:
  assumes "NULC \<notin> set t" "take 1 t \<noteq> ''<''" "\<not> prefix IFNAME t"
  shows "strip_level (t @ NULC # rest) n = Inr (int n, t @ NULC # rest)"
proof -
  have "take 1 (t @ NULC # rest) \<noteq> ''<''" using assms(2) by (cases t) auto
  then show ?thesis using assms by (simp add: strip_level_def cstr_append)
qed

text \<open>Every event is reported without its level when the buffer has room for one more byte than the message and its NUL.\<close>

lemma strip_event:
  assumes "ev_ok e" and "rest \<noteq> []"
  shows "\<exists>b. strip_level (show_event e @ NULC # rest) (length (show_event e)) =
      Inr (int (length (ev_head e @ ev_text e)), b) \<and> cstr b = ev_head e @ ev_text e \<and>
      length b = length (show_event e @ NULC # rest)"
proof (cases "ev_iface e")
  case None
  show ?thesis
  proof (cases "ev_level e")
    case None
    then show ?thesis using \<open>ev_iface e = None\<close> assms strip_plain[of "ev_text e" rest]
      by (simp add: ev_ok_def show_event_def ev_head_def ev_tag_def cstr_append)
  next
    case (Some l)
    then show ?thesis using None assms strip_level_only[of l "ev_text e" rest]
      by (simp add: ev_ok_def show_event_def ev_head_def ev_tag_def cstr_append)
  qed
next
  case (Some i)
  show ?thesis
  proof (cases "ev_level e")
    case None
    then show ?thesis using Some assms strip_iface_only[of i "ev_text e" rest]
        cstr_append[of "IFNAME @ i @ '' '' @ ev_text e" rest]
      by (simp add: ev_ok_def show_event_def ev_head_def ev_tag_def)
  next
    case (Some l)
    let ?t = "ev_text e" and ?p = "IFNAME @ i @ '' ''" and ?g = "''<'' @ l @ ''>''"
    obtain x xs where r: "rest = x # xs" using assms(2) by (cases rest) auto
    have ok: "NULC \<notin> set i" "CHR '' '' \<notin> set i" "NULC \<notin> set l" "CHR ''>'' \<notin> set l" "NULC \<notin> set ?t"
      using assms(1) Some \<open>ev_iface e = Some i\<close> by (auto simp: ev_ok_def show_event_def ev_head_def ev_tag_def)
    let ?b = "?p @ (?t @ [NULC, x]) @ drop (length ?p + (length ?t + 2)) (?p @ ?g @ ?t @ NULC # rest)"
    have mv: "memmove (length ?p) (length (?p @ ?g)) (length ?t + 2) (?p @ ?g @ ?t @ NULC # rest) = Inr ?b"
      using memmove_gap[of "length ?t + 2" "?t @ NULC # rest" ?p ?g] by (simp add: r)
    have c: "cstr ?b = ?p @ ?t"
      using cstr_append[of "?p @ ?t" "x # drop (length ?p + (length ?t + 2)) (?p @ ?g @ ?t @ NULC # rest)"] ok by simp
    have "strip_level (?p @ ?g @ ?t @ NULC # rest) (length (?p @ ?g @ ?t)) = Inr (int (length (?p @ ?t)), ?b)"
      unfolding strip_iface_level[OF ok] mv by simp
    moreover have "show_event e = ?p @ ?g @ ?t" "ev_head e = ?p"
      using Some \<open>ev_iface e = Some i\<close> by (simp_all add: show_event_def ev_head_def ev_tag_def)
    moreover have "length ?b = length (?p @ ?g @ ?t @ NULC # rest)" by (simp add: r)
    ultimately show ?thesis using c by (metis append_assoc)
  qed
qed

section \<open>Waiting for an event\<close>

text \<open>
  A message comes after \<open>k\<close> polls of half a minute without one, in each of which the supplicant is not found
  stopped.
\<close>

fun arrives :: "sys \<Rightarrow> call list \<Rightarrow> string \<Rightarrow> conn \<Rightarrow> nat \<Rightarrow> string \<Rightarrow> nat \<Rightarrow> bool" where
  "arrives e cs prop_name h n msg 0 \<longleftrightarrow>
     0 < sys_ret e (cs @ [Poll]) \<and> sys_input e (cs @ [Poll]) \<and>
     sys_ret e (cs @ [Poll, CtrlRecv h n]) = 0 \<and> sys_text e (cs @ [Poll, CtrlRecv h n]) = Some msg"
| "arrives e cs prop_name h n msg (Suc k) \<longleftrightarrow>
     sys_ret e (cs @ [Poll]) = 0 \<and> sys_value e (cs @ [Poll, PropGet prop_name]) \<noteq> ''stopped'' \<and>
     arrives e (cs @ [Poll, PropGet prop_name]) prop_name h n msg k"

lemma recv_arrives:
  "arrives (sys_env w) (sys_calls w) (supplicant_prop_name w) h n msg k \<Longrightarrow> k < fuel \<Longrightarrow> length msg \<le> n \<Longrightarrow>
   fst (run_state (wifi_ctrl_recv True fuel h n) w) = Inr (0, Some msg)"
proof (induction k arbitrary: fuel w)
  case 0
  then obtain f where "fuel = Suc f" by (cases fuel) auto
  then show ?case using 0 by (simp add: run_simps wpa_ctrl_recv_def)
next
  case (Suc k)
  then obtain f where f: "fuel = Suc f" "k < f" by (cases fuel) auto
  let ?w = "w\<lparr>sys_calls := sys_calls w @ [Poll, PropGet (supplicant_prop_name w)]\<rparr>"
  have "run_state (wifi_ctrl_recv True fuel h n) w = run_state (wifi_ctrl_recv True f h n) ?w"
    using Suc.prems(1) by (auto simp: f(1) run_simps wifi_supplicant_connection_active_def)
  then show ?case using Suc.IH[of ?w f] Suc.prems f(2) by simp
qed

lemma wait_message:
  assumes "monitor_conn w = Some h" and "msg \<noteq> []" and "length msg < length buf"
    and "arrives (sys_env w) (sys_calls w) (supplicant_prop_name w) h (length buf - 1) msg k" and "k < fuel"
  shows "fst (run_state (wifi_wait_on_socket True fuel buf) w) = strip_level (msg @ NULC # drop (length msg + 1) buf) (length msg)"
proof -
  have recv: "fst (run_state (wifi_ctrl_recv True fuel h (length buf - 1)) w) = Inr (0, Some msg)"
    by (rule recv_arrives[OF assms(4,5)]) (use assms(3) in simp)
  have "buf \<noteq> []" using assms(3) by auto
  moreover have "put_at (length msg) NULC (msg @ drop (length msg) buf) = Inr (msg @ NULC # drop (length msg + 1) buf)"
    using assms(3) by (simp add: put_at_def list_update_append Cons_nth_drop_Suc[symmetric])
  moreover obtain w' where "run_state (wifi_ctrl_recv True fuel h (length buf - 1)) w = (Inr (0, Some msg), w')"
    using recv by (cases "run_state (wifi_ctrl_recv True fuel h (length buf - 1)) w") auto
  ultimately show ?thesis
    using assms(1-3) by (simp add: wifi_wait_on_socket_def store_def Let_def)
qed

text \<open>
  C24: an event of the supplicant, after any number of polls without one, is handed to the caller without its
  level: the head with the interface and the text are as they came, and the result is their length. This needs
  one byte in the buffer behind the message and its NUL.
\<close>

theorem event_reported:
  assumes "monitor_conn w = Some h" and "ev_ok e" and "show_event e \<noteq> []" and "length (show_event e) + 1 < length buf"
    and "arrives (sys_env w) (sys_calls w) (supplicant_prop_name w) h (length buf - 1) (show_event e) k" and "k < fuel"
  shows "\<exists>b. fst (run_state (wifi_wait_for_event True fuel buf) w) = Inr (int (length (ev_head e @ ev_text e)), b) \<and>
             cstr b = ev_head e @ ev_text e \<and> length b = length buf"
proof -
  have "drop (length (show_event e) + 1) buf \<noteq> []" using assms(4) by simp
  from strip_event[OF assms(2) this] show ?thesis
    using wait_message[OF assms(1,3) _ assms(5,6)] assms(4) by (auto simp: wifi_wait_for_event_def)
qed

text \<open>
  An event with interface and level that fills the buffer up to its NUL makes the code move one byte too
  many and read behind the buffer.
\<close>

theorem full_event_overread:
  assumes "monitor_conn w = Some h" and "ev_ok e" and "ev_iface e \<noteq> None" and "ev_level e \<noteq> None"
    and "length (show_event e) + 1 = length buf"
    and "arrives (sys_env w) (sys_calls w) (supplicant_prop_name w) h (length buf - 1) (show_event e) k" and "k < fuel"
  shows "fst (run_state (wifi_wait_for_event True fuel buf) w) = Inl OutOfBounds"
proof -
  obtain i l where il: "ev_iface e = Some i" "ev_level e = Some l" using assms(3,4) by auto
  let ?t = "ev_text e" and ?p = "IFNAME @ i @ '' ''" and ?g = "''<'' @ l @ ''>''"
  have s: "show_event e = ?p @ ?g @ ?t" using il by (simp add: show_event_def ev_head_def ev_tag_def)
  have ok: "NULC \<notin> set i" "CHR '' '' \<notin> set i" "NULC \<notin> set l" "CHR ''>'' \<notin> set l" "NULC \<notin> set ?t"
    using assms(2) il by (auto simp: ev_ok_def show_event_def ev_head_def ev_tag_def)
  have "memmove (length ?p) (length (?p @ ?g)) (length ?t + 2) (?p @ ?g @ ?t @ [NULC]) = Inl OutOfBounds"
    by (rule memmove_outside) simp
  then have "strip_level (show_event e @ [NULC]) (length (show_event e)) = Inl OutOfBounds"
    using strip_iface_level[OF ok, of "[]"] by (simp only: s append_assoc bindR.simps)
  moreover have "drop (length (show_event e) + 1) buf = []" using assms(5) by simp
  ultimately show ?thesis
    using wait_message[OF assms(1) _ _ assms(6,7)] assms(5) s by (auto simp: wifi_wait_for_event_def)
qed

text \<open>A supplicant that has a message at the first poll.\<close>

definition sends :: "string \<Rightarrow> sys" where
  "sends msg = \<lparr>sys_ret = (\<lambda>cs. case last cs of Poll \<Rightarrow> 1 | _ \<Rightarrow> 0), sys_errno = (\<lambda>_. OtherErr), sys_value = (\<lambda>_. []),
     sys_text = (\<lambda>_. Some msg), sys_conn = (\<lambda>_. None), sys_pair = (\<lambda>_. (0, 0)), sys_input = (\<lambda>_. True)\<rparr>"

definition connected :: "sys \<Rightarrow> vlte" where
  "connected e = \<lparr>sys_env = e, sys_calls = [], errmsg = [], ctrl_conn = Some 1, monitor_conn = Some 2,
     exit_sockets = (3, 4), primary_iface = ''wlan0'', supplicant_name = [], supplicant_prop_name = []\<rparr>"

definition scan_event :: event where
  "scan_event = \<lparr>ev_iface = Some ''wlan0'', ev_level = Some ''3'', ev_text = ''CTRL-EVENT-SCAN-RESULTS ''\<rparr>"

theorem event_reported_witness:
  "\<exists>b. fst (run_state (wifi_wait_for_event True 1 (replicate 64 NULC)) (connected (sends (show_event scan_event)))) =
         Inr (37, b) \<and> cstr b = ''IFNAME=wlan0 CTRL-EVENT-SCAN-RESULTS ''"
proof -
  have ok: "ev_ok scan_event" by (simp add: scan_event_def ev_ok_def show_event_def ev_head_def ev_tag_def)
  have "ev_head scan_event @ ev_text scan_event = ''IFNAME=wlan0 CTRL-EVENT-SCAN-RESULTS ''"
    "show_event scan_event \<noteq> []" "length (show_event scan_event) = 40"
    by (simp_all add: scan_event_def show_event_def ev_head_def ev_tag_def)
  with ok show ?thesis
    using event_reported[of "connected (sends (show_event scan_event))" 2 scan_event "replicate 64 NULC" 0 1]
    by (simp add: connected_def sends_def) blast
qed

theorem full_event_overread_witness:
  "fst (run_state (wifi_wait_for_event True 1 (replicate 41 NULC)) (connected (sends (show_event scan_event)))) = Inl OutOfBounds"
proof -
  have "ev_ok scan_event" by (simp add: scan_event_def ev_ok_def show_event_def ev_head_def ev_tag_def)
  then show ?thesis
    by (intro full_event_overread[where h = 2 and e = scan_event and k = 0])
       (simp_all add: connected_def sends_def scan_event_def show_event_def ev_head_def ev_tag_def)
qed

end
