(* ===== verification/VLTE_Sessions.thy ===== *)
theory VLTE_Sessions
  imports VLTE_Events Step_Systems "HOL-Library.Multiset"
begin

text \<open>
  The handles of the control connection over the life of the process: the operations of \<^verbatim>\<open>wifi.c\<close> as a transition
  system, with the account of the handles that were opened, closed and are held. And the driver: what the
  unload functions report.
\<close>

named_theorems conn_intros "operations that leave the control connection alone"

section \<open>Opened and closed handles\<close>

fun opened_at :: "sys \<Rightarrow> call list \<Rightarrow> call \<Rightarrow> conn multiset" where
  "opened_at e cs (CtrlOpen p) = (case sys_conn e (cs @ [CtrlOpen p]) of None \<Rightarrow> {#} | Some h \<Rightarrow> {#h#})"
| "opened_at e cs c = {#}"

fun closed_at :: "call \<Rightarrow> conn multiset" where
  "closed_at (CtrlClose h) = {#h#}"
| "closed_at c = {#}"

text \<open>The handles that a history of calls has opened: \<open>pre\<close> is what came before it.\<close>

fun opened :: "sys \<Rightarrow> call list \<Rightarrow> call list \<Rightarrow> conn multiset" where
  "opened e pre [] = {#}"
| "opened e pre (c # cs) = opened_at e pre c + opened e (pre @ [c]) cs"

definition closed :: "call list \<Rightarrow> conn multiset" where
  "closed cs = sum_list (map closed_at cs)"

definition held :: "vlte \<Rightarrow> conn multiset" where
  "held w = (case ctrl_conn w of None \<Rightarrow> {#} | Some h \<Rightarrow> {#h#}) + (case monitor_conn w of None \<Rightarrow> {#} | Some h \<Rightarrow> {#h#})"

lemma opened_append: "opened e pre (xs @ ys) = opened e pre xs + opened e (pre @ xs) ys"
  by (induction xs arbitrary: pre) auto

lemma closed_append: "closed (xs @ ys) = closed xs + closed ys"
  by (simp add: closed_def)

lemma closed_single: "closed [c] = closed_at c"
  by (simp add: closed_def)

definition opened_by :: "vlte \<Rightarrow> conn multiset" where
  "opened_by w = opened (sys_env w) [] (sys_calls w)"

text \<open>
  Every handle that was opened is closed, held or in \<open>l\<close>, once each. What \<open>lost\<close> gives is no longer held and was never
  closed.
\<close>

definition account :: "conn multiset \<Rightarrow> vlte \<Rightarrow> bool" where
  "account l w \<longleftrightarrow> opened_by w = closed (sys_calls w) + held w + l"

definition lost :: "vlte \<Rightarrow> conn multiset" where
  "lost w = opened_by w - (closed (sys_calls w) + held w)"

lemma account_lost: "closed (sys_calls w) + held w \<subseteq># opened_by w \<longleftrightarrow> account (lost w) w"
  unfolding account_def lost_def using mset_subset_eq_add_left[of "closed (sys_calls w) + held w"] by (metis subset_mset.add_diff_inverse)

lemma lost_account: "account l w \<Longrightarrow> lost w = l"
  by (simp add: account_def lost_def)

section \<open>Operations that leave the connection alone\<close>

definition conn_call :: "call \<Rightarrow> bool" where
  "conn_call c \<longleftrightarrow> (case c of CtrlOpen _ \<Rightarrow> True | CtrlClose _ \<Rightarrow> True | _ \<Rightarrow> False)"

definition aside :: "vlte \<Rightarrow> vlte \<Rightarrow> bool" where
  "aside w w' \<longleftrightarrow> sys_env w' = sys_env w \<and> ctrl_conn w' = ctrl_conn w \<and> monitor_conn w' = monitor_conn w \<and>
     (\<exists>cs. sys_calls w' = sys_calls w @ cs \<and> (\<forall>c\<in>set cs. \<not> conn_call c))"

abbreviation keeps_conn :: "(vlte, 'a) state \<Rightarrow> bool" where
  "keeps_conn m \<equiv> state_io_rel aside m"

lemma aside_refl: "aside w w"
  by (simp add: aside_def)

lemma aside_trans: "aside u v \<Longrightarrow> aside v w \<Longrightarrow> aside u w"
  by (fastforce simp: aside_def)

lemma keeps_return [conn_intros]: "keeps_conn (State_Monad.return x)"
  by (auto simp: aside_refl)

lemma keeps_bind [conn_intros]: "keeps_conn m \<Longrightarrow> (\<And>x. keeps_conn (f x)) \<Longrightarrow> keeps_conn (State_Monad.bind m f)"
  unfolding state_io_rel_def by (auto simp: case_prod_beta intro: aside_trans)

lemma keeps_query [conn_intros]: "keeps_conn (query f)"
  by (auto simp: aside_refl)

lemma keeps_ask [conn_intros]: "\<not> conn_call c \<Longrightarrow> keeps_conn (ask sel c)"
  by (auto simp: run_simps aside_def state_io_rel_def)

lemma keeps_tell [conn_intros]: "\<not> conn_call c \<Longrightarrow> keeps_conn (tell c)"
  by (auto simp: run_simps aside_def state_io_rel_def)

lemma keeps_modify [conn_intros]:
  "keeps_conn (modify (\<lambda>w. w\<lparr>exit_sockets := f w\<rparr>))" "keeps_conn (modify (\<lambda>w. w\<lparr>primary_iface := g w\<rparr>))"
  "keeps_conn (modify (\<lambda>w. w\<lparr>supplicant_name := h w, supplicant_prop_name := i w\<rparr>))"
  by (auto simp: aside_def)

lemma keeps_if [conn_intros]: "(b \<Longrightarrow> keeps_conn m) \<Longrightarrow> (\<not> b \<Longrightarrow> keeps_conn n) \<Longrightarrow> keeps_conn (if b then m else n)"
  by simp

lemma keeps_option [conn_intros]:
  "keeps_conn m \<Longrightarrow> (\<And>x. keeps_conn (f x)) \<Longrightarrow> keeps_conn (case x of None \<Rightarrow> m | Some x \<Rightarrow> f x)"
  by (cases x) auto

lemma keeps_sum [conn_intros]:
  "(\<And>e. keeps_conn (f e)) \<Longrightarrow> (\<And>x. keeps_conn (g x)) \<Longrightarrow> keeps_conn (case x of Inl e \<Rightarrow> f e | Inr x \<Rightarrow> g x)"
  by (cases x) auto

lemma keeps_prod [conn_intros]: "(\<And>a b. keeps_conn (f a b)) \<Longrightarrow> keeps_conn (case p of (a, b) \<Rightarrow> f a b)"
  by (cases p) auto

lemma keeps_let [conn_intros]: "(\<And>x. keeps_conn (f x)) \<Longrightarrow> keeps_conn (let x = a in f x)"
  by simp

lemma not_conn [simp, conn_intros]:
  "\<not> conn_call (PropGet n)" "\<not> conn_call (PropSet n v)" "\<not> conn_call (PropFind n)" "\<not> conn_call PropSerial" "\<not> conn_call PropRead"
  "\<not> conn_call (Usleep k)" "\<not> conn_call SchedYield" "\<not> conn_call (LoadFile n)" "\<not> conn_call (InitModule n v)" "\<not> conn_call (DeleteModule n)"
  "\<not> conn_call (ReadText n)" "\<not> conn_call (Access n)" "\<not> conn_call (Chmod n)" "\<not> conn_call (Chown n)" "\<not> conn_call (Unlink n)"
  "\<not> conn_call (OpenRead n)" "\<not> conn_call (OpenWrite n)" "\<not> conn_call (OpenCreate n)" "\<not> conn_call (Read i)" "\<not> conn_call (Write i v)"
  "\<not> conn_call (Close i)" "\<not> conn_call CtrlCleanup" "\<not> conn_call (CtrlAttach h)" "\<not> conn_call (CtrlRequest h n)"
  "\<not> conn_call (CtrlRecv h k)" "\<not> conn_call SocketPair" "\<not> conn_call Poll"
  "\<not> conn_call IfcInit" "\<not> conn_call IfcClose" "\<not> conn_call (DoDhcp n)" "\<not> conn_call GetDhcpInfo"
  by (simp_all add: conn_call_def)

lemma keeps_property [conn_intros]:
  "keeps_conn (property_get n)" "keeps_conn (property_set n v)" "keeps_conn (property_is n v)"
  unfolding property_get_def property_set_def property_is_def by (intro conn_intros)+

lemma keeps_poll_until [conn_intros]: "keeps_conn (poll_until us n good k)"
  by (induction k) (simp_all, (intro conn_intros | assumption)+)

lemma keeps_poll [conn_intros]: "keeps_conn (poll_property us n v k)"
  unfolding poll_property_def by (rule keeps_poll_until)

lemma keeps_modules [conn_intros]: "keeps_conn (insmod f a)" "keeps_conn (rmmod_loop n r k)" "keeps_conn (rmmod n)"
proof -
  show "keeps_conn (insmod f a)" unfolding insmod_def by (intro conn_intros)
  have loop: "keeps_conn (rmmod_loop n r k)" for n r k
    by (induction k arbitrary: r) (simp_all, (intro conn_intros | assumption)+)
  then show "keeps_conn (rmmod_loop n r k)" "keeps_conn (rmmod n)" by (simp_all add: rmmod_def)
qed

lemma keeps_check [conn_intros]: "keeps_conn found \<Longrightarrow> keeps_conn (check_modules n t found)"
  unfolding check_modules_def by (intro conn_intros)

lemma keeps_fst [conn_intros]: "keeps_conn is_fst_enabled" "keeps_conn is_fst_driver_loaded"
  unfolding is_fst_enabled_def is_fst_driver_loaded_def by (intro conn_intros)+

lemma keeps_unload [conn_intros]: "keeps_conn loaded \<Longrightarrow> keeps_conn (unload_result loaded)"
proof -
  assume l: "keeps_conn loaded"
  have "keeps_conn (unload_wait loaded k)" for k
    by (induction k) (simp_all, (intro conn_intros l | assumption)+)
  then show ?thesis unfolding unload_result_def by (intro conn_intros)
qed

lemma keeps_driver [conn_intros]:
  "keeps_conn wifi_fst_load_driver" "keeps_conn wifi_fst_unload_driver" "keeps_conn is_wifi_driver_loaded"
  unfolding wifi_fst_load_driver_def wifi_fst_unload_driver_def is_wifi_driver_loaded_def by (intro conn_intros)+

lemma keeps_wifi_unload [conn_intros]: "keeps_conn wifi_unload_driver"
  unfolding wifi_unload_driver_def by (intro conn_intros)

lemma keeps_wifi_load [conn_intros]: "keeps_conn wifi_load_driver"
proof -
  have "keeps_conn (load_loop k)" for k
    by (induction k) (simp_all, (intro conn_intros | assumption)+)
  then show ?thesis unfolding wifi_load_driver_def by (intro conn_intros)
qed

lemma keeps_files [conn_intros]:
  "keeps_conn last_errno" "keeps_conn (file_owner f)" "keeps_conn (copy_loop k i j)"
  "keeps_conn (file_present f)" "keeps_conn ensure_entropy_file_exists" "keeps_conn (ensure_config_file_exists k f g)"
proof -
  show err: "keeps_conn last_errno" unfolding last_errno_def by (intro conn_intros)
  show own: "keeps_conn (file_owner f)" for f unfolding file_owner_def by (intro conn_intros)
  show copy: "keeps_conn (copy_loop k i j)" for k i j
    by (induction k) (simp_all, (intro conn_intros | assumption)+)
  show pre: "keeps_conn (file_present f)" for f unfolding file_present_def by (intro conn_intros err)
  show "keeps_conn ensure_entropy_file_exists"
    unfolding ensure_entropy_file_exists_def by (intro conn_intros err own pre)
  show "keeps_conn (ensure_config_file_exists k f g)"
    unfolding ensure_config_file_exists_def by (intro conn_intros err own pre copy)
qed

lemma keeps_fstman [conn_intros]: "keeps_conn (wifi_start_fstman k b)" "keeps_conn (wifi_stop_fstman b)"
  unfolding wifi_start_fstman_def wifi_stop_fstman_def by (intro conn_intros)+

lemma keeps_choice [conn_intros]: "keeps_conn (set_supplicant n p)" "keeps_conn set_p2p" "keeps_conn set_vlte"
  unfolding set_p2p_def set_vlte_def set_supplicant_def by (intro conn_intros)+

lemma keeps_start_loop [conn_intros]: "keeps_conn (start_loop k pi serial)"
  by (induction k arbitrary: pi) (simp_all, (intro conn_intros | assumption)+)

lemma keeps_service [conn_intros]: "keeps_conn (start_service client)" "keeps_conn stop_service"
  unfolding start_service_def stop_service_def by (intro conn_intros)+

lemma keeps_supplicant [conn_intros]:
  "keeps_conn (wifi_start_supplicant client k b)" "keeps_conn (wifi_stop_supplicant b)" "keeps_conn (wifi_stop_android_supplicant b)"
  unfolding wifi_start_supplicant_def wifi_stop_supplicant_def wifi_stop_android_supplicant_def by (intro conn_intros)+

lemma keeps_others [conn_intros]:
  "keeps_conn do_dhcp_request" "keeps_conn (wifi_change_fw_path p)" "keeps_conn wifi_supplicant_connection_active"
  "keeps_conn (wpa_ctrl_request client h cmd n)" "keeps_conn (wpa_ctrl_recv client h n)" "keeps_conn (wpa_ctrl_attach client h)"
  unfolding do_dhcp_request_def wifi_change_fw_path_def wifi_supplicant_connection_active_def wpa_ctrl_request_def
    wpa_ctrl_recv_def wpa_ctrl_attach_def
  by (intro conn_intros)+

lemma keeps_recv [conn_intros]: "keeps_conn (wifi_ctrl_recv client k h n)"
  by (induction k) (simp_all, (intro conn_intros | assumption)+)

lemma keeps_messages [conn_intros]:
  "keeps_conn (wifi_command client cmd reply n)" "keeps_conn (wifi_wait_for_event client k buf)" "keeps_conn (close_fd fd)"
  unfolding wifi_command_def wifi_send_command_def wifi_wait_for_event_def wifi_wait_on_socket_def close_fd_def
  by (intro conn_intros)+

section \<open>The account of the handles\<close>

lemma closed_Cons [simp]: "closed [] = {#}" "closed (c # cs) = closed_at c + closed cs"
  by (simp_all add: closed_def)

lemma aside_opened: "\<forall>c\<in>set cs. \<not> conn_call c \<Longrightarrow> opened e pre cs = {#} \<and> closed cs = {#}"
proof (induction cs arbitrary: pre)
  case (Cons c cs)
  then show ?case by (cases c) (auto simp: conn_call_def)
qed simp

lemma account_aside: "aside w w' \<Longrightarrow> account l w' = account l w"
  using aside_opened by (auto simp: aside_def account_def opened_by_def held_def opened_append closed_append)

lemma held_empty: "held w = {#} \<longleftrightarrow> ctrl_conn w = None \<and> monitor_conn w = None"
  by (auto simp: held_def split: option.splits)

lemma held_aside: "aside w w' \<Longrightarrow> held w' = held w"
  by (simp add: aside_def held_def)

text \<open>
  Connecting while handles are held overwrites them: they are lost, but for the monitor handle when the first of the two
  cannot be opened.
\<close>

lemma connect_account:
  assumes "account l w"
  shows "\<exists>k. k \<subseteq># held w \<and> account (l + k) (snd (run_state (wifi_connect_on_socket_path client path) w))"
proof -
  have "\<exists>k\<in>{{#}, held w, case ctrl_conn w of None \<Rightarrow> {#} | Some h \<Rightarrow> {#h#}}.
      account (l + k) (snd (run_state (wifi_connect_on_socket_path client path) w))"
    using assms
    by (auto simp: wifi_connect_on_socket_path_def wpa_ctrl_open_def wpa_ctrl_close_def wpa_ctrl_attach_def set_conns_def
          run_simps account_def opened_by_def held_def opened_append closed_append split: option.splits)
  moreover have "k \<subseteq># held w" if "k \<in> {{#}, held w, case ctrl_conn w of None \<Rightarrow> {#} | Some h \<Rightarrow> {#h#}}" for k
    using that by (auto simp: held_def)
  ultimately show ?thesis by blast
qed

lemma close_account:
  assumes "account l w" and "client \<or> held w = {#}"
  shows "account l (snd (run_state (wifi_close_sockets client) w)) \<and> held (snd (run_state (wifi_close_sockets client) w)) = {#} \<and>
    closed (sys_calls (snd (run_state (wifi_close_sockets client) w))) = closed (sys_calls w) + held w"
  using assms
  by (auto simp: wifi_close_sockets_def wpa_ctrl_close_def close_fd_def
        run_simps account_def opened_by_def held_def opened_append closed_append split: option.splits)

section \<open>The operations as a transition system\<close>

text \<open>
  The functions that \<^verbatim>\<open>wifi.h\<close> declares, but for two that change nothing. The static variables are zero when the process starts. The callers are outside the repository: every operation may come
  at any time, a second connection while one is held too.
\<close>

definition wifi_init :: "vlte \<Rightarrow> bool" where
  "wifi_init w \<longleftrightarrow> sys_calls w = [] \<and> ctrl_conn w = None \<and> monitor_conn w = None \<and> exit_sockets w = (0, 0) \<and>
     primary_iface w = [] \<and> supplicant_name w = [] \<and> supplicant_prop_name w = []"

inductive wifi_step :: "bool \<Rightarrow> vlte \<Rightarrow> vlte \<Rightarrow> bool" for client where
  connect: "wifi_step client w (snd (run_state (wifi_connect_to_supplicant client) w))"
| disconnect: "wifi_step client w (snd (run_state (wifi_close_supplicant_connection client) w))"
| command: "wifi_step client w (snd (run_state (wifi_command client cmd reply n) w))"
| event: "wifi_step client w (snd (run_state (wifi_wait_for_event client fuel buf) w))"
| start: "wifi_step client w (snd (run_state (wifi_start_supplicant client fuel p2p) w))"
| stop: "wifi_step client w (snd (run_state (wifi_stop_supplicant p2p) w))"
| stop_android: "wifi_step client w (snd (run_state (wifi_stop_android_supplicant p2p) w))"
| load: "wifi_step client w (snd (run_state wifi_load_driver w))"
| unload: "wifi_step client w (snd (run_state wifi_unload_driver w))"
| firmware: "wifi_step client w (snd (run_state (wifi_change_fw_path path) w))"
| dhcp: "wifi_step client w (snd (run_state do_dhcp_request w))"
| loaded: "wifi_step client w (snd (run_state is_wifi_driver_loaded w))"
| insert_module: "wifi_step client w (snd (run_state (insmod file args) w))"
| remove_module: "wifi_step client w (snd (run_state (rmmod module_name) w))"
| entropy: "wifi_step client w (snd (run_state ensure_entropy_file_exists w))"
| config: "wifi_step client w (snd (run_state (ensure_config_file_exists fuel file template) w))"

definition session_inv :: "bool \<Rightarrow> vlte \<Rightarrow> bool" where
  "session_inv client w \<longleftrightarrow> account (lost w) w \<and> (client \<or> held w = {#})"

lemma session_account: "account l w \<Longrightarrow> client \<or> held w = {#} \<Longrightarrow> session_inv client w"
  using lost_account[of l w] by (simp add: session_inv_def)

lemma session_keeps:
  assumes "keeps_conn m" and "session_inv client w"
  shows "session_inv client (snd (run_state m w)) \<and> lost (snd (run_state m w)) = lost w"
proof -
  have a: "aside w (snd (run_state m w))" using assms(1) by (simp add: state_io_rel_def)
  then have "account (lost w) (snd (run_state m w))" using account_aside[OF a] assms(2) by (simp add: session_inv_def)
  then show ?thesis using session_account lost_account held_aside[OF a] assms(2) by (auto simp: session_inv_def)
qed

lemma session_connect:
  assumes "session_inv client w"
  shows "session_inv client (snd (run_state (wifi_connect_to_supplicant client) w)) \<and>
    (\<exists>k. k \<subseteq># held w \<and> lost (snd (run_state (wifi_connect_to_supplicant client) w)) = lost w + k)"
proof -
  let ?w = "w\<lparr>sys_calls := sys_calls w @ [Access ''/data/system/wpa_supplicant'']\<rparr>"
  let ?v = "snd (run_state (wifi_connect_to_supplicant client) w)"
  have a: "aside w ?w" by (simp add: aside_def)
  have w: "account (lost w) ?w" "held ?w = held w"
    using assms account_aside[OF a] held_aside[OF a] by (simp_all add: session_inv_def)
  obtain p where v: "?v = snd (run_state (wifi_connect_on_socket_path client p) ?w)"
    by (auto simp: wifi_connect_to_supplicant_def run_simps)
  obtain k where k: "k \<subseteq># held w" "account (lost w + k) ?v"
    using connect_account[OF w(1), of client p] unfolding v w(2) by blast
  have "client \<or> held ?v = {#}"
  proof (cases client)
    case False
    then have "ctrl_conn ?w = None" "monitor_conn ?w = None" using assms by (simp_all add: session_inv_def held_empty)
    then show ?thesis unfolding v using False
      by (simp add: wifi_connect_on_socket_path_def wpa_ctrl_open_def run_simps held_empty)
  qed simp
  then show ?thesis using k session_account lost_account[OF k(2)] by blast
qed

lemma session_close:
  assumes "session_inv client w"
  defines "v \<equiv> snd (run_state (wifi_close_supplicant_connection client) w)"
  shows "session_inv client v \<and> held v = {#} \<and> lost v = lost w \<and> closed (sys_calls v) = closed (sys_calls w) + held w"
proof -
  let ?u = "snd (run_state (wifi_close_sockets client) w)"
  let ?m = "do { prop_name \<leftarrow> query supplicant_prop_name; poll_property 100000 prop_name ''stopped'' 50; State_Monad.return () }"
  have run: "v = snd (run_state ?m ?u)"
    by (simp add: v_def wifi_close_supplicant_connection_def case_prod_beta)
  have u: "account (lost w) ?u" "held ?u = {#}" "closed (sys_calls ?u) = closed (sys_calls w) + held w"
    using close_account[of "lost w" w client] assms(1) by (auto simp: session_inv_def)
  have k: "keeps_conn ?m" by (intro conn_intros)
  have a: "aside ?u v" unfolding run using k by (simp only: state_io_rel_def)
  have v: "account (lost w) v" "held v = {#}" using account_aside[OF a] held_aside[OF a] u by simp_all
  have "closed (sys_calls v) = closed (sys_calls ?u)" using a aside_opened by (auto simp: aside_def closed_append)
  then show ?thesis using v u(3) session_account lost_account[OF v(1)] by simp
qed

text \<open>What a step does to the account: only a connection asked for while another is held loses handles, and no others.\<close>

lemma session_step:
  assumes "session_inv client w" and "wifi_step client w w'"
  shows "session_inv client w' \<and> (\<exists>k. k \<subseteq># held w \<and> lost w' = lost w + k \<and>
    (w' \<noteq> snd (run_state (wifi_connect_to_supplicant client) w) \<longrightarrow> k = {#}))"
  using assms(2)
proof cases
  case connect
  then show ?thesis using session_connect[OF assms(1)] by blast
next
  case disconnect
  then show ?thesis using session_close[OF assms(1)] by (intro conjI exI[of _ "{#}"]) simp_all
qed (use assms(1) in \<open>auto intro!: session_keeps[THEN conjunct1] exI[of _ "{#}"] session_keeps[THEN conjunct2] conn_intros\<close>)

lemma session_start: "wifi_init w \<Longrightarrow> session_inv client w \<and> lost w = {#}"
  by (auto simp: wifi_init_def session_inv_def account_def lost_def opened_by_def held_def)

interpretation sessions: step_invariant wifi_init "wifi_step client" "session_inv client" for client
  by unfold_locales (use session_start session_step in blast)+

text \<open>
  C25: Whatever operations of the file are called in whatever order, no handle to the supplicant is closed more often than it was opened
  or closed while it is held. Closing the connection closes just the handles that are held, once each, and leaves none. A
  handle that is neither closed nor held any more is lost only when a connection is asked for while handles are
  held: it is one of those; no other step, and no connection asked for while none is held, loses a handle, whether it succeeds
  or fails halfway.
\<close>

theorem connections_closed_once:
  assumes "reach wifi_init (wifi_step client) w"
  shows "closed (sys_calls w) + held w \<subseteq># opened_by w \<and>
    (let w' = snd (run_state (wifi_close_supplicant_connection client) w)
     in closed (sys_calls w') = closed (sys_calls w) + held w \<and> held w' = {#} \<and> lost w' = lost w) \<and>
    (\<forall>w'. wifi_step client w w' \<longrightarrow> (\<exists>k. k \<subseteq># held w \<and> lost w' = lost w + k \<and>
       (w' \<noteq> snd (run_state (wifi_connect_to_supplicant client) w) \<longrightarrow> k = {#})))"
proof -
  have i: "session_inv client w" using sessions.reach_inv[OF assms] .
  then show ?thesis
    using session_close[OF i] session_step[OF i] by (simp add: session_inv_def account_lost Let_def)
qed

text \<open>
  As long as no connection is asked for while one is held, nothing is lost: every handle is closed or held, and after the
  connection is closed every handle ever opened has been closed exactly once.
\<close>

definition careful_step :: "bool \<Rightarrow> vlte \<Rightarrow> vlte \<Rightarrow> bool" where
  "careful_step client w w' \<longleftrightarrow> wifi_step client w w' \<and>
     (held w = {#} \<or> w' \<noteq> snd (run_state (wifi_connect_to_supplicant client) w))"

interpretation careful: step_invariant wifi_init "careful_step client" "\<lambda>w. session_inv client w \<and> lost w = {#}" for client
  by unfold_locales (use session_start session_step in \<open>fastforce simp: careful_step_def\<close>)+

theorem careful_sessions_balanced:
  assumes "reach wifi_init (careful_step client) w"
  shows "opened_by w = closed (sys_calls w) + held w \<and>
    (let w' = snd (run_state (wifi_close_supplicant_connection client) w) in opened_by w' = closed (sys_calls w') \<and> held w' = {#})"
proof -
  have i: "session_inv client w" "lost w = {#}" using careful.reach_inv[OF assms] by simp_all
  then show ?thesis
    using session_close[OF i(1)] unfolding session_inv_def account_def Let_def by auto
qed

text \<open>A process that starts in a system where the supplicant runs and every connection is accepted.\<close>

definition boot :: "sys \<Rightarrow> vlte" where
  "boot e = \<lparr>sys_env = e, sys_calls = [], errmsg = [], ctrl_conn = None, monitor_conn = None,
     exit_sockets = (0, 0), primary_iface = [], supplicant_name = [], supplicant_prop_name = []\<rparr>"

definition accepting :: sys where
  "accepting = \<lparr>sys_ret = (\<lambda>_. 0), sys_errno = (\<lambda>_. OtherErr), sys_value = (\<lambda>_. ''running''), sys_text = (\<lambda>_. None),
     sys_conn = (\<lambda>cs. Some (length cs)), sys_pair = (\<lambda>_. (8, 9)), sys_input = (\<lambda>_. False)\<rparr>"

lemma init_boot: "wifi_init (boot e)"
  by (simp add: wifi_init_def boot_def)

lemma connect_boot:
  "snd (run_state (wifi_connect_to_supplicant True) (boot accepting)) =
     (boot accepting)\<lparr>sys_calls := [Access ''/data/system/wpa_supplicant'', PropGet [], CtrlOpen ''/data/system/wpa_supplicant/'',
        CtrlOpen ''/data/system/wpa_supplicant/'', CtrlAttach 4, SocketPair],
      ctrl_conn := Some 3, monitor_conn := Some 4, exit_sockets := (8, 9)\<rparr>"
  by (simp add: wifi_connect_to_supplicant_def wifi_connect_on_socket_path_def wpa_ctrl_open_def wpa_ctrl_attach_def
      run_simps boot_def accepting_def snprintf_def)

theorem connections_closed_once_witness:
  "let w = snd (run_state (wifi_connect_to_supplicant True) (boot accepting));
       w' = snd (run_state (wifi_close_supplicant_connection True) w);
       v = snd (run_state (wifi_connect_to_supplicant True) w)
   in held w = {#3, 4#} \<and> closed (sys_calls w') = {#3, 4#} \<and> lost v \<subseteq># {#3, 4#}"
proof -
  let ?w = "snd (run_state (wifi_connect_to_supplicant True) (boot accepting))"
  have b: "reach wifi_init (wifi_step True) (boot accepting)" by (rule reach.start) (rule init_boot)
  have r: "reach wifi_init (wifi_step True) ?w" by (rule reach.step[OF b]) (rule wifi_step.connect)
  have h: "held ?w = {#3, 4#}" "closed (sys_calls ?w) = {#}" "opened_by ?w = {#3, 4#}"
    unfolding connect_boot by (simp_all add: held_def opened_by_def boot_def accepting_def eval_nat_numeral)
  have l: "lost ?w = {#}" by (simp add: lost_def h)
  have "wifi_step True ?w (snd (run_state (wifi_connect_to_supplicant True) ?w))" by (rule wifi_step.connect)
  then show ?thesis using connections_closed_once[OF r] by (auto simp: Let_def h l)
qed

text \<open>The first two handles are lost by a second connection without a close in between.\<close>

lemma second_connect_leaks:
  "let w = snd (run_state (do { wifi_connect_to_supplicant True; wifi_connect_to_supplicant True }) (boot accepting))
   in held w = {#9, 10#} \<and> lost w = {#3, 4#}"
proof -
  let ?w1 = "snd (run_state (wifi_connect_to_supplicant True) (boot accepting))"
  have "snd (run_state (do { wifi_connect_to_supplicant True; wifi_connect_to_supplicant True }) (boot accepting)) =
      snd (run_state (wifi_connect_to_supplicant True) ?w1)" by (simp add: case_prod_beta)
  also have "\<dots> = ?w1\<lparr>sys_calls := sys_calls ?w1 @ [Access ''/data/system/wpa_supplicant'', PropGet [],
        CtrlOpen ''/data/system/wpa_supplicant/'', CtrlOpen ''/data/system/wpa_supplicant/'', CtrlAttach 10, SocketPair],
      ctrl_conn := Some 9, monitor_conn := Some 10, exit_sockets := (8, 9)\<rparr>"
    unfolding connect_boot
    by (simp add: wifi_connect_to_supplicant_def wifi_connect_on_socket_path_def wpa_ctrl_open_def wpa_ctrl_attach_def
        run_simps boot_def accepting_def snprintf_def)
  finally have run: "snd (run_state (do { wifi_connect_to_supplicant True; wifi_connect_to_supplicant True }) (boot accepting)) =
      ?w1\<lparr>sys_calls := sys_calls ?w1 @ [Access ''/data/system/wpa_supplicant'', PropGet [],
        CtrlOpen ''/data/system/wpa_supplicant/'', CtrlOpen ''/data/system/wpa_supplicant/'', CtrlAttach 10, SocketPair],
      ctrl_conn := Some 9, monitor_conn := Some 10, exit_sockets := (8, 9)\<rparr>" .
  show ?thesis
    unfolding run Let_def connect_boot by (simp add: held_def lost_def opened_by_def boot_def accepting_def eval_nat_numeral)
qed

section \<open>The program as it is built\<close>

text \<open>
  Without the client library, which the build does not select, no reachable state has a connection: asking for one
  fails, every command is refused with the buffer of the reply as it was, and waiting for an event returns at once with
  the message that the connection is closed.
\<close>

theorem unbuilt_client_never_connects:
  assumes "reach wifi_init (wifi_step False) w"
  shows "ctrl_conn w = None \<and> monitor_conn w = None \<and>
    fst (run_state (wifi_connect_to_supplicant False) w) = - 1 \<and>
    run_state (wifi_command False cmd reply n) w = (Inr (- 1, reply, n), w) \<and>
    run_state (wifi_wait_for_event False fuel buf) w = (Inr (print_buf buf (terminating w ''connection closed'')), w)"
proof -
  have inv: "session_inv False w" using sessions.reach_inv[OF assms] .
  then have "ctrl_conn w = None" "monitor_conn w = None" by (simp_all add: session_inv_def held_empty)
  moreover have "fst (run_state (wifi_connect_to_supplicant False) w) = - 1"
    by (simp add: wifi_connect_to_supplicant_def wifi_connect_on_socket_path_def wpa_ctrl_open_def run_simps)
  ultimately show ?thesis
    by (simp add: wifi_command_def wifi_send_command_def wifi_wait_for_event_def wifi_wait_on_socket_def)
qed

theorem unbuilt_client_never_connects_witness:
  "fst (run_state (wifi_connect_to_supplicant False) (boot accepting)) = - 1 \<and>
   fst (run_state (wifi_command False ''PING'' [] 0) (boot accepting)) = Inr (- 1, [], 0)"
  using unbuilt_client_never_connects[OF reach.start[where start = wifi_init, OF init_boot], where cmd = "''PING''" and reply = "[]" and n = 0]
  by simp

text \<open>
  The descriptors of the exit sockets are zero until the supplicant is started: closing the connection before that
  closes descriptor 0.
\<close>

lemma close_before_start_closes_stdin:
  "sys_calls (snd (run_state (wifi_close_sockets client) (boot e))) = [Close 0, Close 0]"
  by (simp add: wifi_close_sockets_def close_fd_def wpa_ctrl_close_def boot_def run_simps)

section \<open>What the unload functions report\<close>

text \<open>A module that stays loaded through all twenty rounds leaves the counter at \<open>- 1\<close>, which counts as success.\<close>

lemma keeps_env: "keeps_conn m \<Longrightarrow> sys_env (snd (run_state m w)) = sys_env w"
  by (simp add: state_io_rel_def aside_def)

lemma unload_wait_stuck:
  assumes "keeps_conn loaded" and "\<And>w. sys_env w = e \<Longrightarrow> fst (run_state loaded w)"
  shows "sys_env w = e \<Longrightarrow> fst (run_state (unload_wait loaded n) w) = - 1"
proof (induction n arbitrary: w)
  case (Suc n)
  let ?v = "snd (run_state loaded w)"
  have "sys_env ?v = e" using keeps_env[OF assms(1)] Suc.prems by simp
  then show ?case using assms(2)[OF Suc.prems] Suc.IH[of "?v\<lparr>sys_calls := sys_calls ?v @ [Usleep 500000]\<rparr>"]
    by (simp add: case_prod_beta run_simps)
qed simp

lemma unload_result_stuck:
  assumes "keeps_conn loaded" and "\<And>w. sys_env w = e \<Longrightarrow> fst (run_state loaded w)" and "sys_env w = e"
  shows "fst (run_state (unload_result loaded) w) = 0"
  using unload_wait_stuck[of loaded e w 20] assms by (simp add: unload_result_def case_prod_beta run_simps)

text \<open>A module that is gone in the last round leaves it at 0, which counts as failure.\<close>

lemma unload_result_late:
  "fst (run_state (unload_wait loaded 20) w) = 0 \<Longrightarrow> fst (run_state (unload_result loaded) w) = - 1"
  by (simp add: unload_result_def case_prod_beta run_simps)

text \<open>A system in which the module stays in the list, although its removal is accepted; session transfer is off.\<close>

definition sticky :: "sys \<Rightarrow> bool" where
  "sticky e \<longleftrightarrow> (\<forall>cs.
     (last cs = PropGet DRIVER_PROP_NAME \<longrightarrow> sys_value e cs = ''ok'') \<and>
     (last cs = PropGet ''persist.fst.rate.upgrade.en'' \<longrightarrow> sys_value e cs = []) \<and>
     (last cs = DeleteModule ''wlan'' \<longrightarrow> sys_ret e cs = 0) \<and>
     (last cs = ReadText ''/proc/modules'' \<longrightarrow> (\<exists>t. sys_text e cs = Some t \<and> module_listed ''wlan '' t)))"

lemma sticky_loaded: "sticky (sys_env w) \<Longrightarrow> fst (run_state is_wifi_driver_loaded w)"
proof -
  assume s: "sticky (sys_env w)"
  let ?cs = "sys_calls w @ [PropGet DRIVER_PROP_NAME, ReadText ''/proc/modules'']"
  have "last ?cs = ReadText ''/proc/modules''" by simp
  then obtain t where t: "sys_text (sys_env w) ?cs = Some t" "module_listed ''wlan '' t"
    using s unfolding sticky_def by blast
  have ok: "sys_value (sys_env w) (sys_calls w @ [PropGet DRIVER_PROP_NAME]) = ''ok''"
    and off: "sys_value (sys_env w) (?cs @ [PropGet ''persist.fst.rate.upgrade.en'']) = []"
    using s by (simp_all add: sticky_def)
  show ?thesis using t ok off
    by (simp add: is_wifi_driver_loaded_def check_modules_def is_fst_driver_loaded_def is_fst_enabled_def run_simps)
qed

lemma rmmod_done:
  "sys_ret (sys_env w) (sys_calls w @ [DeleteModule m]) = 0 \<Longrightarrow>
   run_state (rmmod m) w = (0, w\<lparr>sys_calls := sys_calls w @ [DeleteModule m]\<rparr>)"
  using rmmod_loop.simps(2)[of m "- 1" 9] by (simp add: rmmod_def run_simps)

text \<open>
  C29: A driver module whose removal the kernel accepts but which stays loaded is waited for twenty rounds and then reported as unloaded:
  the result is 0, while the driver still counts as loaded.
\<close>

theorem stuck_module_reported_unloaded:
  assumes "sticky (sys_env w)"
  shows "fst (run_state wifi_unload_driver w) = 0 \<and>
    fst (run_state is_wifi_driver_loaded (snd (run_state wifi_unload_driver w)))"
proof -
  let ?e = "sys_env w"
  let ?w1 = "w\<lparr>sys_calls := sys_calls w @ [Usleep 200000]\<rparr>"
  let ?w2 = "snd (run_state wifi_fst_unload_driver ?w1)"
  let ?w3 = "?w2\<lparr>sys_calls := sys_calls ?w2 @ [DeleteModule ''wlan'']\<rparr>"
  have e2: "sys_env ?w2 = ?e" using keeps_env[of wifi_fst_unload_driver ?w1] by (simp add: conn_intros)
  have rm: "run_state (rmmod ''wlan'') ?w2 = (0, ?w3)"
    by (rule rmmod_done) (use assms e2 in \<open>simp add: sticky_def\<close>)
  have "fst (run_state (unload_result is_wifi_driver_loaded) ?w3) = 0"
    by (rule unload_result_stuck[where e = ?e]) (use assms e2 in \<open>auto intro: conn_intros sticky_loaded\<close>)
  then have "fst (run_state wifi_unload_driver w) = 0"
    by (simp add: wifi_unload_driver_def case_prod_beta run_simps rm)
  moreover have "sticky (sys_env (snd (run_state wifi_unload_driver w)))"
    using assms keeps_env[of wifi_unload_driver w] by (simp add: conn_intros)
  ultimately show ?thesis using sticky_loaded by blast
qed

definition sticky_sys :: sys where
  "sticky_sys = \<lparr>sys_ret = (\<lambda>_. 0), sys_errno = (\<lambda>_. OtherErr),
     sys_value = (\<lambda>cs. case last cs of PropGet n \<Rightarrow> (if n = DRIVER_PROP_NAME then ''ok'' else []) | _ \<Rightarrow> []),
     sys_text = (\<lambda>_. Some ''wlan 6 0 - Live''), sys_conn = (\<lambda>_. None), sys_pair = (\<lambda>_. (0, 0)), sys_input = (\<lambda>_. False)\<rparr>"

theorem stuck_module_reported_unloaded_witness:
  "fst (run_state wifi_unload_driver (boot sticky_sys)) = 0"
proof -
  have "fgets_all 15 ''wlan 6 0 - Live'' = [''wlan 6 0 - Live'']"
    by (simp add: fgets_all.simps[of 15] line_end_def)
  then have "module_listed ''wlan '' ''wlan 6 0 - Live''" by (simp add: module_listed_def)
  then have "sticky (sys_env (boot sticky_sys))" by (simp add: sticky_def boot_def sticky_sys_def)
  from stuck_module_reported_unloaded[OF this] show ?thesis by simp
qed

end
