(* ===== verification/Spec2Isabelle.thy ===== *)
theory Spec2Isabelle
  imports MPD_Rings MPD_Receive MPD_SubFlow RATD_Queue RATD_Messages RATD_Record RATD_Timers RATD_Loop RIL_Threads RIL_Modem RIL_Steps RATD_Links RATD_Sockets VLTE_Network VLTE_Reports VLTE_Sessions
begin

text \<open>
  A verification development for the multi-path driver of the vendor tree
  (\<^verbatim>\<open>packages/multi-stream/mpd\<close>) and for parts of the daemon around it
  (\<^verbatim>\<open>packages/multi-stream/ratd\<close>): its host state machine, its event loop, its send
  queues, its record streams and its messages; and for the radio layer
  (\<^verbatim>\<open>hardware/ril/reference-ril\<close>): its tokenizer, its line reader, the AT channel with its commands, and the
  handlers of the requests of the RIL library; and for the network utilities of the VLTE service
  (\<^verbatim>\<open>packages/vlte/utils\<close>): DHCP client, Wi-Fi driver, supplicant and its control connection.

  \<^bold>\<open>The program.\<close> The driver spreads the packets of a tunnel over up to three radio subflows
  (McWiLL, WiFi, LTE) and puts them back in order at the other end. A sent packet gets a data
  sequence number (DSN, over all subflows) and a subflow sequence number (SSN), is kept in the
  transmit window of its subflow until it is acknowledged, and is resent when a SACK message shows a
  gap. A received packet is recorded in the receive window of its subflow, which drives the
  acknowledgements, and stored in the data window, which delivers in DSN order. A scheduler chooses the
  subflow of a packet by its expected delay; traffic control holds packets back in a wait queue. A
  ten-millisecond tick drives time-outs, statistics and acknowledgements. Buffers pass to the daemon's
  send queues and come back through callbacks. The radio layer speaks to the modem in lines: a reader
  thread cuts the bytes of the modem into lines, a command thread sends a command and waits until the
  reader thread has seen the final line of its response. A request of the RIL library becomes commands whose
  lines are taken apart and put into the answer; other lines of the modem become unsolicited responses. The daemon learns
  the state of its links from the kernel and closes the send queue of a link that is down. The VLTE service starts and stops
  its clients through system properties, waits for them in bounded loops, and speaks to the supplicant through two handles.

  \<^bold>\<open>The model.\<close> The configuration is that of \<^verbatim>\<open>Android.mk\<close> and \<^verbatim>\<open>mpd.h\<close>: 32-bit, \<^verbatim>\<open>MAG\<close>
  undefined, the switches at the top of \<^verbatim>\<open>mpd.h\<close> defined; logging is left out. Each C function is a
  definition of the same name over the session record extended by the globals, the live message
  buffers and the trace of callbacks. A statement with undefined behaviour is a value of \<open>fault\<close>; a loop
  has fuel and \<open>OutOfFuel\<close> is a fault too, so that a property which gives a result \<open>Inr\<close> also says that
  the loop ends. What the driver gets from outside (allocation, contents of fresh memory, results of
  sends, round-trip times) is the record \<open>rat_env\<close>.

  \<^item> \<open>MPD_Prelude\<close>: integer types, constants, faults and results, bounded loops, ring indices, sequence
    numbers with \<^verbatim>\<open>DISTANCESN\<close>, big-endian pairs.
  \<^item> \<open>MPD_Types\<close>: the structs of the headers, buffers, callbacks (\<^verbatim>\<open>mpd.h\<close>, \<^verbatim>\<open>mpd.c\<close>).
  \<^item> \<open>MPD_TxWin\<close>: the transmit window (\<^verbatim>\<open>mpd_tx.c\<close>), its invariant \<open>wf_tx\<close> and its reading as a queue.
  \<^item> \<open>MPD_Schd\<close>: scheduling, delay and rate estimates, traffic control (\<^verbatim>\<open>mpd_schd.c\<close>).
  \<^item> \<open>MPD_RxSub\<close>, \<open>MPD_RxData\<close>: the receive windows and the data window (\<^verbatim>\<open>mpd_rx.c\<close>), with the set of
    received numbers and the run of deliverable slots as their abstractions.
  \<^item> \<open>MPD_Send\<close>: splitting, header, the two senders, the wait queue (\<^verbatim>\<open>mpd_tx.c\<close>).
  \<^item> \<open>MPD_Sack\<close>: acknowledgements at the sender (\<^verbatim>\<open>mpd_sack.c\<close>).
  \<^item> \<open>MPD_Core\<close>: the packet parser, sessions, subflow state, tick and exported functions (\<^verbatim>\<open>mpd.c\<close>).
  \<^item> \<open>MPD_Receive\<close>: a received packet through the parser, both windows and the delivery.
  \<^item> \<open>MPD_Session\<close>: the session table as a transition system over the exported calls and the tick, with
    the states that can be reached and the invariant of the counter.
  \<^item> \<open>MPD_SubFlow\<close>: enabling and disabling a device.
  \<^item> \<open>MPD_Wire\<close>: what one side writes and the other reads: header, SACK message, split packets.
  \<^item> \<open>MPD_Rings\<close>: the locale \<open>drop_oldest\<close> of rings that lose their oldest entry, extended by the release of what is pushed
    out and by a numbered log, interpreted on the sending of packets into the transmit window and on the wait queue; and
    the release of everything they hold.
  \<^item> \<open>C_Strings\<close>: the functions of the C library on strings that the daemon calls, with printing and scanning
    of numbers as inverse functions.
  \<^item> \<open>RATD_Codec\<close>, \<open>RATD_Messages\<close>: commands of the application, requests to the gateway and the answers of both
    (\<^verbatim>\<open>dataparse.c\<close>), what is written and read back, and the writes that leave their arrays.
  \<^item> \<open>RATD_Record\<close>: the stream of records of a socket (\<^verbatim>\<open>record_stream.c\<close>) and the loop of its readers.
  \<^item> \<open>RATD_Event\<close>, \<open>RATD_Timers\<close>: the event loop (\<^verbatim>\<open>mcwill_event.c\<close>): linked lists of events in a store, read as
    lists of addresses; the timers in order of their times; the watch table.
  \<^item> \<open>RATD_Loop\<close>: a round of the loop over the host state: the pending events and the callbacks, with the locale
    \<open>event_callbacks\<close> of what the walk asks of a callback, interpreted on the timer function of the daemon, which arms its own
    event again. Of the functions of the descriptors it asks nothing, as the property is about rounds in which none is ready.
  \<^item> \<open>RATD_Daemon\<close>, \<open>RATD_Handlers\<close>: the host state of the daemon and its handlers (\<^verbatim>\<open>mpcd.c\<close>), each a function over a
    record that contains the event loop; what it asks the system for is a record of answers, what it
    sends, calls or starts a trace.
  \<^item> \<open>RATD_Control\<close>, \<open>RATD_Subflows\<close>: the daemon as a transition system with the invariant of its subflows, the
    release of its descriptors, the start of the first subflow, failures that stick, and the numbers
    that the daemon and the driver share.
  \<^item> \<open>Step_Systems\<close>: reachable states and the locale \<open>step_invariant\<close>, interpreted on the sessions of the driver, on the
    daemon, on the threads of the AT channel and on the radio.
  \<^item> \<open>RATD_Queue\<close>: the send queues (\<^verbatim>\<open>queue.c\<close>, \<^verbatim>\<open>mp_data.c\<close>), with the locale \<open>bounded_fifo\<close> interpreted on
    them.
  \<^item> \<open>RIL_Tok\<close>: the tokenizer of response lines (\<^verbatim>\<open>at_tok.c\<close>, \<^verbatim>\<open>misc.c\<close>); a cursor is the rest of the line.
  \<^item> \<open>RIL_Reader\<close>: the line buffer as an array with offsets, \<^verbatim>\<open>readline\<close> and the reader thread (\<^verbatim>\<open>atchannel.c\<close>), over a
    script of what \<^verbatim>\<open>read\<close> answers; the lines do not depend on the script's pieces.
  \<^item> \<open>RIL_Channel\<close>, \<open>RIL_Commands\<close>: the state shared by the threads, the handling of a line, the sending of a command
    and the wait for its response (\<^verbatim>\<open>atchannel.c\<close>); what response a command gets.
  \<^item> \<open>RIL_Threads\<close>: the handshake, and all interleavings of the reader thread with the command threads.

  \<^item> \<open>RIL_Types\<close>, \<open>RIL_Parse\<close>, \<open>RIL_Radio\<close>, \<open>RIL_Requests\<close>: the static variables of \<^verbatim>\<open>reference-ril.c\<close> as a record with a trace
    of what goes to the modem and to the library; the parsers of response lines; radio, SIM and technology of
    the modem with the callbacks of the channel; the request handlers and their dispatch.
  \<^item> \<open>RIL_Contract\<close>, \<open>RIL_Answers\<close>: the locale \<open>at_modem\<close> of what a command hands out, interpreted on the channel of
    \<open>RIL_Channel\<close>; under it each handler ends and completes its request once, unless it shifts by a technology that the modem
    named out of range, and the exceptions are named.
  \<^item> \<open>RIL_Lines\<close>, \<open>RIL_Modem\<close>: lines as the modem prints them and what the parsers read in them; from the lines on the
    channel to the answer of a request, and the lines on which handlers go wrong.
  \<^item> \<open>RIL_Steps\<close>: requests, timed callbacks and the callbacks of the channel as a transition system; the closed
    channel, and what the reader thread may do.

  \<^item> \<open>RATD_Netlink\<close>, \<open>RATD_Links\<close>: the netlink messages in their buffer of bytes and the flags of the links (\<^verbatim>\<open>mpcd.c\<close>);
    messages as the kernel writes them are read back, reads stay inside the buffer, a link that is down
    closes its queue.
  \<^item> \<open>RATD_Sockets\<close>: sockets, tunnel device and route commands (\<^verbatim>\<open>netlib.c\<close>, \<^verbatim>\<open>tun_dev.c\<close>) and the calls between daemon and
    driver (\<^verbatim>\<open>mp_data.c\<close>), with an account of the descriptors that are open.
  \<^item> \<open>VLTE_System\<close>: the static variables of the utilities, and the system around them: computations of the state monad that
    record each call; an answer is a function of all calls before it.
  \<^item> \<open>VLTE_Dhcp\<close>, \<open>VLTE_Network\<close>: the DHCP utilities (\<^verbatim>\<open>dhcp_utils.c\<close>), their waits, and the configuration they report.
  \<^item> \<open>VLTE_Wifi\<close>, \<open>VLTE_Supplicant\<close>, \<open>VLTE_Events\<close>: kernel modules, files, supplicant, control connection, commands and events
    (\<^verbatim>\<open>wifi.c\<close>, \<^verbatim>\<open>wifi_fst.c\<close>).
  \<^item> \<open>VLTE_Reports\<close>, \<open>VLTE_Sessions\<close>: events with their level cut out; the operations in any order as a transition system with the account of
    its handles and of those it loses, the program as it is built, and what unloading a driver reports.

  \<^bold>\<open>Fuel.\<close> A loop that walks a ring under a condition it does not change has the size of the ring as its
  fuel (1024, 4096, 512): after one round it would repeat itself. A loop that advances a 16-bit number
  by one until it meets another has 65536. The walks along the event lists have no fuel: they are partial
  functions whose results are proved to exist for lists that are linked as the code links them. The rounds of the reader thread have the number of lines as their
  fuel. The VLTE utilities copy a file and poll their socket without a bound of their own: their fuel is a parameter, and
  any number above the rounds that the system takes is enough.

  \<^bold>\<open>Not modelled.\<close> Logging; code that the configuration compiles out; threads and the semaphore around
  the exported functions (each call is one step); the start of the daemon's process with its threads and
  its wake-up pipe (in the handlers of the daemon its sockets, tunnel device and shell commands are parameters or events of its trace); callbacks of the reader
  thread while a request handler waits for its command (a handler is one step), the start of the RIL
  (\<^verbatim>\<open>RIL_Init\<close>, \<^verbatim>\<open>rild.c\<close>: options, sockets and threads), \<^verbatim>\<open>getRUIMStatus\<close>, which has no caller; and the rest of the vendor tree, which is third-party or calls into hardware.
\<close>

end
